(* ===== verification/Prelude.thy ===== *)
theory Prelude
  imports
    Main
    "HOL-Library.Word"
    "HOL-Library.Signed_Division"
    "HOL-Library.Char_ord"
    "HOL-Library.List_Lexorder"
    "HOL-Library.Product_Lexorder"
begin

text \<open>
  Shared vocabulary of the development: error values, the sequencing of
  operations that may fail, preservation of invariants along such sequences, and
  the list lemmas the table and routing proofs share.

  A Go function \<open>func f(args) (T, error)\<close> that also changes state is a HOL function
  \<open>args \<Rightarrow> 'w \<Rightarrow> (err + 'a) \<times> 'w\<close>: the sum is the pair of Go results (\<open>Inl\<close> is a non-nil
  error), the second component is the state after the call. \<open>bindE\<close> is the idiom
  \<open>x, err := f(); if err != nil { return nil, err }\<close>.
\<close>

section \<open>Error values\<close>

text \<open>
  The sentinel errors the code compares with \<open>errors.Is\<close>, the errors it builds from
  text (\<open>errors.New\<close>, \<open>fmt.Errorf\<close>), wrapping (\<open>%w\<close>) and \<open>errors.Join\<close>.
  \<open>DriverErr\<close> stands for any failure of the database driver, \<open>CtxErr\<close> for a
  cancelled context, \<open>Panic\<close> for a failed type assertion.
\<close>

datatype err =
    NotFound
  | NoRouteAvailable
  | PaymentRejected
  | CircuitOpenErr
  | OperationUnsupported
  | SystemRoleErr
  | CtxErr
  | DriverErr
  | Panic string
  | Msg string
  | Wrap string err
  | Joined "err list"

fun error_text :: "err \<Rightarrow> string" where
  "error_text NotFound = ''record not found''"
| "error_text NoRouteAvailable = ''no active provider route available''"
| "error_text PaymentRejected = ''payment request rejected by extension''"
| "error_text CircuitOpenErr = ''provider circuit breaker is open''"
| "error_text OperationUnsupported = ''provider operation is not supported''"
| "error_text SystemRoleErr = ''system roles cannot be changed or deleted''"
| "error_text CtxErr = ''context canceled''"
| "error_text DriverErr = ''database error''"
| "error_text (Panic s) = s"
| "error_text (Msg s) = s"
| "error_text (Wrap p e) = p @ '': '' @ error_text e"
| "error_text (Joined es) = concat (map (\<lambda>e. error_text e @ [CHR 0x0A]) es)"

text \<open>\<open>errors.Is err target\<close>: the error or one it wraps is the target.\<close>

fun errors_is :: "err \<Rightarrow> err \<Rightarrow> bool" where
  "errors_is (Wrap p e) t = (Wrap p e = t \<or> errors_is e t)"
| "errors_is (Joined es) t = (Joined es = t \<or> (\<exists>e\<in>set es. errors_is e t))"
| "errors_is e t = (e = t)"

text \<open>\<open>errors.Join\<close> of the non-nil errors: nil when there is none.\<close>

definition errors_join :: "err list \<Rightarrow> err + unit" where
  "errors_join es = (if es = [] then Inr () else Inl (Joined es))"

section \<open>Sequencing of fallible operations\<close>

type_synonym ('w, 'a) oper = "'w \<Rightarrow> (err + 'a) \<times> 'w"

definition returnE :: "'a \<Rightarrow> ('w, 'a) oper" where
  "returnE x w = (Inr x, w)"

definition throwE :: "err \<Rightarrow> ('w, 'a) oper" where
  "throwE e w = (Inl e, w)"

definition bindE :: "('w, 'a) oper \<Rightarrow> ('a \<Rightarrow> ('w, 'b) oper) \<Rightarrow> ('w, 'b) oper" where
  "bindE m k w = (case m w of (Inl e, w') \<Rightarrow> (Inl e, w') | (Inr x, w') \<Rightarrow> k x w')"

text \<open>The result of a call is inspected instead of returned on error.\<close>

definition handleE :: "('w, 'a) oper \<Rightarrow> (err + 'a \<Rightarrow> ('w, 'b) oper) \<Rightarrow> ('w, 'b) oper" where
  "handleE m k w = (case m w of (r, w') \<Rightarrow> k r w')"

text \<open>A pure check: \<open>if cond { return err }\<close>.\<close>

definition failIf :: "bool \<Rightarrow> err \<Rightarrow> ('w, unit) oper" where
  "failIf b e w = (if b then Inl e else Inr (), w)"

text \<open>A pure fallible function used inside a sequence.\<close>

definition liftE :: "err + 'a \<Rightarrow> ('w, 'a) oper" where
  "liftE r w = (r, w)"

named_theorems effect_defs "unfolding of the sequencing operators"

lemmas [effect_defs] = returnE_def throwE_def failIf_def liftE_def

lemma bindE_Inl [simp]: "m w = (Inl e, w') \<Longrightarrow> bindE m k w = (Inl e, w')"
  by (simp add: bindE_def)

lemma bindE_Inr [simp]: "m w = (Inr x, w') \<Longrightarrow> bindE m k w = k x w'"
  by (simp add: bindE_def)

lemma handleE_eq [simp]: "m w = (r, w') \<Longrightarrow> handleE m k w = k r w'"
  by (simp add: handleE_def)

lemma returnE_app [simp]: "returnE x w = (Inr x, w)"
  by (simp add: returnE_def)

lemma throwE_app [simp]: "throwE e w = (Inl e, w)"
  by (simp add: throwE_def)

lemma failIf_app [simp]: "failIf True e w = (Inl e, w)" "failIf False e w = (Inr (), w)"
  by (simp_all add: failIf_def)

lemma liftE_app [simp]: "liftE r w = (r, w)"
  by (simp add: liftE_def)

text \<open>Inversion of a successful sequence: every stage succeeded.\<close>

lemma bindE_InrE:
  assumes "bindE m k w = (Inr y, w')"
  obtains x w1 where "m w = (Inr x, w1)" and "k x w1 = (Inr y, w')"
  using assms by (auto simp: bindE_def split: prod.splits sum.splits)

lemma bindE_InlE:
  assumes "bindE m k w = (Inl e, w')"
  obtains (first) "m w = (Inl e, w')"
    | (later) x w1 where "m w = (Inr x, w1)" and "k x w1 = (Inl e, w')"
  using assms by (auto simp: bindE_def split: prod.splits sum.splits)

lemma bindE_Inr_eq: "m w = (Inr x, w1) \<Longrightarrow> bindE m k w = (Inr y, w') \<Longrightarrow> k x w1 = (Inr y, w')"
  by simp

lemma failIf_InrD: "failIf b e w = (Inr u, w') \<Longrightarrow> \<not> b \<and> w' = w"
  by (simp add: failIf_def split: if_splits)

lemma failIf_InlD: "failIf b e w = (Inl e', w') \<Longrightarrow> b \<and> e' = e \<and> w' = w"
  by (simp add: failIf_def split: if_splits)

lemma bindE_failIf: "bindE (failIf b e) k w = (if b then (Inl e, w) else k () w)"
  by (simp add: bindE_def failIf_def)

lemma bindE_liftE:
  "bindE (liftE r) k w = (case r of Inl e \<Rightarrow> (Inl e, w) | Inr x \<Rightarrow> k x w)"
  by (simp add: bindE_def liftE_def)

lemma bindE_assoc: "bindE (bindE m k) h w = bindE m (\<lambda>x. bindE (k x) h) w"
  by (auto simp: bindE_def split: prod.splits sum.splits)

section \<open>What a sequence of operations keeps\<close>

text \<open>
  A relation between the state before and after an operation that is reflexive and
  transitive is kept by a sequence when each stage keeps it. The components
  interpret this contract on their own relations (a table is unchanged, terminal
  statuses stay, ...), so that the frame of an operation is read off its text.
\<close>

definition moves :: "('w \<Rightarrow> 'w \<Rightarrow> bool) \<Rightarrow> ('w, 'a) oper \<Rightarrow> bool" where
  "moves R m \<longleftrightarrow> (\<forall>w. R w (snd (m w)))"

lemma movesI [intro?]: "(\<And>w. R w (snd (m w))) \<Longrightarrow> moves R m"
  by (simp add: moves_def)

lemma movesD: "moves R m \<Longrightarrow> m w = (r, w') \<Longrightarrow> R w w'"
  by (metis moves_def snd_conv)

locale effect_preorder =
  fixes R :: "'w \<Rightarrow> 'w \<Rightarrow> bool"
  assumes refl_R: "R w w"
    and trans_R: "R u v \<Longrightarrow> R v w \<Longrightarrow> R u w"
begin

lemma moves_returnE: "moves R (returnE x)"
  by (simp add: moves_def refl_R)

lemma moves_throwE: "moves R (throwE e)"
  by (simp add: moves_def refl_R)

lemma moves_failIf: "moves R (failIf b e)"
  by (simp add: moves_def failIf_def refl_R)

lemma moves_liftE: "moves R (liftE r)"
  by (simp add: moves_def refl_R)

lemma moves_Pair: "moves R (Pair r)"
  by (simp add: moves_def refl_R)

lemma moves_bindE:
  assumes "moves R m" and "\<And>x. moves R (k x)"
  shows "moves R (bindE m k)"
proof
  fix w
  obtain r w1 where m: "m w = (r, w1)" by (cases "m w")
  with assms(1) have "R w w1" by (rule movesD)
  moreover have "R w1 (snd (k x w1))" for x
    using assms(2) by (simp add: moves_def)
  ultimately show "R w (snd (bindE m k w))"
    using m by (cases r) (auto intro: trans_R)
qed

lemma moves_handleE:
  assumes "moves R m" and "\<And>r. moves R (k r)"
  shows "moves R (handleE m k)"
proof
  fix w
  obtain r w1 where m: "m w = (r, w1)" by (cases "m w")
  with assms(1) have "R w w1" by (rule movesD)
  moreover have "R w1 (snd (k r w1))"
    using assms(2) by (simp add: moves_def)
  ultimately show "R w (snd (handleE m k w))"
    using m by (auto intro: trans_R)
qed

lemmas moves_intros =
  moves_returnE moves_throwE moves_failIf moves_liftE moves_Pair moves_bindE moves_handleE

end

text \<open>Preservation of a state predicate is such a relation.\<close>

abbreviation keeps :: "('w \<Rightarrow> bool) \<Rightarrow> 'w \<Rightarrow> 'w \<Rightarrow> bool" where
  "keeps I \<equiv> (\<lambda>w w'. I w \<longrightarrow> I w')"

interpretation keeps: effect_preorder "keeps I" for I
  by unfold_locales auto

section \<open>Lists\<close>

lemma find_Some_in_set: "List.find P xs = Some x \<Longrightarrow> x \<in> set xs \<and> P x"
  by (metis find_Some_iff nth_mem)

lemma find_None_all: "List.find P xs = None \<Longrightarrow> x \<in> set xs \<Longrightarrow> \<not> P x"
  by (simp add: find_None_iff)

lemma find_map_eq:
  assumes "\<And>x. x \<in> set xs \<Longrightarrow> P (f x) = P x"
  shows "List.find P (map f xs) = map_option f (List.find P xs)"
  using assms by (induction xs) auto

lemma sort_key_filter_hd:
  assumes "sort_key k xs = y # ys" and "x \<in> set xs"
  shows "k y \<le> k x"
proof -
  have "sorted (map k (y # ys))" using assms(1) by (metis sorted_sort_key)
  moreover have "x \<in> set (y # ys)" using assms by (metis set_sort)
  ultimately show ?thesis by auto
qed

end
