(* ===== verification/GoStrings.thy ===== *)
theory GoStrings
  imports Prelude
begin

text \<open>
  The parts of Go's \<open>strings\<close> and \<open>unicode\<close> packages the program uses, and the helpers of
  \<open>internal/utils\<close> and \<open>providers/redact.go\<close> built on them.

  A Go string is a byte sequence, here a \<open>char list\<close> (a \<open>char\<close> is a byte), so
  \<open>length\<close> is Go's \<open>len\<close>. White space is recognised in its UTF-8 encoding, all of
  Unicode's \<open>White_Space\<close>. Case mapping is exact on ASCII and on the four code
  points outside ASCII whose mapping lands in ASCII (dotless i, long s, dotted I,
  the Kelvin sign); other non-ASCII bytes are kept as they are.
\<close>

section \<open>White space\<close>

definition space_codes :: "string list" where
  "space_codes =
    [[CHR 0x09], [CHR 0x0A], [CHR 0x0B], [CHR 0x0C], [CHR 0x0D], [CHR 0x20],
     [CHR 0xC2, CHR 0x85], [CHR 0xC2, CHR 0xA0], [CHR 0xE1, CHR 0x9A, CHR 0x80],
     [CHR 0xE2, CHR 0x80, CHR 0x80], [CHR 0xE2, CHR 0x80, CHR 0x81],
     [CHR 0xE2, CHR 0x80, CHR 0x82], [CHR 0xE2, CHR 0x80, CHR 0x83],
     [CHR 0xE2, CHR 0x80, CHR 0x84], [CHR 0xE2, CHR 0x80, CHR 0x85],
     [CHR 0xE2, CHR 0x80, CHR 0x86], [CHR 0xE2, CHR 0x80, CHR 0x87],
     [CHR 0xE2, CHR 0x80, CHR 0x88], [CHR 0xE2, CHR 0x80, CHR 0x89],
     [CHR 0xE2, CHR 0x80, CHR 0x8A], [CHR 0xE2, CHR 0x80, CHR 0xA8],
     [CHR 0xE2, CHR 0x80, CHR 0xA9], [CHR 0xE2, CHR 0x80, CHR 0xAF],
     [CHR 0xE2, CHR 0x81, CHR 0x9F], [CHR 0xE3, CHR 0x80, CHR 0x80]]"

definition has_prefix :: "string \<Rightarrow> string \<Rightarrow> bool" where
  "has_prefix p s \<longleftrightarrow> take (length p) s = p"

text \<open>One code of the list at the front of the string, removed.\<close>

definition strip_one :: "string list \<Rightarrow> string \<Rightarrow> string option" where
  "strip_one codes s =
     map_option (\<lambda>c. drop (length c) s) (List.find (\<lambda>c. c \<noteq> [] \<and> has_prefix c s) codes)"

lemma strip_one_shorter: "strip_one codes s = Some s' \<Longrightarrow> length s' < length s"
  by (auto simp: strip_one_def has_prefix_def dest!: find_Some_in_set)
     (metis append_take_drop_id diff_less length_greater_0_conv list.size(3) take_Nil)

function trim_by :: "string list \<Rightarrow> string \<Rightarrow> string" where
  "trim_by codes s = (case strip_one codes s of None \<Rightarrow> s | Some s' \<Rightarrow> trim_by codes s')"
  by pat_completeness auto
termination
  by (relation "measure (\<lambda>(codes, s). length s)") (auto dest: strip_one_shorter)

declare trim_by.simps [simp del]

definition trim_left :: "string \<Rightarrow> string" where
  "trim_left s = trim_by space_codes s"

definition trim_right :: "string \<Rightarrow> string" where
  "trim_right s = rev (trim_by (map rev space_codes) (rev s))"

text \<open>\<open>strings.TrimSpace\<close>\<close>

definition trim_space :: "string \<Rightarrow> string" where
  "trim_space s = trim_right (trim_left s)"

lemma trim_by_stable: "strip_one codes s = None \<Longrightarrow> trim_by codes s = s"
  by (subst trim_by.simps) simp

lemma strip_one_trim_by [simp]: "strip_one codes (trim_by codes s) = None"
proof (induction codes s rule: trim_by.induct)
  case (1 codes s)
  then show ?case
    by (cases "strip_one codes s") (simp_all add: trim_by.simps [of codes s])
qed

lemma trim_by_idem: "trim_by codes (trim_by codes s) = trim_by codes s"
  by (rule trim_by_stable) simp

lemma trim_by_suffix: "\<exists>p. s = p @ trim_by codes s"
proof (induction codes s rule: trim_by.induct)
  case (1 codes s)
  show ?case
  proof (cases "strip_one codes s")
    case None
    then show ?thesis by (simp add: trim_by_stable)
  next
    case (Some s')
    with "1.IH" obtain p where "s' = p @ trim_by codes s'" by blast
    moreover from Some obtain n where "s' = drop n s" by (auto simp: strip_one_def)
    ultimately have "s = (take n s @ p) @ trim_by codes s'" by (metis append.assoc append_take_drop_id)
    then have "s = (take n s @ p) @ trim_by codes s"
      using Some by (simp add: trim_by.simps [of codes s])
    then show ?thesis by blast
  qed
qed

lemma trim_right_prefix: "\<exists>q. s = trim_right s @ q"
proof -
  obtain p where "rev s = p @ trim_by (map rev space_codes) (rev s)"
    using trim_by_suffix by blast
  then have "s = rev (trim_by (map rev space_codes) (rev s)) @ rev p"
    by (metis rev_append rev_rev_ident)
  then show ?thesis by (auto simp: trim_right_def)
qed

text \<open>A code that begins a prefix begins the string, so trimming the right end
  cannot expose white space on the left.\<close>

lemma strip_one_None_prefix:
  assumes "strip_one codes (a @ b) = None"
  shows "strip_one codes a = None"
proof -
  have "\<not> has_prefix c a" if "c \<in> set codes" "c \<noteq> []" for c
  proof
    assume "has_prefix c a"
    then have "has_prefix c (a @ b)" by (metis append_take_drop_id append.assoc append_eq_conv_conj has_prefix_def)
    with that assms show False by (auto simp: strip_one_def find_None_iff)
  qed
  then show ?thesis by (auto simp: strip_one_def find_None_iff)
qed

lemma trim_space_idem: "trim_space (trim_space s) = trim_space s"
proof -
  let ?l = "trim_left s"
  obtain q where q: "?l = trim_right ?l @ q" using trim_right_prefix by blast
  have "strip_one space_codes ?l = None" by (simp add: trim_left_def)
  then have "strip_one space_codes (trim_right ?l) = None"
    using q by (metis strip_one_None_prefix)
  then have "trim_left (trim_right ?l) = trim_right ?l"
    by (simp add: trim_left_def trim_by_stable)
  then show ?thesis by (simp add: trim_space_def trim_right_def trim_by_idem)
qed

section \<open>Case mapping\<close>

definition upper_char :: "char \<Rightarrow> char" where
  "upper_char c =
     (let n = of_char c :: nat in if 97 \<le> n \<and> n \<le> 122 then char_of (n - 32) else c)"

definition lower_char :: "char \<Rightarrow> char" where
  "lower_char c =
     (let n = of_char c :: nat in if 65 \<le> n \<and> n \<le> 90 then char_of (n + 32) else c)"

text \<open>\<open>strings.ToUpper\<close> and \<open>strings.ToLower\<close>\<close>

fun to_upper :: "string \<Rightarrow> string" where
  "to_upper [] = []"
| "to_upper [c] = [upper_char c]"
| "to_upper (c # d # s) =
     (if c = CHR 0xC4 \<and> d = CHR 0xB1 then CHR ''I'' # to_upper s
      else if c = CHR 0xC5 \<and> d = CHR 0xBF then CHR ''S'' # to_upper s
      else upper_char c # to_upper (d # s))"

fun to_lower :: "string \<Rightarrow> string" where
  "to_lower [] = []"
| "to_lower (c # s) =
     (if c = CHR 0xC4 \<and> has_prefix [CHR 0xB0] s then CHR ''i'' # to_lower (drop 1 s)
      else if c = CHR 0xE2 \<and> has_prefix [CHR 0x84, CHR 0xAA] s then CHR ''k'' # to_lower (drop 2 s)
      else lower_char c # to_lower s)"

text \<open>\<open>strings.EqualFold\<close>: equality under simple case folding; long s and the Kelvin sign
  fold to s and k.\<close>

fun fold_case :: "string \<Rightarrow> string" where
  "fold_case [] = []"
| "fold_case (c # s) =
     (if c = CHR 0xC5 \<and> has_prefix [CHR 0xBF] s then CHR ''s'' # fold_case (drop 1 s)
      else if c = CHR 0xE2 \<and> has_prefix [CHR 0x84, CHR 0xAA] s then CHR ''k'' # fold_case (drop 2 s)
      else lower_char c # fold_case s)"

definition equal_fold :: "string \<Rightarrow> string \<Rightarrow> bool" where
  "equal_fold a b \<longleftrightarrow> fold_case a = fold_case b"

lemma upper_char_upper [simp]: "65 \<le> (of_char c :: nat) \<Longrightarrow> of_char c \<le> (90 :: nat) \<Longrightarrow> upper_char c = c"
  by (simp add: upper_char_def)

lemma equal_fold_refl [simp]: "equal_fold a a"
  by (simp add: equal_fold_def)

section \<open>Searching and splitting\<close>

primrec contains :: "string \<Rightarrow> string \<Rightarrow> bool" where
  "contains sub [] = (sub = [])"
| "contains sub (c # s) = (has_prefix sub (c # s) \<or> contains sub s)"

definition has_suffix :: "string \<Rightarrow> string \<Rightarrow> bool" where
  "has_suffix p s \<longleftrightarrow> has_prefix (rev p) (rev s)"

text \<open>\<open>strings.Split\<close> on a one-byte separator and \<open>strings.Cut\<close>.\<close>

fun split_on :: "char \<Rightarrow> string \<Rightarrow> string list" where
  "split_on c [] = [[]]"
| "split_on c (x # s) =
     (if x = c then [] # split_on c s
      else case split_on c s of [] \<Rightarrow> [[x]] | p # ps \<Rightarrow> (x # p) # ps)"

definition cut :: "char \<Rightarrow> string \<Rightarrow> string \<times> string \<times> bool" where
  "cut c s = (let p = takeWhile (\<lambda>x. x \<noteq> c) s
              in if length p < length s then (p, drop (length p + 1) s, True) else (s, [], False))"

fun join_with :: "string \<Rightarrow> string list \<Rightarrow> string" where
  "join_with sep [] = []"
| "join_with sep [x] = x"
| "join_with sep (x # xs) = x @ sep @ join_with sep xs"

text \<open>\<open>%q\<close> on a text of printable ASCII.\<close>

definition quoted :: "string \<Rightarrow> string" where
  "quoted s =
     [CHR 0x22] @
     concat (map (\<lambda>c. if c = CHR 0x22 \<or> c = CHR 0x5C then [CHR 0x5C, c] else [c]) s) @ [CHR 0x22]"

text \<open>\<open>strings.Fields\<close>: the maximal runs free of white space. \<open>acc\<close> is the run being
  read, reversed.\<close>

function fields_from :: "string \<Rightarrow> string \<Rightarrow> string list" where
  "fields_from acc [] = (if acc = [] then [] else [rev acc])"
| "fields_from acc (c # s) =
     (case strip_one space_codes (c # s) of
        Some s' \<Rightarrow> (if acc = [] then fields_from [] s' else rev acc # fields_from [] s')
      | None \<Rightarrow> fields_from (c # acc) s)"
  by pat_completeness auto
termination
  by (relation "measure (\<lambda>(acc, s). length s)") (auto dest: strip_one_shorter)

definition fields :: "string \<Rightarrow> string list" where
  "fields s = fields_from [] s"

lemma split_on_nonempty: "split_on c s \<noteq> []"
  by (induction s) (auto split: list.splits)

lemma fields_from_nonempty: "f \<in> set (fields_from acc s) \<Longrightarrow> f \<noteq> []"
  by (induction acc s rule: fields_from.induct) (auto split: option.splits if_splits)

lemma fields_nonempty: "f \<in> set (fields s) \<Longrightarrow> f \<noteq> []"
  by (auto simp: fields_def dest: fields_from_nonempty)

end
