(* ===== verification/Utils.thy ===== *)
theory Utils
  imports GoStrings
begin

text \<open>
  The pure helpers of \<open>internal/utils\<close> and \<open>providers/redact.go\<close>, with the parts of
  \<open>strconv\<close> and \<open>fmt\<close> they call. An \<open>int64\<close> is a \<open>64 word\<close> read with \<open>sint\<close>.

  \<open>golang.org/x/text/language\<close> is not part of the repository: \<open>region s\<close> is the parameter
  \<open>ParseRegion(s)\<close> succeeds and the region \<open>IsCountry()\<close>.
\<close>

type_synonym i64 = "64 word"

section \<open>int64 arithmetic\<close>

text \<open>Go's \<open>/\<close> and \<open>%\<close> truncate towards zero; the result wraps like every \<open>int64\<close>.\<close>

definition i64_div :: "i64 \<Rightarrow> i64 \<Rightarrow> i64" where
  "i64_div x y = word_of_int (sint x sdiv sint y)"

definition i64_mod :: "i64 \<Rightarrow> i64 \<Rightarrow> i64" where
  "i64_mod x y = word_of_int (sint x smod sint y)"

lemma sint_i64: "- 9223372036854775808 \<le> k \<Longrightarrow> k < 9223372036854775808 \<Longrightarrow> sint (word_of_int k :: i64) = k"
  by (simp add: sint_sbintrunc' signed_take_bit_int_eq_self_iff)

lemma sint_i64_ge [simp]: "- 9223372036854775808 \<le> sint (x :: i64)"
  using sint_ge [of x] by simp

lemma sint_i64_less [simp]: "sint (x :: i64) < 9223372036854775808"
  using sint_lt [of x] by simp

lemma i64_add_eq: "(x :: i64) + y = word_of_int (sint x + sint y)"
  by simp

lemma i64_mult_eq: "(x :: i64) * y = word_of_int (sint x * sint y)"
  by simp

lemma sint_i64_div:
  assumes "0 \<le> sint x" and "0 < sint y"
  shows "sint (i64_div x y) = sint x div sint y"
proof -
  have "sint x sdiv sint y = sint x div sint y"
    using assms by (cases "sint x = 0") (simp_all add: signed_divide_int_def)
  moreover have "sint x div sint y \<le> sint x"
    using assms int_div_less_self [of "sint x" "sint y"] by (cases "sint x = 0 \<or> sint y = 1") auto
  moreover have "0 \<le> sint x div sint y"
    using assms by (simp add: pos_imp_zdiv_nonneg_iff)
  moreover note sint_i64_less [of x]
  ultimately have "sint (word_of_int (sint x div sint y) :: i64) = sint x div sint y"
    by (intro sint_i64) linarith+
  with \<open>sint x sdiv sint y = _\<close> show ?thesis by (simp only: i64_div_def)
qed

lemma sint_i64_mod:
  assumes "0 \<le> sint x" and "0 < sint y"
  shows "sint (i64_mod x y) = sint x mod sint y"
proof -
  have "sint x smod sint y = sint x mod sint y"
    using assms by (simp add: signed_modulo_int_def sgn_if)
  moreover have "0 \<le> sint x mod sint y" "sint x mod sint y < sint y"
    using assms by simp_all
  moreover note sint_i64_less [of y]
  ultimately have "sint (word_of_int (sint x mod sint y) :: i64) = sint x mod sint y"
    by (intro sint_i64) linarith+
  with \<open>sint x smod sint y = _\<close> show ?thesis by (simp only: i64_mod_def)
qed

section \<open>Decimal numbers\<close>

definition digit_char :: "nat \<Rightarrow> char" where
  "digit_char d = char_of (48 + d)"

fun format_nat :: "nat \<Rightarrow> string" where
  "format_nat n = (if n < 10 then [digit_char n] else format_nat (n div 10) @ [digit_char (n mod 10)])"

declare format_nat.simps [simp del]

text \<open>\<open>strconv.FormatInt(x, 10)\<close>\<close>

definition format_int :: "int \<Rightarrow> string" where
  "format_int x = (if x < 0 then ''-'' @ format_nat (nat (- x)) else format_nat (nat x))"

definition digit_val :: "char \<Rightarrow> nat option" where
  "digit_val c =
     (let n = of_char c :: nat in if 48 \<le> n \<and> n \<le> 57 then Some (n - 48) else None)"

fun digits_val :: "nat \<Rightarrow> string \<Rightarrow> nat option" where
  "digits_val acc [] = Some acc"
| "digits_val acc (c # s) =
     (case digit_val c of None \<Rightarrow> None | Some d \<Rightarrow> digits_val (10 * acc + d) s)"

text \<open>\<open>strconv.ParseInt(s, 10, 64)\<close>: an optional sign, at least one digit, and a value
  that fits 64 bits. \<open>strconv.Atoi\<close> is the same function where \<open>int\<close> has 64 bits.\<close>

definition parse_unsigned :: "string \<Rightarrow> nat option" where
  "parse_unsigned s = (if s = [] then None else digits_val 0 s)"

definition parse_int :: "string \<Rightarrow> err + i64" where
  "parse_int s =
     (let neg = has_prefix ''-'' s;
          body = (if neg \<or> has_prefix ''+'' s then drop 1 s else s)
      in case parse_unsigned body of
           None \<Rightarrow> Inl (Msg ''invalid syntax'')
         | Some n \<Rightarrow>
             (if neg then (if n \<le> 2 ^ 63 then Inr (word_of_int (- int n)) else Inl (Msg ''value out of range''))
              else (if n < 2 ^ 63 then Inr (word_of_int (int n)) else Inl (Msg ''value out of range''))))"

lemma digit_val_digit_char [simp]: "d < 10 \<Longrightarrow> digit_val (digit_char d) = Some d"
  by (simp add: digit_val_def digit_char_def)

lemma digits_val_append:
  "digits_val acc (s @ t) = (case digits_val acc s of None \<Rightarrow> None | Some n \<Rightarrow> digits_val n t)"
  by (induction s arbitrary: acc) (auto split: option.splits)

lemma digits_val_format_nat: "digits_val 0 (format_nat n) = Some n"
proof (induction n rule: format_nat.induct)
  case (1 n)
  then show ?case
    by (cases "n < 10") (simp_all add: format_nat.simps [of n] digits_val_append)
qed

lemma format_nat_nonempty [simp]: "format_nat n \<noteq> []"
  by (subst format_nat.simps) simp

definition is_digit :: "char \<Rightarrow> bool" where
  "is_digit c \<longleftrightarrow> digit_val c \<noteq> None"

lemma format_nat_digits: "\<forall>c \<in> set (format_nat n). is_digit c"
proof (induction n rule: format_nat.induct)
  case (1 n)
  then show ?case
    by (cases "n < 10") (simp_all add: format_nat.simps [of n] is_digit_def)
qed

lemma is_digit_range: "is_digit c \<longleftrightarrow> 48 \<le> (of_char c :: nat) \<and> (of_char c :: nat) \<le> 57"
  by (simp add: is_digit_def digit_val_def Let_def)

lemma not_digit_signs [simp]:
  "\<not> is_digit (CHR ''-'')" "\<not> is_digit (CHR ''+'')" "\<not> is_digit (CHR ''.'')"
  by (simp_all add: is_digit_range)

section \<open>Dynamic values\<close>

text \<open>
  A value of Go type \<open>any\<close> in a decoded configuration or payload. \<open>GOther\<close> is a value of
  another dynamic type (a float, a slice), carried as the text \<open>fmt.Sprint\<close> gives it.
  A \<open>map[string]any\<close> is an association list with distinct keys.
\<close>

datatype gval = GNil | GStr string | GBool bool | GInt int | GObj "(string \<times> gval) list" | GOther string

type_synonym gmap = "(string \<times> gval) list"

fun sprint :: "gval \<Rightarrow> string" where
  "sprint GNil = ''<nil>''"
| "sprint (GStr s) = s"
| "sprint (GBool b) = (if b then ''true'' else ''false'')"
| "sprint (GInt n) = format_int n"
| "sprint (GObj kvs) =
     ''map['' @ join_with '' ''
       (map (\<lambda>(k, v). k @ '':'' @ v) (sort_key fst (map (\<lambda>(k, v). (k, sprint v)) kvs))) @ '']''"
| "sprint (GOther s) = s"

text \<open>A missing key reads as nil.\<close>

definition lookup_any :: "gmap \<Rightarrow> string \<Rightarrow> gval" where
  "lookup_any m k = (case map_of m k of None \<Rightarrow> GNil | Some v \<Rightarrow> v)"

section \<open>internal/utils/config.go\<close>

fun First :: "string list \<Rightarrow> string" where
  "First [] = []"
| "First (v # vs) = (let t = trim_space v in if t \<noteq> [] then t else First vs)"

definition text_of :: "gval \<Rightarrow> string" where
  "text_of v = (if v = GNil then [] else trim_space (sprint v))"

definition StringAt :: "gmap \<Rightarrow> string \<Rightarrow> string" where
  "StringAt m k = text_of (lookup_any m k)"

definition BoolAt :: "gmap \<Rightarrow> string \<Rightarrow> bool" where
  "BoolAt m k = (let v = to_lower (text_of (lookup_any m k)) in v = ''true'' \<or> v = ''1'')"

text \<open>\<open>strconv.Atoi\<close> returns the clamped bound beside a range error and zero beside a
  syntax error; \<open>Int\<close> drops the error and keeps the value.\<close>

definition atoi_value :: "string \<Rightarrow> i64" where
  "atoi_value s =
     (case parse_int s of
        Inr x \<Rightarrow> x
      | Inl e \<Rightarrow>
          (if e = Msg ''value out of range''
           then (if has_prefix ''-'' s then word_of_int (- (2 ^ 63)) else word_of_int (2 ^ 63 - 1))
           else 0))"

definition IntAt :: "gmap \<Rightarrow> string \<Rightarrow> i64" where
  "IntAt m k = atoi_value (text_of (lookup_any m k))"

fun path_from :: "gval \<Rightarrow> string list \<Rightarrow> gval option" where
  "path_from v [] = Some v"
| "path_from (GObj kvs) (k # ks) = path_from (lookup_any kvs k) ks"
| "path_from _ (k # ks) = None"

definition PathAt :: "gmap \<Rightarrow> string \<Rightarrow> string" where
  "PathAt m p = (case path_from (GObj m) (split_on (CHR ''.'') p) of None \<Rightarrow> [] | Some v \<Rightarrow> text_of v)"

section \<open>internal/utils/currency.go and country.go\<close>

definition is_upper :: "char \<Rightarrow> bool" where
  "is_upper c \<longleftrightarrow> 65 \<le> (of_char c :: nat) \<and> (of_char c :: nat) \<le> 90"

definition NormalizeCurrency :: "string \<Rightarrow> err + string" where
  "NormalizeCurrency value =
     (let v = to_upper (trim_space value) in
      if length v \<noteq> 3 then Inl (Msg ''currency must be a three-letter code'')
      else if list_all is_upper v then Inr v
      else Inl (Msg ''currency must be a three-letter code''))"

definition NormalizeTransactionCountry :: "(string \<Rightarrow> bool) \<Rightarrow> string \<Rightarrow> err + string" where
  "NormalizeTransactionCountry region country =
     (let c = trim_space country in
      if length c \<noteq> 2 \<or> \<not> region c then Inl (Msg ''country must be a supported ISO-3166 alpha-2 code'')
      else Inr (to_upper c))"

definition NormalizeOptionalCountry :: "(string \<Rightarrow> bool) \<Rightarrow> string \<Rightarrow> err + string" where
  "NormalizeOptionalCountry region country =
     (if trim_space country = [] then Inr [] else NormalizeTransactionCountry region country)"

text \<open>Letters are neither white space nor changed by a second normalization. A code of
  white space starts with no printable ASCII character, from either end.\<close>

lemma strip_one_None_hd:
  assumes "\<And>c. c \<in> set codes \<Longrightarrow> c \<noteq> [] \<Longrightarrow> hd c \<noteq> x"
  shows "strip_one codes (x # s) = None"
proof -
  have "\<not> has_prefix c (x # s)" if "c \<in> set codes" "c \<noteq> []" for c
    using assms [OF that] that by (cases c) (auto simp: has_prefix_def)
  then show ?thesis by (auto simp: strip_one_def find_None_iff)
qed

definition graphic :: "char \<Rightarrow> bool" where
  "graphic c \<longleftrightarrow> 33 \<le> (of_char c :: nat) \<and> (of_char c :: nat) \<le> 126"

lemma space_code_ends:
  "c \<in> set space_codes \<Longrightarrow> \<not> graphic (hd c)"
  "c \<in> set (map rev space_codes) \<Longrightarrow> \<not> graphic (hd c)"
  by (auto simp: space_codes_def graphic_def)

lemma strip_one_Nil [simp]: "strip_one codes [] = None"
  by (auto simp: strip_one_def has_prefix_def find_None_iff)

lemma strip_one_graphic:
  assumes "s \<noteq> [] \<Longrightarrow> graphic (hd s)"
    and codes: "\<And>c. c \<in> set codes \<Longrightarrow> \<not> graphic (hd c)"
  shows "strip_one codes s = None"
  using assms by (cases s) (auto intro!: strip_one_None_hd)

text \<open>Nothing is trimmed from a text whose ends are printable ASCII.\<close>

lemma trim_space_graphic:
  assumes "s \<noteq> [] \<Longrightarrow> graphic (hd s)" and "s \<noteq> [] \<Longrightarrow> graphic (last s)"
  shows "trim_space s = s"
proof -
  have "strip_one (map rev space_codes) (rev s) = None"
    using assms(2) by (intro strip_one_graphic space_code_ends) (simp add: hd_rev)
  moreover have "strip_one space_codes s = None"
    using assms(1) by (intro strip_one_graphic space_code_ends)
  ultimately show ?thesis
    by (simp add: trim_space_def trim_left_def trim_right_def trim_by_stable)
qed

lemma trim_space_graphic_all:
  assumes "\<forall>c\<in>set s. graphic c"
  shows "trim_space s = s"
  using assms by (intro trim_space_graphic) auto

lemma graphic_upper: "is_upper c \<Longrightarrow> graphic c"
  by (simp add: is_upper_def graphic_def)

lemma graphic_digit: "is_digit c \<Longrightarrow> graphic c"
  by (simp add: is_digit_range graphic_def)

lemma graphic_signs [simp]: "graphic (CHR ''-'')" "graphic (CHR ''.'')" "graphic (CHR ''+'')"
  by (simp_all add: graphic_def)

lemma trim_space_upper: "list_all is_upper s \<Longrightarrow> trim_space s = s"
  by (rule trim_space_graphic_all) (auto simp: list_all_iff graphic_upper)

lemma to_upper_upper: "list_all is_upper s \<Longrightarrow> to_upper s = s"
  by (induction s rule: to_upper.induct) (auto simp: is_upper_def)

lemma NormalizeCurrency_InrD:
  assumes "NormalizeCurrency s = Inr c"
  shows "length c = 3" and "list_all is_upper c"
  using assms by (auto simp: NormalizeCurrency_def Let_def split: if_splits)

lemma NormalizeCurrency_upper:
  "length c = 3 \<Longrightarrow> list_all is_upper c \<Longrightarrow> NormalizeCurrency c = Inr c"
  by (simp add: NormalizeCurrency_def trim_space_upper to_upper_upper)

section \<open>internal/utils/validate.go\<close>

definition identifier_char :: "char \<Rightarrow> bool" where
  "identifier_char c \<longleftrightarrow>
     (97 \<le> (of_char c :: nat) \<and> (of_char c :: nat) \<le> 122) \<or> is_digit c \<or>
     c = CHR ''_'' \<or> c = CHR ''-'' \<or> c = CHR ''.''"

definition ValidIdentifier :: "string \<Rightarrow> bool" where
  "ValidIdentifier v \<longleftrightarrow> length v \<le> 64 \<and> list_all identifier_char v"

text \<open>\<open>unicode.IsControl\<close>: the C0 block, DEL, and the C1 block in its two-byte encoding.\<close>

fun has_control :: "string \<Rightarrow> bool" where
  "has_control [] = False"
| "has_control (c # s) =
     (let n = of_char c :: nat in
      n < 32 \<or> n = 127 \<or>
      (n = 194 \<and> (case s of [] \<Rightarrow> False | d # _ \<Rightarrow> 128 \<le> (of_char d :: nat) \<and> (of_char d :: nat) \<le> 159)) \<or>
      has_control s)"

definition ValidAccount :: "string \<Rightarrow> bool" where
  "ValidAccount a \<longleftrightarrow> length a \<le> 255 \<and> \<not> has_control a"

section \<open>internal/utils/redact.go and providers/redact.go\<close>

definition sensitive_key :: "string \<Rightarrow> bool" where
  "sensitive_key k =
     (let l = to_lower k in
      contains ''token'' l \<or> contains ''secret'' l \<or> contains ''key'' l \<or> contains ''password'' l)"

definition RedactRawMap :: "gmap \<Rightarrow> gmap" where
  "RedactRawMap raw = map (\<lambda>(k, v). (k, if sensitive_key k then GStr ''[redacted]'' else v)) raw"

definition redact_words :: "string list" where
  "redact_words =
    [''token'', ''secret'', ''api_key'', ''subscription_key'', ''password'', ''authorization'', ''bearer'']"

definition Redact :: "string \<Rightarrow> string" where
  "Redact value =
     (if list_ex (\<lambda>s. contains s (to_lower value)) redact_words then ''[redacted provider error]''
      else if length value > 500 then take 500 value
      else value)"

lemma length_Redact: "length (Redact v) \<le> 500"
  by (simp add: Redact_def)

lemma RedactRawMap_lookup:
  "map_of (RedactRawMap raw) k =
     (if sensitive_key k then map_option (\<lambda>_. GStr ''[redacted]'') (map_of raw k) else map_of raw k)"
  by (induction raw) (auto simp: RedactRawMap_def)

lemma RedactRawMap_idem: "RedactRawMap (RedactRawMap raw) = RedactRawMap raw"
  by (auto simp: RedactRawMap_def)

end
