(* ===== verification/Domain.thy ===== *)
theory Domain
  imports Utils
begin

text \<open>
  \<open>internal/domain\<close>: the shared constants, the persistent models as records (one field
  per column, prefixed by the table), and the transaction state graph of
  \<open>state_machine.go\<close>; with \<open>providers/amount.go\<close>'s \<open>PaymentStatus\<close>, which maps a
  provider's vocabulary onto it.

  Times are nanoseconds since the epoch; a nil \<open>*time.Time\<close> is \<open>None\<close>. The \<open>UpdatedAt\<close>
  stamp, which the ORM writes on every update and no decision reads, is kept only
  where the code copies it (\<open>Transaction\<close>).
\<close>

type_synonym time = int
type_synonym duration = int

abbreviation second :: duration where "second \<equiv> 1000000000"
abbreviation minute :: duration where "minute \<equiv> 60000000000"
abbreviation hour :: duration where "hour \<equiv> 3600000000000"

section \<open>constants.go\<close>

definition PaymentMethodMomo :: string where "PaymentMethodMomo = ''momo''"
definition PaymentMethodCard :: string where "PaymentMethodCard = ''card''"
definition PaymentMethodBankTransfer :: string where "PaymentMethodBankTransfer = ''bank_transfer''"
definition PaymentMethodWallet :: string where "PaymentMethodWallet = ''wallet''"

definition ServiceCollection :: string where "ServiceCollection = ''collection''"
definition ServiceDisbursement :: string where "ServiceDisbursement = ''disbursement''"

definition TxPending :: string where "TxPending = ''pending''"
definition TxProcessing :: string where "TxProcessing = ''processing''"
definition TxSucceeded :: string where "TxSucceeded = ''succeeded''"
definition TxFailed :: string where "TxFailed = ''failed''"
definition TxUnknown :: string where "TxUnknown = ''unknown''"
definition TxCancelled :: string where "TxCancelled = ''cancelled''"
definition TxExpired :: string where "TxExpired = ''expired''"

definition ProviderHealthy :: string where "ProviderHealthy = ''healthy''"
definition ProviderDegraded :: string where "ProviderDegraded = ''degraded''"
definition ProviderDown :: string where "ProviderDown = ''down''"
definition ProviderUnknown :: string where "ProviderUnknown = ''unknown''"
definition ProviderDisabled :: string where "ProviderDisabled = ''disabled''"
definition ProviderMisconfigured :: string where "ProviderMisconfigured = ''misconfigured''"

definition CircuitClosed :: string where "CircuitClosed = ''closed''"
definition CircuitOpen :: string where "CircuitOpen = ''open''"
definition CircuitHalfOpen :: string where "CircuitHalfOpen = ''half_open''"

lemmas method_defs =
  PaymentMethodMomo_def PaymentMethodCard_def PaymentMethodBankTransfer_def PaymentMethodWallet_def
lemmas service_defs = ServiceCollection_def ServiceDisbursement_def
lemmas tx_status_defs =
  TxPending_def TxProcessing_def TxSucceeded_def TxFailed_def TxUnknown_def TxCancelled_def TxExpired_def
lemmas provider_status_defs =
  ProviderHealthy_def ProviderDegraded_def ProviderDown_def ProviderUnknown_def ProviderDisabled_def
  ProviderMisconfigured_def
lemmas circuit_status_defs = CircuitClosed_def CircuitOpen_def CircuitHalfOpen_def

definition PaymentMethods :: "string list" where
  "PaymentMethods =
     [PaymentMethodMomo, PaymentMethodCard, PaymentMethodBankTransfer, PaymentMethodWallet]"

definition ValidPaymentMethod :: "string \<Rightarrow> bool" where
  "ValidPaymentMethod m \<longleftrightarrow>
     m = PaymentMethodMomo \<or> m = PaymentMethodCard \<or> m = PaymentMethodBankTransfer \<or> m = PaymentMethodWallet"

lemma ValidPaymentMethod_iff: "ValidPaymentMethod m \<longleftrightarrow> m \<in> set PaymentMethods"
  by (simp add: ValidPaymentMethod_def PaymentMethods_def)

text \<open>The statuses are pairwise different, so proofs never look inside the strings.\<close>

lemma tx_status_distinct [simp]:
  "distinct [TxPending, TxProcessing, TxSucceeded, TxFailed, TxUnknown, TxCancelled, TxExpired]"
  by (simp add: tx_status_defs)

lemma tx_status_neq [simp]:
  "TxPending \<noteq> TxProcessing" "TxPending \<noteq> TxSucceeded" "TxPending \<noteq> TxFailed"
  "TxPending \<noteq> TxUnknown" "TxPending \<noteq> TxCancelled" "TxPending \<noteq> TxExpired"
  "TxProcessing \<noteq> TxPending" "TxProcessing \<noteq> TxSucceeded" "TxProcessing \<noteq> TxFailed"
  "TxProcessing \<noteq> TxUnknown" "TxProcessing \<noteq> TxCancelled" "TxProcessing \<noteq> TxExpired"
  "TxUnknown \<noteq> TxPending" "TxUnknown \<noteq> TxProcessing" "TxUnknown \<noteq> TxSucceeded"
  "TxUnknown \<noteq> TxFailed" "TxUnknown \<noteq> TxCancelled" "TxUnknown \<noteq> TxExpired"
  "TxPending \<noteq> []" "TxProcessing \<noteq> []" "TxUnknown \<noteq> []"
  by (simp_all add: tx_status_defs)

lemma service_neq [simp]:
  "ServiceCollection \<noteq> ServiceDisbursement" "ServiceDisbursement \<noteq> ServiceCollection"
  "ServiceCollection \<noteq> []" "ServiceDisbursement \<noteq> []"
  by (simp_all add: service_defs)

section \<open>models.go\<close>

record ChargeRule =
  cr_Type :: string
  cr_Value :: i64

record ChargeSchedule =
  cs_Collection :: ChargeRule
  cs_Disbursement :: ChargeRule

record AdminUser =
  au_ID :: string
  au_CreatedAt :: time
  au_Name :: string
  au_Email :: string
  au_PasswordHash :: string
  au_Role :: string
  au_Status :: string
  au_PasswordChangedAt :: "time option"
  au_LastLoginAt :: "time option"
  au_FailedLoginAttempts :: int
  au_LockedUntil :: "time option"
  au_CreatedBy :: string
  au_Permissions :: "string list"

text \<open>A nil actor is the system.\<close>

definition ActorID :: "AdminUser option \<Rightarrow> string" where
  "ActorID u = (case u of None \<Rightarrow> ''system'' | Some a \<Rightarrow> if au_ID a = [] then ''system'' else au_ID a)"

record Permission =
  perm_ID :: string
  perm_Code :: string
  perm_Audience :: string
  perm_Description :: string

record Role =
  role_ID :: string
  role_Name :: string
  role_Description :: string
  role_System :: bool
  role_Permissions :: "Permission list"

record AdminSession =
  as_ID :: string
  as_CreatedAt :: time
  as_AdminUserID :: string
  as_TokenHash :: string
  as_RefreshTokenHash :: string
  as_IPAddress :: string
  as_UserAgent :: string
  as_ExpiresAt :: time
  as_RevokedAt :: "time option"

record AuditLog =
  al_ID :: string
  al_CreatedAt :: time
  al_ActorID :: string
  al_ActorType :: string
  al_Action :: string
  al_EntityType :: string
  al_EntityID :: string
  al_MetadataJSON :: string
  al_IPAddress :: string
  al_UserAgent :: string

record App =
  app_ID :: string
  app_CreatedAt :: time
  app_Name :: string
  app_Description :: string
  app_Status :: string
  app_Environment :: string
  app_Currency :: string
  app_Charges :: ChargeSchedule
  app_CreatedBy :: string

record AppCredential =
  ac_ID :: string
  ac_CreatedAt :: time
  ac_AppID :: string
  ac_Name :: string
  ac_ClientID :: string
  ac_ClientSecretHash :: string
  ac_Status :: string
  ac_Scopes :: string
  ac_LastUsedAt :: "time option"
  ac_ExpiresAt :: "time option"
  ac_CreatedBy :: string

record AppSession =
  aps_ID :: string
  aps_CreatedAt :: time
  aps_AppID :: string
  aps_CredentialID :: string
  aps_AccessTokenHash :: string
  aps_RefreshTokenHash :: string
  aps_ExpiresAt :: time
  aps_RevokedAt :: "time option"

record ProviderAccount =
  pa_ID :: string
  pa_CreatedAt :: time
  pa_ProviderCode :: string
  pa_Name :: string
  pa_Environment :: string
  pa_Country :: string
  pa_Currency :: string
  pa_Charges :: ChargeSchedule
  pa_Active :: bool
  pa_ConfigVersion :: int
  pa_EncryptedConfigJSON :: string
  pa_ConfigHash :: string

record ProviderHealthSnapshot =
  ph_ProviderAccountID :: string
  ph_ProviderName :: string
  ph_Status :: string
  ph_CircuitState :: string
  ph_LastCheckedAt :: "time option"
  ph_LastSuccessAt :: "time option"
  ph_LastFailureAt :: "time option"
  ph_ConsecutiveFailures :: int
  ph_LatencyMs :: int
  ph_CollectionsAvailable :: bool
  ph_DisbursementsAvailable :: bool
  ph_BalanceQueryAvailable :: bool
  ph_LastErrorCode :: string
  ph_LastErrorMessage :: string
  ph_CreatedAt :: time
  ph_UpdatedAt :: time

record PaymentRoute =
  pr_ID :: string
  pr_CreatedAt :: time
  pr_ServiceType :: string
  pr_PaymentMethod :: string
  pr_ProviderAccountID :: string
  pr_ProviderName :: string
  pr_Priority :: int
  pr_Active :: bool

record Transaction =
  tx_ID :: string
  tx_CreatedAt :: time
  tx_UpdatedAt :: time
  tx_AppID :: string
  tx_ServiceType :: string
  tx_PaymentMethod :: string
  tx_Amount :: i64
  tx_Currency :: string
  tx_Country :: string
  tx_Reference :: string
  tx_IdempotencyKey :: string
  tx_Status :: string
  tx_SelectedRouteID :: string
  tx_SelectedProviderAccountID :: string
  tx_ProviderReference :: string
  tx_CustomerAccount :: string
  tx_CustomerEmail :: string
  tx_CustomerName :: string
  tx_Description :: string
  tx_ProviderFee :: i64
  tx_PlatformFee :: i64
  tx_RequestHash :: string
  tx_ReconciliationAttempts :: int
  tx_LastReconciledAt :: "time option"
  tx_NextReconcileAt :: "time option"

record TransactionAttempt =
  att_ID :: string
  att_CreatedAt :: time
  att_TransactionID :: string
  att_ProviderAccountID :: string
  att_ProviderCode :: string
  att_ProviderReference :: string
  att_Status :: string
  att_RequestHash :: string
  att_ErrorCode :: string
  att_ErrorMessage :: string
  att_RawResponse :: string
  att_StartedAt :: time
  att_CompletedAt :: "time option"

record WebhookEvent =
  we_ID :: string
  we_CreatedAt :: time
  we_ProviderAccountID :: string
  we_ProviderReference :: string
  we_TransactionID :: string
  we_EventType :: string
  we_PayloadHash :: string
  we_Processed :: bool
  we_PayloadJSON :: string

section \<open>state_machine.go\<close>

definition Terminal :: "string \<Rightarrow> bool" where
  "Terminal s \<longleftrightarrow> s = TxSucceeded \<or> s = TxFailed \<or> s = TxExpired \<or> s = TxCancelled"

fun Transition :: "Transaction option \<Rightarrow> string \<Rightarrow> err + Transaction" where
  "Transition None next = Inl (Msg ''transaction is nil'')"
| "Transition (Some t) next =
     (let current = (if tx_Status t = [] then TxPending else tx_Status t) in
      if current = next then Inr t
      else
        let valid =
          (if current = TxPending then next = TxProcessing \<or> Terminal next \<or> next = TxUnknown
           else if current = TxProcessing then Terminal next \<or> next = TxUnknown
           else if current = TxUnknown then next = TxProcessing \<or> Terminal next
           else False)
        in if \<not> valid
           then Inl (Msg (''illegal transaction transition '' @ current @ '' -> '' @ next))
           else Inr (t\<lparr>tx_Status := next\<rparr>))"

lemma Terminal_simps [simp]:
  "Terminal TxSucceeded" "Terminal TxFailed" "Terminal TxExpired" "Terminal TxCancelled"
  "\<not> Terminal TxPending" "\<not> Terminal TxProcessing" "\<not> Terminal TxUnknown" "\<not> Terminal []"
  by (simp_all add: Terminal_def tx_status_defs)

text \<open>The status a transaction is in once the empty status is read as pending.\<close>

definition effective_status :: "Transaction \<Rightarrow> string" where
  "effective_status t = (if tx_Status t = [] then TxPending else tx_Status t)"

definition live_status :: "string \<Rightarrow> bool" where
  "live_status s \<longleftrightarrow> s = TxPending \<or> s = TxProcessing \<or> s = TxUnknown"

definition known_status :: "string \<Rightarrow> bool" where
  "known_status s \<longleftrightarrow> live_status s \<or> Terminal s"

lemma live_not_Terminal: "live_status s \<Longrightarrow> \<not> Terminal s"
  by (auto simp: live_status_def)

lemma Terminal_not_live [simp]: "Terminal s \<Longrightarrow> s \<noteq> TxPending \<and> s \<noteq> TxProcessing \<and> s \<noteq> TxUnknown \<and> s \<noteq> []"
  by (auto simp: Terminal_def tx_status_defs)

text \<open>The graph in one line: a no-op, or from a live status to any known status but
  pending.\<close>

lemma Transition_Inr_iff:
  "Transition (Some t) next = Inr t' \<longleftrightarrow>
     (effective_status t = next \<and> t' = t) \<or>
     (effective_status t \<noteq> next \<and> live_status (effective_status t) \<and>
      known_status next \<and> next \<noteq> TxPending \<and> t' = t\<lparr>tx_Status := next\<rparr>)"
  by (auto simp: effective_status_def live_status_def known_status_def Let_def)

declare Transition.simps(2) [simp del]

lemma Transition_cases:
  obtains (same) "effective_status t = next" "Transition (Some t) next = Inr t"
    | (move) "effective_status t \<noteq> next" "live_status (effective_status t)" "known_status next"
        "next \<noteq> TxPending" "Transition (Some t) next = Inr (t\<lparr>tx_Status := next\<rparr>)"
    | (refuse) e where "Transition (Some t) next = Inl e"
  by (metis Transition_Inr_iff old.sum.exhaust)

lemma Transition_terminal:
  "Terminal (tx_Status t) \<Longrightarrow> Transition (Some t) next = Inr t' \<Longrightarrow> t' = t"
  by (auto simp: Transition_Inr_iff effective_status_def live_status_def split: if_splits)

lemma Transition_frame:
  "Transition (Some t) next = Inr t' \<Longrightarrow> t' = t\<lparr>tx_Status := tx_Status t'\<rparr>"
  by (auto simp: Transition_Inr_iff)

lemma Transition_status:
  "Transition (Some t) next = Inr t' \<Longrightarrow> tx_Status t \<noteq> [] \<Longrightarrow> tx_Status t' = next"
  by (auto simp: Transition_Inr_iff effective_status_def)

text \<open>From \<open>processing\<close> every status a normalized provider answer can name is reachable.\<close>

lemma Transition_from_processing:
  assumes "tx_Status t = TxProcessing" and "next = TxProcessing \<or> next = TxUnknown \<or> Terminal next"
  shows "Transition (Some t) next = Inr (t\<lparr>tx_Status := next\<rparr>)"
proof (cases "next = TxProcessing")
  case True
  with assms(1) show ?thesis
    by (subst Transition_Inr_iff) (auto simp: effective_status_def)
next
  case False
  with assms show ?thesis
    by (auto simp: Transition_Inr_iff effective_status_def live_status_def known_status_def)
qed

section \<open>PaymentStatus of providers/amount.go\<close>

definition PaymentStatus :: "string \<Rightarrow> string" where
  "PaymentStatus value =
     (let v = to_upper (trim_space value) in
      if v \<in> set [''SUCCESS'', ''SUCCESSFUL'', ''SUCCEEDED'', ''COMPLETED'', ''200''] then ''succeeded''
      else if v \<in> set [''FAILED'', ''FAILURE'', ''DECLINED''] then ''failed''
      else if v \<in> set [''PENDING'', ''IN_PROGRESS'', ''PROCESSING'', ''''] then ''processing''
      else if v \<in> set [''CANCELLED'', ''CANCELED''] then ''cancelled''
      else if v \<in> set [''EXPIRED'', ''TIMEOUT'', ''TIMED_OUT''] then ''expired''
      else ''unknown'')"

lemma PaymentStatus_range:
  "PaymentStatus v = TxProcessing \<or> PaymentStatus v = TxUnknown \<or> Terminal (PaymentStatus v)"
  by (simp add: PaymentStatus_def Let_def Terminal_def tx_status_defs)

section \<open>Properties\<close>

text \<open>The state graph. A transaction accepts a status exactly when it already has it (an
  empty status counting as pending) or when it is live (pending, processing, unknown) and
  the status is a known one other than pending; accepting changes the status alone. So
  the four terminal statuses are final.\<close>

lemma transition_graph:
  "Transition (Some t) next = Inr t' \<longleftrightarrow>
     (effective_status t = next \<and> t' = t) \<or>
     (effective_status t \<noteq> next \<and> live_status (effective_status t) \<and>
      known_status next \<and> next \<noteq> TxPending \<and> t' = t\<lparr>tx_Status := next\<rparr>)"
  by (rule Transition_Inr_iff)

text \<open>The normalization of provider statuses is total into the statuses a processing
  transaction may take, and normalizing twice changes nothing except that the word
  \<open>pending\<close> is read as \<open>processing\<close>.\<close>

lemma payment_status_total:
  "(PaymentStatus v = TxProcessing \<or> PaymentStatus v = TxUnknown \<or> Terminal (PaymentStatus v)) \<and>
   PaymentStatus (PaymentStatus v) = PaymentStatus v \<and>
   PaymentStatus TxPending = TxProcessing"
proof -
  have "PaymentStatus s = s"
    if "s \<in> set [''succeeded'', ''failed'', ''processing'', ''cancelled'', ''expired'', ''unknown'']" for s
  proof -
    have "list_all (\<lambda>s. PaymentStatus s = s)
        [''succeeded'', ''failed'', ''processing'', ''cancelled'', ''expired'', ''unknown'']"
      by code_simp
    with that show ?thesis unfolding list_all_iff by blast
  qed
  moreover have "PaymentStatus v \<in> set [''succeeded'', ''failed'', ''processing'', ''cancelled'', ''expired'', ''unknown'']"
    by (simp add: PaymentStatus_def Let_def)
  moreover have "PaymentStatus TxPending = TxProcessing" by code_simp
  ultimately show ?thesis using PaymentStatus_range by blast
qed

end
