(* ===== verification/Permissions.thy ===== *)
theory Permissions
  imports Domain
begin

text \<open>
  \<open>internal/domain/permissions.go\<close>: the permission catalogue, the seeded system roles and
  the two functions that select codes from the catalogue. A \<open>PermissionDefinition\<close> is the
  triple of its code, description and audience.
\<close>

definition AudienceAdmin :: string where "AudienceAdmin = ''admin''"
definition AudienceApp :: string where "AudienceApp = ''app''"
definition PermissionWildcard :: string where "PermissionWildcard = ''*''"
definition RoleSuperAdmin :: string where "RoleSuperAdmin = ''super_admin''"
definition RoleOperations :: string where "RoleOperations = ''operations''"
definition RoleReadOnly :: string where "RoleReadOnly = ''read_only''"

lemmas audience_defs = AudienceAdmin_def AudienceApp_def
lemmas role_name_defs = RoleSuperAdmin_def RoleOperations_def RoleReadOnly_def

type_synonym PermissionDefinition = "string \<times> string \<times> string"

abbreviation pd_Code :: "PermissionDefinition \<Rightarrow> string" where "pd_Code p \<equiv> fst p"
abbreviation pd_Description :: "PermissionDefinition \<Rightarrow> string" where "pd_Description p \<equiv> fst (snd p)"
abbreviation pd_Audience :: "PermissionDefinition \<Rightarrow> string" where "pd_Audience p \<equiv> snd (snd p)"

definition Permissions :: "PermissionDefinition list" where
  "Permissions =
    [(''system:read'', ''Read service information, health, and worker state'', AudienceAdmin),
     (''transactions:read'', ''List and inspect transactions'', AudienceAdmin),
     (''audit:read'', ''Read the audit log'', AudienceAdmin),
     (''users:read'', ''List administrators'', AudienceAdmin),
     (''users:create'', ''Create administrators'', AudienceAdmin),
     (''users:update'', ''Change an administrator'' @ [CHR 0x27] @ ''s password or status'', AudienceAdmin),
     (''roles:read'', ''List roles and the permission catalogue'', AudienceAdmin),
     (''roles:create'', ''Create roles'', AudienceAdmin),
     (''roles:update'', ''Change a role'' @ [CHR 0x27] @ ''s permissions'', AudienceAdmin),
     (''roles:delete'', ''Delete roles'', AudienceAdmin),
     (''apps:read'', ''List and inspect applications'', AudienceAdmin),
     (''apps:create'', ''Register applications'', AudienceAdmin),
     (''apps:update'', ''Change an application'' @ [CHR 0x27] @ ''s details or status'', AudienceAdmin),
     (''apps:test'', ''Run test payments with an application'' @ [CHR 0x27] @ ''s own credentials'', AudienceAdmin),
     (''credentials:read'', ''List application credentials'', AudienceAdmin),
     (''credentials:create'', ''Issue application credentials'', AudienceAdmin),
     (''credentials:update'', ''Rotate or revoke application credentials'', AudienceAdmin),
     (''providers:read'', ''List provider accounts, the registry, and provider health'', AudienceAdmin),
     (''providers:create'', ''Register provider accounts'', AudienceAdmin),
     (''providers:update'', ''Change provider configuration, location, fees, or activation'', AudienceAdmin),
     (''providers:test'', ''Run a provider configuration health check'', AudienceAdmin),
     (''balances:read'', ''Query provider balances'', AudienceAdmin),
     (''routes:read'', ''List payment routes'', AudienceAdmin),
     (''routes:create'', ''Create payment routes'', AudienceAdmin),
     (''routes:update'', ''Change a payment route'' @ [CHR 0x27] @ ''s priority or activation'', AudienceAdmin),
     (''collections:create'', ''Create collection payments'', AudienceApp),
     (''disbursements:create'', ''Create disbursement payments'', AudienceApp),
     (''transactions:read'', ''Read the application'' @ [CHR 0x27] @ ''s own transactions'', AudienceApp)]"

text \<open>\<open>len(code) > len(suffix) && code[len(code)-len(suffix):] == suffix\<close>\<close>

definition isRead :: "string \<Rightarrow> bool" where
  "isRead code = (length code > 5 \<and> drop (length code - 5) code = '':read'')"

definition adminReadPermissions :: "string list" where
  "adminReadPermissions =
     map pd_Code (filter (\<lambda>p. pd_Audience p = AudienceAdmin \<and> isRead (pd_Code p)) Permissions)"

definition AppPermissionCodes :: "string list" where
  "AppPermissionCodes = map pd_Code (filter (\<lambda>p. pd_Audience p = AudienceApp) Permissions)"

text \<open>Name, description and permission codes of each seeded role.\<close>

definition SystemRoles :: "(string \<times> string \<times> string list) list" where
  "SystemRoles =
     [(RoleSuperAdmin, ''Full access, including every permission added by later releases'',
        [PermissionWildcard]),
      (RoleOperations, ''Read everything and query provider balances; no changes'',
        adminReadPermissions),
      (RoleReadOnly, ''Read everything except provider balances'',
        filter (\<lambda>code. code \<noteq> ''balances:read'') adminReadPermissions)]"

section \<open>Facts about the catalogue\<close>

lemma isRead_iff: "isRead code \<longleftrightarrow> (\<exists>p. p \<noteq> [] \<and> code = p @ '':read'')"
proof
  assume a: "isRead code"
  then have "code = take (length code - 5) code @ '':read''"
    by (metis append_take_drop_id isRead_def)
  with a show "\<exists>p. p \<noteq> [] \<and> code = p @ '':read''"
    by (intro exI [of _ "take (length code - 5) code"]) (auto simp: isRead_def)
qed (auto simp: isRead_def)

lemma Permissions_codes_distinct:
  "distinct (map (\<lambda>p. (pd_Code p, pd_Audience p)) Permissions)"
  by code_simp

lemma AppPermissionCodes_eq:
  "AppPermissionCodes = [''collections:create'', ''disbursements:create'', ''transactions:read'']"
  by code_simp

text \<open>The two non-privileged system roles hold exactly the administrative read
  permissions of the catalogue (\<open>read_only\<close> without \<open>balances:read\<close>), never the wildcard
  or a mutation, and only \<open>super_admin\<close> holds the wildcard.\<close>

lemma system_role_permissions:
  "map_of (map (\<lambda>(n, d, ps). (n, set ps)) SystemRoles) RoleSuperAdmin = Some {PermissionWildcard} \<and>
   map_of (map (\<lambda>(n, d, ps). (n, set ps)) SystemRoles) RoleOperations =
     Some {pd_Code p | p. p \<in> set Permissions \<and> pd_Audience p = AudienceAdmin \<and> isRead (pd_Code p)} \<and>
   map_of (map (\<lambda>(n, d, ps). (n, set ps)) SystemRoles) RoleReadOnly =
     Some ({pd_Code p | p. p \<in> set Permissions \<and> pd_Audience p = AudienceAdmin \<and> isRead (pd_Code p)}
            - {''balances:read''})"
proof -
  have "set adminReadPermissions =
      {pd_Code p | p. p \<in> set Permissions \<and> pd_Audience p = AudienceAdmin \<and> isRead (pd_Code p)}"
    unfolding adminReadPermissions_def set_map set_filter by blast
  then show ?thesis
    by (simp add: SystemRoles_def role_name_defs set_diff_eq)
qed

end
