(* ===== verification/Amount.thy ===== *)
theory Amount
  imports Domain
begin

text \<open>
  \<open>providers/amount.go\<close>: amounts in minor units to and from a provider's decimal text.
  The arithmetic is on \<open>int64\<close> and wraps, exactly as the unchecked products of the code.
\<close>

definition zeroDecimalCurrencies :: string where
  "zeroDecimalCurrencies = '' BIF CLP DJF GNF ISK JPY KMF KRW PYG RWF UGX VND VUV XAF XOF XPF ''"

definition threeDecimalCurrencies :: string where
  "threeDecimalCurrencies = '' BHD IQD JOD KWD LYD OMR TND ''"

definition exponent :: "string \<Rightarrow> nat" where
  "exponent currency =
     (let code = '' '' @ to_upper (trim_space currency) @ '' '' in
      if contains code zeroDecimalCurrencies then 0
      else if contains code threeDecimalCurrencies then 3
      else 2)"

primrec scale :: "nat \<Rightarrow> i64" where
  "scale 0 = 1"
| "scale (Suc n) = 10 * scale n"

text \<open>\<open>fmt\<close>'s \<open>%0*d\<close>: zeros after the sign up to the width.\<close>

definition pad_int :: "nat \<Rightarrow> int \<Rightarrow> string" where
  "pad_int width x =
     (let sign = (if x < 0 then ''-'' else []); digits = format_nat (nat \<bar>x\<bar>)
      in sign @ replicate (width - length sign - length digits) (CHR ''0'') @ digits)"

definition FormatAmountMinor :: "i64 \<Rightarrow> string \<Rightarrow> string" where
  "FormatAmountMinor amount currency =
     (let exp = exponent currency in
      if exp = 0 then format_int (sint amount)
      else
        let (sign, amount) = (if amount <s 0 then (''-'', - amount) else ([], amount));
            factor = scale exp
        in sign @ format_int (sint (i64_div amount factor)) @ ''.'' @
           pad_int exp (sint (i64_mod amount factor)))"

definition ParseAmountToMinor :: "string \<Rightarrow> string \<Rightarrow> err + i64" where
  "ParseAmountToMinor raw currency =
     (let value = trim_space raw in
      if value = [] then Inr 0
      else
        let exp = exponent currency in
        if exp = 0 then parse_int value
        else
          let (sign, value) =
                (if has_prefix ''-'' value then (-1 :: i64, drop 1 value)
                 else (1, if has_prefix ''+'' value then drop 1 value else value));
              (whole, fraction, found) = cut (CHR ''.'') value
          in if exp < length fraction
             then Inl (Msg (''amount '' @ quoted raw @ '' has too many decimals for '' @ to_upper currency))
             else
               case parse_int (First [whole, ''0'']) of
                 Inl e \<Rightarrow> Inl e
               | Inr units \<Rightarrow>
                   (case parse_int (First [fraction @ replicate (exp - length fraction) (CHR ''0''), ''0'']) of
                      Inl e \<Rightarrow> Inl e
                    | Inr minor \<Rightarrow> Inr (sign * (units * scale exp + minor))))"

definition OptionalAmount :: "string \<Rightarrow> string \<Rightarrow> err + i64 option" where
  "OptionalAmount raw currency =
     (if trim_space raw = [] then Inr None
      else case ParseAmountToMinor raw currency of Inl e \<Rightarrow> Inl e | Inr v \<Rightarrow> Inr (Some v))"

section \<open>Reading back what was written\<close>

lemma exponent_cases: "exponent c = 0 \<or> exponent c = 2 \<or> exponent c = 3"
  by (simp add: exponent_def Let_def)

lemma digit_char_is_digit [simp]: "d < 10 \<Longrightarrow> is_digit (digit_char d)"
  by (simp add: is_digit_def)

lemma digit_char_0: "CHR ''0'' = digit_char 0"
  by code_simp

lemma is_digit_0 [simp]: "is_digit (CHR ''0'')"
  by (simp add: digit_char_0)

lemma digits_val_zeros: "digits_val 0 (replicate n (CHR ''0'') @ s) = digits_val 0 s"
  by (induction n) (simp_all add: digit_char_0 del: One_nat_def)

lemma format_nat_graphic: "c \<in> set (format_nat n) \<Longrightarrow> graphic c"
  using format_nat_digits [of n] by (simp add: graphic_digit)

lemma digits_no_sign:
  assumes "\<forall>c\<in>set s. is_digit c"
  shows "\<not> has_prefix ''-'' s" "\<not> has_prefix ''+'' s"
  using assms by (cases s; auto simp: has_prefix_def)+

lemma parse_int_digits:
  assumes "\<forall>c\<in>set s. is_digit c" "s \<noteq> []" "digits_val 0 s = Some n" "n < 2 ^ 63"
  shows "parse_int s = Inr (word_of_int (int n))"
  using assms digits_no_sign [OF assms(1)] by (simp add: parse_int_def parse_unsigned_def)

lemma parse_int_format_int: "parse_int (format_int (sint x)) = Inr x"
proof (cases "sint x < 0")
  case True
  have "nat (- sint x) \<le> 2 ^ 63" using sint_i64_ge [of x] by (simp add: nat_le_iff del: sint_i64_ge)
  with True show ?thesis
    by (simp add: parse_int_def format_int_def parse_unsigned_def has_prefix_def digits_val_format_nat)
next
  case False
  have "nat (sint x) < 2 ^ 63" using sint_i64_less [of x] False by (simp add: nat_less_iff)
  with False show ?thesis
    using parse_int_digits [OF format_nat_digits _ digits_val_format_nat, of "nat (sint x)"]
    by (simp add: format_int_def)
qed

lemma length_format_nat: "n < 10 ^ k \<Longrightarrow> 0 < k \<Longrightarrow> length (format_nat n) \<le> k"
proof (induction k arbitrary: n)
  case (Suc k)
  show ?case
  proof (cases "n < 10")
    case False
    with Suc.prems have "n div 10 < 10 ^ k" "0 < k"
      by (auto simp: div_less_iff_less_mult intro: gr0I)
    with Suc.IH [of "n div 10"] False show ?thesis by (subst format_nat.simps) simp
  qed (simp add: format_nat.simps [of n])
qed simp

lemma scale_values: "sint (scale 2) = 100" "sint (scale 3) = 1000"
  by (simp_all add: eval_nat_numeral)

lemma First_digits:
  assumes "\<forall>c\<in>set s. is_digit c" "s \<noteq> []"
  shows "First (s # vs) = s"
  using assms by (simp add: trim_space_graphic_all graphic_digit)

text \<open>The text of a nonnegative amount with \<open>k\<close> decimals.\<close>

definition decimal :: "nat \<Rightarrow> int \<Rightarrow> string" where
  "decimal k m = format_nat (nat (m div 10 ^ k)) @ ''.'' @ pad_int k (m mod 10 ^ k)"

lemma pad_int_digits:
  assumes "0 \<le> x"
  shows "\<forall>c\<in>set (pad_int k x). is_digit c" "pad_int k x \<noteq> []" "digits_val 0 (pad_int k x) = Some (nat x)"
  using assms format_nat_digits [of "nat x"]
  by (auto simp: pad_int_def Let_def digits_val_zeros digits_val_format_nat)

lemma length_pad_int:
  assumes "0 \<le> x" "x < 10 ^ k" "0 < k"
  shows "length (pad_int k x) = k"
proof -
  have "nat x < 10 ^ k" using assms by (simp add: nat_less_iff)
  with assms show ?thesis
    using length_format_nat [of "nat x" k] by (simp add: pad_int_def Let_def)
qed

lemma cut_decimal:
  assumes "0 \<le> m"
  shows "cut (CHR ''.'') (decimal k m) = (format_nat (nat (m div 10 ^ k)), pad_int k (m mod 10 ^ k), True)"
proof -
  have "\<forall>c\<in>set (format_nat n). c \<noteq> CHR ''.''" for n
    using format_nat_digits [of n] by (auto simp del: format_nat.simps)
  then have "takeWhile (\<lambda>x. x \<noteq> CHR ''.'') (decimal k m) = format_nat (nat (m div 10 ^ k))"
    by (simp add: decimal_def takeWhile_append2)
  then show ?thesis by (simp add: cut_def decimal_def)
qed

lemma format_decimal:
  assumes k: "exponent c = k" "k \<noteq> 0" and a: "sint a \<noteq> - 9223372036854775808"
  shows "FormatAmountMinor a c = (if sint a < 0 then ''-'' else []) @ decimal k \<bar>sint a\<bar>"
proof -
  have k23: "k = 2 \<or> k = 3" using exponent_cases [of c] k by auto
  then have sc: "sint (scale k) = 10 ^ k" using scale_values by auto
  have neg: "sint (- a) = - sint a" if "sint a < 0"
  proof -
    have "sint (word_of_int (- sint a) :: i64) = - sint a"
      using that a sint_i64_ge [of a] by (intro sint_i64) linarith+
    then show ?thesis by simp
  qed
  have body: "format_int (sint (i64_div b (scale k))) @ ''.'' @ pad_int k (sint (i64_mod b (scale k)))
                = decimal k (sint b)" if "0 \<le> sint b" for b
    using that by (simp add: sint_i64_div sint_i64_mod sc decimal_def format_int_def
        pos_imp_zdiv_nonneg_iff not_less)
  show ?thesis
    using k body [of a] body [of "- a"] neg
    by (auto simp: FormatAmountMinor_def word_sless_alt Let_def)
qed

lemma parse_decimal_body:
  assumes m: "0 \<le> m" "m div 10 ^ k < 9223372036854775808" and k: "k = 2 \<or> k = 3"
  shows "parse_int (First [format_nat (nat (m div 10 ^ k)), ''0'']) = Inr (word_of_int (m div 10 ^ k))"
    and "parse_int (First [pad_int k (m mod 10 ^ k), ''0'']) = Inr (word_of_int (m mod 10 ^ k))"
proof -
  have "0 \<le> m div 10 ^ k" "0 \<le> m mod 10 ^ k" "m mod 10 ^ k < 10 ^ k"
    using m k by (auto simp: pos_imp_zdiv_nonneg_iff)
  note b = this
  have "nat (m div 10 ^ k) < 2 ^ 63" using b m by (simp add: nat_less_iff)
  then show "parse_int (First [format_nat (nat (m div 10 ^ k)), ''0'']) = Inr (word_of_int (m div 10 ^ k))"
    using b by (simp only: First_digits [OF format_nat_digits format_nat_nonempty]
        parse_int_digits [OF format_nat_digits format_nat_nonempty digits_val_format_nat]) simp
  have "m mod 10 ^ k < 2 ^ 63" using b k by auto
  then have small: "nat (m mod 10 ^ k) < 2 ^ 63" using b by (simp add: nat_less_iff)
  note d = pad_int_digits [OF b(2)]
  show "parse_int (First [pad_int k (m mod 10 ^ k), ''0'']) = Inr (word_of_int (m mod 10 ^ k))"
    unfolding First_digits [OF d(1,2)] parse_int_digits [OF d small] using b by simp
qed

lemma decimal_ends:
  assumes "0 \<le> m"
  shows "decimal k m \<noteq> []" "graphic c \<Longrightarrow> trim_space (c # decimal k m) = c # decimal k m"
    "trim_space (decimal k m) = decimal k m" "\<not> has_prefix ''-'' (decimal k m)" "\<not> has_prefix ''+'' (decimal k m)"
proof -
  have p: "0 \<le> m mod 10 ^ k" by simp
  have g: "\<forall>c\<in>set (decimal k m). graphic c"
    using pad_int_digits(1) [OF p] by (auto simp: decimal_def graphic_digit format_nat_graphic)
  then show "graphic c \<Longrightarrow> trim_space (c # decimal k m) = c # decimal k m"
    and "trim_space (decimal k m) = decimal k m"
    by (auto intro!: trim_space_graphic_all)
  show "decimal k m \<noteq> []" by (simp add: decimal_def)
  obtain d ds where "format_nat (nat (m div 10 ^ k)) = d # ds" by (meson format_nat_nonempty list.exhaust)
  moreover from this have "is_digit d" using format_nat_digits by (metis list.set_intros(1))
  ultimately show "\<not> has_prefix ''-'' (decimal k m)" "\<not> has_prefix ''+'' (decimal k m)"
    by (auto simp: decimal_def has_prefix_def)
qed

lemma parse_decimal:
  assumes k: "exponent c = k" "k \<noteq> 0" and m: "0 \<le> m" "m div 10 ^ k < 9223372036854775808"
  shows "ParseAmountToMinor (decimal k m) c = Inr (word_of_int m)"
    and "ParseAmountToMinor (CHR ''-'' # decimal k m) c = Inr (- word_of_int m)"
proof -
  have k23: "k = 2 \<or> k = 3" using exponent_cases [of c] k by auto
  note e = decimal_ends [OF m(1), where k = k] and b = parse_decimal_body [OF m k23]
  have len: "length (pad_int k (m mod 10 ^ k)) = k"
    using k by (intro length_pad_int) simp_all
  have sc: "scale k = word_of_int (10 ^ k)" using k23 by (auto simp: eval_nat_numeral)
  have val: "word_of_int (m div 10 ^ k) * scale k + word_of_int (m mod 10 ^ k) = (word_of_int m :: i64)"
  proof -
    have "word_of_int (m div 10 ^ k * 10 ^ k + m mod 10 ^ k) = (word_of_int m :: i64)" by (simp only: div_mult_mod_eq)
    then show ?thesis unfolding sc by (simp only: of_int_mult of_int_add)
  qed
  show "ParseAmountToMinor (decimal k m) c = Inr (word_of_int m)"
    using k e b len val
    by (simp add: ParseAmountToMinor_def cut_decimal [OF m(1)] Let_def del: First.simps)
  show "ParseAmountToMinor (CHR ''-'' # decimal k m) c = Inr (- word_of_int m)"
    using k e b len val
    by (simp add: ParseAmountToMinor_def cut_decimal [OF m(1)] Let_def has_prefix_def del: First.simps)
qed

lemma parse_format:
  assumes "exponent c = 0 \<or> sint a \<noteq> - 9223372036854775808"
  shows "ParseAmountToMinor (FormatAmountMinor a c) c = Inr a"
proof (cases "exponent c = 0")
  case True
  have "\<forall>c\<in>set (format_int (sint a)). graphic c"
    using format_nat_graphic by (auto simp: format_int_def)
  then have "trim_space (format_int (sint a)) = format_int (sint a)"
    by (rule trim_space_graphic_all)
  moreover have "format_int (sint a) \<noteq> []" by (simp add: format_int_def)
  ultimately show ?thesis
    using True parse_int_format_int [of a] by (simp add: ParseAmountToMinor_def FormatAmountMinor_def)
next
  case False
  with assms have a: "sint a \<noteq> - 9223372036854775808" by simp
  have m: "0 \<le> \<bar>sint a\<bar>" "\<bar>sint a\<bar> div 10 ^ exponent c < 9223372036854775808"
  proof -
    have "\<bar>sint a\<bar> < 9223372036854775808"
      using a sint_i64_ge [of a] sint_i64_less [of a] by linarith
    moreover have "\<bar>sint a\<bar> div 10 ^ exponent c \<le> \<bar>sint a\<bar>"
      using exponent_cases [of c] by auto
    ultimately show "\<bar>sint a\<bar> div 10 ^ exponent c < 9223372036854775808" by linarith
  qed simp
  have "word_of_int \<bar>sint a\<bar> = (if sint a < 0 then - a else a)" by simp
  note val = parse_decimal [OF refl False m, unfolded this]
  show ?thesis
  proof (cases "sint a < 0")
    case True
    with val(2) show ?thesis by (simp add: format_decimal [OF refl False a] del: abs_of_neg)
  next
    case neg: False
    with val(1) show ?thesis by (simp add: format_decimal [OF refl False a] del: abs_of_nonneg)
  qed
qed

section \<open>The smallest amount\<close>

text \<open>It is its own negation, so its text has a second sign in each part.\<close>

lemma smallest_parts:
  "- (- 9223372036854775808) = (- 9223372036854775808 :: i64)" "(- 9223372036854775808 :: i64) <s 0"
  "sint (i64_div (- 9223372036854775808) (scale 2)) = - 92233720368547758"
  "sint (i64_mod (- 9223372036854775808) (scale 2)) = - 8"
  "sint (i64_div (- 9223372036854775808) (scale 3)) = - 9223372036854775"
  "sint (i64_mod (- 9223372036854775808) (scale 3)) = - 808"
  by (simp_all add: i64_div_def i64_mod_def scale_values signed_divide_int_def signed_modulo_int_def word_sless_alt)

lemma pad_smallest: "pad_int 2 (- 8) = format_int (- 8)" "length (format_int (- 8)) = 2" "length (pad_int 3 (- 808)) = 4"
  by code_simp+

lemma format_smallest:
  "exponent c = 2 \<Longrightarrow>
     FormatAmountMinor (- 9223372036854775808) c = CHR ''-'' # format_int (- 92233720368547758) @ ''.'' @ format_int (- 8)"
  "exponent c = 3 \<Longrightarrow>
     FormatAmountMinor (- 9223372036854775808) c = CHR ''-'' # format_int (- 9223372036854775) @ ''.'' @ pad_int 3 (- 808)"
  unfolding FormatAmountMinor_def
  by (simp_all only: Let_def smallest_parts pad_smallest if_True prod.case) simp_all

lemma signed_text:
  assumes "c \<in> set (format_int x) \<or> c \<in> set (pad_int k x)"
  shows "graphic c" and "c \<noteq> CHR ''.''"
proof -
  have "c = CHR ''-'' \<or> is_digit c"
    using assms format_nat_digits by (auto simp: format_int_def pad_int_def Let_def split: if_splits)
  moreover have "graphic (CHR ''-'')" "\<not> is_digit (CHR ''.'')" by code_simp+
  ultimately show "graphic c" "c \<noteq> CHR ''.''" using graphic_digit by auto
qed

lemma parse_smallest:
  assumes "\<forall>c\<in>set frac. graphic c" and "exponent c \<noteq> 0"
  shows "ParseAmountToMinor (CHR ''-'' # format_int x @ ''.'' @ frac) c =
    (if exponent c < length frac
     then Inl (Msg (''amount '' @ quoted (CHR ''-'' # format_int x @ ''.'' @ frac) @ '' has too many decimals for '' @ to_upper c))
     else case parse_int (First [format_int x, ''0'']) of
            Inl e \<Rightarrow> Inl e
          | Inr units \<Rightarrow>
              (case parse_int (First [frac @ replicate (exponent c - length frac) (CHR ''0''), ''0'']) of
                 Inl e \<Rightarrow> Inl e
               | Inr minor \<Rightarrow> Inr (- 1 * (units * scale (exponent c) + minor))))"
proof -
  let ?t = "CHR ''-'' # format_int x @ ''.'' @ frac"
  have "graphic (CHR ''-'')" "graphic (CHR ''.'')" by code_simp+
  then have "\<forall>c\<in>set ?t. graphic c" using assms(1) signed_text by auto
  then have t: "trim_space ?t = ?t" by (rule trim_space_graphic_all)
  have "\<forall>c\<in>set (format_int x). c \<noteq> CHR ''.''" using signed_text by blast
  then have "takeWhile (\<lambda>c. c \<noteq> CHR ''.'') (format_int x @ ''.'' @ frac) = format_int x" by (simp add: takeWhile_append2)
  then have "cut (CHR ''.'') (format_int x @ ''.'' @ frac) = (format_int x, frac, True)" by (simp add: cut_def)
  then show ?thesis using t assms(2) by (simp add: ParseAmountToMinor_def Let_def has_prefix_def del: First.simps)
qed

lemma First_format_int: "First (format_int x # vs) = format_int x"
proof -
  have "trim_space (format_int x) = format_int x" using signed_text by (intro trim_space_graphic_all) blast
  then show ?thesis by (simp add: format_int_def)
qed

lemma parse_negative:
  "parse_int (format_int (- 92233720368547758)) = Inr (- 92233720368547758)" "parse_int (format_int (- 8)) = Inr (- 8)"
  using parse_int_format_int [of "- 92233720368547758"] parse_int_format_int [of "- 8"] by simp_all

lemma scale_2: "scale 2 = 100"
  by (simp add: eval_nat_numeral)

lemma round_trip_smallest:
  "exponent c = 2 \<Longrightarrow> ParseAmountToMinor (FormatAmountMinor (- 9223372036854775808) c) c = Inr (- 9223372036854775808)"
  "exponent c = 3 \<Longrightarrow> isl (ParseAmountToMinor (FormatAmountMinor (- 9223372036854775808) c) c)"
proof -
  have g: "\<forall>c\<in>set (format_int (- 8)). graphic c" "\<forall>c\<in>set (pad_int 3 (- 808)). graphic c" using signed_text by blast+
  show "ParseAmountToMinor (FormatAmountMinor (- 9223372036854775808) c) c = Inr (- 9223372036854775808)" if "exponent c = 2"
  proof -
    have "exponent c \<noteq> 0" using that by simp
    from parse_smallest [OF g(1) this, of "- 92233720368547758"] show ?thesis
      unfolding format_smallest(1) [OF that] pad_smallest(2) that First_format_int parse_negative
      by (simp add: First_format_int parse_negative scale_2 del: First.simps)
  qed
  show "isl (ParseAmountToMinor (FormatAmountMinor (- 9223372036854775808) c) c)" if "exponent c = 3"
  proof -
    have "exponent c \<noteq> 0" using that by simp
    from parse_smallest [OF g(2) this, of "- 9223372036854775"] show ?thesis
      unfolding format_smallest(2) [OF that] pad_smallest(3) that by simp
  qed
qed

section \<open>Properties\<close>

text \<open>C24: the text written for an amount reads back as that amount, for every currency and every
  \<open>int64\<close>, with one exception: the smallest one in a currency of three decimals.\<close>

lemma amount_round_trip:
  "ParseAmountToMinor (FormatAmountMinor amount currency) currency = Inr amount \<longleftrightarrow>
     \<not> (exponent currency = 3 \<and> amount = - 9223372036854775808)"
proof (cases "exponent currency = 0 \<or> sint amount \<noteq> - 9223372036854775808")
  case True
  then have "\<not> (exponent currency = 3 \<and> amount = - 9223372036854775808)" by auto
  with parse_format [OF True] show ?thesis by blast
next
  case False
  then have "sint amount = sint (- 9223372036854775808 :: i64)" by simp
  then have a: "amount = - 9223372036854775808" by (simp only: signed_word_eqI)
  have "exponent currency = 2 \<or> exponent currency = 3" using False exponent_cases by blast
  then show ?thesis
    using round_trip_smallest [of currency] by (auto simp: a)
qed

text \<open>Reading the canonical text of an amount of \<open>m\<close> minor units, whose whole part fits 64
  bits, never fails and gives \<open>m\<close> reduced modulo 2^64: the product and the sum are not
  checked, so an amount beyond the range reads as a negative one.\<close>

lemma amount_parse_wraps:
  assumes "exponent currency \<noteq> 0" and "0 \<le> m" and "m div 10 ^ exponent currency < 9223372036854775808"
  shows "ParseAmountToMinor (decimal (exponent currency) m) currency = Inr (word_of_int m)"
  using parse_decimal(1) [OF refl assms] .

lemma amount_parse_wraps_witness:
  "ParseAmountToMinor (decimal 2 9223372036854775808) ''USD'' = Inr (- 9223372036854775808)"
proof -
  have "exponent ''USD'' = 2" by code_simp
  then show ?thesis using amount_parse_wraps [of "''USD''" 9223372036854775808] by simp
qed

end
