(* ===== verification/Store.thy ===== *)
theory Store
  imports Domain
begin

text \<open>
  \<open>internal/repository\<close>: the tables and the shared query helpers of \<open>repository.go\<close>.

  A table is the list of its rows in insertion order. A \<open>WHERE\<close> clause is a predicate on
  rows, an \<open>UPDATE\<close> a function on rows, \<open>ORDER BY\<close> a stable sort. Every statement first
  takes one bit from \<open>faults\<close>: a raised bit is a statement the driver could not execute
  (a lost connection, a cancelled context), which answers \<open>DriverErr\<close> and changes nothing.
  The bits are arbitrary, so what is proved of an operation holds wherever the database
  fails it. A unique index is a predicate on pairs of rows; a row that clashes is refused.

  \<open>zero_defaults\<close> says whether the ORM stores the declared column default instead of a zero
  value of a field with a \<open>default:\<close> tag when it inserts a row (its documented behaviour);
  nothing but the named theorems depends on it.
\<close>

record db =
  t_adminUsers :: "AdminUser list"
  t_adminSessions :: "AdminSession list"
  t_roles :: "Role list"
  t_rolePermissions :: "(string \<times> string) list"
  t_permissions :: "Permission list"
  t_auditLogs :: "AuditLog list"
  t_apps :: "App list"
  t_appCredentials :: "AppCredential list"
  t_appSessions :: "AppSession list"
  t_providerAccounts :: "ProviderAccount list"
  t_providerHealth :: "ProviderHealthSnapshot list"
  t_paymentRoutes :: "PaymentRoute list"
  t_transactions :: "Transaction list"
  t_attempts :: "TransactionAttempt list"
  t_webhookEvents :: "WebhookEvent list"
  zero_defaults :: bool
  faults :: "bool list"

type_synonym 'a dbop = "(db, 'a) oper"
type_synonym 'r rows = "db \<Rightarrow> 'r list"
type_synonym 'r upd = "('r list \<Rightarrow> 'r list) \<Rightarrow> db \<Rightarrow> db"

section \<open>repository.go\<close>

definition statement :: "unit dbop" where
  "statement d =
     (case faults d of
        [] \<Rightarrow> (Inr (), d)
      | b # bs \<Rightarrow> (if b then Inl DriverErr else Inr (), d\<lparr>faults := bs\<rparr>))"

definition IsNotFound :: "err \<Rightarrow> bool" where
  "IsNotFound e = errors_is e NotFound"

definition base_create :: "'r rows \<Rightarrow> 'r upd \<Rightarrow> ('r \<Rightarrow> 'r \<Rightarrow> bool) \<Rightarrow> 'r \<Rightarrow> unit dbop" where
  "base_create rows upd clash row =
     bindE statement (\<lambda>_ d.
       if list_ex (\<lambda>r. clash r row) (rows d) then (Inl DriverErr, d)
       else (Inr (), upd (\<lambda>rs. rs @ [row]) d))"

text \<open>\<open>First\<close> orders by the primary key; the conditions it is called with identify a row by a unique
  key, so the order does not show.\<close>

definition base_first :: "'r rows \<Rightarrow> ('r \<Rightarrow> bool) \<Rightarrow> 'r dbop" where
  "base_first rows P =
     bindE statement (\<lambda>_ d.
       case List.find P (rows d) of None \<Rightarrow> (Inl NotFound, d) | Some r \<Rightarrow> (Inr r, d))"

definition base_find :: "'r rows \<Rightarrow> ('r list \<Rightarrow> 'r list) \<Rightarrow> ('r \<Rightarrow> bool) \<Rightarrow> 'r list dbop" where
  "base_find rows ord P = bindE statement (\<lambda>_ d. (Inr (ord (filter P (rows d))), d))"

text \<open>\<open>Updates\<close> on the matching rows, and the number of rows it matched.\<close>

definition base_updates :: "'r rows \<Rightarrow> 'r upd \<Rightarrow> ('r \<Rightarrow> bool) \<Rightarrow> ('r \<Rightarrow> 'r) \<Rightarrow> nat dbop" where
  "base_updates rows upd P f =
     bindE statement (\<lambda>_ d.
       (Inr (length (filter P (rows d))), upd (map (\<lambda>r. if P r then f r else r)) d))"

definition base_deletes :: "'r rows \<Rightarrow> 'r upd \<Rightarrow> ('r \<Rightarrow> bool) \<Rightarrow> nat dbop" where
  "base_deletes rows upd P =
     bindE statement (\<lambda>_ d. (Inr (length (filter P (rows d))), upd (filter (\<lambda>r. \<not> P r)) d))"

definition affected :: "nat dbop \<Rightarrow> unit dbop" where
  "affected m = bindE m (\<lambda>n. failIf (n = 0) NotFound)"

definition base_update :: "'r rows \<Rightarrow> 'r upd \<Rightarrow> ('r \<Rightarrow> bool) \<Rightarrow> ('r \<Rightarrow> 'r) \<Rightarrow> unit dbop" where
  "base_update rows upd P f = affected (base_updates rows upd P f)"

definition base_touch :: "'r rows \<Rightarrow> 'r upd \<Rightarrow> ('r \<Rightarrow> bool) \<Rightarrow> ('r \<Rightarrow> 'r) \<Rightarrow> unit dbop" where
  "base_touch rows upd P f = bindE (base_updates rows upd P f) (\<lambda>_. returnE ())"

definition base_deleteWhere :: "'r rows \<Rightarrow> 'r upd \<Rightarrow> ('r \<Rightarrow> bool) \<Rightarrow> unit dbop" where
  "base_deleteWhere rows upd P = affected (base_deletes rows upd P)"

definition base_count :: "'r rows \<Rightarrow> ('r \<Rightarrow> bool) \<Rightarrow> int dbop" where
  "base_count rows P = bindE statement (\<lambda>_ d. (Inr (int (length (filter P (rows d)))), d))"

text \<open>\<open>Order(..).Limit(size).Offset((number - 1) * size)\<close>: the offset is a 64-bit product, and the ORM
  ignores one that is not positive.\<close>

definition page_slice :: "int \<Rightarrow> int \<Rightarrow> 'r list \<Rightarrow> 'r list" where
  "page_slice number per_page xs =
     take (nat per_page) (drop (nat (sint (word_of_int ((number - 1) * per_page) :: 64 word))) xs)"

definition base_page ::
    "'r rows \<Rightarrow> ('r list \<Rightarrow> 'r list) \<Rightarrow> ('r \<Rightarrow> bool) \<Rightarrow> int \<Rightarrow> int \<Rightarrow> ('r list \<times> int) dbop" where
  "base_page rows ord P number per_page =
     bindE (base_count rows P) (\<lambda>total.
     bindE (base_find rows ord P) (\<lambda>items.
     returnE (page_slice number per_page items, total)))"

lemmas base_defs =
  base_create_def base_first_def base_find_def base_updates_def base_deletes_def affected_def
  base_update_def base_touch_def base_deleteWhere_def base_count_def base_page_def

abbreviation newest :: "('r \<Rightarrow> time) \<Rightarrow> 'r list \<Rightarrow> 'r list" where
  "newest created \<equiv> sort_key (\<lambda>r. - created r)"

section \<open>Which statements keep a relation\<close>

lemma statement_cases:
  obtains (fail) bs where "statement d = (Inl DriverErr, d\<lparr>faults := bs\<rparr>)"
    | (ok) bs where "statement d = (Inr (), d\<lparr>faults := bs\<rparr>)"
proof (cases "faults d")
  case Nil
  then have "statement d = (Inr (), d\<lparr>faults := faults d\<rparr>)" by (simp add: statement_def)
  then show ?thesis by (rule ok)
next
  case (Cons b bs)
  then have "statement d = (if b then Inl DriverErr else Inr (), d\<lparr>faults := bs\<rparr>)"
    by (simp add: statement_def)
  then show ?thesis by (cases b) (auto intro: fail ok)
qed

locale db_relation = effect_preorder R for R :: "db \<Rightarrow> db \<Rightarrow> bool" +
  assumes R_faults: "R d (d\<lparr>faults := bs\<rparr>)"
begin

lemma moves_statement: "moves R statement"
proof
  show "R d (snd (statement d))" for d
    by (rule statement_cases [of d]) (simp_all add: R_faults)
qed

lemma moves_pure: "(\<And>d. snd (m d) = d) \<Longrightarrow> moves R m"
  by (simp add: moves_def refl_R)

lemma moves_first: "moves R (base_first rows P)"
  unfolding base_first_def
  by (intro moves_bindE moves_statement moves_pure) (simp split: option.split)

lemma moves_find: "moves R (base_find rows ord P)"
  unfolding base_find_def by (intro moves_bindE moves_statement moves_pure) simp

lemma moves_count: "moves R (base_count rows P)"
  unfolding base_count_def by (intro moves_bindE moves_statement moves_pure) simp

lemma moves_page: "moves R (base_page rows ord P number per_page)"
  unfolding base_page_def by (intro moves_bindE moves_count moves_find moves_returnE)

text \<open>A write keeps the relation when replacing the rows of its table does.\<close>

lemma moves_create: "(\<And>f d. R d (upd f d)) \<Longrightarrow> moves R (base_create rows upd clash row)"
  unfolding base_create_def
  by (intro moves_bindE moves_statement) (simp add: moves_def refl_R)

lemma moves_updates: "(\<And>f d. R d (upd f d)) \<Longrightarrow> moves R (base_updates rows upd P f)"
  unfolding base_updates_def by (intro moves_bindE moves_statement) (simp add: moves_def)

lemma moves_deletes: "(\<And>f d. R d (upd f d)) \<Longrightarrow> moves R (base_deletes rows upd P)"
  unfolding base_deletes_def by (intro moves_bindE moves_statement) (simp add: moves_def)

lemma moves_affected: "moves R m \<Longrightarrow> moves R (affected m)"
  unfolding affected_def by (intro moves_bindE moves_failIf)

lemma moves_update: "(\<And>f d. R d (upd f d)) \<Longrightarrow> moves R (base_update rows upd P f)"
  unfolding base_update_def by (intro moves_affected moves_updates)

lemma moves_touch: "(\<And>f d. R d (upd f d)) \<Longrightarrow> moves R (base_touch rows upd P f)"
  unfolding base_touch_def by (intro moves_bindE moves_updates moves_returnE)

lemma moves_deleteWhere: "(\<And>f d. R d (upd f d)) \<Longrightarrow> moves R (base_deleteWhere rows upd P)"
  unfolding base_deleteWhere_def by (intro moves_affected moves_deletes)

lemmas moves_reads = moves_first moves_find moves_count moves_page
lemmas moves_writes = moves_create moves_updates moves_update moves_touch moves_deletes moves_deleteWhere

end

section \<open>What a table promises\<close>

text \<open>The selector and the update of one field of the store.\<close>

locale table =
  fixes rows :: "db \<Rightarrow> 'r list" and upd :: "('r list \<Rightarrow> 'r list) \<Rightarrow> db \<Rightarrow> db"
  assumes rows_upd [simp]: "rows (upd f d) = f (rows d)"
    and rows_faults [simp]: "rows (d\<lparr>faults := bs\<rparr>) = rows d"
begin

lemma rows_statement: "statement d = (r, d') \<Longrightarrow> rows d' = rows d"
  by (rule statement_cases [of d]) auto

lemma create_InrD:
  assumes "base_create rows upd clash row d = (Inr u, d')"
  shows "rows d' = rows d @ [row]" and "r \<in> set (rows d) \<Longrightarrow> \<not> clash r row"
  using assms
  by (rule_tac [!] statement_cases [of d]) (auto simp: base_create_def list_ex_iff split: if_splits)

lemma create_InlD: "base_create rows upd clash row d = (Inl e, d') \<Longrightarrow> rows d' = rows d"
  by (auto simp: base_create_def split: if_splits dest: rows_statement elim!: bindE_InlE)

lemma first_rows: "base_first rows P d = (r, d') \<Longrightarrow> rows d' = rows d"
  by (rule statement_cases [of d]) (auto simp: base_first_def split: option.splits)

lemma first_InrD:
  assumes "base_first rows P d = (Inr r, d')"
  shows "List.find P (rows d) = Some r" and "r \<in> set (rows d)" and "P r"
proof -
  show "List.find P (rows d) = Some r"
    using assms
    by (auto simp: base_first_def split: option.splits dest: rows_statement elim!: bindE_InrE)
  then show "r \<in> set (rows d)" "P r" by (auto dest: find_Some_in_set)
qed

lemma first_NotFoundD:
  assumes "base_first rows P d = (Inl e, d')" and "e \<noteq> DriverErr" and "r \<in> set (rows d)"
  shows "\<not> P r"
  using assms
  by (rule_tac statement_cases [of d])
     (auto simp: base_first_def split: option.splits dest: find_None_all)

lemma first_errD: "base_first rows P d = (Inl e, d') \<Longrightarrow> e = NotFound \<or> e = DriverErr"
  by (rule statement_cases [of d]) (auto simp: base_first_def split: option.splits)

lemma find_InrD:
  assumes "base_find rows ord P d = (Inr rs, d')"
  shows "rs = ord (filter P (rows d))" and "rows d' = rows d"
  using assms by (auto simp: base_find_def dest: rows_statement elim!: bindE_InrE)

lemma updates_InrD:
  assumes "base_updates rows upd P f d = (Inr n, d')"
  shows "rows d' = map (\<lambda>r. if P r then f r else r) (rows d)" and "n = length (filter P (rows d))"
  using assms by (auto simp: base_updates_def dest: rows_statement elim!: bindE_InrE)

lemma updates_InlD: "base_updates rows upd P f d = (Inl e, d') \<Longrightarrow> rows d' = rows d"
  by (auto simp: base_updates_def dest: rows_statement elim!: bindE_InlE)

lemma update_InrD:
  assumes "base_update rows upd P f d = (Inr u, d')"
  shows "rows d' = map (\<lambda>r. if P r then f r else r) (rows d)" and "\<exists>r\<in>set (rows d). P r"
  using assms unfolding base_update_def affected_def
  by (auto simp: filter_empty_conv dest!: failIf_InrD elim!: bindE_InrE dest: updates_InrD)

text \<open>A refused update changed no row: either the statement failed or nothing matched.\<close>

lemma update_InlD: "base_update rows upd P f d = (Inl e, d') \<Longrightarrow> rows d' = rows d"
  by (rule statement_cases [of d])
     (auto simp: base_update_def affected_def base_updates_def bindE_def filter_empty_conv map_idI
        dest!: failIf_InlD)

lemma touch_rows:
  assumes "base_touch rows upd P f d = (r, d')"
  shows "rows d' = map (\<lambda>r. if P r then f r else r) (rows d) \<or> (rows d' = rows d \<and> r = Inl DriverErr)"
  using assms
  by (rule_tac statement_cases [of d]) (auto simp: base_touch_def base_updates_def bindE_def returnE_def)

lemma deletes_InrD:
  assumes "base_deletes rows upd P d = (Inr n, d')"
  shows "rows d' = filter (\<lambda>r. \<not> P r) (rows d)" and "n = length (filter P (rows d))"
  using assms by (auto simp: base_deletes_def dest: rows_statement elim!: bindE_InrE)

end

end
