(* ===== verification/Charges.thy ===== *)
theory Charges
  imports Domain
begin

text \<open>
  \<open>internal/domain/charges.go\<close>: fee rules, validated and evaluated on \<open>int64\<close> amounts.
  The percentage branch splits the amount so that no intermediate product leaves the
  64-bit range; \<open>fee_spec\<close> is the exact half-up fee over unbounded integers it implements.
\<close>

definition ChargeFlat :: string where "ChargeFlat = ''flat''"
definition ChargePercentage :: string where "ChargePercentage = ''percentage''"
definition basisPointScale :: i64 where "basisPointScale = 10000"

lemma charge_type_neq [simp]: "ChargeFlat \<noteq> ChargePercentage" "ChargePercentage \<noteq> ChargeFlat"
  by (simp_all add: ChargeFlat_def ChargePercentage_def)

lemma sint_basisPointScale [simp]: "sint basisPointScale = 10000"
  by (simp add: basisPointScale_def)

definition ChargeSchedule_Normalize :: "ChargeSchedule \<Rightarrow> ChargeSchedule" where
  "ChargeSchedule_Normalize s =
     (let s = (if cr_Type (cs_Collection s) = []
               then s\<lparr>cs_Collection := (cs_Collection s)\<lparr>cr_Type := ChargeFlat\<rparr>\<rparr> else s);
          s = (if cr_Type (cs_Disbursement s) = []
               then s\<lparr>cs_Disbursement := (cs_Disbursement s)\<lparr>cr_Type := ChargeFlat\<rparr>\<rparr> else s)
      in s)"

definition ChargeRule_Validate :: "ChargeRule \<Rightarrow> err + unit" where
  "ChargeRule_Validate r =
     (if cr_Value r <s 0 then Inl (Msg ''value must not be negative'')
      else if cr_Type r = ChargeFlat then Inr ()
      else if cr_Type r = ChargePercentage
      then (if basisPointScale <s cr_Value r
            then Inl (Msg ''percentage must not exceed 10000 basis points'') else Inr ())
      else Inl (Msg ''type must be flat or percentage''))"

definition ChargeSchedule_Validate :: "ChargeSchedule \<Rightarrow> err + unit" where
  "ChargeSchedule_Validate s =
     (case ChargeRule_Validate (cs_Collection s) of
        Inl e \<Rightarrow> Inl (Wrap ''collection charge'' e)
      | Inr _ \<Rightarrow>
          (case ChargeRule_Validate (cs_Disbursement s) of
             Inl e \<Rightarrow> Inl (Wrap ''disbursement charge'' e)
           | Inr _ \<Rightarrow> Inr ()))"

definition ChargeSchedule_Rule :: "ChargeSchedule \<Rightarrow> string \<Rightarrow> ChargeRule" where
  "ChargeSchedule_Rule s service =
     (if service = ServiceDisbursement then cs_Disbursement s else cs_Collection s)"

definition Calculate :: "ChargeRule \<Rightarrow> i64 \<Rightarrow> err + i64" where
  "Calculate r amount =
     (if amount <s 0 then Inl (Msg ''amount must not be negative'')
      else case ChargeRule_Validate r of
        Inl e \<Rightarrow> Inl e
      | Inr _ \<Rightarrow>
          (if cr_Type r = ChargeFlat then Inr (cr_Value r)
           else
             let whole = i64_div amount basisPointScale;
                 remainder = i64_mod amount basisPointScale
             in Inr (whole * cr_Value r +
                     i64_div (remainder * cr_Value r + i64_div basisPointScale 2) basisPointScale)))"

section \<open>The exact fee\<close>

definition fee_spec :: "ChargeRule \<Rightarrow> int \<Rightarrow> int" where
  "fee_spec r amount =
     (if cr_Type r = ChargeFlat then sint (cr_Value r)
      else (amount * sint (cr_Value r) + 5000) div 10000)"

definition valid_rule :: "ChargeRule \<Rightarrow> bool" where
  "valid_rule r \<longleftrightarrow>
     0 \<le> sint (cr_Value r) \<and>
     (cr_Type r = ChargeFlat \<or> (cr_Type r = ChargePercentage \<and> sint (cr_Value r) \<le> 10000))"

lemma ChargeRule_Validate_iff: "ChargeRule_Validate r = Inr () \<longleftrightarrow> valid_rule r"
  by (auto simp: ChargeRule_Validate_def valid_rule_def word_sless_alt)

lemma ChargeSchedule_Validate_iff:
  "ChargeSchedule_Validate s = Inr () \<longleftrightarrow> valid_rule (cs_Collection s) \<and> valid_rule (cs_Disbursement s)"
  by (auto simp: ChargeSchedule_Validate_def simp flip: ChargeRule_Validate_iff split: sum.splits)

lemma ChargeSchedule_Rule_valid:
  "ChargeSchedule_Validate s = Inr () \<Longrightarrow> valid_rule (ChargeSchedule_Rule s service)"
  by (simp add: ChargeSchedule_Validate_iff ChargeSchedule_Rule_def)

text \<open>Splitting quotient and remainder does not change the rounded fee, and every
  intermediate value fits 64 bits.\<close>

lemma split_fee:
  "(a::int) div 10000 * v + ((a mod 10000) * v + 5000) div 10000 = (a * v + 5000) div 10000"
proof -
  have "a * v + 5000 = 10000 * (a div 10000 * v) + ((a mod 10000) * v + 5000)"
    using mult_div_mod_eq [of 10000 a] by (metis (no_types, lifting) add.assoc distrib_right mult.assoc)
  then show ?thesis by simp
qed

lemma percentage_bounds:
  fixes a v :: int
  assumes "0 \<le> a" "0 \<le> v" "v \<le> 10000"
  shows "0 \<le> (a mod 10000) * v" and "(a mod 10000) * v \<le> 100000000"
    and "0 \<le> a div 10000 * v" and "a div 10000 * v \<le> a"
    and "0 \<le> (a * v + 5000) div 10000" and "(a * v + 5000) div 10000 \<le> a"
proof -
  have m: "0 \<le> a mod 10000" "a mod 10000 \<le> 10000" by simp_all
  show "0 \<le> (a mod 10000) * v" using m assms by simp
  show "(a mod 10000) * v \<le> 100000000"
    using mult_mono [OF m(2) assms(3)] assms m by simp
  show "0 \<le> a div 10000 * v" using assms by (simp add: pos_imp_zdiv_nonneg_iff)
  have "a div 10000 * v \<le> a div 10000 * 10000"
    using assms by (intro mult_left_mono) (simp_all add: pos_imp_zdiv_nonneg_iff)
  also have "\<dots> \<le> a" by simp
  finally show "a div 10000 * v \<le> a" .
  have "a * v \<le> a * 10000" using assms by (intro mult_left_mono)
  then show "(a * v + 5000) div 10000 \<le> a" by linarith
  have "0 \<le> a * v" using assms by simp
  then show "0 \<le> (a * v + 5000) div 10000" by simp
qed

lemma percentage_words:
  assumes a: "0 \<le> sint amount" and v: "0 \<le> sint v" "sint v \<le> 10000"
  shows "sint (i64_div amount basisPointScale * v +
               i64_div (i64_mod amount basisPointScale * v + i64_div basisPointScale 2) basisPointScale)
         = (sint amount * sint v + 5000) div 10000"
proof -
  note b = percentage_bounds [OF a v]
  note lim = sint_i64_less [of amount]
  have q: "sint (i64_div amount basisPointScale) = sint amount div 10000"
    using a by (simp add: sint_i64_div)
  have r: "sint (i64_mod amount basisPointScale) = sint amount mod 10000"
    using a by (simp add: sint_i64_mod)
  have half: "sint (i64_div basisPointScale 2) = 5000"
    by (simp add: sint_i64_div)
  have rv: "sint (i64_mod amount basisPointScale * v) = (sint amount mod 10000) * sint v"
    unfolding i64_mult_eq r using b by (intro sint_i64) linarith+
  have n: "sint (i64_mod amount basisPointScale * v + i64_div basisPointScale 2)
             = (sint amount mod 10000) * sint v + 5000"
    unfolding i64_add_eq rv half using b by (intro sint_i64) linarith+
  have d: "sint (i64_div (i64_mod amount basisPointScale * v + i64_div basisPointScale 2) basisPointScale)
             = ((sint amount mod 10000) * sint v + 5000) div 10000"
    using b by (subst sint_i64_div) (simp_all add: n)
  have w: "sint (i64_div amount basisPointScale * v) = sint amount div 10000 * sint v"
    unfolding i64_mult_eq q using b lim by (intro sint_i64) linarith+
  show ?thesis
    using b lim by (subst i64_add_eq, unfold w d split_fee) (intro sint_i64; linarith)
qed

lemma Calculate_cases:
  "Calculate r amount =
     (if sint amount < 0 then Inl (Msg ''amount must not be negative'')
      else case ChargeRule_Validate r of Inl e \<Rightarrow> Inl e
           | Inr _ \<Rightarrow> Inr (word_of_int (fee_spec r (sint amount))))"
proof (cases "\<not> sint amount < 0 \<and> valid_rule r")
  case True
  then have "ChargeRule_Validate r = Inr ()" by (simp add: ChargeRule_Validate_iff)
  moreover have "cr_Type r \<noteq> ChargeFlat \<Longrightarrow>
      i64_div amount basisPointScale * cr_Value r +
        i64_div (i64_mod amount basisPointScale * cr_Value r + i64_div basisPointScale 2) basisPointScale
      = word_of_int ((sint amount * sint (cr_Value r) + 5000) div 10000)"
    using True by (simp add: valid_rule_def flip: percentage_words)
  ultimately show ?thesis
    using True by (simp add: Calculate_def fee_spec_def word_sless_alt Let_def)
next
  case False
  then have "sint amount < 0 \<or> (\<exists>e. ChargeRule_Validate r = Inl e)"
    by (metis ChargeRule_Validate_iff old.sum.exhaust old.unit.exhaust)
  then show ?thesis
    by (auto simp: Calculate_def word_sless_alt)
qed

section \<open>Properties\<close>

lemma fee_spec_bounds:
  fixes amount :: i64
  assumes "valid_rule r" and "0 \<le> sint amount"
  shows "0 \<le> fee_spec r (sint amount)" and "fee_spec r (sint amount) < 9223372036854775808"
    and "cr_Type r \<noteq> ChargeFlat \<Longrightarrow> fee_spec r (sint amount) \<le> sint amount"
proof -
  note p = percentage_bounds(5,6) [of "sint amount" "sint (cr_Value r)"]
  show "0 \<le> fee_spec r (sint amount)"
    and "cr_Type r \<noteq> ChargeFlat \<Longrightarrow> fee_spec r (sint amount) \<le> sint amount"
    using assms p by (auto simp: fee_spec_def valid_rule_def)
  show "fee_spec r (sint amount) < 9223372036854775808"
    using assms p sint_i64_less [of amount] sint_i64_less [of "cr_Value r"]
    by (auto simp: fee_spec_def valid_rule_def intro: le_less_trans)
qed

text \<open>C22: a fee is refused exactly for a negative amount or an invalid rule; otherwise it is
  the flat value or the exact half-up share of the amount over unbounded integers, no
  intermediate product having wrapped, and a percentage never exceeds the amount.\<close>

lemma Calculate_exact:
  "(case Calculate r amount of
      Inl e \<Rightarrow> sint amount < 0 \<or> \<not> valid_rule r
    | Inr fee \<Rightarrow>
        0 \<le> sint amount \<and> valid_rule r \<and> sint fee = fee_spec r (sint amount) \<and> 0 \<le> sint fee \<and>
        (cr_Type r = ChargePercentage \<longrightarrow> sint fee \<le> sint amount))"
proof (cases "0 \<le> sint amount \<and> valid_rule r")
  case True
  then have "Calculate r amount = Inr (word_of_int (fee_spec r (sint amount)))"
    using ChargeRule_Validate_iff [of r] by (simp add: Calculate_cases)
  moreover have "sint (word_of_int (fee_spec r (sint amount)) :: i64) = fee_spec r (sint amount)"
    using True fee_spec_bounds [of r amount] by (intro sint_i64) auto
  ultimately show ?thesis using True fee_spec_bounds [of r amount] by auto
next
  case False
  then show ?thesis
    using ChargeRule_Validate_iff [of r] by (auto simp: Calculate_cases split: sum.splits)
qed

lemma Calculate_exact_witness:
  "(case Calculate \<lparr>cr_Type = ChargePercentage, cr_Value = 10000\<rparr> 9223372036854775807 of
      Inl e \<Rightarrow> False
    | Inr fee \<Rightarrow> sint fee = 9223372036854775807)"
  using Calculate_exact [where r = "\<lparr>cr_Type = ChargePercentage, cr_Value = 10000\<rparr>" and
      amount = 9223372036854775807]
  by (simp add: valid_rule_def fee_spec_def split: sum.splits)

end
