(* ===== verification/Repos.thy ===== *)
theory Repos
  imports Store Charges
begin

text \<open>
  \<open>internal/repository/{admin,app,authz,payments}.go\<close>: one operation per repository method,
  named \<open><Set field>_<Method>\<close>, over the tables of \<open>Store\<close>. A \<open>Create\<close> takes the time the
  ORM stamps on the row and returns the row as it was stored; the unique indexes and
  column defaults are the struct tags of \<open>domain/models.go\<close>.
\<close>

text \<open>The declared column default replaces a zero value when the ORM works that way.\<close>

definition create_row ::
    "'r rows \<Rightarrow> 'r upd \<Rightarrow> ('r \<Rightarrow> 'r \<Rightarrow> bool) \<Rightarrow> ('r \<Rightarrow> 'r) \<Rightarrow> 'r \<Rightarrow> 'r dbop" where
  "create_row rows upd clash defaults row d =
     (let stored = (if zero_defaults d then defaults row else row)
      in bindE (base_create rows upd clash stored) (\<lambda>_. returnE stored) d)"

context db_relation
begin

lemma moves_create_row:
  "(\<And>f d. R d (upd f d)) \<Longrightarrow> moves R (create_row rows upd clash defaults row)"
  using moves_bindE [OF moves_create moves_returnE, of upd rows clash]
  by (fastforce simp: moves_def create_row_def Let_def)

end

interpretation adminUsers: table t_adminUsers t_adminUsers_update by unfold_locales simp_all
interpretation adminSessions: table t_adminSessions t_adminSessions_update by unfold_locales simp_all
interpretation roles: table t_roles t_roles_update by unfold_locales simp_all
interpretation permissions: table t_permissions t_permissions_update by unfold_locales simp_all
interpretation auditLogs: table t_auditLogs t_auditLogs_update by unfold_locales simp_all
interpretation apps: table t_apps t_apps_update by unfold_locales simp_all
interpretation appCredentials: table t_appCredentials t_appCredentials_update by unfold_locales simp_all
interpretation appSessions: table t_appSessions t_appSessions_update by unfold_locales simp_all
interpretation providerAccounts: table t_providerAccounts t_providerAccounts_update by unfold_locales simp_all
interpretation providerHealth: table t_providerHealth t_providerHealth_update by unfold_locales simp_all
interpretation paymentRoutes: table t_paymentRoutes t_paymentRoutes_update by unfold_locales simp_all
interpretation transactions: table t_transactions t_transactions_update by unfold_locales simp_all
interpretation attempts: table t_attempts t_attempts_update by unfold_locales simp_all
interpretation webhookEvents: table t_webhookEvents t_webhookEvents_update by unfold_locales simp_all

named_theorems repo_defs "the repository methods"

section \<open>admin.go\<close>

definition active :: string where "active = ''active''"

definition AdminUser_defaults :: "AdminUser \<Rightarrow> AdminUser" where
  "AdminUser_defaults u =
     u\<lparr>au_Role := (if au_Role u = [] then ''super_admin'' else au_Role u),
       au_Status := (if au_Status u = [] then active else au_Status u)\<rparr>"

definition AdminUsers_Create :: "time \<Rightarrow> AdminUser \<Rightarrow> AdminUser dbop" where
  "AdminUsers_Create now u =
     create_row t_adminUsers t_adminUsers_update
       (\<lambda>a b. au_ID a = au_ID b \<or> au_Email a = au_Email b) AdminUser_defaults
       (u\<lparr>au_CreatedAt := now, au_Permissions := []\<rparr>)"

definition AdminUsers_ByEmail :: "string \<Rightarrow> AdminUser dbop" where
  "AdminUsers_ByEmail email = base_first t_adminUsers (\<lambda>u. au_Email u = email)"

definition AdminUsers_ActiveByID :: "string \<Rightarrow> AdminUser dbop" where
  "AdminUsers_ActiveByID i = base_first t_adminUsers (\<lambda>u. au_ID u = i \<and> au_Status u = active)"

definition AdminUsers_Page :: "int \<Rightarrow> int \<Rightarrow> (AdminUser list \<times> int) dbop" where
  "AdminUsers_Page = base_page t_adminUsers (newest au_CreatedAt) (\<lambda>_. True)"

definition AdminUsers_CountWithRole :: "string \<Rightarrow> int dbop" where
  "AdminUsers_CountWithRole role = base_count t_adminUsers (\<lambda>u. au_Role u = role)"

definition AdminUsers_SetRole :: "string \<Rightarrow> string \<Rightarrow> unit dbop" where
  "AdminUsers_SetRole i role =
     base_update t_adminUsers t_adminUsers_update (\<lambda>u. au_ID u = i) (au_Role_update (\<lambda>_. role))"

definition AdminUsers_SetStatus :: "string \<Rightarrow> string \<Rightarrow> unit dbop" where
  "AdminUsers_SetStatus i status =
     base_update t_adminUsers t_adminUsers_update (\<lambda>u. au_ID u = i) (au_Status_update (\<lambda>_. status))"

definition AdminUsers_SetPassword :: "string \<Rightarrow> string \<Rightarrow> time \<Rightarrow> unit dbop" where
  "AdminUsers_SetPassword i hash changedAt =
     base_update t_adminUsers t_adminUsers_update (\<lambda>u. au_ID u = i)
       (\<lambda>u. u\<lparr>au_PasswordHash := hash, au_PasswordChangedAt := Some changedAt\<rparr>)"

definition AdminUsers_RecordFailedLogin :: "string \<Rightarrow> time option \<Rightarrow> unit dbop" where
  "AdminUsers_RecordFailedLogin i lockUntil =
     base_touch t_adminUsers t_adminUsers_update (\<lambda>u. au_ID u = i)
       (\<lambda>u. u\<lparr>au_FailedLoginAttempts := au_FailedLoginAttempts u + 1,
              au_LockedUntil := (case lockUntil of None \<Rightarrow> au_LockedUntil u | Some t \<Rightarrow> Some t)\<rparr>)"

definition AdminUsers_RecordLogin :: "string \<Rightarrow> time \<Rightarrow> unit dbop" where
  "AdminUsers_RecordLogin i at =
     base_touch t_adminUsers t_adminUsers_update (\<lambda>u. au_ID u = i)
       (\<lambda>u. u\<lparr>au_FailedLoginAttempts := 0, au_LockedUntil := None, au_LastLoginAt := Some at\<rparr>)"

definition AdminSessions_Create :: "time \<Rightarrow> AdminSession \<Rightarrow> AdminSession dbop" where
  "AdminSessions_Create now s =
     create_row t_adminSessions t_adminSessions_update
       (\<lambda>a b. as_ID a = as_ID b \<or> as_TokenHash a = as_TokenHash b) id (s\<lparr>as_CreatedAt := now\<rparr>)"

definition AdminSessions_Live :: "string \<Rightarrow> string \<Rightarrow> time \<Rightarrow> AdminSession dbop" where
  "AdminSessions_Live adminUserID tokenHash now =
     base_first t_adminSessions
       (\<lambda>s. as_AdminUserID s = adminUserID \<and> as_TokenHash s = tokenHash \<and>
            as_ExpiresAt s > now \<and> as_RevokedAt s = None)"

definition AdminSessions_LiveByRefresh :: "string \<Rightarrow> string \<Rightarrow> time \<Rightarrow> AdminSession dbop" where
  "AdminSessions_LiveByRefresh adminUserID refreshHash now =
     base_first t_adminSessions
       (\<lambda>s. as_AdminUserID s = adminUserID \<and> as_RefreshTokenHash s = refreshHash \<and>
            as_ExpiresAt s > now \<and> as_RevokedAt s = None)"

text \<open>The new token hash must not collide with another row's; a collision fails the
  statement.\<close>

definition AdminSessions_Rotate :: "string \<Rightarrow> string \<Rightarrow> AdminSession \<Rightarrow> unit dbop" where
  "AdminSessions_Rotate i previousRefreshHash s =
     bindE statement (\<lambda>_ d.
       let matches = (\<lambda>r. as_ID r = i \<and> as_RefreshTokenHash r = previousRefreshHash) in
       if list_ex (\<lambda>r. \<not> matches r \<and> as_TokenHash r = as_TokenHash s) (t_adminSessions d) \<and>
          list_ex matches (t_adminSessions d)
       then (Inl DriverErr, d)
       else affected (\<lambda>d. (Inr (length (filter matches (t_adminSessions d))),
              t_adminSessions_update (map (\<lambda>r. if matches r
                then r\<lparr>as_TokenHash := as_TokenHash s, as_RefreshTokenHash := as_RefreshTokenHash s,
                       as_IPAddress := as_IPAddress s, as_UserAgent := as_UserAgent s,
                       as_ExpiresAt := as_ExpiresAt s\<rparr>
                else r)) d)) d)"

definition AdminSessions_RevokeByToken :: "string \<Rightarrow> string \<Rightarrow> time \<Rightarrow> unit dbop" where
  "AdminSessions_RevokeByToken adminUserID tokenHash at =
     base_touch t_adminSessions t_adminSessions_update
       (\<lambda>s. as_AdminUserID s = adminUserID \<and> as_TokenHash s = tokenHash \<and> as_RevokedAt s = None)
       (as_RevokedAt_update (\<lambda>_. Some at))"

definition AdminSessions_RevokeAllFor :: "string \<Rightarrow> time \<Rightarrow> unit dbop" where
  "AdminSessions_RevokeAllFor adminUserID at =
     base_touch t_adminSessions t_adminSessions_update
       (\<lambda>s. as_AdminUserID s = adminUserID \<and> as_RevokedAt s = None)
       (as_RevokedAt_update (\<lambda>_. Some at))"

definition AdminSessions_DeleteExpired :: "time \<Rightarrow> nat dbop" where
  "AdminSessions_DeleteExpired cutoff =
     base_deletes t_adminSessions t_adminSessions_update (\<lambda>s. as_ExpiresAt s < cutoff)"

definition AuditLogs_Create :: "time \<Rightarrow> AuditLog \<Rightarrow> AuditLog dbop" where
  "AuditLogs_Create now e =
     create_row t_auditLogs t_auditLogs_update (\<lambda>a b. al_ID a = al_ID b) id (e\<lparr>al_CreatedAt := now\<rparr>)"

definition AuditLogs_Page :: "int \<Rightarrow> int \<Rightarrow> (AuditLog list \<times> int) dbop" where
  "AuditLogs_Page = base_page t_auditLogs (newest al_CreatedAt) (\<lambda>_. True)"

definition AuditLogs_DeleteBefore :: "time \<Rightarrow> nat dbop" where
  "AuditLogs_DeleteBefore cutoff =
     base_deletes t_auditLogs t_auditLogs_update (\<lambda>e. al_CreatedAt e < cutoff)"

lemmas [repo_defs] =
  AdminUsers_Create_def AdminUsers_ByEmail_def AdminUsers_ActiveByID_def AdminUsers_Page_def
  AdminUsers_CountWithRole_def AdminUsers_SetRole_def AdminUsers_SetStatus_def
  AdminUsers_SetPassword_def AdminUsers_RecordFailedLogin_def AdminUsers_RecordLogin_def
  AdminSessions_Create_def AdminSessions_Live_def AdminSessions_LiveByRefresh_def
  AdminSessions_RevokeByToken_def AdminSessions_RevokeAllFor_def AdminSessions_DeleteExpired_def
  AuditLogs_Create_def AuditLogs_Page_def AuditLogs_DeleteBefore_def

section \<open>app.go\<close>

definition App_defaults :: "App \<Rightarrow> App" where
  "App_defaults a =
     a\<lparr>app_Status := (if app_Status a = [] then active else app_Status a),
       app_Environment := (if app_Environment a = [] then ''production'' else app_Environment a),
       app_Currency := (if app_Currency a = [] then ''UGX'' else app_Currency a),
       app_Charges := ChargeSchedule_Normalize (app_Charges a)\<rparr>"

definition Apps_Create :: "time \<Rightarrow> App \<Rightarrow> App dbop" where
  "Apps_Create now a =
     create_row t_apps t_apps_update (\<lambda>x y. app_ID x = app_ID y) App_defaults (a\<lparr>app_CreatedAt := now\<rparr>)"

definition Apps_ByID :: "string \<Rightarrow> App dbop" where
  "Apps_ByID i = base_first t_apps (\<lambda>a. app_ID a = i)"

definition Apps_ActiveByID :: "string \<Rightarrow> App dbop" where
  "Apps_ActiveByID i = base_first t_apps (\<lambda>a. app_ID a = i \<and> app_Status a = active)"

definition Apps_Page :: "int \<Rightarrow> int \<Rightarrow> (App list \<times> int) dbop" where
  "Apps_Page = base_page t_apps (newest app_CreatedAt) (\<lambda>_. True)"

definition Apps_Update :: "string \<Rightarrow> (App \<Rightarrow> App) \<Rightarrow> unit dbop" where
  "Apps_Update i f = base_update t_apps t_apps_update (\<lambda>a. app_ID a = i) f"

definition Apps_SetStatus :: "string \<Rightarrow> string \<Rightarrow> unit dbop" where
  "Apps_SetStatus i status =
     base_update t_apps t_apps_update (\<lambda>a. app_ID a = i) (app_Status_update (\<lambda>_. status))"

definition AppCredential_defaults :: "AppCredential \<Rightarrow> AppCredential" where
  "AppCredential_defaults c = c\<lparr>ac_Status := (if ac_Status c = [] then active else ac_Status c)\<rparr>"

definition AppCredentials_Create :: "time \<Rightarrow> AppCredential \<Rightarrow> AppCredential dbop" where
  "AppCredentials_Create now c =
     create_row t_appCredentials t_appCredentials_update
       (\<lambda>x y. ac_ID x = ac_ID y \<or> ac_ClientID x = ac_ClientID y) AppCredential_defaults
       (c\<lparr>ac_CreatedAt := now\<rparr>)"

definition AppCredentials_ActiveByClientID :: "string \<Rightarrow> AppCredential dbop" where
  "AppCredentials_ActiveByClientID clientID =
     base_first t_appCredentials (\<lambda>c. ac_ClientID c = clientID \<and> ac_Status c = active)"

definition AppCredentials_ActiveInApp :: "string \<Rightarrow> string \<Rightarrow> AppCredential dbop" where
  "AppCredentials_ActiveInApp appID i =
     base_first t_appCredentials (\<lambda>c. ac_ID c = i \<and> ac_AppID c = appID \<and> ac_Status c = active)"

definition AppCredentials_InApp :: "string \<Rightarrow> string \<Rightarrow> AppCredential dbop" where
  "AppCredentials_InApp appID i = base_first t_appCredentials (\<lambda>c. ac_ID c = i \<and> ac_AppID c = appID)"

definition AppCredentials_PageForApp :: "string \<Rightarrow> int \<Rightarrow> int \<Rightarrow> (AppCredential list \<times> int) dbop" where
  "AppCredentials_PageForApp appID =
     base_page t_appCredentials (newest ac_CreatedAt) (\<lambda>c. ac_AppID c = appID)"

definition AppCredentials_Revoke :: "string \<Rightarrow> string \<Rightarrow> unit dbop" where
  "AppCredentials_Revoke appID i =
     base_update t_appCredentials t_appCredentials_update
       (\<lambda>c. ac_ID c = i \<and> ac_AppID c = appID) (ac_Status_update (\<lambda>_. ''revoked''))"

definition AppCredentials_Rotate :: "string \<Rightarrow> string \<Rightarrow> unit dbop" where
  "AppCredentials_Rotate i hash =
     base_update t_appCredentials t_appCredentials_update (\<lambda>c. ac_ID c = i)
       (\<lambda>c. c\<lparr>ac_ClientSecretHash := hash, ac_Status := active\<rparr>)"

definition AppCredentials_RecordUse :: "string \<Rightarrow> time \<Rightarrow> unit dbop" where
  "AppCredentials_RecordUse i at =
     base_update t_appCredentials t_appCredentials_update (\<lambda>c. ac_ID c = i)
       (ac_LastUsedAt_update (\<lambda>_. Some at))"

definition AppSessions_Create :: "time \<Rightarrow> AppSession \<Rightarrow> AppSession dbop" where
  "AppSessions_Create now s =
     create_row t_appSessions t_appSessions_update
       (\<lambda>x y. aps_ID x = aps_ID y \<or> aps_AccessTokenHash x = aps_AccessTokenHash y \<or>
              aps_RefreshTokenHash x = aps_RefreshTokenHash y) id (s\<lparr>aps_CreatedAt := now\<rparr>)"

definition AppSessions_Live :: "string \<Rightarrow> string \<Rightarrow> string \<Rightarrow> time \<Rightarrow> AppSession dbop" where
  "AppSessions_Live appID credentialID accessHash now =
     base_first t_appSessions
       (\<lambda>s. aps_AppID s = appID \<and> aps_CredentialID s = credentialID \<and>
            aps_AccessTokenHash s = accessHash \<and> aps_ExpiresAt s > now \<and> aps_RevokedAt s = None)"

definition AppSessions_LiveByRefresh :: "string \<Rightarrow> string \<Rightarrow> string \<Rightarrow> time \<Rightarrow> AppSession dbop" where
  "AppSessions_LiveByRefresh appID credentialID refreshHash now =
     base_first t_appSessions
       (\<lambda>s. aps_AppID s = appID \<and> aps_CredentialID s = credentialID \<and>
            aps_RefreshTokenHash s = refreshHash \<and> aps_ExpiresAt s > now \<and> aps_RevokedAt s = None)"

definition AppSessions_Rotate :: "string \<Rightarrow> string \<Rightarrow> AppSession \<Rightarrow> unit dbop" where
  "AppSessions_Rotate i previousRefreshHash s =
     bindE statement (\<lambda>_ d.
       let matches = (\<lambda>r. aps_ID r = i \<and> aps_RefreshTokenHash r = previousRefreshHash) in
       if list_ex (\<lambda>r. \<not> matches r \<and> (aps_AccessTokenHash r = aps_AccessTokenHash s \<or>
                                        aps_RefreshTokenHash r = aps_RefreshTokenHash s)) (t_appSessions d) \<and>
          list_ex matches (t_appSessions d)
       then (Inl DriverErr, d)
       else affected (\<lambda>d. (Inr (length (filter matches (t_appSessions d))),
              t_appSessions_update (map (\<lambda>r. if matches r
                then r\<lparr>aps_AccessTokenHash := aps_AccessTokenHash s,
                       aps_RefreshTokenHash := aps_RefreshTokenHash s,
                       aps_ExpiresAt := aps_ExpiresAt s\<rparr>
                else r)) d)) d)"

definition AppSessions_RevokeForApp :: "string \<Rightarrow> time \<Rightarrow> unit dbop" where
  "AppSessions_RevokeForApp appID at =
     base_touch t_appSessions t_appSessions_update
       (\<lambda>s. aps_AppID s = appID \<and> aps_RevokedAt s = None) (aps_RevokedAt_update (\<lambda>_. Some at))"

definition AppSessions_RevokeForCredential :: "string \<Rightarrow> time \<Rightarrow> unit dbop" where
  "AppSessions_RevokeForCredential credentialID at =
     base_touch t_appSessions t_appSessions_update
       (\<lambda>s. aps_CredentialID s = credentialID \<and> aps_RevokedAt s = None)
       (aps_RevokedAt_update (\<lambda>_. Some at))"

definition AppSessions_DeleteExpired :: "time \<Rightarrow> nat dbop" where
  "AppSessions_DeleteExpired cutoff =
     base_deletes t_appSessions t_appSessions_update (\<lambda>s. aps_ExpiresAt s < cutoff)"

lemmas [repo_defs] =
  Apps_Create_def Apps_ByID_def Apps_ActiveByID_def Apps_Page_def Apps_Update_def Apps_SetStatus_def
  AppCredentials_Create_def AppCredentials_ActiveByClientID_def AppCredentials_ActiveInApp_def
  AppCredentials_InApp_def AppCredentials_PageForApp_def AppCredentials_Revoke_def
  AppCredentials_Rotate_def AppCredentials_RecordUse_def AppSessions_Create_def AppSessions_Live_def
  AppSessions_LiveByRefresh_def AppSessions_RevokeForApp_def AppSessions_RevokeForCredential_def
  AppSessions_DeleteExpired_def

section \<open>authz.go\<close>

text \<open>On a conflict the stored row keeps its own id.\<close>

definition upsert ::
    "'r rows \<Rightarrow> 'r upd \<Rightarrow> ('r \<Rightarrow> bool) \<Rightarrow> ('r \<Rightarrow> 'r) \<Rightarrow> ('r \<Rightarrow> 'r \<Rightarrow> bool) \<Rightarrow> 'r \<Rightarrow> nat dbop" where
  "upsert rows upd conflict f clash row =
     bindE statement (\<lambda>_ d.
       if list_ex conflict (rows d)
       then (Inr (length (filter conflict (rows d))), upd (map (\<lambda>r. if conflict r then f r else r)) d)
       else if list_ex (\<lambda>r. clash r row) (rows d) then (Inl DriverErr, d)
       else (Inr 1, upd (\<lambda>rs. rs @ [row]) d))"

definition Permissions_Upsert :: "Permission \<Rightarrow> unit dbop" where
  "Permissions_Upsert p =
     bindE (upsert t_permissions t_permissions_update
              (\<lambda>r. perm_Code r = perm_Code p \<and> perm_Audience r = perm_Audience p)
              (perm_Description_update (\<lambda>_. perm_Description p))
              (\<lambda>r s. perm_ID r = perm_ID s) p)
       (\<lambda>_. returnE ())"

definition Permissions_ByCode :: "string \<Rightarrow> string \<Rightarrow> Permission dbop" where
  "Permissions_ByCode audience code =
     base_first t_permissions (\<lambda>p. perm_Code p = code \<and> perm_Audience p = audience)"

definition Permissions_ByCodes :: "string \<Rightarrow> string list \<Rightarrow> Permission list dbop" where
  "Permissions_ByCodes audience codes =
     base_find t_permissions id (\<lambda>p. perm_Audience p = audience \<and> perm_Code p \<in> set codes)"

definition Permissions_List :: "string \<Rightarrow> Permission list dbop" where
  "Permissions_List audience =
     base_find t_permissions (sort_key (\<lambda>p. (perm_Audience p, perm_Code p)))
       (\<lambda>p. audience = [] \<or> perm_Audience p = audience)"

text \<open>The role table holds no permissions; they are attached by the join table.\<close>

definition preload :: "db \<Rightarrow> Role \<Rightarrow> Role" where
  "preload d r =
     r\<lparr>role_Permissions :=
        filter (\<lambda>p. (role_ID r, perm_ID p) \<in> set (t_rolePermissions d)) (t_permissions d)\<rparr>"

text \<open>Creating a role saves its permissions with it: the statement inserts the row and one join row
  per permission, or nothing.\<close>

definition Roles_Create :: "Role \<Rightarrow> Role dbop" where
  "Roles_Create r =
     bindE statement (\<lambda>_ d.
       if list_ex (\<lambda>x. role_ID x = role_ID r \<or> role_Name x = role_Name r) (t_roles d) then (Inl DriverErr, d)
       else (Inr r, t_rolePermissions_update (\<lambda>js. js @ map (\<lambda>p. (role_ID r, perm_ID p)) (role_Permissions r))
                      (t_roles_update (\<lambda>rs. rs @ [r\<lparr>role_Permissions := []\<rparr>]) d)))"

definition Roles_Upsert :: "Role \<Rightarrow> unit dbop" where
  "Roles_Upsert r =
     bindE (upsert t_roles t_roles_update (\<lambda>x. role_Name x = role_Name r)
              (\<lambda>x. x\<lparr>role_Description := role_Description r, role_System := role_System r\<rparr>)
              (\<lambda>x y. role_ID x = role_ID y) (r\<lparr>role_Permissions := []\<rparr>))
       (\<lambda>_. returnE ())"

definition Roles_ByName :: "string \<Rightarrow> Role dbop" where
  "Roles_ByName name = base_first t_roles (\<lambda>r. role_Name r = name)"

definition Roles_WithPermissions :: "string \<Rightarrow> Role dbop" where
  "Roles_WithPermissions name =
     bindE (base_first t_roles (\<lambda>r. role_Name r = name)) (\<lambda>r.
     bindE statement (\<lambda>_ d. (Inr (preload d r), d)))"

definition Roles_List :: "Role list dbop" where
  "Roles_List =
     bindE (base_find t_roles (sort_key (\<lambda>r. (\<not> role_System r, role_Name r))) (\<lambda>_. True)) (\<lambda>rs.
     bindE statement (\<lambda>_ d. (Inr (map (preload d) rs), d)))"

definition Roles_Exists :: "string \<Rightarrow> bool dbop" where
  "Roles_Exists name =
     bindE (base_count t_roles (\<lambda>r. role_Name r = name)) (\<lambda>n. returnE (n > 0))"

definition Roles_SetDescription :: "string \<Rightarrow> string \<Rightarrow> unit dbop" where
  "Roles_SetDescription i description =
     base_update t_roles t_roles_update (\<lambda>r. role_ID r = i)
       (role_Description_update (\<lambda>_. description))"

definition Roles_ReplacePermissions :: "Role \<Rightarrow> Permission list \<Rightarrow> unit dbop" where
  "Roles_ReplacePermissions r ps =
     bindE statement (\<lambda>_ d.
       (Inr (), t_rolePermissions_update
          (\<lambda>js. filter (\<lambda>(ri, pi). ri \<noteq> role_ID r) js @ map (\<lambda>p. (role_ID r, perm_ID p)) ps) d))"

definition Roles_Delete :: "Role \<Rightarrow> unit dbop" where
  "Roles_Delete r =
     bindE (bindE statement (\<lambda>_ d.
        (Inr (), t_rolePermissions_update (filter (\<lambda>(ri, pi). ri \<noteq> role_ID r)) d))) (\<lambda>_.
     base_deleteWhere t_roles t_roles_update (\<lambda>x. role_ID x = role_ID r))"

lemmas [repo_defs] =
  Permissions_Upsert_def Permissions_ByCode_def Permissions_ByCodes_def Permissions_List_def
  Roles_Create_def Roles_Upsert_def Roles_ByName_def Roles_WithPermissions_def Roles_List_def
  Roles_Exists_def Roles_SetDescription_def Roles_ReplacePermissions_def Roles_Delete_def

section \<open>payments.go: provider accounts, health, routes\<close>

definition ProviderAccount_defaults :: "ProviderAccount \<Rightarrow> ProviderAccount" where
  "ProviderAccount_defaults a =
     a\<lparr>pa_Environment := (if pa_Environment a = [] then ''sandbox'' else pa_Environment a),
       pa_Currency := (if pa_Currency a = [] then ''UGX'' else pa_Currency a),
       pa_Charges := ChargeSchedule_Normalize (pa_Charges a),
       pa_ConfigVersion := (if pa_ConfigVersion a = 0 then 1 else pa_ConfigVersion a)\<rparr>"

definition ProviderAccounts_Create :: "time \<Rightarrow> ProviderAccount \<Rightarrow> ProviderAccount dbop" where
  "ProviderAccounts_Create now a =
     create_row t_providerAccounts t_providerAccounts_update (\<lambda>x y. pa_ID x = pa_ID y)
       ProviderAccount_defaults (a\<lparr>pa_CreatedAt := now\<rparr>)"

definition ProviderAccounts_ByID :: "string \<Rightarrow> ProviderAccount dbop" where
  "ProviderAccounts_ByID i = base_first t_providerAccounts (\<lambda>a. pa_ID a = i)"

definition ProviderAccounts_ActiveByID :: "string \<Rightarrow> ProviderAccount dbop" where
  "ProviderAccounts_ActiveByID i = base_first t_providerAccounts (\<lambda>a. pa_ID a = i \<and> pa_Active a)"

definition ProviderAccounts_Active :: "ProviderAccount list dbop" where
  "ProviderAccounts_Active = base_find t_providerAccounts id pa_Active"

definition ProviderAccounts_Exists :: "string \<Rightarrow> bool dbop" where
  "ProviderAccounts_Exists i =
     bindE (base_count t_providerAccounts (\<lambda>a. pa_ID a = i)) (\<lambda>n. returnE (n = 1))"

definition ProviderAccounts_CountActive :: "int dbop" where
  "ProviderAccounts_CountActive = base_count t_providerAccounts pa_Active"

definition ProviderAccounts_Page :: "int \<Rightarrow> int \<Rightarrow> (ProviderAccount list \<times> int) dbop" where
  "ProviderAccounts_Page = base_page t_providerAccounts (newest pa_CreatedAt) (\<lambda>_. True)"

definition ProviderAccounts_NamesByIDs :: "string list \<Rightarrow> (string \<times> string) list dbop" where
  "ProviderAccounts_NamesByIDs ids =
     (if ids = [] then returnE []
      else bindE (base_find t_providerAccounts id (\<lambda>a. pa_ID a \<in> set ids)) (\<lambda>as.
           returnE (map (\<lambda>a. (pa_ID a, pa_Name a)) (rev as))))"

definition ProviderAccounts_Update :: "string \<Rightarrow> (ProviderAccount \<Rightarrow> ProviderAccount) \<Rightarrow> unit dbop" where
  "ProviderAccounts_Update i f =
     base_update t_providerAccounts t_providerAccounts_update (\<lambda>a. pa_ID a = i) f"

definition ProviderAccounts_Restore :: "string \<Rightarrow> (ProviderAccount \<Rightarrow> ProviderAccount) \<Rightarrow> unit dbop" where
  "ProviderAccounts_Restore i f =
     base_touch t_providerAccounts t_providerAccounts_update (\<lambda>a. pa_ID a = i) f"

definition ProviderAccounts_SetConfig :: "string \<Rightarrow> string \<Rightarrow> string \<Rightarrow> unit dbop" where
  "ProviderAccounts_SetConfig i cipher hash =
     base_update t_providerAccounts t_providerAccounts_update (\<lambda>a. pa_ID a = i)
       (\<lambda>a. a\<lparr>pa_EncryptedConfigJSON := cipher, pa_ConfigHash := hash,
              pa_ConfigVersion := pa_ConfigVersion a + 1\<rparr>)"

definition ProviderAccounts_SetActive :: "string \<Rightarrow> bool \<Rightarrow> unit dbop" where
  "ProviderAccounts_SetActive i act =
     base_update t_providerAccounts t_providerAccounts_update (\<lambda>a. pa_ID a = i)
       (pa_Active_update (\<lambda>_. act))"

definition ProviderHealth_ByAccount :: "string \<Rightarrow> ProviderHealthSnapshot dbop" where
  "ProviderHealth_ByAccount i = base_first t_providerHealth (\<lambda>h. ph_ProviderAccountID h = i)"

definition ProviderHealth_Save :: "time \<Rightarrow> ProviderHealthSnapshot \<Rightarrow> unit dbop" where
  "ProviderHealth_Save now snap =
     bindE (upsert t_providerHealth t_providerHealth_update
              (\<lambda>h. ph_ProviderAccountID h = ph_ProviderAccountID snap)
              (\<lambda>_. snap\<lparr>ph_UpdatedAt := now\<rparr>) (\<lambda>_ _. False)
              (snap\<lparr>ph_CreatedAt := now, ph_UpdatedAt := now\<rparr>))
       (\<lambda>_. returnE ())"

definition ProviderHealth_Page :: "int \<Rightarrow> int \<Rightarrow> (ProviderHealthSnapshot list \<times> int) dbop" where
  "ProviderHealth_Page = base_page t_providerHealth (newest ph_UpdatedAt) (\<lambda>_. True)"

definition PaymentRoutes_UnsupportedMethods :: "string list dbop" where
  "PaymentRoutes_UnsupportedMethods =
     bindE (base_find t_paymentRoutes id (\<lambda>r. pr_PaymentMethod r \<notin> set PaymentMethods)) (\<lambda>rs.
     returnE (sort (remdups (map pr_PaymentMethod rs))))"

definition PaymentRoute_defaults :: "PaymentRoute \<Rightarrow> PaymentRoute" where
  "PaymentRoute_defaults r =
     r\<lparr>pr_Priority := (if pr_Priority r = 0 then 100 else pr_Priority r),
       pr_Active := (if pr_Active r = False then True else pr_Active r)\<rparr>"

definition PaymentRoutes_Create :: "time \<Rightarrow> PaymentRoute \<Rightarrow> PaymentRoute dbop" where
  "PaymentRoutes_Create now r =
     create_row t_paymentRoutes t_paymentRoutes_update
       (\<lambda>x y. pr_ID x = pr_ID y \<or>
              (pr_ServiceType x = pr_ServiceType y \<and> pr_PaymentMethod x = pr_PaymentMethod y \<and>
               pr_ProviderAccountID x = pr_ProviderAccountID y))
       PaymentRoute_defaults (r\<lparr>pr_CreatedAt := now\<rparr>)"

definition PaymentRoutes_ByID :: "string \<Rightarrow> PaymentRoute dbop" where
  "PaymentRoutes_ByID i = base_first t_paymentRoutes (\<lambda>r. pr_ID r = i)"

definition selection_order :: "PaymentRoute list \<Rightarrow> PaymentRoute list" where
  "selection_order = sort_key (\<lambda>r. (pr_ServiceType r, pr_PaymentMethod r, pr_Priority r))"

definition PaymentRoutes_Candidates :: "string \<Rightarrow> PaymentRoute list dbop" where
  "PaymentRoutes_Candidates service =
     (if service = [] then base_find t_paymentRoutes selection_order pr_Active
      else base_find t_paymentRoutes selection_order
             (\<lambda>r. pr_Active r \<and> pr_ServiceType r = service))"

definition PaymentRoutes_For :: "string \<Rightarrow> string \<Rightarrow> PaymentRoute list dbop" where
  "PaymentRoutes_For service payment_method =
     base_find t_paymentRoutes (sort_key (\<lambda>r. (pr_Priority r, pr_CreatedAt r)))
       (\<lambda>r. pr_Active r \<and> pr_ServiceType r = service \<and> pr_PaymentMethod r = payment_method)"

definition PaymentRoutes_Page :: "int \<Rightarrow> int \<Rightarrow> (PaymentRoute list \<times> int) dbop" where
  "PaymentRoutes_Page = base_page t_paymentRoutes selection_order (\<lambda>_. True)"

definition PaymentRoutes_Update :: "string \<Rightarrow> (PaymentRoute \<Rightarrow> PaymentRoute) \<Rightarrow> unit dbop" where
  "PaymentRoutes_Update i f = base_update t_paymentRoutes t_paymentRoutes_update (\<lambda>r. pr_ID r = i) f"

lemmas [repo_defs] =
  ProviderAccounts_Create_def ProviderAccounts_ByID_def ProviderAccounts_ActiveByID_def
  ProviderAccounts_Active_def ProviderAccounts_Exists_def ProviderAccounts_CountActive_def
  ProviderAccounts_Page_def ProviderAccounts_NamesByIDs_def ProviderAccounts_Update_def
  ProviderAccounts_Restore_def ProviderAccounts_SetConfig_def ProviderAccounts_SetActive_def
  ProviderHealth_ByAccount_def ProviderHealth_Save_def ProviderHealth_Page_def
  PaymentRoutes_UnsupportedMethods_def PaymentRoutes_Create_def PaymentRoutes_ByID_def
  PaymentRoutes_Candidates_def PaymentRoutes_For_def PaymentRoutes_Page_def PaymentRoutes_Update_def

section \<open>payments.go: transactions, attempts, webhook events\<close>

definition Transactions_Create :: "time \<Rightarrow> Transaction \<Rightarrow> Transaction dbop" where
  "Transactions_Create now t =
     create_row t_transactions t_transactions_update
       (\<lambda>x y. tx_ID x = tx_ID y \<or>
              (tx_AppID x = tx_AppID y \<and> tx_IdempotencyKey x = tx_IdempotencyKey y) \<or>
              (tx_AppID x = tx_AppID y \<and> tx_Reference x = tx_Reference y))
       id (t\<lparr>tx_CreatedAt := now, tx_UpdatedAt := now\<rparr>)"

definition Transactions_ByIdempotencyKey :: "string \<Rightarrow> string \<Rightarrow> Transaction dbop" where
  "Transactions_ByIdempotencyKey appID key =
     base_first t_transactions (\<lambda>t. tx_AppID t = appID \<and> tx_IdempotencyKey t = key)"

definition Transactions_ForApp :: "string \<Rightarrow> string \<Rightarrow> string \<Rightarrow> Transaction dbop" where
  "Transactions_ForApp appID field_name value =
     (if field_name = ''id'' then base_first t_transactions (\<lambda>t. tx_AppID t = appID \<and> tx_ID t = value)
      else if field_name = ''reference''
      then base_first t_transactions (\<lambda>t. tx_AppID t = appID \<and> tx_Reference t = value)
      else throwE NotFound)"

definition Transactions_LockForUpdate :: "string \<Rightarrow> Transaction dbop" where
  "Transactions_LockForUpdate i = base_first t_transactions (\<lambda>t. tx_ID t = i)"

definition Transactions_DueForReconciliation :: "time \<Rightarrow> int \<Rightarrow> Transaction list dbop" where
  "Transactions_DueForReconciliation now limit =
     base_find t_transactions (\<lambda>ts. take (nat limit) (sort_key tx_CreatedAt ts))
       (\<lambda>t. tx_Status t \<in> set [TxPending, TxProcessing, TxUnknown] \<and> tx_ProviderReference t \<noteq> [] \<and>
            (case tx_NextReconcileAt t of None \<Rightarrow> True | Some n \<Rightarrow> n \<le> now))"

definition Transactions_Page :: "int \<Rightarrow> int \<Rightarrow> (Transaction list \<times> int) dbop" where
  "Transactions_Page = base_page t_transactions (newest tx_CreatedAt) (\<lambda>_. True)"

text \<open>Every update stamps \<open>UpdatedAt\<close>.\<close>

definition Transactions_Update :: "time \<Rightarrow> string \<Rightarrow> (Transaction \<Rightarrow> Transaction) \<Rightarrow> unit dbop" where
  "Transactions_Update now i f =
     base_update t_transactions t_transactions_update (\<lambda>t. tx_ID t = i)
       (\<lambda>t. (f t)\<lparr>tx_UpdatedAt := now\<rparr>)"

definition Transactions_UpdateFromStatus ::
    "time \<Rightarrow> string \<Rightarrow> string \<Rightarrow> (Transaction \<Rightarrow> Transaction) \<Rightarrow> bool dbop" where
  "Transactions_UpdateFromStatus now i previous f =
     bindE (base_updates t_transactions t_transactions_update
              (\<lambda>t. tx_ID t = i \<and> tx_Status t = previous) (\<lambda>t. (f t)\<lparr>tx_UpdatedAt := now\<rparr>))
       (\<lambda>n. returnE (n > 0))"

definition CountReconcileAttempt :: "Transaction \<Rightarrow> Transaction" where
  "CountReconcileAttempt t = t\<lparr>tx_ReconciliationAttempts := tx_ReconciliationAttempts t + 1\<rparr>"

definition TransactionAttempts_Create :: "time \<Rightarrow> TransactionAttempt \<Rightarrow> TransactionAttempt dbop" where
  "TransactionAttempts_Create now a =
     create_row t_attempts t_attempts_update (\<lambda>x y. att_ID x = att_ID y) id (a\<lparr>att_CreatedAt := now\<rparr>)"

definition latest_attempt :: "(TransactionAttempt \<Rightarrow> bool) \<Rightarrow> TransactionAttempt dbop" where
  "latest_attempt P =
     bindE (base_find t_attempts (newest att_CreatedAt) P) (\<lambda>rows.
     case rows of [] \<Rightarrow> throwE NotFound | r # _ \<Rightarrow> returnE r)"

definition TransactionAttempts_LatestForTransaction :: "string \<Rightarrow> string \<Rightarrow> TransactionAttempt dbop" where
  "TransactionAttempts_LatestForTransaction transactionID accountID =
     latest_attempt (\<lambda>a. att_TransactionID a = transactionID \<and> att_ProviderAccountID a = accountID)"

definition TransactionAttempts_LatestForReference :: "string \<Rightarrow> string \<Rightarrow> TransactionAttempt dbop" where
  "TransactionAttempts_LatestForReference accountID reference =
     latest_attempt (\<lambda>a. att_ProviderAccountID a = accountID \<and> att_ProviderReference a = reference)"

definition TransactionAttempts_Update ::
    "string \<Rightarrow> (TransactionAttempt \<Rightarrow> TransactionAttempt) \<Rightarrow> unit dbop" where
  "TransactionAttempts_Update i f = base_update t_attempts t_attempts_update (\<lambda>a. att_ID a = i) f"

text \<open>A second delivery of the same payload to the same account inserts nothing.\<close>

definition WebhookEvents_Insert :: "time \<Rightarrow> WebhookEvent \<Rightarrow> bool dbop" where
  "WebhookEvents_Insert now e =
     bindE statement (\<lambda>_ d.
       if list_ex (\<lambda>r. we_ProviderAccountID r = we_ProviderAccountID e \<and>
                       we_PayloadHash r = we_PayloadHash e) (t_webhookEvents d)
       then (Inr False, d)
       else if list_ex (\<lambda>r. we_ID r = we_ID e) (t_webhookEvents d) then (Inl DriverErr, d)
       else (Inr True, t_webhookEvents_update (\<lambda>rs. rs @ [e\<lparr>we_CreatedAt := now\<rparr>]) d))"

definition WebhookEvents_Pending :: "int \<Rightarrow> WebhookEvent list dbop" where
  "WebhookEvents_Pending limit =
     base_find t_webhookEvents (\<lambda>es. take (nat limit) (sort_key we_CreatedAt es)) (\<lambda>e. \<not> we_Processed e)"

definition WebhookEvents_MarkProcessed :: "string \<Rightarrow> string \<Rightarrow> unit dbop" where
  "WebhookEvents_MarkProcessed i transactionID =
     base_update t_webhookEvents t_webhookEvents_update (\<lambda>e. we_ID e = i)
       (\<lambda>e. e\<lparr>we_TransactionID := transactionID, we_Processed := True\<rparr>)"

definition WebhookEvents_DeleteProcessedBefore :: "time \<Rightarrow> nat dbop" where
  "WebhookEvents_DeleteProcessedBefore cutoff =
     base_deletes t_webhookEvents t_webhookEvents_update
       (\<lambda>e. we_Processed e \<and> we_CreatedAt e < cutoff)"

lemmas [repo_defs] =
  Transactions_Create_def Transactions_ByIdempotencyKey_def Transactions_ForApp_def
  Transactions_LockForUpdate_def Transactions_DueForReconciliation_def Transactions_Page_def
  Transactions_Update_def Transactions_UpdateFromStatus_def TransactionAttempts_Create_def
  latest_attempt_def TransactionAttempts_LatestForTransaction_def
  TransactionAttempts_LatestForReference_def TransactionAttempts_Update_def
  WebhookEvents_Pending_def WebhookEvents_MarkProcessed_def WebhookEvents_DeleteProcessedBefore_def

end
