(* ===== verification/Dto.thy ===== *)
theory Dto
  imports Charges
begin

text \<open>
  \<open>internal/dto\<close>: the request payloads, their normalization and the rules of their
  \<open>validate\<close> tags. A payload's rules are listed in field order, and within a field in tag
  order; \<open>Validate\<close> reports the first that fails, in the words of \<open>describe\<close>. The
  email-syntax rule of the validator library is the parameter \<open>is_email\<close>; \<open>region\<close> is the
  region table of \<open>Utils\<close>. A string rule counts Unicode characters, that is bytes that do
  not continue a UTF-8 sequence.
\<close>

definition rune_count :: "string \<Rightarrow> nat" where
  "rune_count s = length (filter (\<lambda>c. \<not> (128 \<le> (of_char c :: nat) \<and> (of_char c :: nat) < 192)) s)"

section \<open>dto.go\<close>

datatype rule = Rule (rule_ok: bool) (rule_message: string)

definition required :: "string \<Rightarrow> string \<Rightarrow> rule" where
  "required name v = Rule (v \<noteq> []) (name @ '' is required'')"

definition rule_identifier :: "string \<Rightarrow> string \<Rightarrow> rule" where
  "rule_identifier name v = Rule (ValidIdentifier v)
     (name @ '' may contain only lowercase letters, digits, and _-. and must not exceed 64 characters'')"

definition rule_account :: "string \<Rightarrow> string \<Rightarrow> rule" where
  "rule_account name v = Rule (ValidAccount v)
     (name @ '' must not exceed 255 characters or contain control characters'')"

definition rule_country :: "(string \<Rightarrow> bool) \<Rightarrow> string \<Rightarrow> string \<Rightarrow> rule" where
  "rule_country region name v =
     Rule (case NormalizeOptionalCountry region v of Inl _ \<Rightarrow> False | Inr _ \<Rightarrow> True)
       (name @ '' must be an ISO 3166-1 alpha-2 country code'')"

definition rule_len :: "nat \<Rightarrow> string \<Rightarrow> string \<Rightarrow> rule" where
  "rule_len n name v =
     Rule (rune_count v = n) (name @ '' must be exactly '' @ format_nat n @ '' characters'')"

definition rule_max :: "nat \<Rightarrow> string \<Rightarrow> string \<Rightarrow> rule" where
  "rule_max n name v =
     Rule (rune_count v \<le> n) (name @ '' must not exceed '' @ format_nat n @ '' characters'')"

definition rule_gt :: "int \<Rightarrow> string \<Rightarrow> int \<Rightarrow> rule" where
  "rule_gt n name v = Rule (n < v) (name @ '' must be greater than '' @ format_int n)"

definition rule_min :: "int \<Rightarrow> string \<Rightarrow> int \<Rightarrow> rule" where
  "rule_min n name v = Rule (n \<le> v) (name @ '' must be at least '' @ format_int n)"

definition rule_oneof :: "string list \<Rightarrow> string \<Rightarrow> string \<Rightarrow> rule" where
  "rule_oneof vs name v = Rule (v \<in> set vs) (name @ '' must be one of: '' @ join_with '', '' vs)"

definition rule_email :: "(string \<Rightarrow> bool) \<Rightarrow> string \<Rightarrow> string \<Rightarrow> rule" where
  "rule_email is_email name v = Rule (is_email v) (name @ '' must be an email address'')"

text \<open>\<open>omitempty\<close> skips the remaining rules of a zero value.\<close>

definition omitempty :: "bool \<Rightarrow> rule list \<Rightarrow> rule list" where
  "omitempty zero rs = (if zero then [] else rs)"

definition Validate :: "rule list \<Rightarrow> err + unit" where
  "Validate rules =
     (case List.find (\<lambda>r. \<not> rule_ok r) rules of None \<Rightarrow> Inr () | Some r \<Rightarrow> Inl (Msg (rule_message r)))"

text \<open>Normalize, then validate: the pointer payload is the returned value.\<close>

definition Check :: "('r \<Rightarrow> 'r) \<Rightarrow> ('r \<Rightarrow> rule list) \<Rightarrow> 'r \<Rightarrow> err + 'r" where
  "Check norm rules r =
     (let r = norm r in case Validate (rules r) of Inl e \<Rightarrow> Inl e | Inr _ \<Rightarrow> Inr r)"

lemma Validate_iff: "Validate rules = Inr () \<longleftrightarrow> (\<forall>r\<in>set rules. rule_ok r)"
  by (auto simp: Validate_def find_None_iff split: option.splits dest: find_Some_in_set)

lemma Check_InrD:
  assumes "Check norm rules r = Inr r'"
  shows "r' = norm r" and "x \<in> set (rules r') \<Longrightarrow> rule_ok x"
  using assms Validate_iff [of "rules (norm r)"]
  by (auto simp: Check_def Let_def split: sum.splits)

section \<open>payment.go\<close>

record Party =
  party_Name :: string
  party_Email :: string

definition Party_Normalize :: "Party option \<Rightarrow> Party option" where
  "Party_Normalize p =
     map_option (\<lambda>p. p\<lparr>party_Name := trim_space (party_Name p), party_Email := trim_space (party_Email p)\<rparr>) p"

record CreatePayment =
  cp_PaymentMethod :: string
  cp_Amount :: i64
  cp_Currency :: string
  cp_Country :: string
  cp_Reference :: string
  cp_Description :: string
  cp_Account :: string
  cp_Scheme :: string
  cp_Metadata :: gmap
  cp_Customer :: "Party option"
  cp_Recipient :: "Party option"

definition CreatePayment_Normalize :: "(string \<Rightarrow> bool) \<Rightarrow> CreatePayment \<Rightarrow> CreatePayment" where
  "CreatePayment_Normalize region r =
     (let r = (case NormalizeOptionalCountry region (cp_Country r) of
                 Inl _ \<Rightarrow> r | Inr country \<Rightarrow> r\<lparr>cp_Country := country\<rparr>)
      in r\<lparr>cp_Currency := to_upper (trim_space (cp_Currency r)),
           cp_PaymentMethod := to_lower (trim_space (cp_PaymentMethod r)),
           cp_Account := trim_space (cp_Account r),
           cp_Scheme := to_lower (trim_space (cp_Scheme r)),
           cp_Reference := trim_space (cp_Reference r),
           cp_Customer := Party_Normalize (cp_Customer r),
           cp_Recipient := Party_Normalize (cp_Recipient r)\<rparr>)"

definition Party_rules :: "Party option \<Rightarrow> rule list" where
  "Party_rules p =
     (case p of None \<Rightarrow> []
      | Some p \<Rightarrow> [rule_max 255 ''name'' (party_Name p), rule_max 255 ''email'' (party_Email p)])"

definition CreatePayment_rules :: "(string \<Rightarrow> bool) \<Rightarrow> CreatePayment \<Rightarrow> rule list" where
  "CreatePayment_rules region r =
     [required ''payment_method'' (cp_PaymentMethod r),
      rule_oneof [''momo'', ''card'', ''bank_transfer'', ''wallet''] ''payment_method'' (cp_PaymentMethod r),
      rule_gt 0 ''amount'' (sint (cp_Amount r)),
      rule_len 3 ''currency'' (cp_Currency r),
      required ''country'' (cp_Country r),
      rule_country region ''country'' (cp_Country r),
      required ''reference'' (cp_Reference r),
      rule_max 128 ''reference'' (cp_Reference r),
      rule_max 255 ''description'' (cp_Description r),
      required ''account'' (cp_Account r),
      rule_account ''account'' (cp_Account r),
      rule_identifier ''scheme'' (cp_Scheme r)]
     @ Party_rules (cp_Customer r) @ Party_rules (cp_Recipient r)"

definition Check_CreatePayment :: "(string \<Rightarrow> bool) \<Rightarrow> CreatePayment \<Rightarrow> err + CreatePayment" where
  "Check_CreatePayment region = Check (CreatePayment_Normalize region) (CreatePayment_rules region)"

definition CreatePayment_Party :: "CreatePayment \<Rightarrow> string \<Rightarrow> Party option" where
  "CreatePayment_Party r service =
     (if service = ServiceDisbursement then cp_Recipient r else cp_Customer r)"

text \<open>What a checked payment request is known to be.\<close>

lemma Check_CreatePayment_InrD:
  assumes "Check_CreatePayment region r = Inr r'"
  shows "r' = CreatePayment_Normalize region r"
    and "ValidPaymentMethod (cp_PaymentMethod r')" and "0 < sint (cp_Amount r')"
    and "cp_Reference r' \<noteq> []" and "cp_Account r' \<noteq> []" and "ValidAccount (cp_Account r')"
    and "cp_Country r' \<noteq> []"
    and "ValidIdentifier (cp_Scheme r')"
proof -
  note c = Check_InrD [OF assms [unfolded Check_CreatePayment_def]]
  show "r' = CreatePayment_Normalize region r" by (rule c(1))
  have ok: "rule_ok x" if "x \<in> set (CreatePayment_rules region r')" for x
    using c(2) that .
  show "ValidPaymentMethod (cp_PaymentMethod r')"
    using ok [of "rule_oneof [''momo'', ''card'', ''bank_transfer'', ''wallet''] ''payment_method'' (cp_PaymentMethod r')"]
    by (auto simp: CreatePayment_rules_def rule_oneof_def ValidPaymentMethod_def method_defs)
  show "0 < sint (cp_Amount r')"
    using ok [of "rule_gt 0 ''amount'' (sint (cp_Amount r'))"]
    by (simp add: CreatePayment_rules_def rule_gt_def)
  show "cp_Reference r' \<noteq> []"
    using ok [of "required ''reference'' (cp_Reference r')"]
    by (simp add: CreatePayment_rules_def required_def)
  show "cp_Account r' \<noteq> []"
    using ok [of "required ''account'' (cp_Account r')"]
    by (simp add: CreatePayment_rules_def required_def)
  show "ValidAccount (cp_Account r')"
    using ok [of "rule_account ''account'' (cp_Account r')"]
    by (simp add: CreatePayment_rules_def rule_account_def)
  show "cp_Country r' \<noteq> []"
    using ok [of "required ''country'' (cp_Country r')"]
    by (simp add: CreatePayment_rules_def required_def)
  show "ValidIdentifier (cp_Scheme r')"
    using ok [of "rule_identifier ''scheme'' (cp_Scheme r')"]
    by (simp add: CreatePayment_rules_def rule_identifier_def)
qed

end
