(* ===== verification/Hooks.thy ===== *)
theory Hooks
  imports Domain
begin

text \<open>
  \<open>hooks/hook.go\<close> and \<open>hooks/events.go\<close>: ordered handler lists, the blocking trigger that
  stops at the first error and the notification that runs every handler. A handler is
  extension code: any function of the event on the state it can reach.
\<close>

type_synonym ('w, 'e) handler = "'e \<Rightarrow> ('w, unit) oper"

record ('w, 'e) hook =
  nextID :: "64 word"
  handlers :: "(64 word \<times> ('w, 'e) handler) list"

definition new_hook :: "('w, 'e) hook" where
  "new_hook = \<lparr>nextID = 0, handlers = []\<rparr>"

text \<open>A nil handler panics (\<open>None\<close>); otherwise the result is the id the returned unbind
  function removes, and the extended hook.\<close>

definition Bind :: "('w, 'e) hook \<Rightarrow> ('w, 'e) handler option \<Rightarrow> (64 word \<times> ('w, 'e) hook) option" where
  "Bind h fn =
     (case fn of
        None \<Rightarrow> None
      | Some f \<Rightarrow>
          let h = h\<lparr>nextID := nextID h + 1\<rparr>; i = nextID h
          in Some (i, h\<lparr>handlers := handlers h @ [(i, f)]\<rparr>))"

text \<open>The loop removes the first handler with the id and stops.\<close>

fun delete_first :: "64 word \<Rightarrow> (64 word \<times> 'f) list \<Rightarrow> (64 word \<times> 'f) list" where
  "delete_first i [] = []"
| "delete_first i ((j, f) # hs) = (if j = i then hs else (j, f) # delete_first i hs)"

definition unbind :: "('w, 'e) hook \<Rightarrow> 64 word \<Rightarrow> ('w, 'e) hook" where
  "unbind h i = h\<lparr>handlers := delete_first i (handlers h)\<rparr>"

definition snapshot :: "('w, 'e) hook \<Rightarrow> ('w, 'e) handler list" where
  "snapshot h = map snd (handlers h)"

fun trigger_each :: "('w, 'e) handler list \<Rightarrow> 'e \<Rightarrow> ('w, unit) oper" where
  "trigger_each [] ev = returnE ()"
| "trigger_each (f # fs) ev = bindE (f ev) (\<lambda>_. trigger_each fs ev)"

definition Trigger :: "('w, 'e) hook \<Rightarrow> 'e \<Rightarrow> ('w, unit) oper" where
  "Trigger h ev = trigger_each (snapshot h) ev"

fun collect_errors :: "('w, 'e) handler list \<Rightarrow> 'e \<Rightarrow> 'w \<Rightarrow> err list \<times> 'w" where
  "collect_errors [] ev w = ([], w)"
| "collect_errors (f # fs) ev w =
     (case f ev w of
        (Inl e, w') \<Rightarrow> (case collect_errors fs ev w' of (es, w'') \<Rightarrow> (e # es, w''))
      | (Inr _, w') \<Rightarrow> collect_errors fs ev w')"

definition triggerAll :: "('w, 'e) hook \<Rightarrow> 'e \<Rightarrow> ('w, unit) oper" where
  "triggerAll h ev w = (case collect_errors (snapshot h) ev w of (es, w') \<Rightarrow> (errors_join es, w'))"

section \<open>events.go\<close>

definition TransactionSourceRequest :: string where "TransactionSourceRequest = ''request''"
definition TransactionSourceWebhook :: string where "TransactionSourceWebhook = ''webhook''"
definition TransactionSourceReconciliation :: string where
  "TransactionSourceReconciliation = ''reconciliation''"

record PaymentRequestEvent =
  pe_AppID :: string
  pe_ServiceType :: string
  pe_PaymentMethod :: string
  pe_Amount :: i64
  pe_Currency :: string
  pe_Country :: string
  pe_Reference :: string
  pe_Account :: string
  pe_Scheme :: string
  pe_Description :: string
  pe_PartyName :: string
  pe_PartyEmail :: string

record TransactionChangedEvent =
  ce_Source :: string
  ce_AppID :: string
  ce_TransactionID :: string
  ce_Reference :: string
  ce_ServiceType :: string
  ce_PaymentMethod :: string
  ce_Amount :: i64
  ce_Currency :: string
  ce_Country :: string
  ce_PreviousStatus :: string
  ce_Status :: string
  ce_ProviderAccountID :: string
  ce_ProviderReference :: string

record 'w hook_registry =
  paymentRequest :: "('w, PaymentRequestEvent) hook"
  transactionChanged :: "('w, TransactionChangedEvent) hook"

definition NewHookRegistry :: "'w hook_registry" where
  "NewHookRegistry = \<lparr>paymentRequest = new_hook, transactionChanged = new_hook\<rparr>"

text \<open>The handler's own error stays in the log; the caller gets \<open>ErrPaymentRejected\<close>.\<close>

definition RunPaymentRequest :: "'w hook_registry \<Rightarrow> PaymentRequestEvent \<Rightarrow> ('w, unit) oper" where
  "RunPaymentRequest r ev =
     handleE (Trigger (paymentRequest r) ev)
       (\<lambda>res. case res of Inl _ \<Rightarrow> throwE PaymentRejected | Inr _ \<Rightarrow> returnE ())"

text \<open>The errors of a notification are logged and dropped; only its effects remain.\<close>

definition NotifyTransactionChanged :: "'w hook_registry \<Rightarrow> TransactionChangedEvent \<Rightarrow> 'w \<Rightarrow> 'w" where
  "NotifyTransactionChanged r ev w = snd (triggerAll (transactionChanged r) ev w)"

section \<open>Order, short circuit, completeness\<close>

definition run_all :: "('w, 'e) handler list \<Rightarrow> 'e \<Rightarrow> 'w \<Rightarrow> 'w" where
  "run_all fs ev w = fold (\<lambda>f w. snd (f ev w)) fs w"

lemma run_all_simps [simp]:
  "run_all [] ev w = w" "run_all (f # fs) ev w = run_all fs ev (snd (f ev w))"
  by (simp_all add: run_all_def)

lemma run_all_append: "run_all (fs @ gs) ev w = run_all gs ev (run_all fs ev w)"
  by (simp add: run_all_def)

lemma trigger_each_append:
  "trigger_each (fs @ gs) ev w = bindE (trigger_each fs ev) (\<lambda>_. trigger_each gs ev) w"
  by (induction fs arbitrary: w) (auto simp: bindE_def split: prod.splits sum.splits)

lemma trigger_each_Inr: "trigger_each hs ev w = (Inr u, w') \<Longrightarrow> w' = run_all hs ev w"
  by (induction hs arbitrary: w) (auto elim!: bindE_InrE simp: returnE_def)

lemma trigger_each_Inl:
  assumes "trigger_each hs ev w = (Inl e, w')"
  obtains fs f gs w1 where "hs = fs @ f # gs" and "trigger_each fs ev w = (Inr (), w1)"
    and "f ev w1 = (Inl e, w')"
  using assms
proof (induction hs arbitrary: w thesis)
  case (Cons h hs)
  from Cons.prems(2) show ?case
    unfolding trigger_each.simps
  proof (cases rule: bindE_InlE)
    case first
    with Cons.prems(1) [of "[]" h hs w] show ?thesis by simp
  next
    case (later u w1)
    obtain fs f gs w2 where "hs = fs @ f # gs" "trigger_each fs ev w1 = (Inr (), w2)" "f ev w2 = (Inl e, w')"
      using later(2) by (rule Cons.IH [rotated])
    with later(1) Cons.prems(1) [of "h # fs" f gs w2] show ?thesis by simp
  qed
qed simp

lemma collect_errors_run: "snd (collect_errors fs ev w) = run_all fs ev w"
proof (induction fs arbitrary: w)
  case (Cons f fs)
  obtain r w' where "f ev w = (r, w')" by (cases "f ev w")
  with Cons [of w'] show ?case by (cases r) (auto split: prod.splits)
qed simp

lemma NotifyTransactionChanged_run:
  "NotifyTransactionChanged r ev w = run_all (snapshot (transactionChanged r)) ev w"
  by (simp add: NotifyTransactionChanged_def triggerAll_def collect_errors_run split: prod.splits)
     (metis collect_errors_run snd_conv)

lemma RunPaymentRequest_error: "RunPaymentRequest r ev w = (Inl e, w') \<Longrightarrow> e = PaymentRejected"
  by (auto simp: RunPaymentRequest_def handleE_def throwE_def returnE_def split: prod.splits sum.splits)

section \<open>Binding and unbinding\<close>

text \<open>Ids are handed out in increasing order, so until the counter wraps no two bound
  handlers share one.\<close>

definition hook_inv :: "('w, 'e) hook \<Rightarrow> bool" where
  "hook_inv h \<longleftrightarrow> distinct (map fst (handlers h)) \<and> (\<forall>i\<in>fst ` set (handlers h). i \<le> nextID h)"

lemma delete_first_filter:
  "distinct (map fst hs) \<Longrightarrow> delete_first i hs = filter (\<lambda>(j, f). j \<noteq> i) hs"
  by (induction hs rule: delete_first.induct) (force intro!: filter_True [symmetric])+

lemma Bind_id:
  assumes "hook_inv h" and "nextID h < - 1" and "Bind h fn = Some (i, h')"
  shows "i \<notin> fst ` set (handlers h)" and "i = nextID h'" and "nextID h < nextID h'"
    and "handlers h' = handlers h @ [(i, the fn)]"
proof -
  have less: "nextID h < nextID h + 1" using assms(2) by unat_arith
  show "i = nextID h'" "nextID h < nextID h'" "handlers h' = handlers h @ [(i, the fn)]"
    using assms(3) less by (auto simp: Bind_def Let_def split: option.splits)
  then show "i \<notin> fst ` set (handlers h)" using assms(1) by (auto simp: hook_inv_def)
qed

lemma hook_inv_new: "hook_inv new_hook"
  by (simp add: hook_inv_def new_hook_def)

lemma hook_inv_Bind:
  assumes "hook_inv h" and "nextID h < - 1" and "Bind h fn = Some (i, h')"
  shows "hook_inv h'"
  using Bind_id [OF assms] assms(1) by (auto simp: hook_inv_def)

lemma hook_inv_unbind: "hook_inv h \<Longrightarrow> hook_inv (unbind h i)"
  by (auto simp: hook_inv_def unbind_def delete_first_filter distinct_map_filter)

text \<open>The unbind function of a binding removes that handler and no other, however many
  handlers were bound since, and calling it again changes nothing.\<close>

lemma unbind_removes_only:
  assumes "hook_inv h" and "nextID h < - 1" and "Bind h (Some f) = Some (i, h1)"
    and "handlers h2 = handlers h1 @ later" and "hook_inv h2"
  shows "snapshot (unbind h2 i) = snapshot h @ map snd later \<and>
         unbind (unbind h2 i) i = unbind h2 i"
proof -
  note b = Bind_id [OF assms(1-3)]
  have old: "filter (\<lambda>(j, f). j \<noteq> i) (handlers h) = handlers h"
    using b(1) by (force simp: filter_id_conv)
  have new: "filter (\<lambda>(j, f). j \<noteq> i) later = later"
    using assms(4,5) b(4) by (force simp: hook_inv_def filter_id_conv)
  have "distinct (map fst (handlers h2))" using assms(5) by (simp add: hook_inv_def)
  then have removed: "unbind h2 i = h2\<lparr>handlers := handlers h @ later\<rparr>"
    using assms(4) b(4) old new by (simp add: unbind_def delete_first_filter)
  moreover have "delete_first i (handlers h @ later) = handlers h @ later"
    using hook_inv_unbind [OF assms(5), of i] old new
    by (simp add: removed hook_inv_def delete_first_filter)
  ultimately show ?thesis
    by (simp add: snapshot_def unbind_def)
qed

definition sample_hook :: "(unit, unit) hook" where
  "sample_hook = new_hook\<lparr>nextID := 2, handlers := [(1, \<lambda>_. returnE ()), (2, \<lambda>_. returnE ())]\<rparr>"

lemma unbind_removes_only_witness:
  "snapshot (unbind sample_hook 1) = snapshot new_hook @ map snd [(2 :: 64 word, \<lambda>_. returnE ())] \<and>
   unbind (unbind sample_hook 1) 1 = unbind sample_hook 1"
  by (rule unbind_removes_only [where f = "\<lambda>_. returnE ()"
        and ?h1.0 = "new_hook\<lparr>nextID := 1, handlers := [(1, \<lambda>_. returnE ())]\<rparr>"])
     (simp_all add: hook_inv_def new_hook_def sample_hook_def Bind_def word_greater_zero_iff)

end
