(* ===== verification/Circuit.thy ===== *)
theory Circuit
  imports Domain
begin

text \<open>
  The circuit breaker of \<open>internal/service/provider/runtime.go\<close>: the counter, the opening
  time and the probe flag of one loaded provider, the three methods on it, and the
  three-state breaker they implement. \<open>opened\<close> is \<open>None\<close> for Go's zero time.
\<close>

record circuit =
  failures :: int
  opened :: "time option"
  probing :: bool

definition new_circuit :: circuit where
  "new_circuit = \<lparr>failures = 0, opened = None, probing = False\<rparr>"

definition circuit_state :: "circuit \<Rightarrow> time \<Rightarrow> string" where
  "circuit_state c t =
     (case opened c of
        None \<Rightarrow> CircuitClosed
      | Some o_at \<Rightarrow> if t - o_at \<ge> 30 * second then CircuitHalfOpen else CircuitOpen)"

definition circuit_before :: "circuit \<Rightarrow> time \<Rightarrow> (err + unit) \<times> circuit" where
  "circuit_before c t =
     (case opened c of
        None \<Rightarrow> (Inr (), c)
      | Some o_at \<Rightarrow>
          if t - o_at < 30 * second \<or> probing c then (Inl CircuitOpenErr, c)
          else (Inr (), c\<lparr>probing := True\<rparr>))"

definition circuit_after :: "circuit \<Rightarrow> time \<Rightarrow> bool \<Rightarrow> circuit" where
  "circuit_after c t failed =
     (let c = c\<lparr>probing := False\<rparr> in
      if \<not> failed then c\<lparr>failures := 0, opened := None\<rparr>
      else
        let c = c\<lparr>failures := failures c + 1\<rparr>
        in if failures c \<ge> 3 then c\<lparr>opened := Some t\<rparr> else c)"

section \<open>The breaker it implements\<close>

text \<open>Closed with the number of failures in a row, open since a time, or probing.\<close>

datatype breaker = Closed nat | Open time | Probing time

fun breaker_admit :: "breaker \<Rightarrow> time \<Rightarrow> breaker option" where
  "breaker_admit (Closed n) t = Some (Closed n)"
| "breaker_admit (Open s) t = (if t < s + 30 * second then None else Some (Probing s))"
| "breaker_admit (Probing s) t = None"

fun breaker_result :: "breaker \<Rightarrow> time \<Rightarrow> bool \<Rightarrow> breaker" where
  "breaker_result b t False = Closed 0"
| "breaker_result (Closed n) t True = (if n < 2 then Closed (n + 1) else Open t)"
| "breaker_result (Open s) t True = Open t"
| "breaker_result (Probing s) t True = Open t"

definition breaker_of :: "circuit \<Rightarrow> breaker" where
  "breaker_of c =
     (case opened c of
        None \<Rightarrow> Closed (nat (failures c))
      | Some s \<Rightarrow> if probing c then Probing s else Open s)"

definition circuit_inv :: "circuit \<Rightarrow> bool" where
  "circuit_inv c \<longleftrightarrow>
     0 \<le> failures c \<and> (opened c = None \<longleftrightarrow> failures c < 3) \<and> (probing c \<longrightarrow> opened c \<noteq> None)"

lemma circuit_inv_new: "circuit_inv new_circuit"
  by (simp add: circuit_inv_def new_circuit_def)

lemma circuit_inv_before: "circuit_inv c \<Longrightarrow> circuit_inv (snd (circuit_before c t))"
  by (auto simp: circuit_inv_def circuit_before_def split: option.splits)

lemma circuit_inv_after: "circuit_inv c \<Longrightarrow> circuit_inv (circuit_after c t failed)"
  by (auto simp: circuit_inv_def circuit_after_def Let_def)

lemma circuit_before_refines:
  "circuit_inv c \<Longrightarrow>
     (case circuit_before c t of
        (Inr _, c') \<Rightarrow> breaker_admit (breaker_of c) t = Some (breaker_of c')
      | (Inl e, c') \<Rightarrow> e = CircuitOpenErr \<and> c' = c \<and> breaker_admit (breaker_of c) t = None)"
  by (auto simp: circuit_before_def breaker_of_def split: option.splits)

lemma circuit_after_refines:
  "circuit_inv c \<Longrightarrow>
     breaker_of (circuit_after c t failed) = breaker_result (breaker_of c) t failed"
  by (cases failed) (auto simp: circuit_after_def breaker_of_def circuit_inv_def Let_def
      nat_add_distrib split: option.splits)

section \<open>Any interleaving of calls\<close>

text \<open>
  Calls are admitted and finish in any order: an event is an admission attempt or the
  outcome of a call that was admitted earlier, each at its own time.
\<close>

datatype circuit_event = Attempt time | Outcome time bool

fun circuit_step :: "circuit \<Rightarrow> circuit_event \<Rightarrow> circuit" where
  "circuit_step c (Attempt t) = snd (circuit_before c t)"
| "circuit_step c (Outcome t failed) = circuit_after c t failed"

fun breaker_step :: "breaker \<Rightarrow> circuit_event \<Rightarrow> breaker" where
  "breaker_step b (Attempt t) = (case breaker_admit b t of None \<Rightarrow> b | Some b' \<Rightarrow> b')"
| "breaker_step b (Outcome t failed) = breaker_result b t failed"

definition circuit_run :: "circuit_event list \<Rightarrow> circuit" where
  "circuit_run = foldl circuit_step new_circuit"

lemma circuit_inv_step: "circuit_inv c \<Longrightarrow> circuit_inv (circuit_step c e)"
  by (cases e) (simp_all add: circuit_inv_before circuit_inv_after)

lemma circuit_inv_foldl: "circuit_inv c \<Longrightarrow> circuit_inv (foldl circuit_step c es)"
  by (induction es arbitrary: c) (simp_all add: circuit_inv_step)

lemma circuit_inv_run: "circuit_inv (circuit_run es)"
  by (simp add: circuit_run_def circuit_inv_foldl circuit_inv_new)

lemma circuit_step_refines:
  assumes "circuit_inv c"
  shows "breaker_of (circuit_step c e) = breaker_step (breaker_of c) e"
proof (cases e)
  case (Attempt t)
  then show ?thesis
    using assms circuit_before_refines [of c t]
    by (cases "circuit_before c t"; cases "fst (circuit_before c t)") auto
qed (simp add: assms circuit_after_refines)

lemma circuit_foldl_refines:
  "circuit_inv c \<Longrightarrow>
     breaker_of (foldl circuit_step c es) = foldl breaker_step (breaker_of c) es"
  by (induction es arbitrary: c) (simp_all add: circuit_inv_step circuit_step_refines)

text \<open>What the automaton lets through, and what the routing is told about it.\<close>

definition breaker_answer :: "breaker \<Rightarrow> time \<Rightarrow> err + unit" where
  "breaker_answer b t = (case breaker_admit b t of None \<Rightarrow> Inl CircuitOpenErr | Some _ \<Rightarrow> Inr ())"

fun breaker_state :: "breaker \<Rightarrow> time \<Rightarrow> string" where
  "breaker_state (Closed n) t = CircuitClosed"
| "breaker_state (Open s) t = (if t < s + 30 * second then CircuitOpen else CircuitHalfOpen)"
| "breaker_state (Probing s) t = (if t < s + 30 * second then CircuitOpen else CircuitHalfOpen)"

lemma circuit_answer_refines:
  assumes "circuit_inv c"
  shows "fst (circuit_before c t) = breaker_answer (breaker_of c) t"
  using circuit_before_refines [OF assms, of t]
  by (cases "circuit_before c t"; cases "fst (circuit_before c t)") (auto simp: breaker_answer_def)

lemma circuit_state_refines: "circuit_state c t = breaker_state (breaker_of c) t"
  by (auto simp: circuit_state_def breaker_of_def split: option.splits)

lemma circuit_run_refines: "breaker_of (circuit_run es) = foldl breaker_step (Closed 0) es"
  by (simp add: circuit_run_def circuit_foldl_refines circuit_inv_new)
     (simp add: breaker_of_def new_circuit_def)

text \<open>C23: after every interleaving of admissions and outcomes the breaker is in the state of the
  three-state automaton, which counts failures in a row, opens at the third, lets exactly one
  probe through after 30 seconds and reopens or closes on its outcome; at any time the next call is
  refused as an open circuit or let through, and the state reported, as the automaton says.\<close>

lemma circuit_refines_breaker:
  "breaker_of (circuit_run es) = foldl breaker_step (Closed 0) es \<and>
   fst (circuit_before (circuit_run es) t) = breaker_answer (foldl breaker_step (Closed 0) es) t \<and>
   circuit_state (circuit_run es) t = breaker_state (foldl breaker_step (Closed 0) es) t"
  by (simp add: circuit_answer_refines [OF circuit_inv_run] circuit_state_refines circuit_run_refines)

section \<open>What an open circuit promises\<close>

definition outcomes :: "circuit_event list \<Rightarrow> (time \<times> bool) list" where
  "outcomes es = List.map_filter (\<lambda>e. case e of Attempt t \<Rightarrow> None | Outcome t f \<Rightarrow> Some (t, f)) es"

definition trailing_failures :: "circuit_event list \<Rightarrow> nat" where
  "trailing_failures es = length (takeWhile snd (rev (outcomes es)))"

lemma outcomes_append:
  "outcomes (es @ [Attempt t]) = outcomes es" "outcomes (es @ [Outcome t f]) = outcomes es @ [(t, f)]"
  by (simp_all add: outcomes_def List.map_filter_def)

lemma circuit_before_keeps: "failures (snd (circuit_before c t)) = failures c" "opened (snd (circuit_before c t)) = opened c"
  by (simp_all add: circuit_before_def split: option.splits)

lemma circuit_run_snoc: "circuit_run (es @ [e]) = circuit_step (circuit_run es) e"
  by (simp add: circuit_run_def)

lemma circuit_failures: "failures (circuit_run es) = int (trailing_failures es)"
proof (induction es rule: rev_induct)
  case Nil
  then show ?case by (simp add: circuit_run_def new_circuit_def trailing_failures_def outcomes_def List.map_filter_def)
next
  case (snoc e es)
  then show ?case
    by (cases e)
      (auto simp: circuit_run_snoc circuit_before_keeps circuit_after_def Let_def trailing_failures_def outcomes_append)
qed

lemma circuit_opened:
  "opened (circuit_run es) =
     (if trailing_failures es < 3 then None else Some (fst (last (outcomes es))))"
proof (induction es rule: rev_induct)
  case Nil
  then show ?case by (simp add: circuit_run_def new_circuit_def trailing_failures_def outcomes_def List.map_filter_def)
next
  case (snoc e es)
  show ?case
  proof (cases e)
    case (Attempt t)
    with snoc show ?thesis
      by (simp add: circuit_run_snoc circuit_before_keeps trailing_failures_def outcomes_append)
  next
    case (Outcome t f)
    have "trailing_failures (es @ [e]) = (if f then Suc (trailing_failures es) else 0)"
      by (simp add: Outcome trailing_failures_def outcomes_append)
    with Outcome snoc circuit_failures [of es] show ?thesis
      by (auto simp: circuit_run_snoc circuit_after_def Let_def outcomes_append)
  qed
qed

text \<open>After any history, a call at time \<open>t\<close> is refused exactly when the last three or
  more finished calls all failed and either fewer than 30 seconds have passed since the
  last of them or a probe is still out.\<close>

lemma circuit_refuses_iff:
  "(\<exists>c'. circuit_before (circuit_run es) t = (Inl CircuitOpenErr, c')) \<longleftrightarrow>
     3 \<le> trailing_failures es \<and>
     (t < fst (last (outcomes es)) + 30 * second \<or> probing (circuit_run es))"
  by (auto simp: circuit_before_def circuit_opened split: option.splits if_splits)

end
