(* ===== verification/ProviderApi.thy ===== *)
theory ProviderApi
  imports Domain
begin

text \<open>
  \<open>providers/provider.go\<close> and \<open>providers/registry.go\<close>: the values exchanged with a provider
  adapter, the optional operations an adapter may implement, and the registry of
  adapter factories.

  An adapter is code outside the engine. Each of its operations is an arbitrary function
  of its arguments and of the state outside the engine: the clock, whether the caller
  has gone away, and the providers' own state \<open>'p\<close>. So a call may take time, the caller may
  cancel while it runs, and an answer may be anything of its type. A pointer result that
  the engine checks for nil is an option.
\<close>

record 'p outside =
  clock :: time
  gone :: bool
  prov :: 'p

record Capability =
  ca_ServiceType :: string
  ca_PaymentMethod :: string

record PaymentRequest =
  rq_TransactionID :: string
  rq_PaymentMethod :: string
  rq_Currency :: string
  rq_Country :: string
  rq_Reference :: string
  rq_Account :: string
  rq_Scheme :: string
  rq_Metadata :: gmap
  rq_Name :: string
  rq_Email :: string
  rq_Description :: string
  rq_Amount :: i64

record ProviderPaymentResponse =
  rs_ProviderReference :: string
  rs_Status :: string
  rs_Message :: string
  rs_Raw :: gmap

record ProviderTransactionStatus =
  ts_ProviderReference :: string
  ts_Status :: string
  ts_Message :: string

record ProviderBalance =
  bal_Currency :: string
  bal_Available :: i64
  bal_Ledger :: i64

record ProviderWebhookEvent =
  ev_ProviderReference :: string
  ev_Status :: string
  ev_EventType :: string
  ev_ExternalReference :: string
  ev_Amount :: "i64 option"
  ev_Currency :: string
  ev_Country :: string
  ev_Account :: string
  ev_Raw :: gmap

type_synonym ('p, 'a) call = "('p outside, 'a) oper"

text \<open>\<open>PaymentProvider\<close> with its optional interfaces; an operation the adapter does not
  implement is \<open>None\<close>. \<open>ValidateRequest\<close> answers the request as it left it.\<close>

record 'p adapter =
  ad_Capabilities :: "'p outside \<Rightarrow> Capability list"
  ad_Init :: "gmap \<Rightarrow> ('p, unit) call"
  ad_HealthCheck :: "('p, unit) call option"
  ad_Collect :: "(PaymentRequest \<Rightarrow> ('p, ProviderPaymentResponse option) call) option"
  ad_Disburse :: "(PaymentRequest \<Rightarrow> ('p, ProviderPaymentResponse option) call) option"
  ad_QueryTransaction :: "(string \<Rightarrow> string \<Rightarrow> ('p, ProviderTransactionStatus) call) option"
  ad_QueryBalance :: "(string \<Rightarrow> ('p, ProviderBalance) call) option"
  ad_VerifyWebhook :: "(string \<Rightarrow> (string \<times> string) list \<Rightarrow> ('p, ProviderWebhookEvent) call) option"
  ad_ValidateRequest :: "(PaymentRequest \<Rightarrow> ('p, PaymentRequest) call) option"

section \<open>registry.go\<close>

text \<open>A factory builds a fresh adapter; it may be nil, and it may return nil.\<close>

type_synonym 'p factory = "'p outside \<Rightarrow> 'p adapter option \<times> 'p outside"
type_synonym 'p registry = "(string \<times> 'p factory option) list"

definition NewRegistry :: "'p registry" where "NewRegistry = []"

definition Register :: "'p registry \<Rightarrow> string \<Rightarrow> 'p factory option \<Rightarrow> 'p registry" where
  "Register r code f = (code, f) # filter (\<lambda>(c, _). c \<noteq> code) r"

definition Has :: "'p registry \<Rightarrow> string \<Rightarrow> bool" where
  "Has r code = (map_of r code \<noteq> None)"

definition registry_List :: "'p registry \<Rightarrow> string list" where
  "registry_List r = sort (map fst r)"

definition registry_Create :: "'p registry \<Rightarrow> string \<Rightarrow> ('p, 'p adapter) call" where
  "registry_Create r code o_w =
     (case map_of r code of
        Some (Some f) \<Rightarrow>
          (case f o_w of
             (None, o_w') \<Rightarrow> (Inl (Msg (''provider factory returned no provider: '' @ code)), o_w')
           | (Some a, o_w') \<Rightarrow> (Inr a, o_w'))
      | _ \<Rightarrow> (Inl (Msg (''provider factory not registered: '' @ code)), o_w))"

fun SupportsService :: "Capability list \<Rightarrow> string \<Rightarrow> bool" where
  "SupportsService [] service = False"
| "SupportsService (c # caps) service =
     (if ca_ServiceType c = service then True else SupportsService caps service)"

fun Supports :: "Capability list \<Rightarrow> string \<Rightarrow> string \<Rightarrow> bool" where
  "Supports [] service payment_method = False"
| "Supports (c # caps) service payment_method =
     (if ca_ServiceType c = service \<and> ca_PaymentMethod c = payment_method then True
      else Supports caps service payment_method)"

lemma Supports_iff:
  "Supports caps service m \<longleftrightarrow> (\<exists>c\<in>set caps. ca_ServiceType c = service \<and> ca_PaymentMethod c = m)"
  by (induction caps) auto

lemma SupportsService_iff: "SupportsService caps service \<longleftrightarrow> (\<exists>c\<in>set caps. ca_ServiceType c = service)"
  by (induction caps) auto

lemma Has_Register [simp]: "Has (Register r code f) c \<longleftrightarrow> c = code \<or> Has r c"
proof (cases "c = code")
  case False
  then have "map_of (filter (\<lambda>(d, _). d \<noteq> code) r) c = map_of r c"
    by (induction r) auto
  with False show ?thesis by (simp add: Has_def Register_def)
qed (simp add: Has_def Register_def)

lemma registry_List_set: "set (registry_List r) = {c. Has r c}"
  by (auto simp: registry_List_def Has_def map_of_eq_None_iff)

lemma registry_List_sorted: "sorted (registry_List r)"
  by (simp add: registry_List_def)

end
