(* ===== verification/World.thy ===== *)
theory World
  imports Repos Dto Hooks Circuit ProviderApi
begin

text \<open>
  The state of a running engine: the database, the loaded provider runtimes
  (\<open>RuntimeManager.items\<close>), the bound extension hooks, the source of fresh ids, and the
  outside (clock, caller, providers). Operations of the services are functions on it.

  Time passes only in calls that leave the engine: a provider call or an extension
  handler returns an outside with a later clock, and between operations the system model
  lets it move freely.

  \<open>env\<close> gathers the code the engine calls and does not contain: the region table of
  \<open>golang.org/x/text\<close>, the registered adapter factories, AES-GCM, SHA-256 and the JSON
  encodings. Encryption takes the number of its random nonce.
\<close>

record 'p runtime =
  rt_AccountID :: string
  rt_ProviderName :: string
  rt_ProviderCode :: string
  rt_Country :: string
  rt_Currency :: string
  rt_ConfigVersion :: int
  rt_Adapter :: "'p adapter option"
  rt_Capabilities :: "Capability list"
  rt_WebhookSecret :: string
  rt_breaker :: circuit

record 'p world =
  db :: db
  items :: "(string \<times> 'p runtime) list"
  outside :: "'p outside"
  hooks :: "'p outside hook_registry"
  uuid_at :: "nat \<Rightarrow> string"
  uuid_n :: nat

text \<open>\<open>verifiedWebhook\<close> of \<open>service/webhook\<close>: the event, the account and the dedup hash.\<close>

record verifiedWebhook =
  vw_Event :: ProviderWebhookEvent
  vw_ProviderAccountID :: string
  vw_PayloadHash :: string

record 'p env =
  env_region :: "string \<Rightarrow> bool"
  env_registry :: "'p registry"
  env_encrypt :: "nat \<Rightarrow> string \<Rightarrow> err + string"
  env_decrypt :: "string \<Rightarrow> err + string"
  env_sha256 :: "string \<Rightarrow> string"
  env_config_json :: "gmap \<Rightarrow> err + string"
  env_config_of_json :: "string \<Rightarrow> err + gmap"
  env_map_json :: "gmap \<Rightarrow> string"
  env_request_json :: "string \<Rightarrow> CreatePayment \<Rightarrow> string"
  env_event_json :: "verifiedWebhook \<Rightarrow> err + string"
  env_event_of_json :: "string \<Rightarrow> err + verifiedWebhook"

type_synonym ('p, 'a) act = "('p world, 'a) oper"

definition SHA256Hex :: "'p env \<Rightarrow> string \<Rightarrow> string" where
  "SHA256Hex E v = env_sha256 E v"

text \<open>An error returned through \<open>fmt.Errorf("...: %w", err)\<close>.\<close>

definition wrapE :: "string \<Rightarrow> ('w, 'a) oper \<Rightarrow> ('w, 'a) oper" where
  "wrapE prefix m = handleE m (\<lambda>r. case r of Inl e \<Rightarrow> throwE (Wrap prefix e) | Inr x \<Rightarrow> returnE x)"

lemma wrapE_InrD: "wrapE prefix m w = (Inr x, w') \<Longrightarrow> m w = (Inr x, w')"
  by (auto simp: wrapE_def handleE_def throwE_def split: prod.splits sum.splits)

section \<open>Reaching the parts of the world\<close>

definition on_db :: "'a dbop \<Rightarrow> ('p, 'a) act" where
  "on_db m w = (case m (db w) of (r, d) \<Rightarrow> (r, w\<lparr>db := d\<rparr>))"

definition on_outside :: "('p, 'a) call \<Rightarrow> ('p, 'a) act" where
  "on_outside m w = (case m (outside w) of (r, o_w) \<Rightarrow> (r, w\<lparr>outside := o_w\<rparr>))"

definition get_world :: "('p world \<Rightarrow> 'a) \<Rightarrow> ('p, 'a) act" where
  "get_world f w = (Inr (f w), w)"

definition modify :: "('p world \<Rightarrow> 'p world) \<Rightarrow> ('p, unit) act" where
  "modify f w = (Inr (), f w)"

abbreviation now :: "'p world \<Rightarrow> time" where "now w \<equiv> clock (outside w)"

text \<open>\<open>time.Now()\<close>\<close>

definition Now :: "('p, time) act" where
  "Now = get_world now"

lemma bindE_Now: "bindE Now k w = k (now w) w"
  by (simp add: bindE_def Now_def get_world_def)

text \<open>A statement that stamps the current time.\<close>

definition on_db_now :: "(time \<Rightarrow> 'a dbop) \<Rightarrow> ('p, 'a) act" where
  "on_db_now m w = on_db (m (now w)) w"

section \<open>platform/token.go: identifiers\<close>

definition withPrefix :: "string \<Rightarrow> string \<Rightarrow> string" where
  "withPrefix prefix value = (if prefix \<noteq> [] then prefix @ ''_'' @ value else value)"

definition NewID :: "string \<Rightarrow> ('p, string) act" where
  "NewID prefix w = (Inr (withPrefix prefix (uuid_at w (uuid_n w))), w\<lparr>uuid_n := Suc (uuid_n w)\<rparr>)"

section \<open>UnitOfWork.Within\<close>

text \<open>The tables go back to what they were; the statements that ran stay consumed.\<close>

definition rollback :: "db \<Rightarrow> 'p world \<Rightarrow> 'p world" where
  "rollback d w = w\<lparr>db := d\<lparr>faults := faults (db w)\<rparr>\<rparr>"

definition Within :: "('p, 'a) act \<Rightarrow> ('p, 'a) act" where
  "Within body w =
     (case statement (db w) of
        (Inl e, d) \<Rightarrow> (Inl e, w\<lparr>db := d\<rparr>)
      | (Inr _, d) \<Rightarrow>
          (case body (w\<lparr>db := d\<rparr>) of
             (Inl e, w') \<Rightarrow> (Inl e, rollback d w')
           | (Inr x, w') \<Rightarrow>
               (case statement (db w') of
                  (Inl e, d') \<Rightarrow> (Inl e, rollback d (w'\<lparr>db := d'\<rparr>))
                | (Inr _, d') \<Rightarrow> (Inr x, w'\<lparr>db := d'\<rparr>))))"

text \<open>A committed unit of work ran its body to success; a failed one left every table as
  it was.\<close>

lemma Within_InrE:
  assumes "Within body w = (Inr x, w')"
  obtains b1 b2 w1 where "body (w\<lparr>db := (db w)\<lparr>faults := b1\<rparr>\<rparr>) = (Inr x, w1)"
    and "w' = w1\<lparr>db := (db w1)\<lparr>faults := b2\<rparr>\<rparr>"
proof -
  obtain bs where s: "statement (db w) = (Inr (), (db w)\<lparr>faults := bs\<rparr>)"
    using assms by (auto simp: Within_def intro: statement_cases [of "db w"])
  let ?w = "w\<lparr>db := (db w)\<lparr>faults := bs\<rparr>\<rparr>"
  obtain w1 where b: "body ?w = (Inr x, w1)"
    using assms s by (auto simp: Within_def split: prod.splits sum.splits)
  obtain cs where c: "statement (db w1) = (Inr (), (db w1)\<lparr>faults := cs\<rparr>)"
    using assms s b by (auto simp: Within_def intro: statement_cases [of "db w1"])
  have "w' = w1\<lparr>db := (db w1)\<lparr>faults := cs\<rparr>\<rparr>"
    using assms s b c by (simp add: Within_def)
  with b show ?thesis by (rule that)
qed

lemma Within_InlE:
  assumes "Within body w = (Inl e, w')"
  obtains (start) bs where "w' = w\<lparr>db := (db w)\<lparr>faults := bs\<rparr>\<rparr>"
    | (rolled_back) r bs w1 cs where "body (w\<lparr>db := (db w)\<lparr>faults := bs\<rparr>\<rparr>) = (r, w1)"
        and "w' = w1\<lparr>db := (db w)\<lparr>faults := cs\<rparr>\<rparr>" and "r = Inl e \<or> e = DriverErr"
proof (cases rule: statement_cases [of "db w"])
  case (fail bs)
  with assms have "w' = w\<lparr>db := (db w)\<lparr>faults := bs\<rparr>\<rparr>" by (simp add: Within_def)
  then show ?thesis by (rule start)
next
  case (ok bs)
  let ?w = "w\<lparr>db := (db w)\<lparr>faults := bs\<rparr>\<rparr>"
  obtain r w1 where b: "body ?w = (r, w1)" by (cases "body ?w")
  show ?thesis
  proof (cases r)
    case (Inl e')
    with assms ok b have "w' = w1\<lparr>db := (db w)\<lparr>faults := faults (db w1)\<rparr>\<rparr>" "e' = e"
      by (simp_all add: Within_def rollback_def)
    with b Inl show ?thesis using rolled_back by blast
  next
    case (Inr x)
    with assms ok b obtain cs where "statement (db w1) = (Inl DriverErr, (db w1)\<lparr>faults := cs\<rparr>)"
      by (auto simp: Within_def intro: statement_cases [of "db w1"])
    with assms ok b Inr have "w' = w1\<lparr>db := (db w)\<lparr>faults := cs\<rparr>\<rparr>" "e = DriverErr"
      by (simp_all add: Within_def rollback_def)
    with b show ?thesis using rolled_back by blast
  qed
qed

section \<open>Relations kept by actions\<close>

locale world_relation = effect_preorder R for R :: "'p world \<Rightarrow> 'p world \<Rightarrow> bool" +
  assumes R_faults_w: "R w (w\<lparr>db := (db w)\<lparr>faults := bs\<rparr>\<rparr>)"
    and R_rollback: "R w w' \<Longrightarrow> R w (w'\<lparr>db := (db w)\<lparr>faults := bs\<rparr>\<rparr>)"
begin

lemma moves_on_db:
  assumes "moves Q m" and "\<And>w d. Q (db w) d \<Longrightarrow> R w (w\<lparr>db := d\<rparr>)"
  shows "moves R (on_db m)"
  using assms by (auto simp: moves_def on_db_def split: prod.splits) (metis snd_conv)

lemma moves_on_db_now:
  assumes "\<And>t. moves Q (m t)" and "\<And>w d. Q (db w) d \<Longrightarrow> R w (w\<lparr>db := d\<rparr>)"
  shows "moves R (on_db_now m)"
proof
  show "R w (snd (on_db_now m w))" for w
    using moves_on_db [OF assms(1) [of "now w"] assms(2)] by (simp add: moves_def on_db_now_def)
qed

lemma moves_on_outside:
  assumes "\<And>w o_w. R w (w\<lparr>outside := o_w\<rparr>)"
  shows "moves R (on_outside m)"
  using assms by (auto simp: moves_def on_outside_def split: prod.splits)

lemma moves_get: "moves R (get_world f)"
  by (simp add: moves_def get_world_def refl_R)

lemma moves_Now: "moves R Now"
  by (simp add: Now_def moves_get)

lemma moves_modify: "(\<And>w. R w (f w)) \<Longrightarrow> moves R (modify f)"
  by (simp add: moves_def modify_def)

lemma moves_NewID: "(\<And>w n. R w (w\<lparr>uuid_n := n\<rparr>)) \<Longrightarrow> moves R (NewID prefix)"
  by (simp add: moves_def NewID_def)

lemma moves_Within:
  assumes "moves R body"
  shows "moves R (Within body)"
proof
  fix w
  have body: "R w w1" if "body (w\<lparr>db := (db w)\<lparr>faults := bs\<rparr>\<rparr>) = (r, w1)" for bs r w1
    using movesD [OF assms that] R_faults_w trans_R by blast
  obtain r w' where r: "Within body w = (r, w')" by (cases "Within body w")
  show "R w (snd (Within body w))"
  proof (cases r)
    case (Inl e)
    with r have "Within body w = (Inl e, w')" by simp
    then have "R w w'"
    proof (cases rule: Within_InlE)
      case (start bs)
      then show ?thesis by (simp add: R_faults_w)
    next
      case (rolled_back r bs w1 cs)
      then show ?thesis using body R_rollback by blast
    qed
    with r show ?thesis by simp
  next
    case (Inr x)
    with r have "Within body w = (Inr x, w')" by simp
    then obtain b1 b2 w1 where "body (w\<lparr>db := (db w)\<lparr>faults := b1\<rparr>\<rparr>) = (Inr x, w1)"
      "w' = w1\<lparr>db := (db w1)\<lparr>faults := b2\<rparr>\<rparr>" by (rule Within_InrE)
    then have "R w w'" using body R_faults_w trans_R by blast
    with r show ?thesis by simp
  qed
qed

lemmas world_moves = moves_get moves_Now moves_Within moves_intros

end

end
