(* ===== verification/Samples.thy ===== *)
theory Samples
  imports World
begin

text \<open>
  A small concrete engine the witnesses run on: one active provider account with one
  collection route, an active application, an adapter whose validator rewrites the
  account and which answers every collection with success, and an environment with
  identity encodings.
\<close>

definition sample_adapter :: "unit adapter" where
  "sample_adapter =
     \<lparr>ad_Capabilities = (\<lambda>_. [\<lparr>ca_ServiceType = ServiceCollection, ca_PaymentMethod = PaymentMethodMomo\<rparr>]),
      ad_Init = (\<lambda>_ o_w. (Inr (), o_w)),
      ad_HealthCheck = Some (\<lambda>o_w. (Inr (), o_w)),
      ad_Collect = Some (\<lambda>req o_w.
        (Inr (Some \<lparr>rs_ProviderReference = ''ref-'' @ rq_TransactionID req, rs_Status = ''SUCCESS'',
                    rs_Message = ''done'', rs_Raw = []\<rparr>), o_w\<lparr>clock := clock o_w + 1\<rparr>)),
      ad_Disburse = None,
      ad_QueryTransaction = Some (\<lambda>ref country o_w.
        (Inr \<lparr>ts_ProviderReference = ref, ts_Status = ''PENDING'', ts_Message = ''wait''\<rparr>, o_w)),
      ad_QueryBalance = None,
      ad_VerifyWebhook = Some (\<lambda>payload headers o_w.
        (Inr \<lparr>ev_ProviderReference = payload, ev_Status = ''succeeded'', ev_EventType = ''payment'',
              ev_ExternalReference = [], ev_Amount = None, ev_Currency = [], ev_Country = [],
              ev_Account = [], ev_Raw = []\<rparr>, o_w)),
      ad_ValidateRequest = Some (\<lambda>req o_w. (Inr (req\<lparr>rq_Account := ''256'' @ rq_Account req\<rparr>), o_w))\<rparr>"

definition sample_runtime :: "unit runtime" where
  "sample_runtime =
     \<lparr>rt_AccountID = ''pacc_1'', rt_ProviderName = ''Sandbox'', rt_ProviderCode = ''sample'',
      rt_Country = ''UG'', rt_Currency = ''UGX'', rt_ConfigVersion = 1, rt_Adapter = Some sample_adapter,
      rt_Capabilities = [\<lparr>ca_ServiceType = ServiceCollection, ca_PaymentMethod = PaymentMethodMomo\<rparr>],
      rt_WebhookSecret = ''s3cret'', rt_breaker = new_circuit\<rparr>"

definition flat_charge :: "i64 \<Rightarrow> ChargeSchedule" where
  "flat_charge v = \<lparr>cs_Collection = \<lparr>cr_Type = ChargeFlat, cr_Value = v\<rparr>,
                    cs_Disbursement = \<lparr>cr_Type = ChargeFlat, cr_Value = v\<rparr>\<rparr>"

definition sample_account :: ProviderAccount where
  "sample_account =
     \<lparr>pa_ID = ''pacc_1'', pa_CreatedAt = 0, pa_ProviderCode = ''sample'', pa_Name = ''Sandbox'',
      pa_Environment = ''sandbox'', pa_Country = ''UG'', pa_Currency = ''UGX'', pa_Charges = flat_charge 1,
      pa_Active = True, pa_ConfigVersion = 1, pa_EncryptedConfigJSON = [], pa_ConfigHash = []\<rparr>"

definition sample_route :: PaymentRoute where
  "sample_route =
     \<lparr>pr_ID = ''route_1'', pr_CreatedAt = 0, pr_ServiceType = ServiceCollection,
      pr_PaymentMethod = PaymentMethodMomo, pr_ProviderAccountID = ''pacc_1'', pr_ProviderName = [],
      pr_Priority = 1, pr_Active = True\<rparr>"

definition sample_app :: App where
  "sample_app =
     \<lparr>app_ID = ''app_1'', app_CreatedAt = 0, app_Name = ''Shop'', app_Description = [],
      app_Status = active, app_Environment = ''sandbox'', app_Currency = ''UGX'',
      app_Charges = flat_charge 5, app_CreatedBy = []\<rparr>"

definition empty_db :: db where
  "empty_db =
     \<lparr>t_adminUsers = [], t_adminSessions = [], t_roles = [], t_rolePermissions = [], t_permissions = [],
      t_auditLogs = [], t_apps = [], t_appCredentials = [], t_appSessions = [], t_providerAccounts = [],
      t_providerHealth = [], t_paymentRoutes = [], t_transactions = [], t_attempts = [],
      t_webhookEvents = [], zero_defaults = True, faults = []\<rparr>"

definition sample_db :: db where
  "sample_db = empty_db\<lparr>t_apps := [sample_app], t_providerAccounts := [sample_account],
                        t_paymentRoutes := [sample_route]\<rparr>"

definition sample_world :: "unit world" where
  "sample_world =
     \<lparr>db = sample_db, items = [(''pacc_1'', sample_runtime)],
      outside = \<lparr>clock = 0, gone = False, prov = ()\<rparr>, hooks = NewHookRegistry,
      uuid_at = format_nat, uuid_n = 0\<rparr>"

definition sample_env :: "unit env" where
  "sample_env =
     \<lparr>env_region = (\<lambda>c. to_upper c \<in> set [''UG'', ''KE'']),
      env_registry = [(''sample'', Some (\<lambda>o_w. (Some sample_adapter, o_w)))],
      env_encrypt = (\<lambda>n s. Inr s), env_decrypt = (\<lambda>s. Inr s), env_sha256 = (\<lambda>s. s),
      env_config_json = (\<lambda>m. Inr []), env_config_of_json = (\<lambda>s. Inr [(''webhook_secret'', GStr ''s3cret'')]),
      env_map_json = (\<lambda>m. ''{}''),
      env_request_json = (\<lambda>service r. join_with ''|'' [service, cp_PaymentMethod r,
         format_int (sint (cp_Amount r)), cp_Currency r, cp_Country r, cp_Reference r, cp_Account r]),
      env_event_json = (\<lambda>e. Inr (ev_ProviderReference (vw_Event e))),
      env_event_of_json = (\<lambda>s. if s = [] then Inl (Msg ''invalid event'')
         else Inr \<lparr>vw_Event = \<lparr>ev_ProviderReference = s, ev_Status = ''succeeded'', ev_EventType = ''payment'',
                     ev_ExternalReference = [], ev_Amount = None, ev_Currency = [], ev_Country = [],
                     ev_Account = [], ev_Raw = []\<rparr>,
                   vw_ProviderAccountID = ''pacc_1'', vw_PayloadHash = s\<rparr>)\<rparr>"

definition sample_request :: CreatePayment where
  "sample_request =
     \<lparr>cp_PaymentMethod = '' MOMO'', cp_Amount = 1000, cp_Currency = ''ugx'', cp_Country = ''ug'',
      cp_Reference = ''order-1'', cp_Description = [], cp_Account = ''0700'', cp_Scheme = [],
      cp_Metadata = [], cp_Customer = None, cp_Recipient = None\<rparr>"

definition sample_call :: PaymentRequest where
  "sample_call =
     \<lparr>rq_TransactionID = ''txn_0'', rq_PaymentMethod = PaymentMethodMomo, rq_Currency = ''UGX'',
      rq_Country = ''UG'', rq_Reference = ''order-1'', rq_Account = ''0700'', rq_Scheme = [],
      rq_Metadata = [], rq_Name = [], rq_Email = [], rq_Description = [], rq_Amount = 1000\<rparr>"

lemmas sample_defs =
  sample_adapter_def sample_runtime_def flat_charge_def sample_account_def sample_route_def sample_app_def
  empty_db_def sample_db_def sample_world_def sample_env_def sample_request_def sample_call_def

end
