(* ===== verification/Executor.thy ===== *)
theory Executor
  imports Samples
begin

text \<open>
  \<open>internal/service/provider/executor.go\<close> and \<open>runtime.go\<close>: the set of loaded provider
  runtimes, and the calls made through them: readiness, circuit breaking, the guard on
  what a provider may rewrite, loading and unloading.
\<close>

section \<open>RuntimeManager: the loaded set\<close>

definition Get :: "'p world \<Rightarrow> string \<Rightarrow> 'p runtime option" where
  "Get w i = map_of (items w) i"

definition runtime_List :: "'p world \<Rightarrow> 'p runtime list" where
  "runtime_List w = map snd (items w)"

definition CircuitState :: "'p world \<Rightarrow> string \<Rightarrow> string" where
  "CircuitState w i =
     (case Get w i of Some p \<Rightarrow> circuit_state (rt_breaker p) (now w) | None \<Rightarrow> CircuitOpen)"

definition Disable :: "string \<Rightarrow> ('p, unit) act" where
  "Disable i = modify (\<lambda>w. w\<lparr>items := filter (\<lambda>(k, _). k \<noteq> i) (items w)\<rparr>)"

definition put_runtime :: "string \<Rightarrow> 'p runtime \<Rightarrow> ('p, unit) act" where
  "put_runtime i p = modify (\<lambda>w. w\<lparr>items := (i, p) # filter (\<lambda>(k, _). k \<noteq> i) (items w)\<rparr>)"

definition set_breaker :: "string \<Rightarrow> circuit \<Rightarrow> 'p world \<Rightarrow> 'p world" where
  "set_breaker i c w =
     w\<lparr>items := map (\<lambda>(k, p). (k, if k = i then p\<lparr>rt_breaker := c\<rparr> else p)) (items w)\<rparr>"

section \<open>executor.go: readiness and circuit breaking\<close>

definition ready :: "string \<Rightarrow> string \<Rightarrow> string \<Rightarrow> string \<Rightarrow> ('p, 'p runtime) act" where
  "ready i service payment_method country w =
     (case Get w i of
        None \<Rightarrow> (Inl (Msg ''provider not initialized''), w)
      | Some p \<Rightarrow>
          if rt_Adapter p = None then (Inl (Msg ''provider not initialized''), w)
          else if service \<noteq> [] \<and> \<not> Supports (rt_Capabilities p) service payment_method
          then (Inl (Msg (''provider does not support '' @ service @ ''/'' @ payment_method)), w)
          else if country \<noteq> [] \<and> rt_Country p \<noteq> country
          then (Inl (Msg (''provider does not support country '' @ country)), w)
          else (Inr p, w))"

text \<open>The breaker is consulted before the call and told the outcome after it; a failure while
  the caller has gone away counts as a success.\<close>

definition breaker_before :: "string \<Rightarrow> ('p, unit) act" where
  "breaker_before i w =
     (case Get w i of
        None \<Rightarrow> (Inr (), w)
      | Some p \<Rightarrow>
          (case circuit_before (rt_breaker p) (now w) of (r, c) \<Rightarrow> (r, set_breaker i c w)))"

definition breaker_after :: "string \<Rightarrow> bool \<Rightarrow> ('p, unit) act" where
  "breaker_after i failed = modify (\<lambda>w.
     case Get w i of
       None \<Rightarrow> w
     | Some p \<Rightarrow> set_breaker i (circuit_after (rt_breaker p) (now w) (failed \<and> \<not> gone (outside w))) w)"

definition execute :: "string \<Rightarrow> ('p, 'a) call \<Rightarrow> ('p, 'a) act" where
  "execute i call =
     bindE (breaker_before i) (\<lambda>_.
     handleE (on_outside call) (\<lambda>r.
     bindE (breaker_after i (case r of Inl _ \<Rightarrow> True | Inr _ \<Rightarrow> False)) (\<lambda>_.
     liftE r)))"

text \<open>A type assertion on the adapter panics when the operation is missing.\<close>

definition asserted :: "'f option \<Rightarrow> err + 'f" where
  "asserted f = (case f of None \<Rightarrow> Inl (Panic ''interface conversion'') | Some f \<Rightarrow> Inr f)"

definition adapter_of :: "'p runtime \<Rightarrow> 'p adapter" where
  "adapter_of p = the (rt_Adapter p)"

definition guardValidatedRequest :: "PaymentRequest \<Rightarrow> PaymentRequest \<Rightarrow> err + unit" where
  "guardValidatedRequest before after =
     (if rq_TransactionID before \<noteq> rq_TransactionID after \<or>
         rq_PaymentMethod before \<noteq> rq_PaymentMethod after \<or>
         rq_Amount before \<noteq> rq_Amount after \<or>
         rq_Currency before \<noteq> rq_Currency after \<or>
         rq_Country before \<noteq> rq_Country after \<or>
         rq_Reference before \<noteq> rq_Reference after
      then Inl (Msg ''provider modified a payment request field it does not own'')
      else if rq_Account after = [] \<or> \<not> ValidAccount (rq_Account after)
      then Inl (Msg ''provider normalized the account to an unusable value'')
      else Inr ())"

definition ValidateRequest :: "string \<Rightarrow> PaymentRequest \<Rightarrow> ('p, PaymentRequest) act" where
  "ValidateRequest i req =
     bindE (ready i [] [] (rq_Country req)) (\<lambda>p.
     case ad_ValidateRequest (adapter_of p) of
       None \<Rightarrow> returnE req
     | Some validator \<Rightarrow>
         handleE (on_outside (validator req)) (\<lambda>r.
         case r of
           Inl e \<Rightarrow> throwE (Msg (''provider rejected the payment request: '' @ Redact (error_text e)))
         | Inr after \<Rightarrow> bindE (liftE (guardValidatedRequest req after)) (\<lambda>_. returnE after)))"

definition Collect :: "string \<Rightarrow> PaymentRequest \<Rightarrow> ('p, ProviderPaymentResponse option) act" where
  "Collect i req =
     bindE (ready i ServiceCollection (rq_PaymentMethod req) (rq_Country req)) (\<lambda>p.
     bindE (liftE (asserted (ad_Collect (adapter_of p)))) (\<lambda>collect.
     execute i (collect req)))"

definition Disburse :: "string \<Rightarrow> PaymentRequest \<Rightarrow> ('p, ProviderPaymentResponse option) act" where
  "Disburse i req =
     bindE (ready i ServiceDisbursement (rq_PaymentMethod req) (rq_Country req)) (\<lambda>p.
     bindE (liftE (asserted (ad_Disburse (adapter_of p)))) (\<lambda>disburse.
     execute i (disburse req)))"

definition supported :: "'f option \<Rightarrow> err + 'f" where
  "supported f = (case f of None \<Rightarrow> Inl OperationUnsupported | Some f \<Rightarrow> Inr f)"

definition QueryTransaction :: "string \<Rightarrow> string \<Rightarrow> string \<Rightarrow> ('p, ProviderTransactionStatus) act" where
  "QueryTransaction i ref country =
     bindE (ready i [] [] country) (\<lambda>p.
     bindE (liftE (supported (ad_QueryTransaction (adapter_of p)))) (\<lambda>querier.
     execute i (querier ref country)))"

definition QueryBalance :: "string \<Rightarrow> string \<Rightarrow> ('p, ProviderBalance) act" where
  "QueryBalance i country =
     bindE (ready i [] [] country) (\<lambda>p.
     bindE (liftE (supported (ad_QueryBalance (adapter_of p)))) (\<lambda>querier.
     execute i (querier (if country = [] then rt_Country p else country))))"

definition Health :: "string \<Rightarrow> ('p, unit) act" where
  "Health i =
     bindE (ready i [] [] []) (\<lambda>p.
     case ad_HealthCheck (adapter_of p) of None \<Rightarrow> returnE () | Some check \<Rightarrow> execute i check)"

text \<open>A webhook is verified outside the breaker.\<close>

definition VerifyWebhook ::
    "string \<Rightarrow> string \<Rightarrow> (string \<times> string) list \<Rightarrow> ('p, ProviderWebhookEvent) act" where
  "VerifyWebhook i payload headers =
     bindE (ready i [] [] []) (\<lambda>p.
     bindE (liftE (supported (ad_VerifyWebhook (adapter_of p)))) (\<lambda>verifier.
     on_outside (verifier payload headers)))"

section \<open>runtime.go: loading\<close>

fun check_capabilities :: "'p adapter \<Rightarrow> Capability list \<Rightarrow> Capability list \<Rightarrow> err + unit" where
  "check_capabilities ad seen [] = Inr ()"
| "check_capabilities ad seen (c # caps) =
     (if \<not> ValidPaymentMethod (ca_PaymentMethod c)
      then Inl (Msg (''provider declares unsupported payment method '' @ quoted (ca_PaymentMethod c)))
      else if ca_ServiceType c = ServiceCollection \<and> ad_Collect ad = None
      then Inl (Msg ''provider declares collection without implementing Collector'')
      else if ca_ServiceType c = ServiceDisbursement \<and> ad_Disburse ad = None
      then Inl (Msg ''provider declares disbursement without implementing Disburser'')
      else if ca_ServiceType c \<noteq> ServiceCollection \<and> ca_ServiceType c \<noteq> ServiceDisbursement
      then Inl (Msg (''provider declares unsupported service '' @ quoted (ca_ServiceType c)))
      else if c \<in> set seen
      then Inl (Msg (''provider declares duplicate capability '' @ ca_ServiceType c @ ''/'' @ ca_PaymentMethod c))
      else check_capabilities ad (c # seen) caps)"

definition validateCapabilities :: "'p adapter \<Rightarrow> 'p outside \<Rightarrow> err + unit" where
  "validateCapabilities ad o_w =
     (let caps = ad_Capabilities ad o_w in
      if caps = [] then Inr ()
      else if ad_QueryTransaction ad = None then Inl (Msg ''provider must implement TransactionQuerier'')
      else check_capabilities ad [] caps)"

definition providerInitConfig :: "gmap \<Rightarrow> string \<Rightarrow> gmap" where
  "providerInitConfig plain environment =
     (''environment'', GStr environment) # filter (\<lambda>(k, _). k \<noteq> ''environment'') plain"

definition plain_config :: "'p env \<Rightarrow> ProviderAccount \<Rightarrow> err + gmap" where
  "plain_config E account =
     (case env_decrypt E (pa_EncryptedConfigJSON account) of
        Inl e \<Rightarrow> Inl e
      | Inr data \<Rightarrow> env_config_of_json E data)"

definition build :: "'p env \<Rightarrow> string \<Rightarrow> string \<Rightarrow> gmap \<Rightarrow> ('p, 'p adapter) act" where
  "build E code environment plain =
     bindE (on_outside (registry_Create (env_registry E) code)) (\<lambda>ad.
     bindE (on_outside (ad_Init ad (providerInitConfig plain environment))) (\<lambda>_.
     bindE (\<lambda>w. liftE (validateCapabilities ad (outside w)) w) (\<lambda>_.
     bindE (case ad_HealthCheck ad of None \<Rightarrow> returnE () | Some check \<Rightarrow> on_outside check) (\<lambda>_.
     returnE ad))))"

definition fresh_runtime ::
    "string \<Rightarrow> ProviderAccount \<Rightarrow> gmap \<Rightarrow> 'p adapter \<Rightarrow> Capability list \<Rightarrow> 'p runtime" where
  "fresh_runtime i account plain ad caps =
     \<lparr>rt_AccountID = i, rt_ProviderName = pa_Name account, rt_ProviderCode = pa_ProviderCode account,
      rt_Country = pa_Country account, rt_Currency = pa_Currency account,
      rt_ConfigVersion = pa_ConfigVersion account, rt_Adapter = Some ad, rt_Capabilities = caps,
      rt_WebhookSecret = StringAt plain ''webhook_secret'', rt_breaker = new_circuit\<rparr>"

definition Reload :: "'p env \<Rightarrow> string \<Rightarrow> ('p, unit) act" where
  "Reload E i =
     bindE (on_db (ProviderAccounts_ByID i)) (\<lambda>account.
     if \<not> pa_Active account then Disable i
     else
       bindE (liftE (plain_config E account)) (\<lambda>plain.
       bindE (build E (pa_ProviderCode account) (pa_Environment account) plain) (\<lambda>ad.
       bindE (get_world (\<lambda>w. ad_Capabilities ad (outside w))) (\<lambda>caps.
       put_runtime i (fresh_runtime i account plain ad caps)))))"

text \<open>Each account is tried; the failures are joined.\<close>

fun each_joined :: "('a \<Rightarrow> ('p, unit) act) \<Rightarrow> ('a \<Rightarrow> err \<Rightarrow> err) \<Rightarrow> 'a list \<Rightarrow> 'p world \<Rightarrow> err list \<times> 'p world" where
  "each_joined f wrap [] w = ([], w)"
| "each_joined f wrap (x # xs) w =
     (case f x w of
        (Inl e, w') \<Rightarrow> (case each_joined f wrap xs w' of (es, w'') \<Rightarrow> (wrap x e # es, w''))
      | (Inr _, w') \<Rightarrow> each_joined f wrap xs w')"

definition LoadActive :: "'p env \<Rightarrow> ('p, unit) act" where
  "LoadActive E =
     bindE (on_db ProviderAccounts_Active) (\<lambda>rows w.
     case each_joined (\<lambda>a. Reload E (pa_ID a)) (\<lambda>a e. Wrap (''reload '' @ pa_ID a) e) rows w of
       (es, w') \<Rightarrow> (errors_join es, w'))"

definition TestProviderConfig :: "'p env \<Rightarrow> string \<Rightarrow> ('p, unit) act" where
  "TestProviderConfig E i =
     bindE (on_db (ProviderAccounts_ByID i)) (\<lambda>account.
     bindE (liftE (plain_config E account)) (\<lambda>plain.
     bindE (build E (pa_ProviderCode account) (pa_Environment account) plain) (\<lambda>_.
     returnE ())))"

record BalanceResult =
  br_ProviderAccountID :: string
  br_ProviderCode :: string
  br_Country :: string
  br_Status :: string
  br_Balance :: "ProviderBalance option"
  br_Error :: string

definition balance_item :: "'p runtime \<Rightarrow> ('p, BalanceResult) act" where
  "balance_item p =
     (let item = \<lparr>br_ProviderAccountID = rt_AccountID p, br_ProviderCode = rt_ProviderCode p,
                  br_Country = rt_Country p, br_Status = ''failed'', br_Balance = None, br_Error = []\<rparr>
      in handleE (QueryBalance (rt_AccountID p) (rt_Country p)) (\<lambda>r.
         case r of
           Inl e \<Rightarrow> returnE (item\<lparr>br_Error := Redact (error_text e)\<rparr>)
         | Inr b \<Rightarrow> returnE (item\<lparr>br_Status := ''success'', br_Balance := Some b\<rparr>)))"

fun balance_items :: "'p runtime list \<Rightarrow> ('p, BalanceResult list) act" where
  "balance_items [] = returnE []"
| "balance_items (p # ps) =
     bindE (balance_item p) (\<lambda>x. bindE (balance_items ps) (\<lambda>xs. returnE (x # xs)))"

definition QueryActiveBalances :: "('p, BalanceResult list) act" where
  "QueryActiveBalances = bindE (get_world runtime_List) balance_items"

section \<open>What a provider call leaves alone\<close>

text \<open>Calls through the executor reach the outside and the breakers only.\<close>

definition engine_same :: "'p world \<Rightarrow> 'p world \<Rightarrow> bool" where
  "engine_same w w' \<longleftrightarrow>
     db w' = db w \<and> hooks w' = hooks w \<and> uuid_at w' = uuid_at w \<and> uuid_n w' = uuid_n w \<and>
     map (\<lambda>(k, p). (k, p\<lparr>rt_breaker := new_circuit\<rparr>)) (items w') =
     map (\<lambda>(k, p). (k, p\<lparr>rt_breaker := new_circuit\<rparr>)) (items w)"

interpretation same: effect_preorder engine_same
  by unfold_locales (auto simp: engine_same_def)

lemma engine_same_db: "engine_same w w' \<Longrightarrow> db w' = db w"
  by (simp add: engine_same_def)

lemma engine_same_set_breaker [simp]: "engine_same w (set_breaker i c w)"
  by (auto simp: engine_same_def set_breaker_def)

lemma same_ready: "moves engine_same (ready i service m country)"
  by (rule movesI) (simp add: ready_def same.refl_R split: option.splits)

lemma same_outside: "moves engine_same (on_outside call)"
  by (rule movesI) (auto simp: on_outside_def engine_same_def split: prod.splits)

lemma same_breaker_before: "moves engine_same (breaker_before i)"
  by (rule movesI) (auto simp: breaker_before_def same.refl_R split: option.splits prod.splits)

lemma same_breaker_after: "moves engine_same (breaker_after i failed)"
  by (rule movesI) (auto simp: breaker_after_def modify_def same.refl_R split: option.splits)

lemma same_execute: "moves engine_same (execute i call)"
  unfolding execute_def
  by (intro same.moves_bindE same.moves_handleE same_breaker_before same_outside same_breaker_after
      same.moves_liftE)

lemmas same_intros =
  same.moves_intros same_ready same_outside same_execute

lemma same_Collect: "moves engine_same (Collect i req)"
  unfolding Collect_def by (intro same_intros)

lemma same_Disburse: "moves engine_same (Disburse i req)"
  unfolding Disburse_def by (intro same_intros)

lemma same_QueryTransaction: "moves engine_same (QueryTransaction i ref country)"
  unfolding QueryTransaction_def by (intro same_intros)

lemma same_QueryBalance: "moves engine_same (QueryBalance i country)"
  unfolding QueryBalance_def by (intro same_intros)

lemma same_VerifyWebhook: "moves engine_same (VerifyWebhook i payload headers)"
  unfolding VerifyWebhook_def by (intro same_intros)

lemma same_ValidateRequest: "moves engine_same (ValidateRequest i req)"
  unfolding ValidateRequest_def
  by (intro same_intros) (auto intro!: same_intros split: option.split sum.split)

lemma same_Health: "moves engine_same (Health i)"
  unfolding Health_def by (intro same_intros) (auto intro!: same_intros split: option.split)

section \<open>Readiness and the guard\<close>

lemma ready_InrD:
  assumes "ready i service m country w = (Inr p, w')"
  shows "w' = w" and "Get w i = Some p" and "rt_Adapter p \<noteq> None"
    and "service \<noteq> [] \<Longrightarrow> Supports (rt_Capabilities p) service m"
    and "country \<noteq> [] \<Longrightarrow> rt_Country p = country"
  using assms by (auto simp: ready_def split: option.splits if_splits)

lemma ready_InlD: "ready i service m country w = (Inl e, w') \<Longrightarrow> w' = w"
  by (auto simp: ready_def split: option.splits if_splits)

lemma guardValidatedRequest_InrD:
  assumes "guardValidatedRequest before after = Inr u"
  shows "rq_TransactionID after = rq_TransactionID before" "rq_PaymentMethod after = rq_PaymentMethod before"
    "rq_Amount after = rq_Amount before" "rq_Currency after = rq_Currency before"
    "rq_Country after = rq_Country before" "rq_Reference after = rq_Reference before"
    "rq_Account after \<noteq> []" "ValidAccount (rq_Account after)"
  using assms by (auto simp: guardValidatedRequest_def split: if_splits)

lemma ValidateRequest_InrD:
  assumes "ValidateRequest i req w = (Inr after, w')"
  shows "after = req \<or> guardValidatedRequest req after = Inr ()"
  using assms unfolding ValidateRequest_def
  by (auto elim!: bindE_InrE simp: handleE_def throwE_def returnE_def liftE_def on_outside_def
      split: option.splits sum.splits prod.splits)

text \<open>Whatever the selected provider does to the request it validates, the request the
  engine goes on with has the transaction id, method, amount, currency, country and
  reference it had before, and an account that fits its column.\<close>

lemma validated_request_keeps_owned_fields:
  assumes "ValidateRequest i req w = (Inr after, w')"
    and "rq_Account req \<noteq> []" and "ValidAccount (rq_Account req)"
  shows "rq_TransactionID after = rq_TransactionID req \<and> rq_PaymentMethod after = rq_PaymentMethod req \<and>
         rq_Amount after = rq_Amount req \<and> rq_Currency after = rq_Currency req \<and>
         rq_Country after = rq_Country req \<and> rq_Reference after = rq_Reference req \<and>
         rq_Account after \<noteq> [] \<and> ValidAccount (rq_Account after) \<and> db w' = db w"
proof -
  have "db w' = db w"
    using movesD [OF same_ValidateRequest assms(1)] by (rule engine_same_db)
  with ValidateRequest_InrD [OF assms(1)] assms(2,3) show ?thesis
    by (auto dest: guardValidatedRequest_InrD)
qed

lemma validated_request_keeps_owned_fields_witness:
  "(\<exists>w'. ValidateRequest ''pacc_1'' sample_call sample_world =
            (Inr (sample_call\<lparr>rq_Account := ''2560700''\<rparr>), w') \<and> db w' = db sample_world)"
proof -
  obtain w' where v: "ValidateRequest ''pacc_1'' sample_call sample_world =
      (Inr (sample_call\<lparr>rq_Account := ''2560700''\<rparr>), w')"
    by (simp add: ValidateRequest_def ready_def Get_def sample_defs adapter_of_def on_outside_def
        handleE_def bindE_def liftE_def returnE_def guardValidatedRequest_def ValidAccount_def)
  have "rq_Account sample_call \<noteq> []" "ValidAccount (rq_Account sample_call)"
    by (simp_all add: sample_call_def ValidAccount_def)
  from validated_request_keeps_owned_fields [OF v this] v show ?thesis by auto
qed

section \<open>Loaded runtimes can do what they declare\<close>

definition capable :: "'p adapter \<Rightarrow> Capability list \<Rightarrow> bool" where
  "capable ad caps \<longleftrightarrow>
     (SupportsService caps ServiceCollection \<longrightarrow> ad_Collect ad \<noteq> None) \<and>
     (SupportsService caps ServiceDisbursement \<longrightarrow> ad_Disburse ad \<noteq> None) \<and>
     (caps \<noteq> [] \<longrightarrow> ad_QueryTransaction ad \<noteq> None)"

definition runtimes_ok :: "'p world \<Rightarrow> bool" where
  "runtimes_ok w \<longleftrightarrow>
     (\<forall>(i, p)\<in>set (items w). rt_AccountID p = i \<and>
        (\<exists>ad. rt_Adapter p = Some ad \<and> capable ad (rt_Capabilities p)))"

text \<open>The health check of an adapter does not change the capabilities it declares.\<close>

definition steady :: "'p adapter \<Rightarrow> bool" where
  "steady ad \<longleftrightarrow>
     (\<forall>check o_w. ad_HealthCheck ad = Some check \<longrightarrow>
        ad_Capabilities ad (snd (check o_w)) = ad_Capabilities ad o_w)"

lemma check_capabilities_ok:
  "check_capabilities ad seen caps = Inr () \<Longrightarrow>
     (SupportsService caps ServiceCollection \<longrightarrow> ad_Collect ad \<noteq> None) \<and>
     (SupportsService caps ServiceDisbursement \<longrightarrow> ad_Disburse ad \<noteq> None) \<and>
     (\<forall>c\<in>set caps. ValidPaymentMethod (ca_PaymentMethod c) \<and>
        (ca_ServiceType c = ServiceCollection \<or> ca_ServiceType c = ServiceDisbursement))"
  by (induction caps arbitrary: seen) (auto split: if_splits)

lemma check_capabilities_distinct:
  "check_capabilities ad seen caps = Inr () \<Longrightarrow> distinct caps \<and> set caps \<inter> set seen = {}"
  by (induction caps arbitrary: seen) (fastforce split: if_splits)+

lemma validateCapabilities_capable:
  "validateCapabilities ad o_w = Inr () \<Longrightarrow> capable ad (ad_Capabilities ad o_w)"
  using check_capabilities_ok [of ad "[]" "ad_Capabilities ad o_w"]
  by (auto simp: validateCapabilities_def capable_def Let_def split: if_splits)

lemma build_InrD:
  assumes "build E code environment plain w = (Inr ad, w')"
  obtains o_w where "validateCapabilities ad o_w = Inr ()"
    and "(case ad_HealthCheck ad of None \<Rightarrow> outside w' = o_w
          | Some check \<Rightarrow> outside w' = snd (check o_w))"
  using assms unfolding build_def
  by (elim bindE_InrE)
     (fastforce simp: returnE_def liftE_def on_outside_def split: option.splits prod.splits)

definition steady_registry :: "'p env \<Rightarrow> bool" where
  "steady_registry E \<longleftrightarrow>
     (\<forall>code f o_w ad. map_of (env_registry E) code = Some (Some f) \<longrightarrow>
        fst (f o_w) = Some ad \<longrightarrow> steady ad)"

lemma build_steady:
  assumes "build E code environment plain w = (Inr ad, w')" and "steady_registry E"
  shows "steady ad"
proof -
  obtain w1 where "on_outside (registry_Create (env_registry E) code) w = (Inr ad, w1)"
    using assms(1) unfolding build_def by (elim bindE_InrE) (simp add: returnE_def)
  then obtain f where "map_of (env_registry E) code = Some (Some f)" "fst (f (outside w)) = Some ad"
    by (auto simp: on_outside_def registry_Create_def split: option.splits prod.splits)
  with assms(2) show ?thesis by (auto simp: steady_registry_def)
qed

lemma build_capable:
  assumes "build E code environment plain w = (Inr ad, w')" and "steady_registry E"
  shows "capable ad (ad_Capabilities ad (outside w'))"
proof -
  obtain o_w where v: "validateCapabilities ad o_w = Inr ()"
    and o: "case ad_HealthCheck ad of None \<Rightarrow> outside w' = o_w | Some check \<Rightarrow> outside w' = snd (check o_w)"
    using assms(1) by (rule build_InrD)
  have st: "\<And>check x. ad_HealthCheck ad = Some check \<Longrightarrow>
      ad_Capabilities ad (snd (check x)) = ad_Capabilities ad x"
    using build_steady [OF assms] unfolding steady_def by blast
  have "ad_Capabilities ad (outside w') = ad_Capabilities ad o_w"
  proof (cases "ad_HealthCheck ad")
    case (Some check)
    with o show ?thesis using st [OF Some, of o_w] by simp
  qed (use o in simp)
  with validateCapabilities_capable [OF v] show ?thesis by simp
qed

text \<open>The breaker, the database and the outside play no part in the invariant.\<close>

lemma runtimes_ok_items: "items w' = items w \<Longrightarrow> runtimes_ok w' = runtimes_ok w"
  by (simp add: runtimes_ok_def)

lemma items_on_db: "on_db m w = (r, w') \<Longrightarrow> items w' = items w"
  by (auto simp: on_db_def split: prod.splits)

lemma items_on_outside: "on_outside m w = (r, w') \<Longrightarrow> items w' = items w"
  by (auto simp: on_outside_def split: prod.splits)

definition same_items :: "'p world \<Rightarrow> 'p world \<Rightarrow> bool" where
  "same_items w w' \<longleftrightarrow> items w' = items w"

interpretation same_items: effect_preorder same_items
  by unfold_locales (auto simp: same_items_def)

lemma same_items_db: "moves same_items (on_db m)"
  by (rule movesI) (auto simp: same_items_def on_db_def split: prod.splits)

lemma same_items_outside: "moves same_items (on_outside m)"
  by (rule movesI) (auto simp: same_items_def on_outside_def split: prod.splits)

lemma same_items_check: "moves same_items (\<lambda>w. liftE (f w) w)"
  by (rule movesI) (simp add: same_items_def)

lemma same_items_build: "moves same_items (build E code environment plain)"
  unfolding build_def
  by (intro same_items.moves_intros same_items_outside same_items_check)
     (auto intro!: same_items.moves_intros same_items_outside split: option.split)

lemma same_items_plain: "moves same_items (liftE (plain_config E account))"
  by (rule same_items.moves_liftE)

text \<open>What a reload does to the set: nothing, unload, or load an adapter that was built.\<close>

lemma Reload_cases:
  assumes "Reload E i w = (r, w')"
  obtains (same) "items w' = items w"
    | (unloaded) "items w' = filter (\<lambda>(k, _). k \<noteq> i) (items w)"
    | (loaded) code environment plain w0 ad w1 p where "build E code environment plain w0 = (Inr ad, w1)"
        and "rt_AccountID p = i" and "rt_Adapter p = Some ad"
        and "rt_Capabilities p = ad_Capabilities ad (outside w1)"
        and "items w' = (i, p) # filter (\<lambda>(k, _). k \<noteq> i) (items w)"
proof (cases r)
  case (Inl e)
  with assms have "Reload E i w = (Inl e, w')" by simp
  then show ?thesis
    unfolding Reload_def
  proof (cases rule: bindE_InlE)
    case first
    then show ?thesis by (intro same) (rule items_on_db)
  next
    case (later account d)
    then have "pa_Active account" by (auto simp: Disable_def modify_def split: if_splits)
    have d: "items d = items w" using later(1) by (rule items_on_db)
    from later(2) \<open>pa_Active account\<close> d show ?thesis
      by (auto elim!: bindE_InlE simp: put_runtime_def modify_def get_world_def liftE_def
          dest!: movesD [OF same_items_build] simp: same_items_def intro: same)
  qed
next
  case (Inr u)
  with assms have "Reload E i w = (Inr u, w')" by simp
  then obtain account d where db: "on_db (ProviderAccounts_ByID i) w = (Inr account, d)"
    and rest: "(if \<not> pa_Active account then Disable i else
       bindE (liftE (plain_config E account)) (\<lambda>plain.
       bindE (build E (pa_ProviderCode account) (pa_Environment account) plain) (\<lambda>ad.
       bindE (get_world (\<lambda>w. ad_Capabilities ad (outside w))) (\<lambda>caps.
       put_runtime i (fresh_runtime i account plain ad caps))))) d = (Inr u, w')"
    unfolding Reload_def by (rule bindE_InrE)
  have d: "items d = items w" using db by (rule items_on_db)
  show ?thesis
  proof (cases "pa_Active account")
    case False
    with rest d show ?thesis by (intro unloaded) (auto simp: Disable_def modify_def)
  next
    case True
    with rest obtain plain ad w1 where b: "build E (pa_ProviderCode account) (pa_Environment account) plain d = (Inr ad, w1)"
      and put: "put_runtime i (fresh_runtime i account plain ad (ad_Capabilities ad (outside w1))) w1 = (Inr u, w')"
      by (auto elim!: bindE_InrE simp: liftE_def get_world_def)
    have "items w1 = items w"
      using movesD [OF same_items_build b] d by (simp add: same_items_def)
    with put have "items w' = (i, fresh_runtime i account plain ad (ad_Capabilities ad (outside w1))) #
        filter (\<lambda>(k, _). k \<noteq> i) (items w)"
      by (auto simp: put_runtime_def modify_def)
    then show ?thesis
      by (rule loaded [OF b, rotated -1]) (simp_all add: fresh_runtime_def)
  qed
qed

text \<open>A runtime is loaded only for an adapter that implements every operation it
  declares, under its own account id, so loading, reloading and unloading keep the set of
  runtimes fit for use.\<close>

lemma Reload_runtimes_ok:
  assumes "steady_registry E" and "runtimes_ok w" and "Reload E i w = (r, w')"
  shows "runtimes_ok w'"
  using assms(3)
proof (cases rule: Reload_cases)
  case same
  with assms(2) show ?thesis by (simp add: runtimes_ok_items [OF same])
next
  case unloaded
  with assms(2) show ?thesis by (auto simp: runtimes_ok_def)
next
  case (loaded code environment plain w0 ad w1 p)
  then have "capable ad (rt_Capabilities p)" using build_capable assms(1) by metis
  with loaded assms(2) show ?thesis by (auto simp: runtimes_ok_def)
qed

lemma Reload_runtimes_ok_witness:
  "runtimes_ok (snd (Reload sample_env ''pacc_1'' sample_world))"
proof -
  have "steady_registry sample_env"
    by (simp add: steady_registry_def steady_def sample_env_def sample_adapter_def)
  moreover have "runtimes_ok sample_world"
    by (simp add: runtimes_ok_def capable_def sample_world_def sample_runtime_def sample_adapter_def)
  ultimately show ?thesis
    by (rule Reload_runtimes_ok [where r = "fst (Reload sample_env ''pacc_1'' sample_world)"]) simp
qed

lemma capable_of_Get:
  assumes "runtimes_ok w" and "Get w i = Some p"
  shows "rt_AccountID p = i" and "\<exists>ad. rt_Adapter p = Some ad \<and> capable ad (rt_Capabilities p)"
  using assms map_of_SomeD [of "items w" i p] by (auto simp: runtimes_ok_def Get_def)

text \<open>So the two unchecked type assertions of the executor never fail.\<close>

lemma asserted_ready:
  assumes "runtimes_ok w" and "ready i service m country w = (Inr p, w1)"
  shows "service = ServiceCollection \<Longrightarrow> ad_Collect (adapter_of p) \<noteq> None"
    and "service = ServiceDisbursement \<Longrightarrow> ad_Disburse (adapter_of p) \<noteq> None"
proof -
  obtain ad where ad: "rt_Adapter p = Some ad" "capable ad (rt_Capabilities p)"
    using capable_of_Get(2) [OF assms(1) ready_InrD(2) [OF assms(2)]] by blast
  then have a: "adapter_of p = ad" by (simp add: adapter_of_def)
  have sup: "SupportsService (rt_Capabilities p) service" if "service \<noteq> []"
    using ready_InrD(4) [OF assms(2) that] unfolding Supports_iff SupportsService_iff by blast
  show "ad_Collect (adapter_of p) \<noteq> None" if "service = ServiceCollection"
    using ad(2) sup that unfolding capable_def a by auto
  show "ad_Disburse (adapter_of p) \<noteq> None" if "service = ServiceDisbursement"
    using ad(2) sup that unfolding capable_def a by auto
qed

section \<open>What a cancelled call tells the breaker\<close>

lemma Get_set_breaker: "Get (set_breaker i c w) i = map_option (\<lambda>p. p\<lparr>rt_breaker := c\<rparr>) (Get w i)"
proof -
  have "map_of (map (\<lambda>(k, p). (k, if k = i then p\<lparr>rt_breaker := c\<rparr> else p)) xs) i =
      map_option (\<lambda>p. p\<lparr>rt_breaker := c\<rparr>) (map_of xs i)" for xs
    by (induction xs) auto
  then show ?thesis by (simp add: Get_def set_breaker_def)
qed

text \<open>A call whose caller has gone away is told to the breaker as a success: even when the
  provider failed it, a half-open circuit closes and the count of failures restarts.\<close>

lemma cancelled_probe_closes:
  assumes "Get w i = Some p" and "opened (rt_breaker p) = Some s" and "\<not> probing (rt_breaker p)"
    and "now w \<ge> s + 30 * second"
    and "call (outside w) = (Inl e, o_w)" and "gone o_w"
  shows "\<exists>w'. execute i call w = (Inl e, w') \<and> CircuitState w' i = CircuitClosed"
proof -
  have before: "breaker_before i w = (Inr (), set_breaker i ((rt_breaker p)\<lparr>probing := True\<rparr>) w)"
    using assms(1-4) by (auto simp: breaker_before_def circuit_before_def)
  let ?w1 = "set_breaker i ((rt_breaker p)\<lparr>probing := True\<rparr>) w"
  have out: "on_outside call ?w1 = (Inl e, ?w1\<lparr>outside := o_w\<rparr>)"
    using assms(5) by (simp add: on_outside_def set_breaker_def)
  let ?w2 = "?w1\<lparr>outside := o_w\<rparr>"
  have "Get ?w2 i = Some (p\<lparr>rt_breaker := (rt_breaker p)\<lparr>probing := True\<rparr>\<rparr>)"
    using Get_set_breaker [of i "(rt_breaker p)\<lparr>probing := True\<rparr>" w] assms(1) by (simp add: Get_def)
  then obtain c where "breaker_after i True ?w2 = (Inr (), set_breaker i c ?w2)" "opened c = None"
    using assms(6) by (auto simp: breaker_after_def modify_def circuit_after_def Let_def)
  moreover from this have "CircuitState (set_breaker i c ?w2) i = CircuitClosed"
    using \<open>Get ?w2 i = _\<close> by (simp add: CircuitState_def Get_set_breaker circuit_state_def)
  ultimately show ?thesis
    using before out by (simp add: execute_def)
qed

definition sample_half_open :: "unit world" where
  "sample_half_open = sample_world\<lparr>
     items := [(''pacc_1'', sample_runtime\<lparr>rt_breaker := new_circuit\<lparr>opened := Some 0, failures := 3\<rparr>\<rparr>)],
     outside := \<lparr>clock = 30 * second, gone = False, prov = ()\<rparr>\<rparr>"

lemma cancelled_probe_closes_witness:
  "\<exists>w'. execute ''pacc_1'' (\<lambda>o_w. (Inl (Msg ''provider failed''), o_w\<lparr>gone := True\<rparr>)) sample_half_open =
          (Inl (Msg ''provider failed''), w') \<and> CircuitState w' ''pacc_1'' = CircuitClosed"
  by (rule cancelled_probe_closes [where p = "sample_runtime\<lparr>rt_breaker := new_circuit\<lparr>opened := Some 0, failures := 3\<rparr>\<rparr>"
        and s = 0 and o_w = "\<lparr>clock = 30 * second, gone = True, prov = ()\<rparr>"])
     (simp_all add: sample_half_open_def Get_def new_circuit_def)

end
