(* ===== verification/Routing.thy ===== *)
theory Routing
  imports Executor
begin

text \<open>
  \<open>internal/service/routing/engine.go\<close>: which provider account serves a payment. A
  candidate route is checked against the database, the loaded runtimes, the breaker and
  the last health snapshot; \<open>eligible\<close> is that check as one condition on a state, and
  the lemmas relate the loops over routes to it.
\<close>

record 'p SelectedProvider =
  sel_Route :: PaymentRoute
  sel_Account :: ProviderAccount
  sel_Runtime :: "'p runtime"

definition unhealthy :: "ProviderHealthSnapshot \<Rightarrow> bool" where
  "unhealthy h \<longleftrightarrow>
     ph_Status h = ProviderDown \<or> ph_Status h = ProviderDisabled \<or>
     ph_Status h = ProviderMisconfigured \<or> ph_CircuitState h = CircuitOpen"

text \<open>\<open>(nil, false)\<close> is \<open>None\<close>; no read failure is an error here.\<close>

definition candidate ::
    "PaymentRoute \<Rightarrow> string \<Rightarrow> string \<Rightarrow> string \<Rightarrow> ('p, 'p SelectedProvider option) act" where
  "candidate route service country currency =
     handleE (on_db (ProviderAccounts_ActiveByID (pr_ProviderAccountID route))) (\<lambda>r.
     case r of
       Inl _ \<Rightarrow> returnE None
     | Inr account \<Rightarrow>
         if pa_Country account \<noteq> country \<or> pa_Currency account \<noteq> currency then returnE None
         else (\<lambda>w.
           case Get w (pa_ID account) of
             None \<Rightarrow> (Inr None, w)
           | Some rp \<Rightarrow>
               if \<not> Supports (rt_Capabilities rp) service (pr_PaymentMethod route) \<or>
                  CircuitState w (pa_ID account) = CircuitOpen
               then (Inr None, w)
               else handleE (on_db (ProviderHealth_ByAccount (pa_ID account))) (\<lambda>h.
                 case h of
                   Inr health \<Rightarrow>
                     if unhealthy health then returnE None
                     else returnE (Some \<lparr>sel_Route = route, sel_Account = account, sel_Runtime = rp\<rparr>)
                 | Inl e \<Rightarrow>
                     if \<not> IsNotFound e then returnE None
                     else returnE (Some \<lparr>sel_Route = route, sel_Account = account, sel_Runtime = rp\<rparr>)) w))"

fun first_candidate ::
    "string \<Rightarrow> string \<Rightarrow> string \<Rightarrow> PaymentRoute list \<Rightarrow> ('p, 'p SelectedProvider) act" where
  "first_candidate service country currency [] = throwE NoRouteAvailable"
| "first_candidate service country currency (route # routes) =
     bindE (candidate route service country currency) (\<lambda>c.
     case c of Some sel \<Rightarrow> returnE sel | None \<Rightarrow> first_candidate service country currency routes)"

definition SelectProvider ::
    "'p env \<Rightarrow> string \<Rightarrow> string \<Rightarrow> string \<Rightarrow> string \<Rightarrow> ('p, 'p SelectedProvider) act" where
  "SelectProvider E service payment_method country currency =
     bindE (liftE (NormalizeTransactionCountry (env_region E) country)) (\<lambda>country.
     bindE (liftE (NormalizeCurrency currency)) (\<lambda>currency.
     bindE (on_db (PaymentRoutes_For service payment_method)) (\<lambda>routes.
     first_candidate service country currency routes)))"

text \<open>The listed methods, as pairs of service and method; \<open>seen\<close> holds the ones already
  listed.\<close>

fun available_methods ::
    "string \<Rightarrow> string \<Rightarrow> (string \<times> string) list \<Rightarrow> PaymentRoute list \<Rightarrow>
     ('p, (string \<times> string) list) act" where
  "available_methods country currency seen [] = returnE []"
| "available_methods country currency seen (route # routes) =
     (let m = (pr_ServiceType route, pr_PaymentMethod route) in
      if m \<in> set seen then available_methods country currency seen routes
      else bindE (candidate route (pr_ServiceType route) country currency) (\<lambda>c.
           case c of
             None \<Rightarrow> available_methods country currency seen routes
           | Some _ \<Rightarrow> bindE (available_methods country currency (m # seen) routes) (\<lambda>ms. returnE (m # ms))))"

definition AvailablePaymentMethods ::
    "'p env \<Rightarrow> string \<Rightarrow> string \<Rightarrow> string \<Rightarrow> ('p, (string \<times> string) list) act" where
  "AvailablePaymentMethods E service country currency =
     bindE (failIf (service \<noteq> [] \<and> service \<noteq> ServiceCollection \<and> service \<noteq> ServiceDisbursement)
              (Msg ''service_type must be collection or disbursement'')) (\<lambda>_.
     bindE (liftE (NormalizeTransactionCountry (env_region E) country)) (\<lambda>country.
     bindE (liftE (NormalizeCurrency currency)) (\<lambda>currency.
     bindE (on_db (PaymentRoutes_Candidates service)) (\<lambda>routes.
     available_methods country currency [] routes))))"

section \<open>Reads\<close>

text \<open>A read consumes statements and changes nothing else; with no statement failing it
  changes nothing at all.\<close>

definition reads :: "'p world \<Rightarrow> 'p world \<Rightarrow> bool" where
  "reads w w' \<longleftrightarrow>
     (\<exists>bs. w' = w\<lparr>db := (db w)\<lparr>faults := bs\<rparr>\<rparr>) \<and> (faults (db w) = [] \<longrightarrow> w' = w)"

definition db_reads :: "db \<Rightarrow> db \<Rightarrow> bool" where
  "db_reads d d' \<longleftrightarrow> (\<exists>bs. d' = d\<lparr>faults := bs\<rparr>) \<and> (faults d = [] \<longrightarrow> d' = d)"

lemma faults_self: "\<exists>bs. d = d\<lparr>faults := bs\<rparr>"
  by (rule exI [of _ "faults d"]) simp

interpretation db_reads: effect_preorder db_reads
  by unfold_locales (auto simp: db_reads_def intro: faults_self)

interpretation reads: effect_preorder reads
proof
  show "reads w w" for w :: "'p world"
    by (auto simp: reads_def intro: exI [of _ "faults (db w)"])
  show "reads u w" if "reads u v" "reads v w" for u v w :: "'p world"
    using that by (auto simp: reads_def)
qed

lemma db_reads_statement: "moves db_reads statement"
  by (rule movesI) (auto simp: db_reads_def statement_def split: list.splits intro: faults_self)

lemma db_reads_pure: "(\<And>d. snd (m d) = d) \<Longrightarrow> moves db_reads m"
  by (simp add: moves_def db_reads.refl_R)

lemma db_reads_first: "moves db_reads (base_first rows P)"
  unfolding base_first_def
  by (intro db_reads.moves_bindE db_reads_statement db_reads_pure) (simp split: option.split)

lemma db_reads_find: "moves db_reads (base_find rows ord P)"
  unfolding base_find_def by (intro db_reads.moves_bindE db_reads_statement db_reads_pure) simp

lemma db_reads_count: "moves db_reads (base_count rows P)"
  unfolding base_count_def by (intro db_reads.moves_bindE db_reads_statement db_reads_pure) simp

lemma reads_on_db: "moves db_reads m \<Longrightarrow> moves reads (on_db m)"
  by (auto simp: moves_def on_db_def reads_def db_reads_def split: prod.splits) (metis snd_conv)+

lemma reads_pure: "(\<And>w. snd (m w) = w) \<Longrightarrow> moves reads m"
  by (simp add: moves_def reads.refl_R)

lemmas db_reads_intros = db_reads.moves_intros db_reads_first db_reads_find db_reads_count

lemma reads_InD: "moves reads m \<Longrightarrow> m w = (r, w') \<Longrightarrow> faults (db w) = [] \<Longrightarrow> w' = w"
  by (metis movesD reads_def)

text \<open>Reads do not change what \<open>Get\<close> and \<open>CircuitState\<close> answer.\<close>

lemma reads_same:
  assumes "reads w w'"
  shows "Get w' i = Get w i" "CircuitState w' i = CircuitState w i" "now w' = now w"
    "t_providerAccounts (db w') = t_providerAccounts (db w)"
    "t_providerHealth (db w') = t_providerHealth (db w)"
    "t_paymentRoutes (db w') = t_paymentRoutes (db w)"
    "t_transactions (db w') = t_transactions (db w)" "t_apps (db w') = t_apps (db w)"
    "items w' = items w" "outside w' = outside w"
  using assms by (auto simp: reads_def Get_def CircuitState_def split: option.split)

lemma reads_candidate: "moves reads (candidate route service country currency)"
proof -
  have account: "moves reads (on_db (ProviderAccounts_ActiveByID i))" for i
    unfolding ProviderAccounts_ActiveByID_def by (intro reads_on_db db_reads_first)
  have health: "moves reads (on_db (ProviderHealth_ByAccount i))" for i
    unfolding ProviderHealth_ByAccount_def by (intro reads_on_db db_reads_first)
  have tail: "moves reads (\<lambda>w.
           case Get w i of
             None \<Rightarrow> (Inr None, w)
           | Some rp \<Rightarrow> if P rp w then (Inr None, w)
               else handleE (on_db (ProviderHealth_ByAccount i)) (k rp) w)"
    if "\<And>rp h. moves reads (k rp h)" for i P
      and k :: "'a runtime \<Rightarrow> err + ProviderHealthSnapshot \<Rightarrow> ('a, 'a SelectedProvider option) act"
  proof
    fix w
    have "moves reads (handleE (on_db (ProviderHealth_ByAccount i)) (k rp))" for rp
      by (intro reads.moves_handleE health that)
    then show "reads w (snd (case Get w i of
             None \<Rightarrow> (Inr None, w)
           | Some rp \<Rightarrow> if P rp w then (Inr None, w)
               else handleE (on_db (ProviderHealth_ByAccount i)) (k rp) w))"
      by (auto simp: moves_def reads.refl_R split: option.splits)
  qed
  show ?thesis
    unfolding candidate_def
    by (intro reads.moves_handleE account)
       (auto intro!: reads.moves_returnE tail split: sum.split if_split)
qed

lemma reads_first_candidate: "moves reads (first_candidate service country currency routes)"
  by (induction routes)
     (auto intro!: reads.moves_intros reads_candidate split: option.split)

lemma reads_available_methods: "moves reads (available_methods country currency seen routes)"
  by (induction routes arbitrary: seen)
     (auto intro!: reads.moves_intros reads_candidate simp: Let_def split: option.split)

lemma reads_For: "moves reads (on_db (PaymentRoutes_For service m))"
  unfolding PaymentRoutes_For_def by (intro reads_on_db db_reads_find)

lemma reads_Candidates: "moves reads (on_db (PaymentRoutes_Candidates service))"
  unfolding PaymentRoutes_Candidates_def by (intro reads_on_db) (auto intro: db_reads_find)

lemma reads_SelectProvider: "moves reads (SelectProvider E service m country currency)"
  unfolding SelectProvider_def
  by (intro reads.moves_bindE reads.moves_liftE reads_For reads_first_candidate)

lemma reads_AvailablePaymentMethods: "moves reads (AvailablePaymentMethods E service country currency)"
  unfolding AvailablePaymentMethods_def
  by (intro reads.moves_bindE reads.moves_liftE reads.moves_failIf reads_Candidates reads_available_methods)

section \<open>The candidate check as one condition\<close>

definition health_ok :: "db \<Rightarrow> string \<Rightarrow> bool" where
  "health_ok d i =
     (case List.find (\<lambda>h. ph_ProviderAccountID h = i) (t_providerHealth d) of
        None \<Rightarrow> True | Some h \<Rightarrow> \<not> unhealthy h)"

definition active_account :: "db \<Rightarrow> string \<Rightarrow> ProviderAccount option" where
  "active_account d i = List.find (\<lambda>a. pa_ID a = i \<and> pa_Active a) (t_providerAccounts d)"

definition candidate_of ::
    "'p world \<Rightarrow> string \<Rightarrow> string \<Rightarrow> string \<Rightarrow> PaymentRoute \<Rightarrow> 'p SelectedProvider option" where
  "candidate_of w service country currency route =
     (case active_account (db w) (pr_ProviderAccountID route) of
        None \<Rightarrow> None
      | Some account \<Rightarrow>
          if pa_Country account = country \<and> pa_Currency account = currency then
            (case Get w (pa_ID account) of
               None \<Rightarrow> None
             | Some rp \<Rightarrow>
                 if Supports (rt_Capabilities rp) service (pr_PaymentMethod route) \<and>
                    CircuitState w (pa_ID account) \<noteq> CircuitOpen \<and> health_ok (db w) (pa_ID account)
                 then Some \<lparr>sel_Route = route, sel_Account = account, sel_Runtime = rp\<rparr>
                 else None)
          else None)"

definition eligible :: "'p world \<Rightarrow> string \<Rightarrow> string \<Rightarrow> string \<Rightarrow> PaymentRoute \<Rightarrow> bool" where
  "eligible w service country currency r \<longleftrightarrow> candidate_of w service country currency r \<noteq> None"

lemma eligibleE:
  assumes "eligible w service country currency r"
  obtains sel where "candidate_of w service country currency r = Some sel"
  using assms by (auto simp: eligible_def)

lemma candidate_of_reads:
  assumes "reads w w'"
  shows "candidate_of w' service country currency route = candidate_of w service country currency route"
  unfolding candidate_of_def active_account_def health_ok_def reads_same [OF assms] ..

lemma IsNotFound_simps [simp]: "IsNotFound NotFound" "\<not> IsNotFound DriverErr"
  by (simp_all add: IsNotFound_def)

text \<open>What a lookup answers: a driver failure, or the row.\<close>

definition row_result :: "'r option \<Rightarrow> err + 'r" where
  "row_result x = (case x of None \<Rightarrow> Inl NotFound | Some r \<Rightarrow> Inr r)"

lemma on_db_first_cases:
  assumes "on_db (base_first rows P) w = (r, w')" and "\<And>d bs. rows (d\<lparr>faults := bs\<rparr>) = rows d"
  obtains (failed) "r = Inl DriverErr" "faults (db w) \<noteq> []" "reads w w'"
    | (answered) "r = row_result (List.find P (rows (db w)))" "reads w w'"
proof -
  have "reads w w'"
    using movesD [OF reads_on_db [OF db_reads_first] assms(1)] .
  moreover have "r = Inl DriverErr \<and> faults (db w) \<noteq> [] \<or> r = row_result (List.find P (rows (db w)))"
    using assms
    by (cases "faults (db w)")
       (auto simp: on_db_def base_first_def bindE_def statement_def row_result_def split: option.splits if_splits)
  ultimately show ?thesis using failed answered by blast
qed

lemmas account_cases [consumes 1, case_names failed answered] =
  on_db_first_cases [where rows = t_providerAccounts, simplified]
lemmas health_cases [consumes 1, case_names failed answered] =
  on_db_first_cases [where rows = t_providerHealth, simplified]

lemma candidate_InrD:
  assumes "candidate route service country currency w = (r, w')"
  shows "r = Inr (candidate_of w service country currency route) \<or> (r = Inr None \<and> faults (db w) \<noteq> [])"
proof -
  obtain a w1 where a: "on_db (ProviderAccounts_ActiveByID (pr_ProviderAccountID route)) w = (a, w1)"
    by fastforce
  from a show ?thesis
    unfolding ProviderAccounts_ActiveByID_def
  proof (cases rule: account_cases)
    case failed
    with a assms show ?thesis by (simp add: candidate_def)
  next
    case answered
    then have a_eq: "a = row_result (active_account (db w) (pr_ProviderAccountID route))"
      by (simp add: active_account_def)
    note w1 = reads_same [OF answered(2)]
    show ?thesis
    proof (cases "active_account (db w) (pr_ProviderAccountID route)")
      case None
      with a a_eq assms show ?thesis by (simp add: candidate_def candidate_of_def row_result_def)
    next
      case (Some account)
      then have a_Inr: "a = Inr account" by (simp add: a_eq row_result_def)
      show ?thesis
      proof (cases "pa_Country account = country \<and> pa_Currency account = currency \<and>
          (\<exists>rp. Get w (pa_ID account) = Some rp \<and> Supports (rt_Capabilities rp) service (pr_PaymentMethod route) \<and>
            CircuitState w (pa_ID account) \<noteq> CircuitOpen)")
        case False
        with a a_Inr Some assms show ?thesis
          by (auto simp: candidate_def candidate_of_def w1 split: option.splits if_splits)
      next
        case True
        then obtain rp where rp: "Get w (pa_ID account) = Some rp" by blast
        obtain h w2 where h: "on_db (ProviderHealth_ByAccount (pa_ID account)) w1 = (h, w2)" by fastforce
        have c: "candidate route service country currency w =
            ((case h of Inr health \<Rightarrow> if unhealthy health then Inr None
                 else Inr (Some \<lparr>sel_Route = route, sel_Account = account, sel_Runtime = rp\<rparr>)
              | Inl e \<Rightarrow> if \<not> IsNotFound e then Inr None
                 else Inr (Some \<lparr>sel_Route = route, sel_Account = account, sel_Runtime = rp\<rparr>)), w2)"
          using a a_Inr True rp h by (auto simp: candidate_def w1 split: sum.split)
        from h show ?thesis
          unfolding ProviderHealth_ByAccount_def
        proof (cases rule: health_cases)
          case failed
          then have "faults (db w) \<noteq> []" using answered(2) by (auto simp: reads_def)
          with failed c assms show ?thesis by simp
        next
          case healthy: answered
          have "h = row_result (List.find (\<lambda>h. ph_ProviderAccountID h = pa_ID account) (t_providerHealth (db w)))"
            using healthy(1) by (simp add: w1)
          then show ?thesis
            using c assms True rp Some
            by (auto simp: candidate_of_def health_ok_def row_result_def split: option.splits)
        qed
      qed
    qed
  qed
qed

lemma candidate_Some_reads:
  assumes "candidate route service country currency w = (Inr (Some sel), w')"
  shows "candidate_of w service country currency route = Some sel" and "reads w w'"
  using candidate_InrD [OF assms] movesD [OF reads_candidate assms] by auto

lemma candidate_clean:
  assumes "faults (db w) = []"
  shows "candidate route service country currency w = (Inr (candidate_of w service country currency route), w)"
proof -
  obtain r w' where c: "candidate route service country currency w = (r, w')" by fastforce
  with assms show ?thesis
    using candidate_InrD [OF c] reads_InD [OF reads_candidate c] by auto
qed

lemma first_candidate_InrD:
  assumes "first_candidate service country currency routes w = (Inr sel, w')"
  shows "\<exists>route\<in>set routes. candidate_of w service country currency route = Some sel"
  using assms
proof (induction routes arbitrary: w)
  case (Cons route routes)
  obtain c w1 where c: "candidate route service country currency w = (Inr c, w1)"
    and rest: "(case c of Some sel \<Rightarrow> returnE sel | None \<Rightarrow> first_candidate service country currency routes) w1 = (Inr sel, w')"
    using Cons.prems by (auto elim: bindE_InrE)
  show ?case
  proof (cases c)
    case None
    with rest Cons.IH [of w1] candidate_of_reads [OF movesD [OF reads_candidate c]]
    show ?thesis by simp
  next
    case (Some x)
    with rest have "x = sel" by simp
    with c Some candidate_Some_reads(1) show ?thesis by fastforce
  qed
qed simp

lemma first_candidate_clean:
  assumes "faults (db w) = []"
  shows "first_candidate service country currency routes w =
     (case List.find (eligible w service country currency) routes of
        None \<Rightarrow> (Inl NoRouteAvailable, w)
      | Some r \<Rightarrow> (Inr (the (candidate_of w service country currency r)), w))"
  using assms by (induction routes) (auto simp: bindE_def candidate_clean eligible_def split: option.split)

lemma on_db_find_clean:
  "faults (db w) = [] \<Longrightarrow> on_db (base_find rows ord P) w = (Inr (ord (filter P (rows (db w)))), w)"
  by (simp add: on_db_def base_find_def bindE_def statement_def)

definition listed :: "'p world \<Rightarrow> string \<Rightarrow> string \<Rightarrow> PaymentRoute \<Rightarrow> bool" where
  "listed w country currency r \<longleftrightarrow> eligible w (pr_ServiceType r) country currency r"

lemma available_methods_clean:
  assumes "faults (db w) = []"
  shows "\<exists>ms. available_methods country currency seen routes w = (Inr ms, w) \<and> distinct ms \<and>
     set ms = (\<lambda>r. (pr_ServiceType r, pr_PaymentMethod r)) ` {r\<in>set routes. listed w country currency r} - set seen"
  using assms
proof (induction routes arbitrary: seen)
  case (Cons route routes)
  let ?m = "(pr_ServiceType route, pr_PaymentMethod route)"
  let ?ms = "(\<lambda>r. (pr_ServiceType r, pr_PaymentMethod r)) ` {r\<in>set routes. listed w country currency r}"
  have step: "(\<lambda>r. (pr_ServiceType r, pr_PaymentMethod r)) ` {r\<in>set (route # routes). listed w country currency r}
      = (if listed w country currency route then insert ?m ?ms else ?ms)"
    by auto
  show ?case
  proof (cases "?m \<in> set seen \<or> \<not> listed w country currency route")
    case True
    with Cons.IH [of seen] Cons.prems show ?thesis
      unfolding step by (auto simp: Let_def bindE_def candidate_clean listed_def eligible_def)
  next
    case False
    from Cons.IH [of "?m # seen"] Cons.prems obtain ms where ms:
      "available_methods country currency (?m # seen) routes w = (Inr ms, w)" "distinct ms"
      "set ms = ?ms - set (?m # seen)" by blast
    from False obtain sel where "candidate_of w (pr_ServiceType route) country currency route = Some sel"
      by (auto simp: listed_def eligible_def)
    with False Cons.prems ms(1)
    have "available_methods country currency seen (route # routes) w = (Inr (?m # ms), w)"
      by (simp add: Let_def bindE_def candidate_clean)
    moreover have "distinct (?m # ms)" using ms by simp
    moreover have "set (?m # ms) = insert ?m ?ms - set seen" using ms(3) False by auto
    ultimately show ?thesis using False unfolding step by auto
  qed
qed simp

section \<open>Selection\<close>

definition serving_routes :: "db \<Rightarrow> string \<Rightarrow> string \<Rightarrow> PaymentRoute list" where
  "serving_routes d service m =
     sort_key (\<lambda>r. (pr_Priority r, pr_CreatedAt r))
       (filter (\<lambda>r. pr_Active r \<and> pr_ServiceType r = service \<and> pr_PaymentMethod r = m) (t_paymentRoutes d))"

lemma set_serving_routes:
  "r \<in> set (serving_routes d service m) \<longleftrightarrow>
     r \<in> set (t_paymentRoutes d) \<and> pr_Active r \<and> pr_ServiceType r = service \<and> pr_PaymentMethod r = m"
  by (auto simp: serving_routes_def)

lemma candidate_of_SomeD:
  assumes "candidate_of w service country currency route = Some sel"
  shows "sel_Route sel = route" "sel_Account sel \<in> set (t_providerAccounts (db w))"
    "pa_ID (sel_Account sel) = pr_ProviderAccountID route" "pa_Active (sel_Account sel)"
    "pa_Country (sel_Account sel) = country" "pa_Currency (sel_Account sel) = currency"
    "Get w (pa_ID (sel_Account sel)) = Some (sel_Runtime sel)"
    "Supports (rt_Capabilities (sel_Runtime sel)) service (pr_PaymentMethod route)"
    "CircuitState w (pa_ID (sel_Account sel)) \<noteq> CircuitOpen" "health_ok (db w) (pa_ID (sel_Account sel))"
  using assms
  by (auto simp: candidate_of_def active_account_def split: option.splits if_splits dest!: find_Some_in_set)

lemma For_InrD:
  assumes "on_db (PaymentRoutes_For service m) w = (Inr routes, w1)"
  shows "routes = serving_routes (db w) service m" and "reads w w1"
proof -
  show "reads w w1" using movesD [OF reads_For assms] .
  show "routes = serving_routes (db w) service m"
    using assms paymentRoutes.find_InrD(1)
    by (fastforce simp: PaymentRoutes_For_def serving_routes_def on_db_def split: prod.splits)
qed

lemma SelectProvider_InrD:
  assumes "SelectProvider E service m country currency w = (Inr sel, w')"
  obtains c cur where "NormalizeTransactionCountry (env_region E) country = Inr c"
    and "NormalizeCurrency currency = Inr cur" and "reads w w'"
    and "sel_Route sel \<in> set (serving_routes (db w) service m)"
    and "candidate_of w service c cur (sel_Route sel) = Some sel"
proof -
  obtain c cur routes w1 where n: "NormalizeTransactionCountry (env_region E) country = Inr c"
      "NormalizeCurrency currency = Inr cur"
    and f: "on_db (PaymentRoutes_For service m) w = (Inr routes, w1)"
    and s: "first_candidate service c cur routes w1 = (Inr sel, w')"
    using assms unfolding SelectProvider_def by (auto elim!: bindE_InrE simp: liftE_def)
  obtain route where "route \<in> set routes" "candidate_of w1 service c cur route = Some sel"
    using first_candidate_InrD [OF s] by blast
  then have "sel_Route sel \<in> set (serving_routes (db w) service m)"
    "candidate_of w service c cur (sel_Route sel) = Some sel"
    using For_InrD(1) [OF f] candidate_of_SomeD(1) candidate_of_reads [OF For_InrD(2) [OF f]] by fastforce+
  with n movesD [OF reads_SelectProvider assms] show ?thesis by (rule that)
qed

lemma SelectProvider_clean:
  assumes "faults (db w) = []" and "NormalizeTransactionCountry (env_region E) country = Inr c"
    and "NormalizeCurrency currency = Inr cur"
  shows "SelectProvider E service m country currency w =
     (case List.find (eligible w service c cur) (serving_routes (db w) service m) of
        None \<Rightarrow> (Inl NoRouteAvailable, w)
      | Some r \<Rightarrow> (Inr (the (candidate_of w service c cur r)), w))"
  using assms
  by (simp add: SelectProvider_def bindE_liftE PaymentRoutes_For_def on_db_find_clean
      first_candidate_clean serving_routes_def)

lemma sorted_find_least:
  assumes "List.find P (sort_key k xs) = Some x" and "y \<in> set xs" and "P y"
  shows "k x \<le> k y"
proof -
  obtain i where i: "i < length (sort_key k xs)" "sort_key k xs ! i = x" "\<forall>j<i. \<not> P (sort_key k xs ! j)"
    using assms(1) by (auto simp: find_Some_iff)
  obtain j where j: "j < length (sort_key k xs)" "sort_key k xs ! j = y"
    using assms(2) by (metis in_set_conv_nth set_sort)
  with i assms(3) have "i \<le> j" by (metis not_le)
  moreover have "sorted (map k (sort_key k xs))" by simp
  ultimately show ?thesis
    using i j by (metis (no_types, lifting) length_map nth_map sorted_nth_mono)
qed

text \<open>C12: whatever statements fail, a selected provider is one the payment may use: an active
  route for the service and method, to an active account of the payment's country and
  currency, whose loaded adapter declares the operation, whose circuit is not open and
  whose last health snapshot does not exclude it; and selecting changes nothing.\<close>

lemma SelectProvider_sound:
  assumes "SelectProvider E service m country currency w = (Inr sel, w')"
  shows "sel_Route sel \<in> set (t_paymentRoutes (db w)) \<and> pr_Active (sel_Route sel) \<and>
         pr_ServiceType (sel_Route sel) = service \<and> pr_PaymentMethod (sel_Route sel) = m \<and>
         sel_Account sel \<in> set (t_providerAccounts (db w)) \<and> pa_Active (sel_Account sel) \<and>
         pa_ID (sel_Account sel) = pr_ProviderAccountID (sel_Route sel) \<and>
         NormalizeTransactionCountry (env_region E) country = Inr (pa_Country (sel_Account sel)) \<and>
         NormalizeCurrency currency = Inr (pa_Currency (sel_Account sel)) \<and>
         Get w (pa_ID (sel_Account sel)) = Some (sel_Runtime sel) \<and>
         Supports (rt_Capabilities (sel_Runtime sel)) service m \<and>
         CircuitState w (pa_ID (sel_Account sel)) \<noteq> CircuitOpen \<and>
         health_ok (db w) (pa_ID (sel_Account sel)) \<and> reads w w'"
  using assms
proof (rule SelectProvider_InrD)
  fix c cur
  assume "NormalizeTransactionCountry (env_region E) country = Inr c"
    "NormalizeCurrency currency = Inr cur" "reads w w'"
    "sel_Route sel \<in> set (serving_routes (db w) service m)"
    and sel: "candidate_of w service c cur (sel_Route sel) = Some sel"
  with candidate_of_SomeD [OF sel] show ?thesis by (auto simp: set_serving_routes)
qed

text \<open>C13: with no statement failing, selection returns an eligible route of the lowest priority
  number, the oldest of those, and fails with \<open>NoRouteAvailable\<close> exactly when no route is
  eligible.\<close>

lemma SelectProvider_best:
  assumes "faults (db w) = []" and "NormalizeTransactionCountry (env_region E) country = Inr c"
    and "NormalizeCurrency currency = Inr cur"
  shows "(case SelectProvider E service m country currency w of
            (Inl e, w') \<Rightarrow> e = NoRouteAvailable \<and> w' = w \<and>
               (\<forall>r\<in>set (serving_routes (db w) service m). \<not> eligible w service c cur r)
          | (Inr sel, w') \<Rightarrow> w' = w \<and> sel_Route sel \<in> set (serving_routes (db w) service m) \<and>
               candidate_of w service c cur (sel_Route sel) = Some sel \<and>
               (\<forall>r\<in>set (serving_routes (db w) service m). eligible w service c cur r \<longrightarrow>
                  (pr_Priority (sel_Route sel), pr_CreatedAt (sel_Route sel)) \<le> (pr_Priority r, pr_CreatedAt r)))"
proof (cases "List.find (eligible w service c cur) (serving_routes (db w) service m)")
  case None
  moreover from this have "SelectProvider E service m country currency w = (Inl NoRouteAvailable, w)"
    using SelectProvider_clean [OF assms, of service m] by simp
  ultimately show ?thesis by (simp add: find_None_iff)
next
  case (Some r)
  then obtain sel where sel: "candidate_of w service c cur r = Some sel"
    by (auto dest: find_Some_in_set elim: eligibleE)
  have "(pr_Priority r, pr_CreatedAt r) \<le> (pr_Priority r', pr_CreatedAt r')"
    if "r' \<in> set (serving_routes (db w) service m)" "eligible w service c cur r'" for r'
    using sorted_find_least [OF Some [unfolded serving_routes_def], of r'] that
    by (auto simp: serving_routes_def)
  moreover have "SelectProvider E service m country currency w = (Inr sel, w)"
    using SelectProvider_clean [OF assms, of service m] Some sel by simp
  ultimately show ?thesis
    using Some sel candidate_of_SomeD(1) [OF sel] by (auto dest: find_Some_in_set)
qed

lemma SelectProvider_succeeds_iff:
  assumes "faults (db w) = []" and "NormalizeTransactionCountry (env_region E) country = Inr c"
    and "NormalizeCurrency currency = Inr cur"
  shows "(\<exists>sel. SelectProvider E service m country currency w = (Inr sel, w)) \<longleftrightarrow>
     (\<exists>r\<in>set (serving_routes (db w) service m). eligible w service c cur r)"
  by (subst SelectProvider_clean [OF assms]) (auto split: option.split simp: find_None_iff dest: find_Some_in_set)

text \<open>C14: with no statement failing, the listed payment methods are exactly the methods for
  which selection would find a provider, each listed once.\<close>

lemma available_methods_are_selectable:
  assumes "faults (db w) = []" and "NormalizeTransactionCountry (env_region E) country = Inr c"
    and "NormalizeCurrency currency = Inr cur"
    and "service = [] \<or> service = ServiceCollection \<or> service = ServiceDisbursement"
  shows "\<exists>ms. AvailablePaymentMethods E service country currency w = (Inr ms, w) \<and> distinct ms \<and>
     (\<forall>s m. (s, m) \<in> set ms \<longleftrightarrow>
        (service = [] \<or> s = service) \<and> (\<exists>sel. SelectProvider E s m country currency w = (Inr sel, w)))"
proof -
  define routes where
    "routes = selection_order (filter (\<lambda>r. pr_Active r \<and> (service = [] \<or> pr_ServiceType r = service)) (t_paymentRoutes (db w)))"
  obtain ms where ms: "available_methods c cur [] routes w = (Inr ms, w)" "distinct ms"
    "set ms = (\<lambda>r. (pr_ServiceType r, pr_PaymentMethod r)) ` {r\<in>set routes. listed w c cur r}"
    using available_methods_clean [OF assms(1), of c cur "[]" routes] by auto
  have "on_db (PaymentRoutes_Candidates service) w = (Inr routes, w)"
    by (simp add: PaymentRoutes_Candidates_def on_db_find_clean assms(1) routes_def)
  moreover have "failIf (service \<noteq> [] \<and> service \<noteq> ServiceCollection \<and> service \<noteq> ServiceDisbursement)
      (Msg ''service_type must be collection or disbursement'') w = (Inr (), w)"
    using assms(4) by (auto simp: failIf_def)
  ultimately have "AvailablePaymentMethods E service country currency w = (Inr ms, w)"
    using assms(2,3) ms(1) by (simp add: AvailablePaymentMethods_def bindE_liftE)
  moreover have "(s, m) \<in> set ms \<longleftrightarrow>
      (service = [] \<or> s = service) \<and> (\<exists>sel. SelectProvider E s m country currency w = (Inr sel, w))" for s m
    unfolding SelectProvider_succeeds_iff [OF assms(1-3)] ms(3)
    by (auto simp: routes_def selection_order_def set_serving_routes listed_def image_iff Bex_def)
  ultimately show ?thesis using ms(2) by blast
qed

section \<open>Selection on the sample engine\<close>

definition sample_selected :: "unit SelectedProvider" where
  "sample_selected = \<lparr>sel_Route = sample_route, sel_Account = sample_account, sel_Runtime = sample_runtime\<rparr>"

lemma sample_norms:
  "NormalizeTransactionCountry (env_region sample_env) ''ug'' = Inr ''UG''"
  "NormalizeTransactionCountry (env_region sample_env) ''UG'' = Inr ''UG''"
  "NormalizeCurrency ''ugx'' = Inr ''UGX''" "NormalizeCurrency ''UGX'' = Inr ''UGX''"
  by code_simp+

lemma sample_candidate:
  "candidate_of sample_world ServiceCollection ''UG'' ''UGX'' sample_route = Some sample_selected"
  by (simp add: candidate_of_def active_account_def sample_defs Get_def CircuitState_def circuit_state_def
      new_circuit_def health_ok_def sample_selected_def circuit_status_defs)

lemma sample_faults [simp]: "faults (db sample_world) = []"
  by (simp add: sample_defs)

lemma sample_serving:
  "serving_routes (db sample_world) ServiceCollection PaymentMethodMomo = [sample_route]"
  by (simp add: serving_routes_def sample_defs)

lemma sample_select:
  assumes "country \<in> set [''ug'', ''UG'']" and "currency \<in> set [''ugx'', ''UGX'']"
  shows "SelectProvider sample_env ServiceCollection PaymentMethodMomo country currency sample_world =
     (Inr sample_selected, sample_world)"
proof -
  have "NormalizeTransactionCountry (env_region sample_env) country = Inr ''UG''"
    "NormalizeCurrency currency = Inr ''UGX''"
    using assms sample_norms by auto
  from SelectProvider_clean [OF sample_faults this, of ServiceCollection PaymentMethodMomo]
  show ?thesis by (simp add: sample_serving eligible_def sample_candidate)
qed

lemma SelectProvider_sound_witness:
  "sel_Route sample_selected \<in> set (t_paymentRoutes (db sample_world)) \<and>
   NormalizeCurrency ''ugx'' = Inr (pa_Currency (sel_Account sample_selected))"
  using SelectProvider_sound [OF sample_select, of "''ug''" "''ugx''"] by simp

lemma SelectProvider_best_witness:
  "(case SelectProvider sample_env ServiceCollection PaymentMethodMomo ''ug'' ''ugx'' sample_world of
      (Inl e, w') \<Rightarrow> False | (Inr sel, w') \<Rightarrow> w' = sample_world \<and> sel_Route sel = sample_route)"
  using SelectProvider_best [OF sample_faults sample_norms(1,3), of ServiceCollection PaymentMethodMomo]
    sample_select [of "''ug''" "''ugx''"]
  by (simp add: sample_selected_def)

lemma available_methods_are_selectable_witness:
  "\<exists>ms. AvailablePaymentMethods sample_env [] ''ug'' ''ugx'' sample_world = (Inr ms, sample_world) \<and>
        (ServiceCollection, PaymentMethodMomo) \<in> set ms"
  using available_methods_are_selectable [OF sample_faults sample_norms(1,3), of "[]"]
    sample_select [of "''ug''" "''ugx''"] by fastforce

end
