(* ===== verification/Payment.thy ===== *)
theory Payment
  imports Routing
begin

text \<open>
  \<open>internal/service/payment\<close>: the orchestrator that turns a request into one transaction and
  one provider call, and the app-facing view of a transaction.

  \<open>Create\<close> is composed of three stages: \<open>begin_payment\<close> (every check up to and including the
  insert), \<open>call_provider\<close>, and \<open>persist\<close>. The engine is free to do other work between them,
  which the system model uses. The SHA-256 digest and the JSON encoding of a request are
  parameters of the environment.
\<close>

record CreatePaymentResponse =
  resp_TransactionID :: string
  resp_Reference :: string
  resp_ServiceType :: string
  resp_PaymentMethod :: string
  resp_Status :: string
  resp_SelectedProvider :: string
  resp_ProviderReference :: string
  resp_PlatformFee :: i64
  resp_Message :: string

definition paymentRequestHash :: "'p env \<Rightarrow> string \<Rightarrow> CreatePayment \<Rightarrow> string" where
  "paymentRequestHash E service req = SHA256Hex E (env_request_json E service req)"

definition payment_Get :: "string \<Rightarrow> string \<Rightarrow> string \<Rightarrow> ('p, Transaction) act" where
  "payment_Get appID field_name value = on_db (Transactions_ForApp appID field_name value)"

definition find_key :: "string \<Rightarrow> string \<Rightarrow> ('p, Transaction) act" where
  "find_key appID key = on_db (Transactions_ByIdempotencyKey appID key)"

definition replay :: "Transaction \<Rightarrow> string \<Rightarrow> err + CreatePaymentResponse" where
  "replay tx hash =
     (if tx_RequestHash tx \<noteq> hash then Inl (Msg ''idempotency key reused with a different request'')
      else Inr \<lparr>resp_TransactionID = tx_ID tx, resp_Reference = tx_Reference tx,
                resp_ServiceType = tx_ServiceType tx, resp_PaymentMethod = tx_PaymentMethod tx,
                resp_Status = tx_Status tx, resp_SelectedProvider = [],
                resp_ProviderReference = tx_ProviderReference tx, resp_PlatformFee = tx_PlatformFee tx,
                resp_Message = ''idempotent replay''\<rparr>)"

definition calculateCharge :: "ChargeSchedule \<Rightarrow> string \<Rightarrow> i64 \<Rightarrow> err + i64" where
  "calculateCharge charges service amount =
     Calculate (ChargeSchedule_Rule (ChargeSchedule_Normalize charges) service) amount"

section \<open>Create: checks and insert\<close>

definition request_event :: "string \<Rightarrow> string \<Rightarrow> CreatePayment \<Rightarrow> PaymentRequestEvent" where
  "request_event appID service req =
     (let party = CreatePayment_Party req service in
      \<lparr>pe_AppID = appID, pe_ServiceType = service, pe_PaymentMethod = cp_PaymentMethod req,
       pe_Amount = cp_Amount req, pe_Currency = cp_Currency req, pe_Country = cp_Country req,
       pe_Reference = cp_Reference req, pe_Account = cp_Account req, pe_Scheme = cp_Scheme req,
       pe_Description = cp_Description req,
       pe_PartyName = (case party of None \<Rightarrow> [] | Some p \<Rightarrow> party_Name p),
       pe_PartyEmail = (case party of None \<Rightarrow> [] | Some p \<Rightarrow> party_Email p)\<rparr>)"

definition run_request_hook :: "PaymentRequestEvent \<Rightarrow> ('p, unit) act" where
  "run_request_hook ev w = on_outside (RunPaymentRequest (hooks w) ev) w"

definition provider_request :: "string \<Rightarrow> string \<Rightarrow> CreatePayment \<Rightarrow> PaymentRequest" where
  "provider_request i service req =
     (let party = CreatePayment_Party req service in
      \<lparr>rq_TransactionID = i, rq_PaymentMethod = cp_PaymentMethod req, rq_Currency = cp_Currency req,
       rq_Country = cp_Country req, rq_Reference = cp_Reference req, rq_Account = cp_Account req,
       rq_Scheme = cp_Scheme req, rq_Metadata = cp_Metadata req,
       rq_Name = (case party of None \<Rightarrow> [] | Some p \<Rightarrow> party_Name p),
       rq_Email = (case party of None \<Rightarrow> [] | Some p \<Rightarrow> party_Email p),
       rq_Description = cp_Description req, rq_Amount = cp_Amount req\<rparr>)"

definition new_transaction ::
    "string \<Rightarrow> string \<Rightarrow> string \<Rightarrow> CreatePayment \<Rightarrow> string \<Rightarrow> 'p SelectedProvider \<Rightarrow> PaymentRequest \<Rightarrow>
     i64 \<Rightarrow> i64 \<Rightarrow> Transaction" where
  "new_transaction appID service key req hash sel call providerFee platformFee =
     \<lparr>tx_ID = rq_TransactionID call, tx_CreatedAt = 0, tx_UpdatedAt = 0, tx_AppID = appID,
      tx_ServiceType = service, tx_PaymentMethod = cp_PaymentMethod req, tx_Amount = cp_Amount req,
      tx_Currency = cp_Currency req, tx_Country = cp_Country req, tx_Reference = cp_Reference req,
      tx_IdempotencyKey = key, tx_Status = TxProcessing, tx_SelectedRouteID = pr_ID (sel_Route sel),
      tx_SelectedProviderAccountID = pa_ID (sel_Account sel), tx_ProviderReference = [],
      tx_CustomerAccount = rq_Account call,
      tx_CustomerEmail = (case CreatePayment_Party req service of None \<Rightarrow> [] | Some p \<Rightarrow> party_Email p),
      tx_CustomerName = (case CreatePayment_Party req service of None \<Rightarrow> [] | Some p \<Rightarrow> party_Name p),
      tx_Description = cp_Description req, tx_ProviderFee = providerFee, tx_PlatformFee = platformFee,
      tx_RequestHash = hash, tx_ReconciliationAttempts = 0, tx_LastReconciledAt = None,
      tx_NextReconcileAt = None\<rparr>"

definition new_attempt ::
    "string \<Rightarrow> Transaction \<Rightarrow> 'p SelectedProvider \<Rightarrow> string \<Rightarrow> time \<Rightarrow> TransactionAttempt" where
  "new_attempt i tx sel hash started =
     \<lparr>att_ID = i, att_CreatedAt = 0, att_TransactionID = tx_ID tx,
      att_ProviderAccountID = pa_ID (sel_Account sel), att_ProviderCode = rt_ProviderCode (sel_Runtime sel),
      att_ProviderReference = [], att_Status = TxProcessing, att_RequestHash = hash, att_ErrorCode = [],
      att_ErrorMessage = [], att_RawResponse = [], att_StartedAt = started, att_CompletedAt = None\<rparr>"

text \<open>Everything between the idempotency lookup and the insert.\<close>

definition assemble ::
    "'p env \<Rightarrow> string \<Rightarrow> string \<Rightarrow> string \<Rightarrow> CreatePayment \<Rightarrow> string \<Rightarrow>
     ('p, Transaction \<times> TransactionAttempt \<times> PaymentRequest \<times> 'p SelectedProvider) act" where
  "assemble E appID service key req hash =
     bindE (on_db (Apps_ActiveByID appID)) (\<lambda>app.
     bindE (failIf (cp_Currency req \<noteq> app_Currency app)
              (Msg (''currency must match app currency '' @ app_Currency app))) (\<lambda>_.
     bindE (run_request_hook (request_event appID service req)) (\<lambda>_.
     bindE (SelectProvider E service (cp_PaymentMethod req) (cp_Country req) (cp_Currency req)) (\<lambda>sel.
     bindE (NewID ''txn'') (\<lambda>i.
     bindE (ValidateRequest (pa_ID (sel_Account sel)) (provider_request i service req)) (\<lambda>call.
     bindE (wrapE ''calculate provider fee''
              (liftE (calculateCharge (pa_Charges (sel_Account sel)) service (rq_Amount call)))) (\<lambda>providerFee.
     bindE (wrapE ''calculate platform fee''
              (liftE (calculateCharge (app_Charges app) service (rq_Amount call)))) (\<lambda>platformFee.
     let tx = new_transaction appID service key req hash sel call providerFee platformFee in
     bindE (NewID ''att'') (\<lambda>ai.
     bindE Now (\<lambda>started.
     returnE (tx, new_attempt ai tx sel hash started, call, sel)))))))))))"

definition insert_payment :: "Transaction \<Rightarrow> TransactionAttempt \<Rightarrow> ('p, Transaction \<times> TransactionAttempt) act" where
  "insert_payment tx attempt =
     Within (
       bindE (on_db_now (\<lambda>t. Transactions_Create t tx)) (\<lambda>tx.
       bindE (on_db_now (\<lambda>t. TransactionAttempts_Create t attempt)) (\<lambda>attempt.
       returnE (tx, attempt))))"

datatype 'p begun =
    Answered CreatePaymentResponse
  | Admitted Transaction TransactionAttempt PaymentRequest "'p SelectedProvider"

definition begin_payment ::
    "'p env \<Rightarrow> string \<Rightarrow> string \<Rightarrow> string \<Rightarrow> CreatePayment \<Rightarrow> ('p, 'p begun) act" where
  "begin_payment E appID service key req =
     bindE (liftE (Check_CreatePayment (env_region E) req)) (\<lambda>req.
     bindE (failIf (trim_space key = []) (Msg ''Idempotency-Key header is required'')) (\<lambda>_.
     let hash = paymentRequestHash E service req in
     handleE (find_key appID key) (\<lambda>found.
     case found of
       Inr tx \<Rightarrow> bindE (liftE (replay tx hash)) (\<lambda>r. returnE (Answered r))
     | Inl e \<Rightarrow>
         if \<not> IsNotFound e then throwE e
         else
           bindE (assemble E appID service key req hash) (\<lambda>(tx, attempt, call, sel).
           handleE (insert_payment tx attempt) (\<lambda>inserted.
           case inserted of
             Inr (tx, attempt) \<Rightarrow> returnE (Admitted tx attempt call sel)
           | Inl e \<Rightarrow>
               handleE (find_key appID key) (\<lambda>existing.
               case existing of
                 Inr tx \<Rightarrow> bindE (liftE (replay tx hash)) (\<lambda>r. returnE (Answered r))
               | Inl _ \<Rightarrow> throwE e))))))"

section \<open>Create: the provider call and its outcome\<close>

definition call_provider :: "string \<Rightarrow> string \<Rightarrow> PaymentRequest \<Rightarrow> ('p, ProviderPaymentResponse option) act" where
  "call_provider service i call = (if service = ServiceCollection then Collect i call else Disburse i call)"

text \<open>What \<open>persist\<close> writes: the in-memory transaction, the updates of the attempt and of the
  transaction row, and the message.\<close>

definition persist_plan ::
    "'p env \<Rightarrow> time \<Rightarrow> Transaction \<Rightarrow> err + ProviderPaymentResponse option \<Rightarrow>
     err + (Transaction \<times> (TransactionAttempt \<Rightarrow> TransactionAttempt) \<times> (Transaction \<Rightarrow> Transaction) \<times> string)" where
  "persist_plan E t tx result =
     (let complete = (\<lambda>tx a. if Terminal (tx_Status tx) then a\<lparr>att_CompletedAt := Some t\<rparr> else a);
          next_at = (\<lambda>tx. if Terminal (tx_Status tx) then None else Some (t + minute));
          unknown = (\<lambda>cause.
            case Transition (Some tx) TxUnknown of
              Inl e \<Rightarrow> Inl e
            | Inr tx \<Rightarrow>
                Inr (tx,
                  \<lambda>a. complete tx (a\<lparr>att_Status := tx_Status tx, att_ErrorCode := ''PROVIDER_ERROR'',
                                     att_ErrorMessage := Redact (error_text cause)\<rparr>),
                  \<lambda>r. r\<lparr>tx_NextReconcileAt := next_at tx, tx_Status := tx_Status tx\<rparr>,
                  ''provider response unknown''))
      in case result of
           Inl cause \<Rightarrow> unknown cause
         | Inr None \<Rightarrow> unknown (Msg ''provider returned no response'')
         | Inr (Some result) \<Rightarrow>
             (case Transition (Some tx) (PaymentStatus (rs_Status result)) of
                Inl e \<Rightarrow> Inl e
              | Inr tx \<Rightarrow>
                  let tx = tx\<lparr>tx_ProviderReference := rs_ProviderReference result\<rparr>;
                      raw = env_map_json E (RedactRawMap (rs_Raw result))
                  in Inr (tx,
                       \<lambda>a. complete tx (a\<lparr>att_Status := tx_Status tx,
                              att_ProviderReference := tx_ProviderReference tx, att_RawResponse := raw\<rparr>),
                       \<lambda>r. r\<lparr>tx_NextReconcileAt := next_at tx, tx_Status := tx_Status tx,
                             tx_ProviderReference := tx_ProviderReference tx\<rparr>,
                       rs_Message result)))"

definition changed_event :: "string \<Rightarrow> string \<Rightarrow> Transaction \<Rightarrow> TransactionChangedEvent" where
  "changed_event source previous tx =
     \<lparr>ce_Source = source, ce_AppID = tx_AppID tx, ce_TransactionID = tx_ID tx, ce_Reference = tx_Reference tx,
      ce_ServiceType = tx_ServiceType tx, ce_PaymentMethod = tx_PaymentMethod tx, ce_Amount = tx_Amount tx,
      ce_Currency = tx_Currency tx, ce_Country = tx_Country tx, ce_PreviousStatus = previous,
      ce_Status = tx_Status tx, ce_ProviderAccountID = tx_SelectedProviderAccountID tx,
      ce_ProviderReference = tx_ProviderReference tx\<rparr>"

definition notify_changed :: "TransactionChangedEvent \<Rightarrow> ('p, unit) act" where
  "notify_changed ev = modify (\<lambda>w. w\<lparr>outside := NotifyTransactionChanged (hooks w) ev (outside w)\<rparr>)"

definition persist ::
    "'p env \<Rightarrow> Transaction \<Rightarrow> TransactionAttempt \<Rightarrow> string \<Rightarrow> err + ProviderPaymentResponse option \<Rightarrow>
     ('p, CreatePaymentResponse) act" where
  "persist E tx attempt providerCode result =
     bindE Now (\<lambda>t.
     bindE (liftE (persist_plan E t tx result)) (\<lambda>(tx, attemptUpdates, txUpdates, message).
     bindE (wrapE ''provider result persistence failed'' (Within (
       bindE (on_db (TransactionAttempts_Update (att_ID attempt) attemptUpdates)) (\<lambda>_.
       on_db_now (\<lambda>s. Transactions_Update s (tx_ID tx) txUpdates))))) (\<lambda>_.
     bindE (notify_changed (changed_event TransactionSourceRequest TxPending tx)) (\<lambda>_.
     returnE
       \<lparr>resp_TransactionID = tx_ID tx, resp_Reference = tx_Reference tx,
        resp_ServiceType = tx_ServiceType tx, resp_PaymentMethod = tx_PaymentMethod tx,
        resp_Status = tx_Status tx, resp_SelectedProvider = providerCode,
        resp_ProviderReference = tx_ProviderReference tx, resp_PlatformFee = tx_PlatformFee tx,
        resp_Message = message\<rparr>))))"

definition payment_Create ::
    "'p env \<Rightarrow> string \<Rightarrow> string \<Rightarrow> string \<Rightarrow> CreatePayment \<Rightarrow> ('p, CreatePaymentResponse) act" where
  "payment_Create E appID service key req =
     bindE (begin_payment E appID service key req) (\<lambda>b.
     case b of
       Answered r \<Rightarrow> returnE r
     | Admitted tx attempt call sel \<Rightarrow>
         handleE (call_provider service (pa_ID (sel_Account sel)) call) (\<lambda>result.
         persist E tx attempt (rt_ProviderCode (sel_Runtime sel)) result))"

section \<open>transaction.go\<close>

record AppTransaction =
  atx_ID :: string
  atx_AppID :: string
  atx_ServiceType :: string
  atx_PaymentMethod :: string
  atx_Amount :: i64
  atx_Currency :: string
  atx_Country :: string
  atx_Reference :: string
  atx_IdempotencyKey :: string
  atx_Status :: string
  atx_SelectedRouteID :: string
  atx_SelectedProviderAccountID :: string
  atx_ProviderReference :: string
  atx_CustomerAccount :: string
  atx_CustomerEmail :: string
  atx_CustomerName :: string
  atx_Description :: string
  atx_PlatformFee :: i64
  atx_ReconciliationAttempts :: int
  atx_LastReconciledAt :: "time option"
  atx_NextReconcileAt :: "time option"
  atx_CreatedAt :: time
  atx_UpdatedAt :: time

definition PublicTransaction :: "Transaction \<Rightarrow> AppTransaction" where
  "PublicTransaction tx =
     \<lparr>atx_ID = tx_ID tx, atx_AppID = tx_AppID tx, atx_ServiceType = tx_ServiceType tx,
      atx_PaymentMethod = tx_PaymentMethod tx, atx_Amount = tx_Amount tx, atx_Currency = tx_Currency tx,
      atx_Country = tx_Country tx, atx_Reference = tx_Reference tx,
      atx_IdempotencyKey = tx_IdempotencyKey tx, atx_Status = tx_Status tx,
      atx_SelectedRouteID = tx_SelectedRouteID tx,
      atx_SelectedProviderAccountID = tx_SelectedProviderAccountID tx,
      atx_ProviderReference = tx_ProviderReference tx, atx_CustomerAccount = tx_CustomerAccount tx,
      atx_CustomerEmail = tx_CustomerEmail tx, atx_CustomerName = tx_CustomerName tx,
      atx_Description = tx_Description tx, atx_PlatformFee = tx_PlatformFee tx,
      atx_ReconciliationAttempts = tx_ReconciliationAttempts tx,
      atx_LastReconciledAt = tx_LastReconciledAt tx, atx_NextReconcileAt = tx_NextReconcileAt tx,
      atx_CreatedAt = tx_CreatedAt tx, atx_UpdatedAt = tx_UpdatedAt tx\<rparr>"

end
