(* ===== verification/Webhook.thy ===== *)
theory Webhook
  imports Payment
begin

text \<open>
  \<open>internal/service/webhook/service.go\<close>: authentication, verification, deduplication and
  application of provider callbacks, and the retry of stored events. A missing header
  reads as the empty string.
\<close>

definition header :: "(string \<times> string) list \<Rightarrow> string \<Rightarrow> string" where
  "header hs k = (case map_of hs k of None \<Rightarrow> [] | Some v \<Rightarrow> v)"

definition canonicalWebhookHash :: "'p env \<Rightarrow> string \<Rightarrow> ProviderWebhookEvent \<Rightarrow> string" where
  "canonicalWebhookHash E accountID ev =
     SHA256Hex E (join_with ''|''
       [accountID, ev_ProviderReference ev, ev_EventType ev, ev_Status ev, ev_ExternalReference ev,
        (case ev_Amount ev of None \<Rightarrow> [] | Some a \<Rightarrow> format_int (sint a)), to_upper (ev_Currency ev)])"

definition webhook_secret_of :: "(string \<times> string) list \<Rightarrow> string" where
  "webhook_secret_of headers =
     (let secret = header headers ''X-Webhook-Secret''
      in if secret = [] then header headers ''x-webhook-secret'' else secret)"

definition verify :: "'p env \<Rightarrow> string \<Rightarrow> string \<Rightarrow> (string \<times> string) list \<Rightarrow> ('p, verifiedWebhook) act" where
  "verify E accountID payload headers w =
     (case Get w accountID of
        None \<Rightarrow> (Inl (Msg ''provider webhook is not initialized''), w)
      | Some rp \<Rightarrow>
          if rt_WebhookSecret rp = [] then (Inl (Msg ''provider webhook is not initialized''), w)
          else if webhook_secret_of headers \<noteq> rt_WebhookSecret rp then (Inl (Msg ''invalid webhook secret''), w)
          else
            bindE (VerifyWebhook accountID payload headers) (\<lambda>ev.
            bindE (failIf (ev_ProviderReference ev = []) (Msg ''invalid provider reference'')) (\<lambda>_.
            let ev = ev\<lparr>ev_Currency := to_upper (ev_Currency ev), ev_Country := to_upper (ev_Country ev),
                        ev_Raw := RedactRawMap (ev_Raw ev)\<rparr>
            in returnE \<lparr>vw_Event = ev, vw_ProviderAccountID = accountID,
                        vw_PayloadHash = canonicalWebhookHash E accountID ev\<rparr>)) w)"

definition validateWebhook :: "ProviderWebhookEvent \<Rightarrow> Transaction \<Rightarrow> err + unit" where
  "validateWebhook ev tx =
     (if (case ev_Amount ev of None \<Rightarrow> False | Some a \<Rightarrow> a \<noteq> tx_Amount tx) \<or>
         ev_Currency ev \<noteq> [] \<and> \<not> equal_fold (ev_Currency ev) (tx_Currency tx) \<or>
         ev_Country ev \<noteq> [] \<and> \<not> equal_fold (ev_Country ev) (tx_Country tx) \<or>
         ev_ExternalReference ev \<noteq> [] \<and> ev_ExternalReference ev \<noteq> tx_Reference tx \<or>
         ev_Account ev \<noteq> [] \<and> ev_Account ev \<noteq> tx_CustomerAccount tx
      then Inl (Msg ''webhook payload does not match transaction'') else Inr ())"

definition findWebhookTarget :: "string \<Rightarrow> string \<Rightarrow> ('p, Transaction \<times> TransactionAttempt) act" where
  "findWebhookTarget accountID ref =
     bindE (on_db (TransactionAttempts_LatestForReference accountID ref)) (\<lambda>attempt.
     bindE (on_db (Transactions_LockForUpdate (att_TransactionID attempt))) (\<lambda>tx.
     returnE (tx, attempt)))"

text \<open>The updates of an applied event at time \<open>t\<close>; \<open>tx\<close> carries the new status.\<close>

definition webhook_tx_updates :: "time \<Rightarrow> Transaction \<Rightarrow> ProviderWebhookEvent \<Rightarrow> Transaction \<Rightarrow> Transaction" where
  "webhook_tx_updates t tx ev r =
     r\<lparr>tx_Status := tx_Status tx, tx_ProviderReference := ev_ProviderReference ev,
       tx_NextReconcileAt := (if Terminal (tx_Status tx) then None else Some (t + minute))\<rparr>"

definition webhook_attempt_updates ::
    "'p env \<Rightarrow> time \<Rightarrow> Transaction \<Rightarrow> ProviderWebhookEvent \<Rightarrow> TransactionAttempt \<Rightarrow> TransactionAttempt" where
  "webhook_attempt_updates E t tx ev a =
     (let a = a\<lparr>att_Status := tx_Status tx, att_ProviderReference := ev_ProviderReference ev,
               att_RawResponse := env_map_json E (ev_Raw ev)\<rparr>
      in if Terminal (tx_Status tx) then a\<lparr>att_CompletedAt := Some t\<rparr> else a)"

definition apply_event ::
    "'p env \<Rightarrow> string \<Rightarrow> verifiedWebhook \<Rightarrow> ('p, TransactionChangedEvent option) act" where
  "apply_event E rowID event =
     (let ev = vw_Event event in
      handleE (findWebhookTarget (vw_ProviderAccountID event) (ev_ProviderReference ev)) (\<lambda>target.
      case target of
        Inl e \<Rightarrow> if IsNotFound e then returnE None else throwE e
      | Inr (tx, attempt) \<Rightarrow>
          bindE (liftE (validateWebhook ev tx)) (\<lambda>_.
          let previous = tx_Status tx in
          bindE (liftE (Transition (Some tx) (ev_Status ev))) (\<lambda>tx.
          bindE Now (\<lambda>t.
          bindE (on_db_now (\<lambda>s. Transactions_Update s (tx_ID tx) (webhook_tx_updates t tx ev))) (\<lambda>_.
          bindE (on_db (TransactionAttempts_Update (att_ID attempt) (webhook_attempt_updates E t tx ev))) (\<lambda>_.
          bindE (on_db (WebhookEvents_MarkProcessed rowID (tx_ID tx))) (\<lambda>_.
          if previous = tx_Status tx then returnE None
          else returnE (Some ((changed_event TransactionSourceWebhook previous tx)
                 \<lparr>ce_ProviderAccountID := vw_ProviderAccountID event,
                  ce_ProviderReference := ev_ProviderReference ev\<rparr>))))))))))"

definition notify_option :: "TransactionChangedEvent option \<Rightarrow> ('p, unit) act" where
  "notify_option change = (case change of None \<Rightarrow> returnE () | Some ev \<Rightarrow> notify_changed ev)"

definition webhook_row :: "string \<Rightarrow> string \<Rightarrow> verifiedWebhook \<Rightarrow> string \<Rightarrow> WebhookEvent" where
  "webhook_row i accountID event stored =
     \<lparr>we_ID = i, we_CreatedAt = 0, we_ProviderAccountID = accountID,
      we_ProviderReference = ev_ProviderReference (vw_Event event), we_TransactionID = [],
      we_EventType = ev_EventType (vw_Event event), we_PayloadHash = vw_PayloadHash event,
      we_Processed = False, we_PayloadJSON = stored\<rparr>"

definition store_and_apply ::
    "'p env \<Rightarrow> WebhookEvent \<Rightarrow> verifiedWebhook \<Rightarrow> ('p, TransactionChangedEvent option) act" where
  "store_and_apply E row event =
     Within (
       bindE (on_db_now (\<lambda>t. WebhookEvents_Insert t row)) (\<lambda>inserted.
       if \<not> inserted then returnE None else apply_event E (we_ID row) event))"

definition webhook_Handle ::
    "'p env \<Rightarrow> string \<Rightarrow> string \<Rightarrow> (string \<times> string) list \<Rightarrow> ('p, unit) act" where
  "webhook_Handle E accountID payload headers =
     bindE (verify E accountID payload headers) (\<lambda>event.
     bindE (liftE (env_event_json E event)) (\<lambda>stored.
     bindE (NewID ''wh'') (\<lambda>i.
     bindE (store_and_apply E (webhook_row i accountID event stored) event) notify_option)))"

text \<open>An event that does not decode is skipped; an event that does not apply ends the run
  unless what it names does not exist.\<close>

fun reprocess_rows :: "'p env \<Rightarrow> WebhookEvent list \<Rightarrow> ('p, unit) act" where
  "reprocess_rows E [] = returnE ()"
| "reprocess_rows E (row # rows) =
     (case env_event_of_json E (we_PayloadJSON row) of
        Inl _ \<Rightarrow> reprocess_rows E rows
      | Inr event \<Rightarrow>
          handleE (Within (apply_event E (we_ID row) event)) (\<lambda>r.
          case r of
            Inl e \<Rightarrow> if \<not> IsNotFound e then throwE e else reprocess_rows E rows
          | Inr change \<Rightarrow> bindE (notify_option change) (\<lambda>_. reprocess_rows E rows)))"

definition ReprocessPending :: "'p env \<Rightarrow> int \<Rightarrow> ('p, unit) act" where
  "ReprocessPending E limit =
     bindE (on_db (WebhookEvents_Pending (if limit < 1 then 100 else limit))) (\<lambda>rows.
     reprocess_rows E rows)"

end
