(* ===== verification/Reconciliation.thy ===== *)
theory Reconciliation
  imports Webhook
begin

text \<open>
  \<open>internal/service/reconciliation/service.go\<close>: asking providers about unsettled
  transactions and retrying stored webhook events. \<open>reconcile\<close> is the provider query
  followed by \<open>settle\<close>, which re-reads the row under the lock.
\<close>

definition backoff :: "int \<Rightarrow> duration" where
  "backoff attempt =
     (let attempt = (if attempt < 1 then 1 else attempt);
          attempt = (if attempt > 6 then 6 else attempt)
      in int (push_bit (nat (attempt - 1)) 1) * minute)"

definition reconcile_update :: "time \<Rightarrow> Transaction \<Rightarrow> time option \<Rightarrow> Transaction \<Rightarrow> Transaction" where
  "reconcile_update t tx next_at r =
     (CountReconcileAttempt r)\<lparr>tx_Status := tx_Status tx, tx_LastReconciledAt := Some t,
                              tx_NextReconcileAt := next_at\<rparr>"

definition settle_answer ::
    "Transaction \<Rightarrow> string \<Rightarrow> ('p, TransactionChangedEvent option) act" where
  "settle_answer row target =
     Within (
       bindE (on_db (Transactions_LockForUpdate (tx_ID row))) (\<lambda>tx.
       if Terminal (tx_Status tx) then returnE None
       else
         let previous = tx_Status tx in
         bindE (liftE (Transition (Some tx) target)) (\<lambda>tx.
         bindE Now (\<lambda>t.
         let next_at = (if Terminal (tx_Status tx) then None
                        else Some (t + backoff (tx_ReconciliationAttempts tx + 1))) in
         bindE (on_db_now (\<lambda>s. Transactions_UpdateFromStatus s (tx_ID tx) previous
                                 (reconcile_update t tx next_at))) (\<lambda>applied.
         if \<not> applied then returnE None
         else
           bindE (on_db (TransactionAttempts_LatestForTransaction (tx_ID tx)
                           (tx_SelectedProviderAccountID tx))) (\<lambda>attempt.
           bindE (on_db (TransactionAttempts_Update (att_ID attempt) (\<lambda>a.
             let a = a\<lparr>att_Status := tx_Status tx, att_ErrorCode := [], att_ErrorMessage := []\<rparr>
             in if Terminal (tx_Status tx) then a\<lparr>att_CompletedAt := Some t\<rparr> else a))) (\<lambda>_.
           if previous \<noteq> tx_Status tx
           then returnE (Some (changed_event TransactionSourceReconciliation previous tx))
           else returnE None)))))))"

definition settle_failure :: "Transaction \<Rightarrow> ('p, TransactionChangedEvent option) act" where
  "settle_failure row =
     Within (
       bindE (on_db (Transactions_LockForUpdate (tx_ID row))) (\<lambda>tx.
       if Terminal (tx_Status tx) then returnE None
       else
         bindE Now (\<lambda>t.
         let previous = tx_Status tx in
         bindE (liftE (Transition (Some tx) TxUnknown)) (\<lambda>tx.
         let next_at = t + backoff (tx_ReconciliationAttempts tx + 1) in
         bindE (on_db_now (\<lambda>s. Transactions_UpdateFromStatus s (tx_ID tx) previous
                                 (reconcile_update t tx (Some next_at)))) (\<lambda>_.
         if previous \<noteq> tx_Status tx
         then returnE (Some (changed_event TransactionSourceReconciliation previous tx))
         else returnE None)))))"

definition deferRetry :: "Transaction \<Rightarrow> err \<Rightarrow> ('p, unit) act" where
  "deferRetry row cause =
     bindE (settle_failure row) (\<lambda>change.
     bindE (notify_option change) (\<lambda>_. throwE cause))"

definition settle :: "Transaction \<Rightarrow> err + ProviderTransactionStatus \<Rightarrow> ('p, unit) act" where
  "settle row result =
     (case result of
        Inl e \<Rightarrow> (\<lambda>w. if gone (outside w) then (Inl CtxErr, w) else deferRetry row e w)
      | Inr status \<Rightarrow> bindE (settle_answer row (PaymentStatus (ts_Status status))) notify_option)"

definition reconcile :: "Transaction \<Rightarrow> ('p, unit) act" where
  "reconcile row =
     handleE (QueryTransaction (tx_SelectedProviderAccountID row) (tx_ProviderReference row) (tx_Country row))
       (settle row)"

text \<open>Each due row is reconciled whatever happened to the others; then stored webhooks are
  retried; the errors are joined.\<close>

definition RunOnce :: "'p env \<Rightarrow> bool \<Rightarrow> int \<Rightarrow> ('p, unit) act" where
  "RunOnce E has_webhook limit =
     (let limit = (if limit < 1 then 100 else limit) in
      bindE Now (\<lambda>t.
      bindE (on_db (Transactions_DueForReconciliation t limit)) (\<lambda>rows w.
      case each_joined reconcile (\<lambda>_ e. e) rows w of
        (errs, w) \<Rightarrow>
          if has_webhook then
            (case ReprocessPending E limit w of
               (Inl e, w) \<Rightarrow> (errors_join (errs @ [e]), w)
             | (Inr _, w) \<Rightarrow> (errors_join errs, w))
          else (errors_join errs, w))))"

lemma backoff_values:
  "backoff n = (if n \<le> 1 then 1 else if n = 2 then 2 else if n = 3 then 4 else if n = 4 then 8
                else if n = 5 then 16 else 32) * minute"
proof -
  consider "n \<le> 1" | "n = 2" | "n = 3" | "n = 4" | "n = 5" | "n = 6" | "6 < n" by linarith
  then show ?thesis by cases (auto simp: backoff_def Let_def push_bit_eq_mult)
qed

end
