(* ===== verification/Ledger.thy ===== *)
theory Ledger
  imports Reconciliation
begin

text \<open>
  What the engine's operations do to the table of transactions: which leave it alone,
  how a row may change, and when a row that reached a terminal status keeps it.
\<close>

abbreviation txs :: "'p world \<Rightarrow> Transaction list" where "txs w \<equiv> t_transactions (db w)"
abbreviation atts :: "'p world \<Rightarrow> TransactionAttempt list" where "atts w \<equiv> t_attempts (db w)"
abbreviation events :: "'p world \<Rightarrow> WebhookEvent list" where "events w \<equiv> t_webhookEvents (db w)"

section \<open>Operations that leave the tables of payments alone\<close>

definition same_pay :: "'p world \<Rightarrow> 'p world \<Rightarrow> bool" where
  "same_pay w w' \<longleftrightarrow> txs w' = txs w \<and> atts w' = atts w \<and> events w' = events w"

definition db_same_pay :: "db \<Rightarrow> db \<Rightarrow> bool" where
  "db_same_pay d d' \<longleftrightarrow> t_transactions d' = t_transactions d \<and> t_attempts d' = t_attempts d \<and>
     t_webhookEvents d' = t_webhookEvents d"

interpretation same_pay: world_relation same_pay
  by unfold_locales (auto simp: same_pay_def)

interpretation db_same_pay: db_relation db_same_pay
  by unfold_locales (auto simp: db_same_pay_def)

lemma same_pay_db: "moves db_same_pay m \<Longrightarrow> moves same_pay (on_db m)"
  by (rule same_pay.moves_on_db [where Q = db_same_pay]) (auto simp: db_same_pay_def same_pay_def)

lemma same_pay_db_now: "(\<And>t. moves db_same_pay (m t)) \<Longrightarrow> moves same_pay (on_db_now m)"
  by (rule same_pay.moves_on_db_now [where Q = db_same_pay]) (auto simp: db_same_pay_def same_pay_def)

lemma same_pay_outside: "moves same_pay (on_outside m)"
  by (rule same_pay.moves_on_outside) (simp add: same_pay_def)

lemma same_pay_NewID: "moves same_pay (NewID prefix)"
  by (rule same_pay.moves_NewID) (simp add: same_pay_def)

lemma moves_weaken: "moves R m \<Longrightarrow> (\<And>w w'. R w w' \<Longrightarrow> S w w') \<Longrightarrow> moves S m"
  by (simp add: moves_def)

lemma engine_same_pay: "engine_same w w' \<Longrightarrow> same_pay w w'"
  by (simp add: engine_same_def same_pay_def)

lemma reads_same_pay: "reads w w' \<Longrightarrow> same_pay w w'"
  by (auto simp: reads_def same_pay_def)

lemma reads_db: "reads w w' \<Longrightarrow> \<exists>bs. db w' = (db w)\<lparr>faults := bs\<rparr>"
  unfolding reads_def by (elim conjE exE) (rule exI, simp)

lemmas same_pay_calls =
  same_Collect [THEN moves_weaken, OF engine_same_pay]
  same_Disburse [THEN moves_weaken, OF engine_same_pay]
  same_QueryTransaction [THEN moves_weaken, OF engine_same_pay]
  same_ValidateRequest [THEN moves_weaken, OF engine_same_pay]
  same_VerifyWebhook [THEN moves_weaken, OF engine_same_pay]
  reads_SelectProvider [THEN moves_weaken, OF reads_same_pay]

lemma same_pay_notify: "moves same_pay (notify_changed ev)"
  unfolding notify_changed_def by (rule same_pay.moves_modify) (simp add: same_pay_def)

lemma same_pay_notify_option: "moves same_pay (notify_option change)"
  unfolding notify_option_def
  by (auto intro: same_pay_notify same_pay.moves_intros split: option.split)

lemma same_pay_call_provider: "moves same_pay (call_provider service i call)"
  unfolding call_provider_def by (auto intro: same_pay_calls)

lemma same_pay_first: "moves same_pay (on_db (base_first rows P))"
  by (intro same_pay_db db_same_pay.moves_reads)

lemma same_pay_find: "moves same_pay (on_db (base_find rows ord P))"
  by (intro same_pay_db db_same_pay.moves_reads)

lemma same_pay_run_request_hook: "moves same_pay (run_request_hook ev)"
  by (rule movesI) (auto simp: run_request_hook_def same_pay_def on_outside_def split: prod.splits)

lemma same_pay_find_key: "moves same_pay (find_key appID key)"
  unfolding find_key_def Transactions_ByIdempotencyKey_def by (rule same_pay_first)

lemma same_pay_wrapE: "moves same_pay m \<Longrightarrow> moves same_pay (wrapE prefix m)"
  unfolding wrapE_def
  by (rule same_pay.moves_handleE) (auto intro: same_pay.moves_intros split: sum.split)

lemma same_pay_assemble: "moves same_pay (assemble E appID service key req hash)"
  unfolding assemble_def Apps_ActiveByID_def Let_def
  by (intro same_pay.moves_bindE same_pay_first same_pay.moves_failIf same_pay_run_request_hook
      same_pay_calls same_pay_NewID same_pay_wrapE same_pay.moves_liftE same_pay.moves_Now
      same_pay.moves_returnE)

section \<open>How a row may change\<close>

text \<open>Nothing but the status, the provider reference, the reconciliation fields and the update
  stamp.\<close>

definition tx_frame :: "Transaction \<Rightarrow> Transaction \<Rightarrow> bool" where
  "tx_frame t t' \<longleftrightarrow>
     t' = t\<lparr>tx_UpdatedAt := tx_UpdatedAt t', tx_Status := tx_Status t',
            tx_ProviderReference := tx_ProviderReference t',
            tx_ReconciliationAttempts := tx_ReconciliationAttempts t',
            tx_LastReconciledAt := tx_LastReconciledAt t', tx_NextReconcileAt := tx_NextReconcileAt t'\<rparr>"

lemma tx_frame_refl [simp]: "tx_frame t t"
  by (simp add: tx_frame_def)

lemma tx_frame_trans: "tx_frame a b \<Longrightarrow> tx_frame b c \<Longrightarrow> tx_frame a c"
  unfolding tx_frame_def by (cases a; cases b; cases c) simp

lemma tx_frame_fields:
  assumes "tx_frame t t'"
  shows "tx_ID t' = tx_ID t" "tx_AppID t' = tx_AppID t" "tx_IdempotencyKey t' = tx_IdempotencyKey t"
    "tx_Reference t' = tx_Reference t" "tx_Amount t' = tx_Amount t" "tx_RequestHash t' = tx_RequestHash t"
    "tx_Currency t' = tx_Currency t" "tx_Country t' = tx_Country t"
    "tx_ServiceType t' = tx_ServiceType t" "tx_CustomerAccount t' = tx_CustomerAccount t"
    "tx_ProviderFee t' = tx_ProviderFee t" "tx_PlatformFee t' = tx_PlatformFee t"
  using assms unfolding tx_frame_def by (cases t; cases t'; simp)+

lemma tx_frame_webhook: "tx_frame r ((webhook_tx_updates t tx ev r)\<lparr>tx_UpdatedAt := s\<rparr>)"
  by (simp add: tx_frame_def webhook_tx_updates_def)

lemma tx_frame_reconcile: "tx_frame r ((reconcile_update t tx next_at r)\<lparr>tx_UpdatedAt := s\<rparr>)"
  by (simp add: tx_frame_def reconcile_update_def CountReconcileAttempt_def)

text \<open>A row and its later self: only the mutable fields moved, and a terminal status stayed.\<close>

definition tx_step :: "Transaction \<Rightarrow> Transaction \<Rightarrow> bool" where
  "tx_step t t' \<longleftrightarrow> tx_frame t t' \<and> (Terminal (tx_Status t) \<longrightarrow> tx_Status t' = tx_Status t)"

lemma tx_step_refl [simp]: "tx_step t t"
  by (simp add: tx_step_def)

lemma tx_step_trans: "tx_step a b \<Longrightarrow> tx_step b c \<Longrightarrow> tx_step a c"
  using tx_frame_trans by (auto simp: tx_step_def)

text \<open>A table and its later self: old rows in place, new rows behind them.\<close>

definition grows :: "('r \<Rightarrow> 'r \<Rightarrow> bool) \<Rightarrow> 'r list \<Rightarrow> 'r list \<Rightarrow> bool" where
  "grows P xs ys \<longleftrightarrow> length xs \<le> length ys \<and> list_all2 P xs (take (length xs) ys)"

lemma grows_refl: "(\<And>x. P x x) \<Longrightarrow> grows P xs xs"
  by (simp add: grows_def list_all2_refl)

lemma grows_map: "(\<And>x. x \<in> set xs \<Longrightarrow> P x (f x)) \<Longrightarrow> grows P xs (map f xs)"
  by (simp add: grows_def list_all2_conv_all_nth)

lemma grows_append: "(\<And>x. P x x) \<Longrightarrow> grows P xs (xs @ ys)"
  by (simp add: grows_def list_all2_refl)

lemma grows_trans:
  assumes "\<And>a b c. P a b \<Longrightarrow> P b c \<Longrightarrow> P a c" and "grows P xs ys" and "grows P ys zs"
  shows "grows P xs zs"
  using assms by (auto simp: grows_def list_all2_conv_all_nth intro: order_trans)

lemma grows_nth: "grows P xs ys \<Longrightarrow> i < length xs \<Longrightarrow> P (xs ! i) (ys ! i)"
  by (auto simp: grows_def list_all2_conv_all_nth)

lemma grows_mono: "grows P xs ys \<Longrightarrow> (\<And>a b. P a b \<Longrightarrow> Q a b) \<Longrightarrow> grows Q xs ys"
  by (auto simp: grows_def elim: list_all2_mono)

section \<open>Uniqueness of transactions\<close>

definition tx_clash :: "Transaction \<Rightarrow> Transaction \<Rightarrow> bool" where
  "tx_clash x y \<longleftrightarrow>
     tx_ID x = tx_ID y \<or>
     (tx_AppID x = tx_AppID y \<and> tx_IdempotencyKey x = tx_IdempotencyKey y) \<or>
     (tx_AppID x = tx_AppID y \<and> tx_Reference x = tx_Reference y)"

definition unique_txs :: "Transaction list \<Rightarrow> bool" where
  "unique_txs = sorted_wrt (\<lambda>x y. \<not> tx_clash x y)"

lemma unique_txs_append: "unique_txs (xs @ [x]) \<longleftrightarrow> unique_txs xs \<and> (\<forall>y\<in>set xs. \<not> tx_clash y x)"
  by (auto simp: unique_txs_def sorted_wrt_append)

lemma tx_clash_frame: "tx_frame a a' \<Longrightarrow> tx_frame b b' \<Longrightarrow> tx_clash a' b' = tx_clash a b"
  by (simp add: tx_clash_def tx_frame_fields)

lemma unique_txs_map:
  assumes f: "\<And>x. tx_frame x (f x)"
  shows "unique_txs (map f xs) = unique_txs xs"
proof -
  have "tx_clash (f x) (f y) = tx_clash x y" for x y by (rule tx_clash_frame) (rule f)+
  then show ?thesis by (simp add: unique_txs_def sorted_wrt_map)
qed

lemma unique_txs_ID:
  assumes "unique_txs xs" and "x \<in> set xs" and "y \<in> set xs" and "tx_ID x = tx_ID y"
  shows "x = y"
proof -
  obtain i j where "i < length xs" "j < length xs" "xs ! i = x" "xs ! j = y"
    using assms(2,3) by (metis in_set_conv_nth)
  then show ?thesis
    using assms(1,4) unfolding unique_txs_def sorted_wrt_iff_nth_less
    by (metis linorder_less_linear tx_clash_def)
qed

lemma unique_txs_key:
  assumes "unique_txs xs" and "x \<in> set xs" and "y \<in> set xs"
    and "tx_AppID x = tx_AppID y" and "tx_IdempotencyKey x = tx_IdempotencyKey y"
  shows "x = y"
proof -
  obtain i j where "i < length xs" "j < length xs" "xs ! i = x" "xs ! j = y"
    using assms(2,3) by (metis in_set_conv_nth)
  then show ?thesis
    using assms(1,4,5) unfolding unique_txs_def sorted_wrt_iff_nth_less
    by (metis linorder_less_linear tx_clash_def)
qed

section \<open>The stages of a payment\<close>

lemma on_dbE:
  assumes "on_db m w = (r, w')"
  obtains d where "m (db w) = (r, d)" and "w' = w\<lparr>db := d\<rparr>"
  using assms by (auto simp: on_db_def split: prod.splits)

lemma create_row_InrD:
  assumes "create_row rows upd clash id row d = (Inr x, d')"
  shows "x = row" and "base_create rows upd clash row d = (Inr (), d')"
  using assms by (auto simp: create_row_def Let_def elim!: bindE_InrE split: if_splits)

lemma Transactions_Create_InrD:
  assumes "Transactions_Create t tx d = (Inr x, d')"
  shows "x = tx\<lparr>tx_CreatedAt := t, tx_UpdatedAt := t\<rparr>" and "t_transactions d' = t_transactions d @ [x]"
    and "y \<in> set (t_transactions d) \<Longrightarrow> \<not> tx_clash y x" and "t_attempts d' = t_attempts d"
    and "t_webhookEvents d' = t_webhookEvents d"
proof -
  note c = create_row_InrD [OF assms [unfolded Transactions_Create_def]]
  show x: "x = tx\<lparr>tx_CreatedAt := t, tx_UpdatedAt := t\<rparr>" by (rule c(1))
  show "t_transactions d' = t_transactions d @ [x]"
    using transactions.create_InrD(1) [OF c(2)] x by simp
  show "y \<in> set (t_transactions d) \<Longrightarrow> \<not> tx_clash y x"
    using transactions.create_InrD(2) [OF c(2), of y] x by (auto simp: tx_clash_def)
  show "t_attempts d' = t_attempts d" "t_webhookEvents d' = t_webhookEvents d"
    using c(2) by (rule_tac [!] statement_cases [of d]) (auto simp: base_create_def split: if_splits)
qed

lemma TransactionAttempts_Create_InrD:
  assumes "TransactionAttempts_Create t a d = (Inr x, d')"
  shows "x = a\<lparr>att_CreatedAt := t\<rparr>" and "t_attempts d' = t_attempts d @ [x]"
    and "y \<in> set (t_attempts d) \<Longrightarrow> att_ID y \<noteq> att_ID a" and "t_transactions d' = t_transactions d"
    and "t_webhookEvents d' = t_webhookEvents d"
proof -
  note c = create_row_InrD [OF assms [unfolded TransactionAttempts_Create_def]]
  show x: "x = a\<lparr>att_CreatedAt := t\<rparr>" by (rule c(1))
  show "t_attempts d' = t_attempts d @ [x]"
    using attempts.create_InrD(1) [OF c(2)] x by simp
  show "y \<in> set (t_attempts d) \<Longrightarrow> att_ID y \<noteq> att_ID a"
    using attempts.create_InrD(2) [OF c(2), of y] by simp
  show "t_transactions d' = t_transactions d" "t_webhookEvents d' = t_webhookEvents d"
    using c(2) by (rule_tac [!] statement_cases [of d]) (auto simp: base_create_def split: if_splits)
qed

lemma insert_payment_InrD:
  assumes "insert_payment tx attempt w = (Inr (tx1, att1), w')"
  shows "tx1 = tx\<lparr>tx_CreatedAt := now w, tx_UpdatedAt := now w\<rparr>" "att1 = attempt\<lparr>att_CreatedAt := now w\<rparr>"
    "txs w' = txs w @ [tx1]" "atts w' = atts w @ [att1]"
    "y \<in> set (txs w) \<Longrightarrow> \<not> tx_clash y tx1" "a \<in> set (atts w) \<Longrightarrow> att_ID a \<noteq> att_ID attempt"
    "outside w' = outside w" "events w' = events w"
proof -
  obtain b1 b2 w1 where body: "bindE (on_db_now (\<lambda>t. Transactions_Create t tx)) (\<lambda>tx.
       bindE (on_db_now (\<lambda>t. TransactionAttempts_Create t attempt)) (\<lambda>attempt.
       returnE (tx, attempt))) (w\<lparr>db := (db w)\<lparr>faults := b1\<rparr>\<rparr>) = (Inr (tx1, att1), w1)"
    and w': "w' = w1\<lparr>db := (db w1)\<lparr>faults := b2\<rparr>\<rparr>"
    using assms unfolding insert_payment_def by (rule Within_InrE)
  from body obtain d1 d2 where
    c1: "Transactions_Create (now w) tx ((db w)\<lparr>faults := b1\<rparr>) = (Inr tx1, d1)"
    and c2: "TransactionAttempts_Create (now w) attempt d1 = (Inr att1, d2)"
    and w1: "w1 = w\<lparr>db := d2\<rparr>"
    by (auto elim!: bindE_InrE on_dbE simp: on_db_now_def returnE_def)
  note t = Transactions_Create_InrD [OF c1] and a = TransactionAttempts_Create_InrD [OF c2]
  show "tx1 = tx\<lparr>tx_CreatedAt := now w, tx_UpdatedAt := now w\<rparr>" "att1 = attempt\<lparr>att_CreatedAt := now w\<rparr>"
    "txs w' = txs w @ [tx1]" "atts w' = atts w @ [att1]" "outside w' = outside w"
    "events w' = events w"
    using t a w1 w' by simp_all
  show "y \<in> set (txs w) \<Longrightarrow> \<not> tx_clash y tx1" using t(3) by simp
  show "a \<in> set (atts w) \<Longrightarrow> att_ID a \<noteq> att_ID attempt" using a(3) t(4) by simp
qed

lemma Within_Inl_same_pay:
  assumes "Within body w = (Inl e, w')"
  shows "same_pay w w'"
  using assms by (cases rule: Within_InlE) (auto simp: same_pay_def)

lemma insert_payment_InlD: "insert_payment tx attempt w = (Inl e, w') \<Longrightarrow> same_pay w w'"
  unfolding insert_payment_def by (rule Within_Inl_same_pay)

text \<open>What an admitted payment is made of.\<close>

lemma assemble_InrD:
  assumes "assemble E appID service key req hash w = (Inr (tx, attempt, call, sel), w')"
  obtains app i ai w1 w2 providerFee platformFee started where
    "app \<in> set (t_apps (db w))" "app_ID app = appID" "app_Status app = active"
    "cp_Currency req = app_Currency app" "\<exists>bs. db w1 = (db w)\<lparr>faults := bs\<rparr>"
    "SelectProvider E service (cp_PaymentMethod req) (cp_Country req) (cp_Currency req) w1 = (Inr sel, w2)"
    "call = provider_request i service req \<or> guardValidatedRequest (provider_request i service req) call = Inr ()"
    "calculateCharge (pa_Charges (sel_Account sel)) service (rq_Amount call) = Inr providerFee"
    "calculateCharge (app_Charges app) service (rq_Amount call) = Inr platformFee"
    "tx = new_transaction appID service key req hash sel call providerFee platformFee"
    "attempt = new_attempt ai tx sel hash started"
proof -
  note r = assms [unfolded assemble_def]
  obtain app wa where app: "on_db (Apps_ActiveByID appID) w = (Inr app, wa)"
    by (rule bindE_InrE [OF r]) (rule that)
  note r = bindE_Inr_eq [OF app r]
  obtain u wb where cur: "failIf (cp_Currency req \<noteq> app_Currency app)
      (Msg (''currency must match app currency '' @ app_Currency app)) wa = (Inr u, wb)"
    by (rule bindE_InrE [OF r]) (rule that)
  note r = bindE_Inr_eq [OF cur r]
  obtain u' wc where hook: "run_request_hook (request_event appID service req) wb = (Inr u', wc)"
    by (rule bindE_InrE [OF r]) (rule that)
  note r = bindE_Inr_eq [OF hook r]
  obtain s w2 where sel: "SelectProvider E service (cp_PaymentMethod req) (cp_Country req) (cp_Currency req) wc
      = (Inr s, w2)"
    by (rule bindE_InrE [OF r]) (rule that)
  note r = bindE_Inr_eq [OF sel r]
  obtain i wi where id: "NewID ''txn'' w2 = (Inr i, wi)" by (rule bindE_InrE [OF r]) (rule that)
  note r = bindE_Inr_eq [OF id r]
  obtain c wd where val: "ValidateRequest (pa_ID (sel_Account s)) (provider_request i service req) wi = (Inr c, wd)"
    by (rule bindE_InrE [OF r]) (rule that)
  note r = bindE_Inr_eq [OF val r]
  obtain pf we where pf: "wrapE ''calculate provider fee''
      (liftE (calculateCharge (pa_Charges (sel_Account s)) service (rq_Amount c))) wd = (Inr pf, we)"
    by (rule bindE_InrE [OF r]) (rule that)
  note r = bindE_Inr_eq [OF pf r]
  obtain qf wf where qf: "wrapE ''calculate platform fee''
      (liftE (calculateCharge (app_Charges app) service (rq_Amount c))) we = (Inr qf, wf)"
    by (rule bindE_InrE [OF r]) (rule that)
  note r = bindE_Inr_eq [OF qf r, unfolded Let_def]
  obtain ai wg where ai: "NewID ''att'' wf = (Inr ai, wg)" by (rule bindE_InrE [OF r]) (rule that)
  note r = bindE_Inr_eq [OF ai r]
  have fees: "calculateCharge (pa_Charges (sel_Account s)) service (rq_Amount c) = Inr pf"
    "calculateCharge (app_Charges app) service (rq_Amount c) = Inr qf"
    using wrapE_InrD [OF pf] wrapE_InrD [OF qf] by simp_all
  have res: "c = call" "s = sel" "tx = new_transaction appID service key req hash sel call pf qf"
    "attempt = new_attempt ai tx sel hash (now wg)"
    using r by (auto simp: bindE_def Now_def get_world_def)
  obtain d where "Apps_ActiveByID appID (db w) = (Inr app, d)" using app by (rule on_dbE)
  then have "app \<in> set (t_apps (db w))" "app_ID app = appID" "app_Status app = active"
    unfolding Apps_ActiveByID_def using apps.first_InrD(2,3) by blast+
  moreover have "\<exists>bs. db wc = (db w)\<lparr>faults := bs\<rparr>"
  proof -
    have "reads w wa"
      using app movesD [OF reads_on_db [OF db_reads_first]] unfolding Apps_ActiveByID_def by blast
    moreover have "wb = wa" using failIf_InrD [OF cur] by simp
    moreover have "db wc = db wb" using hook by (auto simp: run_request_hook_def on_outside_def split: prod.splits)
    ultimately show ?thesis by (auto dest!: reads_db)
  qed
  moreover have "cp_Currency req = app_Currency app" using failIf_InrD [OF cur] by simp
  moreover have "call = provider_request i service req \<or>
      guardValidatedRequest (provider_request i service req) call = Inr ()"
    using ValidateRequest_InrD [OF val] unfolding res .
  ultimately show ?thesis using that sel fees unfolding res by blast
qed

text \<open>Beginning a payment either leaves the tables of payments alone or appends one
  transaction and its first attempt.\<close>

lemma begin_payment_cases:
  assumes "begin_payment E appID service key req w = (r, w')"
  obtains (quiet) "\<not> (\<exists>tx a call sel. r = Inr (Admitted tx a call sel))" "same_pay w w'"
    | (admitted) tx attempt call sel tx0 att0 req' w0 w1 where
        "r = Inr (Admitted tx attempt call sel)"
        "Check_CreatePayment (env_region E) req = Inr req'" "trim_space key \<noteq> []"
        "assemble E appID service key req' (paymentRequestHash E service req') w0 = (Inr (tx0, att0, call, sel), w1)"
        "reads w w0" "same_pay w w1" "insert_payment tx0 att0 w1 = (Inr (tx, attempt), w')"
proof -
  let ?hash = "paymentRequestHash E service"
  show ?thesis
  proof (cases "\<exists>req'. Check_CreatePayment (env_region E) req = Inr req' \<and> trim_space key \<noteq> []")
    case False
    with assms have "w' = w" "\<exists>e. r = Inl e"
      by (auto simp: begin_payment_def bindE_liftE bindE_failIf split: sum.splits)
    then show ?thesis by (intro quiet) (auto simp: same_pay.refl_R)
  next
    case True
    then obtain req' where c: "Check_CreatePayment (env_region E) req = Inr req'" "trim_space key \<noteq> []" by blast
    obtain f w0 where f: "find_key appID key w = (f, w0)" by fastforce
    have w0: "same_pay w w0" using movesD [OF same_pay_find_key f] .
    have r0: "reads w w0"
      using f movesD [OF reads_on_db [OF db_reads_first]]
      unfolding find_key_def Transactions_ByIdempotencyKey_def by blast
    show ?thesis
    proof (cases "f = Inl NotFound \<or> (\<exists>e. f = Inl e \<and> IsNotFound e)")
      case False
      with assms c f have "w' = w0 \<and> \<not> (\<exists>tx a call sel. r = Inr (Admitted tx a call sel))"
        by (auto simp: begin_payment_def bindE_liftE bindE_failIf Let_def split: sum.splits)
      with w0 show ?thesis by (intro quiet) auto
    next
      case True
      then obtain e where "f = Inl e" "IsNotFound e" by auto
      note nf = this
      obtain s w1 where s: "assemble E appID service key req' (?hash req') w0 = (s, w1)" by fastforce
      have w1: "same_pay w w1" using w0 movesD [OF same_pay_assemble s] same_pay.trans_R by blast
      show ?thesis
      proof (cases s)
        case (Inl e)
        with assms c f nf s have "w' = w1" "r = Inl e"
          by (auto simp: begin_payment_def bindE_liftE bindE_failIf Let_def)
        with w1 show ?thesis by (intro quiet) auto
      next
        case (Inr q)
        obtain tx0 att0 call sel where q: "q = (tx0, att0, call, sel)" by (cases q)
        obtain i w2 where i: "insert_payment tx0 att0 w1 = (i, w2)" by fastforce
        show ?thesis
        proof (cases i)
          case inserted: (Inr p)
          obtain tx attempt where p: "p = (tx, attempt)" by (cases p)
          with assms c f nf s Inr q i inserted have "r = Inr (Admitted tx attempt call sel)" "w' = w2"
            by (auto simp: begin_payment_def bindE_liftE bindE_failIf Let_def)
          with c s Inr q i inserted p r0 w1 show ?thesis by (intro admitted) auto
        next
          case refused: (Inl e')
          with i have "same_pay w1 w2" by (auto dest: insert_payment_InlD)
          with w1 have w2: "same_pay w w2" using same_pay.trans_R by blast
          obtain g w3 where g: "find_key appID key w2 = (g, w3)" by fastforce
          have "same_pay w w3" using w2 movesD [OF same_pay_find_key g] same_pay.trans_R by blast
          moreover have "w' = w3 \<and> \<not> (\<exists>tx a call sel. r = Inr (Admitted tx a call sel))"
            using assms c f nf s Inr q i refused g
            by (auto simp: begin_payment_def bindE_liftE bindE_failIf Let_def split: sum.splits)
          ultimately show ?thesis by (intro quiet) auto
        qed
      qed
    qed
  qed
qed

end
