(* ===== verification/Effects.thy ===== *)
theory Effects
  imports Ledger
begin

text \<open>
  What one committed unit of work does to the tables of transactions, attempts and webhook
  events: which rows a result of a provider, a webhook event and a reconciliation change,
  and how.
\<close>

section \<open>One statement\<close>

text \<open>Update of the rows with one key.\<close>

definition at_key :: "('r \<Rightarrow> string) \<Rightarrow> string \<Rightarrow> ('r \<Rightarrow> 'r) \<Rightarrow> 'r list \<Rightarrow> 'r list" where
  "at_key key i f = map (\<lambda>r. if key r = i then f r else r)"

lemma set_at_key: "r \<in> set (at_key key i f rs) \<longleftrightarrow> (\<exists>x\<in>set rs. r = (if key x = i then f x else x))"
  unfolding at_key_def set_map by blast

lemma at_key_other: "\<forall>r\<in>set rs. key r \<noteq> i \<Longrightarrow> at_key key i f rs = rs"
  by (simp add: at_key_def map_idI)

lemma map_at_key: "(\<And>x. g (f x) = g x) \<Longrightarrow> map g (at_key key i f rs) = map g rs"
  by (simp add: at_key_def)

lemma base_updates_InrD:
  assumes "base_updates rows upd P f d = (Inr n, d')"
  obtains bs where "d' = upd (map (\<lambda>r. if P r then f r else r)) (d\<lparr>faults := bs\<rparr>)"
    and "n = length (filter P (rows (d\<lparr>faults := bs\<rparr>)))"
  using assms by (rule_tac statement_cases [of d]) (auto simp: base_updates_def)

lemma base_update_InrD:
  assumes "base_update rows upd P f d = (Inr u, d')"
  obtains bs where "d' = upd (map (\<lambda>r. if P r then f r else r)) (d\<lparr>faults := bs\<rparr>)"
    and "\<exists>r\<in>set (rows (d\<lparr>faults := bs\<rparr>)). P r"
proof -
  obtain n d1 where n: "base_updates rows upd P f d = (Inr n, d1)" and c: "n \<noteq> 0" "d' = d1"
    using assms unfolding base_update_def affected_def by (auto elim!: bindE_InrE dest!: failIf_InrD)
  from n show ?thesis
  proof (rule base_updates_InrD)
    fix bs assume "d1 = upd (map (\<lambda>r. if P r then f r else r)) (d\<lparr>faults := bs\<rparr>)"
      and "n = length (filter P (rows (d\<lparr>faults := bs\<rparr>)))"
    with c show ?thesis using that [of bs] by (auto simp: filter_empty_conv)
  qed
qed

lemma update_tx_InrD:
  assumes "on_db_now (\<lambda>s. Transactions_Update s i f) w = (Inr u, w')"
  shows "txs w' = at_key tx_ID i (\<lambda>t. (f t)\<lparr>tx_UpdatedAt := now w\<rparr>) (txs w)" "atts w' = atts w"
    "events w' = events w" "outside w' = outside w"
  using assms unfolding on_db_now_def Transactions_Update_def at_key_def
  by (auto elim!: on_dbE base_update_InrD)

lemma update_tx_from_InrD:
  assumes "on_db_now (\<lambda>s. Transactions_UpdateFromStatus s i previous f) w = (Inr applied, w')"
  shows "txs w' = map (\<lambda>t. if tx_ID t = i \<and> tx_Status t = previous
                            then (f t)\<lparr>tx_UpdatedAt := now w\<rparr> else t) (txs w)" "atts w' = atts w"
    "events w' = events w" "outside w' = outside w"
    "applied \<longleftrightarrow> (\<exists>t\<in>set (txs w). tx_ID t = i \<and> tx_Status t = previous)"
  using assms unfolding on_db_now_def Transactions_UpdateFromStatus_def
  by (auto elim!: on_dbE bindE_InrE base_updates_InrD simp: returnE_def filter_empty_conv)

lemma update_attempt_InrD:
  assumes "on_db (TransactionAttempts_Update i f) w = (Inr u, w')"
  shows "atts w' = at_key att_ID i f (atts w)" "txs w' = txs w" "events w' = events w" "outside w' = outside w"
  using assms unfolding TransactionAttempts_Update_def at_key_def
  by (auto elim!: on_dbE base_update_InrD)

lemma mark_processed_InrD:
  assumes "on_db (WebhookEvents_MarkProcessed i transactionID) w = (Inr u, w')"
  shows "events w' = at_key we_ID i (\<lambda>e. e\<lparr>we_TransactionID := transactionID, we_Processed := True\<rparr>) (events w)"
    "txs w' = txs w" "atts w' = atts w" "outside w' = outside w"
  using assms unfolding WebhookEvents_MarkProcessed_def at_key_def
  by (auto elim!: on_dbE base_update_InrD)

lemma lock_tx_InrD:
  assumes "on_db (Transactions_LockForUpdate i) w = (Inr t, w')"
  shows "t \<in> set (txs w)" "tx_ID t = i" "reads w w'"
proof -
  obtain d where d: "base_first t_transactions (\<lambda>t. tx_ID t = i) (db w) = (Inr t, d)"
    using assms unfolding Transactions_LockForUpdate_def by (auto elim: on_dbE)
  show "t \<in> set (txs w)" "tx_ID t = i" using transactions.first_InrD(2,3) [OF d] by auto
  have "moves reads (on_db (Transactions_LockForUpdate i))"
    unfolding Transactions_LockForUpdate_def by (intro reads_on_db db_reads_first)
  from movesD [OF this assms] show "reads w w'" .
qed

lemma reads_latest_attempt: "moves reads (on_db (latest_attempt P))"
  unfolding latest_attempt_def
  by (intro reads_on_db db_reads.moves_bindE db_reads_find)
     (auto intro: db_reads.moves_intros split: list.split)

lemma latest_attempt_InrD:
  assumes "on_db (latest_attempt P) w = (Inr a, w')"
  shows "a \<in> set (atts w)" "P a" "reads w w'"
    "a' \<in> set (atts w) \<Longrightarrow> P a' \<Longrightarrow> att_CreatedAt a' \<le> att_CreatedAt a"
proof -
  obtain d where "latest_attempt P (db w) = (Inr a, d)" using assms by (auto elim: on_dbE)
  then obtain rs where s: "newest att_CreatedAt (filter P (atts w)) = a # rs"
    unfolding latest_attempt_def
    by (auto elim!: bindE_InrE dest!: attempts.find_InrD(1) simp: throwE_def returnE_def split: list.splits)
  have "a \<in> set (newest att_CreatedAt (filter P (atts w)))" unfolding s by simp
  then show "a \<in> set (atts w)" "P a" by simp_all
  show "reads w w'" using movesD [OF reads_latest_attempt assms] .
  show "att_CreatedAt a' \<le> att_CreatedAt a" if "a' \<in> set (atts w)" "P a'"
    using sort_key_filter_hd [OF s, of a'] that by simp
qed

lemma reads_rows: "reads w w' \<Longrightarrow> txs w' = txs w \<and> atts w' = atts w \<and> events w' = events w \<and> outside w' = outside w"
  by (auto simp: reads_def)

lemma Now_InrD: "Now w = (Inr t, w') \<Longrightarrow> t = now w \<and> w' = w"
  by (auto simp: Now_def get_world_def)

section \<open>The result of the provider call\<close>

text \<open>An answer, or the lack of one.\<close>

lemma persist_plan_InrE:
  assumes "persist_plan E t tx result = Inr (tx', fa, ft, msg)"
  obtains (unknown) cause where "Transition (Some tx) TxUnknown = Inr tx'"
      "ft = (\<lambda>r. r\<lparr>tx_NextReconcileAt := (if Terminal (tx_Status tx') then None else Some (t + minute)),
                   tx_Status := tx_Status tx'\<rparr>)"
      "fa = (\<lambda>a. let a = a\<lparr>att_Status := tx_Status tx', att_ErrorCode := ''PROVIDER_ERROR'',
                     att_ErrorMessage := Redact (error_text cause)\<rparr>
                 in if Terminal (tx_Status tx') then a\<lparr>att_CompletedAt := Some t\<rparr> else a)"
      "result = Inl cause \<or> result = Inr None"
    | (answer) r tx1 where "result = Inr (Some r)" "Transition (Some tx) (PaymentStatus (rs_Status r)) = Inr tx1"
      "tx' = tx1\<lparr>tx_ProviderReference := rs_ProviderReference r\<rparr>"
      "ft = (\<lambda>x. x\<lparr>tx_NextReconcileAt := (if Terminal (tx_Status tx') then None else Some (t + minute)),
                   tx_Status := tx_Status tx', tx_ProviderReference := tx_ProviderReference tx'\<rparr>)"
      "fa = (\<lambda>a. let a = a\<lparr>att_Status := tx_Status tx', att_ProviderReference := tx_ProviderReference tx',
                     att_RawResponse := env_map_json E (RedactRawMap (rs_Raw r))\<rparr>
                 in if Terminal (tx_Status tx') then a\<lparr>att_CompletedAt := Some t\<rparr> else a)"
proof (cases result)
  case (Inl cause)
  with assms show ?thesis
    using unknown [of cause] by (simp add: persist_plan_def Let_def split: sum.splits)
next
  case (Inr answered)
  show ?thesis
  proof (cases answered)
    case None
    with assms Inr show ?thesis
      by (intro unknown [of "Msg ''provider returned no response''"])
         (auto simp: persist_plan_def Let_def split: sum.splits)
  next
    case (Some r)
    with assms Inr obtain tx1 where "Transition (Some tx) (PaymentStatus (rs_Status r)) = Inr tx1"
      by (simp add: persist_plan_def Let_def split: sum.splits)
    with assms Inr Some show ?thesis
      by (intro answer [of r tx1]) (auto simp: persist_plan_def Let_def)
  qed
qed

lemma Transition_status_only: "Transition (Some t) next = Inr t' \<Longrightarrow> \<exists>s. t' = t\<lparr>tx_Status := s\<rparr>"
  using Transition_frame by blast

lemma persist_plan_InrD:
  assumes "persist_plan E t tx result = Inr (tx', fa, ft, msg)"
  shows "tx_ID tx' = tx_ID tx" "tx_Status (ft r) = tx_Status tx'" "att_ID (fa a) = att_ID a"
    "att_TransactionID (fa a) = att_TransactionID a" "att_ProviderAccountID (fa a) = att_ProviderAccountID a"
    "tx_frame r ((ft r)\<lparr>tx_UpdatedAt := s\<rparr>)" "tx_frame tx tx'"
  by (rule persist_plan_InrE [OF assms]; drule Transition_status_only; clarsimp simp: Let_def tx_frame_def)+

text \<open>A payment being processed accepts every answer, and silence.\<close>

lemma persist_plan_from_processing:
  assumes "tx_Status tx = TxProcessing"
  obtains tx' fa ft msg where "persist_plan E t tx result = Inr (tx', fa, ft, msg)"
    and "tx_Status tx' = (case result of Inr (Some r) \<Rightarrow> PaymentStatus (rs_Status r) | _ \<Rightarrow> TxUnknown)"
proof -
  have u: "Transition (Some tx) TxUnknown = Inr (tx\<lparr>tx_Status := TxUnknown\<rparr>)"
    by (rule Transition_from_processing [OF assms]) simp
  have a: "Transition (Some tx) (PaymentStatus (rs_Status r)) = Inr (tx\<lparr>tx_Status := PaymentStatus (rs_Status r)\<rparr>)"
    for r by (rule Transition_from_processing [OF assms PaymentStatus_range])
  show ?thesis
  proof (cases "\<exists>r. result = Inr (Some r)")
    case True
    then obtain r where r: "result = Inr (Some r)" by blast
    show ?thesis
      by (rule that [of "tx\<lparr>tx_Status := PaymentStatus (rs_Status r),
            tx_ProviderReference := rs_ProviderReference r\<rparr>"])
         (simp_all add: r a persist_plan_def Let_def)
  next
    case False
    then consider cause where "result = Inl cause" | "result = Inr None"
      by (metis old.sum.exhaust option.exhaust)
    then show ?thesis
    proof cases
      case 1
      show ?thesis
        by (rule that [of "tx\<lparr>tx_Status := TxUnknown\<rparr>"]) (simp_all add: 1 u persist_plan_def Let_def)
    next
      case 2
      show ?thesis
        by (rule that [of "tx\<lparr>tx_Status := TxUnknown\<rparr>"]) (simp_all add: 2 u persist_plan_def Let_def)
    qed
  qed
qed

definition persist_response :: "Transaction \<Rightarrow> string \<Rightarrow> string \<Rightarrow> CreatePaymentResponse" where
  "persist_response tx providerCode message =
     \<lparr>resp_TransactionID = tx_ID tx, resp_Reference = tx_Reference tx,
      resp_ServiceType = tx_ServiceType tx, resp_PaymentMethod = tx_PaymentMethod tx,
      resp_Status = tx_Status tx, resp_SelectedProvider = providerCode,
      resp_ProviderReference = tx_ProviderReference tx, resp_PlatformFee = tx_PlatformFee tx,
      resp_Message = message\<rparr>"

lemma notify_InrD: "notify_changed ev w = (r, w') \<Longrightarrow> r = Inr () \<and> db w' = db w"
  by (auto simp: notify_changed_def modify_def)

lemma notify_option_InrD: "notify_option change w = (r, w') \<Longrightarrow> r = Inr () \<and> db w' = db w"
  by (auto simp: notify_option_def returnE_def dest: notify_InrD split: option.splits)

lemma persist_cases:
  assumes "persist E tx attempt code result w = (r, w')"
  obtains (refused) e where "same_pay w w'" "r = Inl e"
      "(\<exists>e'. persist_plan E (now w) tx result = Inl e') \<or>
       (\<exists>c. e = Wrap ''provider result persistence failed'' c)"
    | (written) tx' fa ft msg where "persist_plan E (now w) tx result = Inr (tx', fa, ft, msg)"
      "txs w' = at_key tx_ID (tx_ID tx) (\<lambda>t. (ft t)\<lparr>tx_UpdatedAt := now w\<rparr>) (txs w)"
      "atts w' = at_key att_ID (att_ID attempt) fa (atts w)" "events w' = events w"
      "r = Inr (persist_response tx' code msg)"
proof (cases "persist_plan E (now w) tx result")
  case (Inl e)
  with assms have "r = Inl e" "w' = w"
    by (simp_all add: persist_def bindE_def Now_def get_world_def)
  with Inl show ?thesis by (intro refused) (auto simp: same_pay.refl_R)
next
  case (Inr plan)
  obtain tx' fa ft msg where p: "plan = (tx', fa, ft, msg)" by (cases plan)
  let ?body = "bindE (on_db (TransactionAttempts_Update (att_ID attempt) fa)) (\<lambda>_.
      on_db_now (\<lambda>s. Transactions_Update s (tx_ID tx') ft))"
  have i: "tx_ID tx' = tx_ID tx" using persist_plan_InrD(1) Inr p by blast
  obtain q w1 where q: "Within ?body w = (q, w1)" by fastforce
  show ?thesis
  proof (cases q)
    case (Inl e)
    with assms Inr p q have "r = Inl (Wrap ''provider result persistence failed'' e)" "w' = w1"
      by (simp_all add: persist_def bindE_def Now_def get_world_def wrapE_def)
    moreover have "same_pay w w1" using q Inl Within_Inl_same_pay by blast
    ultimately show ?thesis using refused by simp
  next
    case written_u: (Inr u)
    with q obtain b1 b2 w2 where b: "?body (w\<lparr>db := (db w)\<lparr>faults := b1\<rparr>\<rparr>) = (Inr u, w2)"
      and w1: "w1 = w2\<lparr>db := (db w2)\<lparr>faults := b2\<rparr>\<rparr>" by (auto elim: Within_InrE)
    from b obtain w3 u' where
      a: "on_db (TransactionAttempts_Update (att_ID attempt) fa) (w\<lparr>db := (db w)\<lparr>faults := b1\<rparr>\<rparr>) = (Inr u', w3)"
      and t: "on_db_now (\<lambda>s. Transactions_Update s (tx_ID tx') ft) w3 = (Inr u, w2)"
      by (rule bindE_InrE)
    have "db w' = db w1" "r = Inr (persist_response tx' code msg)"
      using assms Inr p q written_u
      by (auto simp: persist_def bindE_def Now_def get_world_def wrapE_def persist_response_def
          dest: notify_InrD split: prod.splits sum.splits)
    then show ?thesis
      using w1 update_attempt_InrD [OF a] update_tx_InrD [OF t] i Inr p
      by (intro written [of tx' fa ft msg]) simp_all
  qed
qed

section \<open>A webhook event\<close>

lemma findWebhookTarget_InrD:
  assumes "findWebhookTarget accountID ref w = (Inr (tx, a), w')"
  shows "a \<in> set (atts w)" "att_ProviderAccountID a = accountID" "att_ProviderReference a = ref"
    "tx \<in> set (txs w)" "tx_ID tx = att_TransactionID a" "reads w w'"
proof -
  from assms obtain w1 where
    a: "on_db (TransactionAttempts_LatestForReference accountID ref) w = (Inr a, w1)"
    and t: "on_db (Transactions_LockForUpdate (att_TransactionID a)) w1 = (Inr tx, w')"
    unfolding findWebhookTarget_def by (auto elim!: bindE_InrE)
  note a = latest_attempt_InrD [OF a [unfolded TransactionAttempts_LatestForReference_def]]
  show "a \<in> set (atts w)" "att_ProviderAccountID a = accountID" "att_ProviderReference a = ref"
    using a by auto
  show "tx \<in> set (txs w)" "tx_ID tx = att_TransactionID a" "reads w w'"
    using lock_tx_InrD [OF t] a(3) reads_rows [OF a(3)] reads.trans_R by auto
qed

text \<open>The row a webhook is for: the transaction of the newest attempt with its reference.\<close>

definition webhook_target ::
    "string \<Rightarrow> string \<Rightarrow> Transaction list \<Rightarrow> TransactionAttempt list \<Rightarrow> (Transaction \<times> TransactionAttempt) option" where
  "webhook_target accountID ref ts as =
     (case newest att_CreatedAt (filter (\<lambda>a. att_ProviderAccountID a = accountID \<and> att_ProviderReference a = ref) as) of
        [] \<Rightarrow> None
      | a # _ \<Rightarrow> map_option (\<lambda>t. (t, a)) (List.find (\<lambda>t. tx_ID t = att_TransactionID a) ts))"

lemma statement_result: "statement d = (r, d') \<Longrightarrow> (r = Inr () \<or> r = Inl DriverErr) \<and> (\<exists>bs. d' = d\<lparr>faults := bs\<rparr>)"
  by (cases d) (auto simp: statement_def split: list.splits if_splits)

lemma latest_for_result:
  assumes "on_db (TransactionAttempts_LatestForReference accountID ref) w = (r, w')"
  shows "r = Inl DriverErr \<or>
    r = (case newest att_CreatedAt (filter (\<lambda>a. att_ProviderAccountID a = accountID \<and> att_ProviderReference a = ref) (atts w)) of
           [] \<Rightarrow> Inl NotFound | a # _ \<Rightarrow> Inr a)"
proof -
  obtain u d where u: "statement (db w) = (u, d)" by fastforce
  then obtain bs where "u = Inr () \<or> u = Inl DriverErr" "d = (db w)\<lparr>faults := bs\<rparr>" using statement_result by blast
  with assms u show ?thesis
    by (auto simp: on_db_def TransactionAttempts_LatestForReference_def latest_attempt_def base_find_def bindE_def
        throwE_def returnE_def split: list.splits)
qed

lemma lock_result:
  assumes "on_db (Transactions_LockForUpdate i) w = (r, w')"
  shows "r = Inl DriverErr \<or> r = (case List.find (\<lambda>t. tx_ID t = i) (txs w) of None \<Rightarrow> Inl NotFound | Some t \<Rightarrow> Inr t)"
proof -
  obtain u d where u: "statement (db w) = (u, d)" by fastforce
  then obtain bs where "u = Inr () \<or> u = Inl DriverErr" "d = (db w)\<lparr>faults := bs\<rparr>" using statement_result by blast
  with assms u show ?thesis
    by (auto simp: on_db_def Transactions_LockForUpdate_def base_first_def bindE_def split: option.splits)
qed

lemma findWebhookTarget_result:
  assumes "findWebhookTarget accountID ref w = (r, w')"
  shows "r = Inl DriverErr \<or>
    r = (case webhook_target accountID ref (txs w) (atts w) of None \<Rightarrow> Inl NotFound | Some p \<Rightarrow> Inr p)"
proof -
  obtain u w1 where u: "on_db (TransactionAttempts_LatestForReference accountID ref) w = (u, w1)" by fastforce
  have w1: "txs w1 = txs w"
    using movesD [OF reads_latest_attempt u [unfolded TransactionAttempts_LatestForReference_def]] reads_rows by blast
  show ?thesis
  proof (cases u)
    case (Inl e)
    with assms u latest_for_result [OF u] show ?thesis
      by (auto simp: findWebhookTarget_def webhook_target_def split: list.splits)
  next
    case (Inr a)
    obtain v w2 where v: "on_db (Transactions_LockForUpdate (att_TransactionID a)) w1 = (v, w2)" by fastforce
    with assms u Inr latest_for_result [OF u] lock_result [OF v] w1 show ?thesis
      by (cases v) (auto simp: findWebhookTarget_def webhook_target_def returnE_def split: list.splits option.splits)
  qed
qed

lemma reads_findWebhookTarget: "moves reads (findWebhookTarget accountID ref)"
  unfolding findWebhookTarget_def TransactionAttempts_LatestForReference_def Transactions_LockForUpdate_def
  by (intro reads.moves_bindE reads_latest_attempt reads_on_db db_reads_first reads.moves_returnE)

lemma apply_event_cases:
  assumes "apply_event E rowID event w = (Inr change, w')"
  obtains (unmatched) "reads w w'" "change = None"
      "webhook_target (vw_ProviderAccountID event) (ev_ProviderReference (vw_Event event)) (txs w) (atts w) = None"
    | (applied) tx a tx' where
      "a \<in> set (atts w)" "att_ProviderAccountID a = vw_ProviderAccountID event"
      "att_ProviderReference a = ev_ProviderReference (vw_Event event)"
      "tx \<in> set (txs w)" "tx_ID tx = att_TransactionID a"
      "validateWebhook (vw_Event event) tx = Inr ()"
      "Transition (Some tx) (ev_Status (vw_Event event)) = Inr tx'"
      "txs w' = at_key tx_ID (tx_ID tx)
         (\<lambda>r. (webhook_tx_updates (now w) tx' (vw_Event event) r)\<lparr>tx_UpdatedAt := now w\<rparr>) (txs w)"
      "atts w' = at_key att_ID (att_ID a) (webhook_attempt_updates E (now w) tx' (vw_Event event)) (atts w)"
      "events w' = at_key we_ID rowID
         (\<lambda>e. e\<lparr>we_TransactionID := tx_ID tx, we_Processed := True\<rparr>) (events w)"
      "(change = None) = (tx_Status tx = tx_Status tx')"
      "webhook_target (vw_ProviderAccountID event) (ev_ProviderReference (vw_Event event)) (txs w) (atts w) = Some (tx, a)"
proof -
  let ?ev = "vw_Event event"
  obtain f w1 where f: "findWebhookTarget (vw_ProviderAccountID event) (ev_ProviderReference ?ev) w = (f, w1)"
    by fastforce
  have r1: "reads w w1" using movesD [OF reads_findWebhookTarget f] .
  note target = findWebhookTarget_result [OF f]
  show ?thesis
  proof (cases f)
    case (Inl e)
    with assms f have "w' = w1" "change = None" "IsNotFound e"
      by (auto simp: apply_event_def Let_def throwE_def split: if_splits)
    with r1 target Inl show ?thesis by (intro unmatched) (auto simp: IsNotFound_def split: option.splits)
  next
    case (Inr p)
    obtain tx a where p: "p = (tx, a)" by (cases p)
    note t = findWebhookTarget_InrD [OF f [unfolded Inr p]]
    from assms f Inr p obtain tx' where v: "validateWebhook ?ev tx = Inr ()"
      and tr: "Transition (Some tx) (ev_Status ?ev) = Inr tx'"
      by (auto simp: apply_event_def Let_def bindE_liftE split: sum.splits)
    have i: "tx_ID tx' = tx_ID tx" using Transition_status_only [OF tr] by auto
    have "bindE (on_db_now (\<lambda>s. Transactions_Update s (tx_ID tx) (webhook_tx_updates (now w) tx' ?ev))) (\<lambda>_.
          bindE (on_db (TransactionAttempts_Update (att_ID a) (webhook_attempt_updates E (now w) tx' ?ev))) (\<lambda>_.
          bindE (on_db (WebhookEvents_MarkProcessed rowID (tx_ID tx))) (\<lambda>_.
          if tx_Status tx = tx_Status tx' then returnE None
          else returnE (Some ((changed_event TransactionSourceWebhook (tx_Status tx) tx')
                 \<lparr>ce_ProviderAccountID := vw_ProviderAccountID event,
                  ce_ProviderReference := ev_ProviderReference ?ev\<rparr>))))) w1 = (Inr change, w')"
      using assms f Inr p v tr i reads_rows [OF r1]
      by (simp add: apply_event_def Let_def bindE_liftE Now_def get_world_def)
    then obtain u1 w2 u2 w3 u3 w4 where
      s1: "on_db_now (\<lambda>s. Transactions_Update s (tx_ID tx) (webhook_tx_updates (now w) tx' ?ev)) w1 = (Inr u1, w2)"
      and s2: "on_db (TransactionAttempts_Update (att_ID a) (webhook_attempt_updates E (now w) tx' ?ev)) w2 = (Inr u2, w3)"
      and s3: "on_db (WebhookEvents_MarkProcessed rowID (tx_ID tx)) w3 = (Inr u3, w4)"
      and s4: "w' = w4" "(change = None) = (tx_Status tx = tx_Status tx')"
      by (elim bindE_InrE) (auto simp: returnE_def split: if_splits)
    show ?thesis
      using update_tx_InrD [OF s1] update_attempt_InrD [OF s2] mark_processed_InrD [OF s3] s4
        reads_rows [OF r1] t v tr target Inr p
      by (intro applied [of a tx tx']) (simp_all split: option.splits)
  qed
qed

lemma store_and_apply_cases:
  assumes "store_and_apply E row event w = (r, w')"
  obtains (refused) e where "same_pay w w'" "r = Inl e"
    | (duplicate) x where "same_pay w w'" "r = Inr None" "x \<in> set (events w)"
        "we_ProviderAccountID x = we_ProviderAccountID row" "we_PayloadHash x = we_PayloadHash row"
    | (stored) w0 w1 change where
        "\<forall>x\<in>set (events w). we_ProviderAccountID x = we_ProviderAccountID row \<longrightarrow> we_PayloadHash x \<noteq> we_PayloadHash row"
        "\<forall>x\<in>set (events w). we_ID x \<noteq> we_ID row"
        "txs w0 = txs w" "atts w0 = atts w" "outside w0 = outside w"
        "events w0 = events w @ [row\<lparr>we_CreatedAt := now w\<rparr>]"
        "apply_event E (we_ID row) event w0 = (Inr change, w1)" "r = Inr change" "same_pay w1 w'"
proof (cases r)
  case (Inl e)
  with assms show ?thesis
    unfolding store_and_apply_def using Within_Inl_same_pay refused by blast
next
  case (Inr change)
  with assms obtain b1 b2 w2 where
    b: "bindE (on_db_now (\<lambda>t. WebhookEvents_Insert t row)) (\<lambda>inserted.
       if \<not> inserted then returnE None else apply_event E (we_ID row) event)
       (w\<lparr>db := (db w)\<lparr>faults := b1\<rparr>\<rparr>) = (Inr change, w2)"
    and w': "w' = w2\<lparr>db := (db w2)\<lparr>faults := b2\<rparr>\<rparr>"
    unfolding store_and_apply_def by (auto elim: Within_InrE)
  then obtain inserted w3 where
    ins: "on_db_now (\<lambda>t. WebhookEvents_Insert t row) (w\<lparr>db := (db w)\<lparr>faults := b1\<rparr>\<rparr>) = (Inr inserted, w3)"
    and rest: "(if \<not> inserted then returnE None else apply_event E (we_ID row) event) w3 = (Inr change, w2)"
    by (auto elim: bindE_InrE)
  from ins obtain d where d: "WebhookEvents_Insert (now w) row ((db w)\<lparr>faults := b1\<rparr>) = (Inr inserted, d)"
    and w3: "w3 = w\<lparr>db := d\<rparr>" unfolding on_db_now_def by (auto elim: on_dbE)
  have s: "same_pay w2 w'" using w' by (simp add: same_pay_def)
  show ?thesis
  proof (cases inserted)
    case False
    obtain x where x: "x \<in> set (events w)" "we_ProviderAccountID x = we_ProviderAccountID row"
        "we_PayloadHash x = we_PayloadHash row" and "same_pay w w3"
      using d w3 False
      by (rule_tac statement_cases [of "(db w)\<lparr>faults := b1\<rparr>"])
         (auto simp: WebhookEvents_Insert_def list_ex_iff same_pay_def split: if_splits)
    moreover have "w2 = w3" "change = None" using rest False by (simp_all add: returnE_def)
    ultimately show ?thesis using duplicate Inr s same_pay.trans_R by blast
  next
    case True
    have "(\<forall>x\<in>set (events w). we_ProviderAccountID x = we_ProviderAccountID row \<longrightarrow> we_PayloadHash x \<noteq> we_PayloadHash row) \<and>
        (\<forall>x\<in>set (events w). we_ID x \<noteq> we_ID row) \<and> txs w3 = txs w \<and> atts w3 = atts w \<and> outside w3 = outside w \<and>
        events w3 = events w @ [row\<lparr>we_CreatedAt := now w\<rparr>]"
      using d w3 True
      by (rule_tac statement_cases [of "(db w)\<lparr>faults := b1\<rparr>"])
         (auto simp: WebhookEvents_Insert_def list_ex_iff split: if_splits)
    moreover have "apply_event E (we_ID row) event w3 = (Inr change, w2)" using rest True by simp
    ultimately show ?thesis using stored [of w3 change w2] Inr s by simp
  qed
qed

lemma retry_cases:
  assumes "Within (apply_event E rowID event) w = (r, w')"
  obtains (refused) e where "same_pay w w'" "r = Inl e"
    | (retried) w0 w1 change where "txs w0 = txs w" "atts w0 = atts w" "events w0 = events w"
        "outside w0 = outside w" "apply_event E rowID event w0 = (Inr change, w1)" "r = Inr change" "same_pay w1 w'"
proof (cases r)
  case (Inl e)
  with assms show ?thesis using Within_Inl_same_pay refused by blast
next
  case (Inr change)
  with assms obtain b1 b2 w1 where
    "apply_event E rowID event (w\<lparr>db := (db w)\<lparr>faults := b1\<rparr>\<rparr>) = (Inr change, w1)"
    "w' = w1\<lparr>db := (db w1)\<lparr>faults := b2\<rparr>\<rparr>" by (auto elim: Within_InrE)
  then show ?thesis using Inr by (intro retried) (simp_all add: same_pay_def)
qed

section \<open>A reconciliation\<close>

definition settle_attempt_update :: "time \<Rightarrow> Transaction \<Rightarrow> TransactionAttempt \<Rightarrow> TransactionAttempt" where
  "settle_attempt_update t tx a =
     (let a = a\<lparr>att_Status := tx_Status tx, att_ErrorCode := [], att_ErrorMessage := []\<rparr>
      in if Terminal (tx_Status tx) then a\<lparr>att_CompletedAt := Some t\<rparr> else a)"

text \<open>A row and the update of it that is still conditional on the status read under the lock.\<close>

definition reconciled :: "time \<Rightarrow> Transaction \<Rightarrow> Transaction \<Rightarrow> time option \<Rightarrow> Transaction list \<Rightarrow> Transaction list" where
  "reconciled t tx tx' next_at =
     map (\<lambda>r. if tx_ID r = tx_ID tx \<and> tx_Status r = tx_Status tx
              then (reconcile_update t tx' next_at r)\<lparr>tx_UpdatedAt := t\<rparr> else r)"

lemma settle_answer_cases:
  assumes "settle_answer row target w = (r, w')"
  obtains (quiet) "same_pay w w'" "r = Inr None \<or> (\<exists>e. r = Inl e)"
    | (settled) tx tx' a where
        "tx \<in> set (txs w)" "tx_ID tx = tx_ID row" "\<not> Terminal (tx_Status tx)"
        "Transition (Some tx) target = Inr tx'"
        "txs w' = reconciled (now w) tx tx'
           (if Terminal (tx_Status tx') then None
            else Some (now w + backoff (tx_ReconciliationAttempts tx + 1))) (txs w)"
        "a \<in> set (atts w)" "att_TransactionID a = tx_ID tx"
        "att_ProviderAccountID a = tx_SelectedProviderAccountID tx"
        "atts w' = at_key att_ID (att_ID a) (settle_attempt_update (now w) tx') (atts w)"
        "events w' = events w"
proof (cases r)
  case (Inl e)
  with assms show ?thesis
    unfolding settle_answer_def using Within_Inl_same_pay quiet by blast
next
  case (Inr change)
  note within = assms [unfolded settle_answer_def Inr Let_def]
  from within show ?thesis
  proof (rule Within_InrE, goal_cases)
    case (1 b1 b2 w9)
    note r = 1(1) and w' = 1(2)
    obtain tx wa where lock: "on_db (Transactions_LockForUpdate (tx_ID row)) (w\<lparr>db := (db w)\<lparr>faults := b1\<rparr>\<rparr>) = (Inr tx, wa)"
      by (rule bindE_InrE [OF r]) (rule that)
    note r = bindE_Inr_eq [OF lock r]
    have tx: "tx \<in> set (txs w)" "tx_ID tx = tx_ID row" using lock_tx_InrD(1,2) [OF lock] by simp_all
    have wa: "txs wa = txs w" "atts wa = atts w" "events wa = events w" "outside wa = outside w"
      using reads_rows [OF lock_tx_InrD(3) [OF lock]] by simp_all
    have quiet_at: ?thesis if "change = None" "w9 = wa"
      using that w' wa Inr by (intro quiet) (simp_all add: same_pay_def)
    show ?thesis
    proof (cases "Terminal (tx_Status tx)")
      case True
      with r quiet_at show ?thesis by (simp add: returnE_def)
    next
      case live: False
      from r live obtain tx' where tr: "Transition (Some tx) target = Inr tx'"
        by (simp add: bindE_liftE split: sum.splits)
      have same: "tx_ID tx' = tx_ID tx" "tx_ReconciliationAttempts tx' = tx_ReconciliationAttempts tx"
        "tx_SelectedProviderAccountID tx' = tx_SelectedProviderAccountID tx"
        using Transition_status_only [OF tr] by auto
      let ?next = "if Terminal (tx_Status tx') then None
                   else Some (now w + backoff (tx_ReconciliationAttempts tx + 1))"
      note r = r [unfolded if_not_P [OF live] bindE_liftE tr sum.case bindE_Now same wa]
      obtain applied wb where upd: "on_db_now (\<lambda>s. Transactions_UpdateFromStatus s (tx_ID tx) (tx_Status tx)
          (reconcile_update (now w) tx' ?next)) wa = (Inr applied, wb)"
        by (rule bindE_InrE [OF r]) (rule that)
      note r = bindE_Inr_eq [OF upd r] and u = update_tx_from_InrD [OF upd]
      have applied using u(5) wa tx by auto
      note r = r [simplified this]
      obtain a wc where att: "on_db (TransactionAttempts_LatestForTransaction (tx_ID tx)
          (tx_SelectedProviderAccountID tx)) wb = (Inr a, wc)"
        using r by (auto elim: bindE_InrE)
      note r = bindE_Inr_eq [OF att r [simplified]]
      obtain x wd where ua: "on_db (TransactionAttempts_Update (att_ID a) (settle_attempt_update (now w) tx')) wc = (Inr x, wd)"
        and w9: "wd = w9"
        using r unfolding settle_attempt_update_def Let_def
        by (auto elim!: bindE_InrE simp: returnE_def split: if_splits)
      note l = latest_attempt_InrD [OF att [unfolded TransactionAttempts_LatestForTransaction_def]]
      show ?thesis
        using tx live tr u l update_attempt_InrD [OF ua] reads_rows [OF l(3)] wa w' w9
        by (intro settled [of tx tx' a]) (simp_all add: reconciled_def)
    qed
  qed
qed

lemma settle_failure_cases:
  assumes "settle_failure row w = (r, w')"
  obtains (quiet) "same_pay w w'"
    | (settled) tx tx' where
        "tx \<in> set (txs w)" "tx_ID tx = tx_ID row" "\<not> Terminal (tx_Status tx)"
        "Transition (Some tx) TxUnknown = Inr tx'"
        "txs w' = reconciled (now w) tx tx'
           (Some (now w + backoff (tx_ReconciliationAttempts tx + 1))) (txs w)"
        "atts w' = atts w" "events w' = events w"
proof (cases r)
  case (Inl e)
  with assms show ?thesis
    unfolding settle_failure_def using Within_Inl_same_pay quiet by blast
next
  case (Inr change)
  note within = assms [unfolded settle_failure_def Inr Let_def]
  from within show ?thesis
  proof (rule Within_InrE, goal_cases)
    case (1 b1 b2 w9)
    note r = 1(1) and w' = 1(2)
    obtain tx wa where lock: "on_db (Transactions_LockForUpdate (tx_ID row)) (w\<lparr>db := (db w)\<lparr>faults := b1\<rparr>\<rparr>) = (Inr tx, wa)"
      by (rule bindE_InrE [OF r]) (rule that)
    note r = bindE_Inr_eq [OF lock r]
    have tx: "tx \<in> set (txs w)" "tx_ID tx = tx_ID row" using lock_tx_InrD(1,2) [OF lock] by simp_all
    have wa: "txs wa = txs w" "atts wa = atts w" "events wa = events w" "outside wa = outside w"
      using reads_rows [OF lock_tx_InrD(3) [OF lock]] by simp_all
    show ?thesis
    proof (cases "Terminal (tx_Status tx)")
      case True
      with r have "w9 = wa" by (simp add: returnE_def)
      with w' wa show ?thesis by (intro quiet) (simp add: same_pay_def)
    next
      case live: False
      from r live obtain tx' where tr: "Transition (Some tx) TxUnknown = Inr tx'"
        by (simp add: bindE_liftE bindE_Now split: sum.splits)
      have same: "tx_ID tx' = tx_ID tx" "tx_ReconciliationAttempts tx' = tx_ReconciliationAttempts tx"
        using Transition_status_only [OF tr] by auto
      note r = r [unfolded if_not_P [OF live] bindE_liftE tr sum.case bindE_Now same wa]
      obtain applied wb where upd: "on_db_now (\<lambda>s. Transactions_UpdateFromStatus s (tx_ID tx) (tx_Status tx)
          (reconcile_update (now w) tx' (Some (now w + backoff (tx_ReconciliationAttempts tx + 1))))) wa = (Inr applied, wb)"
        by (rule bindE_InrE [OF r]) (rule that)
      have "w9 = wb" using bindE_Inr_eq [OF upd r] by (simp add: returnE_def split: if_splits)
      then show ?thesis
        using tx live tr update_tx_from_InrD [OF upd] wa w'
        by (intro settled [of tx tx']) (simp_all add: reconciled_def)
    qed
  qed
qed

text \<open>Whatever the provider said: nothing, or one live row moved to what was said.\<close>

definition answer_status :: "err + ProviderTransactionStatus \<Rightarrow> string" where
  "answer_status result = (case result of Inl _ \<Rightarrow> TxUnknown | Inr s \<Rightarrow> PaymentStatus (ts_Status s))"

lemma settle_cases:
  assumes "settle row result w = (r, w')"
  obtains (quiet) "same_pay w w'"
    | (settled) tx tx' next_at j g where
        "tx \<in> set (txs w)" "tx_ID tx = tx_ID row" "\<not> Terminal (tx_Status tx)"
        "Transition (Some tx) (answer_status result) = Inr tx'"
        "txs w' = reconciled (now w) tx tx' next_at (txs w)"
        "next_at = (if Terminal (tx_Status tx') then None
                    else Some (now w + backoff (tx_ReconciliationAttempts tx + 1)))"
        "atts w' = at_key att_ID j g (atts w)"
        "g = (\<lambda>a. a) \<or> (\<exists>a\<in>set (atts w). att_ID a = j \<and> att_TransactionID a = tx_ID tx)"
        "\<And>a. att_ID (g a) = att_ID a \<and> att_TransactionID (g a) = att_TransactionID a \<and>
             att_ProviderAccountID (g a) = att_ProviderAccountID a \<and>
             att_ProviderReference (g a) = att_ProviderReference a"
        "events w' = events w"
proof (cases result)
  case (Inl e)
  show ?thesis
  proof (cases "gone (outside w)")
    case True
    with assms Inl have "w' = w" by (simp add: settle_def)
    then show ?thesis using quiet by (simp add: same_pay.refl_R)
  next
    case False
    obtain q w1 where q: "settle_failure row w = (q, w1)" by fastforce
    have w1: "db w' = db w1"
      using assms Inl False q
      by (auto simp: settle_def deferRetry_def bindE_def throwE_def dest: notify_option_InrD
          split: sum.splits prod.splits)
    from q show ?thesis
    proof (cases rule: settle_failure_cases)
      case quiet
      with w1 show ?thesis by (intro that(1)) (simp add: same_pay_def)
    next
      case (settled tx tx')
      have "\<not> Terminal (tx_Status tx')"
        using settled(3,4) by (auto simp: Transition_Inr_iff effective_status_def split: if_splits)
      then show ?thesis
        using settled w1 Inl
        by (intro that(2) [of tx tx' _ "[]" "\<lambda>a. a"]) (simp_all add: answer_status_def at_key_def)
    qed
  qed
next
  case (Inr s)
  obtain q w1 where q: "settle_answer row (PaymentStatus (ts_Status s)) w = (q, w1)" by fastforce
  have w1: "db w' = db w1"
    using assms Inr q by (auto simp: settle_def bindE_def dest: notify_option_InrD split: sum.splits prod.splits)
  from q show ?thesis
  proof (cases rule: settle_answer_cases)
    case quiet
    with w1 show ?thesis by (intro that(1)) (simp add: same_pay_def)
  next
    case (settled tx tx' a)
    with w1 Inr show ?thesis
      by (intro that(2) [of tx tx' _ "att_ID a" "settle_attempt_update (now w) tx'"])
         (auto simp: answer_status_def settle_attempt_update_def Let_def)
  qed
qed

end
