(* ===== verification/System.thy ===== *)
theory System
  imports Effects
begin

text \<open>
  The engine as a transition system: payments, webhook deliveries, retries of stored events
  and reconciliations run at the same time against one database. A step is one database
  transaction of one of them; everything that leaves the tables of transactions, attempts
  and webhook events alone (reads, provider calls, admin work on other tables, the clock)
  is the step \<open>Quiet\<close>. What an operation carries between its steps is part of the state:
  payments that passed their checks (\<open>assembled\<close>), payments whose provider call is under way
  (\<open>inflight\<close>), rows a reconciliation run read (\<open>polled\<close>) and events a retry run read
  (\<open>queued\<close>). \<open>admitted\<close> records the payments that were allowed to call a provider.
\<close>

type_synonym admission = "Transaction \<times> TransactionAttempt"

record 'p system =
  sys_world :: "'p world"
  assembled :: "admission list"
  inflight :: "admission list"
  polled :: "Transaction list"
  queued :: "WebhookEvent list"
  admitted :: "(string \<times> string) list"

abbreviation sys_txs :: "'p system \<Rightarrow> Transaction list" where "sys_txs s \<equiv> txs (sys_world s)"
abbreviation sys_atts :: "'p system \<Rightarrow> TransactionAttempt list" where "sys_atts s \<equiv> atts (sys_world s)"
abbreviation sys_events :: "'p system \<Rightarrow> WebhookEvent list" where "sys_events s \<equiv> events (sys_world s)"

text \<open>The caller of \<open>Persist\<close> may be answered anything by the provider, and the process may
  stop before it (\<open>Abandon\<close>). \<open>Cleanup\<close> is the retention worker.\<close>

inductive system_step :: "'p env \<Rightarrow> 'p system \<Rightarrow> 'p system \<Rightarrow> bool" for E where
  Quiet: "same_pay (sys_world s) w' \<Longrightarrow> system_step E s (s\<lparr>sys_world := w'\<rparr>)"
| Assemble: "assemble E appID service key req hash (sys_world s) = (Inr (tx, att, call, sel), w') \<Longrightarrow>
    system_step E s (s\<lparr>sys_world := w', assembled := (tx, att) # assembled s\<rparr>)"
| Insert: "(tx, att) \<in> set (assembled s) \<Longrightarrow>
    insert_payment tx att (sys_world s) = (Inr (tx1, att1), w') \<Longrightarrow>
    system_step E s (s\<lparr>sys_world := w', assembled := remove1 (tx, att) (assembled s),
                      inflight := (tx1, att1) # inflight s,
                      admitted := (tx_AppID tx, tx_IdempotencyKey tx) # admitted s\<rparr>)"
| Persist: "(tx, att) \<in> set (inflight s) \<Longrightarrow> persist E tx att code result (sys_world s) = (r, w') \<Longrightarrow>
    system_step E s (s\<lparr>sys_world := w', inflight := remove1 (tx, att) (inflight s)\<rparr>)"
| Abandon: "system_step E s (s\<lparr>assembled := [], inflight := [], polled := [], queued := []\<rparr>)"
| Callback: "env_event_json E event = Inr stored \<Longrightarrow> ev_ProviderReference (vw_Event event) \<noteq> [] \<Longrightarrow>
    store_and_apply E (webhook_row i accountID event stored) event (sys_world s) = (r, w') \<Longrightarrow>
    system_step E s (s\<lparr>sys_world := w'\<rparr>)"
| Fetch: "on_db (WebhookEvents_Pending limit) (sys_world s) = (Inr rows, w') \<Longrightarrow>
    system_step E s (s\<lparr>sys_world := w', queued := rows @ queued s\<rparr>)"
| Retry: "row \<in> set (queued s) \<Longrightarrow> env_event_of_json E (we_PayloadJSON row) = Inr event \<Longrightarrow>
    Within (apply_event E (we_ID row) event) (sys_world s) = (r, w') \<Longrightarrow>
    system_step E s (s\<lparr>sys_world := w'\<rparr>)"
| Poll: "on_db (Transactions_DueForReconciliation t limit) (sys_world s) = (Inr rows, w') \<Longrightarrow>
    system_step E s (s\<lparr>sys_world := w', polled := rows @ polled s\<rparr>)"
| Settle: "row \<in> set (polled s) \<Longrightarrow> settle row result (sys_world s) = (r, w') \<Longrightarrow>
    system_step E s (s\<lparr>sys_world := w'\<rparr>)"
| Cleanup: "on_db (WebhookEvents_DeleteProcessedBefore cutoff) (sys_world s) = (r, w') \<Longrightarrow>
    system_step E s (s\<lparr>sys_world := w'\<rparr>)"

abbreviation system_steps :: "'p env \<Rightarrow> 'p system \<Rightarrow> 'p system \<Rightarrow> bool" where
  "system_steps E \<equiv> (system_step E)\<^sup>*\<^sup>*"

definition initial :: "'p system \<Rightarrow> bool" where
  "initial s \<longleftrightarrow> sys_txs s = [] \<and> sys_atts s = [] \<and> sys_events s = [] \<and> assembled s = [] \<and>
     inflight s = [] \<and> polled s = [] \<and> queued s = [] \<and> admitted s = []"

section \<open>What holds between steps\<close>

text \<open>A stored event never decodes to one without a provider reference. The JSON encoding is
  outside the model; what is relied on is that decoding what was encoded does not lose the
  reference.\<close>

definition payload_ok :: "'p env \<Rightarrow> string \<Rightarrow> bool" where
  "payload_ok E stored \<longleftrightarrow>
     (\<forall>event. env_event_of_json E stored = Inr event \<longrightarrow> ev_ProviderReference (vw_Event event) \<noteq> [])"

definition json_keeps_reference :: "'p env \<Rightarrow> bool" where
  "json_keeps_reference E \<longleftrightarrow>
     (\<forall>event stored. env_event_json E event = Inr stored \<longrightarrow>
        ev_ProviderReference (vw_Event event) \<noteq> [] \<longrightarrow> payload_ok E stored)"

text \<open>A payment whose result is awaited: its row is as it was inserted, and no attempt of it
  carries a reference a webhook could name.\<close>

definition awaiting :: "'p world \<Rightarrow> admission \<Rightarrow> bool" where
  "awaiting w p \<longleftrightarrow>
     fst p \<in> set (txs w) \<and> snd p \<in> set (atts w) \<and> tx_Status (fst p) = TxProcessing \<and>
     tx_ProviderReference (fst p) = [] \<and> att_TransactionID (snd p) = tx_ID (fst p) \<and>
     (\<forall>a\<in>set (atts w). att_TransactionID a = tx_ID (fst p) \<longrightarrow> att_ProviderReference a = [])"

definition fresh_admission :: "admission \<Rightarrow> bool" where
  "fresh_admission p \<longleftrightarrow>
     tx_Status (fst p) = TxProcessing \<and> tx_ProviderReference (fst p) = [] \<and>
     att_ProviderReference (snd p) = [] \<and> att_TransactionID (snd p) = tx_ID (fst p)"

definition tables_sound :: "'p world \<Rightarrow> bool" where
  "tables_sound w \<longleftrightarrow>
     unique_txs (txs w) \<and> distinct (map att_ID (atts w)) \<and>
     (\<forall>a\<in>set (atts w). \<exists>t\<in>set (txs w). tx_ID t = att_TransactionID a)"

definition referenced :: "'p world \<Rightarrow> string \<Rightarrow> bool" where
  "referenced w i \<longleftrightarrow> (\<exists>t\<in>set (txs w). tx_ID t = i \<and> tx_ProviderReference t \<noteq> [])"

definition recorded :: "'p world \<Rightarrow> string \<times> string \<Rightarrow> bool" where
  "recorded w k \<longleftrightarrow> k \<in> (\<lambda>t. (tx_AppID t, tx_IdempotencyKey t)) ` set (txs w)"

definition system_sound :: "'p env \<Rightarrow> 'p system \<Rightarrow> bool" where
  "system_sound E s \<longleftrightarrow>
     tables_sound (sys_world s) \<and>
     (\<forall>p\<in>set (assembled s). fresh_admission p) \<and>
     (\<forall>p\<in>set (inflight s). awaiting (sys_world s) p) \<and>
     distinct (map (\<lambda>p. tx_ID (fst p)) (inflight s)) \<and>
     (\<forall>r\<in>set (polled s). referenced (sys_world s) (tx_ID r)) \<and>
     (\<forall>e\<in>set (sys_events s). payload_ok E (we_PayloadJSON e)) \<and>
     (\<forall>e\<in>set (queued s). payload_ok E (we_PayloadJSON e)) \<and>
     distinct (admitted s) \<and> (\<forall>k\<in>set (admitted s). recorded (sys_world s) k)"

lemma initial_sound: "initial s \<Longrightarrow> system_sound E s"
  by (simp add: initial_def system_sound_def tables_sound_def unique_txs_def)

section \<open>Writes that touch one transaction\<close>

text \<open>The rows of transaction \<open>i\<close> and its attempts change within their frames, a terminal status
  stays, and nothing else moves.\<close>

definition touches :: "string \<Rightarrow> 'p world \<Rightarrow> 'p world \<Rightarrow> bool" where
  "touches i w w' \<longleftrightarrow>
     (\<exists>f g. txs w' = map f (txs w) \<and> atts w' = map g (atts w) \<and>
        (\<forall>t\<in>set (txs w). tx_step t (f t) \<and> (tx_ID t \<noteq> i \<longrightarrow> f t = t)) \<and>
        (\<forall>a\<in>set (atts w). att_ID (g a) = att_ID a \<and> att_TransactionID (g a) = att_TransactionID a \<and>
           (att_TransactionID a \<noteq> i \<longrightarrow> g a = a)))"

lemma touchesE:
  assumes "touches i w w'"
  obtains f g where "txs w' = map f (txs w)" "atts w' = map g (atts w)"
    "\<And>t. t \<in> set (txs w) \<Longrightarrow> tx_step t (f t)"
    "\<And>t. t \<in> set (txs w) \<Longrightarrow> tx_ID t \<noteq> i \<Longrightarrow> f t = t"
    "\<And>a. a \<in> set (atts w) \<Longrightarrow> att_ID (g a) = att_ID a"
    "\<And>a. a \<in> set (atts w) \<Longrightarrow> att_TransactionID (g a) = att_TransactionID a"
    "\<And>a. a \<in> set (atts w) \<Longrightarrow> att_TransactionID a \<noteq> i \<Longrightarrow> g a = a"
  using assms unfolding touches_def by (elim exE conjE) (rule that, assumption, assumption; simp)

lemma unique_txs_map_in:
  assumes "\<And>x. x \<in> set xs \<Longrightarrow> tx_frame x (f x)"
  shows "unique_txs (map f xs) = unique_txs xs"
proof -
  have "tx_clash (f x) (f y) = tx_clash x y" if "x \<in> set xs" "y \<in> set xs" for x y
    using that by (intro tx_clash_frame assms)
  then show ?thesis
    unfolding unique_txs_def sorted_wrt_map by (intro iffI; elim sorted_wrt_mono_rel [rotated]) simp_all
qed

lemma touches_tables_sound:
  assumes "touches i w w'" and "tables_sound w"
  shows "tables_sound w'"
proof -
  from assms(1) obtain f g where f: "txs w' = map f (txs w)" "\<And>t. t \<in> set (txs w) \<Longrightarrow> tx_step t (f t)"
    and g: "atts w' = map g (atts w)" "\<And>a. a \<in> set (atts w) \<Longrightarrow> att_ID (g a) = att_ID a"
      "\<And>a. a \<in> set (atts w) \<Longrightarrow> att_TransactionID (g a) = att_TransactionID a" by (elim touchesE) blast
  have fr: "tx_frame t (f t)" if "t \<in> set (txs w)" for t using f(2) [OF that] by (simp add: tx_step_def)
  have "map (att_ID \<circ> g) (atts w) = map att_ID (atts w)" using g(2) by simp
  moreover have "\<exists>t\<in>set (txs w'). tx_ID t = att_TransactionID a" if "a \<in> set (atts w')" for a
  proof -
    from that obtain b where b: "b \<in> set (atts w)" "a = g b" by (auto simp: g(1))
    then obtain t where "t \<in> set (txs w)" "tx_ID t = att_TransactionID b"
      using assms(2) by (auto simp: tables_sound_def)
    then show ?thesis using b g(3) tx_frame_fields(1) [OF fr] by (auto simp: f(1))
  qed
  ultimately show ?thesis
    using assms(2) fr by (simp add: tables_sound_def f(1) g(1) unique_txs_map_in del: map_eq_conv)
qed

lemma touches_awaiting:
  assumes "touches i w w'" and "awaiting w p" and "tx_ID (fst p) \<noteq> i"
  shows "awaiting w' p"
proof -
  from assms(1) obtain f g where f: "txs w' = map f (txs w)" "\<And>t. t \<in> set (txs w) \<Longrightarrow> tx_ID t \<noteq> i \<Longrightarrow> f t = t"
    and g: "atts w' = map g (atts w)"
      "\<And>a. a \<in> set (atts w) \<Longrightarrow> att_TransactionID (g a) = att_TransactionID a"
      "\<And>a. a \<in> set (atts w) \<Longrightarrow> att_TransactionID a \<noteq> i \<Longrightarrow> g a = a" by (elim touchesE) blast
  have "fst p \<in> set (txs w')" using assms(2,3) f by (force simp: awaiting_def)
  moreover have "snd p \<in> set (atts w')" using assms(2,3) g(1,3) by (force simp: awaiting_def)
  ultimately show ?thesis using assms(2,3) g by (auto simp: awaiting_def)
qed

lemma touches_grows: "touches i w w' \<Longrightarrow> grows tx_step (txs w) (txs w')"
  by (elim touchesE) (simp add: grows_map)

lemma touches_members:
  assumes "touches i w w'" and "t \<in> set (txs w)"
  obtains t' where "t' \<in> set (txs w')" "tx_frame t t'"
  using assms by (elim touchesE) (auto simp: tx_step_def)

text \<open>The three kinds of unit of work that write to existing rows.\<close>

lemma touches_at_keys:
  assumes sound: "tables_sound w"
    and txs: "txs w' = at_key tx_ID i f (txs w)" and atts: "atts w' = at_key att_ID j g (atts w)"
    and f: "\<And>t. t \<in> set (txs w) \<Longrightarrow> tx_ID t = i \<Longrightarrow> tx_step t (f t)"
    and g: "\<And>a. att_ID (g a) = att_ID a" "\<And>a. att_TransactionID (g a) = att_TransactionID a"
    and att: "a \<in> set (atts w)" "att_ID a = j" "att_TransactionID a = i"
  shows "touches i w w'"
proof -
  have only: "x = a" if "x \<in> set (atts w)" "att_ID x = j" for x
    using that att sound by (metis tables_sound_def distinct_map inj_onD)
  show ?thesis
    unfolding touches_def txs atts at_key_def
    using f g only att(3)
    by (intro exI [of _ "\<lambda>r. if tx_ID r = i then f r else r"] exI [of _ "\<lambda>r. if att_ID r = j then g r else r"])
       auto
qed

lemma tx_step_live: "\<not> Terminal (tx_Status t) \<Longrightarrow> tx_frame t t' \<Longrightarrow> tx_step t t'"
  by (simp add: tx_step_def)

lemma tables_sound_ID:
  "tables_sound w \<Longrightarrow> t \<in> set (txs w) \<Longrightarrow> t' \<in> set (txs w) \<Longrightarrow> tx_ID t = tx_ID t' \<Longrightarrow> t = t'"
  unfolding tables_sound_def using unique_txs_ID by blast

lemma persist_touches:
  assumes "persist E tx att code result w = (r, w')" and "tables_sound w" and "awaiting w (tx, att)"
  shows "same_pay w w' \<or> (touches (tx_ID tx) w w' \<and> events w' = events w)"
  using assms(1)
proof (cases rule: persist_cases)
  case refused
  then show ?thesis by simp
next
  case (written tx' fa ft msg)
  have "touches (tx_ID tx) w w'"
  proof (rule touches_at_keys [OF assms(2) written(2,3)])
    show "tx_step t ((ft t)\<lparr>tx_UpdatedAt := now w\<rparr>)" if "t \<in> set (txs w)" "tx_ID t = tx_ID tx" for t
    proof -
      have "t = tx" using tables_sound_ID [OF assms(2)] that assms(3) by (simp add: awaiting_def)
      then show ?thesis
        using assms(3) persist_plan_InrD(6) [OF written(1)] by (intro tx_step_live) (simp_all add: awaiting_def)
    qed
  qed (use assms(3) persist_plan_InrD [OF written(1)] in \<open>auto simp: awaiting_def\<close>)
  with written(4) show ?thesis by simp
qed

lemma webhook_attempt_updates_fields [simp]:
  "att_ID (webhook_attempt_updates E t tx ev a) = att_ID a"
  "att_TransactionID (webhook_attempt_updates E t tx ev a) = att_TransactionID a"
  "att_ProviderReference (webhook_attempt_updates E t tx ev a) = ev_ProviderReference ev"
  by (simp_all add: webhook_attempt_updates_def Let_def)

lemma apply_event_touches:
  assumes "apply_event E rowID event w = (Inr change, w')" and sound: "tables_sound w"
  obtains "reads w w'"
    | i where "touches i w w'" "\<And>t. t \<in> set (txs w') \<Longrightarrow> tx_ID t = i \<Longrightarrow>
          tx_ProviderReference t = ev_ProviderReference (vw_Event event)"
        "\<exists>a\<in>set (atts w). att_TransactionID a = i \<and>
           att_ProviderReference a = ev_ProviderReference (vw_Event event)"
        "map we_PayloadJSON (events w') = map we_PayloadJSON (events w)"
  using assms(1)
proof (cases rule: apply_event_cases)
  case unmatched
  then show ?thesis using that(1) by blast
next
  case (applied tx a tx')
  have "touches (tx_ID tx) w w'"
  proof (rule touches_at_keys [OF sound applied(8,9)])
    show "tx_step t ((webhook_tx_updates (now w) tx' (vw_Event event) t)\<lparr>tx_UpdatedAt := now w\<rparr>)"
      if "t \<in> set (txs w)" "tx_ID t = tx_ID tx" for t
    proof -
      have "t = tx" using tables_sound_ID [OF sound] that applied(4) by blast
      moreover have "Terminal (tx_Status tx) \<Longrightarrow> tx' = tx" using Transition_terminal applied(7) by blast
      ultimately show ?thesis
        using tx_frame_webhook by (auto simp: tx_step_def webhook_tx_updates_def)
    qed
  qed (use applied in auto)
  then show ?thesis
  proof (rule that(2))
    show "tx_ProviderReference t = ev_ProviderReference (vw_Event event)"
      if t: "t \<in> set (txs w')" "tx_ID t = tx_ID tx" for t
    proof -
      let ?f = "\<lambda>r. (webhook_tx_updates (now w) tx' (vw_Event event) r)\<lparr>tx_UpdatedAt := now w\<rparr>"
      have f: "tx_ProviderReference (?f r) = ev_ProviderReference (vw_Event event)" "tx_ID (?f r) = tx_ID r" for r
        by (simp_all add: webhook_tx_updates_def)
      obtain r where r: "t = (if tx_ID r = tx_ID tx then ?f r else r)"
        using t(1) unfolding applied(8) set_at_key by blast
      show ?thesis
      proof (cases "tx_ID r = tx_ID tx")
        case True
        with r have "t = ?f r" by simp
        then show ?thesis using f(1) by (rule ssubst)
      next
        case False
        with r t(2) show ?thesis by simp
      qed
    qed
    show "\<exists>b\<in>set (atts w). att_TransactionID b = tx_ID tx \<and>
           att_ProviderReference b = ev_ProviderReference (vw_Event event)"
      using applied(1,3,5) by auto
    show "map we_PayloadJSON (events w') = map we_PayloadJSON (events w)"
      unfolding applied(10) by (rule map_at_key) simp
  qed
qed

lemma settle_touches:
  assumes "settle row result w = (r, w')" and sound: "tables_sound w"
  obtains "same_pay w w'"
    | "touches (tx_ID row) w w'" "events w' = events w"
      "\<And>t. t \<in> set (txs w) \<Longrightarrow> \<exists>t'\<in>set (txs w'). tx_ID t' = tx_ID t \<and> tx_ProviderReference t' = tx_ProviderReference t"
  using assms(1)
proof (cases rule: settle_cases)
  case quiet
  then show ?thesis using that(1) by blast
next
  case (settled tx tx' next_at j g)
  let ?f = "\<lambda>r. if tx_ID r = tx_ID tx \<and> tx_Status r = tx_Status tx
                then (reconcile_update (now w) tx' next_at r)\<lparr>tx_UpdatedAt := now w\<rparr> else r"
  have only: "att_TransactionID x = tx_ID tx" if "x \<in> set (atts w)" "att_ID x = j" "g \<noteq> (\<lambda>a. a)" for x
    using that settled(8) sound by (metis tables_sound_def distinct_map inj_onD)
  have "touches (tx_ID tx) w w'"
    unfolding touches_def settled(5,7) at_key_def reconciled_def
  proof (intro exI conjI ballI)
    show "map ?f (txs w) = map ?f (txs w)" ..
    show "tx_step t (?f t)" if "t \<in> set (txs w)" for t
      using tx_frame_reconcile settled(3) by (auto simp: tx_step_def)
    show "map (\<lambda>r. if att_ID r = j then g r else r) (atts w) = map (\<lambda>r. if att_ID r = j then g r else r) (atts w)" ..
    show "att_TransactionID a \<noteq> tx_ID tx \<longrightarrow> (if att_ID a = j then g a else a) = a" if "a \<in> set (atts w)" for a
      using only [OF that] by auto
  qed (use settled(9) in auto)
  moreover have "\<exists>t'\<in>set (txs w'). tx_ID t' = tx_ID t \<and> tx_ProviderReference t' = tx_ProviderReference t"
    if "t \<in> set (txs w)" for t
    using that unfolding settled(5) reconciled_def
    by (intro bexI [of _ "?f t"]) (auto simp: reconcile_update_def CountReconcileAttempt_def)
  ultimately show ?thesis using that(2) settled by simp
qed

section \<open>Every step keeps the system sound\<close>

lemma same_pay_sound:
  assumes "system_sound E s" and "same_pay (sys_world s) w'"
  shows "system_sound E (s\<lparr>sys_world := w'\<rparr>)"
  using assms by (simp add: system_sound_def same_pay_def tables_sound_def awaiting_def referenced_def recorded_def)

text \<open>A write to one transaction is harmless when nobody awaits its result and it keeps
  references.\<close>

lemma touches_sound:
  assumes sound: "system_sound E s" and touch: "touches i (sys_world s) w'"
    and free: "\<And>p. p \<in> set (inflight s) \<Longrightarrow> tx_ID (fst p) \<noteq> i"
    and refs: "\<And>j. referenced (sys_world s) j \<Longrightarrow> referenced w' j"
    and events: "set (map we_PayloadJSON (events w')) \<subseteq> set (map we_PayloadJSON (sys_events s))"
  shows "system_sound E (s\<lparr>sys_world := w'\<rparr>)"
proof -
  have "recorded w' k" if k: "recorded (sys_world s) k" for k
  proof -
    obtain t where t: "t \<in> set (sys_txs s)" "k = (tx_AppID t, tx_IdempotencyKey t)"
      using k by (auto simp: recorded_def)
    obtain t' where t': "t' \<in> set (txs w')" "tx_frame t t'" by (rule touches_members [OF touch t(1)])
    then show ?thesis unfolding recorded_def t(2) using tx_frame_fields(2,3) [OF t'(2)] by (intro image_eqI [of _ _ t']) simp_all
  qed
  moreover have "payload_ok E (we_PayloadJSON e)" if "e \<in> set (events w')" for e
  proof -
    have "we_PayloadJSON e \<in> set (map we_PayloadJSON (sys_events s))" using that events by auto
    then show ?thesis using sound by (auto simp: system_sound_def)
  qed
  ultimately show ?thesis
    using sound free refs touches_tables_sound [OF touch] touches_awaiting [OF touch]
    unfolding system_sound_def by simp
qed

lemma awaiting_unreferenced:
  assumes "tables_sound w" and "awaiting w p"
  shows "\<not> referenced w (tx_ID (fst p))"
  using tables_sound_ID [OF assms(1)] assms(2) by (auto simp: referenced_def awaiting_def)

lemma touches_referenced:
  assumes "touches i w w'" and "referenced w j" and "j \<noteq> i"
  shows "referenced w' j"
proof -
  from assms(1) obtain f where "txs w' = map f (txs w)" "\<And>t. t \<in> set (txs w) \<Longrightarrow> tx_ID t \<noteq> i \<Longrightarrow> f t = t"
    by (elim touchesE) blast
  with assms(2,3) show ?thesis by (force simp: referenced_def)
qed

lemma apply_event_sound:
  assumes sound: "system_sound E s"
    and ev: "apply_event E rowID event w0 = (Inr change, w1)"
    and w0: "txs w0 = sys_txs s" "atts w0 = sys_atts s" "set (map we_PayloadJSON (events w0)) \<subseteq> P"
    and P: "\<forall>x\<in>P. payload_ok E x"
    and w': "same_pay w1 w'" and ref: "ev_ProviderReference (vw_Event event) \<noteq> []"
  shows "system_sound E (s\<lparr>sys_world := w'\<rparr>)"
proof -
  let ?s = "s\<lparr>sys_world := w0\<rparr>"
  have s0: "system_sound E ?s"
    using sound w0 P by (auto simp: system_sound_def tables_sound_def awaiting_def referenced_def recorded_def)
  have t0: "tables_sound w0" using s0 by (simp add: system_sound_def)
  have "system_sound E (?s\<lparr>sys_world := w1\<rparr>)"
    using ev t0
  proof (cases rule: apply_event_touches)
    case 1
    then have "same_pay (sys_world ?s) w1" by (simp add: reads_same_pay)
    then show ?thesis by (rule same_pay_sound [OF s0])
  next
    case (2 i)
    show ?thesis
    proof (rule touches_sound [OF s0])
      show "touches i (sys_world ?s) w1" using 2(1) by simp
      show "tx_ID (fst p) \<noteq> i" if "p \<in> set (inflight ?s)" for p
        using that s0 2(3) ref by (auto simp: system_sound_def awaiting_def)
      show "referenced w1 j" if j: "referenced (sys_world ?s) j" for j
      proof (cases "j = i")
        case True
        obtain t where t: "t \<in> set (txs w0)" "tx_ID t = i" using j True by (auto simp: referenced_def)
        obtain t' where "t' \<in> set (txs w1)" "tx_frame t t'" by (rule touches_members [OF 2(1) t(1)])
        then show ?thesis
          using t 2(2) [of t'] ref tx_frame_fields(1) [of t t'] True unfolding referenced_def by force
      next
        case False
        then show ?thesis using touches_referenced [OF 2(1)] j by simp
      qed
    qed (use 2(4) in simp)
  qed
  then show ?thesis using same_pay_sound [of E "?s\<lparr>sys_world := w1\<rparr>" w'] w' by simp
qed

lemma assemble_fresh:
  assumes "assemble E appID service key req hash w = (Inr (tx, att, call, sel), w')"
  shows "fresh_admission (tx, att)" "tx_AppID tx = appID" "tx_IdempotencyKey tx = key"
  by (rule assemble_InrD [OF assms]; simp add: fresh_admission_def new_transaction_def new_attempt_def)+

lemma assemble_sound:
  assumes "system_sound E s"
    and "assemble E appID service key req hash (sys_world s) = (Inr (tx, att, call, sel), w')"
  shows "system_sound E (s\<lparr>sys_world := w', assembled := (tx, att) # assembled s\<rparr>)"
  using same_pay_sound [OF assms(1) movesD [OF same_pay_assemble assms(2)]] assemble_fresh [OF assms(2)]
  by (simp add: system_sound_def)

lemma insert_sound:
  assumes sound: "system_sound E s" and "(tx, att) \<in> set (assembled s)"
    and ins: "insert_payment tx att (sys_world s) = (Inr (tx1, att1), w')"
  shows "system_sound E (s\<lparr>sys_world := w', assembled := remove1 (tx, att) (assembled s),
                           inflight := (tx1, att1) # inflight s,
                           admitted := (tx_AppID tx, tx_IdempotencyKey tx) # admitted s\<rparr>)"
proof -
  let ?w = "sys_world s"
  note i = insert_payment_InrD [OF ins]
  have fresh: "fresh_admission (tx, att)" using sound assms(2) by (auto simp: system_sound_def)
  have keys: "tx_ID tx1 = tx_ID tx" "tx_AppID tx1 = tx_AppID tx" "tx_IdempotencyKey tx1 = tx_IdempotencyKey tx"
    "tx_Status tx1 = tx_Status tx" "tx_ProviderReference tx1 = tx_ProviderReference tx"
    "att_ID att1 = att_ID att" "att_TransactionID att1 = att_TransactionID att"
    "att_ProviderReference att1 = att_ProviderReference att"
    using i(1,2) by simp_all
  have t0: "tables_sound ?w" using sound by (simp add: system_sound_def)
  have new: "tx_ID t \<noteq> tx_ID tx" "(tx_AppID t, tx_IdempotencyKey t) \<noteq> (tx_AppID tx, tx_IdempotencyKey tx)"
    if "t \<in> set (txs ?w)" for t
    using i(5) [OF that] keys by (auto simp: tx_clash_def)
  have atts_old: "att_TransactionID a \<noteq> tx_ID tx" if a: "a \<in> set (atts ?w)" for a
    using t0 a new(1) unfolding tables_sound_def by metis
  have "att_ID att \<notin> att_ID ` set (atts ?w)" by (metis i(6) imageE)
  then have sound': "tables_sound w'"
    using t0 i(5) keys fresh
    by (auto simp: tables_sound_def i(3,4) unique_txs_append fresh_admission_def)
  have mine: "awaiting w' (tx1, att1)"
    using fresh keys atts_old by (auto simp: awaiting_def i(3,4) fresh_admission_def)
  have others: "awaiting w' p \<and> tx_ID (fst p) \<noteq> tx_ID tx1" if p: "p \<in> set (inflight s)" for p
    using sound p new(1) keys fresh
    by (auto simp: system_sound_def awaiting_def i(3,4) fresh_admission_def)
  have "\<not> recorded ?w (tx_AppID tx, tx_IdempotencyKey tx)"
  proof
    assume "recorded ?w (tx_AppID tx, tx_IdempotencyKey tx)"
    then obtain t where t: "t \<in> set (txs ?w)"
        "(tx_AppID t, tx_IdempotencyKey t) = (tx_AppID tx, tx_IdempotencyKey tx)"
      unfolding recorded_def by (elim imageE) (rule that, assumption, simp)
    show False using new(2) [OF t(1)] t(2) by (rule notE)
  qed
  then have first: "(tx_AppID tx, tx_IdempotencyKey tx) \<notin> set (admitted s)"
    using sound unfolding system_sound_def by blast
  have rec: "recorded w' k" if "recorded ?w k \<or> k = (tx_AppID tx, tx_IdempotencyKey tx)" for k
    using that keys by (auto simp: recorded_def i(3))
  have ref: "referenced w' j" if "referenced ?w j" for j
    using that by (auto simp: referenced_def i(3))
  have rm: "\<forall>p\<in>set (remove1 (tx, att) (assembled s)). fresh_admission p"
    using sound by (auto simp: system_sound_def dest: notin_set_remove1)
  have ids: "tx_ID tx1 \<notin> set (map (\<lambda>p. tx_ID (fst p)) (inflight s))"
    using others by fastforce
  show ?thesis
    using sound sound' mine others first rec ref rm ids i(8) unfolding system_sound_def by simp
qed

lemma persist_sound:
  assumes sound: "system_sound E s" and "(tx, att) \<in> set (inflight s)"
    and "persist E tx att code result (sys_world s) = (r, w')"
  shows "system_sound E (s\<lparr>sys_world := w', inflight := remove1 (tx, att) (inflight s)\<rparr>)"
proof -
  let ?s = "s\<lparr>inflight := remove1 (tx, att) (inflight s)\<rparr>"
  have await: "awaiting (sys_world s) (tx, att)" and t0: "tables_sound (sys_world s)"
    and d: "distinct (map (\<lambda>p. tx_ID (fst p)) (inflight s))"
    using sound assms(2) by (auto simp: system_sound_def)
  obtain xs ys where xs: "inflight s = xs @ (tx, att) # ys" "(tx, att) \<notin> set xs"
    using assms(2) by (metis split_list_first)
  have rest: "remove1 (tx, att) (inflight s) = xs @ ys" using xs by (simp add: remove1_append)
  have s0: "system_sound E ?s" using sound xs rest by (auto simp: system_sound_def)
  have free: "tx_ID (fst p) \<noteq> tx_ID tx" if "p \<in> set (inflight ?s)" for p
    using that d rest xs by (auto simp: image_iff)
  have "same_pay (sys_world s) w' \<or> (touches (tx_ID tx) (sys_world s) w' \<and> events w' = sys_events s)"
    using persist_touches [OF assms(3) t0 await] .
  then have "system_sound E (?s\<lparr>sys_world := w'\<rparr>)"
  proof
    assume "same_pay (sys_world s) w'"
    then show ?thesis using same_pay_sound [OF s0] by simp
  next
    assume t: "touches (tx_ID tx) (sys_world s) w' \<and> events w' = sys_events s"
    show ?thesis
    proof (rule touches_sound [OF s0])
      show "referenced w' j" if "referenced (sys_world ?s) j" for j
        using that t touches_referenced awaiting_unreferenced [OF t0 await] by fastforce
    qed (use t free in auto)
  qed
  moreover have "?s\<lparr>sys_world := w'\<rparr> = s\<lparr>sys_world := w', inflight := remove1 (tx, att) (inflight s)\<rparr>"
    by (cases s) simp
  ultimately show ?thesis by simp
qed

lemma settle_sound:
  assumes sound: "system_sound E s" and row: "row \<in> set (polled s)"
    and settle: "settle row result (sys_world s) = (r, w')"
  shows "system_sound E (s\<lparr>sys_world := w'\<rparr>)"
proof -
  have t0: "tables_sound (sys_world s)" and ref: "referenced (sys_world s) (tx_ID row)"
    using sound row by (auto simp: system_sound_def)
  from settle t0 show ?thesis
  proof (cases rule: settle_touches)
    case 1
    then show ?thesis by (rule same_pay_sound [OF sound])
  next
    case 2
    show ?thesis
    proof (rule touches_sound [OF sound 2(1)])
      show "tx_ID (fst p) \<noteq> tx_ID row" if "p \<in> set (inflight s)" for p
        using awaiting_unreferenced [OF t0, of p] that sound ref by (auto simp: system_sound_def)
      show "referenced w' j" if "referenced (sys_world s) j" for j
        using that 2(3) by (fastforce simp: referenced_def)
    qed (use 2(2) in simp)
  qed
qed

lemma callback_sound:
  assumes sound: "system_sound E s" and E: "json_keeps_reference E"
    and stored: "env_event_json E event = Inr stored" and ref: "ev_ProviderReference (vw_Event event) \<noteq> []"
    and run: "store_and_apply E (webhook_row i accountID event stored) event (sys_world s) = (r, w')"
  shows "system_sound E (s\<lparr>sys_world := w'\<rparr>)"
  using run
proof (cases rule: store_and_apply_cases)
  case (stored w0 w1 change)
  let ?P = "insert stored (we_PayloadJSON ` set (sys_events s))"
  have P: "\<forall>x\<in>?P. payload_ok E x"
    using sound E assms(3) ref by (auto simp: system_sound_def json_keeps_reference_def)
  have "set (map we_PayloadJSON (events w0)) \<subseteq> ?P" using stored(6) by (auto simp: webhook_row_def)
  then show ?thesis
    by (rule apply_event_sound [OF sound stored(7) stored(3,4) _ P stored(9) ref])
qed (use same_pay_sound [OF sound] in blast)+

lemma retry_sound:
  assumes sound: "system_sound E s" and row: "row \<in> set (queued s)"
    and event: "env_event_of_json E (we_PayloadJSON row) = Inr event"
    and run: "Within (apply_event E (we_ID row) event) (sys_world s) = (r, w')"
  shows "system_sound E (s\<lparr>sys_world := w'\<rparr>)"
  using run
proof (cases rule: retry_cases)
  case refused
  then show ?thesis using same_pay_sound [OF sound] by blast
next
  case (retried w0 w1 change)
  let ?P = "we_PayloadJSON ` set (sys_events s)"
  have P: "\<forall>x\<in>?P. payload_ok E x" using sound by (auto simp: system_sound_def)
  have ref: "ev_ProviderReference (vw_Event event) \<noteq> []"
    using sound row event by (auto simp: system_sound_def payload_ok_def)
  show ?thesis
    by (rule apply_event_sound [OF sound retried(5) retried(1,2) _ P retried(7) ref])
       (simp add: retried(3))
qed

lemma pending_rows:
  assumes "on_db (WebhookEvents_Pending limit) w = (Inr rows, w')"
  shows "set rows \<subseteq> set (events w)" "\<And>e. e \<in> set rows \<Longrightarrow> \<not> we_Processed e" "same_pay w w'"
proof -
  obtain d where "base_find t_webhookEvents (\<lambda>es. take (nat limit) (sort_key we_CreatedAt es))
      (\<lambda>e. \<not> we_Processed e) (db w) = (Inr rows, d)"
    using assms unfolding WebhookEvents_Pending_def by (auto elim: on_dbE)
  note f = webhookEvents.find_InrD [OF this]
  show "set rows \<subseteq> set (events w)" "\<And>e. e \<in> set rows \<Longrightarrow> \<not> we_Processed e"
    unfolding f(1) by (auto dest: in_set_takeD)
  show "same_pay w w'"
    using movesD [OF same_pay_find assms [unfolded WebhookEvents_Pending_def]] .
qed

lemma due_rows:
  assumes "on_db (Transactions_DueForReconciliation t limit) w = (Inr rows, w')"
  shows "set rows \<subseteq> set (txs w)" "\<And>r. r \<in> set rows \<Longrightarrow> tx_ProviderReference r \<noteq> []"
    "\<And>r. r \<in> set rows \<Longrightarrow> \<not> Terminal (tx_Status r)" "same_pay w w'"
proof -
  let ?P = "\<lambda>t'. tx_Status t' \<in> set [TxPending, TxProcessing, TxUnknown] \<and> tx_ProviderReference t' \<noteq> [] \<and>
            (case tx_NextReconcileAt t' of None \<Rightarrow> True | Some n \<Rightarrow> n \<le> t)"
  obtain d where "base_find t_transactions (\<lambda>ts. take (nat limit) (sort_key tx_CreatedAt ts)) ?P (db w) = (Inr rows, d)"
    using assms unfolding Transactions_DueForReconciliation_def by (auto elim: on_dbE)
  note f = transactions.find_InrD [OF this]
  have r: "r \<in> set (txs w) \<and> ?P r" if "r \<in> set rows" for r
    using that unfolding f(1) by (auto dest: in_set_takeD)
  show "set rows \<subseteq> set (txs w)" "\<And>r. r \<in> set rows \<Longrightarrow> tx_ProviderReference r \<noteq> []" using r by auto
  show "\<not> Terminal (tx_Status r)" if "r \<in> set rows" for r using r [OF that] by auto
  show "same_pay w w'"
    using movesD [OF same_pay_find assms [unfolded Transactions_DueForReconciliation_def]] .
qed

lemma cleanup_rows:
  assumes "on_db (WebhookEvents_DeleteProcessedBefore cutoff) w = (r, w')"
  shows "set (events w') \<subseteq> set (events w)" "txs w' = txs w" "atts w' = atts w"
proof -
  obtain d where d: "WebhookEvents_DeleteProcessedBefore cutoff (db w) = (r, d)" "w' = w\<lparr>db := d\<rparr>"
    using assms by (rule on_dbE)
  then show "set (events w') \<subseteq> set (events w)" "txs w' = txs w" "atts w' = atts w"
    unfolding WebhookEvents_DeleteProcessedBefore_def base_deletes_def
    by (rule_tac [!] statement_cases [of "db w"]) auto
qed

lemma step_sound:
  assumes "system_step E s s'" and "json_keeps_reference E" and "system_sound E s"
  shows "system_sound E s'"
  using assms(1)
proof cases
  case (Quiet w')
  then show ?thesis using same_pay_sound [OF assms(3)] by blast
next
  case Assemble
  then show ?thesis using assemble_sound [OF assms(3)] by blast
next
  case Insert
  then show ?thesis using insert_sound [OF assms(3)] by blast
next
  case Persist
  then show ?thesis using persist_sound [OF assms(3)] by blast
next
  case Abandon
  then show ?thesis using assms(3) by (simp add: system_sound_def)
next
  case Callback
  then show ?thesis using callback_sound [OF assms(3,2)] by blast
next
  case (Fetch limit rows w')
  then show ?thesis
    using same_pay_sound [OF assms(3) pending_rows(3) [OF Fetch(2)]] pending_rows(1) [OF Fetch(2)] assms(3)
    by (auto simp: system_sound_def)
next
  case Retry
  then show ?thesis using retry_sound [OF assms(3)] by blast
next
  case (Poll t limit rows w')
  have w: "txs w' = sys_txs s" using due_rows(4) [OF Poll(2)] by (simp add: same_pay_def)
  have "referenced w' (tx_ID r)" if "r \<in> set rows" for r
    using that due_rows(1,2) [OF Poll(2)] w by (auto simp: referenced_def)
  then show ?thesis
    using same_pay_sound [OF assms(3) due_rows(4) [OF Poll(2)]] Poll(1) by (auto simp: system_sound_def)
next
  case Settle
  then show ?thesis using settle_sound [OF assms(3)] by blast
next
  case (Cleanup cutoff r w')
  then show ?thesis
    using assms(3) cleanup_rows [OF Cleanup(2)]
    by (auto simp: system_sound_def tables_sound_def awaiting_def referenced_def recorded_def)
qed

lemma steps_sound:
  "system_steps E s s' \<Longrightarrow> json_keeps_reference E \<Longrightarrow> system_sound E s \<Longrightarrow> system_sound E s'"
  by (induction rule: rtranclp_induct) (auto intro: step_sound)

section \<open>Rows through time\<close>

lemma same_pay_grows: "same_pay w w' \<Longrightarrow> grows tx_step (txs w) (txs w')"
  by (simp add: same_pay_def grows_refl)

lemma apply_event_grows:
  assumes "apply_event E rowID event w0 = (Inr change, w1)" and "tables_sound w0"
  shows "grows tx_step (txs w0) (txs w1)"
  using assms by (cases rule: apply_event_touches) (auto intro: same_pay_grows reads_same_pay touches_grows)

lemma tables_sound_cong: "txs w0 = txs w \<Longrightarrow> atts w0 = atts w \<Longrightarrow> tables_sound w0 = tables_sound w"
  by (simp add: tables_sound_def)

lemma step_grows:
  assumes "system_step E s s'" and "system_sound E s"
  shows "grows tx_step (sys_txs s) (sys_txs s')"
proof -
  have t0: "tables_sound (sys_world s)" using assms(2) by (simp add: system_sound_def)
  from assms(1) show ?thesis
  proof cases
    case (Quiet w')
    then show ?thesis by (simp add: same_pay_grows)
  next
    case Assemble
    then show ?thesis using same_pay_grows movesD [OF same_pay_assemble] by fastforce
  next
    case (Insert tx att tx1 att1 w')
    then show ?thesis using insert_payment_InrD(3) [OF Insert(3)] by (simp add: grows_append)
  next
    case (Persist tx att code result r w')
    have "awaiting (sys_world s) (tx, att)" using assms(2) Persist(2) by (auto simp: system_sound_def)
    with Persist show ?thesis
      using persist_touches [OF Persist(3) t0] same_pay_grows touches_grows by fastforce
  next
    case Abandon
    then show ?thesis by (simp add: grows_refl)
  next
    case (Callback event stored i accountID r w')
    from Callback(4) show ?thesis
    proof (cases rule: store_and_apply_cases)
      case (stored w0 w1 change)
      have "grows tx_step (txs w0) (txs w1)"
        using stored(7) t0 tables_sound_cong [OF stored(3,4)] by (intro apply_event_grows) simp_all
      then show ?thesis using stored(3,9) Callback(1) by (simp add: same_pay_def)
    qed (use Callback(1) same_pay_grows in auto)
  next
    case (Fetch limit rows w')
    then show ?thesis using same_pay_grows pending_rows(3) by fastforce
  next
    case (Retry row event r w')
    from Retry(4) show ?thesis
    proof (cases rule: retry_cases)
      case (retried w0 w1 change)
      have "grows tx_step (txs w0) (txs w1)"
        using retried(5) t0 tables_sound_cong [OF retried(1,2)] by (intro apply_event_grows) simp_all
      then show ?thesis using retried(1,7) Retry(1) by (simp add: same_pay_def)
    qed (use Retry(1) same_pay_grows in auto)
  next
    case (Poll t limit rows w')
    then show ?thesis using same_pay_grows due_rows(4) by fastforce
  next
    case (Settle row result r w')
    from Settle(3) t0 show ?thesis
      by (cases rule: settle_touches) (use Settle(1) same_pay_grows touches_grows in auto)
  next
    case (Cleanup cutoff r w')
    then show ?thesis using cleanup_rows(2) [OF Cleanup(2)] by (simp add: grows_refl)
  qed
qed

lemma steps_grow:
  assumes "system_steps E s s'" and "json_keeps_reference E" and "system_sound E s"
  shows "grows tx_step (sys_txs s) (sys_txs s')"
  using assms(1)
proof (induction rule: rtranclp_induct)
  case base
  show ?case by (simp add: grows_refl)
next
  case (step s1 s2)
  have "system_sound E s1" using steps_sound [OF step(1) assms(2,3)] .
  then show ?case using step(2,3) step_grows grows_trans [of tx_step] tx_step_trans by blast
qed

end
