(* ===== verification/Runs.thy ===== *)
theory Runs
  imports System
begin

text \<open>
  The service operations as paths of the transition system, and what the system promises
  about every reachable state: one row per key, one provider call per key, final terminal
  statuses, and that the answer to a provider call is recorded on the row it was made for.
\<close>

section \<open>Service operations are paths\<close>

lemma quiet_steps: "same_pay (sys_world s) w' \<Longrightarrow> system_steps E s (s\<lparr>sys_world := w'\<rparr>)"
  by (rule r_into_rtranclp) (rule system_step.Quiet)

lemma system_world_twice [simp]:
  "s\<lparr>sys_world := w1, sys_world := w2\<rparr> = s\<lparr>sys_world := w2\<rparr>" for s :: "'p system"
  by simp

lemma quiet_after: "system_steps E s (s\<lparr>sys_world := w1\<rparr>) \<Longrightarrow> same_pay w1 w2 \<Longrightarrow> system_steps E s (s\<lparr>sys_world := w2\<rparr>)"
  using quiet_steps [of "s\<lparr>sys_world := w1\<rparr>" w2 E] by (auto intro: rtranclp_trans)

lemma begin_payment_steps:
  assumes "begin_payment E appID service key req (sys_world s) = (r, w')"
  shows "(if \<exists>tx att call sel. r = Inr (Admitted tx att call sel) then
            \<exists>tx att call sel. r = Inr (Admitted tx att call sel) \<and>
              system_steps E s (s\<lparr>sys_world := w', inflight := (tx, att) # inflight s,
                                 admitted := (appID, key) # admitted s\<rparr>)
          else system_steps E s (s\<lparr>sys_world := w'\<rparr>))"
  using assms
proof (cases rule: begin_payment_cases)
  case quiet
  then show ?thesis using quiet_steps [of s w'] by simp
next
  case (admitted tx att call sel tx0 att0 req' w0 w1)
  let ?s0 = "s\<lparr>sys_world := w0\<rparr>"
  let ?s1 = "s\<lparr>sys_world := w1, assembled := (tx0, att0) # assembled s\<rparr>"
  have "system_steps E s ?s0" using reads_same_pay [OF admitted(5)] by (rule quiet_steps)
  moreover have "system_step E ?s0 ?s1"
    using system_step.Assemble [of E appID service key req' _ ?s0] admitted(4) by simp
  moreover have "system_step E ?s1 (?s1\<lparr>sys_world := w', assembled := remove1 (tx0, att0) (assembled ?s1),
      inflight := (tx, att) # inflight ?s1, admitted := (tx_AppID tx0, tx_IdempotencyKey tx0) # admitted ?s1\<rparr>)"
    using admitted(7) by (intro system_step.Insert) simp_all
  moreover have "?s1\<lparr>sys_world := w', assembled := remove1 (tx0, att0) (assembled ?s1),
      inflight := (tx, att) # inflight ?s1, admitted := (tx_AppID tx0, tx_IdempotencyKey tx0) # admitted ?s1\<rparr>
    = s\<lparr>sys_world := w', inflight := (tx, att) # inflight s, admitted := (appID, key) # admitted s\<rparr>"
    using assemble_fresh(2,3) [OF admitted(4)] by (cases s) simp
  ultimately have "system_steps E s
      (s\<lparr>sys_world := w', inflight := (tx, att) # inflight s, admitted := (appID, key) # admitted s\<rparr>)"
    by (metis rtranclp.rtrancl_into_rtrancl)
  with admitted(1) show ?thesis by simp
qed

lemma payment_Create_steps:
  assumes "payment_Create E appID service key req (sys_world s) = (r, w')"
  shows "\<exists>s'. system_steps E s s' \<and> sys_world s' = w' \<and> inflight s' = inflight s"
proof -
  obtain b w1 where b: "begin_payment E appID service key req (sys_world s) = (b, w1)" by fastforce
  note run = begin_payment_steps [OF b]
  show ?thesis
  proof (cases "\<exists>tx att call sel. b = Inr (Admitted tx att call sel)")
    case False
    then have "w' = w1"
      using assms b by (auto simp: payment_Create_def bindE_def returnE_def split: sum.splits begun.splits)
    moreover have "system_steps E s (s\<lparr>sys_world := w1\<rparr>)" using run False by simp
    ultimately show ?thesis by (intro exI [of _ "s\<lparr>sys_world := w'\<rparr>"]) simp
  next
    case True
    with run obtain tx att call sel where a: "b = Inr (Admitted tx att call sel)"
      and s1: "system_steps E s (s\<lparr>sys_world := w1, inflight := (tx, att) # inflight s,
                                 admitted := (appID, key) # admitted s\<rparr>)" by auto
    let ?s1 = "s\<lparr>sys_world := w1, inflight := (tx, att) # inflight s, admitted := (appID, key) # admitted s\<rparr>"
    obtain c w2 where c: "call_provider service (pa_ID (sel_Account sel)) call w1 = (c, w2)" by fastforce
    have p: "persist E tx att (rt_ProviderCode (sel_Runtime sel)) c w2 = (r, w')"
      using assms b a c by (simp add: payment_Create_def)
    let ?s2 = "?s1\<lparr>sys_world := w2\<rparr>"
    let ?s3 = "?s2\<lparr>sys_world := w', inflight := remove1 (tx, att) (inflight ?s2)\<rparr>"
    have "system_steps E ?s1 ?s2" using movesD [OF same_pay_call_provider c] by (intro quiet_steps) simp
    moreover have "system_step E ?s2 ?s3" using p by (intro system_step.Persist) simp_all
    ultimately have "system_steps E s ?s3" using s1 by (meson rtranclp.rtrancl_into_rtrancl rtranclp_trans)
    then show ?thesis by (intro exI [of _ ?s3]) simp
  qed
qed

lemma verify_InrD:
  assumes "verify E accountID payload headers w = (Inr event, w')"
  shows "ev_ProviderReference (vw_Event event) \<noteq> []" "vw_ProviderAccountID event = accountID" "same_pay w w'"
    "\<exists>rp. Get w accountID = Some rp \<and> rt_WebhookSecret rp \<noteq> [] \<and>
          webhook_secret_of headers = rt_WebhookSecret rp"
    "vw_PayloadHash event = canonicalWebhookHash E accountID (vw_Event event)"
proof -
  from assms obtain rp where rp: "Get w accountID = Some rp" "rt_WebhookSecret rp \<noteq> []"
    "webhook_secret_of headers = rt_WebhookSecret rp"
    by (auto simp: verify_def split: option.splits if_splits)
  with assms obtain ev where v: "VerifyWebhook accountID payload headers w = (Inr ev, w')"
    and e: "ev_ProviderReference ev \<noteq> []" "vw_ProviderAccountID event = accountID"
      "ev_ProviderReference (vw_Event event) = ev_ProviderReference ev"
      "vw_PayloadHash event = canonicalWebhookHash E accountID (vw_Event event)"
    by (auto simp: verify_def Let_def returnE_def elim!: bindE_InrE dest!: failIf_InrD)
  show "ev_ProviderReference (vw_Event event) \<noteq> []" "vw_ProviderAccountID event = accountID"
    "\<exists>rp. Get w accountID = Some rp \<and> rt_WebhookSecret rp \<noteq> [] \<and>
          webhook_secret_of headers = rt_WebhookSecret rp"
    "vw_PayloadHash event = canonicalWebhookHash E accountID (vw_Event event)"
    using e rp by auto
  show "same_pay w w'" using movesD [OF same_pay_calls(5) v] .
qed

lemma same_pay_verify: "moves same_pay (verify E accountID payload headers)"
proof (rule movesI)
  fix w
  have "moves same_pay (bindE (VerifyWebhook accountID payload headers)
      (\<lambda>ev. bindE (failIf (ev_ProviderReference ev = []) e) (\<lambda>_. returnE (f ev))))"
    for e and f :: "ProviderWebhookEvent \<Rightarrow> verifiedWebhook"
    by (intro same_pay.moves_bindE same_pay_calls same_pay.moves_failIf same_pay.moves_returnE)
  note tail = this [unfolded moves_def, THEN spec]
  show "same_pay w (snd (verify E accountID payload headers w))"
    by (simp add: verify_def Let_def same_pay.refl_R split: option.split, intro allI impI, rule tail)
qed

lemma webhook_Handle_steps:
  assumes "webhook_Handle E accountID payload headers (sys_world s) = (r, w')"
  shows "system_steps E s (s\<lparr>sys_world := w'\<rparr>)"
proof -
  obtain v w1 where v: "verify E accountID payload headers (sys_world s) = (v, w1)" by fastforce
  have s1: "system_steps E s (s\<lparr>sys_world := w1\<rparr>)"
    using movesD [OF same_pay_verify v] by (rule quiet_steps)
  consider (stop) "w' = w1" | (go) event stored where "v = Inr event" "env_event_json E event = Inr stored"
    using assms v by (cases v) (auto simp: webhook_Handle_def bindE_liftE split: sum.splits)
  then show ?thesis
  proof cases
    case stop
    with s1 show ?thesis by simp
  next
    case (go event stored)
    obtain i w2 where i: "NewID ''wh'' w1 = (Inr i, w2)" by (simp add: NewID_def)
    obtain c w3 where c: "store_and_apply E (webhook_row i accountID event stored) event w2 = (c, w3)" by fastforce
    have "ev_ProviderReference (vw_Event event) \<noteq> []" using v go verify_InrD(1) by blast
    then have "system_step E (s\<lparr>sys_world := w2\<rparr>) (s\<lparr>sys_world := w3\<rparr>)"
      using system_step.Callback [of E event stored i accountID "s\<lparr>sys_world := w2\<rparr>"] go c by simp
    moreover have "system_steps E s (s\<lparr>sys_world := w2\<rparr>)"
      using quiet_after [OF s1 movesD [OF same_pay_NewID i]] .
    ultimately have s3: "system_steps E s (s\<lparr>sys_world := w3\<rparr>)" by simp
    have "db w' = db w3"
      using assms v go i c by (auto simp: webhook_Handle_def bindE_liftE bindE_def
          dest: notify_option_InrD split: sum.splits)
    then have "same_pay w3 w'" by (simp add: same_pay_def)
    then show ?thesis using quiet_after [OF s3] by blast
  qed
qed

lemma reprocess_rows_steps:
  assumes "reprocess_rows E rows (sys_world s) = (r, w')" and "set rows \<subseteq> set (queued s)"
  shows "system_steps E s (s\<lparr>sys_world := w'\<rparr>)"
  using assms
proof (induction rows arbitrary: s)
  case Nil
  then have "w' = sys_world s" by simp
  then show ?case by simp
next
  case (Cons row rows)
  show ?case
  proof (cases "env_event_of_json E (we_PayloadJSON row)")
    case (Inl e)
    with Cons show ?thesis by simp
  next
    case (Inr event)
    obtain q w1 where q: "Within (apply_event E (we_ID row) event) (sys_world s) = (q, w1)" by fastforce
    have s1: "system_steps E s (s\<lparr>sys_world := w1\<rparr>)"
      using system_step.Retry [OF _ Inr q] Cons(3) by auto
    have step: "reprocess_rows E rows w2 = (r, w') \<Longrightarrow> same_pay w1 w2 \<Longrightarrow> ?thesis" for w2
      using Cons.IH [of "s\<lparr>sys_world := w2\<rparr>"] Cons(3) quiet_after [OF s1, of w2]
      by (auto intro: rtranclp_trans)
    show ?thesis
    proof (cases q)
      case (Inl e)
      then show ?thesis
        using Cons(2) Inr q s1 step [of w1] by (auto simp: throwE_def same_pay.refl_R split: if_splits)
    next
      case change: (Inr c)
      obtain u w2 where n: "notify_option c w1 = (u, w2)" by fastforce
      have "reprocess_rows E rows w2 = (r, w')" "same_pay w1 w2"
        using Cons(2) Inr q change n notify_option_InrD [OF n] by (simp_all add: same_pay_def)
      then show ?thesis by (rule step)
    qed
  qed
qed

lemma ReprocessPending_steps:
  assumes "ReprocessPending E limit (sys_world s) = (r, w')"
  shows "\<exists>s'. system_steps E s s' \<and> sys_world s' = w' \<and> inflight s' = inflight s"
proof -
  let ?limit = "if limit < 1 then 100 else limit"
  obtain p w1 where p: "on_db (WebhookEvents_Pending ?limit) (sys_world s) = (p, w1)" by fastforce
  have w1: "same_pay (sys_world s) w1"
    using movesD [OF same_pay_find p [unfolded WebhookEvents_Pending_def]] .
  show ?thesis
  proof (cases p)
    case (Inl e)
    with assms p have "w' = w1" unfolding ReprocessPending_def by simp
    with quiet_steps [OF w1] show ?thesis by (intro exI [of _ "s\<lparr>sys_world := w'\<rparr>"]) simp
  next
    case (Inr rows)
    let ?s1 = "s\<lparr>sys_world := w1, queued := rows @ queued s\<rparr>"
    have "reprocess_rows E rows (sys_world ?s1) = (r, w')"
      using assms p Inr unfolding ReprocessPending_def by simp
    then have "system_steps E ?s1 (?s1\<lparr>sys_world := w'\<rparr>)" by (rule reprocess_rows_steps) simp
    moreover have "system_step E s ?s1" using p Inr by (intro system_step.Fetch) simp
    ultimately have "system_steps E s (?s1\<lparr>sys_world := w'\<rparr>)" by (simp add: converse_rtranclp_into_rtranclp)
    then show ?thesis by (intro exI [of _ "?s1\<lparr>sys_world := w'\<rparr>"]) simp
  qed
qed

lemma reconcile_steps:
  assumes "reconcile row (sys_world s) = (r, w')" and "row \<in> set (polled s)"
  shows "system_steps E s (s\<lparr>sys_world := w'\<rparr>)"
proof -
  obtain q w1 where q: "QueryTransaction (tx_SelectedProviderAccountID row) (tx_ProviderReference row)
      (tx_Country row) (sys_world s) = (q, w1)" by fastforce
  have "settle row q w1 = (r, w')" using assms(1) q by (simp add: reconcile_def)
  then have "system_step E (s\<lparr>sys_world := w1\<rparr>) (s\<lparr>sys_world := w'\<rparr>)"
    using system_step.Settle [of row "s\<lparr>sys_world := w1\<rparr>" q r w'] assms(2) by simp
  moreover have "system_steps E s (s\<lparr>sys_world := w1\<rparr>)"
    using movesD [OF same_pay_calls(3) q] by (rule quiet_steps)
  ultimately show ?thesis by simp
qed

lemma reconcile_rows_steps:
  assumes "each_joined reconcile wrap rows (sys_world s) = (errs, w')" and "set rows \<subseteq> set (polled s)"
  shows "system_steps E s (s\<lparr>sys_world := w'\<rparr>)"
  using assms
proof (induction rows arbitrary: s errs)
  case Nil
  then have "w' = sys_world s" by simp
  then show ?case by simp
next
  case (Cons row rows)
  obtain q w1 where q: "reconcile row (sys_world s) = (q, w1)" by fastforce
  have s1: "system_steps E s (s\<lparr>sys_world := w1\<rparr>)" using reconcile_steps [OF q] Cons(3) by simp
  obtain es w2 where "each_joined reconcile wrap rows w1 = (es, w2)" by fastforce
  moreover from this have "w2 = w'" using Cons(2) q by (cases q) auto
  ultimately have "system_steps E (s\<lparr>sys_world := w1\<rparr>) (s\<lparr>sys_world := w'\<rparr>)"
    using Cons.IH [of "s\<lparr>sys_world := w1\<rparr>"] Cons(3) by simp
  with s1 show ?case by simp
qed

lemma RunOnce_steps:
  assumes "RunOnce E has_webhook limit (sys_world s) = (r, w')"
  shows "\<exists>s'. system_steps E s s' \<and> sys_world s' = w' \<and> inflight s' = inflight s"
proof -
  let ?limit = "if limit < 1 then 100 else limit" and ?t = "now (sys_world s)"
  obtain p w1 where p: "on_db (Transactions_DueForReconciliation ?t ?limit) (sys_world s) = (p, w1)" by fastforce
  have w1: "same_pay (sys_world s) w1"
    using movesD [OF same_pay_find p [unfolded Transactions_DueForReconciliation_def]] .
  show ?thesis
  proof (cases p)
    case (Inl e)
    with assms p have "w' = w1" by (simp add: RunOnce_def Let_def bindE_Now)
    with quiet_steps [OF w1] show ?thesis by (intro exI [of _ "s\<lparr>sys_world := w'\<rparr>"]) simp
  next
    case (Inr rows)
    let ?s1 = "s\<lparr>sys_world := w1, polled := rows @ polled s\<rparr>"
    obtain errs w2 where e: "each_joined reconcile (\<lambda>_ e. e) rows w1 = (errs, w2)" by fastforce
    let ?s2 = "?s1\<lparr>sys_world := w2\<rparr>"
    have "system_step E s ?s1" using p Inr by (intro system_step.Poll) simp
    moreover have "system_steps E ?s1 ?s2" using reconcile_rows_steps [of "\<lambda>_ e. e" rows ?s1] e by simp
    ultimately have s2: "system_steps E s ?s2" by (simp add: converse_rtranclp_into_rtranclp)
    show ?thesis
    proof (cases has_webhook)
      case False
      with assms p Inr e have "w' = w2" by (simp add: RunOnce_def Let_def bindE_Now)
      with s2 show ?thesis by (intro exI [of _ ?s2]) simp
    next
      case True
      obtain q w3 where q: "ReprocessPending E ?limit w2 = (q, w3)" by fastforce
      with assms p Inr e True have "w' = w3"
        by (simp add: RunOnce_def Let_def bindE_Now split: sum.splits)
      moreover obtain s3 where "system_steps E ?s2 s3" "sys_world s3 = w3" "inflight s3 = inflight ?s2"
        using ReprocessPending_steps [of E ?limit ?s2 q w3] q by auto
      ultimately show ?thesis using s2 by (intro exI [of _ s3]) simp
    qed
  qed
qed

text \<open>C4: refinement. From any state, a whole run of the payment, webhook, retry or
  reconciliation service (any input, any database faults, any provider behaviour) is a path
  of the transition system to the world it leaves, with nothing left in flight. So what
  holds of every reachable state and of every step holds of the services as the code
  composes them.\<close>

lemma services_refine_system:
  "(\<exists>s'. system_steps E s s' \<and> sys_world s' = snd (payment_Create E appID service key req (sys_world s)) \<and>
         inflight s' = inflight s) \<and>
   (\<exists>s'. system_steps E s s' \<and> sys_world s' = snd (webhook_Handle E accountID payload headers (sys_world s)) \<and>
         inflight s' = inflight s) \<and>
   (\<exists>s'. system_steps E s s' \<and> sys_world s' = snd (ReprocessPending E limit (sys_world s)) \<and>
         inflight s' = inflight s) \<and>
   (\<exists>s'. system_steps E s s' \<and> sys_world s' = snd (RunOnce E has_webhook limit (sys_world s)) \<and>
         inflight s' = inflight s)"
proof (intro conjI)
  show "\<exists>s'. system_steps E s s' \<and> sys_world s' = snd (payment_Create E appID service key req (sys_world s)) \<and>
         inflight s' = inflight s"
    by (rule payment_Create_steps [OF surjective_pairing])
  show "\<exists>s'. system_steps E s s' \<and> sys_world s' = snd (webhook_Handle E accountID payload headers (sys_world s)) \<and>
         inflight s' = inflight s"
    by (rule exI, intro conjI, rule webhook_Handle_steps [OF surjective_pairing]) simp_all
  show "\<exists>s'. system_steps E s s' \<and> sys_world s' = snd (ReprocessPending E limit (sys_world s)) \<and>
         inflight s' = inflight s"
    by (rule ReprocessPending_steps [OF surjective_pairing])
  show "\<exists>s'. system_steps E s s' \<and> sys_world s' = snd (RunOnce E has_webhook limit (sys_world s)) \<and>
         inflight s' = inflight s"
    by (rule RunOnce_steps [OF surjective_pairing])
qed

section \<open>A sample run\<close>

text \<open>The sample engine, then with one payment whose provider call is under way, then with its
  result recorded.\<close>

definition sample_system :: "unit system" where
  "sample_system = \<lparr>sys_world = sample_world, assembled = [], inflight = [], polled = [], queued = [], admitted = []\<rparr>"

lemma sample_initial: "initial sample_system"
  by (simp add: initial_def sample_system_def sample_defs)

lemma sample_json: "json_keeps_reference sample_env"
  by (auto simp: json_keeps_reference_def payload_ok_def sample_env_def split: if_splits)

definition sample_begun :: "(err + unit begun) \<times> unit world" where
  "sample_begun = begin_payment sample_env ''app_1'' ServiceCollection ''key-1'' sample_request sample_world"

definition sample_tx :: Transaction where
  "sample_tx =
     \<lparr>tx_ID = ''txn_0'', tx_CreatedAt = 0, tx_UpdatedAt = 0, tx_AppID = ''app_1'',
      tx_ServiceType = ServiceCollection, tx_PaymentMethod = PaymentMethodMomo, tx_Amount = 1000,
      tx_Currency = ''UGX'', tx_Country = ''UG'', tx_Reference = ''order-1'',
      tx_IdempotencyKey = ''key-1'', tx_Status = TxProcessing, tx_SelectedRouteID = ''route_1'',
      tx_SelectedProviderAccountID = ''pacc_1'', tx_ProviderReference = [],
      tx_CustomerAccount = ''2560700'', tx_CustomerEmail = [], tx_CustomerName = [],
      tx_Description = [], tx_ProviderFee = 1, tx_PlatformFee = 5,
      tx_RequestHash = ''collection|momo|1000|UGX|UG|order-1|0700'',
      tx_ReconciliationAttempts = 0, tx_LastReconciledAt = None, tx_NextReconcileAt = None\<rparr>"

definition sample_att :: TransactionAttempt where
  "sample_att =
     \<lparr>att_ID = ''att_1'', att_CreatedAt = 0, att_TransactionID = ''txn_0'', att_ProviderAccountID = ''pacc_1'',
      att_ProviderCode = ''sample'', att_ProviderReference = [], att_Status = TxProcessing,
      att_RequestHash = ''collection|momo|1000|UGX|UG|order-1|0700'', att_ErrorCode = [],
      att_ErrorMessage = [], att_RawResponse = [], att_StartedAt = 0, att_CompletedAt = None\<rparr>"

lemma sample_begun_result:
  "\<exists>call sel w. sample_begun = (Inr (Admitted sample_tx sample_att call sel), w) \<and>
     txs w = [sample_tx] \<and> atts w = [sample_att] \<and> faults (db w) = []"
proof -
  have "(case sample_begun of (Inr (Admitted tx att call sel), w) \<Rightarrow>
      tx = sample_tx \<and> att = sample_att \<and> txs w = [sample_tx] \<and> atts w = [sample_att] \<and> faults (db w) = []
    | _ \<Rightarrow> False)"
    by code_simp
  then show ?thesis by (auto split: prod.splits sum.splits begun.splits)
qed

definition sample_admitted :: "unit system" where
  "sample_admitted = sample_system\<lparr>sys_world := snd sample_begun, inflight := [(sample_tx, sample_att)],
                                   admitted := [(''app_1'', ''key-1'')]\<rparr>"

lemma sample_admitted_tables:
  "sys_txs sample_admitted = [sample_tx]" "sys_atts sample_admitted = [sample_att]"
  "faults (db (sys_world sample_admitted)) = []" "inflight sample_admitted = [(sample_tx, sample_att)]"
  "admitted sample_admitted = [(''app_1'', ''key-1'')]"
proof -
  obtain call sel w where w: "sample_begun = (Inr (Admitted sample_tx sample_att call sel), w)"
    "txs w = [sample_tx]" "atts w = [sample_att]" "faults (db w) = []"
    using sample_begun_result by blast
  show "sys_txs sample_admitted = [sample_tx]" "sys_atts sample_admitted = [sample_att]"
    "faults (db (sys_world sample_admitted)) = []" "inflight sample_admitted = [(sample_tx, sample_att)]"
    "admitted sample_admitted = [(''app_1'', ''key-1'')]"
    unfolding sample_admitted_def w(1) by (simp_all add: w(2-4))
qed

lemma sample_reached: "system_steps sample_env sample_system sample_admitted"
proof -
  obtain call sel w where w: "sample_begun = (Inr (Admitted sample_tx sample_att call sel), w)"
    using sample_begun_result by blast
  have b: "begin_payment sample_env ''app_1'' ServiceCollection ''key-1'' sample_request (sys_world sample_system)
      = (Inr (Admitted sample_tx sample_att call sel), w)"
    using w by (simp add: sample_begun_def sample_system_def)
  have "inflight sample_system = []" "admitted sample_system = []" by (simp_all add: sample_system_def)
  with begin_payment_steps [OF b] show ?thesis unfolding sample_admitted_def w by simp
qed

text \<open>The provider answers success.\<close>

definition sample_answer :: "err + ProviderPaymentResponse option" where
  "sample_answer = Inr (Some \<lparr>rs_ProviderReference = ''ref-1'', rs_Status = ''SUCCESS'', rs_Message = [], rs_Raw = []\<rparr>)"

definition sample_settled :: "unit system" where
  "sample_settled = sample_admitted\<lparr>
     sys_world := snd (persist sample_env sample_tx sample_att ''sample'' sample_answer (sys_world sample_admitted)),
     inflight := []\<rparr>"

lemma sample_settled_txs: "map tx_Status (sys_txs sample_settled) = [TxSucceeded]"
  by code_simp

lemma sample_settles: "system_step sample_env sample_admitted sample_settled"
proof -
  let ?w = "sys_world sample_admitted"
  obtain r w' where p: "persist sample_env sample_tx sample_att ''sample'' sample_answer ?w = (r, w')"
    by fastforce
  have "system_step sample_env sample_admitted
      (sample_admitted\<lparr>sys_world := w', inflight := remove1 (sample_tx, sample_att) (inflight sample_admitted)\<rparr>)"
    by (rule system_step.Persist [OF _ p]) (simp add: sample_admitted_tables)
  then show ?thesis using p by (simp add: sample_settled_def sample_admitted_tables)
qed

lemma sample_settles_steps: "system_steps sample_env sample_admitted sample_settled"
  using sample_settles by (rule r_into_rtranclp)

section \<open>What every reachable state satisfies\<close>

lemma reachable_sound:
  "initial s0 \<Longrightarrow> json_keeps_reference E \<Longrightarrow> system_steps E s0 s \<Longrightarrow> system_sound E s"
  using steps_sound initial_sound by blast

text \<open>Uniqueness. In every state the engine reaches, whatever its payments, webhooks,
  retries and reconciliations did in whatever order, two rows of the transactions table
  that share an id, an idempotency key of one app or a reference of one app are the same
  row, and every attempt belongs to a transaction.\<close>

lemma reachable_tables_unique:
  assumes "initial s0" and "json_keeps_reference E" and "system_steps E s0 s"
  shows "unique_txs (sys_txs s) \<and> distinct (map att_ID (sys_atts s)) \<and>
         (\<forall>a\<in>set (sys_atts s). \<exists>t\<in>set (sys_txs s). tx_ID t = att_TransactionID a)"
  using reachable_sound [OF assms] by (simp add: system_sound_def tables_sound_def)

lemma reachable_tables_unique_witness:
  "unique_txs [sample_tx] \<and> tx_ID sample_tx = att_TransactionID sample_att"
  using reachable_tables_unique [OF sample_initial sample_json sample_reached]
  by (simp add: sample_admitted_tables)

text \<open>C1: at most one provider call per idempotency key. However requests, retries of requests
  and the other work of the engine interleave, no pair of an app and an idempotency key
  passes the gate in front of the provider call twice, and each one that passed has its
  transaction on record.\<close>

lemma one_provider_call_per_key:
  assumes "initial s0" and "json_keeps_reference E" and "system_steps E s0 s"
  shows "distinct (admitted s) \<and>
         set (admitted s) \<subseteq> (\<lambda>t. (tx_AppID t, tx_IdempotencyKey t)) ` set (sys_txs s)"
  using reachable_sound [OF assms] by (auto simp: system_sound_def recorded_def)

lemma one_provider_call_per_key_witness:
  "(''app_1'', ''key-1'') \<in> (\<lambda>t. (tx_AppID t, tx_IdempotencyKey t)) ` set [sample_tx]"
  using one_provider_call_per_key [OF sample_initial sample_json sample_reached]
  by (simp add: sample_admitted_tables)

text \<open>C2: history. Between two states the engine passes through, no row of the transactions
  table disappears or moves; its id, app, key, reference, request hash, service, amount,
  currency, country, customer account and fees stay; and a row that was succeeded, failed,
  expired or cancelled is still so, with the same status.\<close>

lemma terminal_status_is_final:
  assumes "initial s0" and "json_keeps_reference E" and "system_steps E s0 s" and "system_steps E s s'"
    and "i < length (sys_txs s)" and "t = sys_txs s ! i" and "t' = sys_txs s' ! i"
  shows "i < length (sys_txs s') \<and> tx_ID t' = tx_ID t \<and> tx_AppID t' = tx_AppID t \<and>
         tx_IdempotencyKey t' = tx_IdempotencyKey t \<and> tx_Reference t' = tx_Reference t \<and>
         tx_RequestHash t' = tx_RequestHash t \<and> tx_ServiceType t' = tx_ServiceType t \<and>
         tx_Amount t' = tx_Amount t \<and> tx_Currency t' = tx_Currency t \<and> tx_Country t' = tx_Country t \<and>
         tx_CustomerAccount t' = tx_CustomerAccount t \<and> tx_ProviderFee t' = tx_ProviderFee t \<and>
         tx_PlatformFee t' = tx_PlatformFee t \<and>
         (Terminal (tx_Status t) \<longrightarrow> tx_Status t' = tx_Status t)"
proof -
  have g: "grows tx_step (sys_txs s) (sys_txs s')"
    using steps_grow [OF assms(4,2)] reachable_sound [OF assms(1-3)] by blast
  have st: "tx_step t t'" using grows_nth [OF g assms(5)] assms(6,7) by simp
  then have fr: "tx_frame t t'" by (simp add: tx_step_def)
  have "i < length (sys_txs s')" using g assms(5) by (simp add: grows_def)
  then show ?thesis using st tx_frame_fields [OF fr] by (simp add: tx_step_def)
qed

lemma terminal_status_is_final_witness:
  "tx_Amount (sys_txs sample_settled ! 0) = tx_Amount sample_tx \<and>
   tx_ID (sys_txs sample_settled ! 0) = ''txn_0''"
  using terminal_status_is_final [OF sample_initial sample_json sample_reached
      sample_settles_steps, of 0 "sys_txs sample_admitted ! 0" "sys_txs sample_settled ! 0"]
  by (simp add: sample_admitted_tables sample_tx_def)

section \<open>The answer of a provider reaches its row\<close>

lemma statement_clean: "faults d = [] \<Longrightarrow> statement d = (Inr (), d)"
  by (simp add: statement_def)

lemma base_update_clean:
  assumes "faults d = []" and "r \<in> set (rows d)" and "P r"
  shows "base_update rows upd P f d = (Inr (), upd (map (\<lambda>r. if P r then f r else r)) d)"
proof -
  have "filter P (rows d) \<noteq> []" using assms(2,3) by (auto simp: filter_empty_conv)
  then show ?thesis
    using assms(1) by (simp add: base_update_def affected_def base_updates_def statement_clean bindE_def failIf_def)
qed

lemma Within_clean:
  assumes "faults (db w) = []" and "body w = (Inr x, w1)" and "faults (db w1) = []"
  shows "Within body w = (Inr x, w1)"
  using assms by (simp add: Within_def statement_clean)

lemma persist_clean:
  assumes plan: "persist_plan E (now w) tx result = Inr (tx', fa, ft, msg)" and clean: "faults (db w) = []"
    and t: "t \<in> set (txs w)" "tx_ID t = tx_ID tx" and a: "a \<in> set (atts w)" "att_ID a = att_ID attempt"
  shows "\<exists>w'. persist E tx attempt code result w = (Inr (persist_response tx' code msg), w')"
proof -
  let ?w1 = "w\<lparr>db := t_attempts_update (map (\<lambda>a. if att_ID a = att_ID attempt then fa a else a)) (db w)\<rparr>"
  let ?w2 = "?w1\<lparr>db := t_transactions_update (map (\<lambda>r. if tx_ID r = tx_ID tx then (ft r)\<lparr>tx_UpdatedAt := now w\<rparr> else r)) (db ?w1)\<rparr>"
  have i: "tx_ID tx' = tx_ID tx" using persist_plan_InrD(1) [OF plan] .
  have "on_db (TransactionAttempts_Update (att_ID attempt) fa) w = (Inr (), ?w1)"
    using base_update_clean [OF clean, of a t_attempts "\<lambda>a. att_ID a = att_ID attempt" t_attempts_update fa] a
    by (simp add: on_db_def TransactionAttempts_Update_def)
  moreover have "on_db_now (\<lambda>s. Transactions_Update s (tx_ID tx') ft) ?w1 = (Inr (), ?w2)"
    using base_update_clean [of "db ?w1" t t_transactions "\<lambda>t. tx_ID t = tx_ID tx'" t_transactions_update
        "\<lambda>t. (ft t)\<lparr>tx_UpdatedAt := now w\<rparr>"] t clean i
    by (simp add: on_db_def on_db_now_def Transactions_Update_def)
  ultimately have "Within (bindE (on_db (TransactionAttempts_Update (att_ID attempt) fa)) (\<lambda>_.
      on_db_now (\<lambda>s. Transactions_Update s (tx_ID tx') ft))) w = (Inr (), ?w2)"
    using clean by (intro Within_clean) simp_all
  then show ?thesis
    using plan by (simp add: persist_def bindE_Now bindE_liftE wrapE_def notify_changed_def modify_def
        persist_response_def)
qed

definition answered_status :: "err + ProviderPaymentResponse option \<Rightarrow> string" where
  "answered_status result =
     (case result of Inr (Some r) \<Rightarrow> PaymentStatus (rs_Status r) | _ \<Rightarrow> TxUnknown)"

definition answered_reference :: "err + ProviderPaymentResponse option \<Rightarrow> string" where
  "answered_reference result = (case result of Inr (Some r) \<Rightarrow> rs_ProviderReference r | _ \<Rightarrow> [])"

lemma persist_plan_awaiting:
  assumes "tx_Status tx = TxProcessing" and "tx_ProviderReference tx = []"
  obtains tx' fa ft msg where "persist_plan E t tx result = Inr (tx', fa, ft, msg)"
    "tx_Status tx' = answered_status result" "tx_ProviderReference tx' = answered_reference result"
    "tx_Status (ft tx) = answered_status result" "tx_ProviderReference (ft tx) = answered_reference result"
    "tx_NextReconcileAt (ft tx) =
       (if Terminal (answered_status result) then None else Some (t + minute))"
proof -
  obtain tx' fa ft msg where p: "persist_plan E t tx result = Inr (tx', fa, ft, msg)"
    and s: "tx_Status tx' = answered_status result"
    using persist_plan_from_processing [OF assms(1)] unfolding answered_status_def by blast
  from p show ?thesis
  proof (cases rule: persist_plan_InrE)
    case (unknown cause)
    have "tx_ProviderReference tx' = []" using Transition_status_only [OF unknown(1)] assms(2) by auto
    moreover have "answered_reference result = []" using unknown(4) by (auto simp: answered_reference_def)
    ultimately show ?thesis using s unknown(2) assms(2) by (intro that [OF p]) simp_all
  next
    case (answer r tx1)
    then show ?thesis using s by (intro that [OF p]) (simp_all add: answered_reference_def)
  qed
qed

lemma persist_plan_awaitingD:
  assumes "persist_plan E t tx result = Inr (tx', fa, ft, msg)"
    and "tx_Status tx = TxProcessing" and "tx_ProviderReference tx = []"
  shows "tx_Status tx' = answered_status result" "tx_ProviderReference tx' = answered_reference result"
    "tx_Status (ft tx) = answered_status result" "tx_ProviderReference (ft tx) = answered_reference result"
    "tx_NextReconcileAt (ft tx) =
       (if Terminal (answered_status result) then None else Some (t + minute))"
  using assms(2,3) by (rule persist_plan_awaiting [of tx E t result]; use assms(1) in simp)+

text \<open>C3: the answer to a provider call is recorded. Take any reachable state, with any other
  work done while the call was under way, and any outcome of the call: an answer, no answer
  or an error. If the database works, recording it succeeds: the row of the payment is still
  the one that was inserted, it takes the normalized status of the answer (unknown without
  one) and its reference, is scheduled for reconciliation unless the status is final, and
  the response says so.\<close>

lemma provider_answer_is_recorded:
  assumes "initial s0" and "json_keeps_reference E" and "system_steps E s0 s"
    and "(tx, att) \<in> set (inflight s)" and "faults (db (sys_world s)) = []"
  shows "tx \<in> set (sys_txs s) \<and>
    (\<exists>resp w' t'. persist E tx att code result (sys_world s) = (Inr resp, w') \<and>
       resp_TransactionID resp = tx_ID tx \<and> resp_Status resp = answered_status result \<and>
       resp_ProviderReference resp = answered_reference result \<and>
       t' \<in> set (txs w') \<and> tx_frame tx t' \<and> tx_Status t' = answered_status result \<and>
       tx_ProviderReference t' = answered_reference result \<and>
       tx_NextReconcileAt t' = (if Terminal (answered_status result) then None
                                else Some (now (sys_world s) + minute)))"
proof -
  let ?w = "sys_world s"
  have sound: "system_sound E s" using reachable_sound [OF assms(1-3)] .
  then have aw: "awaiting ?w (tx, att)" using assms(4) by (auto simp: system_sound_def)
  obtain tx' fa ft msg where p: "persist_plan E (now ?w) tx result = Inr (tx', fa, ft, msg)"
    and tx': "tx_Status tx' = answered_status result" "tx_ProviderReference tx' = answered_reference result"
    and ft: "tx_Status (ft tx) = answered_status result" "tx_ProviderReference (ft tx) = answered_reference result"
      "tx_NextReconcileAt (ft tx) = (if Terminal (answered_status result) then None else Some (now ?w + minute))"
    using aw by (elim persist_plan_awaiting [of tx, rotated 2]) (simp_all add: awaiting_def)
  obtain w' where run: "persist E tx att code result ?w = (Inr (persist_response tx' code msg), w')"
    using persist_clean [OF p assms(5), of tx att att code] aw by (auto simp: awaiting_def)
  from run have "txs w' = at_key tx_ID (tx_ID tx) (\<lambda>t. (ft t)\<lparr>tx_UpdatedAt := now ?w\<rparr>) (txs ?w)"
    using p by (cases rule: persist_cases) auto
  then have "(ft tx)\<lparr>tx_UpdatedAt := now ?w\<rparr> \<in> set (txs w')"
    using aw by (auto simp: set_at_key awaiting_def intro!: bexI [of _ tx])
  moreover have "tx_frame tx ((ft tx)\<lparr>tx_UpdatedAt := now ?w\<rparr>)" using persist_plan_InrD(6) [OF p] .
  ultimately show ?thesis
    using aw run tx' ft persist_plan_InrD(1) [OF p]
    by (intro conjI exI [of _ "persist_response tx' code msg"] exI [of _ w']
        exI [of _ "(ft tx)\<lparr>tx_UpdatedAt := now ?w\<rparr>"]) (simp_all add: persist_response_def awaiting_def)
qed

lemma provider_answer_is_recorded_witness:
  "\<exists>resp w'. persist sample_env sample_tx sample_att ''sample'' sample_answer (sys_world sample_admitted) = (Inr resp, w') \<and>
     resp_Status resp = TxSucceeded \<and> resp_ProviderReference resp = ''ref-1''"
proof -
  have "answered_status sample_answer = TxSucceeded" "answered_reference sample_answer = ''ref-1''"
    by code_simp+
  then show ?thesis
    using provider_answer_is_recorded [OF sample_initial sample_json sample_reached, of sample_tx sample_att]
    by (fastforce simp: sample_admitted_tables)
qed

end
