(* ===== verification/PaymentFacts.thy ===== *)
theory PaymentFacts
  imports Runs
begin

text \<open>
  What one run of \<open>Create\<close> does: idempotent replay, refusal of a reused key, the single
  transaction a successful payment leaves and how its fields come from the request, the
  selected account and the app, and what an error leaves behind.
\<close>

section \<open>Lookup by key\<close>

lemma key_cases:
  assumes "find_key appID key w = (f, w')"
  obtains (failed) "f = Inl DriverErr" "faults (db w) \<noteq> []" "reads w w'"
    | (answered) "f = row_result (List.find (\<lambda>t. tx_AppID t = appID \<and> tx_IdempotencyKey t = key) (txs w))"
        "reads w w'"
  using assms unfolding find_key_def Transactions_ByIdempotencyKey_def
  by (rule on_db_first_cases) auto

lemma find_unique:
  assumes "unique_txs ts" and "t \<in> set ts"
  shows "List.find (\<lambda>x. tx_AppID x = tx_AppID t \<and> tx_IdempotencyKey x = tx_IdempotencyKey t) ts = Some t"
proof -
  let ?P = "\<lambda>x. tx_AppID x = tx_AppID t \<and> tx_IdempotencyKey x = tx_IdempotencyKey t"
  obtain x where x: "List.find ?P ts = Some x" using assms(2) by (cases "List.find ?P ts") (auto simp: find_None_iff)
  then have "x \<in> set ts \<and> ?P x" by (rule find_Some_in_set)
  then have "x = t" using unique_txs_key [OF assms(1) _ assms(2)] by blast
  with x show ?thesis by simp
qed

section \<open>Replay\<close>

lemma payment_of_begun:
  "begin_payment E appID service key req w = (Inl e, w') \<Longrightarrow>
     payment_Create E appID service key req w = (Inl e, w')"
  "begin_payment E appID service key req w = (Inr (Answered resp), w') \<Longrightarrow>
     payment_Create E appID service key req w = (Inr resp, w')"
  by (simp_all add: payment_Create_def)

text \<open>A request whose key is on record: answered from the record or refused, nothing written.\<close>

lemma begin_payment_known_key:
  assumes "Check_CreatePayment (env_region E) req = Inr req'" and "trim_space key \<noteq> []"
    and "unique_txs (txs w)" and "t \<in> set (txs w)" "tx_AppID t = appID" "tx_IdempotencyKey t = key"
    and "begin_payment E appID service key req w = (b, w')"
  shows "reads w w' \<and> (b = Inl DriverErr \<and> faults (db w) \<noteq> [] \<or>
     b = map_sum id Answered (replay t (paymentRequestHash E service req')))"
proof -
  obtain f w1 where f: "find_key appID key w = (f, w1)" by fastforce
  from f show ?thesis
  proof (cases rule: key_cases)
    case failed
    with assms(1,2,7) f show ?thesis
      by (auto simp: begin_payment_def bindE_liftE bindE_failIf Let_def throwE_def)
  next
    case answered
    have "f = Inr t" using answered(1) find_unique [OF assms(3,4)] assms(5,6) by (simp add: row_result_def)
    with assms(1,2,7) f answered(2) show ?thesis
      by (auto simp: begin_payment_def bindE_liftE bindE_failIf Let_def returnE_def split: sum.splits)
  qed
qed

text \<open>C5: idempotency. When the transactions table has a row for the app and the key, a valid
  request with the same content gets the answer of that row and one with another content
  is refused; neither calls the provider nor the extensions, and with a working database the
  engine's state is exactly what it was.\<close>

lemma idempotent_replay:
  assumes "Check_CreatePayment (env_region E) req = Inr req'" and "trim_space key \<noteq> []"
    and "unique_txs (txs w)" and "t \<in> set (txs w)" "tx_AppID t = appID" "tx_IdempotencyKey t = key"
    and "faults (db w) = []"
  shows "payment_Create E appID service key req w =
    (if tx_RequestHash t = paymentRequestHash E service req'
     then (Inr \<lparr>resp_TransactionID = tx_ID t, resp_Reference = tx_Reference t,
                resp_ServiceType = tx_ServiceType t, resp_PaymentMethod = tx_PaymentMethod t,
                resp_Status = tx_Status t, resp_SelectedProvider = [],
                resp_ProviderReference = tx_ProviderReference t, resp_PlatformFee = tx_PlatformFee t,
                resp_Message = ''idempotent replay''\<rparr>, w)
     else (Inl (Msg ''idempotency key reused with a different request''), w))"
proof -
  obtain b w' where b: "begin_payment E appID service key req w = (b, w')" by fastforce
  have "reads w w'" "b = map_sum id Answered (replay t (paymentRequestHash E service req'))"
    using begin_payment_known_key [OF assms(1-6) b] assms(7) by auto
  moreover from this have "w' = w" using assms(7) by (simp add: reads_def)
  ultimately show ?thesis
    using b by (auto simp: replay_def payment_of_begun)
qed

lemma idempotent_replay_witness:
  "fst (payment_Create sample_env ''app_1'' ServiceCollection ''key-1'' sample_request (sys_world sample_admitted)) =
     Inr \<lparr>resp_TransactionID = ''txn_0'', resp_Reference = ''order-1'', resp_ServiceType = ServiceCollection,
          resp_PaymentMethod = PaymentMethodMomo, resp_Status = TxProcessing, resp_SelectedProvider = [],
          resp_ProviderReference = [], resp_PlatformFee = 5, resp_Message = ''idempotent replay''\<rparr>"
proof -
  have c: "Check_CreatePayment (env_region sample_env) sample_request =
      Inr (sample_request\<lparr>cp_PaymentMethod := PaymentMethodMomo, cp_Currency := ''UGX'', cp_Country := ''UG''\<rparr>)"
    by code_simp
  have h: "paymentRequestHash sample_env ServiceCollection
      (sample_request\<lparr>cp_PaymentMethod := PaymentMethodMomo, cp_Currency := ''UGX'', cp_Country := ''UG''\<rparr>)
      = ''collection|momo|1000|UGX|UG|order-1|0700''"
    by code_simp
  have k: "trim_space ''key-1'' \<noteq> []" by code_simp
  show ?thesis
    using idempotent_replay [OF c k, of "sys_world sample_admitted" sample_tx "''app_1''" ServiceCollection]
    by (simp add: sample_admitted_tables h sample_tx_def unique_txs_def)
qed

section \<open>A new payment\<close>

lemma find_key_InrD:
  assumes "find_key appID key w = (Inr t, w')"
  shows "t \<in> set (txs w)" "tx_AppID t = appID" "tx_IdempotencyKey t = key"
proof -
  from assms have "List.find (\<lambda>t. tx_AppID t = appID \<and> tx_IdempotencyKey t = key) (txs w) = Some t"
    by (cases rule: key_cases) (auto simp: row_result_def split: option.splits)
  then show "t \<in> set (txs w)" "tx_AppID t = appID" "tx_IdempotencyKey t = key"
    by (auto dest: find_Some_in_set)
qed

text \<open>Every answer that is not a new payment is the replay of a row on record, also the one
  given when another request inserted the key first.\<close>

lemma begin_payment_AnsweredD:
  assumes "begin_payment E appID service key req w = (Inr (Answered resp), w')"
  shows "\<exists>req' t. Check_CreatePayment (env_region E) req = Inr req' \<and> t \<in> set (txs w) \<and>
     tx_AppID t = appID \<and> tx_IdempotencyKey t = key \<and>
     replay t (paymentRequestHash E service req') = Inr resp"
proof -
  obtain req' where c: "Check_CreatePayment (env_region E) req = Inr req'" "trim_space key \<noteq> []"
    using assms by (auto simp: begin_payment_def bindE_liftE bindE_failIf split: sum.splits if_splits)
  let ?hash = "paymentRequestHash E service req'"
  have hit: ?thesis if f: "find_key appID key w0 = (Inr t, w1)" and same: "same_pay w w0"
      and r: "replay t ?hash = Inr resp" for w0 t w1
    using find_key_InrD [OF f] same r c(1) by (intro exI [of _ req'] exI [of _ t]) (simp add: same_pay_def)
  obtain f w0 where f: "find_key appID key w = (f, w0)" by fastforce
  have w0: "same_pay w w0" using movesD [OF same_pay_find_key f] .
  show ?thesis
  proof (cases f)
    case (Inr t)
    with assms c f have "replay t ?hash = Inr resp"
      by (auto simp: begin_payment_def bindE_liftE bindE_failIf Let_def returnE_def split: sum.splits)
    with f Inr show ?thesis using hit same_pay.refl_R by blast
  next
    case (Inl e)
    obtain q w1 where q: "assemble E appID service key req' ?hash w0 = (q, w1)" by fastforce
    have w1: "same_pay w w1" using w0 movesD [OF same_pay_assemble q] same_pay.trans_R by blast
    from assms c f Inl q obtain tx a call sel where s: "q = Inr (tx, a, call, sel)"
      by (cases q) (auto simp: begin_payment_def bindE_liftE bindE_failIf Let_def throwE_def split: if_splits)
    obtain i w2 where i: "insert_payment tx a w1 = (i, w2)" by fastforce
    from assms c f Inl q s i obtain e' where e': "i = Inl e'"
      by (cases i) (auto simp: begin_payment_def bindE_liftE bindE_failIf Let_def throwE_def returnE_def split: if_splits)
    have w2: "same_pay w w2" using w1 insert_payment_InlD i e' same_pay.trans_R by blast
    obtain g w3 where g: "find_key appID key w2 = (g, w3)" by fastforce
    from assms c f Inl q s i e' g obtain t where "g = Inr t" "replay t ?hash = Inr resp"
      by (cases g) (auto simp: begin_payment_def bindE_liftE bindE_failIf Let_def throwE_def returnE_def
          split: if_splits sum.splits)
    with g w2 show ?thesis using hit by blast
  qed
qed

section \<open>One run of Create\<close>

text \<open>Either the tables of payments are left alone, or one transaction was assembled, inserted,
  sent to the provider and its result recorded.\<close>

lemma payment_Create_cases:
  assumes "payment_Create E appID service key req w = (r, w')"
  obtains (refused) e where "r = Inl e" "same_pay w w'"
    | (replayed) resp req' t where "r = Inr resp" "same_pay w w'"
        "Check_CreatePayment (env_region E) req = Inr req'" "t \<in> set (txs w)" "tx_AppID t = appID"
        "tx_IdempotencyKey t = key" "replay t (paymentRequestHash E service req') = Inr resp"
    | (called) tx att call sel req' w0 w1 w2 tx0 att0 c where
        "Check_CreatePayment (env_region E) req = Inr req'"
        "assemble E appID service key req' (paymentRequestHash E service req') w0 = (Inr (tx0, att0, call, sel), w1)"
        "reads w w0" "same_pay w w1" "insert_payment tx0 att0 w1 = (Inr (tx, att), w2)"
        "same_pay w2 (snd (call_provider service (pa_ID (sel_Account sel)) call w2))"
        "c = fst (call_provider service (pa_ID (sel_Account sel)) call w2)"
        "persist E tx att (rt_ProviderCode (sel_Runtime sel)) c
           (snd (call_provider service (pa_ID (sel_Account sel)) call w2)) = (r, w')"
        "begin_payment E appID service key req w = (Inr (Admitted tx att call sel), w2)"
proof -
  obtain b wb where b: "begin_payment E appID service key req w = (b, wb)" by fastforce
  from b show ?thesis
  proof (cases rule: begin_payment_cases)
    case quiet
    show ?thesis
    proof (cases b)
      case (Inl e)
      with b assms quiet(2) show ?thesis using payment_of_begun(1) refused by fastforce
    next
      case (Inr g)
      with quiet(1) obtain resp where g: "g = Answered resp" by (cases g) auto
      with b Inr assms have "r = Inr resp" "w' = wb" using payment_of_begun(2) by fastforce+
      moreover obtain req' t where "Check_CreatePayment (env_region E) req = Inr req'" "t \<in> set (txs w)"
          "tx_AppID t = appID" "tx_IdempotencyKey t = key"
          "replay t (paymentRequestHash E service req') = Inr resp"
        using begin_payment_AnsweredD b Inr g by blast
      ultimately show ?thesis using quiet(2) by (intro replayed) auto
    qed
  next
    case (admitted tx attempt call sel tx0 att0 req' w0 w1)
    obtain c w2 where c: "call_provider service (pa_ID (sel_Account sel)) call wb = (c, w2)" by fastforce
    have "persist E tx attempt (rt_ProviderCode (sel_Runtime sel)) c w2 = (r, w')"
      using assms b admitted(1) c by (simp add: payment_Create_def)
    with admitted b c movesD [OF same_pay_call_provider c] show ?thesis
      by (intro called [of req' w0 tx0 att0 call sel w1 tx attempt wb c]) simp_all
  qed
qed

section \<open>What a payment that went through looks like\<close>

text \<open>A selection as the tables support it: an active route of the service and method to an active
  account of the currency.\<close>

definition routed_by :: "db \<Rightarrow> string \<Rightarrow> string \<Rightarrow> string \<Rightarrow> 'p SelectedProvider \<Rightarrow> bool" where
  "routed_by d service m currency sel \<longleftrightarrow>
     sel_Route sel \<in> set (t_paymentRoutes d) \<and> pr_Active (sel_Route sel) \<and>
     pr_ServiceType (sel_Route sel) = service \<and> pr_PaymentMethod (sel_Route sel) = m \<and>
     sel_Account sel \<in> set (t_providerAccounts d) \<and> pa_Active (sel_Account sel) \<and>
     pa_ID (sel_Account sel) = pr_ProviderAccountID (sel_Route sel) \<and>
     NormalizeCurrency currency = Inr (pa_Currency (sel_Account sel))"

lemma SelectProvider_routed_by:
  assumes "SelectProvider E service m country currency w = (Inr sel, w')"
  shows "routed_by (db w) service m currency sel"
  using assms
proof (rule SelectProvider_InrD)
  fix c cur
  assume "NormalizeCurrency currency = Inr cur"
    "sel_Route sel \<in> set (serving_routes (db w) service m)"
    and sel: "candidate_of w service c cur (sel_Route sel) = Some sel"
  with candidate_of_SomeD [OF sel] show ?thesis by (auto simp: set_serving_routes routed_by_def)
qed

text \<open>The row of a payment, in terms of its checked request.\<close>

definition pays_for ::
    "'p env \<Rightarrow> string \<Rightarrow> string \<Rightarrow> string \<Rightarrow> CreatePayment \<Rightarrow> App \<Rightarrow> 'p SelectedProvider \<Rightarrow> Transaction \<Rightarrow> bool" where
  "pays_for E appID service key req app sel t \<longleftrightarrow>
     tx_AppID t = appID \<and> tx_IdempotencyKey t = key \<and> tx_ServiceType t = service \<and>
     tx_PaymentMethod t = cp_PaymentMethod req \<and> tx_Amount t = cp_Amount req \<and>
     tx_Currency t = cp_Currency req \<and> tx_Country t = cp_Country req \<and> tx_Reference t = cp_Reference req \<and>
     tx_Description t = cp_Description req \<and> tx_RequestHash t = paymentRequestHash E service req \<and>
     tx_SelectedRouteID t = pr_ID (sel_Route sel) \<and> tx_SelectedProviderAccountID t = pa_ID (sel_Account sel) \<and>
     calculateCharge (pa_Charges (sel_Account sel)) service (cp_Amount req) = Inr (tx_ProviderFee t) \<and>
     calculateCharge (app_Charges app) service (cp_Amount req) = Inr (tx_PlatformFee t)"

text \<open>What the provider is asked for.\<close>

definition asks_for :: "CreatePayment \<Rightarrow> Transaction \<Rightarrow> PaymentRequest \<Rightarrow> bool" where
  "asks_for req t call \<longleftrightarrow>
     rq_TransactionID call = tx_ID t \<and> rq_Account call = tx_CustomerAccount t \<and> rq_Amount call = cp_Amount req \<and>
     rq_PaymentMethod call = cp_PaymentMethod req \<and> rq_Currency call = cp_Currency req \<and>
     rq_Country call = cp_Country req \<and> rq_Reference call = cp_Reference req"

lemma assemble_pays_for:
  assumes "assemble E appID service key req (paymentRequestHash E service req) w = (Inr (tx, att, call, sel), w')"
  obtains app where "app \<in> set (t_apps (db w))" "app_ID app = appID" "app_Status app = active"
    "cp_Currency req = app_Currency app"
    "routed_by (db w) service (cp_PaymentMethod req) (cp_Currency req) sel"
    "pays_for E appID service key req app sel tx"
    "asks_for req tx call" "tx_ProviderReference tx = []" "tx_Status tx = TxProcessing"
    "att_TransactionID att = tx_ID tx" "att_ProviderAccountID att = pa_ID (sel_Account sel)"
proof -
  obtain app i ai w1 w2 providerFee platformFee started where
    app: "app \<in> set (t_apps (db w))" "app_ID app = appID" "app_Status app = active"
      "cp_Currency req = app_Currency app" "\<exists>bs. db w1 = (db w)\<lparr>faults := bs\<rparr>"
    and sel: "SelectProvider E service (cp_PaymentMethod req) (cp_Country req) (cp_Currency req) w1 = (Inr sel, w2)"
    and call: "call = provider_request i service req \<or> guardValidatedRequest (provider_request i service req) call = Inr ()"
    and fees: "calculateCharge (pa_Charges (sel_Account sel)) service (rq_Amount call) = Inr providerFee"
      "calculateCharge (app_Charges app) service (rq_Amount call) = Inr platformFee"
    and rows: "tx = new_transaction appID service key req (paymentRequestHash E service req) sel call providerFee platformFee"
      "att = new_attempt ai tx sel (paymentRequestHash E service req) started"
    using assms by (rule assemble_InrD)
  have asked: "rq_Amount call = cp_Amount req" "rq_PaymentMethod call = cp_PaymentMethod req"
      "rq_Currency call = cp_Currency req" "rq_Country call = cp_Country req" "rq_Reference call = cp_Reference req"
    using call guardValidatedRequest_InrD(2-6) [of "provider_request i service req" call]
    by (auto simp: provider_request_def Let_def)
  obtain bs where bs: "db w1 = (db w)\<lparr>faults := bs\<rparr>" using app(5) by blast
  have "routed_by (db w) service (cp_PaymentMethod req) (cp_Currency req) sel"
    using SelectProvider_routed_by [OF sel] unfolding bs by (simp add: routed_by_def)
  with app(1-4) fees asked show ?thesis
    by (intro that [of app]) (simp_all add: rows pays_for_def asks_for_def new_transaction_def new_attempt_def)
qed

lemma pays_for_frame: "tx_frame t t' \<Longrightarrow> pays_for E appID service key req app sel t \<Longrightarrow>
   pays_for E appID service key req app sel t'"
  by (cases t; cases t') (simp add: tx_frame_def pays_for_def)

lemma at_key_new:
  assumes "\<And>r. r \<in> set rs \<Longrightarrow> key r \<noteq> key x"
  shows "at_key key (key x) f (rs @ [x]) = rs @ [f x]"
  using assms by (auto simp: at_key_def intro!: map_idI)

section \<open>What is recorded of an answer\<close>

text \<open>Silence, an error and an empty answer leave the outcome unknown.\<close>

fun outcome_status :: "err + ProviderPaymentResponse option \<Rightarrow> string" where
  "outcome_status (Inr (Some r)) = PaymentStatus (rs_Status r)"
| "outcome_status _ = TxUnknown"

fun outcome_reference :: "err + ProviderPaymentResponse option \<Rightarrow> string" where
  "outcome_reference (Inr (Some r)) = rs_ProviderReference r"
| "outcome_reference _ = []"

fun answered_message :: "err + ProviderPaymentResponse option \<Rightarrow> string" where
  "answered_message (Inr (Some r)) = rs_Message r"
| "answered_message _ = ''provider response unknown''"

fun answered_error :: "err + ProviderPaymentResponse option \<Rightarrow> err option" where
  "answered_error (Inr (Some r)) = None"
| "answered_error (Inr None) = Some (Msg ''provider returned no response'')"
| "answered_error (Inl e) = Some e"

definition answered_tx :: "err + ProviderPaymentResponse option \<Rightarrow> time \<Rightarrow> Transaction \<Rightarrow> Transaction" where
  "answered_tx answer t tx =
     tx\<lparr>tx_Status := outcome_status answer, tx_ProviderReference := outcome_reference answer,
        tx_NextReconcileAt := (if Terminal (outcome_status answer) then None else Some (t + minute)),
        tx_UpdatedAt := t\<rparr>"

definition answered_attempt ::
    "'p env \<Rightarrow> err + ProviderPaymentResponse option \<Rightarrow> time \<Rightarrow> TransactionAttempt \<Rightarrow> TransactionAttempt" where
  "answered_attempt E answer t att =
     att\<lparr>att_Status := outcome_status answer, att_ProviderReference := outcome_reference answer,
         att_RawResponse := (case answer of Inr (Some r) \<Rightarrow> env_map_json E (RedactRawMap (rs_Raw r)) | _ \<Rightarrow> []),
         att_ErrorCode := (if answered_error answer = None then [] else ''PROVIDER_ERROR''),
         att_ErrorMessage := (case answered_error answer of None \<Rightarrow> [] | Some e \<Rightarrow> Redact (error_text e)),
         att_CompletedAt := (if Terminal (outcome_status answer) then Some t else None)\<rparr>"

text \<open>An attempt as the assembly makes it.\<close>

definition untried :: "Transaction \<Rightarrow> TransactionAttempt \<Rightarrow> bool" where
  "untried tx att \<longleftrightarrow> tx_Status tx = TxProcessing \<and> tx_ProviderReference tx = [] \<and> att_TransactionID att = tx_ID tx \<and>
     att_ProviderAccountID att = tx_SelectedProviderAccountID tx \<and>
     att_ProviderReference att = [] \<and> att_RawResponse att = [] \<and> att_ErrorCode att = [] \<and> att_ErrorMessage att = [] \<and>
     att_CompletedAt att = None"

lemma untried_insert: "untried (tx\<lparr>tx_CreatedAt := t, tx_UpdatedAt := t\<rparr>) (att\<lparr>att_CreatedAt := t\<rparr>) = untried tx att"
  by (simp add: untried_def)

lemma assemble_untried:
  "assemble E appID service key req hash w = (Inr (tx, att, call, sel), w') \<Longrightarrow> untried tx att"
  by (erule assemble_InrD) (simp add: untried_def new_transaction_def new_attempt_def)

lemma unanswered_tx: "tx_ProviderReference tx = [] \<Longrightarrow> tx\<lparr>tx_ProviderReference := []\<rparr> = tx"
  by (cases tx) simp

lemma unanswered_attempt:
  "untried tx att \<Longrightarrow> att\<lparr>att_ProviderReference := []\<rparr> = att" "untried tx att \<Longrightarrow> att\<lparr>att_RawResponse := []\<rparr> = att"
  "untried tx att \<Longrightarrow> att\<lparr>att_ErrorCode := [], att_ErrorMessage := []\<rparr> = att" "untried tx att \<Longrightarrow> att\<lparr>att_CompletedAt := None\<rparr> = att"
  by (cases att; simp add: untried_def)+

lemma persist_plan_answered:
  assumes "persist_plan E t tx answer = Inr (tx', fa, ft, msg)" and "untried tx att"
  shows "(ft tx)\<lparr>tx_UpdatedAt := t\<rparr> = answered_tx answer t tx" (is ?tx)
    and "fa att = answered_attempt E answer t att" (is ?att)
    and "persist_response tx' code msg = persist_response (answered_tx answer t tx) code (answered_message answer)" (is ?resp)
proof -
  have new: "tx_Status tx = TxProcessing" "tx_ProviderReference tx = []" using assms(2) by (simp_all add: untried_def)
  have u: "Transition (Some tx) TxUnknown = Inr (tx\<lparr>tx_Status := TxUnknown\<rparr>)"
    by (rule Transition_from_processing [OF new(1)]) simp
  have a: "Transition (Some tx) (PaymentStatus (rs_Status r)) = Inr (tx\<lparr>tx_Status := PaymentStatus (rs_Status r)\<rparr>)"
    for r by (rule Transition_from_processing [OF new(1) PaymentStatus_range])
  have open_status: "\<not> Terminal TxUnknown" by (simp add: Terminal_def)
  have unknown: ?tx ?att ?resp
    if "persist_plan E t tx answer = Inr (tx\<lparr>tx_Status := TxUnknown\<rparr>,
        \<lambda>a. a\<lparr>att_Status := TxUnknown, att_ErrorCode := ''PROVIDER_ERROR'', att_ErrorMessage := Redact (error_text e)\<rparr>,
        \<lambda>r. r\<lparr>tx_NextReconcileAt := Some (t + minute), tx_Status := TxUnknown\<rparr>, ''provider response unknown'')"
      and "answer = Inl e \<or> answer = Inr None \<and> e = Msg ''provider returned no response''" for e
  proof -
    have p: "tx' = tx\<lparr>tx_Status := TxUnknown\<rparr>" "msg = ''provider response unknown''"
      "fa = (\<lambda>a. a\<lparr>att_Status := TxUnknown, att_ErrorCode := ''PROVIDER_ERROR'', att_ErrorMessage := Redact (error_text e)\<rparr>)"
      "ft = (\<lambda>r. r\<lparr>tx_NextReconcileAt := Some (t + minute), tx_Status := TxUnknown\<rparr>)"
      using that(1) assms(1) by simp_all
    have ans: "outcome_status answer = TxUnknown" "outcome_reference answer = []" "answered_error answer = Some e"
      "answered_message answer = ''provider response unknown''" "\<not> (\<exists>r. answer = Inr (Some r))" using that(2) by auto
    show ?tx ?att ?resp
      using assms(2) ans(5) unfolding p ans answered_tx_def answered_attempt_def persist_response_def
      by (cases tx; cases att; auto simp: untried_def ans open_status split: sum.splits option.splits)+
  qed
  have answered: ?tx ?att ?resp if r: "answer = Inr (Some r)" for r
  proof -
    let ?s = "PaymentStatus (rs_Status r)"
    let ?c = "\<lambda>a. if Terminal ?s then a\<lparr>att_CompletedAt := Some t\<rparr> else a"
    have "persist_plan E t tx answer = Inr (tx\<lparr>tx_Status := ?s, tx_ProviderReference := rs_ProviderReference r\<rparr>,
        \<lambda>x. ?c (x\<lparr>att_Status := ?s, att_ProviderReference := rs_ProviderReference r,
          att_RawResponse := env_map_json E (RedactRawMap (rs_Raw r))\<rparr>),
        \<lambda>x. x\<lparr>tx_NextReconcileAt := (if Terminal ?s then None else Some (t + minute)), tx_Status := ?s,
          tx_ProviderReference := rs_ProviderReference r\<rparr>, rs_Message r)"
      by (simp add: persist_plan_def Let_def r a)
    then have p: "tx' = tx\<lparr>tx_Status := ?s, tx_ProviderReference := rs_ProviderReference r\<rparr>" "msg = rs_Message r"
      "fa = (\<lambda>x. ?c (x\<lparr>att_Status := ?s, att_ProviderReference := rs_ProviderReference r,
          att_RawResponse := env_map_json E (RedactRawMap (rs_Raw r))\<rparr>))"
      "ft = (\<lambda>x. x\<lparr>tx_NextReconcileAt := (if Terminal ?s then None else Some (t + minute)), tx_Status := ?s,
          tx_ProviderReference := rs_ProviderReference r\<rparr>)"
      using assms(1) by simp_all
    show ?tx ?att ?resp
      using assms(2) unfolding p r answered_tx_def answered_attempt_def persist_response_def
      by (cases tx; cases att; simp add: untried_def)+
  qed
  have none: "persist_plan E t tx answer = Inr (tx\<lparr>tx_Status := TxUnknown\<rparr>,
        \<lambda>a. a\<lparr>att_Status := TxUnknown, att_ErrorCode := ''PROVIDER_ERROR'', att_ErrorMessage := Redact (error_text e)\<rparr>,
        \<lambda>r. r\<lparr>tx_NextReconcileAt := Some (t + minute), tx_Status := TxUnknown\<rparr>, ''provider response unknown'')"
    if "answer = Inl e \<or> answer = Inr None \<and> e = Msg ''provider returned no response''" for e
    using that by (elim disjE conjE) (simp_all add: persist_plan_def Let_def u open_status)
  consider r where "answer = Inr (Some r)"
    | e where "answer = Inl e \<or> answer = Inr None \<and> e = Msg ''provider returned no response''"
    by (cases answer; cases "projr answer") auto
  then show ?tx ?att ?resp by (cases; use none unknown answered in blast)+
qed

text \<open>C6: one request, one transaction. A \<open>Create\<close> that returns a response either replays a row on
  record for the app and the key, leaving the tables of payments alone, or it has appended
  exactly one transaction and one attempt: of the request's app, key, service, method,
  amount, currency, country and reference, routed over an active route to an active account,
  with the fees of that account and of the active app. Both rows were stored before the account's
  provider was asked, to collect or to disburse as the service says, for that amount; the rows and
  the response then carry its answer: status, reference and message, or unknown and the redacted error.
  Older rows are untouched.\<close>

lemma created_payment:
  assumes "payment_Create E appID service key req w = (Inr resp, w')"
  shows "(\<exists>req' t. Check_CreatePayment (env_region E) req = Inr req' \<and> same_pay w w' \<and> t \<in> set (txs w) \<and>
            tx_AppID t = appID \<and> tx_IdempotencyKey t = key \<and>
            replay t (paymentRequestHash E service req') = Inr resp) \<or>
         (\<exists>req' app sel tx att call w2 answer w3. Check_CreatePayment (env_region E) req = Inr req' \<and>
            begin_payment E appID service key req w = (Inr (Admitted tx att call sel), w2) \<and>
            txs w2 = txs w @ [tx] \<and> atts w2 = atts w @ [att] \<and> untried tx att \<and>
            app \<in> set (t_apps (db w)) \<and> app_ID app = appID \<and> app_Status app = active \<and>
            cp_Currency req' = app_Currency app \<and>
            routed_by (db w) service (cp_PaymentMethod req') (cp_Currency req') sel \<and>
            pays_for E appID service key req' app sel tx \<and> asks_for req' tx call \<and>
            (if service = ServiceCollection then Collect (pa_ID (sel_Account sel)) call w2
             else Disburse (pa_ID (sel_Account sel)) call w2) = (answer, w3) \<and>
            txs w' = txs w @ [answered_tx answer (now w3) tx] \<and>
            atts w' = atts w @ [answered_attempt E answer (now w3) att] \<and>
            resp = persist_response (answered_tx answer (now w3) tx) (rt_ProviderCode (sel_Runtime sel))
              (answered_message answer))"
  using assms
proof (cases rule: payment_Create_cases)
  case (replayed resp' req' t)
  then show ?thesis by blast
next
  case (called tx att call sel req' w0 w1 w2 tx0 att0 c)
  note ins = insert_payment_InrD [OF called(5)]
  have old: "tx_ID t \<noteq> tx_ID tx" if "t \<in> set (txs w)" for t
    using ins(5) [of t] that called(4) by (auto simp: same_pay_def tx_clash_def)
  have old_att: "att_ID a \<noteq> att_ID att" if "a \<in> set (atts w)" for a
    using ins(2) ins(6) [of a] that called(4) by (auto simp: same_pay_def)
  obtain bs where w0: "db w0 = (db w)\<lparr>faults := bs\<rparr>" using reads_db [OF called(3)] by blast
  obtain app where app: "app \<in> set (t_apps (db w0))" "app_ID app = appID" "app_Status app = active"
      "cp_Currency req' = app_Currency app" "routed_by (db w0) service (cp_PaymentMethod req') (cp_Currency req') sel"
      "pays_for E appID service key req' app sel tx0" "asks_for req' tx0 call"
    using called(2) by (rule assemble_pays_for)
  have app_w: "app \<in> set (t_apps (db w))" "routed_by (db w) service (cp_PaymentMethod req') (cp_Currency req') sel"
      "pays_for E appID service key req' app sel tx" "asks_for req' tx call"
    using app(1,5,6,7) unfolding w0 by (simp_all add: routed_by_def ins(1) pays_for_def asks_for_def)
  have fresh: "untried tx att" using assemble_untried [OF called(2)] unfolding ins(1,2) untried_insert .
  let ?w3 = "snd (call_provider service (pa_ID (sel_Account sel)) call w2)"
  have w2: "txs w2 = txs w @ [tx]" "atts w2 = atts w @ [att]"
    using called(4) ins(3,4) by (simp_all add: same_pay_def)
  then have w3: "txs ?w3 = txs w @ [tx]" "atts ?w3 = atts w @ [att]" using called(6) by (simp_all add: same_pay_def)
  have asked: "(if service = ServiceCollection then Collect (pa_ID (sel_Account sel)) call w2
      else Disburse (pa_ID (sel_Account sel)) call w2) = (c, ?w3)" using called(7) by (simp add: call_provider_def)
  from called(8) show ?thesis
  proof (cases rule: persist_cases)
    case (written tx' fa ft msg)
    have t: "txs w' = txs w @ [(ft tx)\<lparr>tx_UpdatedAt := now ?w3\<rparr>]" unfolding written(2) w3(1)
      by (rule at_key_new) (rule old)
    have a: "atts w' = atts w @ [fa att]" unfolding written(3) w3(2)
      by (rule at_key_new) (rule old_att)
    note plan = persist_plan_answered [OF written(1) fresh]
    show ?thesis
      using called(1,9) w2 t a app_w app(2-4) asked fresh plan written(5)
      by (intro disjI2 exI [of _ req'] exI [of _ app] exI [of _ sel] exI [of _ tx] exI [of _ att] exI [of _ call]
           exI [of _ w2] exI [of _ c] exI [of _ ?w3]) simp
  qed simp
qed simp

lemma sample_payment:
  "fst (payment_Create sample_env ''app_1'' ServiceCollection ''key-1'' sample_request sample_world) =
     Inr \<lparr>resp_TransactionID = ''txn_0'', resp_Reference = ''order-1'', resp_ServiceType = ServiceCollection,
          resp_PaymentMethod = PaymentMethodMomo, resp_Status = TxSucceeded, resp_SelectedProvider = ''sample'',
          resp_ProviderReference = ''ref-txn_0'', resp_PlatformFee = 5, resp_Message = ''done''\<rparr>"
  by code_simp

lemma created_payment_witness:
  "\<exists>t. txs (snd (payment_Create sample_env ''app_1'' ServiceCollection ''key-1'' sample_request sample_world)) = [t] \<and>
       tx_Status t = TxSucceeded \<and> tx_PlatformFee t = 5"
proof -
  obtain w' where run: "payment_Create sample_env ''app_1'' ServiceCollection ''key-1'' sample_request sample_world =
     (Inr \<lparr>resp_TransactionID = ''txn_0'', resp_Reference = ''order-1'', resp_ServiceType = ServiceCollection,
          resp_PaymentMethod = PaymentMethodMomo, resp_Status = TxSucceeded, resp_SelectedProvider = ''sample'',
          resp_ProviderReference = ''ref-txn_0'', resp_PlatformFee = 5, resp_Message = ''done''\<rparr>, w')"
    using sample_payment by (metis prod.collapse)
  have none: "txs sample_world = []" by (simp add: sample_defs)
  show ?thesis using created_payment [OF run] none run by (auto simp: persist_response_def answered_tx_def)
qed

text \<open>C7: a refused payment. A \<open>Create\<close> that returns an error has written no transaction and no
  attempt, unless the provider was called and the recording of its answer failed: then one
  new row in status processing, without a provider reference, and its attempt are left, and
  the error says that persistence failed.\<close>

lemma failed_payment:
  assumes "payment_Create E appID service key req w = (Inl e, w')"
  shows "(txs w' = txs w \<and> atts w' = atts w) \<or>
         (\<exists>t a c. e = Wrap ''provider result persistence failed'' c \<and>
            txs w' = txs w @ [t] \<and> atts w' = atts w @ [a] \<and> tx_AppID t = appID \<and>
            tx_IdempotencyKey t = key \<and> tx_Status t = TxProcessing \<and> tx_ProviderReference t = [] \<and>
            att_TransactionID a = tx_ID t)"
  using assms
proof (cases rule: payment_Create_cases)
  case refused
  then show ?thesis by (simp add: same_pay_def)
next
  case (called tx att call sel req' w0 w1 w2 tx0 att0 c)
  note ins = insert_payment_InrD [OF called(5)] and fresh = assemble_fresh [OF called(2)]
  let ?w3 = "snd (call_provider service (pa_ID (sel_Account sel)) call w2)"
  have w3: "txs ?w3 = txs w @ [tx]" "atts ?w3 = atts w @ [att]"
    using called(4,6) ins(3,4) by (simp_all add: same_pay_def)
  have status: "tx_Status tx = TxProcessing" using fresh(1) ins(1) by (simp add: fresh_admission_def)
  from called(8) show ?thesis
  proof (cases rule: persist_cases)
    case (refused e')
    obtain tx' fa ft msg where "persist_plan E (now ?w3) tx c = Inr (tx', fa, ft, msg)"
      by (rule persist_plan_from_processing [OF status])
    with refused(3) obtain c' where "e' = Wrap ''provider result persistence failed'' c'" by auto
    then show ?thesis
      using refused(1,2) w3 fresh ins(1,2) status
      by (intro disjI2 exI [of _ tx] exI [of _ att] exI [of _ c'])
         (simp add: same_pay_def fresh_admission_def)
  qed simp
qed simp

text \<open>The tenth statement of a payment on the sample engine starts the recording of the answer.\<close>

definition sample_broken :: "unit world" where
  "sample_broken = sample_world\<lparr>db := sample_db\<lparr>faults := replicate 9 False @ [True]\<rparr>\<rparr>"

lemma failed_payment_witness:
  "\<exists>t. txs (snd (payment_Create sample_env ''app_1'' ServiceCollection ''key-1'' sample_request sample_broken)) = [t] \<and>
       tx_Status t = TxProcessing \<and> tx_ProviderReference t = []"
proof -
  let ?run = "payment_Create sample_env ''app_1'' ServiceCollection ''key-1'' sample_request sample_broken"
  have c: "fst ?run = Inl (Wrap ''provider result persistence failed'' DriverErr)" "length (txs (snd ?run)) = 1"
    by code_simp+
  have run: "?run = (Inl (Wrap ''provider result persistence failed'' DriverErr), snd ?run)"
    using c(1) by (metis prod.collapse)
  have none: "txs sample_broken = []" by (simp add: sample_broken_def sample_defs)
  show ?thesis using failed_payment [OF run] c(2) none by auto
qed

end
