(* ===== verification/WebhookFacts.thy ===== *)
theory WebhookFacts
  imports Runs
begin

text \<open>
  What one webhook delivery, one retry of stored events and one reconciliation do:
  authenticity, deduplication, the effect of an applied event, the blocking of the retry
  queue by its head, and the effect of a provider query on the row it was made for.
\<close>

section \<open>Deliveries\<close>

text \<open>C8: authenticity. A delivery for an account that is not loaded, has no webhook secret, or
  whose header does not carry the secret is refused before the adapter sees it, and the
  state of the engine is exactly what it was.\<close>

lemma unauthenticated_webhook_refused:
  assumes "\<not> (\<exists>rp. Get w accountID = Some rp \<and> rt_WebhookSecret rp \<noteq> [] \<and>
               webhook_secret_of headers = rt_WebhookSecret rp)"
  shows "\<exists>e. webhook_Handle E accountID payload headers w = (Inl e, w)"
proof -
  have "\<exists>e. verify E accountID payload headers w = (Inl e, w)"
    using assms by (auto simp: verify_def split: option.split)
  then show ?thesis by (auto simp: webhook_Handle_def)
qed

lemma unauthenticated_webhook_refused_witness:
  "\<exists>e. webhook_Handle sample_env ''pacc_1'' ''ref-1'' [(''X-Webhook-Secret'', ''guess'')] sample_world = (Inl e, sample_world)"
  by (rule unauthenticated_webhook_refused)
     (simp add: Get_def sample_defs webhook_secret_of_def header_def)

lemma webhook_Handle_cases:
  assumes "webhook_Handle E accountID payload headers w = (r, w')"
  obtains (refused) e where "r = Inl e" "same_pay w w'"
    | (delivered) event w1 stored i w2 change where
        "verify E accountID payload headers w = (Inr event, w1)" "env_event_json E event = Inr stored"
        "NewID ''wh'' w1 = (Inr i, w2)" "same_pay w w2"
        "store_and_apply E (webhook_row i accountID event stored) event w2 = (Inr change, w')
         \<or> (\<exists>w3. store_and_apply E (webhook_row i accountID event stored) event w2 = (Inr change, w3) \<and> same_pay w3 w')"
        "r = Inr ()"
proof -
  obtain v w1 where v: "verify E accountID payload headers w = (v, w1)" by fastforce
  have w1: "same_pay w w1" using movesD [OF same_pay_verify v] .
  consider (stop) e where "w' = w1" "r = Inl e"
    | (go) event stored where "v = Inr event" "env_event_json E event = Inr stored"
    using assms v by (cases v) (auto simp: webhook_Handle_def bindE_liftE split: sum.splits)
  then show ?thesis
  proof cases
    case stop
    with w1 show ?thesis by (intro refused) auto
  next
    case (go event stored)
    obtain i w2 where i: "NewID ''wh'' w1 = (Inr i, w2)" by (simp add: NewID_def)
    have w2: "same_pay w w2" using w1 movesD [OF same_pay_NewID i] same_pay.trans_R by blast
    obtain c w3 where c: "store_and_apply E (webhook_row i accountID event stored) event w2 = (c, w3)" by fastforce
    show ?thesis
    proof (cases c)
      case (Inl e)
      have "same_pay w2 w3" using c Inl unfolding store_and_apply_def by (blast intro: Within_Inl_same_pay)
      moreover have "w' = w3" "r = Inl e" using assms v go i c Inl by (auto simp: webhook_Handle_def bindE_liftE)
      ultimately show ?thesis using w2 same_pay.trans_R by (intro refused) blast+
    next
      case (Inr change)
      have "r = Inr () \<and> db w' = db w3"
        using assms v go i c Inr by (auto simp: webhook_Handle_def bindE_liftE dest: notify_option_InrD)
      then show ?thesis
        using v go i w2 c Inr by (intro delivered [of event w1 stored i w2 change]) (auto simp: same_pay_def)
    qed
  qed
qed

text \<open>Deduplication. When an event with the account and the canonical hash of a delivery is
  already stored, processed or not, the delivery writes no event, no transaction and no
  attempt.\<close>

lemma duplicate_webhook_ignored:
  assumes "verify E accountID payload headers w = (Inr event, w1)" and "x \<in> set (events w)"
    and "we_ProviderAccountID x = accountID" and "we_PayloadHash x = vw_PayloadHash event"
    and "webhook_Handle E accountID payload headers w = (r, w')"
  shows "events w' = events w \<and> txs w' = txs w \<and> atts w' = atts w"
  using assms(5)
proof (cases rule: webhook_Handle_cases)
  case refused
  then show ?thesis by (simp add: same_pay_def)
next
  case (delivered event' w1' stored i w2 change)
  have ev: "event' = event" using delivered(1) assms(1) by simp
  obtain w3 where s: "store_and_apply E (webhook_row i accountID event stored) event w2 = (Inr change, w3)"
    and w3: "same_pay w3 w'"
    using delivered(5) same_pay.refl_R unfolding ev by blast
  from s have "same_pay w2 w3"
  proof (cases rule: store_and_apply_cases)
    case (stored w4 w5 change')
    then show ?thesis using assms(2-4) delivered(4) by (auto simp: same_pay_def webhook_row_def)
  qed
  then show ?thesis using delivered(4) w3 by (simp add: same_pay_def)
qed

text \<open>The sample engine with the event of one delivery stored.\<close>

definition sample_delivered :: "unit world" where
  "sample_delivered =
     snd (webhook_Handle sample_env ''pacc_1'' ''ref-1'' [(''X-Webhook-Secret'', ''s3cret'')] sample_world)"

lemma duplicate_webhook_ignored_witness:
  "map we_PayloadHash (events sample_delivered) = [''pacc_1|ref-1|payment|succeeded|||''] \<and>
   events (snd (webhook_Handle sample_env ''pacc_1'' ''ref-1'' [(''X-Webhook-Secret'', ''s3cret'')] sample_delivered)) =
     events sample_delivered"
proof -
  let ?h = "[(''X-Webhook-Secret'', ''s3cret'')]"
  let ?v = "verify sample_env ''pacc_1'' ''ref-1'' ?h sample_delivered"
  have hash: "map we_PayloadHash (events sample_delivered) = [''pacc_1|ref-1|payment|succeeded|||'']"
    "map we_ProviderAccountID (events sample_delivered) = [''pacc_1'']"
    by code_simp+
  have "(case fst ?v of Inl e \<Rightarrow> False | Inr event \<Rightarrow> vw_PayloadHash event = ''pacc_1|ref-1|payment|succeeded|||'')"
    by code_simp
  then obtain event where e: "fst ?v = Inr event" "vw_PayloadHash event = ''pacc_1|ref-1|payment|succeeded|||''"
    by (auto split: sum.splits)
  then have v: "?v = (Inr event, snd ?v)" by (metis prod.collapse)
  obtain x where x: "x \<in> set (events sample_delivered)" "we_ProviderAccountID x = ''pacc_1''"
      "we_PayloadHash x = vw_PayloadHash event"
    using hash e(2) by (auto simp: map_eq_Cons_conv)
  show ?thesis using duplicate_webhook_ignored [OF v x surjective_pairing] hash(1) by simp
qed

text \<open>The event a delivery stands for: what the adapter read from the payload, with the codes in
  upper case and the secrets of the raw part removed, under the canonical hash of the account.\<close>

definition delivered_event :: "'p env \<Rightarrow> string \<Rightarrow> ProviderWebhookEvent \<Rightarrow> verifiedWebhook" where
  "delivered_event E accountID raw =
     (let ev = raw\<lparr>ev_Currency := to_upper (ev_Currency raw), ev_Country := to_upper (ev_Country raw),
                   ev_Raw := RedactRawMap (ev_Raw raw)\<rparr>
      in \<lparr>vw_Event = ev, vw_ProviderAccountID = accountID, vw_PayloadHash = canonicalWebhookHash E accountID ev\<rparr>)"

lemma verify_adapter:
  assumes "verify E accountID payload headers w = (Inr event, w1)"
  obtains raw where "VerifyWebhook accountID payload headers w = (Inr raw, w1)"
    "event = delivered_event E accountID raw"
  using assms
  by (auto simp: verify_def delivered_event_def Let_def returnE_def elim!: bindE_InrE dest!: failIf_InrD
      split: option.splits if_splits)

text \<open>What storing and applying an event did to the tables, at the time of its transaction.\<close>

lemma webhook_updates:
  "(webhook_tx_updates t tx ev r)\<lparr>tx_UpdatedAt := t\<rparr> =
     r\<lparr>tx_Status := tx_Status tx, tx_ProviderReference := ev_ProviderReference ev,
       tx_NextReconcileAt := (if Terminal (tx_Status tx) then None else Some (t + minute)), tx_UpdatedAt := t\<rparr>"
  "webhook_attempt_updates E t tx ev a =
     a\<lparr>att_Status := tx_Status tx, att_ProviderReference := ev_ProviderReference ev,
       att_RawResponse := env_map_json E (ev_Raw ev),
       att_CompletedAt := (if Terminal (tx_Status tx) then Some t else att_CompletedAt a)\<rparr>"
  by (simp_all add: webhook_tx_updates_def webhook_attempt_updates_def Let_def)

lemma store_and_apply_outcome:
  assumes "store_and_apply E row event w = (Inr change, w')" and "\<not> we_Processed row" and "we_TransactionID row = []"
    and "ev = vw_Event event" and "t = now w"
  shows "if \<exists>x\<in>set (events w). we_ProviderAccountID x = we_ProviderAccountID row \<and> we_PayloadHash x = we_PayloadHash row
    then same_pay w w'
    else \<exists>e. events w' = events w @ [e] \<and>
       e\<lparr>we_Processed := False, we_TransactionID := []\<rparr> = row\<lparr>we_CreatedAt := t\<rparr> \<and>
       (case webhook_target (vw_ProviderAccountID event) (ev_ProviderReference ev) (txs w) (atts w) of
          None \<Rightarrow> txs w' = txs w \<and> atts w' = atts w \<and> \<not> we_Processed e \<and> we_TransactionID e = []
        | Some (tx, a) \<Rightarrow> we_Processed e \<and> we_TransactionID e = tx_ID tx \<and> validateWebhook ev tx = Inr () \<and>
            (\<exists>tx'. Transition (Some tx) (ev_Status ev) = Inr tx' \<and>
              txs w' = at_key tx_ID (tx_ID tx) (\<lambda>r. (webhook_tx_updates t tx' ev r)\<lparr>tx_UpdatedAt := t\<rparr>) (txs w) \<and>
              atts w' = at_key att_ID (att_ID a) (webhook_attempt_updates E t tx' ev) (atts w)))"
  using assms(1)
proof (cases rule: store_and_apply_cases)
  case (stored w0 w1 change')
  have fresh: "\<not> (\<exists>x\<in>set (events w). we_ProviderAccountID x = we_ProviderAccountID row \<and> we_PayloadHash x = we_PayloadHash row)"
    using stored(1) by blast
  let ?row = "row\<lparr>we_CreatedAt := t\<rparr>"
  have w': "txs w' = txs w1" "atts w' = atts w1" "events w' = events w1" using stored(9) by (simp_all add: same_pay_def)
  have row: "?row\<lparr>we_Processed := False, we_TransactionID := []\<rparr> = ?row" using assms(2,3) by (cases row) simp
  from stored(7) show ?thesis
  proof (cases rule: apply_event_cases)
    case unmatched
    then show ?thesis
      unfolding if_not_P [OF fresh] using stored(3,4,6) w' assms(2-5) row reads_rows [OF unmatched(1)] by simp
  next
    case (applied tx a tx')
    let ?mark = "\<lambda>e. e\<lparr>we_TransactionID := tx_ID tx, we_Processed := True\<rparr>"
    have "at_key we_ID (we_ID row) ?mark (events w @ [?row]) = events w @ [?mark ?row]"
      using stored(2) by (auto simp: at_key_def intro!: map_idI)
    then show ?thesis
      unfolding if_not_P [OF fresh] using applied(6-10,12) stored(3-6) w' assms(4,5) row by simp
  qed
qed auto

lemma applied_exactly:
  assumes tr: "Transition (Some tx) s = Inr tx'" and ev: "ev_ProviderReference ev = ref" "ev_Raw ev = raw"
    and upd: "ts' = at_key tx_ID (tx_ID tx) (\<lambda>r. (webhook_tx_updates t tx' ev r)\<lparr>tx_UpdatedAt := t\<rparr>) ts"
      "as' = at_key att_ID (att_ID a) (webhook_attempt_updates E t tx' ev) as"
  shows "\<exists>status. Transition (Some tx) s = Inr (tx\<lparr>tx_Status := status\<rparr>) \<and>
    ts' = map (\<lambda>r. if tx_ID r = tx_ID tx
        then r\<lparr>tx_Status := status, tx_ProviderReference := ref,
               tx_NextReconcileAt := (if Terminal status then None else Some (t + minute)), tx_UpdatedAt := t\<rparr> else r) ts \<and>
    as' = map (\<lambda>r. if att_ID r = att_ID a
        then r\<lparr>att_Status := status, att_ProviderReference := ref, att_RawResponse := env_map_json E raw,
               att_CompletedAt := (if Terminal status then Some t else att_CompletedAt r)\<rparr> else r) as"
proof (intro exI conjI)
  show "Transition (Some tx) s = Inr (tx\<lparr>tx_Status := tx_Status tx'\<rparr>)" using tr Transition_frame [OF tr] by simp
qed (simp_all only: upd at_key_def webhook_updates ev)

lemma delivery_outcome:
  assumes s: "store_and_apply E (webhook_row i accountID event stored) event w = (Inr change, w')"
    and event: "event = delivered_event E accountID raw" and ev: "ev = vw_Event event" and t: "t = now w"
  shows "(if \<exists>x\<in>set (events w). we_ProviderAccountID x = accountID \<and> we_PayloadHash x = canonicalWebhookHash E accountID ev
     then events w' = events w \<and> txs w' = txs w \<and> atts w' = atts w
     else \<exists>e. events w' = events w @ [e] \<and> we_ID e = i \<and> we_CreatedAt e = t \<and>
       we_ProviderAccountID e = accountID \<and> we_ProviderReference e = ev_ProviderReference raw \<and>
       we_EventType e = ev_EventType raw \<and> we_PayloadHash e = canonicalWebhookHash E accountID ev \<and>
       we_PayloadJSON e = stored \<and>
       (case webhook_target accountID (ev_ProviderReference raw) (txs w) (atts w) of
          None \<Rightarrow> txs w' = txs w \<and> atts w' = atts w \<and> \<not> we_Processed e \<and> we_TransactionID e = []
        | Some (tx, a) \<Rightarrow> we_Processed e \<and> we_TransactionID e = tx_ID tx \<and> validateWebhook ev tx = Inr () \<and>
            (\<exists>status. Transition (Some tx) (ev_Status raw) = Inr (tx\<lparr>tx_Status := status\<rparr>) \<and>
              txs w' = map (\<lambda>r. if tx_ID r = tx_ID tx
                  then r\<lparr>tx_Status := status, tx_ProviderReference := ev_ProviderReference raw,
                         tx_NextReconcileAt := (if Terminal status then None else Some (t + minute)),
                         tx_UpdatedAt := t\<rparr> else r) (txs w) \<and>
              atts w' = map (\<lambda>r. if att_ID r = att_ID a
                  then r\<lparr>att_Status := status, att_ProviderReference := ev_ProviderReference raw,
                         att_RawResponse := env_map_json E (RedactRawMap (ev_Raw raw)),
                         att_CompletedAt := (if Terminal status then Some t else att_CompletedAt r)\<rparr> else r) (atts w))))"
proof -
  let ?row = "webhook_row i accountID event stored"
  have new: "\<not> we_Processed ?row" "we_TransactionID ?row = []" by (simp_all add: webhook_row_def)
  have evs: "ev_ProviderReference ev = ev_ProviderReference raw" "ev_Status ev = ev_Status raw"
    "ev_Raw ev = RedactRawMap (ev_Raw raw)" "vw_ProviderAccountID event = accountID"
    "we_ProviderAccountID ?row = accountID" "we_PayloadHash ?row = canonicalWebhookHash E accountID ev"
    "ev_EventType ev = ev_EventType raw"
    by (simp_all add: ev event delivered_event_def webhook_row_def Let_def)
  have fields: "we_ID e = i \<and> we_CreatedAt e = t \<and> we_ProviderAccountID e = accountID \<and>
      we_ProviderReference e = ev_ProviderReference raw \<and> we_EventType e = ev_EventType raw \<and>
      we_PayloadHash e = canonicalWebhookHash E accountID ev \<and> we_PayloadJSON e = stored"
    if "e\<lparr>we_Processed := False, we_TransactionID := []\<rparr> = ?row\<lparr>we_CreatedAt := t\<rparr>" for e
    using that evs(1,6,7) by (cases e) (simp add: webhook_row_def ev)
  note outcome = store_and_apply_outcome [OF s new ev t, unfolded evs]
  show ?thesis
  proof (cases "\<exists>x\<in>set (events w). we_ProviderAccountID x = accountID \<and> we_PayloadHash x = canonicalWebhookHash E accountID ev")
    case True
    then show ?thesis using outcome by (simp add: same_pay_def)
  next
    case False
    obtain e where e: "events w' = events w @ [e]"
        "e\<lparr>we_Processed := False, we_TransactionID := []\<rparr> = ?row\<lparr>we_CreatedAt := t\<rparr>"
      and rest: "case webhook_target accountID (ev_ProviderReference raw) (txs w) (atts w) of
          None \<Rightarrow> txs w' = txs w \<and> atts w' = atts w \<and> \<not> we_Processed e \<and> we_TransactionID e = []
        | Some (tx, a) \<Rightarrow> we_Processed e \<and> we_TransactionID e = tx_ID tx \<and> validateWebhook ev tx = Inr () \<and>
            (\<exists>tx'. Transition (Some tx) (ev_Status raw) = Inr tx' \<and>
              txs w' = at_key tx_ID (tx_ID tx) (\<lambda>r. (webhook_tx_updates t tx' ev r)\<lparr>tx_UpdatedAt := t\<rparr>) (txs w) \<and>
              atts w' = at_key att_ID (att_ID a) (webhook_attempt_updates E t tx' ev) (atts w))"
      using outcome [unfolded if_not_P [OF False]] by blast
    show ?thesis
    proof (cases "webhook_target accountID (ev_ProviderReference raw) (txs w) (atts w)")
      case None
      with e(1) fields [OF e(2)] rest show ?thesis unfolding if_not_P [OF False] by (intro exI [of _ e]) simp
    next
      case (Some p)
      obtain tx a where p: "p = (tx, a)" by (cases p)
      note rest = rest [unfolded Some p option.case prod.case]
      then obtain tx' where tr: "Transition (Some tx) (ev_Status raw) = Inr tx'"
        and upd: "txs w' = at_key tx_ID (tx_ID tx) (\<lambda>r. (webhook_tx_updates t tx' ev r)\<lparr>tx_UpdatedAt := t\<rparr>) (txs w)"
          "atts w' = at_key att_ID (att_ID a) (webhook_attempt_updates E t tx' ev) (atts w)" by blast
      from rest applied_exactly [OF tr evs(1,3) upd] e(1) fields [OF e(2)] show ?thesis
        unfolding if_not_P [OF False] Some p option.case prod.case by (intro exI [of _ e] conjI) blast+
    qed
  qed
qed

text \<open>C9: an accepted delivery. When a delivery is accepted, the adapter read an event with a
  reference from its payload. If an event of the account with the same canonical hash was on
  record, no event, transaction or attempt changes. Otherwise exactly one event is stored,
  with that account, reference, type and hash. If no transaction is the target, that of the
  newest attempt of the account with the reference, the event stays pending and nothing
  else changes. If there is one, the event does not contradict it, the event's
  status is one the state graph allows, the event is stored as processed with that
  transaction, the transaction's row takes the status and the reference and is polled again
  in a minute unless it is settled, the attempt's row takes the status, the reference and
  the answer, completed now if it is settled, and no other row changes.\<close>

lemma accepted_webhook:
  assumes "webhook_Handle E accountID payload headers w = (Inr (), w')"
  shows "\<exists>raw w1 event ev stored i t.
    VerifyWebhook accountID payload headers w = (Inr raw, w1) \<and> ev_ProviderReference raw \<noteq> [] \<and>
    event = delivered_event E accountID raw \<and> ev = vw_Event event \<and> t = now w1 \<and>
    env_event_json E event = Inr stored \<and>
    (if \<exists>x\<in>set (events w). we_ProviderAccountID x = accountID \<and> we_PayloadHash x = canonicalWebhookHash E accountID ev
     then events w' = events w \<and> txs w' = txs w \<and> atts w' = atts w
     else \<exists>e. events w' = events w @ [e] \<and> we_ID e = i \<and> we_CreatedAt e = t \<and>
       we_ProviderAccountID e = accountID \<and> we_ProviderReference e = ev_ProviderReference raw \<and>
       we_EventType e = ev_EventType raw \<and> we_PayloadHash e = canonicalWebhookHash E accountID ev \<and>
       we_PayloadJSON e = stored \<and>
       (case webhook_target accountID (ev_ProviderReference raw) (txs w) (atts w) of
          None \<Rightarrow> txs w' = txs w \<and> atts w' = atts w \<and> \<not> we_Processed e \<and> we_TransactionID e = []
        | Some (tx, a) \<Rightarrow> we_Processed e \<and> we_TransactionID e = tx_ID tx \<and> validateWebhook ev tx = Inr () \<and>
            (\<exists>status. Transition (Some tx) (ev_Status raw) = Inr (tx\<lparr>tx_Status := status\<rparr>) \<and>
              txs w' = map (\<lambda>r. if tx_ID r = tx_ID tx
                  then r\<lparr>tx_Status := status, tx_ProviderReference := ev_ProviderReference raw,
                         tx_NextReconcileAt := (if Terminal status then None else Some (t + minute)),
                         tx_UpdatedAt := t\<rparr> else r) (txs w) \<and>
              atts w' = map (\<lambda>r. if att_ID r = att_ID a
                  then r\<lparr>att_Status := status, att_ProviderReference := ev_ProviderReference raw,
                         att_RawResponse := env_map_json E (RedactRawMap (ev_Raw raw)),
                         att_CompletedAt := (if Terminal status then Some t else att_CompletedAt r)\<rparr> else r) (atts w))))"
  using assms(1)
proof (cases rule: webhook_Handle_cases)
  case (delivered event w1 stored i w2 change)
  obtain raw where raw: "VerifyWebhook accountID payload headers w = (Inr raw, w1)"
    and event: "event = delivered_event E accountID raw" using verify_adapter [OF delivered(1)] .
  obtain w3 where s: "store_and_apply E (webhook_row i accountID event stored) event w2 = (Inr change, w3)"
    and w3: "same_pay w3 w'"
    using delivered(5) same_pay.refl_R by blast
  have t: "now w1 = now w2" using delivered(3) by (auto simp: NewID_def)
  have rows: "txs w2 = txs w" "atts w2 = atts w" "events w2 = events w"
      "txs w3 = txs w'" "atts w3 = atts w'" "events w3 = events w'"
    using delivered(4) w3 by (simp_all add: same_pay_def)
  have "ev_ProviderReference raw \<noteq> []"
    using verify_InrD(1) [OF delivered(1)] by (simp add: event delivered_event_def Let_def)
  with delivery_outcome [OF s event refl t, unfolded rows] raw event delivered(2) show ?thesis by blast
qed simp

text \<open>The sample engine with one payment the provider has accepted and not finished.\<close>

definition sample_pending :: "unit world" where
  "sample_pending = sample_world\<lparr>db := sample_db\<lparr>
     t_transactions := [sample_tx\<lparr>tx_ProviderReference := ''ref-1''\<rparr>],
     t_attempts := [sample_att\<lparr>att_ProviderReference := ''ref-1''\<rparr>]\<rparr>\<rparr>"

definition sample_delivery :: "(err + unit) \<times> unit world" where
  "sample_delivery = webhook_Handle sample_env ''pacc_1'' ''ref-1'' [(''X-Webhook-Secret'', ''s3cret'')] sample_pending"

lemma accepted_webhook_witness:
  "\<exists>e. events (snd sample_delivery) = [e] \<and> we_ProviderAccountID e = ''pacc_1'' \<and> we_ProviderReference e \<noteq> [] \<and>
       map tx_Status (txs (snd sample_delivery)) = [TxSucceeded]"
proof -
  have c: "fst sample_delivery = Inr ()" "length (events (snd sample_delivery)) = 1" "events sample_pending = []"
    "map tx_Status (txs (snd sample_delivery)) = [TxSucceeded]"
    by code_simp+
  have run: "webhook_Handle sample_env ''pacc_1'' ''ref-1'' [(''X-Webhook-Secret'', ''s3cret'')] sample_pending
     = (Inr (), snd sample_delivery)"
    using c(1) by (metis prod.collapse sample_delivery_def)
  show ?thesis using accepted_webhook [OF run] c(2-4) by (auto simp: same_pay_def)
qed

section \<open>Retries\<close>

text \<open>What is at the head of the queue of stored events decides whether the rest is looked at.\<close>

lemma pending_clean:
  assumes "faults (db w) = []"
  shows "on_db (WebhookEvents_Pending limit) w =
     (Inr (take (nat limit) (sort_key we_CreatedAt (filter (\<lambda>e. \<not> we_Processed e) (events w)))), w)"
  using assms by (simp add: WebhookEvents_Pending_def on_db_find_clean)

text \<open>The head of the retry queue blocks it. If the oldest pending event decodes to one that
  contradicts its transaction or asks for a status change the state graph forbids (for
  instance because reconciliation settled the transaction otherwise meanwhile), a retry run
  ends with that error and changes nothing, whatever events are waiting behind it.\<close>

lemma poisoned_event_blocks_retries:
  assumes "faults (db w) = []"
    and "sort_key we_CreatedAt (filter (\<lambda>e. \<not> we_Processed e) (events w)) = row # rows"
    and "env_event_of_json E (we_PayloadJSON row) = Inr event"
    and "findWebhookTarget (vw_ProviderAccountID event) (ev_ProviderReference (vw_Event event)) w = (Inr (tx, a), w)"
    and "validateWebhook (vw_Event event) tx \<noteq> Inr () \<or>
         (\<exists>e. Transition (Some tx) (ev_Status (vw_Event event)) = Inl e)"
  shows "\<exists>e. ReprocessPending E limit w = (Inl e, w)"
proof -
  let ?limit = "if limit < 1 then 100 else limit"
  obtain rest where rows: "take (nat ?limit) (sort_key we_CreatedAt (filter (\<lambda>e. \<not> we_Processed e) (events w))) = row # rest"
    using assms(2) by (cases "nat ?limit") (auto split: if_splits)
  have "\<exists>s. apply_event E (we_ID row) event w = (Inl (Msg s), w)"
  proof (cases "validateWebhook (vw_Event event) tx = Inr ()")
    case True
    then obtain e where "Transition (Some tx) (ev_Status (vw_Event event)) = Inl e" using assms(5) by blast
    moreover from this obtain s where "e = Msg s"
      by (auto simp: Transition.simps Let_def split: if_splits)
    ultimately show ?thesis using assms(4) True by (simp add: apply_event_def Let_def bindE_liftE)
  next
    case False
    then show ?thesis
      using assms(4) by (auto simp: apply_event_def Let_def bindE_liftE validateWebhook_def split: if_splits)
  qed
  then obtain s where "apply_event E (we_ID row) event w = (Inl (Msg s), w)" by blast
  then have "Within (apply_event E (we_ID row) event) w = (Inl (Msg s), w)"
    using assms(1) by (simp add: Within_def statement_clean rollback_def)
  then have "reprocess_rows E (row # rest) w = (Inl (Msg s), w)"
    using assms(3) by (simp add: IsNotFound_def)
  then show ?thesis using pending_clean [OF assms(1), of ?limit] rows by (simp add: ReprocessPending_def)
qed

text \<open>A payment reconciliation found failed, the event that arrived before its reference was known,
  and one more event.\<close>

definition sample_event_row :: "string \<Rightarrow> string \<Rightarrow> WebhookEvent" where
  "sample_event_row i ref =
     \<lparr>we_ID = i, we_CreatedAt = 0, we_ProviderAccountID = ''pacc_1'', we_ProviderReference = ref,
      we_TransactionID = [], we_EventType = ''payment'', we_PayloadHash = ref, we_Processed = False,
      we_PayloadJSON = ref\<rparr>"

definition sample_poisoned :: "unit world" where
  "sample_poisoned = sample_world\<lparr>db := sample_db\<lparr>
     t_transactions := [sample_tx\<lparr>tx_ProviderReference := ''ref-1'', tx_Status := TxFailed\<rparr>],
     t_attempts := [sample_att\<lparr>att_ProviderReference := ''ref-1''\<rparr>],
     t_webhookEvents := [sample_event_row ''wh_1'' ''ref-1'', sample_event_row ''wh_2'' ''ref-2'']\<rparr>\<rparr>"

lemma poisoned_event_blocks_retries_witness:
  "\<exists>e. ReprocessPending sample_env 0 sample_poisoned = (Inl e, sample_poisoned)"
proof -
  obtain event where e: "env_event_of_json sample_env (we_PayloadJSON (sample_event_row ''wh_1'' ''ref-1'')) = Inr event"
      "vw_ProviderAccountID event = ''pacc_1''" "ev_ProviderReference (vw_Event event) = ''ref-1''"
      "ev_Status (vw_Event event) = ''succeeded''"
    by (simp add: sample_env_def sample_event_row_def)
  let ?t = "sample_tx\<lparr>tx_ProviderReference := ''ref-1'', tx_Status := TxFailed\<rparr>"
  show ?thesis
  proof (rule poisoned_event_blocks_retries [OF _ _ e(1), of _ "[sample_event_row ''wh_2'' ''ref-2'']" ?t
        "sample_att\<lparr>att_ProviderReference := ''ref-1''\<rparr>"])
    show "faults (db sample_poisoned) = []" by (simp add: sample_poisoned_def sample_defs)
    show "sort_key we_CreatedAt (filter (\<lambda>e. \<not> we_Processed e) (events sample_poisoned)) =
        sample_event_row ''wh_1'' ''ref-1'' # [sample_event_row ''wh_2'' ''ref-2'']"
      by (simp add: sample_poisoned_def sample_event_row_def)
    show "findWebhookTarget (vw_ProviderAccountID event) (ev_ProviderReference (vw_Event event)) sample_poisoned =
        (Inr (?t, sample_att\<lparr>att_ProviderReference := ''ref-1''\<rparr>), sample_poisoned)"
      by (simp add: e findWebhookTarget_def TransactionAttempts_LatestForReference_def latest_attempt_def
          Transactions_LockForUpdate_def on_db_def base_find_def base_first_def statement_clean
          sample_poisoned_def sample_defs sample_att_def sample_tx_def bindE_def returnE_def)
    have "Transition (Some ?t) ''succeeded'' =
        Inl (Msg (''illegal transaction transition failed -> succeeded''))"
      by (simp add: Transition.simps Let_def tx_status_defs Terminal_def)
    then show "validateWebhook (vw_Event event) ?t \<noteq> Inr () \<or>
        (\<exists>e. Transition (Some ?t) (ev_Status (vw_Event event)) = Inl e)"
      using e(4) by auto
  qed
qed

lemma latest_attempt_clean:
  assumes "faults (db w) = []" and "\<forall>a\<in>set (atts w). \<not> P a"
  shows "on_db (latest_attempt P) w = (Inl NotFound, w)"
proof -
  have "filter P (atts w) = []" using assms(2) by (simp add: filter_empty_conv)
  then show ?thesis
    using assms(1)
    by (simp add: on_db_def latest_attempt_def base_find_def statement_clean bindE_def throwE_def)
qed

text \<open>Unmatched events starve the retry queue. When the oldest pending events, as many as one run
  reads, name no attempt on record (or do not decode), a run succeeds and changes nothing:
  they stay first in the queue, and no later event is ever tried.\<close>

lemma unmatched_events_starve_retries:
  assumes "faults (db w) = []"
    and "rows = take (nat (if limit < 1 then 100 else limit))
                  (sort_key we_CreatedAt (filter (\<lambda>e. \<not> we_Processed e) (events w)))"
    and "\<forall>row\<in>set rows. \<forall>event. env_event_of_json E (we_PayloadJSON row) = Inr event \<longrightarrow>
           (\<forall>a\<in>set (atts w). att_ProviderAccountID a = vw_ProviderAccountID event \<longrightarrow>
              att_ProviderReference a \<noteq> ev_ProviderReference (vw_Event event))"
  shows "ReprocessPending E limit w = (Inr (), w)"
proof -
  have "reprocess_rows E rs w = (Inr (), w)" if "set rs \<subseteq> set rows" for rs
    using that
  proof (induction rs)
    case (Cons row rs)
    show ?case
    proof (cases "env_event_of_json E (we_PayloadJSON row)")
      case (Inl e)
      with Cons show ?thesis by simp
    next
      case (Inr event)
      have "on_db (latest_attempt (\<lambda>a. att_ProviderAccountID a = vw_ProviderAccountID event \<and>
          att_ProviderReference a = ev_ProviderReference (vw_Event event))) w = (Inl NotFound, w)"
        using assms(1,3) Cons(2) Inr by (intro latest_attempt_clean) auto
      then have "findWebhookTarget (vw_ProviderAccountID event) (ev_ProviderReference (vw_Event event)) w = (Inl NotFound, w)"
        by (simp add: findWebhookTarget_def TransactionAttempts_LatestForReference_def)
      then have "apply_event E (we_ID row) event w = (Inr None, w)"
        by (simp add: apply_event_def Let_def)
      then have "Within (apply_event E (we_ID row) event) w = (Inr None, w)"
        using assms(1) by (intro Within_clean)
      then show ?thesis using Cons Inr by (simp add: notify_option_def)
    qed
  qed simp
  then show ?thesis using pending_clean [OF assms(1)] assms(2) by (simp add: ReprocessPending_def)
qed

definition sample_starved :: "unit world" where
  "sample_starved = sample_pending\<lparr>db := (db sample_pending)\<lparr>
     t_webhookEvents := [sample_event_row ''wh_1'' ''ref-9'', sample_event_row ''wh_2'' ''ref-1'']\<rparr>\<rparr>"

lemma unmatched_events_starve_retries_witness:
  "ReprocessPending sample_env 1 sample_starved = (Inr (), sample_starved) \<and>
   (\<exists>e\<in>set (events sample_starved). \<exists>a\<in>set (atts sample_starved). att_ProviderReference a = we_ProviderReference e)"
proof
  show "ReprocessPending sample_env 1 sample_starved = (Inr (), sample_starved)"
  proof (rule unmatched_events_starve_retries [OF _ refl])
    show "faults (db sample_starved) = []" by (simp add: sample_starved_def sample_pending_def sample_defs)
    have "take (nat (if (1::int) < 1 then 100 else 1))
        (sort_key we_CreatedAt (filter (\<lambda>e. \<not> we_Processed e) (events sample_starved))) = [sample_event_row ''wh_1'' ''ref-9'']"
      by (simp add: sample_starved_def sample_event_row_def)
    then show "\<forall>row\<in>set (take (nat (if (1::int) < 1 then 100 else 1))
        (sort_key we_CreatedAt (filter (\<lambda>e. \<not> we_Processed e) (events sample_starved)))).
        \<forall>event. env_event_of_json sample_env (we_PayloadJSON row) = Inr event \<longrightarrow>
           (\<forall>a\<in>set (atts sample_starved). att_ProviderAccountID a = vw_ProviderAccountID event \<longrightarrow>
              att_ProviderReference a \<noteq> ev_ProviderReference (vw_Event event))"
      by (auto simp: sample_starved_def sample_pending_def sample_event_row_def sample_env_def sample_att_def)
  qed
  show "\<exists>e\<in>set (events sample_starved). \<exists>a\<in>set (atts sample_starved). att_ProviderReference a = we_ProviderReference e"
    by (simp add: sample_starved_def sample_pending_def sample_event_row_def sample_att_def)
qed

section \<open>Reconciliation of one row\<close>

text \<open>C10: reconciling one row. A provider query about a polled row, whatever it answers and whatever
  happened to the row since it was read, changes no other transaction. If it changes the
  row, the row was not terminal, keeps its identity and money fields, takes the normalized
  status of the answer (unknown on an error) as the state graph allows, counts one more
  attempt, and is due again after the backoff of that count unless it is now terminal.\<close>

lemma reconcile_one_row:
  assumes "reconcile row w = (r, w')" and "tables_sound w"
  shows "(txs w' = txs w \<and> atts w' = atts w) \<or>
    (\<exists>t t' n status. t \<in> set (txs w) \<and> tx_ID t = tx_ID row \<and> \<not> Terminal (tx_Status t) \<and>
       status = answer_status (fst (QueryTransaction (tx_SelectedProviderAccountID row)
                  (tx_ProviderReference row) (tx_Country row) w)) \<and>
       Transition (Some t) status = Inr (t\<lparr>tx_Status := tx_Status t'\<rparr>) \<and>
       t' \<in> set (txs w') \<and> tx_frame t t' \<and> tx_ProviderReference t' = tx_ProviderReference t \<and>
       tx_ReconciliationAttempts t' = tx_ReconciliationAttempts t + 1 \<and> tx_LastReconciledAt t' = Some n \<and>
       tx_NextReconcileAt t' = (if Terminal (tx_Status t') then None
                                else Some (n + backoff (tx_ReconciliationAttempts t'))) \<and>
       (\<forall>x\<in>set (txs w). tx_ID x \<noteq> tx_ID row \<longrightarrow> x \<in> set (txs w')))"
proof -
  let ?q = "QueryTransaction (tx_SelectedProviderAccountID row) (tx_ProviderReference row) (tx_Country row) w"
  obtain q w1 where q: "?q = (q, w1)" by fastforce
  have "same_pay w w1" using movesD [OF same_pay_calls(3) q] .
  then have w1: "txs w1 = txs w" "atts w1 = atts w" by (simp_all add: same_pay_def)
  have "settle row q w1 = (r, w')" using assms(1) q by (simp add: reconcile_def)
  then show ?thesis
  proof (cases rule: settle_cases)
    case quiet
    then show ?thesis using w1 by (simp add: same_pay_def)
  next
    case (settled tx tx' next_at j g)
    let ?t = "(reconcile_update (now w1) tx' next_at tx)\<lparr>tx_UpdatedAt := now w1\<rparr>"
    have "?t \<in> set (txs w')" using settled(1) by (auto simp: settled(5) reconciled_def)
    moreover have "x \<in> set (txs w')" if "x \<in> set (txs w)" "tx_ID x \<noteq> tx_ID row" for x
      using that settled(2) w1(1) by (force simp: settled(5) reconciled_def)
    moreover have "Transition (Some tx) (answer_status q) = Inr (tx\<lparr>tx_Status := tx_Status tx'\<rparr>)"
      using settled(4) Transition_frame [OF settled(4)] by simp
    ultimately show ?thesis
      using settled(1-3,6) w1(1) q tx_frame_reconcile
      by (intro disjI2 exI [of _ tx] exI [of _ ?t] exI [of _ "now w1"] exI [of _ "answer_status q"])
         (simp add: reconcile_update_def CountReconcileAttempt_def)
  qed
qed

lemma reconcile_one_row_witness:
  "\<exists>t'. txs (snd (reconcile (sample_tx\<lparr>tx_ProviderReference := ''ref-1''\<rparr>) sample_pending)) = [t'] \<and>
        tx_ReconciliationAttempts t' = 1 \<and> tx_Status t' = TxProcessing"
proof -
  let ?row = "sample_tx\<lparr>tx_ProviderReference := ''ref-1''\<rparr>"
  have c: "map tx_ReconciliationAttempts (txs (snd (reconcile ?row sample_pending))) = [1]"
      "map tx_Status (txs (snd (reconcile ?row sample_pending))) = [TxProcessing]"
    by code_simp+
  have p: "txs sample_pending = [?row]" "atts sample_pending = [sample_att\<lparr>att_ProviderReference := ''ref-1''\<rparr>]"
    by (simp_all add: sample_pending_def)
  then have "tables_sound sample_pending"
    by (simp add: tables_sound_def unique_txs_def sample_tx_def sample_att_def)
  from reconcile_one_row [OF surjective_pairing this, of ?row] show ?thesis
    using c p by (auto simp: map_eq_Cons_conv sample_tx_def)
qed

text \<open>The backoff. Between two queries about a transaction the service waits one minute after
  the first attempt and doubles that with each, up to thirty-two minutes from the sixth on.\<close>

lemma backoff_doubles:
  "backoff 1 = minute \<and> (n < m \<longrightarrow> backoff n \<le> backoff m) \<and>
   (1 \<le> n \<and> n < 6 \<longrightarrow> backoff (n + 1) = 2 * backoff n) \<and> (6 \<le> n \<longrightarrow> backoff n = 32 * minute)"
  by (auto simp: backoff_values)

lemma backoff_doubles_witness: "backoff 4 = 2 * backoff 3 \<and> backoff 9 = 32 * minute"
  using backoff_doubles [of 3 4] backoff_doubles [of 9 10] by simp

end
