(* ===== verification/Orphans.thy ===== *)
theory Orphans
  imports Runs
begin

text \<open>
  A payment whose provider call ended without an answer is recorded as unknown and has no
  provider reference. The rows a reconciliation polls carry a reference, and a webhook finds
  its transaction through one: such a row is out of reach of both for ever.
\<close>

definition unreferenced :: "'p world \<Rightarrow> Transaction \<Rightarrow> bool" where
  "unreferenced w t \<longleftrightarrow>
     t \<in> set (txs w) \<and> tx_ProviderReference t = [] \<and>
     (\<forall>a\<in>set (atts w). att_TransactionID a = tx_ID t \<longrightarrow> att_ProviderReference a = [])"

definition orphan :: "'p system \<Rightarrow> Transaction \<Rightarrow> bool" where
  "orphan s t \<longleftrightarrow> unreferenced (sys_world s) t \<and> (\<forall>p\<in>set (inflight s). tx_ID (fst p) \<noteq> tx_ID t)"

lemma unreferenced_same_pay: "same_pay w w' \<Longrightarrow> unreferenced w' t = unreferenced w t"
  by (simp add: unreferenced_def same_pay_def)

lemma unreferenced_cong: "txs w' = txs w \<Longrightarrow> atts w' = atts w \<Longrightarrow> unreferenced w' t = unreferenced w t"
  by (simp add: unreferenced_def)

lemma touches_unreferenced:
  assumes "touches i w w'" and "unreferenced w t" and "tx_ID t \<noteq> i"
  shows "unreferenced w' t"
proof -
  from assms(1) obtain f g where f: "txs w' = map f (txs w)" "\<And>t. t \<in> set (txs w) \<Longrightarrow> tx_ID t \<noteq> i \<Longrightarrow> f t = t"
    and g: "atts w' = map g (atts w)"
      "\<And>a. a \<in> set (atts w) \<Longrightarrow> att_TransactionID (g a) = att_TransactionID a"
      "\<And>a. a \<in> set (atts w) \<Longrightarrow> att_TransactionID a \<noteq> i \<Longrightarrow> g a = a" by (elim touchesE) blast
  have "t \<in> set (txs w')" using assms(2,3) f by (force simp: unreferenced_def)
  then show ?thesis using assms(2,3) g by (auto simp: unreferenced_def)
qed

lemma apply_event_unreferenced:
  assumes "apply_event E rowID event w = (Inr change, w')" and "tables_sound w"
    and "ev_ProviderReference (vw_Event event) \<noteq> []" and "unreferenced w t"
  shows "unreferenced w' t"
  using assms(1,2)
proof (cases rule: apply_event_touches)
  case 1
  then show ?thesis using assms(4) unreferenced_same_pay reads_same_pay by blast
next
  case (2 i)
  then have "tx_ID t \<noteq> i" using assms(3,4) by (auto simp: unreferenced_def)
  then show ?thesis using touches_unreferenced 2(1) assms(4) by blast
qed

lemma unreferenced_not_referenced:
  "tables_sound w \<Longrightarrow> unreferenced w t \<Longrightarrow> \<not> referenced w (tx_ID t)"
  using tables_sound_ID by (fastforce simp: unreferenced_def referenced_def)

lemma step_orphan:
  assumes step: "system_step E s s'" and sound: "system_sound E s" and E: "json_keeps_reference E"
    and orphan: "orphan s t"
  shows "orphan s' t"
proof -
  have t0: "tables_sound (sys_world s)" using sound by (simp add: system_sound_def)
  have u: "unreferenced (sys_world s) t" and free: "\<forall>p\<in>set (inflight s). tx_ID (fst p) \<noteq> tx_ID t"
    using orphan by (simp_all add: orphan_def)
  from step show ?thesis
  proof cases
    case (Quiet w')
    then show ?thesis using orphan by (simp add: orphan_def unreferenced_same_pay)
  next
    case (Assemble appID service key req hash tx att call sel w')
    then show ?thesis
      using orphan unreferenced_same_pay [OF movesD [OF same_pay_assemble Assemble(2)]] by (simp add: orphan_def)
  next
    case (Insert tx att tx1 att1 w')
    note i = insert_payment_InrD [OF Insert(3)]
    have new: "tx_ID t \<noteq> tx_ID tx" using i(1,5) u by (auto simp: unreferenced_def tx_clash_def)
    have "att_ProviderReference att = []" using sound Insert(2) by (auto simp: system_sound_def fresh_admission_def)
    then have "unreferenced w' t" using u i(2) by (auto simp: unreferenced_def i(3,4))
    then show ?thesis using Insert(1) free new i(1) by (auto simp: orphan_def)
  next
    case (Persist tx att code result r w')
    have "awaiting (sys_world s) (tx, att)" using sound Persist(2) by (auto simp: system_sound_def)
    then have "same_pay (sys_world s) w' \<or> touches (tx_ID tx) (sys_world s) w'"
      using persist_touches [OF Persist(3) t0] by blast
    moreover have "tx_ID t \<noteq> tx_ID tx" using free Persist(2) by force
    ultimately have "unreferenced w' t" using u unreferenced_same_pay touches_unreferenced by blast
    then show ?thesis using Persist(1) free by (auto simp: orphan_def dest: notin_set_remove1)
  next
    case Abandon
    then show ?thesis using u by (simp add: orphan_def)
  next
    case (Callback event stored i accountID r w')
    from Callback(4) have "unreferenced w' t"
    proof (cases rule: store_and_apply_cases)
      case (stored w0 w1 change)
      have "unreferenced w1 t"
      proof (rule apply_event_unreferenced [OF stored(7) _ Callback(3)])
        show "tables_sound w0" using t0 tables_sound_cong [OF stored(3,4)] by blast
        show "unreferenced w0 t" using u unreferenced_cong [OF stored(3,4)] by blast
      qed
      then show ?thesis using stored(9) unreferenced_same_pay by blast
    qed (use u unreferenced_same_pay in blast)+
    then show ?thesis using Callback(1) free by (simp add: orphan_def)
  next
    case (Fetch limit rows w')
    then show ?thesis using orphan pending_rows(3) [OF Fetch(2)] by (simp add: orphan_def unreferenced_same_pay)
  next
    case (Retry row event r w')
    have ref: "ev_ProviderReference (vw_Event event) \<noteq> []"
      using sound Retry(2,3) by (auto simp: system_sound_def payload_ok_def)
    from Retry(4) have "unreferenced w' t"
    proof (cases rule: retry_cases)
      case (retried w0 w1 change)
      have "unreferenced w1 t"
      proof (rule apply_event_unreferenced [OF retried(5) _ ref])
        show "tables_sound w0" using t0 tables_sound_cong [OF retried(1,2)] by blast
        show "unreferenced w0 t" using u unreferenced_cong [OF retried(1,2)] by blast
      qed
      then show ?thesis using retried(7) unreferenced_same_pay by blast
    qed (use u unreferenced_same_pay in blast)+
    then show ?thesis using Retry(1) free by (simp add: orphan_def)
  next
    case (Poll now limit rows w')
    then show ?thesis using orphan due_rows(4) [OF Poll(2)] by (simp add: orphan_def unreferenced_same_pay)
  next
    case (Settle row result r w')
    have "tx_ID t \<noteq> tx_ID row"
      using unreferenced_not_referenced [OF t0 u] sound Settle(2) by (auto simp: system_sound_def)
    then have "unreferenced w' t"
      using settle_touches [OF Settle(3) t0] u unreferenced_same_pay touches_unreferenced by metis
    then show ?thesis using Settle(1) free by (simp add: orphan_def)
  next
    case (Cleanup cutoff r w')
    then show ?thesis
      using orphan unreferenced_cong [OF cleanup_rows(2,3) [OF Cleanup(2)]] by (simp add: orphan_def)
  qed
qed

lemma steps_orphan:
  assumes "system_steps E s s'" and "system_sound E s" and "json_keeps_reference E" and "orphan s t"
  shows "orphan s' t"
  using assms(1)
proof (induction rule: rtranclp_induct)
  case base
  show ?case by (rule assms(4))
next
  case (step s1 s2)
  have "system_sound E s1" using steps_sound [OF step(1) assms(3,2)] .
  then show ?case using step_orphan [OF step(2) _ assms(3) step(3)] by blast
qed

text \<open>C11: an unanswered payment is never settled. When a provider call of a reachable state ends in
  an error or without a response and this is recorded, the row of the payment is unknown
  and without a provider reference, and it is exactly so in every state the engine can
  reach afterwards, although it was scheduled for reconciliation.\<close>

lemma unanswered_payment_stays_unknown:
  assumes "initial s0" and "json_keeps_reference E" and "system_steps E s0 s"
    and "(tx, att) \<in> set (inflight s)" and "result = Inl cause \<or> result = Inr None"
    and "persist E tx att code result (sys_world s) = (Inr resp, w')"
    and "system_steps E (s\<lparr>sys_world := w', inflight := remove1 (tx, att) (inflight s)\<rparr>) s'"
  shows "\<exists>t\<in>set (sys_txs s'). tx_ID t = tx_ID tx \<and> tx_Status t = TxUnknown \<and> tx_ProviderReference t = [] \<and>
           tx_NextReconcileAt t = Some (now (sys_world s) + minute)"
proof -
  let ?w = "sys_world s" and ?s1 = "s\<lparr>sys_world := w', inflight := remove1 (tx, att) (inflight s)\<rparr>"
  have sound: "system_sound E s" using reachable_sound [OF assms(1-3)] .
  have aw: "awaiting ?w (tx, att)" and t0: "tables_sound ?w" and d: "distinct (map (\<lambda>p. tx_ID (fst p)) (inflight s))"
    using sound assms(4) by (auto simp: system_sound_def)
  have silent: "answered_status result = TxUnknown" "answered_reference result = []"
    using assms(5) by (auto simp: answered_status_def answered_reference_def)
  from assms(6) obtain tx' fa ft msg where p: "persist_plan E (now ?w) tx result = Inr (tx', fa, ft, msg)"
    and w': "txs w' = at_key tx_ID (tx_ID tx) (\<lambda>t. (ft t)\<lparr>tx_UpdatedAt := now ?w\<rparr>) (txs ?w)"
      "atts w' = at_key att_ID (att_ID att) fa (atts ?w)"
    by (cases rule: persist_cases) auto
  have ft: "tx_Status (ft tx) = TxUnknown" "tx_ProviderReference (ft tx) = []"
      "tx_NextReconcileAt (ft tx) = Some (now ?w + minute)"
    using persist_plan_awaitingD [OF p] aw silent by (simp_all add: awaiting_def)
  have fa: "att_ProviderReference (fa a) = att_ProviderReference a" for a
    using p assms(5) by (cases rule: persist_plan_InrE) (auto simp: Let_def)
  let ?t = "(ft tx)\<lparr>tx_UpdatedAt := now ?w\<rparr>"
  have i: "tx_ID ?t = tx_ID tx" using tx_frame_fields(1) [OF persist_plan_InrD(6) [OF p]] .
  have "?t \<in> set (txs w')" using aw w'(1) by (auto simp: set_at_key awaiting_def intro!: bexI [of _ tx])
  then have "unreferenced w' ?t"
    using aw ft i fa persist_plan_InrD(4) [OF p] by (auto simp: unreferenced_def w'(2) set_at_key awaiting_def split: if_splits)
  moreover have "tx_ID (fst q) \<noteq> tx_ID tx" if "q \<in> set (remove1 (tx, att) (inflight s))" for q
  proof -
    obtain xs ys where xs: "inflight s = xs @ (tx, att) # ys" "(tx, att) \<notin> set xs"
      using assms(4) by (metis split_list_first)
    then have "q \<in> set (xs @ ys)" using that by (simp add: remove1_append)
    then show ?thesis using d xs(1) by (auto simp: image_iff)
  qed
  ultimately have "orphan ?s1 ?t" using i by (simp add: orphan_def)
  moreover have "system_sound E ?s1" using persist_sound [OF sound assms(4,6)] .
  ultimately have "orphan s' ?t" using steps_orphan [OF assms(7) _ assms(2)] by blast
  then show ?thesis using ft i by (intro bexI [of _ ?t]) (simp_all add: orphan_def unreferenced_def)
qed

lemma unanswered_payment_stays_unknown_witness:
  "\<exists>w'. map tx_Status (txs w') = [TxUnknown] \<and>
     snd (persist sample_env sample_tx sample_att ''sample'' (Inr None) (sys_world sample_admitted)) = w' \<and>
     (\<exists>t\<in>set (txs w'). tx_ID t = tx_ID sample_tx \<and> tx_Status t = TxUnknown)"
proof -
  let ?run = "persist sample_env sample_tx sample_att ''sample'' (Inr None) (sys_world sample_admitted)"
  obtain resp where resp: "fst ?run = Inr resp" "map tx_Status (txs (snd ?run)) = [TxUnknown]"
  proof -
    have "(case fst ?run of Inl e \<Rightarrow> False | Inr r \<Rightarrow> True)" "map tx_Status (txs (snd ?run)) = [TxUnknown]"
      by code_simp+
    then show ?thesis using that by (auto split: sum.splits)
  qed
  have run: "?run = (Inr resp, snd ?run)" using resp(1) by (metis prod.collapse)
  have "(sample_tx, sample_att) \<in> set (inflight sample_admitted)" by (simp add: sample_admitted_tables)
  from unanswered_payment_stays_unknown [OF sample_initial sample_json sample_reached this _ run rtranclp.rtrancl_refl]
  show ?thesis using resp(2) by auto
qed

end
