(* ===== verification/Statements.thy ===== *)
theory Statements
  imports Executor
begin

text \<open>
  One statement of an administrative operation, run on the world: what it returned tells the
  state it left, up to the fault bits it consumed. The proofs of the administrative services
  execute their operations with these facts.
\<close>

abbreviation consumed :: "bool list \<Rightarrow> 'p world \<Rightarrow> 'p world" where
  "consumed bs w \<equiv> w\<lparr>db := (db w)\<lparr>faults := bs\<rparr>\<rparr>"

text \<open>A draw from the source of randomness: the number of the draw decides its outcome.\<close>

definition draw :: "(nat \<Rightarrow> err + 'a) \<Rightarrow> ('p, 'a) act" where
  "draw f w = (f (uuid_n w), w\<lparr>uuid_n := Suc (uuid_n w)\<rparr>)"

lemma ball_map: "(\<forall>y\<in>set (map f xs). P y) \<longleftrightarrow> (\<forall>x\<in>set xs. P (f x))"
  by simp

lemma on_db_statement:
  obtains (failed) bs where "on_db (bindE statement k) w = (Inl DriverErr, consumed bs w)"
  | (ran) bs where "on_db (bindE statement k) w = on_db (k ()) (consumed bs w)"
proof (cases rule: statement_cases [of "db w"])
  case (fail bs)
  then show ?thesis by (intro failed) (simp add: on_db_def)
next
  case (ok bs)
  then show ?thesis by (intro ran) (simp add: on_db_def)
qed

lemma on_db_bindE: "on_db (bindE m k) w = bindE (on_db m) (\<lambda>x. on_db (k x)) w"
  by (auto simp: on_db_def bindE_def split: prod.splits sum.splits)

lemma statement_step:
  assumes "on_db (bindE statement (\<lambda>_. k)) w = (Inr x, w')"
  obtains bs where "on_db k (consumed bs w) = (Inr x, w')"
proof (cases rule: on_db_statement [of "\<lambda>_. k" w])
  case (failed bs)
  with assms show ?thesis by simp
next
  case (ran bs)
  with assms show ?thesis by (intro that) simp
qed

lemma on_db_pair: "on_db (\<lambda>d. (r, f d)) w = (r, w\<lparr>db := f (db w)\<rparr>)"
  by (simp add: on_db_def)

context table
begin

lemma first_app:
  obtains (failed) bs where "on_db (base_first rows P) w = (Inl DriverErr, consumed bs w)"
  | (missing) bs where "on_db (base_first rows P) w = (Inl NotFound, consumed bs w)"
      and "List.find P (rows (db w)) = None"
  | (found) bs r where "on_db (base_first rows P) w = (Inr r, consumed bs w)"
      and "List.find P (rows (db w)) = Some r"
proof (cases rule: on_db_statement [of "\<lambda>_ d. case List.find P (rows d) of None \<Rightarrow> (Inl NotFound, d) | Some r \<Rightarrow> (Inr r, d)" w])
  case (failed bs)
  then show ?thesis by (intro that(1)) (simp add: base_first_def)
next
  case (ran bs)
  then show ?thesis
    by (cases "List.find P (rows (db w))") (auto simp: base_first_def on_db_def intro: that(2,3))
qed

lemma first_step:
  assumes "on_db (base_first rows P) w = (Inr r, w')"
  obtains bs where "w' = consumed bs w" and "List.find P (rows (db w)) = Some r"
proof (cases rule: first_app [of P w])
  case (found bs x)
  with assms have "w' = consumed bs w" "List.find P (rows (db w)) = Some r" by simp_all
  then show ?thesis by (rule that)
qed (use assms in simp_all)

lemma count_step:
  assumes "on_db (base_count rows P) w = (Inr n, w')"
  obtains bs where "w' = consumed bs w" and "n = int (length (filter P (rows (db w))))"
proof -
  obtain bs where "on_db (\<lambda>d. (Inr (int (length (filter P (rows d)))), d)) (consumed bs w) = (Inr n, w')"
    using assms unfolding base_count_def by (rule statement_step)
  then show ?thesis by (intro that [of bs]) (simp_all add: on_db_def)
qed

lemma find_step:
  assumes "on_db (base_find rows ord P) w = (Inr rs, w')"
  obtains bs where "w' = consumed bs w" and "rs = ord (filter P (rows (db w)))"
proof -
  obtain bs where "on_db (\<lambda>d. (Inr (ord (filter P (rows d))), d)) (consumed bs w) = (Inr rs, w')"
    using assms unfolding base_find_def by (rule statement_step)
  then show ?thesis by (intro that [of bs]) (simp_all add: on_db_def)
qed

lemma base_create_step:
  assumes "on_db (base_create rows upd clash x) w = (Inr u, w')"
  obtains bs where "w' = w\<lparr>db := upd (\<lambda>rs. rs @ [x]) ((db w)\<lparr>faults := bs\<rparr>)\<rparr>"
    and "\<forall>r\<in>set (rows (db w)). \<not> clash r x"
proof -
  obtain bs where "on_db (\<lambda>d. if list_ex (\<lambda>r. clash r x) (rows d) then (Inl DriverErr, d)
      else (Inr (), upd (\<lambda>rs. rs @ [x]) d)) (consumed bs w) = (Inr u, w')"
    using assms unfolding base_create_def by (rule statement_step)
  then show ?thesis by (intro that [of bs]) (auto simp: on_db_def list_ex_iff split: if_splits)
qed

lemma create_step:
  assumes "on_db_now (\<lambda>t. create_row rows upd clash defaults (row t)) w = (Inr x, w')"
  obtains bs where "w' = w\<lparr>db := upd (\<lambda>rs. rs @ [x]) ((db w)\<lparr>faults := bs\<rparr>)\<rparr>"
    and "x = (if zero_defaults (db w) then defaults (row (now w)) else row (now w))"
    and "\<forall>r\<in>set (rows (db w)). \<not> clash r x"
proof -
  let ?x = "if zero_defaults (db w) then defaults (row (now w)) else row (now w)"
  have "bindE (on_db (base_create rows upd clash ?x)) (\<lambda>_. on_db (returnE ?x)) w = (Inr x, w')"
    using assms by (simp add: on_db_now_def create_row_def Let_def on_db_bindE [symmetric] on_db_def)
  then obtain u w1 where c: "on_db (base_create rows upd clash ?x) w = (Inr u, w1)"
    and r: "on_db (returnE ?x) w1 = (Inr x, w')" by (rule bindE_InrE)
  have "x = ?x" "w' = w1" using r by (simp_all add: on_db_def)
  from c obtain bs where "w1 = w\<lparr>db := upd (\<lambda>rs. rs @ [?x]) ((db w)\<lparr>faults := bs\<rparr>)\<rparr>"
    "\<forall>r\<in>set (rows (db w)). \<not> clash r ?x" by (rule base_create_step)
  then have "\<exists>bs. w' = w\<lparr>db := upd (\<lambda>rs. rs @ [x]) ((db w)\<lparr>faults := bs\<rparr>)\<rparr> \<and> x = ?x \<and>
      (\<forall>r\<in>set (rows (db w)). \<not> clash r x)"
    unfolding \<open>x = ?x\<close> \<open>w' = w1\<close> by blast
  then show ?thesis using that by blast
qed

lemma updates_step:
  assumes "on_db (base_updates rows upd P f) w = (Inr n, w')"
  obtains bs where "w' = w\<lparr>db := upd (map (\<lambda>r. if P r then f r else r)) ((db w)\<lparr>faults := bs\<rparr>)\<rparr>"
    and "n = length (filter P (rows (db w)))"
proof -
  obtain bs where "on_db (\<lambda>d. (Inr (length (filter P (rows d))),
      upd (map (\<lambda>r. if P r then f r else r)) d)) (consumed bs w) = (Inr n, w')"
    using assms unfolding base_updates_def by (rule statement_step)
  then show ?thesis by (intro that [of bs]) (simp_all add: on_db_def)
qed

lemma update_step:
  assumes "on_db (base_update rows upd P f) w = (Inr u, w')"
  obtains bs where "w' = w\<lparr>db := upd (map (\<lambda>r. if P r then f r else r)) ((db w)\<lparr>faults := bs\<rparr>)\<rparr>"
    and "\<exists>r\<in>set (rows (db w)). P r"
proof -
  from assms obtain n w1 where u: "on_db (base_updates rows upd P f) w = (Inr n, w1)"
    and "on_db (failIf (n = 0) NotFound) w1 = (Inr u, w')"
    unfolding base_update_def affected_def on_db_bindE by (rule bindE_InrE)
  then have "n \<noteq> 0" "w' = w1" by (auto simp: on_db_def failIf_def split: if_splits)
  from u obtain bs where s: "w1 = w\<lparr>db := upd (map (\<lambda>r. if P r then f r else r)) ((db w)\<lparr>faults := bs\<rparr>)\<rparr>"
    "n = length (filter P (rows (db w)))" by (rule updates_step)
  have found: "\<exists>r\<in>set (rows (db w)). P r" using s(2) \<open>n \<noteq> 0\<close> by (auto simp: filter_empty_conv)
  have "w' = w\<lparr>db := upd (map (\<lambda>r. if P r then f r else r)) ((db w)\<lparr>faults := bs\<rparr>)\<rparr>"
    using s(1) \<open>w' = w1\<close> by (rule trans [rotated])
  then show ?thesis using found by (rule that)
qed

lemma touch_step:
  assumes "on_db (base_touch rows upd P f) w = (Inr u, w')"
  obtains bs where "w' = w\<lparr>db := upd (map (\<lambda>r. if P r then f r else r)) ((db w)\<lparr>faults := bs\<rparr>)\<rparr>"
proof -
  from assms obtain n w1 where u: "on_db (base_updates rows upd P f) w = (Inr n, w1)"
    and "on_db (returnE ()) w1 = (Inr u, w')"
    unfolding base_touch_def on_db_bindE by (rule bindE_InrE)
  then have "w' = w1" by (auto simp: on_db_def)
  from u obtain bs where s: "w1 = w\<lparr>db := upd (map (\<lambda>r. if P r then f r else r)) ((db w)\<lparr>faults := bs\<rparr>)\<rparr>"
    by (rule updates_step)
  have "w' = w\<lparr>db := upd (map (\<lambda>r. if P r then f r else r)) ((db w)\<lparr>faults := bs\<rparr>)\<rparr>"
    using s \<open>w' = w1\<close> by (rule trans [rotated])
  then show ?thesis by (rule that)
qed

lemma upsert_step:
  assumes "on_db (upsert rows upd conflict f clash row) w = (Inr n, w')"
  obtains (updated) bs where "w' = w\<lparr>db := upd (map (\<lambda>r. if conflict r then f r else r)) ((db w)\<lparr>faults := bs\<rparr>)\<rparr>"
      and "\<exists>r\<in>set (rows (db w)). conflict r"
    | (inserted) bs where "w' = w\<lparr>db := upd (\<lambda>rs. rs @ [row]) ((db w)\<lparr>faults := bs\<rparr>)\<rparr>"
      and "\<forall>r\<in>set (rows (db w)). \<not> conflict r \<and> \<not> clash r row"
proof -
  obtain bs where b: "on_db (\<lambda>d. if list_ex conflict (rows d)
        then (Inr (length (filter conflict (rows d))), upd (map (\<lambda>r. if conflict r then f r else r)) d)
        else if list_ex (\<lambda>r. clash r row) (rows d) then (Inl DriverErr, d)
        else (Inr 1, upd (\<lambda>rs. rs @ [row]) d)) (consumed bs w) = (Inr n, w')"
    using assms unfolding upsert_def by (rule statement_step)
  show ?thesis
  proof (cases "list_ex conflict (rows (db w))")
    case True
    show ?thesis
      by (rule updated [of bs]) (use b True in \<open>auto simp: on_db_def list_ex_iff\<close>)
  next
    case False
    show ?thesis
      by (rule inserted [of bs]) (use b False in \<open>auto simp: on_db_def list_ex_iff split: if_splits\<close>)
  qed
qed

text \<open>The state a write leaves, whether or not it succeeded.\<close>

lemma upsert_state:
  obtains (nothing) bs where "snd (upsert rows upd conflict f clash row d) = d\<lparr>faults := bs\<rparr>"
    | (updated) bs where "snd (upsert rows upd conflict f clash row d) =
          upd (map (\<lambda>r. if conflict r then f r else r)) (d\<lparr>faults := bs\<rparr>)"
        and "\<exists>r\<in>set (rows d). conflict r"
    | (inserted) bs where "snd (upsert rows upd conflict f clash row d) = upd (\<lambda>rs. rs @ [row]) (d\<lparr>faults := bs\<rparr>)"
        and "\<forall>r\<in>set (rows d). \<not> conflict r \<and> \<not> clash r row"
proof (cases rule: statement_cases [of d])
  case (fail bs)
  show ?thesis by (rule nothing [of bs]) (use fail in \<open>simp add: upsert_def\<close>)
next
  case (ok bs)
  show ?thesis
  proof (cases "list_ex conflict (rows d)")
    case True
    show ?thesis by (rule updated [of bs]) (use ok True in \<open>auto simp: upsert_def list_ex_iff\<close>)
  next
    case c: False
    show ?thesis
    proof (cases "list_ex (\<lambda>r. clash r row) (rows d)")
      case True
      show ?thesis by (rule nothing [of bs]) (use ok c True in \<open>simp add: upsert_def\<close>)
    next
      case False
      show ?thesis by (rule inserted [of bs]) (use ok c False in \<open>auto simp: upsert_def list_ex_iff\<close>)
    qed
  qed
qed

lemma updates_state:
  obtains (nothing) bs where "snd (base_updates rows upd P f d) = d\<lparr>faults := bs\<rparr>"
    | (updated) bs where "snd (base_updates rows upd P f d) = upd (map (\<lambda>r. if P r then f r else r)) (d\<lparr>faults := bs\<rparr>)"
proof (cases rule: statement_cases [of d])
  case (fail bs)
  show ?thesis by (rule nothing [of bs]) (use fail in \<open>simp add: base_updates_def\<close>)
next
  case (ok bs)
  show ?thesis by (rule updated [of bs]) (use ok in \<open>simp add: base_updates_def\<close>)
qed

lemma snd_affected: "snd (affected m d) = snd (m d)"
  by (auto simp: affected_def bindE_def failIf_def split: prod.splits sum.splits)

lemma snd_update: "snd (base_update rows upd P f d) = snd (base_updates rows upd P f d)"
  by (simp add: base_update_def snd_affected)

lemma snd_touch: "snd (base_touch rows upd P f d) = snd (base_updates rows upd P f d)"
  by (auto simp: base_touch_def bindE_def split: prod.splits sum.splits)

lemma deletes_state:
  obtains (nothing) bs where "snd (base_deletes rows upd P d) = d\<lparr>faults := bs\<rparr>"
    | (deleted) bs where "snd (base_deletes rows upd P d) = upd (filter (\<lambda>r. \<not> P r)) (d\<lparr>faults := bs\<rparr>)"
proof (cases rule: statement_cases [of d])
  case (fail bs)
  show ?thesis by (rule nothing [of bs]) (use fail in \<open>simp add: base_deletes_def\<close>)
next
  case (ok bs)
  show ?thesis by (rule deleted [of bs]) (use ok in \<open>simp add: base_deletes_def\<close>)
qed

end

text \<open>Committed units of work, up to the consumed bits.\<close>

lemma Within_step:
  assumes "Within body w = (Inr x, w')"
  obtains b1 b2 w1 where "body (consumed b1 w) = (Inr x, w1)" and "w' = consumed b2 w1"
  using assms by (rule Within_InrE)

section \<open>Relations kept from one state\<close>

text \<open>The next stage is judged only where the one before it succeeded.\<close>

context effect_preorder
begin

lemma bindE_R:
  assumes "R w (snd (m w))" and "\<And>x w1. m w = (Inr x, w1) \<Longrightarrow> R w1 (snd (k x w1))"
  shows "R w (snd (bindE m k w))"
proof -
  obtain r w1 where m: "m w = (r, w1)" by (cases "m w")
  show ?thesis
  proof (cases r)
    case (Inl e)
    with m assms(1) show ?thesis by simp
  next
    case (Inr x)
    with m assms(1) assms(2) [of x w1] show ?thesis by (auto intro: trans_R)
  qed
qed

lemma moves_R: "moves R m \<Longrightarrow> R w (snd (m w))"
  by (simp add: moves_def)

lemma returnE_R: "R w (snd (returnE x w))"
  by (simp add: refl_R)

lemma failIf_R: "R w (snd (failIf b e w))"
  by (simp add: failIf_def refl_R)

lemma throwE_R: "R w (snd (throwE e w))"
  by (simp add: refl_R)

lemma liftE_R: "R w (snd (liftE r w))"
  by (simp add: refl_R)

lemmas R_intros = returnE_R failIf_R throwE_R liftE_R

end

context world_relation
begin

lemma Within_R:
  assumes "\<And>bs. R (consumed bs w) (snd (body (consumed bs w)))"
  shows "R w (snd (Within body w))"
proof -
  have body: "R w w1" if "body (consumed bs w) = (r, w1)" for bs r w1
    using assms [of bs] that R_faults_w trans_R by (metis snd_conv)
  obtain r w' where r: "Within body w = (r, w')" by (cases "Within body w")
  show ?thesis
  proof (cases r)
    case (Inl e)
    with r have "Within body w = (Inl e, w')" by simp
    then have "R w w'"
    proof (cases rule: Within_InlE)
      case (start bs)
      then show ?thesis by (simp add: R_faults_w)
    next
      case (rolled_back r bs w1 cs)
      then show ?thesis using body R_rollback by blast
    qed
    with r show ?thesis by simp
  next
    case (Inr x)
    with r have "Within body w = (Inr x, w')" by simp
    then obtain b1 b2 w1 where b: "body (consumed b1 w) = (Inr x, w1)" "w' = consumed b2 w1"
      by (rule Within_InrE)
    from body [OF b(1)] have "R w w'" unfolding b(2) using R_faults_w trans_R by blast
    with r show ?thesis by simp
  qed
qed

end

end
