(* ===== verification/AuditTrail.thy ===== *)
theory AuditTrail
  imports Statements
begin

text \<open>
  \<open>internal/service/audit/service.go\<close>: the audit trail every administrative operation writes,
  without ever failing it. The auditor is the JSON encoder of the metadata; \<open>None\<close> is a nil
  audit service, which records nothing. The log line of a failed write is not modelled.
\<close>

type_synonym auditor = "(gmap option \<Rightarrow> err + string) option"

definition RecordBestEffort ::
    "auditor \<Rightarrow> string \<Rightarrow> string \<Rightarrow> string \<Rightarrow> string \<Rightarrow> string \<Rightarrow> gmap option \<Rightarrow> string \<Rightarrow> string \<Rightarrow> ('p, unit) act" where
  "RecordBestEffort auditor actorID actorType action entityType entityID meta ip ua =
     (case auditor of
        None \<Rightarrow> returnE ()
      | Some marshal \<Rightarrow>
          let data = (case marshal meta of Inl _ \<Rightarrow> ''{\"marshal_error\":true}'' | Inr s \<Rightarrow> s)
          in bindE (NewID ''aud'') (\<lambda>i.
             handleE (on_db_now (\<lambda>t. AuditLogs_Create t
               \<lparr>al_ID = i, al_CreatedAt = 0, al_ActorID = actorID, al_ActorType = actorType,
                al_Action = action, al_EntityType = entityType, al_EntityID = entityID,
                al_MetadataJSON = data, al_IPAddress = ip, al_UserAgent = ua\<rparr>)) (\<lambda>_. returnE ())))"

text \<open>A charge schedule as the services write it into the metadata, and the empty one.\<close>

definition charges_value :: "ChargeSchedule \<Rightarrow> gval" where
  "charges_value c =
     (let rule = (\<lambda>r. GObj [(''type'', GStr (cr_Type r)), (''value'', GInt (sint (cr_Value r)))])
      in GObj [(''collection'', rule (cs_Collection c)), (''disbursement'', rule (cs_Disbursement c))])"

definition no_charges :: ChargeSchedule where
  "no_charges = \<lparr>cs_Collection = \<lparr>cr_Type = [], cr_Value = 0\<rparr>, cs_Disbursement = \<lparr>cr_Type = [], cr_Value = 0\<rparr>\<rparr>"

text \<open>The trail never changes the answer of the operation, and touches nothing but its own table:
  two states that agree apart from it, the fault bits and the consumed ids.\<close>

definition only_trail :: "'p world \<Rightarrow> 'p world \<Rightarrow> bool" where
  "only_trail w w' \<longleftrightarrow>
     w'\<lparr>db := (db w')\<lparr>t_auditLogs := [], faults := []\<rparr>, uuid_n := 0\<rparr> =
     w\<lparr>db := (db w)\<lparr>t_auditLogs := [], faults := []\<rparr>, uuid_n := 0\<rparr>"

definition db_only_trail :: "db \<Rightarrow> db \<Rightarrow> bool" where
  "db_only_trail d d' \<longleftrightarrow>
     d'\<lparr>t_auditLogs := [], faults := []\<rparr> = d\<lparr>t_auditLogs := [], faults := []\<rparr>"

interpretation db_only_trail: db_relation db_only_trail
  by unfold_locales (auto simp: db_only_trail_def)

interpretation only_trail: world_relation only_trail
proof
  show "only_trail w (w'\<lparr>db := (db w)\<lparr>faults := bs\<rparr>\<rparr>)" if "only_trail w w'" for w w' :: "'a world" and bs
    using that by (cases w; cases w') (simp add: only_trail_def)
qed (simp_all add: only_trail_def)

lemma only_trail_db:
  assumes "db_only_trail (db w) d"
  shows "only_trail w (w\<lparr>db := d\<rparr>)"
  using assms by (simp add: only_trail_def db_only_trail_def)

lemma db_only_trail_logs: "db_only_trail d (t_auditLogs_update f d)"
  by (simp add: db_only_trail_def)

lemma trail_RecordBestEffort: "moves only_trail (RecordBestEffort a actor ty action entity i meta ip ua)"
  unfolding RecordBestEffort_def Let_def AuditLogs_Create_def
  by (auto split: option.split intro!: only_trail.moves_intros only_trail.moves_NewID
      only_trail.moves_on_db_now [OF _ only_trail_db] db_only_trail.moves_create_row db_only_trail_logs)
     (simp add: only_trail_def)

lemma RecordBestEffort_succeeds:
  obtains w' where "RecordBestEffort a actor ty action entity i meta ip ua w = (Inr (), w')" and "only_trail w w'"
proof -
  obtain r w' where r: "RecordBestEffort a actor ty action entity i meta ip ua w = (r, w')"
    by (cases "RecordBestEffort a actor ty action entity i meta ip ua w")
  have "r = Inr ()"
    using r by (auto simp: RecordBestEffort_def NewID_def handleE_def bindE_def Let_def split: prod.splits option.splits)
  with r movesD [OF trail_RecordBestEffort r] show ?thesis using that by blast
qed

lemma bindE_audit:
  obtains w1 where "bindE (RecordBestEffort a actor ty action entity i meta ip ua) k w = k () w1" and "only_trail w w1"
proof -
  obtain w1 where "RecordBestEffort a actor ty action entity i meta ip ua w = (Inr (), w1)" "only_trail w w1"
    by (rule RecordBestEffort_succeeds)
  then show ?thesis using that by simp
qed

lemma audit_InrE:
  assumes "bindE (RecordBestEffort a actor ty action entity i meta ip ua) k w = (r, w')"
  obtains w1 where "k () w1 = (r, w')" and "only_trail w w1"
  using bindE_audit [of a actor ty action entity i meta ip ua k w] assms by metis

text \<open>What the trail leaves alone.\<close>

lemma only_trail_fields:
  assumes "only_trail w w'"
  shows "t_adminUsers (db w') = t_adminUsers (db w)" and "t_adminSessions (db w') = t_adminSessions (db w)"
    and "t_roles (db w') = t_roles (db w)" and "t_rolePermissions (db w') = t_rolePermissions (db w)"
    and "t_permissions (db w') = t_permissions (db w)" and "t_apps (db w') = t_apps (db w)"
    and "t_appCredentials (db w') = t_appCredentials (db w)" and "t_appSessions (db w') = t_appSessions (db w)"
    and "t_providerAccounts (db w') = t_providerAccounts (db w)" and "t_paymentRoutes (db w') = t_paymentRoutes (db w)"
    and "t_providerHealth (db w') = t_providerHealth (db w)"
    and "t_transactions (db w') = t_transactions (db w)" and "t_attempts (db w') = t_attempts (db w)"
    and "t_webhookEvents (db w') = t_webhookEvents (db w)" and "zero_defaults (db w') = zero_defaults (db w)"
    and "items w' = items w" and "outside w' = outside w" and "hooks w' = hooks w" and "uuid_at w' = uuid_at w"
  using assms by (cases w; cases w'; cases "db w"; cases "db w'"; simp add: only_trail_def)+

end
