(* ===== verification/ProviderAdmin.thy ===== *)
theory ProviderAdmin
  imports AuditTrail
begin

text \<open>
  \<open>internal/service/provider/admin.go\<close> and \<open>health.go\<close>: creating and changing provider
  accounts, with the loaded runtime following the row, and the periodic health check.
\<close>

section \<open>admin.go\<close>

record CreateAccountInput =
  ci_ProviderCode :: string
  ci_Name :: string
  ci_Environment :: string
  ci_Country :: string
  ci_Currency :: string
  ci_Charges :: "ChargeSchedule option"
  ci_Config :: gmap

record AccountSettings =
  set_Country :: string
  set_Currency :: string
  set_Charges :: ChargeSchedule

definition RegisteredProviders :: "'p env \<Rightarrow> string list" where
  "RegisteredProviders E = registry_List (env_registry E)"

definition cleanProviderConfig :: "gmap \<Rightarrow> gmap" where
  "cleanProviderConfig config = filter (\<lambda>(k, _). k \<noteq> ''country'' \<and> k \<noteq> ''supports_global'') config"

definition validateProviderConfig :: "gmap \<Rightarrow> err + unit" where
  "validateProviderConfig config =
     (if config = [] then Inl (Msg ''provider config is required'')
      else if StringAt config ''webhook_secret'' = [] then Inl (Msg ''webhook_secret is required'')
      else Inr ())"

definition encode :: "'p env \<Rightarrow> gmap \<Rightarrow> ('p, string \<times> string) act" where
  "encode E config =
     bindE (liftE (env_config_json E config)) (\<lambda>plain.
     bindE (draw (\<lambda>nonce. env_encrypt E nonce plain)) (\<lambda>cipher.
     returnE (cipher, SHA256Hex E plain)))"

definition CreateAccount ::
    "'p env \<Rightarrow> auditor \<Rightarrow> AdminUser option \<Rightarrow> CreateAccountInput \<Rightarrow> ('p, ProviderAccount) act" where
  "CreateAccount E auditor actor input =
     bindE (failIf (\<not> Has (env_registry E) (ci_ProviderCode input))
       (Msg (''provider factory not registered: '' @ ci_ProviderCode input))) (\<lambda>_.
     let input = input\<lparr>ci_Name := trim_space (ci_Name input)\<rparr> in
     bindE (failIf (ci_Name input = []) (Msg ''provider name is required'')) (\<lambda>_.
     bindE (failIf (ci_Environment input \<noteq> ''sandbox'' \<and> ci_Environment input \<noteq> ''production'')
       (Msg ''environment must be sandbox or production'')) (\<lambda>_.
     bindE (liftE (NormalizeTransactionCountry (env_region E) (ci_Country input))) (\<lambda>country.
     bindE (liftE (NormalizeCurrency (ci_Currency input))) (\<lambda>currency.
     let charges = (case ci_Charges input of
           None \<Rightarrow> ChargeSchedule_Normalize no_charges
         | Some c \<Rightarrow> c) in
     bindE (liftE (ChargeSchedule_Validate charges)) (\<lambda>_.
     let config = cleanProviderConfig (ci_Config input) in
     bindE (liftE (validateProviderConfig config)) (\<lambda>_.
     bindE (encode E config) (\<lambda>(cipher, hash).
     bindE (NewID ''pacc'') (\<lambda>i.
     bindE (on_db_now (\<lambda>t. ProviderAccounts_Create t
       \<lparr>pa_ID = i, pa_CreatedAt = 0, pa_ProviderCode = ci_ProviderCode input, pa_Name = ci_Name input,
        pa_Environment = ci_Environment input, pa_Country = country, pa_Currency = currency,
        pa_Charges = charges, pa_Active = False, pa_ConfigVersion = 1,
        pa_EncryptedConfigJSON = cipher, pa_ConfigHash = hash\<rparr>)) (\<lambda>account.
     bindE (RecordBestEffort auditor (ActorID actor) ''admin'' ''provider_account.created'' ''provider_account''
              (pa_ID account)
              (Some [(''provider_code'', GStr (ci_ProviderCode input)), (''country'', GStr country),
                     (''currency'', GStr currency), (''charges'', charges_value charges)]) [] []) (\<lambda>_.
     returnE account)))))))))))"

definition settingsUpdates :: "string \<Rightarrow> string \<Rightarrow> ChargeSchedule \<Rightarrow> ProviderAccount \<Rightarrow> ProviderAccount" where
  "settingsUpdates country currency charges a =
     a\<lparr>pa_Country := country, pa_Currency := currency, pa_Charges := charges\<rparr>"

text \<open>After the row changed, an active account is reloaded; when that fails the row is restored
  and the reload's error returned, with the restoration's own error joined to it.\<close>

definition reload_or_restore ::
    "'p env \<Rightarrow> bool \<Rightarrow> string \<Rightarrow> (ProviderAccount \<Rightarrow> ProviderAccount) \<Rightarrow> ('p, unit) act" where
  "reload_or_restore E act i restore =
     (if act then
        handleE (Reload E i) (\<lambda>r.
        case r of
          Inr _ \<Rightarrow> returnE ()
        | Inl e \<Rightarrow>
            handleE (on_db (ProviderAccounts_Restore i restore)) (\<lambda>back.
            case back of
              Inl undo \<Rightarrow> throwE (Joined [e, undo])
            | Inr _ \<Rightarrow> throwE e))
      else returnE ())"

definition UpdateSettings ::
    "'p env \<Rightarrow> auditor \<Rightarrow> AdminUser option \<Rightarrow> string \<Rightarrow> AccountSettings \<Rightarrow> ('p, unit) act" where
  "UpdateSettings E auditor actor i settings =
     bindE (liftE (NormalizeTransactionCountry (env_region E) (set_Country settings))) (\<lambda>country.
     bindE (liftE (NormalizeCurrency (set_Currency settings))) (\<lambda>currency.
     bindE (liftE (ChargeSchedule_Validate (set_Charges settings))) (\<lambda>_.
     bindE (on_db (ProviderAccounts_ByID i)) (\<lambda>account.
     bindE (liftE (plain_config E account)) (\<lambda>plain.
     bindE (liftE (validateProviderConfig plain)) (\<lambda>_.
     bindE (on_db (ProviderAccounts_Update i (settingsUpdates country currency (set_Charges settings)))) (\<lambda>_.
     bindE (reload_or_restore E (pa_Active account) i
              (settingsUpdates (pa_Country account) (pa_Currency account) (pa_Charges account))) (\<lambda>_.
     RecordBestEffort auditor (ActorID actor) ''admin'' ''provider_settings.updated'' ''provider_account'' i
       (Some [(''country'', GStr country), (''currency'', GStr currency),
              (''charges'', charges_value (set_Charges settings))]) [] []))))))))"

definition UpdateConfig ::
    "'p env \<Rightarrow> auditor \<Rightarrow> AdminUser option \<Rightarrow> string \<Rightarrow> gmap \<Rightarrow> ('p, unit) act" where
  "UpdateConfig E auditor actor i config =
     bindE (on_db (ProviderAccounts_ByID i)) (\<lambda>account.
     let config = cleanProviderConfig config in
     bindE (liftE (validateProviderConfig config)) (\<lambda>_.
     bindE (encode E config) (\<lambda>(cipher, hash).
     bindE (on_db (ProviderAccounts_SetConfig i cipher hash)) (\<lambda>_.
     bindE (reload_or_restore E (pa_Active account) i (\<lambda>a.
              a\<lparr>pa_EncryptedConfigJSON := pa_EncryptedConfigJSON account, pa_ConfigHash := pa_ConfigHash account,
                pa_ConfigVersion := pa_ConfigVersion account\<rparr>)) (\<lambda>_.
     RecordBestEffort auditor (ActorID actor) ''admin'' ''provider_config.updated'' ''provider_account'' i None [] [])))))"

definition Activate :: "'p env \<Rightarrow> auditor \<Rightarrow> AdminUser option \<Rightarrow> string \<Rightarrow> ('p, unit) act" where
  "Activate E auditor actor i =
     bindE (on_db (ProviderAccounts_ByID i)) (\<lambda>_.
     bindE (on_db (ProviderAccounts_SetActive i True)) (\<lambda>_.
     handleE (Reload E i) (\<lambda>r.
     case r of
       Inl e \<Rightarrow> handleE (on_db (ProviderAccounts_Restore i (pa_Active_update (\<lambda>_. False)))) (\<lambda>_. throwE e)
     | Inr _ \<Rightarrow>
         RecordBestEffort auditor (ActorID actor) ''admin'' ''provider.activated'' ''provider_account'' i None [] [])))"

definition Deactivate :: "auditor \<Rightarrow> AdminUser option \<Rightarrow> string \<Rightarrow> ('p, unit) act" where
  "Deactivate auditor actor i =
     bindE (on_db (ProviderAccounts_SetActive i False)) (\<lambda>_.
     bindE (Disable i) (\<lambda>_.
     RecordBestEffort auditor (ActorID actor) ''admin'' ''provider.deactivated'' ''provider_account'' i None [] []))"

section \<open>health.go\<close>

definition no_snapshot :: ProviderHealthSnapshot where
  "no_snapshot =
     \<lparr>ph_ProviderAccountID = [], ph_ProviderName = [], ph_Status = [], ph_CircuitState = [],
      ph_LastCheckedAt = None, ph_LastSuccessAt = None, ph_LastFailureAt = None, ph_ConsecutiveFailures = 0,
      ph_LatencyMs = 0, ph_CollectionsAvailable = False, ph_DisbursementsAvailable = False,
      ph_BalanceQueryAvailable = False, ph_LastErrorCode = [], ph_LastErrorMessage = [], ph_CreatedAt = 0,
      ph_UpdatedAt = 0\<rparr>"

text \<open>The new snapshot: the old one (or an empty one) with the outcome of this check.\<close>

definition checked_snapshot ::
    "string \<Rightarrow> time \<Rightarrow> int \<Rightarrow> string \<Rightarrow> err option \<Rightarrow> 'p runtime option \<Rightarrow> ProviderHealthSnapshot \<Rightarrow> ProviderHealthSnapshot" where
  "checked_snapshot i t latency state cause rp snap =
     (let snap = (if ph_ProviderAccountID snap = [] then snap\<lparr>ph_ProviderAccountID := i, ph_CreatedAt := t\<rparr> else snap);
          snap = snap\<lparr>ph_LastCheckedAt := Some t, ph_LatencyMs := latency, ph_UpdatedAt := t, ph_CircuitState := state\<rparr>;
          snap = (case cause of
             None \<Rightarrow> snap\<lparr>ph_Status := ProviderHealthy, ph_LastSuccessAt := Some t, ph_ConsecutiveFailures := 0,
                        ph_LastErrorCode := [], ph_LastErrorMessage := []\<rparr>
           | Some e \<Rightarrow>
               let snap = snap\<lparr>ph_LastFailureAt := Some t, ph_ConsecutiveFailures := ph_ConsecutiveFailures snap + 1,
                              ph_LastErrorCode := ''health_check_failed'', ph_LastErrorMessage := Redact (error_text e)\<rparr>
               in snap\<lparr>ph_Status := (if ph_ConsecutiveFailures snap \<ge> 3 \<or> ph_CircuitState snap = CircuitOpen
                                    then ProviderDown else ProviderDegraded)\<rparr>)
      in case rp of
           None \<Rightarrow> snap
         | Some p \<Rightarrow> snap\<lparr>ph_CollectionsAvailable := SupportsService (rt_Capabilities p) ServiceCollection,
                         ph_DisbursementsAvailable := SupportsService (rt_Capabilities p) ServiceDisbursement,
                         ph_BalanceQueryAvailable := (case rt_Adapter p of None \<Rightarrow> False | Some ad \<Rightarrow> ad_QueryBalance ad \<noteq> None)\<rparr>)"

definition health_save :: "string \<Rightarrow> duration \<Rightarrow> err option \<Rightarrow> ('p, unit) act" where
  "health_save i latency cause =
     bindE Now (\<lambda>t.
     handleE (on_db (ProviderHealth_ByAccount i)) (\<lambda>stored.
     case stored of
       Inl e \<Rightarrow>
         if \<not> IsNotFound e then throwE e
         else (\<lambda>w. on_db_now (\<lambda>s. ProviderHealth_Save s
                (checked_snapshot i t (latency div 1000000) (CircuitState w i) cause (Get w i) no_snapshot)) w)
     | Inr snap \<Rightarrow>
         (\<lambda>w. on_db_now (\<lambda>s. ProviderHealth_Save s
                (checked_snapshot i t (latency div 1000000) (CircuitState w i) cause (Get w i) snap)) w)))"

text \<open>The loop over the loaded runtimes; a caller that has gone away ends it.\<close>

fun check_each :: "'p runtime list \<Rightarrow> err list \<Rightarrow> ('p, unit) act" where
  "check_each [] errs w = (errors_join errs, w)"
| "check_each (p # ps) errs w =
     (case Health (rt_AccountID p) w of
        (r, w1) \<Rightarrow>
          if gone (outside w1) then (Inl CtxErr, w1)
          else
            (case health_save (rt_AccountID p) (now w1 - now w) (case r of Inl e \<Rightarrow> Some e | Inr _ \<Rightarrow> None) w1 of
               (saved, w2) \<Rightarrow>
                 let failures = (case r of Inl e \<Rightarrow> [e] | Inr _ \<Rightarrow> []) @ (case saved of Inl e \<Rightarrow> [e] | Inr _ \<Rightarrow> []) in
                 check_each ps
                   (case (r, saved) of
                      (Inr _, Inr _) \<Rightarrow> errs
                    | (Inl e, Inr _) \<Rightarrow> errs @ [e]
                    | _ \<Rightarrow> errs @ [Joined failures]) w2))"

definition CheckAll :: "('p, unit) act" where
  "CheckAll w = check_each (runtime_List w) [] w"

end
