(* ===== verification/ProviderAdminFacts.thy ===== *)
theory ProviderAdminFacts
  imports ProviderAdmin Effects
begin

text \<open>
  What administering a provider leaves behind: a refused change of settings or configuration
  is undone, a refused activation leaves the account inactive, and a recorded health check
  decides whether routing still considers the account.
\<close>

section \<open>Statements that leave the loaded runtimes alone\<close>

definition same_tables :: "'p world \<Rightarrow> 'p world \<Rightarrow> bool" where
  "same_tables w w' \<longleftrightarrow> db_reads (db w) (db w')"

interpretation same_tables: effect_preorder same_tables
proof
  show "same_tables w w" for w :: "'a world" by (simp add: same_tables_def db_reads.refl_R)
  show "same_tables w w''" if "same_tables w w'" "same_tables w' w''" for w w' w'' :: "'a world"
    using that db_reads.trans_R unfolding same_tables_def by blast
qed

lemma same_tables_db: "db w' = db w \<Longrightarrow> same_tables w w'"
  by (simp add: same_tables_def db_reads.refl_R)

lemma same_tables_ByID: "moves same_tables (on_db (ProviderAccounts_ByID i))"
  using db_reads_first [of t_providerAccounts "\<lambda>a. pa_ID a = i"]
  by (auto simp: ProviderAccounts_ByID_def moves_def on_db_def same_tables_def split: prod.splits) (metis snd_conv)

lemma same_tables_outside: "moves same_tables (on_outside m)"
  by (rule movesI) (auto simp: on_outside_def same_tables_db split: prod.splits)

lemma same_tables_modify: "(\<And>w. db (f w) = db w) \<Longrightarrow> moves same_tables (modify f)"
  by (rule movesI) (auto simp: modify_def same_tables_db)

lemma same_tables_check: "moves same_tables (\<lambda>w. liftE (f w) w)"
  by (rule movesI) (simp add: same_tables_db)

lemma same_tables_get: "moves same_tables (get_world f)"
  by (rule movesI) (simp add: get_world_def same_tables_db)

lemma same_tables_health: "moves same_tables (case check of None \<Rightarrow> returnE () | Some check \<Rightarrow> on_outside check)"
  by (cases check) (simp_all add: same_tables_outside same_tables.moves_returnE)

lemma same_tables_build: "moves same_tables (build E code environment plain)"
  unfolding build_def
  by (intro same_tables.moves_bindE same_tables.moves_returnE same_tables_outside same_tables_check same_tables_health)

lemma same_tables_Disable: "moves same_tables (Disable i)"
  unfolding Disable_def by (rule same_tables_modify) simp

lemma same_tables_put: "moves same_tables (put_runtime i p)"
  unfolding put_runtime_def by (rule same_tables_modify) simp

lemma same_tables_load:
  "moves same_tables (bindE (liftE (plain_config E x)) (\<lambda>plain.
     bindE (build E (pa_ProviderCode x) (pa_Environment x) plain) (\<lambda>ad.
     bindE (get_world (\<lambda>w. ad_Capabilities ad (outside w))) (\<lambda>caps.
     put_runtime i (fresh_runtime i x plain ad caps)))))"
  by (intro same_tables.moves_bindE same_tables.moves_liftE same_tables_build same_tables_get same_tables_put)

lemma same_tables_Reload: "moves same_tables (Reload E i)"
  unfolding Reload_def
proof (rule same_tables.moves_bindE [OF same_tables_ByID])
  fix x
  show "moves same_tables (if \<not> pa_Active x then Disable i
     else bindE (liftE (plain_config E x)) (\<lambda>plain.
       bindE (build E (pa_ProviderCode x) (pa_Environment x) plain) (\<lambda>ad.
       bindE (get_world (\<lambda>w. ad_Capabilities ad (outside w))) (\<lambda>caps.
       put_runtime i (fresh_runtime i x plain ad caps)))))"
    by (auto intro: same_tables_load same_tables_Disable)
qed

lemma Reload_Inl_items:
  assumes "Reload E i w = (Inl e, w')"
  shows "items w' = items w"
  using assms unfolding Reload_def
proof (cases rule: bindE_InlE)
  case first
  then show ?thesis by (rule items_on_db)
next
  case (later account d)
  then have "pa_Active account" by (auto simp: Disable_def modify_def split: if_splits)
  have d: "items d = items w" using later(1) by (rule items_on_db)
  from later(2) \<open>pa_Active account\<close> d show ?thesis
    by (auto elim!: bindE_InlE simp: put_runtime_def modify_def get_world_def liftE_def
        dest!: movesD [OF same_items_build] simp: same_items_def)
qed

section \<open>A refused change is undone\<close>

context table
begin

text \<open>Two rewrites of the same rows, the second back to the row that was read.\<close>

lemma rewrite_back:
  assumes "\<forall>x\<in>set (rows d). P x \<longrightarrow> x = r" and "P (f r)" and "g (f r) = r"
  shows "map (\<lambda>x. if P x then g x else x) (map (\<lambda>x. if P x then f x else x) (rows d)) = rows d"
  using assms by (auto intro!: map_idI)

lemma update_refused:
  assumes "on_db (base_update rows upd P f) w = (Inl e, w')"
  shows "rows (db w') = rows (db w)" and "items w' = items w"
proof -
  have i: "items w' = items w" using assms by (rule items_on_db)
  have "rows (db w') = rows (db w)"
  proof (cases rule: statement_cases [of "db w"])
    case (fail bs)
    with assms have "db w' = (db w)\<lparr>faults := bs\<rparr>"
      by (auto simp: on_db_def base_update_def affected_def base_updates_def)
    then show ?thesis by simp
  next
    case (ok bs)
    with assms have "db w' = upd (map (\<lambda>r. if P r then f r else r)) ((db w)\<lparr>faults := bs\<rparr>)"
      "length (filter P (rows (db w))) = 0"
      by (auto simp: on_db_def base_update_def affected_def base_updates_def failIf_def split: if_splits)
    then show ?thesis by (simp add: filter_empty_conv map_idI)
  qed
  with i show "rows (db w') = rows (db w)" "items w' = items w" by simp_all
qed

end

lemma only_account:
  assumes "distinct (map pa_ID xs)" and "List.find (\<lambda>a. pa_ID a = i) xs = Some account"
  shows "\<forall>x\<in>set xs. pa_ID x = i \<longrightarrow> x = account" and "pa_ID account = i"
  using find_Some_in_set [OF assms(2)] assms(1) by (auto simp: distinct_map dest: inj_onD)

lemma RecordBestEffort_not_Inl: "RecordBestEffort a actor ty action entity i meta ip ua w \<noteq> (Inl e, w')"
  by (rule RecordBestEffort_succeeds [of a actor ty action entity i meta ip ua w]) simp

lemma change_restored:
  assumes unique: "distinct (map pa_ID (t_providerAccounts (db w)))"
    and found: "List.find (\<lambda>a. pa_ID a = i) (t_providerAccounts (db w)) = Some account"
    and undoes: "pa_ID (f account) = i" "g (f account) = account"
    and run: "bindE (on_db (base_update t_providerAccounts t_providerAccounts_update (\<lambda>a. pa_ID a = i) f)) (\<lambda>_.
        bindE (reload_or_restore E act i g) (\<lambda>_.
        RecordBestEffort auditor actor ''admin'' action ''provider_account'' i meta [] [])) w = (Inl e, w')"
  shows "items w' = items w \<and>
    (t_providerAccounts (db w') = t_providerAccounts (db w) \<or> (\<exists>cause undone. e = Joined [cause, undone]))"
  using run
proof (cases rule: bindE_InlE)
  case first
  then show ?thesis using providerAccounts.update_refused by blast
next
  case (later u w1)
  obtain bs where w1: "w1 = w\<lparr>db := t_providerAccounts_update (map (\<lambda>r. if pa_ID r = i then f r else r)) ((db w)\<lparr>faults := bs\<rparr>)\<rparr>"
    using later(1) by (rule providerAccounts.update_step)
  obtain "reload_or_restore E act i g w1 = (Inl e, w')"
    using later(2)
  proof (cases rule: bindE_InlE)
    case (later u w2)
    then show ?thesis using RecordBestEffort_not_Inl by blast
  qed
  then obtain cause w2 where r: "Reload E i w1 = (Inl cause, w2)"
    and b: "handleE (on_db (ProviderAccounts_Restore i g)) (\<lambda>back. case back of
              Inl undo \<Rightarrow> throwE (Joined [cause, undo]) | Inr _ \<Rightarrow> throwE cause) w2 = (Inl e :: err + unit, w')"
    by (cases "Reload E i w1"; cases "fst (Reload E i w1)") (auto simp: reload_or_restore_def split: if_splits)
  have items: "items w2 = items w" using Reload_Inl_items [OF r] w1 by simp
  have rows: "t_providerAccounts (db w2) = map (\<lambda>r. if pa_ID r = i then f r else r) (t_providerAccounts (db w))"
    using movesD [OF same_tables_Reload r] w1 by (auto simp: same_tables_def db_reads_def)
  obtain q w3 where q: "on_db (ProviderAccounts_Restore i g) w2 = (q, w3)" by fastforce
  have w3: "w' = w3" and e: "e = (case q of Inl undo \<Rightarrow> Joined [cause, undo] | Inr _ \<Rightarrow> cause)"
    using b q by (cases q; simp)+
  have "items w' = items w" using items_on_db [OF q] w3 items by simp
  moreover have "t_providerAccounts (db w') = t_providerAccounts (db w)" if "q = Inr ()"
  proof -
    have t: "on_db (base_touch t_providerAccounts t_providerAccounts_update (\<lambda>a. pa_ID a = i) g) w2 = (Inr (), w3)"
      using q that by (simp add: ProviderAccounts_Restore_def)
    obtain cs where "w3 = w2\<lparr>db := t_providerAccounts_update (map (\<lambda>r. if pa_ID r = i then g r else r)) ((db w2)\<lparr>faults := cs\<rparr>)\<rparr>"
      by (rule providerAccounts.touch_step [OF t])
    then have "t_providerAccounts (db w') = map (\<lambda>r. if pa_ID r = i then g r else r)
        (map (\<lambda>r. if pa_ID r = i then f r else r) (t_providerAccounts (db w)))"
      using w3 rows by simp
    also have "\<dots> = t_providerAccounts (db w)"
      by (rule providerAccounts.rewrite_back) (use only_account [OF unique found] undoes in simp_all)
    finally show ?thesis .
  qed
  ultimately show ?thesis using e by (cases q) auto
qed

lemma account_read:
  assumes "on_db (ProviderAccounts_ByID i) w = (r, w')"
  obtains (none) e bs where "r = Inl e" and "w' = consumed bs w"
    | (read) account bs where "r = Inr account" and "w' = consumed bs w"
        and "List.find (\<lambda>a. pa_ID a = i) (t_providerAccounts (db w)) = Some account"
proof (cases rule: providerAccounts.first_app [of "\<lambda>a. pa_ID a = i" w])
  case (failed bs)
  show ?thesis by (rule none [of DriverErr bs]) (use assms failed in \<open>simp_all add: ProviderAccounts_ByID_def\<close>)
next
  case (missing bs)
  show ?thesis by (rule none [of NotFound bs]) (use assms missing in \<open>simp_all add: ProviderAccounts_ByID_def\<close>)
next
  case (found bs account)
  show ?thesis by (rule read [of account bs]) (use assms found in \<open>simp_all add: ProviderAccounts_ByID_def\<close>)
qed

lemma encode_step:
  assumes "encode E config w = (r, w')"
  shows "db w' = db w" and "items w' = items w"
  using assms by (auto simp: encode_def draw_def bindE_def liftE_def split: prod.splits sum.splits)

lemma own_columns:
  "settingsUpdates (pa_Country a) (pa_Currency a) (pa_Charges a) a = a"
  "a\<lparr>pa_EncryptedConfigJSON := pa_EncryptedConfigJSON a, pa_ConfigHash := pa_ConfigHash a,
     pa_ConfigVersion := pa_ConfigVersion a\<rparr> = a"
  by (rule ProviderAccount.equality; simp add: settingsUpdates_def)+

lemma settings_again: "settingsUpdates c u s (settingsUpdates c' u' s' a) = settingsUpdates c u s a"
  "pa_ID (settingsUpdates c u s a) = pa_ID a"
  by (simp_all add: settingsUpdates_def)

lemma UpdateSettings_refused:
  assumes unique: "distinct (map pa_ID (t_providerAccounts (db w)))"
    and run: "UpdateSettings E auditor actor i settings w = (Inl e, w')"
  shows "items w' = items w \<and>
    (t_providerAccounts (db w') = t_providerAccounts (db w) \<or> (\<exists>cause undone. e = Joined [cause, undone]))"
proof -
  obtain r w1 where read: "on_db (ProviderAccounts_ByID i) w = (r, w1)" by fastforce
  show ?thesis
  proof (cases "w' = w")
    case False
    from read show ?thesis
    proof (cases rule: account_read)
      case (none e bs)
      then show ?thesis using run False read
        by (auto simp: UpdateSettings_def bindE_liftE split: sum.splits)
    next
      case (read account bs)
      let ?country = "projr (NormalizeTransactionCountry (env_region E) (set_Country settings))"
      let ?currency = "projr (NormalizeCurrency (set_Currency settings))"
      let ?f = "settingsUpdates ?country ?currency (set_Charges settings)"
      let ?g = "settingsUpdates (pa_Country account) (pa_Currency account) (pa_Charges account)"
      let ?rest = "bindE (on_db (ProviderAccounts_Update i ?f)) (\<lambda>_.
        bindE (reload_or_restore E (pa_Active account) i ?g) (\<lambda>_.
        RecordBestEffort auditor (ActorID actor) ''admin'' ''provider_settings.updated'' ''provider_account'' i
          (Some [(''country'', GStr ?country), (''currency'', GStr ?currency),
              (''charges'', charges_value (set_Charges settings))]) [] []))"
      have "w' = w1 \<or> ?rest w1 = (Inl e, w')"
        using run False read(1) \<open>on_db (ProviderAccounts_ByID i) w = (r, w1)\<close>
        by (auto simp: UpdateSettings_def bindE_liftE split: sum.splits)
      moreover have ?thesis if "?rest w1 = (Inl e, w')"
      proof -
        have "items w' = items w1 \<and> (t_providerAccounts (db w') = t_providerAccounts (db w1) \<or>
            (\<exists>cause undone. e = Joined [cause, undone]))"
          by (rule change_restored [where account = account, OF _ _ _ _ that [unfolded ProviderAccounts_Update_def]])
             (use unique read only_account(2) [OF unique read(3)] in \<open>simp_all add: settings_again own_columns\<close>)
        then show ?thesis using read(2) by simp
      qed
      ultimately show ?thesis using read(2) by auto
    qed
  qed simp
qed

lemma UpdateConfig_refused:
  assumes unique: "distinct (map pa_ID (t_providerAccounts (db w)))"
    and run: "UpdateConfig E auditor actor i config w = (Inl e, w')"
  shows "items w' = items w \<and>
    (t_providerAccounts (db w') = t_providerAccounts (db w) \<or> (\<exists>cause undone. e = Joined [cause, undone]))"
proof -
  obtain r w1 where first: "on_db (ProviderAccounts_ByID i) w = (r, w1)" by fastforce
  from first show ?thesis
  proof (cases rule: account_read)
    case (none e bs)
    then show ?thesis using run first by (auto simp: UpdateConfig_def)
  next
    case (read account bs)
    obtain c w2 where enc: "encode E (cleanProviderConfig config) w1 = (c, w2)" by fastforce
    let ?f = "\<lambda>a. a\<lparr>pa_EncryptedConfigJSON := fst (projr c), pa_ConfigHash := snd (projr c),
                pa_ConfigVersion := pa_ConfigVersion a + 1\<rparr>"
    let ?g = "\<lambda>a. a\<lparr>pa_EncryptedConfigJSON := pa_EncryptedConfigJSON account, pa_ConfigHash := pa_ConfigHash account,
                pa_ConfigVersion := pa_ConfigVersion account\<rparr>"
    let ?rest = "bindE (on_db (ProviderAccounts_SetConfig i (fst (projr c)) (snd (projr c)))) (\<lambda>_.
        bindE (reload_or_restore E (pa_Active account) i ?g) (\<lambda>_.
        RecordBestEffort auditor (ActorID actor) ''admin'' ''provider_config.updated'' ''provider_account'' i None [] []))"
    have "w' = w1 \<or> w' = w2 \<or> ?rest w2 = (Inl e, w')"
      using run read(1) first enc
      by (cases c) (auto simp: UpdateConfig_def bindE_liftE Let_def split: sum.splits)
    moreover have same: "db w2 = db w1" "items w2 = items w1" using enc by (rule encode_step)+
    moreover have ?thesis if "?rest w2 = (Inl e, w')"
    proof -
      have "items w' = items w2 \<and> (t_providerAccounts (db w') = t_providerAccounts (db w2) \<or>
          (\<exists>cause undone. e = Joined [cause, undone]))"
        by (rule change_restored [where account = account, OF _ _ _ _ that [unfolded ProviderAccounts_SetConfig_def]])
           (use unique read only_account(2) [OF unique read(3)] same in \<open>simp_all add: own_columns\<close>)
      then show ?thesis using read(2) same by simp
    qed
    ultimately show ?thesis using read(2) by auto
  qed
qed

section \<open>Activation\<close>

context table
begin

lemma first_clean:
  "faults (db w) = [] \<Longrightarrow> on_db (base_first rows P) w = (row_result (List.find P (rows (db w))), w)"
  by (simp add: on_db_def base_first_def bindE_def statement_def row_result_def split: option.split)

lemma update_clean:
  "faults (db w) = [] \<Longrightarrow> on_db (base_update rows upd P f) w =
     (if \<exists>r\<in>set (rows (db w)). P r then Inr () else Inl NotFound,
      w\<lparr>db := upd (map (\<lambda>r. if P r then f r else r)) (db w)\<rparr>)"
  by (auto simp: on_db_def base_update_def affected_def base_updates_def bindE_def statement_def failIf_def
      filter_empty_conv)

lemma touch_clean:
  "faults (db w) = [] \<Longrightarrow> on_db (base_touch rows upd P f) w =
     (Inr (), w\<lparr>db := upd (map (\<lambda>r. if P r then f r else r)) (db w)\<rparr>)"
  by (simp add: on_db_def base_touch_def base_updates_def bindE_def statement_def)

end

lemma find_id_None: "List.find (\<lambda>a. pa_ID a = i) xs = None \<Longrightarrow> map (\<lambda>a. if pa_ID a = i then f a else a) xs = xs"
  by (auto simp: find_None_iff intro!: map_idI)

lemma active_twice:
  "map (\<lambda>a. if pa_ID a = i then pa_Active_update (\<lambda>_. b) a else a)
     (map (\<lambda>a. if pa_ID a = i then pa_Active_update (\<lambda>_. c) a else a) xs) =
   map (\<lambda>a. if pa_ID a = i then pa_Active_update (\<lambda>_. b) a else a) xs"
  by simp

text \<open>A refused activation. With no statement failing, the account is left inactive
  and the set of loaded runtimes as it was: an account that was active and loaded before is
  now inactive on record while its runtime is still loaded.\<close>

lemma refused_activation:
  assumes "faults (db w) = []" and "Activate E auditor actor i w = (Inl e, w')"
  shows "items w' = items w \<and>
         t_providerAccounts (db w') =
           map (\<lambda>a. if pa_ID a = i then a\<lparr>pa_Active := False\<rparr> else a) (t_providerAccounts (db w))"
proof (cases "List.find (\<lambda>a. pa_ID a = i) (t_providerAccounts (db w))")
  case None
  then have "w' = w"
    using assms by (simp add: Activate_def ProviderAccounts_ByID_def providerAccounts.first_clean row_result_def)
  with None show ?thesis by (simp add: find_id_None)
next
  case (Some account)
  let ?on = "\<lambda>b a. if pa_ID a = i then pa_Active_update (\<lambda>_. b) a else a"
  let ?w1 = "w\<lparr>db := t_providerAccounts_update (map (?on True)) (db w)\<rparr>"
  obtain r w2 where r: "Reload E i ?w1 = (r, w2)" by fastforce
  have "\<exists>a\<in>set (t_providerAccounts (db w)). pa_ID a = i" using find_Some_in_set [OF Some] by auto
  then have run: "handleE (Reload E i) (\<lambda>r. case r of
       Inl e \<Rightarrow> handleE (on_db (ProviderAccounts_Restore i (pa_Active_update (\<lambda>_. False)))) (\<lambda>_. throwE e)
     | Inr _ \<Rightarrow> RecordBestEffort auditor (ActorID actor) ''admin'' ''provider.activated'' ''provider_account'' i None [] [])
      ?w1 = (Inl e, w')"
    using assms Some
    by (simp add: Activate_def ProviderAccounts_ByID_def ProviderAccounts_SetActive_def
        providerAccounts.first_clean providerAccounts.update_clean row_result_def)
  show ?thesis
  proof (cases r)
    case (Inr u)
    with run r have "RecordBestEffort auditor (ActorID actor) ''admin'' ''provider.activated'' ''provider_account''
        i None [] [] w2 = (Inl e, w')" by (simp add: handleE_def)
    then show ?thesis using RecordBestEffort_not_Inl by blast
  next
    case (Inl cause)
    with r have reload: "Reload E i ?w1 = (Inl cause, w2)" by simp
    have w2: "db w2 = db ?w1" "items w2 = items w"
      using movesD [OF same_tables_Reload reload] Reload_Inl_items [OF reload] assms(1)
      by (simp_all add: same_tables_def db_reads_def)
    have "w' = w2\<lparr>db := t_providerAccounts_update (map (?on False)) (db w2)\<rparr>"
      using run reload w2(1) assms(1)
      by (simp add: ProviderAccounts_Restore_def providerAccounts.touch_clean handleE_def)
    with w2 active_twice [of i False True] show ?thesis by simp
  qed
qed

definition sample_broken_env :: "unit env" where
  "sample_broken_env = sample_env\<lparr>env_registry :=
     [(''sample'', Some (\<lambda>o_w. (Some (sample_adapter\<lparr>ad_Init := (\<lambda>_ o_w. (Inl (Msg ''bad credentials''), o_w))\<rparr>), o_w)))]\<rparr>"

definition sample_activation :: "(err + unit) \<times> unit world" where
  "sample_activation = Activate sample_broken_env None None ''pacc_1'' sample_world"

lemma refused_activation_witness:
  "fst sample_activation = Inl (Msg ''bad credentials'') \<and>
   Get (snd sample_activation) ''pacc_1'' = Some sample_runtime \<and>
   t_providerAccounts (db (snd sample_activation)) = [sample_account\<lparr>pa_Active := False\<rparr>]"
proof -
  have f: "fst sample_activation = Inl (Msg ''bad credentials'')" by code_simp
  then have "Activate sample_broken_env None None ''pacc_1'' sample_world =
      (Inl (Msg ''bad credentials''), snd sample_activation)"
    unfolding sample_activation_def by (metis prod.collapse)
  from refused_activation [OF sample_faults this] f show ?thesis
    by (simp add: Get_def sample_world_def sample_db_def sample_account_def)
qed

section \<open>Refused settings and configurations\<close>

text \<open>C20: a change of settings or of configuration that is refused is undone, provided restoring
  the row worked: the accounts on record and the loaded runtimes are what they were, whatever
  failed, the reload of the running adapter included.\<close>

lemma refused_change_is_undone:
  assumes "distinct (map pa_ID (t_providerAccounts (db w)))"
    and "UpdateSettings E auditor actor i settings w = (Inl e, w') \<or>
         UpdateConfig E auditor actor i config w = (Inl e, w')"
  shows "items w' = items w \<and>
         (t_providerAccounts (db w') = t_providerAccounts (db w) \<or> (\<exists>cause undone. e = Joined [cause, undone]))"
  using assms UpdateSettings_refused UpdateConfig_refused by blast

definition sample_new_config :: "(err + unit) \<times> unit world" where
  "sample_new_config = UpdateConfig sample_broken_env None None ''pacc_1''
     [(''webhook_secret'', GStr ''new'')] sample_world"

lemma refused_change_is_undone_witness:
  "fst sample_new_config = Inl (Msg ''bad credentials'') \<and>
   items (snd sample_new_config) = [(''pacc_1'', sample_runtime)] \<and>
   t_providerAccounts (db (snd sample_new_config)) = [sample_account]"
proof -
  have f: "fst sample_new_config = Inl (Msg ''bad credentials'')" by code_simp
  then have "UpdateConfig sample_broken_env None None ''pacc_1'' [(''webhook_secret'', GStr ''new'')] sample_world =
      (Inl (Msg ''bad credentials''), snd sample_new_config)"
    unfolding sample_new_config_def by (metis prod.collapse)
  from refused_change_is_undone [OF _ disjI2 [OF this]] f show ?thesis
    by (simp add: sample_world_def sample_db_def)
qed

section \<open>Health checks\<close>

definition failed_before :: "'p world \<Rightarrow> string \<Rightarrow> int" where
  "failed_before w i =
     (case List.find (\<lambda>h. ph_ProviderAccountID h = i) (t_providerHealth (db w)) of
        None \<Rightarrow> 0 | Some h \<Rightarrow> ph_ConsecutiveFailures h)"

definition status_of :: "'p world \<Rightarrow> string \<Rightarrow> err option \<Rightarrow> string" where
  "status_of w i cause =
     (if cause = None then ProviderHealthy
      else if failed_before w i + 1 \<ge> 3 \<or> CircuitState w i = CircuitOpen then ProviderDown
      else ProviderDegraded)"

text \<open>The snapshot a save writes and the table it leaves.\<close>

lemma Save_step:
  assumes "on_db_now (\<lambda>s. ProviderHealth_Save s snap) w = (Inr u, w')" and "ph_ProviderAccountID snap = i"
  obtains h where "List.find (\<lambda>h. ph_ProviderAccountID h = i) (t_providerHealth (db w')) = Some h"
    and "ph_Status h = ph_Status snap" and "ph_CircuitState h = ph_CircuitState snap"
    and "ph_ConsecutiveFailures h = ph_ConsecutiveFailures snap"
proof -
  let ?P = "\<lambda>h. ph_ProviderAccountID h = i"
  obtain n where u: "on_db (upsert t_providerHealth t_providerHealth_update ?P
      (\<lambda>_. snap\<lparr>ph_UpdatedAt := now w\<rparr>) (\<lambda>_ _. False) (snap\<lparr>ph_CreatedAt := now w, ph_UpdatedAt := now w\<rparr>)) w = (Inr n, w')"
    using assms unfolding on_db_now_def ProviderHealth_Save_def
    by (auto simp: on_db_bindE elim!: bindE_InrE) (auto simp: on_db_def)
  have f: "List.find ?P (map (\<lambda>r. if ?P r then snap\<lparr>ph_UpdatedAt := now w\<rparr> else r) xs) =
      Some (snap\<lparr>ph_UpdatedAt := now w\<rparr>)" if "\<exists>r\<in>set xs. ?P r" for xs
    using that assms(2) by (induction xs) auto
  have g: "List.find ?P (xs @ [snap\<lparr>ph_CreatedAt := now w, ph_UpdatedAt := now w\<rparr>]) =
      Some (snap\<lparr>ph_CreatedAt := now w, ph_UpdatedAt := now w\<rparr>)" if "\<forall>r\<in>set xs. \<not> ?P r" for xs
    using that assms(2) by (induction xs) auto
  from u show ?thesis
  proof (cases rule: providerHealth.upsert_step)
    case (updated bs)
    show ?thesis by (rule that [of "snap\<lparr>ph_UpdatedAt := now w\<rparr>"]) (use updated f in simp_all)
  next
    case (inserted bs)
    show ?thesis by (rule that [of "snap\<lparr>ph_CreatedAt := now w, ph_UpdatedAt := now w\<rparr>"]) (use inserted g in simp_all)
  qed
qed

lemma checked_fields:
  "ph_ProviderAccountID snap = i \<or> ph_ProviderAccountID snap = [] \<Longrightarrow>
     ph_ProviderAccountID (checked_snapshot i t latency state cause rp snap) = i"
  "ph_CircuitState (checked_snapshot i t latency state cause rp snap) = state"
  "ph_ConsecutiveFailures (checked_snapshot i t latency state cause rp snap) =
     (if cause = None then 0 else ph_ConsecutiveFailures snap + 1)"
  "ph_Status (checked_snapshot i t latency state cause rp snap) =
     (if cause = None then ProviderHealthy
      else if ph_ConsecutiveFailures snap + 1 \<ge> 3 \<or> state = CircuitOpen then ProviderDown else ProviderDegraded)"
  by (auto simp: checked_snapshot_def Let_def split: option.split)

lemma health_save_step:
  assumes "health_save i latency cause w = (Inr u, w')"
  obtains h where "List.find (\<lambda>h. ph_ProviderAccountID h = i) (t_providerHealth (db w')) = Some h"
    and "ph_CircuitState h = CircuitState w i" and "ph_Status h = status_of w i cause"
    and "ph_ConsecutiveFailures h = (if cause = None then 0 else failed_before w i + 1)"
proof -
  obtain r w1 where r: "on_db (ProviderHealth_ByAccount i) w = (r, w1)" by fastforce
  have w1: "reads w w1" if "r = Inl NotFound \<or> (\<exists>h. r = Inr h)"
    using r unfolding ProviderHealth_ByAccount_def by (cases rule: health_cases) auto
  have same: "CircuitState w1 i = CircuitState w i" if "reads w w1"
    by (rule reads_same [OF that])
  let ?P = "\<lambda>h. ph_ProviderAccountID h = i"
  obtain snap where run: "on_db_now (\<lambda>s. ProviderHealth_Save s
        (checked_snapshot i (now w) (latency div 1000000) (CircuitState w1 i) cause (Get w1 i) snap)) w1 = (Inr u, w')"
    and id: "ph_ProviderAccountID snap = i \<or> ph_ProviderAccountID snap = []"
    and n: "ph_ConsecutiveFailures snap = failed_before w i" and rd: "reads w w1"
  proof (cases r)
    case (Inl e)
    have "IsNotFound e" using assms r Inl by (auto simp: health_save_def bindE_Now split: if_splits)
    with r Inl have "e = NotFound \<and> List.find ?P (t_providerHealth (db w)) = None"
      unfolding ProviderHealth_ByAccount_def
      by (cases rule: providerHealth.first_app [of ?P w]) (auto simp: IsNotFound_def)
    then have e: "e = NotFound" and none: "List.find ?P (t_providerHealth (db w)) = None" by auto
    show ?thesis
      by (rule that [of no_snapshot])
         (use assms r Inl e none w1 in \<open>simp_all add: health_save_def bindE_Now no_snapshot_def failed_before_def\<close>)
  next
    case (Inr h)
    then have h: "List.find ?P (t_providerHealth (db w)) = Some h"
      using r unfolding ProviderHealth_ByAccount_def
      by (cases rule: providerHealth.first_app [of ?P w]) auto
    show ?thesis
      by (rule that [of h])
         (use assms r Inr h w1 find_Some_in_set [OF h] in \<open>simp_all add: health_save_def bindE_Now failed_before_def\<close>)
  qed
  show ?thesis
  proof (rule Save_step [OF run checked_fields(1) [OF id]])
    fix h
    assume "List.find ?P (t_providerHealth (db w')) = Some h"
      "ph_Status h = ph_Status (checked_snapshot i (now w) (latency div 1000000) (CircuitState w1 i) cause (Get w1 i) snap)"
      "ph_CircuitState h = ph_CircuitState (checked_snapshot i (now w) (latency div 1000000) (CircuitState w1 i) cause (Get w1 i) snap)"
      "ph_ConsecutiveFailures h = ph_ConsecutiveFailures (checked_snapshot i (now w) (latency div 1000000) (CircuitState w1 i) cause (Get w1 i) snap)"
    then show ?thesis
      using same [OF rd] n by (intro that [of h]) (simp_all add: checked_fields status_of_def)
  qed
qed

text \<open>A recorded health check. The snapshot of the account carries the breaker's state, counts
  the failures since the last success and grades the account healthy, degraded, or down
  from the third failure on or when the breaker is open; and routing selects no account
  graded down.\<close>

lemma health_check_grades:
  assumes "health_save i latency cause w = (Inr u, w')"
  shows "(\<exists>h. List.find (\<lambda>h. ph_ProviderAccountID h = i) (t_providerHealth (db w')) = Some h \<and>
            ph_CircuitState h = CircuitState w i \<and> ph_Status h = status_of w i cause \<and>
            ph_ConsecutiveFailures h = (if cause = None then 0 else failed_before w i + 1)) \<and>
         (status_of w i cause = ProviderDown \<longrightarrow>
            (\<forall>E service m country currency sel w''. 
               SelectProvider E service m country currency w' = (Inr sel, w'') \<longrightarrow> pa_ID (sel_Account sel) \<noteq> i))"
proof (rule health_save_step [OF assms])
  fix h
  assume h: "List.find (\<lambda>h. ph_ProviderAccountID h = i) (t_providerHealth (db w')) = Some h"
    "ph_CircuitState h = CircuitState w i" "ph_Status h = status_of w i cause"
    "ph_ConsecutiveFailures h = (if cause = None then 0 else failed_before w i + 1)"
  have "pa_ID (sel_Account sel) \<noteq> i"
    if "status_of w i cause = ProviderDown" and s: "SelectProvider E service m country currency w' = (Inr sel, w'')"
    for E :: "'a env" and service m country currency sel w''
  proof (rule SelectProvider_InrD [OF s])
    fix c cur
    assume "candidate_of w' service c cur (sel_Route sel) = Some sel"
    then have "health_ok (db w') (pa_ID (sel_Account sel))" by (rule candidate_of_SomeD)
    with h that(1) show ?thesis by (auto simp: health_ok_def unhealthy_def)
  qed
  with h show ?thesis by blast
qed

lemma health_check_grades_witness:
  "\<exists>w2 w3. health_save ''pacc_1'' 0 (Some (Msg ''down'')) w2 = (Inr (), w3) \<and>
     failed_before w2 ''pacc_1'' = 2 \<and> status_of w2 ''pacc_1'' (Some (Msg ''down'')) = ProviderDown \<and>
     (\<forall>E service m country currency sel w''.
        SelectProvider E service m country currency (w3 :: unit world) = (Inr sel, w'') \<longrightarrow>
        pa_ID (sel_Account sel) \<noteq> ''pacc_1'')"
proof -
  let ?check = "health_save ''pacc_1'' 0 (Some (Msg ''down''))"
  let ?w2 = "snd (bindE ?check (\<lambda>_. ?check) sample_world)"
  have f: "fst (?check ?w2) = Inr ()" and n: "failed_before ?w2 ''pacc_1'' = 2"
    and s: "status_of ?w2 ''pacc_1'' (Some (Msg ''down'')) = ProviderDown" by code_simp+
  from f have "?check ?w2 = (Inr (), snd (?check ?w2))" by (metis prod.collapse)
  from health_check_grades [OF this] this n s show ?thesis by blast
qed

end
