(* ===== verification/Authz.thy ===== *)
theory Authz
  imports AuditTrail Permissions Utils
begin

text \<open>
  \<open>internal/service/identity/authz.go\<close>: seeding the permission catalogue and the system roles,
  custom roles and what a role grants.
\<close>

definition normalizeRoleName :: "string \<Rightarrow> string" where
  "normalizeRoleName name = to_lower (trim_space name)"

text \<open>Permission codes to rows of the catalogue: the wildcard is a row of its own, and a set with
  an unknown code is refused as a whole.\<close>

definition resolve :: "string \<Rightarrow> string list \<Rightarrow> ('p, Permission list) act" where
  "resolve audience codes =
     (if PermissionWildcard \<in> set codes then
        bindE (NewID ''perm'') (\<lambda>i.
        bindE (on_db (Permissions_Upsert
          \<lparr>perm_ID = i, perm_Code = PermissionWildcard, perm_Audience = audience,
           perm_Description = ''Every permission, including ones added by later releases''\<rparr>)) (\<lambda>_.
        bindE (on_db (Permissions_ByCode audience PermissionWildcard)) (\<lambda>stored.
        returnE [stored])))
      else if codes = [] then returnE []
      else
        bindE (on_db (Permissions_ByCodes audience codes)) (\<lambda>ps.
        case (if length ps \<noteq> length codes
              then List.find (\<lambda>code. code \<notin> set (map perm_Code ps)) codes else None) of
          Some code \<Rightarrow> throwE (Msg (''unknown '' @ audience @ '' permission '' @ quoted code))
        | None \<Rightarrow> returnE ps))"

definition seedRole :: "string \<times> string \<times> string list \<Rightarrow> ('p, unit) act" where
  "seedRole definition =
     (case definition of (name, description, codes) \<Rightarrow>
        bindE (wrapE (''seed role '' @ name) (resolve AudienceAdmin codes)) (\<lambda>permissions.
        Within (
          bindE (NewID ''role'') (\<lambda>i.
          bindE (on_db (Roles_Upsert \<lparr>role_ID = i, role_Name = name, role_Description = description,
                                       role_System = True, role_Permissions = []\<rparr>)) (\<lambda>_.
          bindE (on_db (Roles_ByName name)) (\<lambda>stored.
          on_db (Roles_ReplacePermissions stored permissions)))))))"

fun seed_permissions :: "PermissionDefinition list \<Rightarrow> ('p, unit) act" where
  "seed_permissions [] = returnE ()"
| "seed_permissions (p # ps) =
     bindE (NewID ''perm'') (\<lambda>i.
     bindE (wrapE (''seed permission '' @ pd_Code p) (on_db (Permissions_Upsert
       \<lparr>perm_ID = i, perm_Code = pd_Code p, perm_Audience = pd_Audience p,
        perm_Description = pd_Description p\<rparr>))) (\<lambda>_.
     seed_permissions ps))"

fun seed_roles :: "(string \<times> string \<times> string list) list \<Rightarrow> ('p, unit) act" where
  "seed_roles [] = returnE ()"
| "seed_roles (r # rs) = bindE (seedRole r) (\<lambda>_. seed_roles rs)"

definition Seed :: "('p, unit) act" where
  "Seed = bindE (seed_permissions Permissions) (\<lambda>_. seed_roles SystemRoles)"

text \<open>An unknown role grants nothing.\<close>

definition EffectivePermissions :: "string \<Rightarrow> ('p, string list) act" where
  "EffectivePermissions roleName =
     handleE (on_db (Roles_WithPermissions roleName)) (\<lambda>r.
     case r of
       Inl e \<Rightarrow> if IsNotFound e then returnE [] else throwE e
     | Inr role \<Rightarrow> returnE (map perm_Code (role_Permissions role)))"

definition ListPermissions :: "string \<Rightarrow> ('p, Permission list) act" where
  "ListPermissions audience =
     (if audience \<noteq> [] \<and> audience \<noteq> AudienceAdmin \<and> audience \<noteq> AudienceApp
      then throwE (Msg ''audience must be admin or app'')
      else on_db (Permissions_List audience))"

definition ListRoles :: "('p, Role list) act" where
  "ListRoles = on_db Roles_List"

text \<open>The audited codes, as the list of strings is printed.\<close>

definition codes_meta :: "string list \<Rightarrow> gmap option" where
  "codes_meta codes = Some [(''permissions'', GOther (''['' @ join_with '' '' codes @ '']''))]"

definition CreateRole ::
    "auditor \<Rightarrow> AdminUser option \<Rightarrow> string \<Rightarrow> string \<Rightarrow> string list \<Rightarrow> ('p, Role) act" where
  "CreateRole auditor actor name description codes =
     (let name = normalizeRoleName name in
      bindE (failIf (name = [] \<or> \<not> ValidIdentifier name)
        (Msg (''role name is required and may contain only letters, digits, and _-. and must not exceed 64 characters''))) (\<lambda>_.
      bindE (failIf (\<exists>d\<in>set SystemRoles. fst d = name) SystemRoleErr) (\<lambda>_.
      bindE (resolve AudienceAdmin codes) (\<lambda>permissions.
      bindE (NewID ''role'') (\<lambda>i.
      bindE (on_db (Roles_Create \<lparr>role_ID = i, role_Name = name, role_Description = trim_space description,
                                   role_System = False, role_Permissions = permissions\<rparr>)) (\<lambda>role.
      bindE (RecordBestEffort auditor (ActorID actor) ''admin'' ''role.created'' ''role'' (role_ID role)
               (codes_meta codes) [] []) (\<lambda>_.
      returnE role)))))))"

definition customRole :: "string \<Rightarrow> ('p, Role) act" where
  "customRole name =
     bindE (on_db (Roles_ByName (normalizeRoleName name))) (\<lambda>role.
     if role_System role then throwE SystemRoleErr else returnE role)"

definition UpdateRole ::
    "auditor \<Rightarrow> AdminUser option \<Rightarrow> string \<Rightarrow> string \<Rightarrow> string list \<Rightarrow> ('p, unit) act" where
  "UpdateRole auditor actor name description codes =
     bindE (customRole name) (\<lambda>role.
     bindE (resolve AudienceAdmin codes) (\<lambda>permissions.
     bindE (Within (
       bindE (on_db (Roles_SetDescription (role_ID role) (trim_space description))) (\<lambda>_.
       on_db (Roles_ReplacePermissions role permissions)))) (\<lambda>_.
     RecordBestEffort auditor (ActorID actor) ''admin'' ''role.updated'' ''role'' (role_ID role)
       (codes_meta codes) [] [])))"

definition DeleteRole :: "auditor \<Rightarrow> AdminUser option \<Rightarrow> string \<Rightarrow> ('p, unit) act" where
  "DeleteRole auditor actor name =
     bindE (customRole name) (\<lambda>role.
     bindE (on_db (AdminUsers_CountWithRole (role_Name role))) (\<lambda>holders.
     bindE (failIf (holders > 0)
       (Msg (''role '' @ quoted (role_Name role) @ '' is still assigned to '' @ format_int holders @
             '' administrator(s)''))) (\<lambda>_.
     bindE (on_db (Roles_Delete role)) (\<lambda>_.
     RecordBestEffort auditor (ActorID actor) ''admin'' ''role.deleted'' ''role'' (role_ID role) None [] []))))"

definition RoleExists :: "string \<Rightarrow> ('p, bool) act" where
  "RoleExists name = on_db (Roles_Exists (normalizeRoleName name))"

text \<open>Scopes in order, without repetitions.\<close>

fun collect_scopes :: "string list \<Rightarrow> string list \<Rightarrow> err + string list" where
  "collect_scopes out [] = Inr out"
| "collect_scopes out (scope # rest) =
     (if scope \<noteq> PermissionWildcard \<and> scope \<notin> set AppPermissionCodes
      then Inl (Msg (''unknown scope '' @ quoted scope))
      else collect_scopes (if scope \<in> set out then out else out @ [scope]) rest)"

definition ValidateAppScopes :: "string \<Rightarrow> err + string" where
  "ValidateAppScopes scopes =
     (let fs = GoStrings.fields (to_lower scopes) in
      if fs = [] then Inl (Msg ''at least one scope is required'')
      else map_sum id (join_with '' '') (collect_scopes [] fs))"

end
