(* ===== verification/Tokens.thy ===== *)
theory Tokens
  imports AuditTrail
begin

text \<open>
  \<open>internal/platform/token.go\<close>: signed tokens, random secrets and passwords. The JSON Web Token
  library is outside: \<open>auth_sign\<close> signs the claims of a token with the manager's key, and
  \<open>auth_parse\<close> at a time verifies signature and lifetime and returns the claims.
  \<open>bcrypt\<close>, SHA-256 and the random source are parameters too; a salted hash and a random text
  take the number of the draw. The record also holds the settings the services are built
  with.
\<close>

text \<open>The registered claims, then the private ones by name.\<close>

record jwt =
  jwt_sub :: "string option"
  jwt_jti :: "string option"
  jwt_iat :: "int option"
  jwt_exp :: "int option"
  jwt_private :: gmap

record auth_env =
  auth_sign :: "jwt \<Rightarrow> err + string"
  auth_parse :: "time \<Rightarrow> string \<Rightarrow> err + jwt"
  auth_sha256 :: "string \<Rightarrow> string"
  auth_bcrypt :: "nat \<Rightarrow> string \<Rightarrow> err + string"
  auth_bcrypt_ok :: "string \<Rightarrow> string \<Rightarrow> bool"
  auth_random :: "nat \<Rightarrow> nat \<Rightarrow> err + string"
  auth_accessTTL :: duration
  auth_refreshTTL :: duration
  auth_clientPrefix :: string
  auth_secretPrefix :: string
  auth_audit :: auditor
  auth_authz :: bool

record TokenClaims =
  tc_SubjectType :: string
  tc_SubjectID :: string
  tc_CredentialID :: string
  tc_Email :: string
  tc_Role :: string
  tc_Scopes :: string
  tc_TokenType :: string
  tc_TokenID :: string
  tc_ExpiresAt :: int
  tc_IssuedAt :: int
  tc_Extra :: "(string \<times> string) list"

definition unix :: "time \<Rightarrow> int" where
  "unix t = t div second"

text \<open>The builder of \<open>Issue\<close>: the optional private claims are left out when they are empty.\<close>

definition claims_jwt :: "TokenClaims \<Rightarrow> jwt" where
  "claims_jwt c =
     \<lparr>jwt_sub = Some (tc_SubjectID c), jwt_jti = Some (tc_TokenID c), jwt_iat = Some (tc_IssuedAt c),
      jwt_exp = Some (tc_ExpiresAt c),
      jwt_private =
        [(''subject_type'', GStr (tc_SubjectType c)), (''token_type'', GStr (tc_TokenType c))] @
        map (\<lambda>(name, v). (name, GStr v)) (filter (\<lambda>(name, v). v \<noteq> [])
          [(''credential_id'', tc_CredentialID c), (''email'', tc_Email c), (''role'', tc_Role c),
           (''scope'', tc_Scopes c)]) @
        (if tc_Extra c \<noteq> [] then [(''extra'', GObj (map (\<lambda>(name, v). (name, GStr v)) (tc_Extra c)))] else [])\<rparr>"

definition Issue :: "auth_env \<Rightarrow> TokenClaims \<Rightarrow> duration \<Rightarrow> ('p, string \<times> TokenClaims) act" where
  "Issue A claims ttl =
     bindE Now (\<lambda>t.
     let claims = claims\<lparr>tc_IssuedAt := unix t, tc_ExpiresAt := unix (t + ttl)\<rparr> in
     bindE (if tc_TokenID claims = [] then NewID ''tok'' else returnE (tc_TokenID claims)) (\<lambda>i.
     let claims = claims\<lparr>tc_TokenID := i\<rparr> in
     bindE (liftE (auth_sign A (claims_jwt claims))) (\<lambda>signed.
     returnE (signed, claims))))"

text \<open>A claim that is missing or not a text is left empty.\<close>

definition claim_text :: "jwt \<Rightarrow> string \<Rightarrow> string" where
  "claim_text j name = (case map_of (jwt_private j) name of Some (GStr s) \<Rightarrow> s | _ \<Rightarrow> [])"

definition claimsFrom :: "jwt \<Rightarrow> TokenClaims" where
  "claimsFrom j =
     \<lparr>tc_SubjectType = claim_text j ''subject_type'',
      tc_SubjectID = (case jwt_sub j of None \<Rightarrow> [] | Some s \<Rightarrow> s),
      tc_CredentialID = claim_text j ''credential_id'', tc_Email = claim_text j ''email'',
      tc_Role = claim_text j ''role'', tc_Scopes = claim_text j ''scope'',
      tc_TokenType = claim_text j ''token_type'',
      tc_TokenID = (case jwt_jti j of None \<Rightarrow> [] | Some s \<Rightarrow> s),
      tc_ExpiresAt = (case jwt_exp j of None \<Rightarrow> 0 | Some t \<Rightarrow> t),
      tc_IssuedAt = (case jwt_iat j of None \<Rightarrow> 0 | Some t \<Rightarrow> t),
      tc_Extra = (case map_of (jwt_private j) ''extra'' of
         Some (GObj extra) \<Rightarrow> concat (map (\<lambda>(name, v). case v of GStr s \<Rightarrow> [(name, s)] | _ \<Rightarrow> []) extra)
       | _ \<Rightarrow> [])\<rparr>"

definition Verify :: "auth_env \<Rightarrow> string \<Rightarrow> ('p, TokenClaims) act" where
  "Verify A token = bindE Now (\<lambda>t. liftE (map_sum id claimsFrom (auth_parse A t token)))"

definition SecureRandomToken :: "auth_env \<Rightarrow> string \<Rightarrow> nat \<Rightarrow> ('p, string) act" where
  "SecureRandomToken A prefix bytes =
     (let bytes = (if bytes < 16 then 32 else bytes) in
      bindE (draw (auth_random A bytes)) (\<lambda>raw. returnE (withPrefix prefix raw)))"

definition HashPassword :: "auth_env \<Rightarrow> string \<Rightarrow> ('p, string) act" where
  "HashPassword A password = draw (\<lambda>salt. auth_bcrypt A salt password)"

definition VerifyPassword :: "auth_env \<Rightarrow> string \<Rightarrow> string \<Rightarrow> bool" where
  "VerifyPassword A hash password = auth_bcrypt_ok A hash password"

lemma optional_claims:
  "distinct (map fst xs) \<Longrightarrow>
   map_of (map (\<lambda>(name, v). (name, GStr v)) (filter (\<lambda>(name, v). v \<noteq> []) xs)) n =
   (case map_of xs n of None \<Rightarrow> None | Some v \<Rightarrow> if v = [] then None else Some (GStr v))"
  by (induction xs) (auto split: option.split simp: map_of_eq_None_iff image_iff)

lemma claim_text_of:
  "claim_text (claims_jwt c) n =
     (case map_of [(''subject_type'', tc_SubjectType c), (''token_type'', tc_TokenType c),
        (''credential_id'', tc_CredentialID c), (''email'', tc_Email c), (''role'', tc_Role c),
        (''scope'', tc_Scopes c)] n of None \<Rightarrow> [] | Some v \<Rightarrow> v)"
proof -
  let ?xs = "[(''credential_id'', tc_CredentialID c), (''email'', tc_Email c), (''role'', tc_Role c),
    (''scope'', tc_Scopes c)]"
  have "map_of (map (\<lambda>(name, v). (name, GStr v)) (filter (\<lambda>(name, v). v \<noteq> []) ?xs)) n =
     (case map_of ?xs n of None \<Rightarrow> None | Some v \<Rightarrow> if v = [] then None else Some (GStr v))"
    by (rule optional_claims) simp
  then show ?thesis
    unfolding claim_text_def claims_jwt_def jwt.select_convs map_of_append map_add_def
    by (simp del: filter.simps list.map split: option.split)
qed

lemma extra_text:
  "concat (map ((\<lambda>(name, v). case v of GStr s \<Rightarrow> [(name, s)] | _ \<Rightarrow> []) \<circ> (\<lambda>(name, v). (name, GStr v))) xs) = xs"
  by (induction xs) auto

lemma extra_of:
  "map_of (jwt_private (claims_jwt c)) ''extra'' =
     (if tc_Extra c = [] then None else Some (GObj (map (\<lambda>(name, v). (name, GStr v)) (tc_Extra c))))"
proof -
  let ?xs = "[(''credential_id'', tc_CredentialID c), (''email'', tc_Email c), (''role'', tc_Role c),
    (''scope'', tc_Scopes c)]"
  have "map_of (map (\<lambda>(name, v). (name, GStr v)) (filter (\<lambda>(name, v). v \<noteq> []) ?xs)) ''extra'' =
     (case map_of ?xs ''extra'' of None \<Rightarrow> None | Some v \<Rightarrow> if v = [] then None else Some (GStr v))"
    by (rule optional_claims) simp
  then show ?thesis
    unfolding claims_jwt_def jwt.select_convs map_of_append map_add_def
    by (simp del: filter.simps list.map)
qed

text \<open>The claims survive the token: reading back what \<open>Issue\<close> put into a token gives the same
  claims, whatever texts they hold.\<close>

lemma claims_round_trip: "claimsFrom (claims_jwt c) = c"
  unfolding claimsFrom_def claim_text_of extra_of
  by (cases c) (simp add: claims_jwt_def extra_text)

end
