(* ===== verification/Identity.thy ===== *)
theory Identity
  imports Authz Tokens
begin

text \<open>
  \<open>internal/service/identity\<close>: administrators and applications, their credentials, the token
  pairs they are issued and the sessions behind the tokens. Every authorization decision is
  read from the database: a token names a session row, and the row must be live.
\<close>

record TokenResponse =
  tr_AccessToken :: string
  tr_RefreshToken :: string
  tr_TokenType :: string
  tr_ExpiresIn :: int

definition issueTokenPair ::
    "auth_env \<Rightarrow> TokenClaims \<Rightarrow> ('p, TokenResponse \<times> TokenClaims \<times> TokenClaims) act" where
  "issueTokenPair A claims =
     bindE (Issue A (claims\<lparr>tc_TokenType := ''access''\<rparr>) (auth_accessTTL A)) (\<lambda>(access, ac).
     bindE (Issue A (claims\<lparr>tc_TokenType := ''refresh''\<rparr>) (auth_refreshTTL A)) (\<lambda>(refresh, rc).
     returnE (\<lparr>tr_AccessToken = access, tr_RefreshToken = refresh, tr_TokenType = ''Bearer'',
               tr_ExpiresIn = auth_accessTTL A div second\<rparr>, ac, rc)))"

definition no_claims :: TokenClaims where
  "no_claims = \<lparr>tc_SubjectType = [], tc_SubjectID = [], tc_CredentialID = [], tc_Email = [], tc_Role = [],
     tc_Scopes = [], tc_TokenType = [], tc_TokenID = [], tc_ExpiresAt = 0, tc_IssuedAt = 0, tc_Extra = []\<rparr>"

text \<open>An error of any kind is answered with one message.\<close>

definition orE :: "('p, 'a) act \<Rightarrow> err \<Rightarrow> ('p, 'a) act" where
  "orE m e = handleE m (\<lambda>r. case r of Inl _ \<Rightarrow> throwE e | Inr x \<Rightarrow> returnE x)"

section \<open>admin_auth.go\<close>

definition admin_issue ::
    "auth_env \<Rightarrow> AdminUser \<Rightarrow> AdminSession option \<Rightarrow> string \<Rightarrow> string \<Rightarrow> ('p, TokenResponse) act" where
  "admin_issue A user session ip ua =
     bindE (issueTokenPair A (no_claims\<lparr>tc_SubjectType := ''admin'', tc_SubjectID := au_ID user,
                                         tc_Email := au_Email user, tc_Role := au_Role user\<rparr>)) (\<lambda>(response, ac, rc).
     bindE Now (\<lambda>t.
     bindE (NewID ''sess'') (\<lambda>i.
     let values = \<lparr>as_ID = i, as_CreatedAt = 0, as_AdminUserID = au_ID user,
                   as_TokenHash = auth_sha256 A (tc_TokenID ac), as_RefreshTokenHash = auth_sha256 A (tc_TokenID rc),
                   as_IPAddress = ip, as_UserAgent = ua, as_ExpiresAt = t + auth_refreshTTL A, as_RevokedAt = None\<rparr>
     in bindE (case session of
          None \<Rightarrow> bindE (on_db_now (\<lambda>s. AdminSessions_Create s values)) (\<lambda>_. returnE ())
        | Some old \<Rightarrow> on_db (AdminSessions_Rotate (as_ID old) (as_RefreshTokenHash old) values)) (\<lambda>_.
        returnE response))))"

definition activeUser :: "auth_env \<Rightarrow> string \<Rightarrow> ('p, AdminUser) act" where
  "activeUser A i =
     bindE (orE (on_db (AdminUsers_ActiveByID i)) (Msg ''admin inactive'')) (\<lambda>user.
     if auth_authz A then
       bindE (EffectivePermissions (au_Role user)) (\<lambda>ps. returnE (user\<lparr>au_Permissions := ps\<rparr>))
     else returnE user)"

definition IssuePasswordToken ::
    "auth_env \<Rightarrow> string \<Rightarrow> string \<Rightarrow> string \<Rightarrow> string \<Rightarrow> ('p, TokenResponse) act" where
  "IssuePasswordToken A email password ip ua =
     bindE (orE (on_db (AdminUsers_ByEmail (to_lower (trim_space email)))) (Msg ''invalid credentials'')) (\<lambda>user.
     bindE (failIf (au_Status user \<noteq> active) (Msg ''invalid credentials'')) (\<lambda>_.
     bindE Now (\<lambda>t.
     bindE (failIf (case au_LockedUntil user of None \<Rightarrow> False | Some l \<Rightarrow> l > t) (Msg ''admin account is locked'')) (\<lambda>_.
     if \<not> VerifyPassword A (au_PasswordHash user) password then
       let lockUntil = (if au_FailedLoginAttempts user \<ge> 4 then Some (t + 15 * minute) else None)
       in handleE (on_db (AdminUsers_RecordFailedLogin (au_ID user) lockUntil)) (\<lambda>_.
          throwE (Msg ''invalid credentials''))
     else
       bindE (on_db (AdminUsers_RecordLogin (au_ID user) t)) (\<lambda>_.
       bindE (RecordBestEffort (auth_audit A) (au_ID user) ''admin'' ''admin.login'' ''admin_user'' (au_ID user) None ip ua) (\<lambda>_.
       admin_issue A user None ip ua))))))"

definition admin_RefreshToken :: "auth_env \<Rightarrow> string \<Rightarrow> string \<Rightarrow> string \<Rightarrow> ('p, TokenResponse) act" where
  "admin_RefreshToken A raw ip ua =
     bindE (orE (Verify A raw) (Msg ''invalid refresh token'')) (\<lambda>claims.
     bindE (failIf (tc_SubjectType claims \<noteq> ''admin'' \<or> tc_TokenType claims \<noteq> ''refresh'') (Msg ''invalid refresh token'')) (\<lambda>_.
     bindE Now (\<lambda>t.
     bindE (orE (on_db (AdminSessions_LiveByRefresh (tc_SubjectID claims) (auth_sha256 A (tc_TokenID claims)) t))
              (Msg ''invalid refresh session'')) (\<lambda>session.
     bindE (activeUser A (tc_SubjectID claims)) (\<lambda>user.
     admin_issue A user (Some session) ip ua)))))"

definition admin_AuthenticateClaims :: "auth_env \<Rightarrow> TokenClaims option \<Rightarrow> ('p, AdminUser) act" where
  "admin_AuthenticateClaims A claims =
     (case claims of
        None \<Rightarrow> throwE (Msg ''invalid admin token'')
      | Some claims \<Rightarrow>
          bindE (failIf (tc_SubjectType claims \<noteq> ''admin'' \<or> tc_TokenType claims \<noteq> ''access'') (Msg ''invalid admin token'')) (\<lambda>_.
          bindE Now (\<lambda>t.
          bindE (orE (on_db (AdminSessions_Live (tc_SubjectID claims) (auth_sha256 A (tc_TokenID claims)) t))
                   (Msg ''invalid admin session'')) (\<lambda>_.
          activeUser A (tc_SubjectID claims)))))"

definition admin_AuthenticateBearer :: "auth_env \<Rightarrow> string \<Rightarrow> ('p, AdminUser) act" where
  "admin_AuthenticateBearer A raw =
     bindE (orE (Verify A raw) (Msg ''invalid admin token'')) (\<lambda>claims. admin_AuthenticateClaims A (Some claims))"

definition LogoutBearer :: "auth_env \<Rightarrow> string \<Rightarrow> string \<Rightarrow> string \<Rightarrow> ('p, unit) act" where
  "LogoutBearer A raw ip ua =
     bindE (Verify A raw) (\<lambda>claims.
     bindE Now (\<lambda>t.
     bindE (on_db (AdminSessions_RevokeByToken (tc_SubjectID claims) (auth_sha256 A (tc_TokenID claims)) t)) (\<lambda>_.
     RecordBestEffort (auth_audit A) (tc_SubjectID claims) ''admin'' ''admin.logout'' ''admin_user''
       (tc_SubjectID claims) None ip ua)))"

section \<open>app_auth.go\<close>

definition defaultScopes :: string where
  "defaultScopes = ''collections:create disbursements:create transactions:read''"

record AppIdentity =
  id_App :: App
  id_Credential :: AppCredential

definition app_claims :: "AppIdentity \<Rightarrow> string \<Rightarrow> TokenClaims" where
  "app_claims i kind =
     no_claims\<lparr>tc_SubjectType := ''app'', tc_SubjectID := app_ID (id_App i), tc_CredentialID := ac_ID (id_Credential i),
       tc_Scopes := ac_Scopes (id_Credential i), tc_TokenType := kind,
       tc_Extra := [(''client_id'', ac_ClientID (id_Credential i))]\<rparr>"

definition app_issue :: "auth_env \<Rightarrow> AppIdentity \<Rightarrow> AppSession option \<Rightarrow> ('p, TokenResponse) act" where
  "app_issue A i session =
     bindE (issueTokenPair A (app_claims i ''access'')) (\<lambda>(response, ac, rc).
     bindE Now (\<lambda>t.
     bindE (NewID ''appsess'') (\<lambda>sid.
     let values = \<lparr>aps_ID = sid, aps_CreatedAt = 0, aps_AppID = app_ID (id_App i), aps_CredentialID = ac_ID (id_Credential i),
                   aps_AccessTokenHash = auth_sha256 A (tc_TokenID ac), aps_RefreshTokenHash = auth_sha256 A (tc_TokenID rc),
                   aps_ExpiresAt = t + auth_refreshTTL A, aps_RevokedAt = None\<rparr>
     in bindE (Within (
          bindE (case session of
             None \<Rightarrow> bindE (on_db_now (\<lambda>s. AppSessions_Create s values)) (\<lambda>_. returnE ())
           | Some old \<Rightarrow> on_db (AppSessions_Rotate (aps_ID old) (aps_RefreshTokenHash old) values)) (\<lambda>_.
          on_db (AppCredentials_RecordUse (ac_ID (id_Credential i)) t)))) (\<lambda>_.
        returnE response))))"

definition fromCredential :: "AppCredential \<Rightarrow> ('p, AppIdentity) act" where
  "fromCredential cred =
     bindE Now (\<lambda>t.
     bindE (failIf (ac_Status cred \<noteq> active \<or> (case ac_ExpiresAt cred of None \<Rightarrow> False | Some e \<Rightarrow> \<not> e > t))
              (Msg ''app credential inactive or expired'')) (\<lambda>_.
     bindE (orE (on_db (Apps_ActiveByID (ac_AppID cred))) (Msg ''app inactive'')) (\<lambda>app.
     returnE \<lparr>id_App = app, id_Credential = cred\<rparr>)))"

definition ValidateClientCredentials :: "auth_env \<Rightarrow> string \<Rightarrow> string \<Rightarrow> ('p, AppIdentity) act" where
  "ValidateClientCredentials A clientID secret =
     bindE (failIf (clientID = [] \<or> secret = []) (Msg ''missing client credentials'')) (\<lambda>_.
     bindE (orE (on_db (AppCredentials_ActiveByClientID clientID)) (Msg ''invalid client credentials'')) (\<lambda>cred.
     bindE (failIf (\<not> VerifyPassword A (ac_ClientSecretHash cred) secret) (Msg ''invalid client credentials'')) (\<lambda>_.
     fromCredential cred)))"

definition IssueClientToken :: "auth_env \<Rightarrow> string \<Rightarrow> string \<Rightarrow> ('p, TokenResponse) act" where
  "IssueClientToken A clientID secret =
     bindE (ValidateClientCredentials A clientID secret) (\<lambda>i. app_issue A i None)"

definition app_identity :: "string \<Rightarrow> string \<Rightarrow> ('p, AppIdentity) act" where
  "app_identity appID credentialID =
     bindE (failIf (appID = [] \<or> credentialID = []) (Msg ''app credential inactive'')) (\<lambda>_.
     bindE (orE (on_db (AppCredentials_ActiveInApp appID credentialID)) (Msg ''app credential inactive'')) fromCredential)"

definition app_RefreshToken :: "auth_env \<Rightarrow> string \<Rightarrow> ('p, TokenResponse) act" where
  "app_RefreshToken A raw =
     bindE (orE (Verify A raw) (Msg ''invalid app refresh token'')) (\<lambda>claims.
     bindE (failIf (tc_SubjectType claims \<noteq> ''app'' \<or> tc_TokenType claims \<noteq> ''refresh'') (Msg ''invalid app refresh token'')) (\<lambda>_.
     bindE Now (\<lambda>t.
     bindE (orE (on_db (AppSessions_LiveByRefresh (tc_SubjectID claims) (tc_CredentialID claims)
                          (auth_sha256 A (tc_TokenID claims)) t)) (Msg ''invalid app refresh session'')) (\<lambda>session.
     bindE (app_identity (tc_SubjectID claims) (tc_CredentialID claims)) (\<lambda>i.
     app_issue A i (Some session))))))"

definition app_AuthenticateClaims :: "auth_env \<Rightarrow> TokenClaims option \<Rightarrow> ('p, AppIdentity) act" where
  "app_AuthenticateClaims A claims =
     (case claims of
        None \<Rightarrow> throwE (Msg ''invalid app token'')
      | Some claims \<Rightarrow>
          bindE (failIf (tc_SubjectType claims \<noteq> ''app'' \<or> tc_TokenType claims \<noteq> ''access'') (Msg ''invalid app token'')) (\<lambda>_.
          bindE Now (\<lambda>t.
          bindE (orE (on_db (AppSessions_Live (tc_SubjectID claims) (tc_CredentialID claims)
                               (auth_sha256 A (tc_TokenID claims)) t)) (Msg ''invalid app session'')) (\<lambda>_.
          app_identity (tc_SubjectID claims) (tc_CredentialID claims)))))"

definition app_AuthenticateBearer :: "auth_env \<Rightarrow> string \<Rightarrow> ('p, AppIdentity) act" where
  "app_AuthenticateBearer A raw =
     bindE (orE (Verify A raw) (Msg ''invalid app token'')) (\<lambda>claims. app_AuthenticateClaims A (Some claims))"

section \<open>admin_user.go\<close>

definition known_role :: "auth_env \<Rightarrow> string \<Rightarrow> ('p, unit) act" where
  "known_role A role =
     (if auth_authz A then
        bindE (RoleExists role) (\<lambda>exists. failIf (\<not> exists) (Msg (''unknown role '' @ quoted role)))
      else returnE ())"

definition AdminUser_Create ::
    "auth_env \<Rightarrow> AdminUser option \<Rightarrow> string \<Rightarrow> string \<Rightarrow> string \<Rightarrow> string \<Rightarrow> ('p, AdminUser) act" where
  "AdminUser_Create A actor name email password role =
     (let role = (if role = [] then RoleOperations else role) in
      bindE (known_role A role) (\<lambda>_.
      bindE (HashPassword A password) (\<lambda>hash.
      bindE Now (\<lambda>t.
      bindE (NewID ''admusr'') (\<lambda>i.
      bindE (on_db_now (\<lambda>s. AdminUsers_Create s
        \<lparr>au_ID = i, au_CreatedAt = 0, au_Name = name, au_Email = email, au_PasswordHash = hash, au_Role = role,
         au_Status = active, au_PasswordChangedAt = Some t, au_LastLoginAt = None, au_FailedLoginAttempts = 0,
         au_LockedUntil = None, au_CreatedBy = (case actor of None \<Rightarrow> [] | Some a \<Rightarrow> au_ID a),
         au_Permissions = []\<rparr>)) (\<lambda>user.
      bindE (RecordBestEffort (auth_audit A) (ActorID actor) ''admin'' ''admin.created'' ''admin_user'' (au_ID user)
               (Some [(''email'', GStr (au_Email user)), (''role'', GStr role)]) [] []) (\<lambda>_.
      returnE user)))))))"

definition ChangePassword :: "auth_env \<Rightarrow> AdminUser option \<Rightarrow> string \<Rightarrow> string \<Rightarrow> ('p, unit) act" where
  "ChangePassword A actor i password =
     (case actor of
        None \<Rightarrow> throwE (Msg ''not allowed'')
      | Some a \<Rightarrow>
          bindE (HashPassword A password) (\<lambda>hash.
          bindE Now (\<lambda>t.
          bindE (Within (
            bindE (on_db (AdminUsers_SetPassword i hash t)) (\<lambda>_.
            on_db (AdminSessions_RevokeAllFor i t)))) (\<lambda>_.
          RecordBestEffort (auth_audit A) (au_ID a) ''admin'' ''admin.password_changed'' ''admin_user'' i None [] []))))"

definition ChangeRole :: "auth_env \<Rightarrow> AdminUser option \<Rightarrow> string \<Rightarrow> string \<Rightarrow> ('p, unit) act" where
  "ChangeRole A actor i role =
     (case actor of
        None \<Rightarrow> throwE (Msg ''not allowed'')
      | Some a \<Rightarrow>
          bindE (failIf (au_ID a = i)
            (Msg ''an administrator cannot change their own role; ask another administrator'')) (\<lambda>_.
          let role = to_lower (trim_space role) in
          bindE (known_role A role) (\<lambda>_.
          bindE (on_db (AdminUsers_SetRole i role)) (\<lambda>_.
          RecordBestEffort (auth_audit A) (au_ID a) ''admin'' ''admin.role_changed'' ''admin_user'' i
            (Some [(''role'', GStr role)]) [] []))))"

definition ChangeStatus :: "auth_env \<Rightarrow> AdminUser option \<Rightarrow> string \<Rightarrow> string \<Rightarrow> ('p, unit) act" where
  "ChangeStatus A actor i status =
     (case actor of
        None \<Rightarrow> throwE (Msg ''not allowed'')
      | Some a \<Rightarrow>
          bindE (Within (
            bindE (on_db (AdminUsers_SetStatus i status)) (\<lambda>_.
            if status = active then returnE ()
            else bindE Now (\<lambda>t. on_db (AdminSessions_RevokeAllFor i t))))) (\<lambda>_.
          RecordBestEffort (auth_audit A) (au_ID a) ''admin'' ''admin.status_changed'' ''admin_user'' i
            (Some [(''status'', GStr status)]) [] []))"

section \<open>app_app.go\<close>

record CreatedCredential =
  cc_Credential :: AppCredential
  cc_ClientSecret :: string

record AppInput =
  in_Name :: string
  in_Description :: string
  in_Environment :: string
  in_Currency :: string
  in_Charges :: "ChargeSchedule option"

definition auditChange ::
    "auth_env \<Rightarrow> AdminUser option \<Rightarrow> string \<Rightarrow> string \<Rightarrow> string \<Rightarrow> gmap option \<Rightarrow> ('p, unit) act" where
  "auditChange A actor action resource i meta =
     (case actor of
        None \<Rightarrow> returnE ()
      | Some a \<Rightarrow> RecordBestEffort (auth_audit A) (au_ID a) ''admin'' action resource i meta [] [])"

definition GetApp :: "string \<Rightarrow> ('p, App) act" where
  "GetApp i = on_db (Apps_ByID i)"

definition CreateApp :: "auth_env \<Rightarrow> AdminUser option \<Rightarrow> AppInput \<Rightarrow> ('p, App) act" where
  "CreateApp A actor input =
     (let input = (if in_Environment input = [] then input\<lparr>in_Environment := ''production''\<rparr> else input) in
      bindE (liftE (NormalizeCurrency (in_Currency input))) (\<lambda>currency.
      let charges = (case in_Charges input of None \<Rightarrow> ChargeSchedule_Normalize no_charges | Some c \<Rightarrow> c) in
      bindE (liftE (ChargeSchedule_Validate charges)) (\<lambda>_.
      bindE (NewID ''app'') (\<lambda>i.
      bindE (on_db_now (\<lambda>t. Apps_Create t
        \<lparr>app_ID = i, app_CreatedAt = 0, app_Name = in_Name input, app_Description = in_Description input,
         app_Status = active, app_Environment = in_Environment input, app_Currency = currency,
         app_Charges = charges, app_CreatedBy = (case actor of None \<Rightarrow> [] | Some a \<Rightarrow> au_ID a)\<rparr>)) (\<lambda>app.
      bindE (auditChange A actor ''app.created'' ''app'' (app_ID app)
               (Some [(''name'', GStr (in_Name input)), (''currency'', GStr currency), (''charges'', charges_value charges)])) (\<lambda>_.
      returnE app))))))"

text \<open>The columns an update changes; an empty field of the input leaves its column.\<close>

definition addChargeUpdates :: "ChargeSchedule \<Rightarrow> gmap" where
  "addChargeUpdates c =
     [(''collection_charge_type'', GStr (cr_Type (cs_Collection c))),
      (''collection_charge_value'', GInt (sint (cr_Value (cs_Collection c)))),
      (''disbursement_charge_type'', GStr (cr_Type (cs_Disbursement c))),
      (''disbursement_charge_value'', GInt (sint (cr_Value (cs_Disbursement c))))]"

definition UpdateApp :: "auth_env \<Rightarrow> AdminUser option \<Rightarrow> string \<Rightarrow> AppInput \<Rightarrow> ('p, App) act" where
  "UpdateApp A actor i input =
     bindE (if in_Currency input = [] then returnE [] else liftE (NormalizeCurrency (in_Currency input))) (\<lambda>currency.
     bindE (case in_Charges input of None \<Rightarrow> returnE () | Some c \<Rightarrow> liftE (ChargeSchedule_Validate c)) (\<lambda>_.
     bindE (on_db (Apps_Update i (\<lambda>a.
       a\<lparr>app_Description := in_Description input,
         app_Name := (if in_Name input = [] then app_Name a else in_Name input),
         app_Environment := (if in_Environment input = [] then app_Environment a else in_Environment input),
         app_Currency := (if in_Currency input = [] then app_Currency a else currency),
         app_Charges := (case in_Charges input of None \<Rightarrow> app_Charges a | Some c \<Rightarrow> c)\<rparr>))) (\<lambda>_.
     bindE (auditChange A actor ''app.updated'' ''app'' i (Some (
       [(''description'', GStr (in_Description input))] @
       (if in_Name input = [] then [] else [(''name'', GStr (in_Name input))]) @
       (if in_Environment input = [] then [] else [(''environment'', GStr (in_Environment input))]) @
       (if in_Currency input = [] then [] else [(''currency'', GStr currency)]) @
       (case in_Charges input of None \<Rightarrow> [] | Some c \<Rightarrow> addChargeUpdates c)))) (\<lambda>_.
     on_db (Apps_ByID i)))))"

definition ChangeAppStatus :: "auth_env \<Rightarrow> AdminUser option \<Rightarrow> string \<Rightarrow> string \<Rightarrow> ('p, unit) act" where
  "ChangeAppStatus A actor i status =
     bindE (Within (
       bindE (on_db (Apps_SetStatus i status)) (\<lambda>_.
       if status \<noteq> active then bindE Now (\<lambda>t. on_db (AppSessions_RevokeForApp i t)) else returnE ()))) (\<lambda>_.
     auditChange A actor ''app.status_changed'' ''app'' i (Some [(''status'', GStr status)]))"

definition newSecret :: "auth_env \<Rightarrow> ('p, string \<times> string) act" where
  "newSecret A =
     bindE (SecureRandomToken A (auth_secretPrefix A) 32) (\<lambda>secret.
     bindE (HashPassword A secret) (\<lambda>hash. returnE (secret, hash)))"

definition CreateCredential ::
    "auth_env \<Rightarrow> AdminUser option \<Rightarrow> string \<Rightarrow> string \<Rightarrow> string \<Rightarrow> time option \<Rightarrow> ('p, CreatedCredential) act" where
  "CreateCredential A actor appID name scopes expires =
     bindE (GetApp appID) (\<lambda>_.
     let name = (if name = [] then ''Default credential'' else name);
         scopes = (if scopes = [] then defaultScopes else scopes) in
     bindE (liftE (ValidateAppScopes scopes)) (\<lambda>scopes.
     bindE (failIf (length name > 255 \<or> length scopes > 1000) (Msg ''credential name or scopes too long'')) (\<lambda>_.
     bindE (newSecret A) (\<lambda>(secret, hash).
     bindE (NewID ''cred'') (\<lambda>i.
     bindE (NewID (auth_clientPrefix A)) (\<lambda>clientID.
     bindE (on_db_now (\<lambda>t. AppCredentials_Create t
       \<lparr>ac_ID = i, ac_CreatedAt = 0, ac_AppID = appID, ac_Name = name, ac_ClientID = clientID,
        ac_ClientSecretHash = hash, ac_Status = active, ac_Scopes = scopes, ac_LastUsedAt = None,
        ac_ExpiresAt = expires, ac_CreatedBy = (case actor of None \<Rightarrow> [] | Some a \<Rightarrow> au_ID a)\<rparr>)) (\<lambda>cred.
     bindE (auditChange A actor ''app_credential.created'' ''app_credential'' (ac_ID cred)
              (Some [(''app_id'', GStr appID)])) (\<lambda>_.
     returnE \<lparr>cc_Credential = cred, cc_ClientSecret = secret\<rparr>))))))))"

definition RevokeCredential :: "auth_env \<Rightarrow> AdminUser option \<Rightarrow> string \<Rightarrow> string \<Rightarrow> ('p, unit) act" where
  "RevokeCredential A actor appID i =
     bindE (Within (
       bindE (on_db (AppCredentials_Revoke appID i)) (\<lambda>_.
       bindE Now (\<lambda>t. on_db (AppSessions_RevokeForCredential i t))))) (\<lambda>_.
     auditChange A actor ''app_credential.revoked'' ''app_credential'' i (Some [(''app_id'', GStr appID)]))"

definition RotateCredential :: "auth_env \<Rightarrow> AdminUser option \<Rightarrow> string \<Rightarrow> string \<Rightarrow> ('p, CreatedCredential) act" where
  "RotateCredential A actor appID i =
     bindE (orE (on_db (AppCredentials_InApp appID i)) NotFound) (\<lambda>cred.
     bindE (newSecret A) (\<lambda>(secret, hash).
     bindE (Within (
       bindE (on_db (AppCredentials_Rotate i hash)) (\<lambda>_.
       bindE Now (\<lambda>t. on_db (AppSessions_RevokeForCredential i t))))) (\<lambda>_.
     let cred = cred\<lparr>ac_ClientSecretHash := [], ac_Status := active\<rparr> in
     bindE (auditChange A actor ''app_credential.rotated'' ''app_credential'' i (Some [(''app_id'', GStr appID)])) (\<lambda>_.
     returnE \<lparr>cc_Credential = cred, cc_ClientSecret = secret\<rparr>))))"

end
