(* ===== verification/Middleware.thy ===== *)
theory Middleware
  imports Identity
begin

text \<open>
  \<open>internal/http/middleware/auth.go\<close> and the guards of \<open>http.go\<close>. A request is reached
  through the values of its headers; a handler chain is the sequence of its checks, and a
  refusal carries the status and the message of the response.
\<close>

datatype refusal = Refusal (refusal_status: int) (refusal_code: string) (refusal_message: string)

type_synonym ('p, 'a) handler_result = "(refusal + 'a) \<times> 'p world"

definition BearerToken :: "string \<Rightarrow> string" where
  "BearerToken value =
     (if \<not> has_prefix ''Bearer '' value then [] else trim_space (drop (length ''Bearer '') value))"

text \<open>The signature is checked first, then the identity behind it.\<close>

definition authenticate ::
    "(string \<Rightarrow> ('p, TokenClaims) act) \<Rightarrow> (TokenClaims option \<Rightarrow> ('p, 'a) act) \<Rightarrow> string \<Rightarrow>
     'p world \<Rightarrow> ('p, 'a) handler_result" where
  "authenticate check who authorization w =
     (case check (BearerToken authorization) w of
        (Inl _, w1) \<Rightarrow> (Inl (Refusal 401 ''UNAUTHORIZED'' ''invalid or expired token''), w1)
      | (Inr claims, w1) \<Rightarrow>
          (case who (Some claims) w1 of
             (Inl e, w2) \<Rightarrow> (Inl (Refusal 401 ''UNAUTHORIZED'' (error_text e)), w2)
           | (Inr identity, w2) \<Rightarrow> (Inr identity, w2)))"

definition WithAdminBearer :: "auth_env \<Rightarrow> string \<Rightarrow> 'p world \<Rightarrow> ('p, AdminUser) handler_result" where
  "WithAdminBearer A = authenticate (Verify A) (admin_AuthenticateClaims A)"

definition WithAppBearer :: "auth_env \<Rightarrow> string \<Rightarrow> 'p world \<Rightarrow> ('p, AppIdentity) handler_result" where
  "WithAppBearer A = authenticate (Verify A) (app_AuthenticateClaims A)"

fun granted_to :: "string list \<Rightarrow> string \<Rightarrow> bool" where
  "granted_to [] needed = False"
| "granted_to (permission # rest) needed =
     (if permission = needed \<or> permission = PermissionWildcard then True else granted_to rest needed)"

definition RequirePermission :: "string \<Rightarrow> AdminUser option \<Rightarrow> refusal + unit" where
  "RequirePermission permission user =
     (case user of
        None \<Rightarrow> Inl (Refusal 403 ''FORBIDDEN'' (''permission denied: '' @ permission))
      | Some u \<Rightarrow>
          if granted_to (au_Permissions u) permission then Inr ()
          else Inl (Refusal 403 ''FORBIDDEN'' (''permission denied: '' @ permission)))"

definition RequireAppScope :: "string \<Rightarrow> AppIdentity option \<Rightarrow> refusal + unit" where
  "RequireAppScope scope identity =
     (case identity of
        None \<Rightarrow> Inl (Refusal 403 ''FORBIDDEN'' ''app credential is missing required scope'')
      | Some i \<Rightarrow>
          if granted_to (GoStrings.fields (ac_Scopes (id_Credential i))) scope then Inr ()
          else Inl (Refusal 403 ''FORBIDDEN'' ''app credential is missing required scope''))"

text \<open>The chain in front of a guarded route: authentication, then the permission or the scope.\<close>

definition admin_route :: "auth_env \<Rightarrow> string \<Rightarrow> string \<Rightarrow> 'p world \<Rightarrow> ('p, AdminUser) handler_result" where
  "admin_route A permission authorization w =
     (case WithAdminBearer A authorization w of
        (Inl r, w') \<Rightarrow> (Inl r, w')
      | (Inr user, w') \<Rightarrow> (map_sum id (\<lambda>_. user) (RequirePermission permission (Some user)), w'))"

definition app_route :: "auth_env \<Rightarrow> string \<Rightarrow> string \<Rightarrow> 'p world \<Rightarrow> ('p, AppIdentity) handler_result" where
  "app_route A scope authorization w =
     (case WithAppBearer A authorization w of
        (Inl r, w') \<Rightarrow> (Inl r, w')
      | (Inr i, w') \<Rightarrow> (map_sum id (\<lambda>_. i) (RequireAppScope scope (Some i)), w'))"

section \<open>http.go\<close>

definition maxInboundRequestID :: nat where "maxInboundRequestID = 64"

definition BoundRequestID :: "string \<Rightarrow> string" where
  "BoundRequestID request_id = (if length request_id > maxInboundRequestID then [] else request_id)"

definition JSONOnly :: "string \<Rightarrow> refusal + unit" where
  "JSONOnly content_type =
     (if \<not> has_prefix ''application/json'' (to_lower content_type)
      then Inl (Refusal 415 ''UNSUPPORTED_MEDIA_TYPE'' ''Content-Type must be application/json'') else Inr ())"

lemma granted_to_iff: "granted_to held needed \<longleftrightarrow> needed \<in> set held \<or> PermissionWildcard \<in> set held"
  by (induction held) auto

end
