(* ===== verification/AuthzFacts.thy ===== *)
theory AuthzFacts
  imports Authz Samples
begin

text \<open>
  What the role operations promise: a role grants exactly what it was given, the next request
  already sees it, and the seeded roles cannot be touched through them.
\<close>

section \<open>The catalogue\<close>

definition catalogue_ok :: "db \<Rightarrow> bool" where
  "catalogue_ok d \<longleftrightarrow>
     distinct (map perm_ID (t_permissions d)) \<and>
     distinct (map (\<lambda>p. (perm_Code p, perm_Audience p)) (t_permissions d))"

definition roles_ok :: "db \<Rightarrow> bool" where
  "roles_ok d \<longleftrightarrow> distinct (map role_ID (t_roles d)) \<and> distinct (map role_Name (t_roles d))"

text \<open>Resolving codes may write the wildcard's row; nothing else changes.\<close>

definition only_catalogue :: "'p world \<Rightarrow> 'p world \<Rightarrow> bool" where
  "only_catalogue w w' \<longleftrightarrow>
     w'\<lparr>db := (db w')\<lparr>t_permissions := [], faults := []\<rparr>, uuid_n := 0\<rparr> =
     w\<lparr>db := (db w)\<lparr>t_permissions := [], faults := []\<rparr>, uuid_n := 0\<rparr>"

definition db_only_catalogue :: "db \<Rightarrow> db \<Rightarrow> bool" where
  "db_only_catalogue d d' \<longleftrightarrow>
     d'\<lparr>t_permissions := [], faults := []\<rparr> = d\<lparr>t_permissions := [], faults := []\<rparr>"

interpretation db_only_catalogue: db_relation db_only_catalogue
  by unfold_locales (auto simp: db_only_catalogue_def)

interpretation only_catalogue: world_relation only_catalogue
proof
  show "only_catalogue w (w'\<lparr>db := (db w)\<lparr>faults := bs\<rparr>\<rparr>)" if "only_catalogue w w'" for w w' :: "'a world" and bs
    using that by (cases w; cases w') (simp add: only_catalogue_def)
qed (simp_all add: only_catalogue_def)

lemma only_catalogue_db: "db_only_catalogue (db w) d \<Longrightarrow> only_catalogue w (w\<lparr>db := d\<rparr>)"
  by (simp add: only_catalogue_def db_only_catalogue_def)

lemma only_catalogue_fields:
  assumes "only_catalogue w w'"
  shows "t_roles (db w') = t_roles (db w)" and "t_rolePermissions (db w') = t_rolePermissions (db w)"
    and "t_adminUsers (db w') = t_adminUsers (db w)" and "items w' = items w"
  using assms by (cases w; cases w'; cases "db w"; cases "db w'"; simp add: only_catalogue_def)+

lemma catalogue_Upsert: "moves only_catalogue (on_db (Permissions_Upsert p))"
proof (rule only_catalogue.moves_on_db [OF _ only_catalogue_db])
  show "moves db_only_catalogue (Permissions_Upsert p)"
    unfolding Permissions_Upsert_def upsert_def
    by (intro db_only_catalogue.moves_intros db_only_catalogue.moves_statement)
       (simp add: moves_def db_only_catalogue_def)
qed

lemma catalogue_reads:
  "moves only_catalogue (on_db (base_first rows P))" "moves only_catalogue (on_db (base_find rows ord P))"
  by (auto intro!: only_catalogue.moves_on_db [OF _ only_catalogue_db] db_only_catalogue.moves_reads)

lemma catalogue_resolve: "moves only_catalogue (resolve audience codes)"
proof -
  have "moves only_catalogue (NewID prefix)" for prefix
    by (rule only_catalogue.moves_NewID) (simp add: only_catalogue_def)
  then show ?thesis
    unfolding resolve_def Permissions_ByCode_def Permissions_ByCodes_def
    by (auto intro!: only_catalogue.moves_intros catalogue_Upsert catalogue_reads split: option.split)
qed

lemma Permissions_Upsert_step:
  assumes "on_db (Permissions_Upsert p) w = (Inr u, w')" and ok: "catalogue_ok (db w)"
  shows "catalogue_ok (db w')"
proof -
  let ?c = "\<lambda>r. perm_Code r = perm_Code p \<and> perm_Audience r = perm_Audience p"
  let ?f = "perm_Description_update (\<lambda>_. perm_Description p)"
  from assms(1) obtain n w1 where u: "on_db (upsert t_permissions t_permissions_update ?c ?f
        (\<lambda>r s. perm_ID r = perm_ID s) p) w = (Inr n, w1)"
    and "on_db (returnE ()) w1 = (Inr u, w')"
    unfolding Permissions_Upsert_def on_db_bindE by (rule bindE_InrE)
  then have w': "w' = w1" by (simp add: on_db_def)
  from u show ?thesis
  proof (cases rule: permissions.upsert_step)
    case (updated bs)
    have a: "t_permissions (db w') = map (\<lambda>r. if ?c r then ?f r else r) (t_permissions (db w))"
      using updated(1) w' by simp
    have b: "perm_ID \<circ> (\<lambda>r. if ?c r then ?f r else r) = perm_ID"
      "(\<lambda>p. (perm_Code p, perm_Audience p)) \<circ> (\<lambda>r. if ?c r then ?f r else r) = (\<lambda>p. (perm_Code p, perm_Audience p))"
      by (auto simp: fun_eq_iff)
    show ?thesis unfolding catalogue_ok_def a map_map b using ok [unfolded catalogue_ok_def] .
  next
    case (inserted bs)
    with ok w' show ?thesis by (auto simp: catalogue_ok_def)
  qed
qed

text \<open>What resolving returns: the rows of exactly the codes asked for.\<close>

lemma resolve_InrD:
  assumes r: "resolve audience codes w = (Inr ps, w')" and ok: "catalogue_ok (db w)"
  shows "catalogue_ok (db w')" and "set ps \<subseteq> set (t_permissions (db w'))"
    and "set (map perm_Code ps) = (if PermissionWildcard \<in> set codes then {PermissionWildcard} else set codes)"
    and "\<forall>p\<in>set ps. perm_Audience p = audience"
proof -
  have "catalogue_ok (db w') \<and> set ps \<subseteq> set (t_permissions (db w')) \<and>
    set (map perm_Code ps) = (if PermissionWildcard \<in> set codes then {PermissionWildcard} else set codes) \<and>
    (\<forall>p\<in>set ps. perm_Audience p = audience)"
  proof (cases "PermissionWildcard \<in> set codes")
    case True
    let ?w1 = "w\<lparr>uuid_n := Suc (uuid_n w)\<rparr>"
    obtain u w2 stored w3 where u: "on_db (Permissions_Upsert \<lparr>perm_ID = withPrefix ''perm'' (uuid_at w (uuid_n w)),
          perm_Code = PermissionWildcard, perm_Audience = audience,
          perm_Description = ''Every permission, including ones added by later releases''\<rparr>) ?w1 = (Inr u, w2)"
      and s: "on_db (Permissions_ByCode audience PermissionWildcard) w2 = (Inr stored, w3)"
      and ret: "ps = [stored]" "w' = w3"
      using r True by (auto simp: resolve_def NewID_def elim!: bindE_InrE)
    have ok2: "catalogue_ok (db w2)" by (rule Permissions_Upsert_step [OF u]) (simp add: ok)
    from s obtain bs where "w3 = consumed bs w2" and
      f: "List.find (\<lambda>p. perm_Code p = PermissionWildcard \<and> perm_Audience p = audience) (t_permissions (db w2)) = Some stored"
      unfolding Permissions_ByCode_def by (rule permissions.first_step)
    with ok2 find_Some_in_set [OF f] True show ?thesis by (auto simp: ret catalogue_ok_def)
  next
    case False
    show ?thesis
    proof (cases "codes = []")
      case True
      with r ok False show ?thesis by (auto simp: resolve_def)
    next
      case ne: False
      let ?P = "\<lambda>p. perm_Audience p = audience \<and> perm_Code p \<in> set codes"
      obtain qs w1 where q: "on_db (Permissions_ByCodes audience codes) w = (Inr qs, w1)"
        and rest: "(case (if length qs \<noteq> length codes
              then List.find (\<lambda>code. code \<notin> set (map perm_Code qs)) codes else None) of
            Some code \<Rightarrow> throwE (Msg (''unknown '' @ audience @ '' permission '' @ quoted code))
          | None \<Rightarrow> returnE qs) w1 = (Inr ps, w')"
        using r False ne by (auto simp: resolve_def elim!: bindE_InrE)
      from q obtain bs where w1: "w1 = consumed bs w" and qs: "qs = id (filter ?P (t_permissions (db w)))"
        unfolding Permissions_ByCodes_def by (rule permissions.find_step)
      have ret: "ps = qs" "w' = w1" using rest by (auto split: option.splits if_splits)
      have inj: "inj_on perm_Code (set qs)"
        using ok by (auto simp: qs catalogue_ok_def distinct_map inj_on_def)
      have "distinct (map perm_Code qs)"
        using ok inj by (simp add: qs catalogue_ok_def distinct_map)
      then have card: "card (perm_Code ` set qs) = length qs" by (metis distinct_card length_map set_map)
      have sub: "perm_Code ` set qs \<subseteq> set codes" by (auto simp: qs)
      have "perm_Code ` set qs = set codes"
      proof (cases "length qs = length codes")
        case True
        then have "card (set codes) \<le> card (perm_Code ` set qs)" using card by (simp add: card_length)
        with sub show ?thesis by (intro card_seteq) auto
      next
        case False
        with rest have "List.find (\<lambda>code. code \<notin> set (map perm_Code qs)) codes = None"
          by (auto split: option.splits)
        with sub show ?thesis by (auto simp: find_None_iff)
      qed
      with ok False show ?thesis by (auto simp: ret w1 qs catalogue_ok_def)
    qed
  qed
  then show "catalogue_ok (db w')" "set ps \<subseteq> set (t_permissions (db w'))"
    "set (map perm_Code ps) = (if PermissionWildcard \<in> set codes then {PermissionWildcard} else set codes)"
    "\<forall>p\<in>set ps. perm_Audience p = audience" by blast+
qed

section \<open>What the role operations leave alone\<close>

definition joins_ok :: "db \<Rightarrow> bool" where
  "joins_ok d \<longleftrightarrow> (\<forall>(ri, pi)\<in>set (t_rolePermissions d).
     ri \<in> role_ID ` set (t_roles d) \<and> pi \<in> perm_ID ` set (t_permissions d))"

definition authz_ok :: "db \<Rightarrow> bool" where
  "authz_ok d \<longleftrightarrow> catalogue_ok d \<and> roles_ok d \<and> joins_ok d"

text \<open>The codes attached to a role.\<close>

definition granted :: "db \<Rightarrow> string \<Rightarrow> string set" where
  "granted d i = {perm_Code p | p. p \<in> set (t_permissions d) \<and> (i, perm_ID p) \<in> set (t_rolePermissions d)}"

text \<open>The tables stay well formed, and a role of the class \<open>S\<close> keeps its row and its grants.\<close>

definition protects :: "(Role \<Rightarrow> bool) \<Rightarrow> db \<Rightarrow> db \<Rightarrow> bool" where
  "protects S d d' \<longleftrightarrow> (authz_ok d \<longrightarrow> authz_ok d' \<and>
     (\<forall>r\<in>set (t_roles d). S r \<longrightarrow> r \<in> set (t_roles d') \<and> granted d' (role_ID r) = granted d (role_ID r)))"

lemmas authz_defs = authz_ok_def catalogue_ok_def roles_ok_def joins_ok_def granted_def

interpretation protects: db_relation "protects S" for S
  by unfold_locales (auto simp: protects_def authz_defs)

abbreviation wprotects :: "(Role \<Rightarrow> bool) \<Rightarrow> 'p world \<Rightarrow> 'p world \<Rightarrow> bool" where
  "wprotects S w w' \<equiv> protects S (db w) (db w')"

interpretation wprotects: world_relation "wprotects S" for S
  by unfold_locales (auto simp: protects_def authz_defs)

lemma protects_on_db: "protects S (db w) (snd (m (db w))) \<Longrightarrow> wprotects S w (snd (on_db m w))"
  by (auto simp: on_db_def split: prod.splits)

lemma wprotects_db: "moves (protects S) m \<Longrightarrow> moves (wprotects S) (on_db m)"
  by (rule wprotects.moves_on_db) simp_all

lemma protects_reads:
  "wprotects S w (snd (on_db (base_first rows P) w))" "wprotects S w (snd (on_db (base_find rows ord P) w))"
  "wprotects S w (snd (on_db (base_count rows P) w))"
  by (auto intro!: protects_on_db protects.moves_R protects.moves_reads)

lemma protects_same:
  assumes "t_roles d' = t_roles d" "t_rolePermissions d' = t_rolePermissions d" "t_permissions d' = t_permissions d"
  shows "protects S d d'"
  using assms by (simp add: protects_def authz_defs)

lemma only_trail_protects: "only_trail w w' \<Longrightarrow> wprotects S w w'"
  by (rule protects_same) (simp_all add: only_trail_fields)

lemma protects_audit: "wprotects S w (snd (RecordBestEffort a actor ty action entity i meta ip ua w))"
  by (rule only_trail_protects) (rule only_trail.moves_R [OF trail_RecordBestEffort])

lemma protects_NewID: "wprotects S w (snd (NewID prefix w))"
  by (simp add: NewID_def protects.refl_R)

lemma protects_Permissions_Upsert: "protects S d (snd (Permissions_Upsert p d))"
proof -
  let ?c = "\<lambda>r. perm_Code r = perm_Code p \<and> perm_Audience r = perm_Audience p"
  let ?f = "perm_Description_update (\<lambda>_. perm_Description p)"
  let ?u = "upsert t_permissions t_permissions_update ?c ?f (\<lambda>r s. perm_ID r = perm_ID s) p"
  have d': "snd (Permissions_Upsert p d) = snd (?u d)"
    by (auto simp: Permissions_Upsert_def bindE_def split: prod.splits sum.splits)
  show ?thesis unfolding d'
  proof (cases rule: permissions.upsert_state [of ?c ?f "\<lambda>r s. perm_ID r = perm_ID s" p d])
    case (nothing bs)
    then show "protects S d (snd (?u d))" by (simp add: protects_same)
  next
    case (updated bs)
    have cat: "map g (map (\<lambda>r. if ?c r then ?f r else r) ps) = map g ps"
      if "\<And>r. g (?f r) = g r" for g :: "Permission \<Rightarrow> 'x" and ps
      using that by (induction ps) auto
    let ?ps = "map (\<lambda>r. if ?c r then ?f r else r) (t_permissions d)"
    have key: "map (\<lambda>p. (perm_ID p, perm_Code p)) ?ps = map (\<lambda>p. (perm_ID p, perm_Code p)) (t_permissions d)"
      "map perm_ID ?ps = map perm_ID (t_permissions d)"
      "map (\<lambda>p. (perm_Code p, perm_Audience p)) ?ps = map (\<lambda>p. (perm_Code p, perm_Audience p)) (t_permissions d)"
      by (rule cat, simp)+
    have "granted (snd (?u d)) i = granted d i" for i
    proof -
      have grants: "granted x i = snd ` {kc \<in> set (map (\<lambda>p. (perm_ID p, perm_Code p)) (t_permissions x)).
          (i, fst kc) \<in> set (t_rolePermissions x)}" for x
        by (force simp: granted_def image_iff)
      have "t_permissions (snd (?u d)) = ?ps" "t_rolePermissions (snd (?u d)) = t_rolePermissions d"
        by (simp_all add: updated(1))
      note same = this
      show ?thesis unfolding grants same key(1) by (rule refl)
    qed
    moreover have "perm_ID ` set ?ps = perm_ID ` set (t_permissions d)"
      using arg_cong [OF key(2), of set] by (simp only: set_map)
    ultimately show "protects S d (snd (?u d))"
      using key(2,3) by (simp add: updated(1) protects_def authz_ok_def catalogue_ok_def roles_ok_def joins_ok_def
          del: map_map set_map)
  next
    case (inserted bs)
    then show "protects S d (snd (?u d))"
      by (auto simp: protects_def authz_defs) fastforce
  qed
qed

lemma protects_resolve: "wprotects S w (snd (resolve audience codes w))"
proof -
  have "moves (wprotects S) (NewID prefix :: ('p, string) act)" for prefix
    by (rule wprotects.moves_NewID) (simp add: protects.refl_R)
  moreover have "moves (wprotects S) (on_db (Permissions_Upsert p))" for p
    by (rule wprotects_db) (simp add: moves_def protects_Permissions_Upsert)
  moreover have "moves (wprotects S) (on_db (base_first rows P))" "moves (wprotects S) (on_db (base_find rs ord Q))"
    for rows :: "'x rows" and P and rs :: "'y rows" and ord Q
    by (auto intro!: wprotects_db protects.moves_reads)
  ultimately have "moves (wprotects S) (resolve audience codes)"
    unfolding resolve_def Permissions_ByCode_def Permissions_ByCodes_def
    by (auto intro!: wprotects.moves_intros split: option.split)
  then show ?thesis by (rule wprotects.moves_R)
qed

text \<open>Writes to a role that is not of the class.\<close>

lemma protects_SetDescription:
  assumes "\<forall>r\<in>set (t_roles d). role_ID r = i \<longrightarrow> \<not> S r"
  shows "protects S d (snd (Roles_SetDescription i description d))"
proof -
  let ?f = "role_Description_update (\<lambda>_. description)"
  show ?thesis unfolding Roles_SetDescription_def roles.snd_update
  proof (cases rule: roles.updates_state [of "\<lambda>r. role_ID r = i" ?f d])
    case (nothing bs)
    then show "protects S d (snd (base_updates t_roles t_roles_update (\<lambda>r. role_ID r = i) ?f d))"
      by (simp add: protects_same)
  next
    case (updated bs)
    let ?rs = "map (\<lambda>r. if role_ID r = i then ?f r else r) (t_roles d)"
    have keys: "map role_ID ?rs = map role_ID (t_roles d)" "map role_Name ?rs = map role_Name (t_roles d)"
      by (induction "t_roles d") auto
    have "role_ID ` set ?rs = role_ID ` set (t_roles d)"
      using arg_cong [OF keys(1), of set] by (simp only: set_map)
    moreover have "r \<in> set ?rs" if "r \<in> set (t_roles d)" "S r" for r
      using assms that by force
    ultimately show "protects S d (snd (base_updates t_roles t_roles_update (\<lambda>r. role_ID r = i) ?f d))"
      using keys by (simp add: updated(1) protects_def authz_defs del: map_map set_map)
  qed
qed

lemma protects_ReplacePermissions:
  assumes "role_ID role \<in> role_ID ` set (t_roles d)"
    and "\<forall>r\<in>set (t_roles d). role_ID r = role_ID role \<longrightarrow> \<not> S r"
    and "set ps \<subseteq> set (t_permissions d)"
  shows "protects S d (snd (Roles_ReplacePermissions role ps d))"
proof (cases rule: statement_cases [of d])
  case (fail bs)
  then show ?thesis by (simp add: Roles_ReplacePermissions_def protects_same)
next
  case (ok bs)
  let ?js = "filter (\<lambda>(ri, pi). ri \<noteq> role_ID role) (t_rolePermissions d) @ map (\<lambda>p. (role_ID role, perm_ID p)) ps"
  let ?d = "d\<lparr>faults := bs, t_rolePermissions := ?js\<rparr>"
  have d': "snd (Roles_ReplacePermissions role ps d) = ?d"
    using ok by (simp add: Roles_ReplacePermissions_def)
  have "granted ?d (role_ID r) = granted d (role_ID r)" if "r \<in> set (t_roles d)" "S r" for r
    using assms(2) that by (auto simp: granted_def)
  moreover have "joins_ok ?d" if "joins_ok d"
    using that assms(1,3) by (auto simp: joins_ok_def image_iff)
  ultimately show ?thesis
    unfolding d' by (simp add: protects_def authz_ok_def catalogue_ok_def roles_ok_def)
qed

lemma protects_Roles_Create:
  assumes "set (role_Permissions r) \<subseteq> set (t_permissions d)"
  shows "protects S d (snd (Roles_Create r d))"
proof (cases rule: statement_cases [of d])
  case (fail bs)
  then show ?thesis by (simp add: Roles_Create_def protects_same)
next
  case (ok bs)
  show ?thesis
  proof (cases "list_ex (\<lambda>x. role_ID x = role_ID r \<or> role_Name x = role_Name r) (t_roles d)")
    case True
    with ok show ?thesis by (simp add: Roles_Create_def protects_same)
  next
    case False
    let ?d = "d\<lparr>faults := bs, t_roles := t_roles d @ [r\<lparr>role_Permissions := []\<rparr>],
      t_rolePermissions := t_rolePermissions d @ map (\<lambda>p. (role_ID r, perm_ID p)) (role_Permissions r)\<rparr>"
    have d': "snd (Roles_Create r d) = ?d" using ok False by (simp add: Roles_Create_def)
    have new: "\<forall>x\<in>set (t_roles d). role_ID x \<noteq> role_ID r \<and> role_Name x \<noteq> role_Name r"
      using False by (auto simp: list_ex_iff)
    have "granted ?d (role_ID x) = granted d (role_ID x)" if "x \<in> set (t_roles d)" for x
      using new that by (auto simp: granted_def)
    moreover have "roles_ok ?d" if "roles_ok d" using that new by (auto simp: roles_ok_def)
    moreover have "joins_ok ?d" if "joins_ok d" using that assms by (fastforce simp: joins_ok_def)
    ultimately show ?thesis unfolding d' by (simp add: protects_def authz_ok_def catalogue_ok_def)
  qed
qed

lemma protects_clear:
  assumes "\<forall>r\<in>set (t_roles d). role_ID r = i \<longrightarrow> \<not> S r"
  shows "protects S d (t_rolePermissions_update (filter (\<lambda>(ri, pi). ri \<noteq> i)) (d\<lparr>faults := bs\<rparr>))"
  using assms by (auto simp: protects_def authz_defs)

lemma protects_Roles_Delete:
  assumes "\<forall>r\<in>set (t_roles d). role_ID r = role_ID role \<longrightarrow> \<not> S r"
  shows "protects S d (snd (Roles_Delete role d))"
proof (cases rule: statement_cases [of d])
  case (fail bs)
  then show ?thesis by (simp add: Roles_Delete_def protects_same)
next
  case (ok bs)
  let ?d1 = "t_rolePermissions_update (filter (\<lambda>(ri, pi). ri \<noteq> role_ID role)) (d\<lparr>faults := bs\<rparr>)"
  have d': "snd (Roles_Delete role d) = snd (base_deletes t_roles t_roles_update (\<lambda>x. role_ID x = role_ID role) ?d1)"
    using ok by (simp add: Roles_Delete_def base_deleteWhere_def roles.snd_affected)
  have first: "protects S d ?d1" by (rule protects_clear) (rule assms)
  have "protects S ?d1 (snd (base_deletes t_roles t_roles_update (\<lambda>x. role_ID x = role_ID role) ?d1))"
  proof (cases rule: roles.deletes_state [of "\<lambda>x. role_ID x = role_ID role" ?d1])
    case (nothing cs)
    then show ?thesis by (simp add: protects_same)
  next
    case (deleted cs)
    have "distinct (map f (filter P xs))" if "distinct (map f xs)" for f :: "Role \<Rightarrow> string" and P xs
      using that by (rule distinct_map_filter)
    moreover have "joins_ok (snd (base_deletes t_roles t_roles_update (\<lambda>x. role_ID x = role_ID role) ?d1))"
      if "joins_ok ?d1"
      using that by (force simp: deleted(1) joins_ok_def)
    ultimately show ?thesis
      using assms unfolding protects_def authz_ok_def
      by (auto simp: deleted(1) catalogue_ok_def roles_ok_def granted_def)
  qed
  with first show ?thesis unfolding d' by (rule protects.trans_R)
qed

section \<open>Custom roles\<close>

lemma protects_when: "(authz_ok d \<Longrightarrow> protects S d d') \<Longrightarrow> protects S d d'"
  by (auto simp: protects_def)

lemma same_role: "authz_ok d \<Longrightarrow> r \<in> set (t_roles d) \<Longrightarrow> role \<in> set (t_roles d) \<Longrightarrow> role_ID r = role_ID role \<Longrightarrow> r = role"
  by (auto simp: authz_ok_def roles_ok_def distinct_map inj_on_def)

lemma customRole_step:
  assumes "customRole name w = (Inr role, w')"
  obtains bs where "w' = consumed bs w" and "role \<in> set (t_roles (db w))"
    and "role_Name role = normalizeRoleName name" and "\<not> role_System role"
proof -
  obtain r w1 where f: "on_db (Roles_ByName (normalizeRoleName name)) w = (Inr r, w1)"
    and k: "(if role_System r then throwE SystemRoleErr else returnE r) w1 = (Inr role, w')"
    using assms unfolding customRole_def by (rule bindE_InrE)
  from f obtain bs where b: "w1 = consumed bs w" "List.find (\<lambda>r. role_Name r = normalizeRoleName name) (t_roles (db w)) = Some r"
    unfolding Roles_ByName_def by (rule roles.first_step)
  from k have "role = r" "w' = w1" "\<not> role_System role" by (simp_all split: if_splits)
  with b find_Some_in_set [OF b(2)] show ?thesis by (intro that [of bs]) simp_all
qed

lemma protects_customRole: "wprotects S w (snd (customRole name w))"
  unfolding customRole_def Roles_ByName_def
  by (intro wprotects.bindE_R protects_reads) (simp add: protects.refl_R)

text \<open>In a sequence each stage starts from well-formed tables.\<close>

lemma protects_bind:
  assumes "wprotects S w (snd (m w))"
    and "\<And>x w1. m w = (Inr x, w1) \<Longrightarrow> authz_ok (db w) \<Longrightarrow> authz_ok (db w1) \<Longrightarrow> wprotects S w1 (snd (k x w1))"
  shows "wprotects S w (snd (bindE m k w))"
proof (rule protects_when)
  assume ok: "authz_ok (db w)"
  show ?thesis
  proof (rule wprotects.bindE_R)
    show "wprotects S w (snd (m w))" by (rule assms(1))
  next
    fix x w1
    assume m: "m w = (Inr x, w1)"
    with assms(1) ok have "authz_ok (db w1)" by (simp add: protects_def)
    with m ok show "wprotects S w1 (snd (k x w1))" by (rule assms(2))
  qed
qed

lemma resolve_rows:
  "resolve audience codes w = (Inr ps, w') \<Longrightarrow> authz_ok (db w) \<Longrightarrow> set ps \<subseteq> set (t_permissions (db w'))"
  using resolve_InrD(2) [of audience codes w ps w'] by (simp add: authz_ok_def)

lemma resolve_roles:
  "resolve audience codes w = (r, w') \<Longrightarrow> t_roles (db w') = t_roles (db w)"
  using movesD [OF catalogue_resolve] only_catalogue_fields(1) by metis

lemma CreateRole_protects: "wprotects S w (snd (CreateRole auditor actor name description codes w))"
  unfolding CreateRole_def Let_def
proof (intro protects_bind wprotects.R_intros protects_audit protects_resolve protects_NewID)
  fix ps w3 i w4 :: _ and w2
  assume r: "resolve AudienceAdmin codes w2 = (Inr ps, w3)" and ok: "authz_ok (db w2)"
    and i: "NewID ''role'' w3 = (Inr i, w4)"
  have "db w4 = db w3" using i by (auto simp: NewID_def)
  then have "set ps \<subseteq> set (t_permissions (db w4))" using resolve_rows [OF r ok] by simp
  then show "wprotects S w4 (snd (on_db (Roles_Create \<lparr>role_ID = i, role_Name = normalizeRoleName name,
      role_Description = trim_space description, role_System = False, role_Permissions = ps\<rparr>) w4))"
    by (intro protects_on_db protects_Roles_Create) simp
qed

lemma UpdateRole_protects:
  assumes S: "\<And>r. \<not> role_System r \<Longrightarrow> \<not> S r"
  shows "wprotects S w (snd (UpdateRole auditor actor name description codes w))"
  unfolding UpdateRole_def
proof (intro protects_bind protects_audit protects_customRole protects_resolve)
  fix role w1 ps w2
  assume c: "customRole name w = (Inr role, w1)" and r: "resolve AudienceAdmin codes w1 = (Inr ps, w2)"
    and ok: "authz_ok (db w1)" "authz_ok (db w2)"
  from c obtain bs where "w1 = consumed bs w" "role \<in> set (t_roles (db w))" and custom: "\<not> role_System role"
    by (rule customRole_step)
  with S have role: "role \<in> set (t_roles (db w2))" "\<not> S role" using resolve_roles [OF r] by simp_all
  then have only: "\<forall>r\<in>set (t_roles (db w2)). role_ID r = role_ID role \<longrightarrow> \<not> S r"
    using same_role [OF ok(2)] by blast
  show "wprotects S w2 (snd (Within (bindE (on_db (Roles_SetDescription (role_ID role) (trim_space description)))
      (\<lambda>_. on_db (Roles_ReplacePermissions role ps))) w2))"
  proof (rule wprotects.Within_R, rule protects_bind)
    fix bs
    show "wprotects S (consumed bs w2) (snd (on_db (Roles_SetDescription (role_ID role) (trim_space description)) (consumed bs w2)))"
      by (rule protects_on_db, rule protects_SetDescription) (simp add: only)
  next
    fix bs u w3
    assume d: "on_db (Roles_SetDescription (role_ID role) (trim_space description)) (consumed bs w2) = (Inr u, w3)"
    from d obtain cs where "w3 = (consumed bs w2)\<lparr>db := t_roles_update (map (\<lambda>r. if role_ID r = role_ID role
        then role_Description_update (\<lambda>_. trim_space description) r else r)) ((db (consumed bs w2))\<lparr>faults := cs\<rparr>)\<rparr>"
      unfolding Roles_SetDescription_def by (rule roles.update_step)
    then have rows: "t_roles (db w3) = map (\<lambda>r. if role_ID r = role_ID role
        then role_Description_update (\<lambda>_. trim_space description) r else r) (t_roles (db w2))"
      and perms: "t_permissions (db w3) = t_permissions (db w2)" by simp_all
    show "wprotects S w3 (snd (on_db (Roles_ReplacePermissions role ps) w3))"
    proof (rule protects_on_db, rule protects_ReplacePermissions)
      show "role_ID role \<in> role_ID ` set (t_roles (db w3))"
        by (rule image_eqI [where x = "role_Description_update (\<lambda>_. trim_space description) role"])
           (use role(1) in \<open>auto simp: rows\<close>)
      have "\<not> role_System r" if "r \<in> set (t_roles (db w3))" "role_ID r = role_ID role" for r
        using that custom role(1) same_role [OF ok(2)] by (force simp: rows)
      then show "\<forall>r\<in>set (t_roles (db w3)). role_ID r = role_ID role \<longrightarrow> \<not> S r" using S by blast
      show "set ps \<subseteq> set (t_permissions (db w3))" using resolve_rows [OF r ok(1)] perms by simp
    qed
  qed
qed

lemma DeleteRole_protects:
  assumes S: "\<And>r. \<not> role_System r \<Longrightarrow> \<not> S r"
  shows "wprotects S w (snd (DeleteRole auditor actor name w))"
  unfolding DeleteRole_def AdminUsers_CountWithRole_def
proof (intro protects_bind wprotects.R_intros protects_audit protects_customRole protects_reads)
  fix role w1 holders w2 u w3
  assume c: "customRole name w = (Inr role, w1)"
    and n: "on_db (base_count t_adminUsers (\<lambda>u. au_Role u = role_Name role)) w1 = (Inr holders, w2)"
    and f: "failIf (0 < holders) (Msg (''role '' @ quoted (role_Name role) @ '' is still assigned to '' @
             format_int holders @ '' administrator(s)'')) w2 = (Inr u, w3)"
    and ok: "authz_ok (db w3)"
  from c obtain bs where "w1 = consumed bs w" "role \<in> set (t_roles (db w))" and custom: "\<not> role_System role"
    by (rule customRole_step)
  moreover from n obtain cs where "w2 = consumed cs w1" by (rule adminUsers.count_step)
  ultimately have "role \<in> set (t_roles (db w3))" using failIf_InrD [OF f] by simp
  then have "\<forall>r\<in>set (t_roles (db w3)). role_ID r = role_ID role \<longrightarrow> \<not> S r"
    using same_role [OF ok] custom S by blast
  then show "wprotects S w3 (snd (on_db (Roles_Delete role) w3))"
    by (intro protects_on_db protects_Roles_Delete)
qed

section \<open>Seeding\<close>

lemma protects_Roles_Upsert:
  assumes "\<forall>r\<in>set (t_roles d). role_Name r = role_Name role \<longrightarrow> \<not> S r"
  shows "protects S d (snd (Roles_Upsert role d))"
proof -
  let ?c = "\<lambda>x. role_Name x = role_Name role"
  let ?f = "\<lambda>x. x\<lparr>role_Description := role_Description role, role_System := role_System role\<rparr>"
  let ?u = "upsert t_roles t_roles_update ?c ?f (\<lambda>x y. role_ID x = role_ID y) (role\<lparr>role_Permissions := []\<rparr>)"
  have d': "snd (Roles_Upsert role d) = snd (?u d)"
    by (auto simp: Roles_Upsert_def bindE_def split: prod.splits sum.splits)
  show ?thesis unfolding d'
  proof (cases rule: roles.upsert_state [of ?c ?f "\<lambda>x y. role_ID x = role_ID y" "role\<lparr>role_Permissions := []\<rparr>" d])
    case (nothing bs)
    then show "protects S d (snd (?u d))" by (simp add: protects_same)
  next
    case (updated bs)
    let ?rs = "map (\<lambda>r. if ?c r then ?f r else r) (t_roles d)"
    have keys: "map role_ID ?rs = map role_ID (t_roles d)" "map role_Name ?rs = map role_Name (t_roles d)"
      by (induction "t_roles d") auto
    have "role_ID ` set ?rs = role_ID ` set (t_roles d)"
      using arg_cong [OF keys(1), of set] by (simp only: set_map)
    moreover have "r \<in> set ?rs" if "r \<in> set (t_roles d)" "S r" for r
      using assms that by force
    ultimately show "protects S d (snd (?u d))"
      using keys by (simp add: updated(1) protects_def authz_defs del: map_map set_map)
  next
    case (inserted bs)
    then show "protects S d (snd (?u d))"
      by (auto simp: protects_def authz_defs)
  qed
qed

lemma Roles_Upsert_permissions:
  assumes "on_db (Roles_Upsert role) w = (r, w')"
  shows "t_permissions (db w') = t_permissions (db w)"
proof -
  have same: "snd (Roles_Upsert role d) = snd (upsert t_roles t_roles_update (\<lambda>x. role_Name x = role_Name role)
      (\<lambda>x. x\<lparr>role_Description := role_Description role, role_System := role_System role\<rparr>)
      (\<lambda>x y. role_ID x = role_ID y) (role\<lparr>role_Permissions := []\<rparr>) d)" for d
    by (auto simp: Roles_Upsert_def bindE_def split: prod.splits sum.splits)
  have "t_permissions (snd (Roles_Upsert role d)) = t_permissions d" for d
    unfolding same
    by (cases rule: roles.upsert_state [of "\<lambda>x. role_Name x = role_Name role"
          "\<lambda>x. x\<lparr>role_Description := role_Description role, role_System := role_System role\<rparr>"
          "\<lambda>x y. role_ID x = role_ID y" "role\<lparr>role_Permissions := []\<rparr>" d]) simp_all
  then show ?thesis using assms by (auto simp: on_db_def split: prod.splits) (metis snd_conv)
qed

lemma protects_wrapE: "wprotects S w (snd (m w)) \<Longrightarrow> wprotects S w (snd (wrapE message m w))"
  by (cases "m w") (auto simp: wrapE_def split: sum.split)

lemma seed_permissions_protects: "wprotects S w (snd (seed_permissions ps w))"
proof (induction ps arbitrary: w)
  case Nil
  show ?case by (simp add: protects.refl_R)
next
  case (Cons p ps)
  show ?case unfolding seed_permissions.simps
    by (intro protects_bind protects_NewID protects_wrapE protects_on_db protects_Permissions_Upsert Cons)
qed

lemma seedRole_protects:
  assumes S: "\<And>r. role_Name r = name \<Longrightarrow> \<not> S r"
  shows "wprotects S w (snd (seedRole (name, description, codes) w))"
  unfolding seedRole_def split
proof (intro protects_bind protects_wrapE protects_resolve wprotects.Within_R protects_NewID)
  fix ps w1 bs i w2
  let ?role = "\<lparr>role_ID = i, role_Name = name, role_Description = description, role_System = True, role_Permissions = []\<rparr>"
  show "wprotects S w2 (snd (on_db (Roles_Upsert ?role) w2))"
    by (rule protects_on_db, rule protects_Roles_Upsert) (simp add: S)
next
  fix ps w1 bs i w2 u w3
  show "wprotects S w3 (snd (on_db (Roles_ByName name) w3))"
    unfolding Roles_ByName_def by (rule protects_reads)
next
  fix ps w1 bs i w2 u w3 stored w4
  let ?role = "\<lparr>role_ID = i, role_Name = name, role_Description = description, role_System = True, role_Permissions = []\<rparr>"
  assume r: "wrapE (''seed role '' @ name) (resolve AudienceAdmin codes) w = (Inr ps, w1)"
    and ok: "authz_ok (db w)" "authz_ok (db w4)" and i: "NewID ''role'' (consumed bs w1) = (Inr i, w2)"
    and u: "on_db (Roles_Upsert ?role) w2 = (Inr u, w3)" and s: "on_db (Roles_ByName name) w3 = (Inr stored, w4)"
  from s obtain cs where w4: "w4 = consumed cs w3" "List.find (\<lambda>r. role_Name r = name) (t_roles (db w3)) = Some stored"
    unfolding Roles_ByName_def by (rule roles.first_step)
  then have stored: "stored \<in> set (t_roles (db w4))" "role_Name stored = name"
    using find_Some_in_set [OF w4(2)] by simp_all
  have "t_permissions (db w3) = t_permissions (db w2)" by (rule Roles_Upsert_permissions [OF u])
  then have "set ps \<subseteq> set (t_permissions (db w4))"
    using resolve_rows [OF wrapE_InrD [OF r] ok(1)] i w4(1) by (auto simp: NewID_def)
  moreover have "\<forall>r\<in>set (t_roles (db w4)). role_ID r = role_ID stored \<longrightarrow> \<not> S r"
    using same_role [OF ok(2)] stored S by blast
  ultimately show "wprotects S w4 (snd (on_db (Roles_ReplacePermissions stored ps) w4))"
    using stored(1) by (intro protects_on_db protects_ReplacePermissions) auto
qed

lemma seed_roles_protects:
  fixes w :: "'p world"
  assumes "\<And>r. role_Name r \<in> fst ` set ds \<Longrightarrow> \<not> S r"
  shows "wprotects S w (snd (seed_roles ds w))"
  using assms
proof (induction ds arbitrary: w)
  case Nil
  show ?case by (simp add: protects.refl_R)
next
  case (Cons d ds)
  obtain name description codes where d: "d = (name, description, codes)" by (cases d)
  show ?case unfolding seed_roles.simps d
  proof (intro protects_bind seedRole_protects)
    show "\<not> S r" if "role_Name r = name" for r
      using Cons.prems [of r] that by (simp add: d)
  next
    fix w1 :: "'p world"
    show "wprotects S w1 (snd (seed_roles ds w1))"
      by (rule Cons.IH) (use Cons.prems in auto)
  qed
qed

lemma Seed_protects:
  assumes "\<And>r. role_Name r \<in> fst ` set SystemRoles \<Longrightarrow> \<not> S r"
  shows "wprotects S w (snd (Seed w))"
  unfolding Seed_def
  by (intro protects_bind seed_permissions_protects seed_roles_protects assms)

subsection \<open>What seeding grants\<close>

definition grants :: "db \<Rightarrow> string \<Rightarrow> string set \<Rightarrow> bool" where
  "grants d name codes \<longleftrightarrow> (\<exists>r\<in>set (t_roles d). role_Name r = name \<and> granted d (role_ID r) = codes)"

definition listed_codes :: "string list \<Rightarrow> string set" where
  "listed_codes codes = (if PermissionWildcard \<in> set codes then {PermissionWildcard} else set codes)"

lemma replaced_grants:
  assumes "catalogue_ok d" and "set ps \<subseteq> set (t_permissions d)"
    and joins: "t_rolePermissions d = filter (\<lambda>(ri, pi). ri \<noteq> i) js @ map (\<lambda>p. (i, perm_ID p)) ps"
  shows "granted d i = perm_Code ` set ps"
proof -
  have ids: "p = q" if "p \<in> set (t_permissions d)" "q \<in> set ps" "perm_ID p = perm_ID q" for p q
    using assms(1,2) that by (auto simp: catalogue_ok_def distinct_map inj_on_def)
  have "(i, perm_ID p) \<in> set (t_rolePermissions d) \<longleftrightarrow> p \<in> set ps" if "p \<in> set (t_permissions d)" for p
    using ids [OF that] by (auto simp: joins)
  then have "granted d i = {perm_Code p | p. p \<in> set (t_permissions d) \<and> p \<in> set ps}"
    unfolding granted_def by blast
  with assms(2) show ?thesis by blast
qed

lemma authz_protects: "authz_ok (db w) \<Longrightarrow> wprotects S w w' \<Longrightarrow> authz_ok (db w')"
  by (simp add: protects_def)

lemma seedRole_grants:
  assumes s: "seedRole (name, description, codes) w = (Inr u, w')" and ok: "authz_ok (db w)"
  shows "grants (db w') name (listed_codes codes)"
proof -
  obtain ps w1 where res: "wrapE (''seed role '' @ name) (resolve AudienceAdmin codes) w = (Inr ps, w1)"
    and within: "Within (bindE (NewID ''role'') (\<lambda>i.
          bindE (on_db (Roles_Upsert \<lparr>role_ID = i, role_Name = name, role_Description = description,
                                       role_System = True, role_Permissions = []\<rparr>)) (\<lambda>_.
          bindE (on_db (Roles_ByName name)) (\<lambda>stored.
          on_db (Roles_ReplacePermissions stored ps))))) w1 = (Inr u, w')"
    using s unfolding seedRole_def split by (rule bindE_InrE)
  from within obtain b1 b2 w4 where body: "bindE (NewID ''role'') (\<lambda>i.
          bindE (on_db (Roles_Upsert \<lparr>role_ID = i, role_Name = name, role_Description = description,
                                       role_System = True, role_Permissions = []\<rparr>)) (\<lambda>_.
          bindE (on_db (Roles_ByName name)) (\<lambda>stored.
          on_db (Roles_ReplacePermissions stored ps)))) (consumed b1 w1) = (Inr u, w4)" and w': "w' = consumed b2 w4"
    by (rule Within_step)
  obtain i w2 where n: "NewID ''role'' (consumed b1 w1) = (Inr i, w2)"
    and k: "bindE (on_db (Roles_Upsert \<lparr>role_ID = i, role_Name = name, role_Description = description,
                                       role_System = True, role_Permissions = []\<rparr>)) (\<lambda>_.
          bindE (on_db (Roles_ByName name)) (\<lambda>stored. on_db (Roles_ReplacePermissions stored ps))) w2 = (Inr u, w4)"
    using body by (rule bindE_InrE)
  obtain v w3 where up: "on_db (Roles_Upsert \<lparr>role_ID = i, role_Name = name, role_Description = description,
                                       role_System = True, role_Permissions = []\<rparr>) w2 = (Inr v, w3)"
    and k: "bindE (on_db (Roles_ByName name)) (\<lambda>stored. on_db (Roles_ReplacePermissions stored ps)) w3 = (Inr u, w4)"
    using k by (rule bindE_InrE)
  obtain stored w5 where read: "on_db (Roles_ByName name) w3 = (Inr stored, w5)"
    and rp: "on_db (Roles_ReplacePermissions stored ps) w5 = (Inr u, w4)"
    using k by (rule bindE_InrE)
  obtain cs where w5: "w5 = consumed cs w3" and f: "List.find (\<lambda>r. role_Name r = name) (t_roles (db w3)) = Some stored"
    using read unfolding Roles_ByName_def by (rule roles.first_step)
  from rp obtain b4 where "on_db (\<lambda>d. (Inr (), t_rolePermissions_update (\<lambda>js. filter (\<lambda>(ri, pi). ri \<noteq> role_ID stored) js @
        map (\<lambda>p. (role_ID stored, perm_ID p)) ps) d)) (consumed b4 w5) = (Inr u, w4)"
    unfolding Roles_ReplacePermissions_def by (rule statement_step)
  then have w4: "w4 = w5\<lparr>db := t_rolePermissions_update (\<lambda>js. filter (\<lambda>(ri, pi). ri \<noteq> role_ID stored) js @
        map (\<lambda>p. (role_ID stored, perm_ID p)) ps) ((db w5)\<lparr>faults := b4\<rparr>)\<rparr>"
    by (simp add: on_db_pair)
  have r: "resolve AudienceAdmin codes w = (Inr ps, w1)" using res by (rule wrapE_InrD)
  have cat: "catalogue_ok (db w)" using ok by (simp add: authz_ok_def)
  have perms: "t_permissions (db w') = t_permissions (db w1)"
    using Roles_Upsert_permissions [OF up] n w5 w4 w' by (auto simp: NewID_def)
  have "granted (db w') (role_ID stored) = perm_Code ` set ps"
  proof (rule replaced_grants)
    show "catalogue_ok (db w')" "set ps \<subseteq> set (t_permissions (db w'))"
      using resolve_InrD(1,2) [OF r cat] by (simp_all add: catalogue_ok_def perms)
    show "t_rolePermissions (db w') = filter (\<lambda>(ri, pi). ri \<noteq> role_ID stored) (t_rolePermissions (db w5)) @
        map (\<lambda>p. (role_ID stored, perm_ID p)) ps"
      by (simp add: w' w4)
  qed
  moreover have "stored \<in> set (t_roles (db w'))" "role_Name stored = name"
    using find_Some_in_set [OF f] by (simp_all add: w' w4 w5)
  ultimately show ?thesis
    using resolve_InrD(3) [OF r cat] by (auto simp: grants_def listed_codes_def)
qed

lemma grants_protected:
  assumes "grants d name codes" and "protects (\<lambda>r. role_Name r = name) d d'" and "authz_ok d"
  shows "grants d' name codes"
  using assms unfolding grants_def protects_def by fastforce

lemma seed_roles_grants:
  assumes "seed_roles ds w = (Inr u, w')" and "authz_ok (db w)" and "distinct (map fst ds)"
    and "(name, description, codes) \<in> set ds"
  shows "grants (db w') name (listed_codes codes)"
  using assms
proof (induction ds arbitrary: w)
  case (Cons d ds)
  obtain v w1 where d: "seedRole d w = (Inr v, w1)" and rest: "seed_roles ds w1 = (Inr u, w')"
    using Cons.prems(1) unfolding seed_roles.simps by (rule bindE_InrE)
  obtain n e c where dd: "d = (n, e, c)" by (cases d)
  have "wprotects (\<lambda>_. False) w w1" using seedRole_protects [of n "\<lambda>_. False" w e c] d dd by simp
  with Cons.prems(2) have ok: "authz_ok (db w1)" by (rule authz_protects)
  show ?case
  proof (cases "(name, description, codes) = d")
    case True
    have "grants (db w1) name (listed_codes codes)"
      using seedRole_grants [OF _ Cons.prems(2)] d True by blast
    moreover have "name \<notin> fst ` set ds" using Cons.prems(3) True [symmetric] by simp
    then have "wprotects (\<lambda>r. role_Name r = name) w1 (snd (seed_roles ds w1))" by (intro seed_roles_protects) blast
    ultimately show ?thesis using grants_protected ok rest by (metis snd_conv)
  next
    case False
    with Cons ok rest show ?thesis by auto
  qed
qed simp

lemma Seed_grants:
  assumes "Seed w = (Inr u, w')" and "authz_ok (db w)" and "(name, description, codes) \<in> set SystemRoles"
  shows "grants (db w') name (listed_codes codes)"
proof -
  obtain v w1 where p: "seed_permissions Permissions w = (Inr v, w1)" and r: "seed_roles SystemRoles w1 = (Inr u, w')"
    using assms(1) unfolding Seed_def by (rule bindE_InrE)
  have "wprotects (\<lambda>_. False) w w1" using seed_permissions_protects [of "\<lambda>_. False" w Permissions] p by simp
  with assms(2) have "authz_ok (db w1)" by (rule authz_protects)
  moreover have "distinct (map fst SystemRoles)" by (simp add: SystemRoles_def role_name_defs)
  ultimately show ?thesis using r assms(3) by (intro seed_roles_grants)
qed

text \<open>A seeding that fails leaves every role what it granted.\<close>

lemma protects_weaker: "wprotects S w w' \<Longrightarrow> (\<And>r. S' r \<Longrightarrow> S r) \<Longrightarrow> wprotects S' w w'"
  by (simp add: protects_def)

lemma failed_seedRole:
  assumes s: "seedRole (name, description, codes) w = (Inl e, w')"
  shows "wprotects S w w'"
proof -
  let ?body = "\<lambda>ps. bindE (NewID ''role'') (\<lambda>i.
          bindE (on_db (Roles_Upsert \<lparr>role_ID = i, role_Name = name, role_Description = description,
                                       role_System = True, role_Permissions = []\<rparr>)) (\<lambda>_.
          bindE (on_db (Roles_ByName name)) (\<lambda>stored. on_db (Roles_ReplacePermissions stored ps))))"
  obtain r w1 where res: "wrapE (''seed role '' @ name) (resolve AudienceAdmin codes) w = (r, w1)" by fastforce
  have "wprotects S w (snd (wrapE (''seed role '' @ name) (resolve AudienceAdmin codes) w))"
    by (intro protects_wrapE protects_resolve)
  then have w1: "wprotects S w w1" using res by simp
  show ?thesis
  proof (cases r)
    case Inl
    with s res w1 show ?thesis by (simp add: seedRole_def bindE_def)
  next
    case (Inr ps)
    with s res have "Within (?body ps) w1 = (Inl e, w')" by (simp add: seedRole_def bindE_def)
    then have "\<exists>bs. db w' = (db w1)\<lparr>faults := bs\<rparr>" by (rule Within_InlE) auto
    then have "wprotects S w1 w'" by (auto intro: protects_same)
    with w1 show ?thesis by (rule protects.trans_R)
  qed
qed

lemma seed_roles_each:
  fixes w :: "'p world"
  assumes "seed_roles ds w = (r, w')" and "authz_ok (db w)" and "distinct (map fst ds)"
    and "(name, description, codes) \<in> set ds"
  shows "grants (db w') name (listed_codes codes) \<or> isl r \<and> wprotects (\<lambda>r. role_Name r = name) w w'"
  using assms
proof (induction ds arbitrary: w)
  case (Cons d ds)
  let ?S = "\<lambda>r. role_Name r = name"
  obtain n e c where d: "d = (n, e, c)" by (cases d)
  obtain v w1 where v: "seedRole d w = (v, w1)" by fastforce
  have ok: "authz_ok (db w1)" if "wprotects S w w1" for S using Cons.prems(2) that by (rule authz_protects)
  have later: "wprotects ?S x (snd (seed_roles ds x))" if "n = name" for x :: "'p world"
    using Cons.prems(3) that by (intro seed_roles_protects) (auto simp: d)
  show ?case
  proof (cases v)
    case (Inl e')
    then show ?thesis using Cons.prems(1) v failed_seedRole [of n e c w e' w1 ?S] by (auto simp: d bindE_def)
  next
    case (Inr u)
    then have rest: "seed_roles ds w1 = (r, w')" using Cons.prems(1) v by (simp add: bindE_def)
    have w1: "wprotects (\<lambda>_. False) w w1" using seedRole_protects [of n "\<lambda>_. False" w e c] v d by simp
    show ?thesis
    proof (cases "n = name")
      case True
      then have "codes = c" using Cons.prems(3,4) by (force simp: d)
      then have "grants (db w1) name (listed_codes codes)"
        using seedRole_grants [of n e c w u w1] v Inr d Cons.prems(2) True by simp
      then show ?thesis using grants_protected [OF _ _ ok [OF w1]] later [OF True, of w1] rest by (metis snd_conv)
    next
      case False
      then have "wprotects ?S w w1" using seedRole_protects [of n ?S w e c] v d by simp
      moreover have "(name, description, codes) \<in> set ds" using Cons.prems(4) False by (simp add: d)
      ultimately show ?thesis
        using Cons.IH [OF rest ok [OF w1]] Cons.prems(3) protects.trans_R by (metis distinct.simps(2) list.map(2))
    qed
  qed
qed simp

lemma Seed_each:
  assumes ok: "authz_ok (db w)" and mem: "(name, description, codes) \<in> set SystemRoles" and s: "Seed w = (r, w')"
  shows "grants (db w') name (listed_codes codes) \<or> isl r \<and> (\<forall>C. grants (db w) name C \<longrightarrow> grants (db w') name C)"
proof -
  obtain v w1 where v: "seed_permissions Permissions w = (v, w1)" by fastforce
  have w1: "wprotects S w w1" for S using seed_permissions_protects [of S w Permissions] v by simp
  have kept: "\<forall>C. grants (db w) name C \<longrightarrow> grants (db w') name C" if "wprotects (\<lambda>r. role_Name r = name) w w'"
    using grants_protected that ok by blast
  show ?thesis
  proof (cases v)
    case (Inl e)
    then show ?thesis using s v w1 kept by (auto simp: Seed_def bindE_def)
  next
    case (Inr u)
    then have rest: "seed_roles SystemRoles w1 = (r, w')" using s v by (simp add: Seed_def bindE_def)
    have "distinct (map fst SystemRoles)" by (simp add: SystemRoles_def role_name_defs)
    from seed_roles_each [OF rest authz_protects [OF ok w1] this mem] show ?thesis
      using w1 kept protects.trans_R by blast
  qed
qed

definition role_kept :: "db \<Rightarrow> db \<Rightarrow> Role \<Rightarrow> bool" where
  "role_kept d d' r \<longleftrightarrow> r \<in> set (t_roles d') \<and> granted d' (role_ID r) = granted d (role_ID r)"

text \<open>C19: roles and the catalogue. Whatever statements fail, creating, updating and deleting a role
  and seeding keep ids, names and catalogue entries unique and every grant attached to rows
  that exist. The operations on custom roles leave the row and the grants of every system
  role. Seeding leaves those of every role that is not seeded, and gives each seeded role
  exactly the permissions the code lists for it, the wildcard alone where it is listed; only
  a seeding that reports an error may stop before that, and then the role grants what it
  granted before.\<close>

lemma roles_administration:
  assumes "authz_ok (db w)"
  shows "(\<forall>w'\<in>{snd (CreateRole auditor actor name description codes w),
                snd (UpdateRole auditor actor name description codes w), snd (DeleteRole auditor actor name w)}.
            authz_ok (db w') \<and> (\<forall>r\<in>set (t_roles (db w)). role_System r \<longrightarrow> role_kept (db w) (db w') r)) \<and>
         authz_ok (db (snd (Seed w))) \<and>
         (\<forall>r\<in>set (t_roles (db w)). role_Name r \<notin> {RoleSuperAdmin, RoleOperations, RoleReadOnly} \<longrightarrow>
            role_kept (db w) (db (snd (Seed w))) r) \<and>
         (\<forall>(seeded, _, listed)\<in>set SystemRoles.
            grants (db (snd (Seed w))) seeded (listed_codes listed) \<or>
            isl (fst (Seed w)) \<and> (\<forall>C. grants (db w) seeded C \<longrightarrow> grants (db (snd (Seed w))) seeded C))"
proof -
  have "wprotects (\<lambda>r. role_Name r \<notin> {RoleSuperAdmin, RoleOperations, RoleReadOnly}) w (snd (Seed w))"
    by (rule Seed_protects) (auto simp: SystemRoles_def)
  moreover have "wprotects role_System w (snd (CreateRole auditor actor name description codes w))"
    "wprotects role_System w (snd (UpdateRole auditor actor name description codes w))"
    "wprotects role_System w (snd (DeleteRole auditor actor name w))"
    by (rule CreateRole_protects UpdateRole_protects DeleteRole_protects, simp?)+
  moreover have "case d of (seeded, _, listed) \<Rightarrow> grants (db (snd (Seed w))) seeded (listed_codes listed) \<or>
      isl (fst (Seed w)) \<and> (\<forall>C. grants (db w) seeded C \<longrightarrow> grants (db (snd (Seed w))) seeded C)"
    if "d \<in> set SystemRoles" for d
    using Seed_each [OF assms _ surjective_pairing] that by (cases d) simp
  ultimately show ?thesis using assms unfolding protects_def role_kept_def by simp
qed

section \<open>What an update grants\<close>

lemma EffectivePermissions_cases:
  obtains (failed) "fst (EffectivePermissions name w) = Inl DriverErr"
    | (unknown) "fst (EffectivePermissions name w) = Inr []" "\<forall>r\<in>set (t_roles (db w)). role_Name r \<noteq> name"
    | (role) role ps where "fst (EffectivePermissions name w) = Inr ps" "role \<in> set (t_roles (db w))"
        "role_Name role = name" "set ps = granted (db w) (role_ID role)"
proof -
  let ?first = "base_first t_roles (\<lambda>r. role_Name r = name)"
  have all: "on_db (Roles_WithPermissions name) w = bindE (on_db ?first) (\<lambda>r.
      on_db (bindE statement (\<lambda>_ d. (Inr (preload d r), d)))) w"
    unfolding Roles_WithPermissions_def by (rule on_db_bindE)
  show ?thesis
  proof (cases rule: roles.first_app [of "\<lambda>r. role_Name r = name" w])
    case (failed bs)
    then show ?thesis using all
      by (intro that(1)) (simp add: EffectivePermissions_def handleE_def IsNotFound_def)
  next
    case (missing bs)
    then show ?thesis using all
      by (intro that(2)) (simp_all add: EffectivePermissions_def handleE_def IsNotFound_def find_None_iff)
  next
    case (found bs r)
    note r = find_Some_in_set [OF found(2)]
    show ?thesis
    proof (cases rule: on_db_statement [of "\<lambda>_ d. (Inr (preload d r), d)" "consumed bs w"])
      case (failed cs)
      then show ?thesis using all found
        by (intro that(1)) (simp add: EffectivePermissions_def handleE_def IsNotFound_def)
    next
      case (ran cs)
      let ?ps = "map perm_Code (role_Permissions (preload (db w) r))"
      have "fst (EffectivePermissions name w) = Inr ?ps"
        using all found ran by (simp add: EffectivePermissions_def handleE_def on_db_def preload_def)
      moreover have "set ?ps = granted (db w) (role_ID r)"
        by (auto simp: preload_def granted_def)
      ultimately show ?thesis using r by (intro that(3)) auto
    qed
  qed
qed

lemma UpdateRole_InrE:
  assumes u: "UpdateRole auditor actor name description codes w = (Inr u, w')" and ok: "authz_ok (db w)"
  obtains role ps where "role \<in> set (t_roles (db w))" and "role_Name role = normalizeRoleName name"
    and "catalogue_ok (db w')" and "set ps \<subseteq> set (t_permissions (db w'))"
    and "perm_Code ` set ps = (if PermissionWildcard \<in> set codes then {PermissionWildcard} else set codes)"
    and "t_rolePermissions (db w') = filter (\<lambda>(ri, pi). ri \<noteq> role_ID role) (t_rolePermissions (db w)) @
           map (\<lambda>p. (role_ID role, perm_ID p)) ps"
    and "t_roles (db w') = map (\<lambda>r. if role_ID r = role_ID role
           then role_Description_update (\<lambda>_. trim_space description) r else r) (t_roles (db w))"
proof -
  obtain role w1 where c: "customRole name w = (Inr role, w1)"
    and k1: "bindE (resolve AudienceAdmin codes) (\<lambda>permissions.
      bindE (Within (bindE (on_db (Roles_SetDescription (role_ID role) (trim_space description)))
        (\<lambda>_. on_db (Roles_ReplacePermissions role permissions)))) (\<lambda>_.
      RecordBestEffort auditor (ActorID actor) ''admin'' ''role.updated'' ''role'' (role_ID role)
        (codes_meta codes) [] [])) w1 = (Inr u, w')"
    using u unfolding UpdateRole_def by (rule bindE_InrE)
  obtain ps w2 where r: "resolve AudienceAdmin codes w1 = (Inr ps, w2)"
    and k2: "bindE (Within (bindE (on_db (Roles_SetDescription (role_ID role) (trim_space description)))
        (\<lambda>_. on_db (Roles_ReplacePermissions role ps)))) (\<lambda>_.
      RecordBestEffort auditor (ActorID actor) ''admin'' ''role.updated'' ''role'' (role_ID role)
        (codes_meta codes) [] []) w2 = (Inr u, w')"
    using k1 by (rule bindE_InrE)
  obtain v w3 where i: "Within (bindE (on_db (Roles_SetDescription (role_ID role) (trim_space description)))
        (\<lambda>_. on_db (Roles_ReplacePermissions role ps))) w2 = (Inr v, w3)"
    and a: "RecordBestEffort auditor (ActorID actor) ''admin'' ''role.updated'' ''role'' (role_ID role)
        (codes_meta codes) [] [] w3 = (Inr u, w')"
    using k2 by (rule bindE_InrE)
  obtain bs where w1: "w1 = consumed bs w" and role: "role \<in> set (t_roles (db w))"
    and name: "role_Name role = normalizeRoleName name" using c by (rule customRole_step)
  have ok1: "catalogue_ok (db w1)" using ok w1 by (simp add: authz_ok_def catalogue_ok_def)
  obtain b1 b2 w4 where body: "bindE (on_db (Roles_SetDescription (role_ID role) (trim_space description)))
        (\<lambda>_. on_db (Roles_ReplacePermissions role ps)) (consumed b1 w2) = (Inr v, w4)" and w3: "w3 = consumed b2 w4"
    using i by (rule Within_step)
  obtain x w5 where s: "on_db (Roles_SetDescription (role_ID role) (trim_space description)) (consumed b1 w2) = (Inr x, w5)"
    and p: "on_db (Roles_ReplacePermissions role ps) w5 = (Inr v, w4)" using body by (rule bindE_InrE)
  from s obtain b3 where w5: "w5 = (consumed b1 w2)\<lparr>db := t_roles_update (map (\<lambda>r. if role_ID r = role_ID role
        then role_Description_update (\<lambda>_. trim_space description) r else r)) ((db (consumed b1 w2))\<lparr>faults := b3\<rparr>)\<rparr>"
    unfolding Roles_SetDescription_def by (rule roles.update_step)
  from p obtain b4 where "on_db (\<lambda>d. (Inr (), t_rolePermissions_update (\<lambda>js. filter (\<lambda>(ri, pi). ri \<noteq> role_ID role) js @
        map (\<lambda>p. (role_ID role, perm_ID p)) ps) d)) (consumed b4 w5) = (Inr v, w4)"
    unfolding Roles_ReplacePermissions_def by (rule statement_step)
  then have w4: "w4 = w5\<lparr>db := t_rolePermissions_update (\<lambda>js. filter (\<lambda>(ri, pi). ri \<noteq> role_ID role) js @
        map (\<lambda>p. (role_ID role, perm_ID p)) ps) ((db w5)\<lparr>faults := b4\<rparr>)\<rparr>"
    by (simp add: on_db_pair)
  note trail = only_trail_fields [OF movesD [OF trail_RecordBestEffort a]]
  have perms: "t_permissions (db w') = t_permissions (db w2)"
    and joins: "t_rolePermissions (db w') = filter (\<lambda>(ri, pi). ri \<noteq> role_ID role) (t_rolePermissions (db w2)) @
        map (\<lambda>p. (role_ID role, perm_ID p)) ps"
    and rs: "t_roles (db w') = map (\<lambda>r. if role_ID r = role_ID role
        then role_Description_update (\<lambda>_. trim_space description) r else r) (t_roles (db w))"
    using trail w3 w4 w5 resolve_roles [OF r] w1 by simp_all
  have "t_rolePermissions (db w2) = t_rolePermissions (db w)"
    using only_catalogue_fields(2) [OF movesD [OF catalogue_resolve r]] w1 by simp
  with joins have joins': "t_rolePermissions (db w') = filter (\<lambda>(ri, pi). ri \<noteq> role_ID role) (t_rolePermissions (db w)) @
        map (\<lambda>p. (role_ID role, perm_ID p)) ps" by simp
  have "catalogue_ok (db w')" "set ps \<subseteq> set (t_permissions (db w'))"
    using resolve_InrD(1,2) [OF r ok1] by (simp_all add: catalogue_ok_def perms)
  from that [OF role name this resolve_InrD(3) [OF r ok1, unfolded set_map] joins' rs] show ?thesis .
qed

text \<open>A role grants exactly what it was last given. After a successful update, the next
  authorization check of an administrator with the role either meets a failing database or
  sees exactly the codes of the update (the wildcard alone when it was among them).\<close>

lemma updated_role_grants:
  assumes u: "UpdateRole auditor actor name description codes w = (Inr u, w')" and ok: "authz_ok (db w)"
  shows "fst (EffectivePermissions (normalizeRoleName name) w') = Inl DriverErr \<or>
         (\<exists>ps. fst (EffectivePermissions (normalizeRoleName name) w') = Inr ps \<and>
               set ps = (if PermissionWildcard \<in> set codes then {PermissionWildcard} else set codes))"
  using u ok
proof (rule UpdateRole_InrE)
  fix role ps
  assume role: "role \<in> set (t_roles (db w))" "role_Name role = normalizeRoleName name"
    and cat: "catalogue_ok (db w')" and sub: "set ps \<subseteq> set (t_permissions (db w'))"
    and codes: "perm_Code ` set ps = (if PermissionWildcard \<in> set codes then {PermissionWildcard} else set codes)"
    and joins: "t_rolePermissions (db w') = filter (\<lambda>(ri, pi). ri \<noteq> role_ID role) (t_rolePermissions (db w)) @
           map (\<lambda>p. (role_ID role, perm_ID p)) ps"
    and rs: "t_roles (db w') = map (\<lambda>r. if role_ID r = role_ID role
           then role_Description_update (\<lambda>_. trim_space description) r else r) (t_roles (db w))"
  have grants: "granted (db w') (role_ID role) = perm_Code ` set ps"
  proof -
    have ids: "p = q" if "p \<in> set (t_permissions (db w'))" "q \<in> set ps" "perm_ID p = perm_ID q" for p q
      using cat sub that by (auto simp: catalogue_ok_def distinct_map inj_on_def)
    have "(role_ID role, perm_ID p) \<in> set (t_rolePermissions (db w')) \<longleftrightarrow> p \<in> set ps"
      if "p \<in> set (t_permissions (db w'))" for p
      using ids [OF that] by (auto simp: joins)
    then have "granted (db w') (role_ID role) = {perm_Code p | p. p \<in> set (t_permissions (db w')) \<and> p \<in> set ps}"
      unfolding granted_def by blast
    with sub show ?thesis by blast
  qed
  let ?role = "role_Description_update (\<lambda>_. trim_space description) role"
  have only: "r = ?role" if "r \<in> set (t_roles (db w'))" "role_Name r = normalizeRoleName name" for r
    using that ok role by (auto simp: rs authz_ok_def roles_ok_def distinct_map inj_on_def split: if_splits)
  have there: "?role \<in> set (t_roles (db w'))" using role(1) by (auto simp: rs)
  show ?thesis
  proof (cases rule: EffectivePermissions_cases [of "normalizeRoleName name" w'])
    case unknown
    with there role(2) show ?thesis by auto
  next
    case (role r qs)
    with only [of r] grants codes show ?thesis by auto
  qed simp
qed

definition sample_role :: "string \<Rightarrow> string \<Rightarrow> bool \<Rightarrow> Role" where
  "sample_role i name system =
     \<lparr>role_ID = i, role_Name = name, role_Description = [], role_System = system, role_Permissions = []\<rparr>"

definition sample_roles_world :: "unit world" where
  "sample_roles_world = sample_world\<lparr>db := sample_db\<lparr>
     t_permissions := [\<lparr>perm_ID = ''p1'', perm_Code = ''apps:read'', perm_Audience = AudienceAdmin, perm_Description = []\<rparr>,
                       \<lparr>perm_ID = ''p2'', perm_Code = ''apps:create'', perm_Audience = AudienceAdmin, perm_Description = []\<rparr>],
     t_roles := [sample_role ''r1'' RoleReadOnly True, sample_role ''r2'' ''support'' False],
     t_rolePermissions := [(''r1'', ''p1''), (''r2'', ''p1'')]\<rparr>\<rparr>"

lemma sample_roles_ok: "authz_ok (db sample_roles_world)"
  by (simp add: sample_roles_world_def authz_ok_def catalogue_ok_def roles_ok_def joins_ok_def sample_role_def
      role_name_defs)

lemma roles_administration_witness:
  "role_kept (db sample_roles_world) (db (snd (DeleteRole None None ''read_only'' sample_roles_world)))
     (sample_role ''r1'' RoleReadOnly True) \<and>
   role_kept (db sample_roles_world) (db (snd (Seed sample_roles_world))) (sample_role ''r2'' ''support'' False) \<and>
   grants (db (snd (Seed sample_roles_world))) RoleSuperAdmin {PermissionWildcard}"
proof -
  have mem: "sample_role ''r1'' RoleReadOnly True \<in> set (t_roles (db sample_roles_world))"
    "sample_role ''r2'' ''support'' False \<in> set (t_roles (db sample_roles_world))"
    by (simp_all add: sample_roles_world_def)
  have kind: "role_System (sample_role ''r1'' RoleReadOnly True)"
    "role_Name (sample_role ''r2'' ''support'' False) \<notin> {RoleSuperAdmin, RoleOperations, RoleReadOnly}"
    by (simp_all add: sample_role_def role_name_defs)
  obtain about where seeded: "(RoleSuperAdmin, about, [PermissionWildcard]) \<in> set SystemRoles"
    unfolding SystemRoles_def by (meson list.set_intros(1))
  have ok: "\<not> isl (fst (Seed sample_roles_world))" by code_simp
  note all = roles_administration [OF sample_roles_ok, of None None "''read_only''" "[]" "[]"]
  have "listed_codes [PermissionWildcard] = {PermissionWildcard}" by (simp add: listed_codes_def)
  then show ?thesis using all mem kind bspec [OF conjunct2 [OF conjunct2 [OF conjunct2 [OF all]]] seeded] ok by auto
qed

definition sample_update :: "(err + unit) \<times> unit world" where
  "sample_update = UpdateRole None None '' Support'' ''helpdesk'' [''apps:create''] sample_roles_world"

lemma updated_role_grants_witness:
  "fst (EffectivePermissions (normalizeRoleName '' Support'') (snd sample_update)) = Inl DriverErr \<or>
   (\<exists>ps. fst (EffectivePermissions (normalizeRoleName '' Support'') (snd sample_update)) = Inr ps \<and>
         set ps = {''apps:create''})"
proof -
  have "fst sample_update = Inr ()" by code_simp
  then have "UpdateRole None None '' Support'' ''helpdesk'' [''apps:create''] sample_roles_world = (Inr (), snd sample_update)"
    unfolding sample_update_def by (metis prod.collapse)
  from updated_role_grants [OF this sample_roles_ok] show ?thesis by (simp add: PermissionWildcard_def)
qed

section \<open>Scopes\<close>

definition plain :: "char \<Rightarrow> bool" where
  "plain c \<longleftrightarrow> graphic c \<and> lower_char c = c"

lemma strip_space_graphic: "graphic c \<Longrightarrow> strip_one space_codes (c # s) = None"
  by (rule strip_one_graphic) (auto dest: space_code_ends)

lemma fields_from_word:
  "list_all graphic w \<Longrightarrow> fields_from acc (w @ s) = fields_from (rev w @ acc) s"
  by (induction w arbitrary: acc) (simp_all add: strip_space_graphic)

lemma fields_from_space: "fields_from acc (CHR '' '' # s) = (if acc = [] then GoStrings.fields s else rev acc # GoStrings.fields s)"
  by (simp add: GoStrings.fields_def strip_one_def space_codes_def has_prefix_def)

lemma fields_join:
  "\<forall>w\<in>set ws. w \<noteq> [] \<and> list_all graphic w \<Longrightarrow> GoStrings.fields (join_with '' '' ws) = ws"
proof (induction ws rule: induct_list012)
  case (2 x)
  then show ?case using fields_from_word [of x "[]" "[]"] by (simp add: GoStrings.fields_def)
next
  case (3 x y zs)
  then show ?case using fields_from_word [of x "[]" "CHR '' '' # join_with '' '' (y # zs)"]
    by (simp add: GoStrings.fields_def [of "_ @ _"] fields_from_space del: fields_from.simps)
qed (simp add: GoStrings.fields_def)

lemma to_lower_stable: "list_all (\<lambda>c. plain c \<or> c = CHR '' '') s \<Longrightarrow> to_lower s = s"
  by (induction s) (auto simp: plain_def graphic_def lower_char_def)

lemma plain_join:
  "\<forall>w\<in>set ws. list_all plain w \<Longrightarrow> list_all (\<lambda>c. plain c \<or> c = CHR '' '') (join_with '' '' ws)"
  by (induction ws rule: induct_list012) (auto simp: list_all_iff)

abbreviation scope_codes :: "string list" where
  "scope_codes \<equiv> PermissionWildcard # AppPermissionCodes"

lemma scope_codes_plain: "w \<in> set scope_codes \<Longrightarrow> w \<noteq> [] \<and> list_all plain w"
  by (auto simp: AppPermissionCodes_eq PermissionWildcard_def plain_def graphic_def lower_char_def)

lemma collect_scopes_InrD:
  assumes "collect_scopes out fs = Inr scopes" and "distinct out"
  shows "set scopes = set out \<union> set fs \<and> distinct scopes \<and> set fs \<subseteq> set scope_codes"
  using assms by (induction out fs rule: collect_scopes.induct) (auto split: if_splits)

lemma collect_scopes_distinct:
  "distinct (out @ fs) \<Longrightarrow> set fs \<subseteq> set scope_codes \<Longrightarrow> collect_scopes out fs = Inr (out @ fs)"
  by (induction out fs rule: collect_scopes.induct) auto

text \<open>Scopes. A list of scopes is accepted exactly when it names at least one and every name,
  whatever its case, is the wildcard or an application permission of the catalogue; the
  stored text lists each once, and checking it again gives it back.\<close>

lemma app_scopes:
  "(isl (ValidateAppScopes scopes) \<longleftrightarrow>
      GoStrings.fields (to_lower scopes) = [] \<or> \<not> set (GoStrings.fields (to_lower scopes)) \<subseteq> set scope_codes) \<and>
   (\<forall>stored. ValidateAppScopes scopes = Inr stored \<longrightarrow>
      distinct (GoStrings.fields stored) \<and>
      set (GoStrings.fields stored) = set (GoStrings.fields (to_lower scopes)) \<and>
      ValidateAppScopes stored = Inr stored)"
proof (intro conjI allI impI)
  let ?fs = "GoStrings.fields (to_lower scopes)"
  have refused: "\<not> isl (collect_scopes out fs) \<longleftrightarrow> set fs \<subseteq> set scope_codes" for out fs
    by (induction out fs rule: collect_scopes.induct) auto
  show "isl (ValidateAppScopes scopes) \<longleftrightarrow> ?fs = [] \<or> \<not> set ?fs \<subseteq> set scope_codes"
  proof (cases "collect_scopes [] ?fs")
    case (Inl e)
    then have "\<not> set ?fs \<subseteq> set scope_codes" using refused [of "[]" ?fs] by (simp del: set_simps)
    with Inl show ?thesis by (simp add: ValidateAppScopes_def Let_def del: set_simps)
  next
    case (Inr ws)
    then have "set ?fs \<subseteq> set scope_codes" using refused [of "[]" ?fs] by (simp del: set_simps)
    with Inr show ?thesis by (simp add: ValidateAppScopes_def Let_def del: set_simps)
  qed
  fix stored
  assume v: "ValidateAppScopes scopes = Inr stored"
  then have ne: "?fs \<noteq> []" by (auto simp: ValidateAppScopes_def)
  then have "map_sum id (join_with '' '') (collect_scopes [] ?fs) = Inr stored"
    using v by (simp add: ValidateAppScopes_def Let_def)
  then obtain ws where ws: "collect_scopes [] ?fs = Inr ws" "stored = join_with '' '' ws"
    by (cases "collect_scopes [] ?fs") auto
  from collect_scopes_InrD [OF ws(1)] have all: "set ws = set ?fs" "distinct ws" "set ws \<subseteq> set scope_codes" by auto
  then have plain: "\<forall>w\<in>set ws. w \<noteq> [] \<and> list_all plain w" using scope_codes_plain by blast
  then have fields: "GoStrings.fields stored = ws"
    unfolding ws(2) by (intro fields_join) (auto simp: plain_def list_all_iff)
  have lower: "to_lower stored = stored"
    unfolding ws(2) by (rule to_lower_stable, rule plain_join) (use plain in blast)
  show "distinct (GoStrings.fields stored)" "set (GoStrings.fields stored) = set ?fs"
    using all fields by simp_all
  have "ws \<noteq> []" using all(1) ne by force
  then show "ValidateAppScopes stored = Inr stored"
    using collect_scopes_distinct [of "[]" ws] all
    by (simp add: ValidateAppScopes_def lower fields ws(2) [symmetric])
qed

lemma app_scopes_witness:
  "\<exists>stored. ValidateAppScopes '' Transactions:READ *  transactions:read'' = Inr stored \<and>
     set (GoStrings.fields stored) = {''transactions:read'', ''*''} \<and> ValidateAppScopes stored = Inr stored"
proof -
  have v: "ValidateAppScopes '' Transactions:READ *  transactions:read'' = Inr ''transactions:read *''" by code_simp
  have f: "GoStrings.fields (to_lower '' Transactions:READ *  transactions:read'') =
      [''transactions:read'', ''*'', ''transactions:read'']" by code_simp
  show ?thesis
    using app_scopes [of "'' Transactions:READ *  transactions:read''"] v unfolding f by auto
qed

end
