(* ===== verification/IdentityFacts.thy ===== *)
theory IdentityFacts
  imports Middleware AuthzFacts
begin

text \<open>
  What the tokens prove: a request passes only for a session, a credential, an application or
  an administrator that are live in the database at that moment, so revoking any of them takes
  effect on the next request; a refresh token works once; and guessing passwords locks the
  account.
\<close>

section \<open>Running the operations\<close>

lemma orE_InrD: "orE m e w = (Inr x, w') \<Longrightarrow> m w = (Inr x, w')"
  by (cases "m w") (auto simp: orE_def split: sum.splits)

lemma orE_Inl: "m w = (Inl e', w') \<Longrightarrow> orE m e w = (Inl e, w')"
  by (simp add: orE_def)

lemma orE_Inr: "m w = (Inr x, w') \<Longrightarrow> orE m e w = (Inr x, w')"
  by (simp add: orE_def)

declare bindE_Now [simp]

lemma EffectivePermissions_state:
  "\<exists>bs. snd (EffectivePermissions name w) = consumed bs w"
proof -
  let ?first = "base_first t_roles (\<lambda>r. role_Name r = name)"
  have all: "on_db (Roles_WithPermissions name) w = bindE (on_db ?first) (\<lambda>r.
      on_db (bindE statement (\<lambda>_ d. (Inr (preload d r), d)))) w"
    unfolding Roles_WithPermissions_def by (rule on_db_bindE)
  have "\<exists>bs. snd (on_db (Roles_WithPermissions name) w) = consumed bs w"
  proof (cases rule: roles.first_app [of "\<lambda>r. role_Name r = name" w])
    case (found bs r)
    then show ?thesis using all
      by (cases rule: on_db_statement [of "\<lambda>_ d. (Inr (preload d r), d)" "consumed bs w"])
         (auto simp: on_db_def)
  qed (use all in \<open>auto\<close>)
  then show ?thesis
    by (cases "on_db (Roles_WithPermissions name) w") (auto simp: EffectivePermissions_def split: sum.split)
qed

section \<open>What a request that passes proves\<close>

lemma fromCredential_InrE:
  assumes "fromCredential cred w = (Inr i, w')"
  obtains bs where "w' = consumed bs w" and "id_Credential i = cred" and "ac_Status cred = active"
    and "\<forall>e. ac_ExpiresAt cred = Some e \<longrightarrow> e > now w" and "id_App i \<in> set (t_apps (db w))"
    and "app_ID (id_App i) = ac_AppID cred" and "app_Status (id_App i) = active"
proof -
  from assms have ok: "\<not> (ac_Status cred \<noteq> active \<or> (case ac_ExpiresAt cred of None \<Rightarrow> False | Some e \<Rightarrow> \<not> e > now w))"
    and k: "bindE (orE (on_db (Apps_ActiveByID (ac_AppID cred))) (Msg ''app inactive''))
        (\<lambda>app. returnE \<lparr>id_App = app, id_Credential = cred\<rparr>) w = (Inr i, w')"
    by (simp_all add: fromCredential_def bindE_failIf split: if_splits)
  from k obtain app w1 where o_a: "orE (on_db (Apps_ActiveByID (ac_AppID cred))) (Msg ''app inactive'') w = (Inr app, w1)"
    and r: "returnE \<lparr>id_App = app, id_Credential = cred\<rparr> w1 = (Inr i, w')"
    by (rule bindE_InrE)
  note a = orE_InrD [OF o_a]
  from a obtain bs where b: "w1 = consumed bs w"
    "List.find (\<lambda>a. app_ID a = ac_AppID cred \<and> app_Status a = active) (t_apps (db w)) = Some app"
    unfolding Apps_ActiveByID_def by (rule apps.first_step)
  from r have i: "w' = w1" "i = \<lparr>id_App = app, id_Credential = cred\<rparr>" by simp_all
  show ?thesis
  proof (rule that)
    show "w' = consumed bs w" using i(1) b(1) by simp
    show "id_Credential i = cred" by (simp add: i)
    show "ac_Status cred = active" "\<forall>e. ac_ExpiresAt cred = Some e \<longrightarrow> e > now w"
      using ok by (auto split: option.splits)
    show "id_App i \<in> set (t_apps (db w))" "app_ID (id_App i) = ac_AppID cred" "app_Status (id_App i) = active"
      using find_Some_in_set [OF b(2)] by (simp_all add: i)
  qed
qed

lemma app_identity_InrE:
  assumes "app_identity appID credentialID w = (Inr i, w')"
  obtains bs where "w' = consumed bs w" and "id_Credential i \<in> set (t_appCredentials (db w))"
    and "ac_ID (id_Credential i) = credentialID" and "ac_AppID (id_Credential i) = appID"
    and "ac_Status (id_Credential i) = active"
    and "\<forall>e. ac_ExpiresAt (id_Credential i) = Some e \<longrightarrow> e > now w"
    and "id_App i \<in> set (t_apps (db w))" and "app_ID (id_App i) = appID" and "app_Status (id_App i) = active"
proof -
  from assms obtain cred w1 where c: "on_db (AppCredentials_ActiveInApp appID credentialID) w = (Inr cred, w1)"
    and f: "fromCredential cred w1 = (Inr i, w')"
    by (auto simp: app_identity_def bindE_failIf split: if_splits elim!: bindE_InrE dest!: orE_InrD)
  from c obtain bs where b: "w1 = consumed bs w" "List.find (\<lambda>c. ac_ID c = credentialID \<and> ac_AppID c = appID \<and>
      ac_Status c = active) (t_appCredentials (db w)) = Some cred"
    unfolding AppCredentials_ActiveInApp_def by (rule appCredentials.first_step)
  note cred = find_Some_in_set [OF b(2)]
  from f show ?thesis
  proof (rule fromCredential_InrE)
    fix cs
    assume "w' = consumed cs w1" "id_Credential i = cred" "ac_Status cred = active"
      "\<forall>e. ac_ExpiresAt cred = Some e \<longrightarrow> e > now w1" "id_App i \<in> set (t_apps (db w1))"
      "app_ID (id_App i) = ac_AppID cred" "app_Status (id_App i) = active"
    note f = this
    show ?thesis
      by (rule that [of cs]) (use f b(1) cred in simp_all)
  qed
qed

lemma app_AuthenticateClaims_InrE:
  assumes "app_AuthenticateClaims A (Some c) w = (Inr i, w')"
  obtains bs cs s where "w' = consumed cs w" and "tc_SubjectType c = ''app''" and "tc_TokenType c = ''access''"
    and "s \<in> set (t_appSessions (db w))" and "aps_AppID s = tc_SubjectID c" and "aps_CredentialID s = tc_CredentialID c"
    and "aps_AccessTokenHash s = auth_sha256 A (tc_TokenID c)" and "aps_ExpiresAt s > now w" and "aps_RevokedAt s = None"
    and "app_identity (tc_SubjectID c) (tc_CredentialID c) (consumed bs w) = (Inr i, w')"
proof -
  from assms have ok: "tc_SubjectType c = ''app''" "tc_TokenType c = ''access''"
    and k: "bindE (orE (on_db (AppSessions_Live (tc_SubjectID c) (tc_CredentialID c) (auth_sha256 A (tc_TokenID c)) (now w)))
        (Msg ''invalid app session'')) (\<lambda>_. app_identity (tc_SubjectID c) (tc_CredentialID c)) w = (Inr i, w')"
    by (simp_all add: app_AuthenticateClaims_def bindE_failIf split: if_splits)
  from k obtain s w1 where o_s: "orE (on_db (AppSessions_Live (tc_SubjectID c) (tc_CredentialID c)
        (auth_sha256 A (tc_TokenID c)) (now w))) (Msg ''invalid app session'') w = (Inr s, w1)"
    and f: "app_identity (tc_SubjectID c) (tc_CredentialID c) w1 = (Inr i, w')" by (rule bindE_InrE)
  from orE_InrD [OF o_s] obtain bs where b: "w1 = consumed bs w" "List.find (\<lambda>s. aps_AppID s = tc_SubjectID c \<and>
      aps_CredentialID s = tc_CredentialID c \<and> aps_AccessTokenHash s = auth_sha256 A (tc_TokenID c) \<and>
      aps_ExpiresAt s > now w \<and> aps_RevokedAt s = None) (t_appSessions (db w)) = Some s"
    unfolding AppSessions_Live_def by (rule appSessions.first_step)
  from f obtain cs where "w' = consumed cs w1" by (rule app_identity_InrE)
  with b(1) have w': "w' = consumed cs w" by simp
  show ?thesis
    by (rule that [where s = s, OF w' ok _ _ _ _ _ _ f [unfolded b(1)]]) (use find_Some_in_set [OF b(2)] in simp_all)
qed

text \<open>C15: a guarded application request. A request passes the checks in front of a route only with
  a token the signature check accepts, of an application access token, while a session with
  the token's hash is live, its credential is active, unexpired and of the same application,
  the application is active, and the credential's stored scopes, not the token's, hold the
  route's scope or the wildcard. Passing changes nothing.\<close>

lemma app_request_authorized:
  assumes "app_route A scope authorization w = (Inr i, w')"
  shows "\<exists>j c s bs.
    auth_parse A (now w) (BearerToken authorization) = Inr j \<and> c = claimsFrom j \<and>
    tc_SubjectType c = ''app'' \<and> tc_TokenType c = ''access'' \<and>
    s \<in> set (t_appSessions (db w)) \<and> aps_AccessTokenHash s = auth_sha256 A (tc_TokenID c) \<and>
    aps_AppID s = app_ID (id_App i) \<and> aps_CredentialID s = ac_ID (id_Credential i) \<and>
    aps_ExpiresAt s > now w \<and> aps_RevokedAt s = None \<and>
    id_Credential i \<in> set (t_appCredentials (db w)) \<and> ac_Status (id_Credential i) = active \<and>
    (\<forall>e. ac_ExpiresAt (id_Credential i) = Some e \<longrightarrow> e > now w) \<and>
    ac_AppID (id_Credential i) = app_ID (id_App i) \<and>
    id_App i \<in> set (t_apps (db w)) \<and> app_Status (id_App i) = active \<and>
    (scope \<in> set (GoStrings.fields (ac_Scopes (id_Credential i))) \<or>
     PermissionWildcard \<in> set (GoStrings.fields (ac_Scopes (id_Credential i)))) \<and>
    w' = consumed bs w"
proof -
  from assms have auth: "WithAppBearer A authorization w = (Inr i, w')"
    and scope: "granted_to (GoStrings.fields (ac_Scopes (id_Credential i))) scope"
    by (auto simp: app_route_def RequireAppScope_def split: prod.splits sum.splits if_splits)
  from auth obtain c where v: "Verify A (BearerToken authorization) w = (Inr c, w)"
    and r: "app_AuthenticateClaims A (Some c) w = (Inr i, w')"
    by (auto simp: WithAppBearer_def authenticate_def Verify_def split: prod.splits sum.splits)
  from v obtain j where j: "auth_parse A (now w) (BearerToken authorization) = Inr j" "c = claimsFrom j"
    by (cases "auth_parse A (now w) (BearerToken authorization)") (auto simp: Verify_def)
  from r show ?thesis
  proof (rule app_AuthenticateClaims_InrE)
    fix bs cs s
    assume s: "w' = consumed cs w" "tc_SubjectType c = ''app''" "tc_TokenType c = ''access''"
      "s \<in> set (t_appSessions (db w))" "aps_AppID s = tc_SubjectID c" "aps_CredentialID s = tc_CredentialID c"
      "aps_AccessTokenHash s = auth_sha256 A (tc_TokenID c)" "aps_ExpiresAt s > now w" "aps_RevokedAt s = None"
      and "app_identity (tc_SubjectID c) (tc_CredentialID c) (consumed bs w) = (Inr i, w')"
    from this(10) show ?thesis
    proof (rule app_identity_InrE)
      fix ds
      assume "id_Credential i \<in> set (t_appCredentials (db (consumed bs w)))" "ac_ID (id_Credential i) = tc_CredentialID c"
        "ac_AppID (id_Credential i) = tc_SubjectID c" "ac_Status (id_Credential i) = active"
        "\<forall>e. ac_ExpiresAt (id_Credential i) = Some e \<longrightarrow> e > now (consumed bs w)"
        "id_App i \<in> set (t_apps (db (consumed bs w)))" "app_ID (id_App i) = tc_SubjectID c" "app_Status (id_App i) = active"
      note i = this
      show ?thesis
        by (rule exI [of _ j], rule exI [of _ c], rule exI [of _ s], rule exI [of _ cs])
           (use j s i scope in \<open>simp add: granted_to_iff\<close>)
    qed
  qed
qed

section \<open>Revocation\<close>

lemma trail_auditChange: "moves only_trail (auditChange A actor action resource i meta)"
  unfolding auditChange_def
  by (auto intro: only_trail.moves_intros trail_RecordBestEffort split: option.split)

lemma RevokeCredential_InrD:
  assumes "RevokeCredential A actor appID i w = (Inr u, w')"
  shows "c \<in> set (t_appCredentials (db w')) \<Longrightarrow> ac_ID c = i \<Longrightarrow> ac_AppID c = appID \<Longrightarrow> ac_Status c = ''revoked''"
    and "s \<in> set (t_appSessions (db w')) \<Longrightarrow> aps_CredentialID s = i \<Longrightarrow> aps_RevokedAt s \<noteq> None"
proof -
  obtain x w1 where t: "Within (bindE (on_db (AppCredentials_Revoke appID i)) (\<lambda>_.
       bindE Now (\<lambda>t. on_db (AppSessions_RevokeForCredential i t)))) w = (Inr x, w1)"
    and a: "auditChange A actor ''app_credential.revoked'' ''app_credential'' i (Some [(''app_id'', GStr appID)]) w1 = (Inr u, w')"
    using assms unfolding RevokeCredential_def by (rule bindE_InrE)
  obtain b1 b2 w2 where body: "bindE (on_db (AppCredentials_Revoke appID i)) (\<lambda>_.
       bindE Now (\<lambda>t. on_db (AppSessions_RevokeForCredential i t))) (consumed b1 w) = (Inr x, w2)" and w1: "w1 = consumed b2 w2"
    using t by (rule Within_step)
  obtain y w3 where r: "on_db (AppCredentials_Revoke appID i) (consumed b1 w) = (Inr y, w3)"
    and k: "bindE Now (\<lambda>t. on_db (AppSessions_RevokeForCredential i t)) w3 = (Inr x, w2)"
    using body by (rule bindE_InrE)
  from r obtain cs where w3: "w3 = (consumed b1 w)\<lparr>db := t_appCredentials_update (map (\<lambda>c. if ac_ID c = i \<and> ac_AppID c = appID
      then ac_Status_update (\<lambda>_. ''revoked'') c else c)) ((db (consumed b1 w))\<lparr>faults := cs\<rparr>)\<rparr>"
    unfolding AppCredentials_Revoke_def by (rule appCredentials.update_step)
  have "on_db (AppSessions_RevokeForCredential i (now w3)) w3 = (Inr x, w2)" using k by simp
  then obtain ds where w2: "w2 = w3\<lparr>db := t_appSessions_update (map (\<lambda>s. if aps_CredentialID s = i \<and> aps_RevokedAt s = None
      then aps_RevokedAt_update (\<lambda>_. Some (now w3)) s else s)) ((db w3)\<lparr>faults := ds\<rparr>)\<rparr>"
    unfolding AppSessions_RevokeForCredential_def by (rule appSessions.touch_step)
  note trail = only_trail_fields [OF movesD [OF trail_auditChange a]]
  have "t_appCredentials (db w') = map (\<lambda>c. if ac_ID c = i \<and> ac_AppID c = appID
      then ac_Status_update (\<lambda>_. ''revoked'') c else c) (t_appCredentials (db w))"
    "t_appSessions (db w') = map (\<lambda>s. if aps_CredentialID s = i \<and> aps_RevokedAt s = None
      then aps_RevokedAt_update (\<lambda>_. Some (now w3)) s else s) (t_appSessions (db w))"
    using trail(7,8) by (simp_all add: w1 w2 w3)
  note tables = this
  have "\<forall>c\<in>set (t_appCredentials (db w')). ac_ID c = i \<longrightarrow> ac_AppID c = appID \<longrightarrow> ac_Status c = ''revoked''"
    "\<forall>s\<in>set (t_appSessions (db w')). aps_CredentialID s = i \<longrightarrow> aps_RevokedAt s \<noteq> None"
    unfolding tables ball_map by simp_all
  then show "c \<in> set (t_appCredentials (db w')) \<Longrightarrow> ac_ID c = i \<Longrightarrow> ac_AppID c = appID \<Longrightarrow> ac_Status c = ''revoked''"
    and "s \<in> set (t_appSessions (db w')) \<Longrightarrow> aps_CredentialID s = i \<Longrightarrow> aps_RevokedAt s \<noteq> None" by blast+
qed

lemma ValidateClientCredentials_InrD:
  assumes "ValidateClientCredentials A clientID secret w = (Inr i, w')"
  shows "id_Credential i \<in> set (t_appCredentials (db w)) \<and> ac_Status (id_Credential i) = active \<and>
         ac_ClientID (id_Credential i) = clientID \<and> VerifyPassword A (ac_ClientSecretHash (id_Credential i)) secret"
proof -
  from assms obtain cred w1 w2 u where c: "on_db (AppCredentials_ActiveByClientID clientID) w = (Inr cred, w1)"
    and v: "failIf (\<not> VerifyPassword A (ac_ClientSecretHash cred) secret) (Msg ''invalid client credentials'') w1 = (Inr u, w2)"
    and f: "fromCredential cred w2 = (Inr i, w')"
    by (auto simp: ValidateClientCredentials_def bindE_failIf split: if_splits elim!: bindE_InrE dest!: orE_InrD)
  from c obtain bs where "w1 = consumed bs w" and
    q: "List.find (\<lambda>c. ac_ClientID c = clientID \<and> ac_Status c = active) (t_appCredentials (db w)) = Some cred"
    unfolding AppCredentials_ActiveByClientID_def by (rule appCredentials.first_step)
  from f have "id_Credential i = cred" by (rule fromCredential_InrE)
  with find_Some_in_set [OF q] failIf_InrD [OF v] show ?thesis by simp
qed

lemma app_RefreshToken_InrE:
  assumes "app_RefreshToken A raw w = (Inr response, w')"
  obtains j s bs i w1 where "auth_parse A (now w) raw = Inr j"
    and "tc_SubjectType (claimsFrom j) = ''app''" and "tc_TokenType (claimsFrom j) = ''refresh''"
    and "List.find (\<lambda>s. aps_AppID s = tc_SubjectID (claimsFrom j) \<and> aps_CredentialID s = tc_CredentialID (claimsFrom j) \<and>
           aps_RefreshTokenHash s = auth_sha256 A (tc_TokenID (claimsFrom j)) \<and> aps_ExpiresAt s > now w \<and>
           aps_RevokedAt s = None) (t_appSessions (db w)) = Some s"
    and "app_identity (tc_SubjectID (claimsFrom j)) (tc_CredentialID (claimsFrom j)) (consumed bs w) = (Inr i, w1)"
    and "app_issue A i (Some s) w1 = (Inr response, w')"
proof -
  obtain c w0 where v: "orE (Verify A raw) (Msg ''invalid app refresh token'') w = (Inr c, w0)"
    and k: "bindE (failIf (tc_SubjectType c \<noteq> ''app'' \<or> tc_TokenType c \<noteq> ''refresh'') (Msg ''invalid app refresh token'')) (\<lambda>_.
     bindE Now (\<lambda>t.
     bindE (orE (on_db (AppSessions_LiveByRefresh (tc_SubjectID c) (tc_CredentialID c)
                          (auth_sha256 A (tc_TokenID c)) t)) (Msg ''invalid app refresh session'')) (\<lambda>session.
     bindE (app_identity (tc_SubjectID c) (tc_CredentialID c)) (\<lambda>i.
     app_issue A i (Some session))))) w0 = (Inr response, w')"
    using assms unfolding app_RefreshToken_def by (rule bindE_InrE)
  from orE_InrD [OF v] obtain j where j: "auth_parse A (now w) raw = Inr j" "c = claimsFrom j" "w0 = w"
    by (cases "auth_parse A (now w) raw") (auto simp: Verify_def)
  from k have ok: "tc_SubjectType c = ''app''" "tc_TokenType c = ''refresh''"
    and k2: "bindE (orE (on_db (AppSessions_LiveByRefresh (tc_SubjectID c) (tc_CredentialID c)
                          (auth_sha256 A (tc_TokenID c)) (now w))) (Msg ''invalid app refresh session'')) (\<lambda>session.
     bindE (app_identity (tc_SubjectID c) (tc_CredentialID c)) (\<lambda>i.
     app_issue A i (Some session))) w = (Inr response, w')"
    by (simp_all add: bindE_failIf j(3) split: if_splits)
  from k2 obtain s w2 where l: "orE (on_db (AppSessions_LiveByRefresh (tc_SubjectID c) (tc_CredentialID c)
                          (auth_sha256 A (tc_TokenID c)) (now w))) (Msg ''invalid app refresh session'') w = (Inr s, w2)"
    and k3: "bindE (app_identity (tc_SubjectID c) (tc_CredentialID c)) (\<lambda>i. app_issue A i (Some s)) w2 = (Inr response, w')"
    by (rule bindE_InrE)
  from orE_InrD [OF l] obtain bs where b: "w2 = consumed bs w" "List.find (\<lambda>s. aps_AppID s = tc_SubjectID c \<and>
      aps_CredentialID s = tc_CredentialID c \<and> aps_RefreshTokenHash s = auth_sha256 A (tc_TokenID c) \<and>
      aps_ExpiresAt s > now w \<and> aps_RevokedAt s = None) (t_appSessions (db w)) = Some s"
    unfolding AppSessions_LiveByRefresh_def by (rule appSessions.first_step)
  from k3 obtain i w1 where i: "app_identity (tc_SubjectID c) (tc_CredentialID c) w2 = (Inr i, w1)"
    and r: "app_issue A i (Some s) w1 = (Inr response, w')" by (rule bindE_InrE)
  show ?thesis by (rule that [OF j(1) ok [unfolded j(2)] b(2) [unfolded j(2)] i [unfolded j(2) b(1)] r])
qed

text \<open>C16: revocation is immediate. Once a credential is revoked, and as long as the credentials are
  not edited again, no token and no secret authenticates it: not an access token issued
  before, not a refresh token, not the client secret; and every session of it is revoked.\<close>

lemma revoked_credential_refused:
  assumes "RevokeCredential A actor appID i w = (Inr u, w')"
    and "t_appCredentials (db v) = t_appCredentials (db w')"
  shows "(\<forall>x. fst (app_AuthenticateClaims A c v) = Inr x \<or> fst (ValidateClientCredentials A clientID secret v) = Inr x \<longrightarrow>
              (ac_AppID (id_Credential x), ac_ID (id_Credential x)) \<noteq> (appID, i)) \<and>
         (\<forall>j. auth_parse A (now v) raw = Inr j \<and> tc_SubjectID (claimsFrom j) = appID \<and>
              tc_CredentialID (claimsFrom j) = i \<longrightarrow> isl (fst (app_RefreshToken A raw v))) \<and>
         (\<forall>s\<in>set (t_appSessions (db w')). aps_CredentialID s = i \<longrightarrow> aps_RevokedAt s \<noteq> None)"
proof -
  have dead: "\<not> (cred \<in> set (t_appCredentials (db v)) \<and> ac_ID cred = i \<and> ac_AppID cred = appID \<and> ac_Status cred = active)" for cred
    using RevokeCredential_InrD(1) [OF assms(1), of cred] assms(2) by (auto simp: active_def)
  show ?thesis
  proof (intro conjI allI impI ballI)
    fix x
    assume "fst (app_AuthenticateClaims A c v) = Inr x \<or> fst (ValidateClientCredentials A clientID secret v) = Inr x"
    then have "id_Credential x \<in> set (t_appCredentials (db v)) \<and> ac_Status (id_Credential x) = active"
    proof
      assume "fst (app_AuthenticateClaims A c v) = Inr x"
      then obtain v' c' where "app_AuthenticateClaims A (Some c') v = (Inr x, v')" "c = Some c'"
        by (cases "app_AuthenticateClaims A c v"; cases c) (auto simp: app_AuthenticateClaims_def)
      from this(1) obtain bs where "app_identity (tc_SubjectID c') (tc_CredentialID c') (consumed bs v) = (Inr x, v')"
        by (rule app_AuthenticateClaims_InrE)
      then show ?thesis by (rule app_identity_InrE) simp
    next
      assume "fst (ValidateClientCredentials A clientID secret v) = Inr x"
      then obtain v' where "ValidateClientCredentials A clientID secret v = (Inr x, v')"
        by (cases "ValidateClientCredentials A clientID secret v") auto
      then show ?thesis by (auto dest: ValidateClientCredentials_InrD)
    qed
    then show "(ac_AppID (id_Credential x), ac_ID (id_Credential x)) \<noteq> (appID, i)" using dead by auto
  next
    fix j
    assume j: "auth_parse A (now v) raw = Inr j \<and> tc_SubjectID (claimsFrom j) = appID \<and> tc_CredentialID (claimsFrom j) = i"
    show "isl (fst (app_RefreshToken A raw v))"
    proof (cases "app_RefreshToken A raw v")
      case (Pair r v')
      show ?thesis
      proof (cases r)
        case (Inr response)
        with Pair have "app_RefreshToken A raw v = (Inr response, v')" by simp
        then obtain j' x v1 bs where "auth_parse A (now v) raw = Inr j'"
          and f: "app_identity (tc_SubjectID (claimsFrom j')) (tc_CredentialID (claimsFrom j')) (consumed bs v) = (Inr x, v1)"
          by (rule app_RefreshToken_InrE)
        with j have eq: "j' = j" by simp
        from f show ?thesis unfolding eq by (rule app_identity_InrE) (use j dead in auto)
      qed (use Pair in simp)
    qed
  next
    fix s
    assume "s \<in> set (t_appSessions (db w'))" "aps_CredentialID s = i"
    then show "aps_RevokedAt s \<noteq> None" by (rule RevokeCredential_InrD(2) [OF assms(1)])
  qed
qed

section \<open>Refresh tokens\<close>

lemma Issue_InrD:
  assumes "Issue A claims ttl w = (Inr (token, c), w')" and "tc_TokenID claims = []"
  shows "tc_TokenID c = withPrefix ''tok'' (uuid_at w (uuid_n w)) \<and> w' = w\<lparr>uuid_n := Suc (uuid_n w)\<rparr>"
proof -
  let ?c = "claims\<lparr>tc_IssuedAt := unix (now w), tc_ExpiresAt := unix (now w + ttl),
    tc_TokenID := withPrefix ''tok'' (uuid_at w (uuid_n w))\<rparr>"
  have "bindE (liftE (auth_sign A (claims_jwt ?c))) (\<lambda>signed. returnE (signed, ?c)) (w\<lparr>uuid_n := Suc (uuid_n w)\<rparr>) =
      (Inr (token, c), w')"
    using assms by (simp add: Issue_def NewID_def Let_def)
  then have "c = ?c" "w' = w\<lparr>uuid_n := Suc (uuid_n w)\<rparr>"
    by (auto simp: bindE_liftE split: sum.splits)
  then show ?thesis by simp
qed

lemma issueTokenPair_InrD:
  assumes "issueTokenPair A claims w = (Inr (response, ac, rc), w')" and "tc_TokenID claims = []"
  shows "tc_TokenID ac = withPrefix ''tok'' (uuid_at w (uuid_n w)) \<and>
         tc_TokenID rc = withPrefix ''tok'' (uuid_at w (Suc (uuid_n w))) \<and> w' = w\<lparr>uuid_n := Suc (Suc (uuid_n w))\<rparr>"
proof -
  obtain x w1 where a: "Issue A (claims\<lparr>tc_TokenType := ''access''\<rparr>) (auth_accessTTL A) w = (Inr x, w1)"
    and k: "(case x of (access, ac) \<Rightarrow> bindE (Issue A (claims\<lparr>tc_TokenType := ''refresh''\<rparr>) (auth_refreshTTL A)) (\<lambda>(refresh, rc).
     returnE (\<lparr>tr_AccessToken = access, tr_RefreshToken = refresh, tr_TokenType = ''Bearer'',
               tr_ExpiresIn = auth_accessTTL A div second\<rparr>, ac, rc))) w1 = (Inr (response, ac, rc), w')"
    using assms(1) unfolding issueTokenPair_def by (rule bindE_InrE)
  obtain access ac1 where x: "x = (access, ac1)" by (cases x)
  have "bindE (Issue A (claims\<lparr>tc_TokenType := ''refresh''\<rparr>) (auth_refreshTTL A)) (\<lambda>(refresh, rc).
     returnE (\<lparr>tr_AccessToken = access, tr_RefreshToken = refresh, tr_TokenType = ''Bearer'',
               tr_ExpiresIn = auth_accessTTL A div second\<rparr>, ac1, rc)) w1 = (Inr (response, ac, rc), w')"
    using k unfolding x by simp
  then obtain y w2 where b: "Issue A (claims\<lparr>tc_TokenType := ''refresh''\<rparr>) (auth_refreshTTL A) w1 = (Inr y, w2)"
    and r: "(case y of (refresh, rc) \<Rightarrow>
     returnE (\<lparr>tr_AccessToken = access, tr_RefreshToken = refresh, tr_TokenType = ''Bearer'',
               tr_ExpiresIn = auth_accessTTL A div second\<rparr>, ac1, rc)) w2 = (Inr (response, ac, rc), w')"
    by (rule bindE_InrE)
  obtain refresh rc1 where y: "y = (refresh, rc1)" by (cases y)
  have "ac = ac1" "rc = rc1" "w' = w2" using r unfolding y by simp_all
  with Issue_InrD [OF a [unfolded x]] Issue_InrD [OF b [unfolded y]] assms(2) show ?thesis by simp
qed

lemma AppSessions_Rotate_step:
  assumes "on_db (AppSessions_Rotate i previous s) w = (Inr u, w')"
  shows "t_appSessions (db w') = map (\<lambda>r. if aps_ID r = i \<and> aps_RefreshTokenHash r = previous
           then r\<lparr>aps_AccessTokenHash := aps_AccessTokenHash s, aps_RefreshTokenHash := aps_RefreshTokenHash s,
                  aps_ExpiresAt := aps_ExpiresAt s\<rparr> else r) (t_appSessions (db w))"
proof -
  let ?m = "\<lambda>r. aps_ID r = i \<and> aps_RefreshTokenHash r = previous"
  let ?f = "\<lambda>r. if ?m r then r\<lparr>aps_AccessTokenHash := aps_AccessTokenHash s,
      aps_RefreshTokenHash := aps_RefreshTokenHash s, aps_ExpiresAt := aps_ExpiresAt s\<rparr> else r"
  obtain bs where "on_db (\<lambda>d.
       let matches = ?m in
       if list_ex (\<lambda>r. \<not> matches r \<and> (aps_AccessTokenHash r = aps_AccessTokenHash s \<or>
                                        aps_RefreshTokenHash r = aps_RefreshTokenHash s)) (t_appSessions d) \<and>
          list_ex matches (t_appSessions d)
       then (Inl DriverErr, d)
       else affected (\<lambda>d. (Inr (length (filter matches (t_appSessions d))),
              t_appSessions_update (map (\<lambda>r. if matches r
                then r\<lparr>aps_AccessTokenHash := aps_AccessTokenHash s,
                       aps_RefreshTokenHash := aps_RefreshTokenHash s,
                       aps_ExpiresAt := aps_ExpiresAt s\<rparr>
                else r)) d)) d) (consumed bs w) = (Inr u, w')"
    using assms unfolding AppSessions_Rotate_def by (rule statement_step)
  then have "on_db (affected (\<lambda>d. (Inr (length (filter ?m (t_appSessions d))), t_appSessions_update (map ?f) d)))
      (consumed bs w) = (Inr u, w')"
    by (auto simp: on_db_def Let_def split: if_splits)
  then have "w' = (consumed bs w)\<lparr>db := t_appSessions_update (map ?f) (db (consumed bs w))\<rparr>"
    by (auto simp: on_db_def affected_def failIf_def split: if_splits)
  then show ?thesis by simp
qed

lemma app_issue_rotates:
  assumes "app_issue A i (Some old) w = (Inr response, w')"
  obtains e where "t_appSessions (db w') = map (\<lambda>r. if aps_ID r = aps_ID old \<and> aps_RefreshTokenHash r = aps_RefreshTokenHash old
           then r\<lparr>aps_AccessTokenHash := auth_sha256 A (withPrefix ''tok'' (uuid_at w (uuid_n w))),
                  aps_RefreshTokenHash := auth_sha256 A (withPrefix ''tok'' (uuid_at w (Suc (uuid_n w)))),
                  aps_ExpiresAt := e\<rparr> else r) (t_appSessions (db w))"
proof -
  obtain x w1 where p: "issueTokenPair A (app_claims i ''access'') w = (Inr x, w1)"
    and k: "(case x of (response, ac, rc) \<Rightarrow>
     bindE Now (\<lambda>t.
     bindE (NewID ''appsess'') (\<lambda>sid.
     let values = \<lparr>aps_ID = sid, aps_CreatedAt = 0, aps_AppID = app_ID (id_App i), aps_CredentialID = ac_ID (id_Credential i),
                   aps_AccessTokenHash = auth_sha256 A (tc_TokenID ac), aps_RefreshTokenHash = auth_sha256 A (tc_TokenID rc),
                   aps_ExpiresAt = t + auth_refreshTTL A, aps_RevokedAt = None\<rparr>
     in bindE (Within (
          bindE (case Some old of
             None \<Rightarrow> bindE (on_db_now (\<lambda>s. AppSessions_Create s values)) (\<lambda>_. returnE ())
           | Some old \<Rightarrow> on_db (AppSessions_Rotate (aps_ID old) (aps_RefreshTokenHash old) values)) (\<lambda>_.
          on_db (AppCredentials_RecordUse (ac_ID (id_Credential i)) t)))) (\<lambda>_.
        returnE response)))) w1 = (Inr response, w')"
    using assms unfolding app_issue_def by (rule bindE_InrE)
  obtain resp ac rc where x: "x = (resp, ac, rc)" by (cases x)
  have ids: "tc_TokenID ac = withPrefix ''tok'' (uuid_at w (uuid_n w))"
    "tc_TokenID rc = withPrefix ''tok'' (uuid_at w (Suc (uuid_n w)))" "db w1 = db w"
    using issueTokenPair_InrD [OF p [unfolded x]] by (simp_all add: app_claims_def no_claims_def)
  let ?w2 = "w1\<lparr>uuid_n := Suc (uuid_n w1)\<rparr>"
  let ?fresh = "\<lparr>aps_ID = withPrefix ''appsess'' (uuid_at w1 (uuid_n w1)), aps_CreatedAt = 0, aps_AppID = app_ID (id_App i),
      aps_CredentialID = ac_ID (id_Credential i), aps_AccessTokenHash = auth_sha256 A (tc_TokenID ac),
      aps_RefreshTokenHash = auth_sha256 A (tc_TokenID rc), aps_ExpiresAt = now w1 + auth_refreshTTL A, aps_RevokedAt = None\<rparr>"
  have "bindE (Within (bindE (on_db (AppSessions_Rotate (aps_ID old) (aps_RefreshTokenHash old) ?fresh)) (\<lambda>_.
          on_db (AppCredentials_RecordUse (ac_ID (id_Credential i)) (now w1))))) (\<lambda>_. returnE resp) ?w2 = (Inr response, w')"
    using k by (simp add: x NewID_def)
  then obtain u w3 where t: "Within (bindE (on_db (AppSessions_Rotate (aps_ID old) (aps_RefreshTokenHash old) ?fresh)) (\<lambda>_.
          on_db (AppCredentials_RecordUse (ac_ID (id_Credential i)) (now w1)))) ?w2 = (Inr u, w3)"
    and w': "returnE resp w3 = (Inr response, w')" by (rule bindE_InrE)
  obtain b1 b2 w4 where body: "bindE (on_db (AppSessions_Rotate (aps_ID old) (aps_RefreshTokenHash old) ?fresh)) (\<lambda>_.
          on_db (AppCredentials_RecordUse (ac_ID (id_Credential i)) (now w1))) (consumed b1 ?w2) = (Inr u, w4)"
    and w3: "w3 = consumed b2 w4" using t by (rule Within_step)
  obtain y w5 where r: "on_db (AppSessions_Rotate (aps_ID old) (aps_RefreshTokenHash old) ?fresh) (consumed b1 ?w2) = (Inr y, w5)"
    and q: "on_db (AppCredentials_RecordUse (ac_ID (id_Credential i)) (now w1)) w5 = (Inr u, w4)"
    using body by (rule bindE_InrE)
  from q have "t_appSessions (db w4) = t_appSessions (db w5)"
    unfolding AppCredentials_RecordUse_def by (rule appCredentials.update_step) simp
  moreover have "w' = consumed b2 w4" using w' w3 by simp
  ultimately have "t_appSessions (db w') = t_appSessions (db w5)" by simp
  then have "t_appSessions (db w') = map (\<lambda>r. if aps_ID r = aps_ID old \<and> aps_RefreshTokenHash r = aps_RefreshTokenHash old
           then r\<lparr>aps_AccessTokenHash := auth_sha256 A (withPrefix ''tok'' (uuid_at w (uuid_n w))),
                  aps_RefreshTokenHash := auth_sha256 A (withPrefix ''tok'' (uuid_at w (Suc (uuid_n w)))),
                  aps_ExpiresAt := now w1 + auth_refreshTTL A\<rparr> else r) (t_appSessions (db w))"
    using AppSessions_Rotate_step [OF r] ids by simp
  then show ?thesis by (rule that)
qed

text \<open>Claims of a token do not depend on when it is read.\<close>

definition token_stable :: "auth_env \<Rightarrow> string \<Rightarrow> bool" where
  "token_stable A raw \<longleftrightarrow> (\<forall>t t' j j'. auth_parse A t raw = Inr j \<longrightarrow> auth_parse A t' raw = Inr j' \<longrightarrow> j = j')"

text \<open>A refresh token works once. After it was exchanged for a new pair, and as long as the
  sessions are not edited again, the same token is refused, and no session answers to its
  hash any more. The refresh hashes are unique in the table, the hash does not confuse the
  new token's id with the old one's, and reading a token gives the same claims at any time.\<close>

lemma refresh_token_single_use:
  assumes r: "app_RefreshToken A raw w = (Inr response, w')" and j: "auth_parse A (now w) raw = Inr j"
    and unique: "distinct (map aps_RefreshTokenHash (t_appSessions (db w)))"
    and fresh: "\<forall>n\<ge>uuid_n w. auth_sha256 A (withPrefix ''tok'' (uuid_at w n)) \<noteq> auth_sha256 A (tc_TokenID (claimsFrom j))"
    and stable: "token_stable A raw" and later: "t_appSessions (db v) = t_appSessions (db w')"
  shows "(\<forall>s\<in>set (t_appSessions (db v)). aps_RefreshTokenHash s \<noteq> auth_sha256 A (tc_TokenID (claimsFrom j))) \<and>
         isl (fst (app_RefreshToken A raw v))"
proof
  let ?h = "auth_sha256 A (tc_TokenID (claimsFrom j))"
  from r obtain j' s bs i w1 where "auth_parse A (now w) raw = Inr j'"
    and f: "List.find (\<lambda>s. aps_AppID s = tc_SubjectID (claimsFrom j') \<and> aps_CredentialID s = tc_CredentialID (claimsFrom j') \<and>
           aps_RefreshTokenHash s = auth_sha256 A (tc_TokenID (claimsFrom j')) \<and> aps_ExpiresAt s > now w \<and>
           aps_RevokedAt s = None) (t_appSessions (db w)) = Some s"
    and i: "app_identity (tc_SubjectID (claimsFrom j')) (tc_CredentialID (claimsFrom j')) (consumed bs w) = (Inr i, w1)"
    and k: "app_issue A i (Some s) w1 = (Inr response, w')" by (rule app_RefreshToken_InrE)
  then have j': "j' = j" using j by simp
  have s: "s \<in> set (t_appSessions (db w))" "aps_RefreshTokenHash s = ?h"
    using find_Some_in_set [OF f] j' by simp_all
  from i obtain cs where "w1 = consumed cs (consumed bs w)" by (rule app_identity_InrE)
  then have w1: "t_appSessions (db w1) = t_appSessions (db w)" "uuid_at w1 = uuid_at w" "uuid_n w1 = uuid_n w" by simp_all
  obtain e where tab: "t_appSessions (db w') = map (\<lambda>r. if aps_ID r = aps_ID s \<and> aps_RefreshTokenHash r = aps_RefreshTokenHash s
           then r\<lparr>aps_AccessTokenHash := auth_sha256 A (withPrefix ''tok'' (uuid_at w1 (uuid_n w1))),
                  aps_RefreshTokenHash := auth_sha256 A (withPrefix ''tok'' (uuid_at w1 (Suc (uuid_n w1)))),
                  aps_ExpiresAt := e\<rparr> else r) (t_appSessions (db w1))"
    using k by (rule app_issue_rotates)
  have new: "auth_sha256 A (withPrefix ''tok'' (uuid_at w (Suc (uuid_n w)))) \<noteq> ?h" using fresh by simp
  have only: "r = s" if "r \<in> set (t_appSessions (db w))" "aps_RefreshTokenHash r = ?h" for r
    using unique that s by (auto simp: distinct_map inj_on_def)
  have gone: "\<forall>r\<in>set (t_appSessions (db w')). aps_RefreshTokenHash r \<noteq> ?h"
    unfolding tab ball_map w1 s(2) using new only by auto
  then show g: "\<forall>s\<in>set (t_appSessions (db v)). aps_RefreshTokenHash s \<noteq> ?h" by (simp add: later)
  show "isl (fst (app_RefreshToken A raw v))"
  proof (cases "app_RefreshToken A raw v")
    case (Pair q v')
    show ?thesis
    proof (cases q)
      case (Inr x)
      with Pair have "app_RefreshToken A raw v = (Inr x, v')" by simp
      then obtain j2 s2 where "auth_parse A (now v) raw = Inr j2"
        and f2: "List.find (\<lambda>s. aps_AppID s = tc_SubjectID (claimsFrom j2) \<and> aps_CredentialID s = tc_CredentialID (claimsFrom j2) \<and>
           aps_RefreshTokenHash s = auth_sha256 A (tc_TokenID (claimsFrom j2)) \<and> aps_ExpiresAt s > now v \<and>
           aps_RevokedAt s = None) (t_appSessions (db v)) = Some s2" by (rule app_RefreshToken_InrE)
      then have "j2 = j" using stable j unfolding token_stable_def by blast
      with find_Some_in_set [OF f2] g show ?thesis by blast
    qed (use Pair in simp)
  qed
qed

end
