(* ===== verification/Lockout.thy ===== *)
theory Lockout
  imports IdentityFacts
begin

text \<open>
  Password guessing against an administrator account: what a sequence of wrong passwords
  does to it.
\<close>

primrec guesses :: "auth_env \<Rightarrow> string \<Rightarrow> string \<Rightarrow> string \<Rightarrow> string list \<Rightarrow> 'p world \<Rightarrow> 'p world" where
  "guesses A email ip ua [] w = w"
| "guesses A email ip ua (pw # pws) w =
     guesses A email ip ua pws (snd (IssuePasswordToken A email pw ip ua w))"

abbreviation account_of :: "'p world \<Rightarrow> string \<Rightarrow> AdminUser option" where
  "account_of w email \<equiv> List.find (\<lambda>u. au_Email u = to_lower (trim_space email)) (t_adminUsers (db w))"

definition locked_at :: "AdminUser \<Rightarrow> time \<Rightarrow> bool" where
  "locked_at u t \<longleftrightarrow> (\<exists>l. au_LockedUntil u = Some l \<and> l > t)"

text \<open>The columns a failed login changes.\<close>

definition failed_login :: "time \<Rightarrow> AdminUser \<Rightarrow> AdminUser \<Rightarrow> AdminUser" where
  "failed_login t u x =
     x\<lparr>au_FailedLoginAttempts := au_FailedLoginAttempts x + 1,
       au_LockedUntil := (if au_FailedLoginAttempts u \<ge> 4 then Some (t + 15 * minute) else au_LockedUntil x)\<rparr>"

lemma clean_ByEmail:
  assumes "faults (db w) = []" and "account_of w email = Some u"
  shows "orE (on_db (AdminUsers_ByEmail (to_lower (trim_space email)))) e w = (Inr u, w)"
  using assms by (simp add: orE_def AdminUsers_ByEmail_def base_first_def on_db_def statement_def)

lemma locked_refused:
  assumes "faults (db w) = []" and "account_of w email = Some u" and "au_Status u = active"
    and "locked_at u (now w)"
  shows "IssuePasswordToken A email pw ip ua w = (Inl (Msg ''admin account is locked''), w)"
  using assms(3,4) by (auto simp: IssuePasswordToken_def clean_ByEmail [OF assms(1,2)] bindE_failIf locked_at_def)

lemma wrong_password:
  assumes "faults (db w) = []" and "account_of w email = Some u" and "au_Status u = active"
    and "\<not> locked_at u (now w)" and "\<not> VerifyPassword A (au_PasswordHash u) pw"
  shows "IssuePasswordToken A email pw ip ua w =
    (Inl (Msg ''invalid credentials''),
     w\<lparr>db := t_adminUsers_update (map (\<lambda>x. if au_ID x = au_ID u then failed_login (now w) u x else x)) (db w)\<rparr>)"
proof -
  have "handleE (on_db (AdminUsers_RecordFailedLogin (au_ID u)
          (if au_FailedLoginAttempts u \<ge> 4 then Some (now w + 15 * minute) else None))) (\<lambda>_. throwE (Msg ''invalid credentials'')) w =
      (Inl (Msg ''invalid credentials''),
       w\<lparr>db := t_adminUsers_update (map (\<lambda>x. if au_ID x = au_ID u then failed_login (now w) u x else x)) (db w)\<rparr>)"
    using assms(1)
    by (simp add: handleE_def AdminUsers_RecordFailedLogin_def base_touch_def base_updates_def on_db_def statement_def
        failed_login_def)
  then show ?thesis
    using assms(3-5)
    by (auto simp: IssuePasswordToken_def clean_ByEmail [OF assms(1,2)] bindE_failIf locked_at_def Let_def
        split: option.splits)
qed

lemma account_of_failed:
  assumes "account_of w email = Some u"
  shows "account_of (w\<lparr>db := t_adminUsers_update (map (\<lambda>x. if au_ID x = au_ID u then failed_login t u x else x)) (db w)\<rparr>) email =
         Some (failed_login t u u)"
proof -
  have "List.find (\<lambda>u. au_Email u = to_lower (trim_space email))
      (map (\<lambda>x. if au_ID x = au_ID u then failed_login t u x else x) (t_adminUsers (db w))) =
      map_option (\<lambda>x. if au_ID x = au_ID u then failed_login t u x else x) (account_of w email)"
    by (rule find_map_eq) (simp add: failed_login_def)
  with assms show ?thesis by simp
qed

text \<open>What holds after some wrong guesses against an account that had \<open>a\<close> failed attempts.\<close>

definition guessed :: "auth_env \<Rightarrow> string \<Rightarrow> string \<Rightarrow> time \<Rightarrow> int \<Rightarrow> nat \<Rightarrow> 'p world \<Rightarrow> bool" where
  "guessed A email hash t a n w \<longleftrightarrow> faults (db w) = [] \<and> now w = t \<and>
     (\<exists>u. account_of w email = Some u \<and> au_Status u = active \<and> au_PasswordHash u = hash \<and>
       (au_LockedUntil u = Some (t + 15 * minute) \<or>
        (\<not> locked_at u t \<and> au_FailedLoginAttempts u = a + int n \<and> (0 < n \<longrightarrow> a + int n < 5))))"

lemma guessed_step:
  assumes "guessed A email hash t a n w" and wrong: "\<not> VerifyPassword A hash pw"
  shows "guessed A email hash t a (Suc n) (snd (IssuePasswordToken A email pw ip ua w))"
proof -
  from assms(1) obtain u where w: "faults (db w) = []" "now w = t" "account_of w email = Some u" "au_Status u = active"
    "au_PasswordHash u = hash" and c: "au_LockedUntil u = Some (t + 15 * minute) \<or>
        (\<not> locked_at u t \<and> au_FailedLoginAttempts u = a + int n \<and> (0 < n \<longrightarrow> a + int n < 5))"
    unfolding guessed_def by blast
  from c show ?thesis
  proof
    assume l: "au_LockedUntil u = Some (t + 15 * minute)"
    then have "locked_at u (now w)" using w(2) by (simp add: locked_at_def)
    with locked_refused [OF w(1,3,4)] l w show ?thesis by (auto simp: guessed_def)
  next
    assume open_u: "\<not> locked_at u t \<and> au_FailedLoginAttempts u = a + int n \<and> (0 < n \<longrightarrow> a + int n < 5)"
    let ?w = "w\<lparr>db := t_adminUsers_update (map (\<lambda>x. if au_ID x = au_ID u then failed_login t u x else x)) (db w)\<rparr>"
    have "snd (IssuePasswordToken A email pw ip ua w) = ?w"
      using wrong_password [OF w(1,3,4), of A pw ip ua] open_u wrong w(2,5) by simp
    moreover have "account_of ?w email = Some (failed_login t u u)" by (rule account_of_failed [OF w(3)])
    moreover have "au_LockedUntil (failed_login t u u) = Some (t + 15 * minute) \<or>
        (\<not> locked_at (failed_login t u u) t \<and> au_FailedLoginAttempts (failed_login t u u) = a + int (Suc n) \<and>
         a + int (Suc n) < 5)"
      using open_u by (auto simp: failed_login_def locked_at_def)
    moreover have "au_Status (failed_login t u u) = active" "au_PasswordHash (failed_login t u u) = hash"
      using w(4,5) by (simp_all add: failed_login_def)
    ultimately show ?thesis using w(1,2) by (simp add: guessed_def)
  qed
qed

lemma guessed_guesses:
  "guessed A email hash t a n w \<Longrightarrow> \<forall>pw\<in>set pws. \<not> VerifyPassword A hash pw \<Longrightarrow>
   guessed A email hash t a (n + length pws) (guesses A email ip ua pws w)"
proof (induction pws arbitrary: n w)
  case (Cons pw pws)
  have "guessed A email hash t a (Suc n) (snd (IssuePasswordToken A email pw ip ua w))"
    by (rule guessed_step [OF Cons.prems(1)]) (use Cons.prems(2) in simp)
  from Cons.IH [OF this] Cons.prems(2) show ?case by simp
qed simp

text \<open>C17: guessing passwords locks the account. When wrong passwords bring the failed attempts of an
  administrator to five (one is enough when they were four or more, for instance right after
  a lock expired), every login within the next fifteen minutes is refused, the right password
  included, without looking at the password and without changing anything.\<close>

lemma guessing_locks_account:
  assumes "faults (db w) = []" and "account_of w email = Some u" and "au_Status u = active"
    and "\<not> locked_at u (now w)" and "\<forall>guess\<in>set pws. \<not> VerifyPassword A (au_PasswordHash u) guess"
    and "pws \<noteq> []" and "au_FailedLoginAttempts u + int (length pws) \<ge> 5"
    and "v = (guesses A email ip ua pws w)\<lparr>outside := o_v\<rparr>" and "clock o_v < now w + 15 * minute"
  shows "IssuePasswordToken A email pw ip' ua' v = (Inl (Msg ''admin account is locked''), v)"
proof -
  have "guessed A email (au_PasswordHash u) (now w) (au_FailedLoginAttempts u) 0 w"
    using assms(1-4) by (auto simp: guessed_def)
  from guessed_guesses [OF this assms(5)]
  obtain x where "faults (db (guesses A email ip ua pws w)) = []" and "account_of (guesses A email ip ua pws w) email = Some x"
    and "au_Status x = active" and "au_LockedUntil x = Some (now w + 15 * minute)"
    using assms(6,7) unfolding guessed_def by auto
  with assms(8,9) show ?thesis by (intro locked_refused) (auto simp: locked_at_def)
qed

section \<open>Ending the sessions of an administrator\<close>

lemma admin_sessions_revoked:
  assumes "on_db (AdminSessions_RevokeAllFor i t) w = (Inr u, w')"
  shows "\<forall>s\<in>set (t_adminSessions (db w')). as_AdminUserID s = i \<longrightarrow> as_RevokedAt s \<noteq> None"
proof -
  from assms obtain bs where "w' = w\<lparr>db := t_adminSessions_update (map (\<lambda>s. if as_AdminUserID s = i \<and> as_RevokedAt s = None
      then as_RevokedAt_update (\<lambda>_. Some t) s else s)) ((db w)\<lparr>faults := bs\<rparr>)\<rparr>"
    unfolding AdminSessions_RevokeAllFor_def by (rule adminSessions.touch_step)
  then have tab: "t_adminSessions (db w') = map (\<lambda>s. if as_AdminUserID s = i \<and> as_RevokedAt s = None
      then as_RevokedAt_update (\<lambda>_. Some t) s else s) (t_adminSessions (db w))" by simp
  show ?thesis unfolding tab ball_map by simp
qed

lemma ChangePassword_ends_sessions:
  assumes "ChangePassword A actor i password w = (Inr u, w')"
  shows "\<forall>s\<in>set (t_adminSessions (db w')). as_AdminUserID s = i \<longrightarrow> as_RevokedAt s \<noteq> None"
proof -
  obtain a where a: "actor = Some a" using assms by (cases actor) (auto simp: ChangePassword_def)
  obtain hash w1 where "HashPassword A password w = (Inr hash, w1)"
    and k: "bindE Now (\<lambda>t. bindE (Within (bindE (on_db (AdminUsers_SetPassword i hash t)) (\<lambda>_.
            on_db (AdminSessions_RevokeAllFor i t)))) (\<lambda>_.
          RecordBestEffort (auth_audit A) (au_ID a) ''admin'' ''admin.password_changed'' ''admin_user'' i None [] [])) w1 = (Inr u, w')"
    using assms unfolding ChangePassword_def a option.case by (rule bindE_InrE)
  note k = k [unfolded bindE_Now]
  obtain x w2 where t: "Within (bindE (on_db (AdminUsers_SetPassword i hash (now w1))) (\<lambda>_.
            on_db (AdminSessions_RevokeAllFor i (now w1)))) w1 = (Inr x, w2)"
    and r: "RecordBestEffort (auth_audit A) (au_ID a) ''admin'' ''admin.password_changed'' ''admin_user'' i None [] [] w2 = (Inr u, w')"
    using k by (rule bindE_InrE)
  obtain b1 b2 w3 where body: "bindE (on_db (AdminUsers_SetPassword i hash (now w1))) (\<lambda>_.
            on_db (AdminSessions_RevokeAllFor i (now w1))) (consumed b1 w1) = (Inr x, w3)" and w2: "w2 = consumed b2 w3"
    using t by (rule Within_step)
  obtain y w4 where s: "on_db (AdminSessions_RevokeAllFor i (now w1)) w4 = (Inr x, w3)"
    using body by (rule bindE_InrE)
  show ?thesis
    using admin_sessions_revoked [OF s] only_trail_fields(2) [OF movesD [OF trail_RecordBestEffort r]] w2 by simp
qed

lemma ChangeStatus_ends_sessions:
  assumes "ChangeStatus A actor i status w = (Inr u, w')" and "status \<noteq> active"
  shows "\<forall>s\<in>set (t_adminSessions (db w')). as_AdminUserID s = i \<longrightarrow> as_RevokedAt s \<noteq> None"
proof -
  obtain a where a: "actor = Some a" using assms by (cases actor) (auto simp: ChangeStatus_def)
  have k: "bindE (Within (bindE (on_db (AdminUsers_SetStatus i status)) (\<lambda>_.
            bindE Now (\<lambda>t. on_db (AdminSessions_RevokeAllFor i t))))) (\<lambda>_.
          RecordBestEffort (auth_audit A) (au_ID a) ''admin'' ''admin.status_changed'' ''admin_user'' i
            (Some [(''status'', GStr status)]) [] []) w = (Inr u, w')"
    using assms unfolding ChangeStatus_def a by (simp del: bindE_Now)
  obtain x w2 where t: "Within (bindE (on_db (AdminUsers_SetStatus i status)) (\<lambda>_.
            bindE Now (\<lambda>t. on_db (AdminSessions_RevokeAllFor i t)))) w = (Inr x, w2)"
    and r: "RecordBestEffort (auth_audit A) (au_ID a) ''admin'' ''admin.status_changed'' ''admin_user'' i
            (Some [(''status'', GStr status)]) [] [] w2 = (Inr u, w')"
    using k by (rule bindE_InrE)
  obtain b1 b2 w3 where body: "bindE (on_db (AdminUsers_SetStatus i status)) (\<lambda>_.
            bindE Now (\<lambda>t. on_db (AdminSessions_RevokeAllFor i t))) (consumed b1 w) = (Inr x, w3)" and w2: "w2 = consumed b2 w3"
    using t by (rule Within_step)
  obtain y w4 where "bindE Now (\<lambda>t. on_db (AdminSessions_RevokeAllFor i t)) w4 = (Inr x, w3)"
    using body by (rule bindE_InrE)
  then have s: "on_db (AdminSessions_RevokeAllFor i (now w4)) w4 = (Inr x, w3)" by simp
  show ?thesis
    using admin_sessions_revoked [OF s] only_trail_fields(2) [OF movesD [OF trail_RecordBestEffort r]] w2 by simp
qed

lemma no_admin_session:
  fixes v :: "'p world"
  assumes dead: "\<forall>s\<in>set (t_adminSessions (db v)). as_AdminUserID s = i \<longrightarrow> as_RevokedAt s \<noteq> None"
  shows "tc_SubjectID c = i \<Longrightarrow> isl (fst (admin_AuthenticateClaims A (Some c) v))"
    and "auth_parse A (now v) raw = Inr j \<Longrightarrow> tc_SubjectID (claimsFrom j) = i \<Longrightarrow> isl (fst (admin_RefreshToken A raw ip ua v))"
proof -
  have none: "isl (fst (bindE (orE (on_db (base_first t_adminSessions P)) e) k v))"
    if "\<And>s. P s \<Longrightarrow> as_AdminUserID s = i \<and> as_RevokedAt s = None" for P e and k :: "AdminSession \<Rightarrow> ('p, 'x) act"
    by (cases rule: adminSessions.first_app [of P v])
       (use that dead in \<open>auto simp: orE_def bindE_def dest!: find_Some_in_set\<close>)
  show "isl (fst (admin_AuthenticateClaims A (Some c) v))" if "tc_SubjectID c = i"
    unfolding admin_AuthenticateClaims_def AdminSessions_Live_def
    by (auto simp: bindE_failIf that intro!: none)
  show "isl (fst (admin_RefreshToken A raw ip ua v))"
    if "auth_parse A (now v) raw = Inr j" "tc_SubjectID (claimsFrom j) = i"
  proof -
    have "orE (Verify A raw) e v = (Inr (claimsFrom j), v)" for e
      using that(1) by (simp add: orE_def Verify_def)
    then show ?thesis
      unfolding admin_RefreshToken_def AdminSessions_LiveByRefresh_def
      by (auto simp: bindE_failIf that(2) intro!: none)
  qed
qed

text \<open>C18: an administrator whose password was changed or who was deactivated is out at once: no
  access or refresh token issued before passes any more, until a new login.\<close>

lemma changed_admin_is_out:
  assumes "ChangePassword A actor i password w = (Inr u, w') \<or>
           (ChangeStatus A actor i status w = (Inr u, w') \<and> status \<noteq> active)"
    and "t_adminSessions (db v) = t_adminSessions (db w')"
  shows "(\<forall>c. tc_SubjectID c = i \<longrightarrow> isl (fst (admin_AuthenticateClaims A (Some c) v))) \<and>
         (\<forall>j. auth_parse A (now v) raw = Inr j \<and> tc_SubjectID (claimsFrom j) = i \<longrightarrow>
              isl (fst (admin_RefreshToken A raw ip ua v)))"
proof -
  have "\<forall>s\<in>set (t_adminSessions (db v)). as_AdminUserID s = i \<longrightarrow> as_RevokedAt s \<noteq> None"
    using assms ChangePassword_ends_sessions ChangeStatus_ends_sessions by metis
  with no_admin_session show ?thesis by blast
qed

section \<open>A sample\<close>

definition sample_jwt :: "string \<Rightarrow> string \<Rightarrow> jwt" where
  "sample_jwt kind i =
     \<lparr>jwt_sub = Some ''app_1'', jwt_jti = Some i, jwt_iat = Some 0, jwt_exp = Some 0,
      jwt_private = [(''subject_type'', GStr ''app''), (''token_type'', GStr kind), (''credential_id'', GStr ''cred_1'')]\<rparr>"

definition sample_auth :: auth_env where
  "sample_auth =
     \<lparr>auth_sign = (\<lambda>j. Inr (claim_text j ''token_type'' @ '':'' @ (case jwt_jti j of None \<Rightarrow> [] | Some i \<Rightarrow> i))),
      auth_parse = (\<lambda>t s. if has_prefix ''access:'' s then Inr (sample_jwt ''access'' (drop 7 s))
                          else if has_prefix ''refresh:'' s then Inr (sample_jwt ''refresh'' (drop 8 s))
                          else Inl (Msg ''malformed'')),
      auth_sha256 = (\<lambda>s. s), auth_bcrypt = (\<lambda>n s. Inr s), auth_bcrypt_ok = (\<lambda>h p. h = p),
      auth_random = (\<lambda>bytes n. Inr (format_nat n)), auth_accessTTL = 15 * minute, auth_refreshTTL = 60 * minute,
      auth_clientPrefix = ''client'', auth_secretPrefix = ''secret'', auth_audit = None, auth_authz = True\<rparr>"

definition sample_credential :: AppCredential where
  "sample_credential =
     \<lparr>ac_ID = ''cred_1'', ac_CreatedAt = 0, ac_AppID = ''app_1'', ac_Name = ''Default'', ac_ClientID = ''client_1'',
      ac_ClientSecretHash = ''s3cret'', ac_Status = active, ac_Scopes = ''transactions:read'', ac_LastUsedAt = None,
      ac_ExpiresAt = None, ac_CreatedBy = []\<rparr>"

definition sample_session :: AppSession where
  "sample_session =
     \<lparr>aps_ID = ''s1'', aps_CreatedAt = 0, aps_AppID = ''app_1'', aps_CredentialID = ''cred_1'',
      aps_AccessTokenHash = ''tok_a'', aps_RefreshTokenHash = ''tok_r'', aps_ExpiresAt = 60 * minute, aps_RevokedAt = None\<rparr>"

definition sample_admin :: AdminUser where
  "sample_admin =
     \<lparr>au_ID = ''adm_1'', au_CreatedAt = 0, au_Name = ''Root'', au_Email = ''root@x.org'', au_PasswordHash = ''hunter22'',
      au_Role = ''super_admin'', au_Status = active, au_PasswordChangedAt = None, au_LastLoginAt = None,
      au_FailedLoginAttempts = 3, au_LockedUntil = None, au_CreatedBy = [], au_Permissions = []\<rparr>"

definition sample_identity :: "unit world" where
  "sample_identity = sample_world\<lparr>db := sample_db\<lparr>t_appCredentials := [sample_credential],
     t_appSessions := [sample_session], t_adminUsers := [sample_admin]\<rparr>\<rparr>"

definition sample_request_run :: "(refusal + AppIdentity) \<times> unit world" where
  "sample_request_run = app_route sample_auth ''transactions:read'' ''Bearer access:tok_a'' sample_identity"

lemma app_request_authorized_witness:
  "\<exists>i s. fst sample_request_run = Inr i \<and> s \<in> set (t_appSessions (db sample_identity)) \<and>
     aps_CredentialID s = ac_ID (id_Credential i) \<and> ac_Status (id_Credential i) = active"
proof -
  have "\<not> isl (fst sample_request_run)" by code_simp
  then obtain i where i: "fst sample_request_run = Inr i" by (cases "fst sample_request_run") auto
  then have "app_route sample_auth ''transactions:read'' ''Bearer access:tok_a'' sample_identity = (Inr i, snd sample_request_run)"
    unfolding sample_request_run_def by (metis prod.collapse)
  from app_request_authorized [OF this] i show ?thesis by blast
qed

definition sample_revoked :: "(err + unit) \<times> unit world" where
  "sample_revoked = RevokeCredential sample_auth None ''app_1'' ''cred_1'' sample_identity"

lemma revoked_credential_refused_witness:
  "isl (fst (app_RefreshToken sample_auth ''refresh:tok_r'' (snd sample_revoked)))"
proof -
  have "fst sample_revoked = Inr ()" by code_simp
  then have r: "RevokeCredential sample_auth None ''app_1'' ''cred_1'' sample_identity = (Inr (), snd sample_revoked)"
    unfolding sample_revoked_def by (metis prod.collapse)
  have "auth_parse sample_auth t ''refresh:tok_r'' = Inr (sample_jwt ''refresh'' ''tok_r'')" for t
    by (simp add: sample_auth_def has_prefix_def)
  moreover have "tc_SubjectID (claimsFrom (sample_jwt ''refresh'' ''tok_r'')) = ''app_1''"
    "tc_CredentialID (claimsFrom (sample_jwt ''refresh'' ''tok_r'')) = ''cred_1''" by code_simp+
  ultimately show ?thesis using revoked_credential_refused [OF r refl] by blast
qed

definition sample_refreshed :: "(err + TokenResponse) \<times> unit world" where
  "sample_refreshed = app_RefreshToken sample_auth ''refresh:tok_r'' sample_identity"

lemma refresh_token_single_use_witness:
  "isl (fst (app_RefreshToken sample_auth ''refresh:tok_r'' (snd sample_refreshed)))"
proof -
  have "\<not> isl (fst sample_refreshed)" by code_simp
  then obtain x where "fst sample_refreshed = Inr x" by (cases "fst sample_refreshed") auto
  then have r: "app_RefreshToken sample_auth ''refresh:tok_r'' sample_identity = (Inr x, snd sample_refreshed)"
    unfolding sample_refreshed_def by (metis prod.collapse)
  have j: "auth_parse sample_auth (now sample_identity) ''refresh:tok_r'' = Inr (sample_jwt ''refresh'' ''tok_r'')"
    by (simp add: sample_auth_def has_prefix_def)
  have unique: "distinct (map aps_RefreshTokenHash (t_appSessions (db sample_identity)))"
    by (simp add: sample_identity_def)
  have "format_nat n \<noteq> ''r''" for n
    using format_nat_digits [of n] by (auto simp: is_digit_def digit_val_def)
  then have fresh: "\<forall>n\<ge>uuid_n sample_identity. auth_sha256 sample_auth (withPrefix ''tok'' (uuid_at sample_identity n)) \<noteq>
      auth_sha256 sample_auth (tc_TokenID (claimsFrom (sample_jwt ''refresh'' ''tok_r'')))"
    by (simp add: sample_auth_def sample_identity_def sample_world_def withPrefix_def claimsFrom_def sample_jwt_def)
  have "token_stable sample_auth ''refresh:tok_r''" by (simp add: token_stable_def sample_auth_def)
  from refresh_token_single_use [OF r j unique fresh this refl] show ?thesis by blast
qed

lemma guessing_locks_account_witness:
  "fst (IssuePasswordToken sample_auth ''root@x.org'' ''hunter22'' [] []
      ((guesses sample_auth '' Root@x.org'' [] [] [''a'', ''b''] sample_identity)
         \<lparr>outside := \<lparr>clock = 14 * minute, gone = False, prov = ()\<rparr>\<rparr>)) = Inl (Msg ''admin account is locked'')"
proof -
  have a: "account_of sample_identity '' Root@x.org'' = Some sample_admin" by code_simp
  have same: "to_lower (trim_space '' Root@x.org'') = to_lower (trim_space ''root@x.org'')" by code_simp
  have swap: "IssuePasswordToken sample_auth ''root@x.org'' = IssuePasswordToken sample_auth '' Root@x.org''"
    by (intro ext) (simp add: IssuePasswordToken_def same)
  show ?thesis
    unfolding swap
    by (subst guessing_locks_account [OF _ a _ _ _ _ _ refl])
       (simp_all add: sample_identity_def sample_admin_def sample_world_def sample_db_def empty_db_def locked_at_def
         VerifyPassword_def sample_auth_def)
qed

definition sample_deactivated :: "(err + unit) \<times> unit world" where
  "sample_deactivated = ChangeStatus sample_auth (Some sample_admin) ''adm_1'' ''inactive'' sample_identity"

lemma changed_admin_is_out_witness:
  "isl (fst (admin_AuthenticateClaims sample_auth
      (Some (no_claims\<lparr>tc_SubjectType := ''admin'', tc_TokenType := ''access'', tc_SubjectID := ''adm_1''\<rparr>))
      (snd sample_deactivated)))"
proof -
  have "fst sample_deactivated = Inr ()" by code_simp
  then have "ChangeStatus sample_auth (Some sample_admin) ''adm_1'' ''inactive'' sample_identity = (Inr (), snd sample_deactivated)"
    unfolding sample_deactivated_def by (metis prod.collapse)
  then have "ChangePassword sample_auth (Some sample_admin) ''adm_1'' [] sample_identity = (Inr (), snd sample_deactivated) \<or>
      (ChangeStatus sample_auth (Some sample_admin) ''adm_1'' ''inactive'' sample_identity = (Inr (), snd sample_deactivated) \<and>
       ''inactive'' \<noteq> active)" by (simp add: active_def)
  from changed_admin_is_out [OF this refl] show ?thesis by simp
qed

end
