(* ===== verification/RoutingAdmin.thy ===== *)
theory RoutingAdmin
  imports AuditTrail Samples
begin

text \<open>
  \<open>internal/service/routing/admin.go\<close>: creating and updating payment routes. A route is only
  created for a stored account whose runtime is loaded and supports the service and the
  method.
\<close>

definition route_Create ::
    "auditor \<Rightarrow> AdminUser option \<Rightarrow> string \<Rightarrow> string \<Rightarrow> string \<Rightarrow> int \<Rightarrow> bool \<Rightarrow> ('p, PaymentRoute) act" where
  "route_Create auditor actor service pm accountID priority act =
     handleE (on_db (ProviderAccounts_Exists accountID)) (\<lambda>r.
     case r of
       Inl _ \<Rightarrow> throwE NotFound
     | Inr exists \<Rightarrow>
         if \<not> exists then throwE NotFound
         else (\<lambda>w. case Get w accountID of
             None \<Rightarrow> (Inl (Msg ''provider account must be active before creating a route''), w)
           | Some loaded \<Rightarrow>
               if \<not> Supports (rt_Capabilities loaded) service pm
               then (Inl (Msg (''provider account does not support '' @ service @ ''/'' @ pm)), w)
               else
                 bindE (NewID ''route'') (\<lambda>i.
                 let priority = (if priority < 1 then 1 else priority) in
                 bindE (on_db_now (\<lambda>t. PaymentRoutes_Create t
                   \<lparr>pr_ID = i, pr_CreatedAt = 0, pr_ServiceType = service, pr_PaymentMethod = pm,
                    pr_ProviderAccountID = accountID, pr_ProviderName = [], pr_Priority = priority,
                    pr_Active = act\<rparr>)) (\<lambda>route.
                 bindE (RecordBestEffort auditor (ActorID actor) ''admin'' ''route.created'' ''payment_route''
                          (pr_ID route) None [] []) (\<lambda>_.
                 returnE route))) w))"

definition route_Update ::
    "auditor \<Rightarrow> AdminUser option \<Rightarrow> string \<Rightarrow> int \<Rightarrow> bool \<Rightarrow> ('p, unit) act" where
  "route_Update auditor actor i priority act =
     bindE (on_db (PaymentRoutes_Update i (\<lambda>r. r\<lparr>pr_Priority := priority, pr_Active := act\<rparr>))) (\<lambda>_.
     RecordBestEffort auditor (ActorID actor) ''admin'' ''route.updated'' ''payment_route'' i
       (Some [(''priority'', GInt priority), (''active'', GBool act)]) [] [])"

lemma account_exists_step:
  assumes "on_db (ProviderAccounts_Exists i) w = (Inr ex, w')"
  obtains bs where "w' = consumed bs w" and "ex \<longrightarrow> (\<exists>a\<in>set (t_providerAccounts (db w)). pa_ID a = i)"
proof -
  from assms obtain n w1 where c: "on_db (base_count t_providerAccounts (\<lambda>a. pa_ID a = i)) w = (Inr n, w1)"
    and r: "on_db (returnE (n = 1)) w1 = (Inr ex, w')"
    unfolding ProviderAccounts_Exists_def on_db_bindE by (rule bindE_InrE)
  from c obtain bs where b: "w1 = consumed bs w" "n = int (length (filter (\<lambda>a. pa_ID a = i) (t_providerAccounts (db w))))"
    by (rule providerAccounts.count_step)
  have w': "w' = consumed bs w" and "ex = (n = 1)" using r b(1) by (simp_all add: on_db_def)
  have "ex \<longrightarrow> (\<exists>a\<in>set (t_providerAccounts (db w)). pa_ID a = i)"
  proof
    assume ex
    then have "filter (\<lambda>a. pa_ID a = i) (t_providerAccounts (db w)) \<noteq> []" using \<open>ex = (n = 1)\<close> b(2) by auto
    then show "\<exists>a\<in>set (t_providerAccounts (db w)). pa_ID a = i" by (simp add: filter_empty_conv)
  qed
  with w' show ?thesis by (rule that)
qed

text \<open>Creating a route. A route is created only for an account on record whose runtime is
  loaded and supports the service and the method, and when no route of the same service,
  method and account exists; it is appended with a priority of at least one. When the ORM
  replaces a zero value by the column's default, a route asked for as inactive is active.\<close>

lemma created_route:
  assumes "route_Create auditor actor service pm accountID priority act w = (Inr route, w')"
  shows "(\<exists>a\<in>set (t_providerAccounts (db w)). pa_ID a = accountID) \<and>
         (\<exists>rp. Get w accountID = Some rp \<and> Supports (rt_Capabilities rp) service pm) \<and>
         (\<forall>r\<in>set (t_paymentRoutes (db w)). \<not> (pr_ServiceType r = service \<and> pr_PaymentMethod r = pm \<and>
                                             pr_ProviderAccountID r = accountID)) \<and>
         t_paymentRoutes (db w') = t_paymentRoutes (db w) @ [route] \<and>
         pr_ServiceType route = service \<and> pr_PaymentMethod route = pm \<and> pr_ProviderAccountID route = accountID \<and>
         pr_Priority route = max 1 priority \<and>
         pr_Active route = (act \<or> zero_defaults (db w))"
proof -
  obtain ex w1 where e: "on_db (ProviderAccounts_Exists accountID) w = (ex, w1)"
    by (cases "on_db (ProviderAccounts_Exists accountID) w")
  have ex: "ex = Inr True"
    using assms e by (cases ex) (auto simp: route_Create_def split: if_splits)
  obtain bs where w1: "w1 = consumed bs w"
    and "True \<longrightarrow> (\<exists>a\<in>set (t_providerAccounts (db w)). pa_ID a = accountID)"
    by (rule account_exists_step [OF e [unfolded ex]])
  then have account: "\<exists>a\<in>set (t_providerAccounts (db w)). pa_ID a = accountID" by simp
  obtain rp where rp: "Get w1 accountID = Some rp" "Supports (rt_Capabilities rp) service pm"
    using assms e ex by (auto simp: route_Create_def split: if_splits option.splits)
  let ?i = "withPrefix ''route'' (uuid_at w1 (uuid_n w1))"
  let ?w2 = "w1\<lparr>uuid_n := Suc (uuid_n w1)\<rparr>"
  let ?row = "\<lparr>pr_ID = ?i, pr_CreatedAt = 0, pr_ServiceType = service, pr_PaymentMethod = pm,
      pr_ProviderAccountID = accountID, pr_ProviderName = [],
      pr_Priority = (if priority < 1 then 1 else priority), pr_Active = act\<rparr>"
  have "bindE (on_db_now (\<lambda>t. PaymentRoutes_Create t ?row)) (\<lambda>route.
          bindE (RecordBestEffort auditor (ActorID actor) ''admin'' ''route.created'' ''payment_route''
                   (pr_ID route) None [] []) (\<lambda>_. returnE route)) ?w2 = (Inr route, w')"
    using assms e ex rp by (simp add: route_Create_def NewID_def Let_def split: if_splits option.splits)
  then obtain x w3 where c: "on_db_now (\<lambda>t. PaymentRoutes_Create t ?row) ?w2 = (Inr x, w3)"
    and k: "bindE (RecordBestEffort auditor (ActorID actor) ''admin'' ''route.created'' ''payment_route''
                   (pr_ID x) None [] []) (\<lambda>_. returnE x) w3 = (Inr route, w')" by (rule bindE_InrE)
  have x: "x = route" and trail: "only_trail w3 w'"
    using k by (auto elim!: audit_InrE)
  from c obtain cs where r: "w3 = ?w2\<lparr>db := t_paymentRoutes_update (\<lambda>rs. rs @ [x]) ((db ?w2)\<lparr>faults := cs\<rparr>)\<rparr>"
    "x = (if zero_defaults (db ?w2) then PaymentRoute_defaults (?row\<lparr>pr_CreatedAt := now ?w2\<rparr>) else ?row\<lparr>pr_CreatedAt := now ?w2\<rparr>)"
    "\<forall>r\<in>set (t_paymentRoutes (db ?w2)). \<not> (pr_ID r = pr_ID x \<or> (pr_ServiceType r = pr_ServiceType x \<and>
        pr_PaymentMethod r = pr_PaymentMethod x \<and> pr_ProviderAccountID r = pr_ProviderAccountID x))"
    unfolding PaymentRoutes_Create_def by (rule paymentRoutes.create_step)
  have fields: "pr_ServiceType x = service" "pr_PaymentMethod x = pm" "pr_ProviderAccountID x = accountID"
    "pr_Priority x = max 1 priority" "pr_Active x = (act \<or> zero_defaults (db w))"
    using r(2) w1 by (auto simp: PaymentRoute_defaults_def)
  have "t_paymentRoutes (db w') = t_paymentRoutes (db w) @ [x]"
    using only_trail_fields(10) [OF trail] r(1) w1 by simp
  moreover have "Get w accountID = Some rp" using rp(1) w1 by (simp add: Get_def)
  moreover have "\<forall>r\<in>set (t_paymentRoutes (db w)). \<not> (pr_ServiceType r = service \<and> pr_PaymentMethod r = pm \<and>
        pr_ProviderAccountID r = accountID)"
    using r(3) fields w1 by simp
  ultimately show ?thesis using account rp(2) fields x by blast
qed

definition sample_inactive_route :: "(err + PaymentRoute) \<times> unit world" where
  "sample_inactive_route =
     route_Create (Some (\<lambda>_. Inr ''{}'')) None ServiceCollection PaymentMethodMomo ''pacc_1'' 0 False
       (sample_world\<lparr>db := (db sample_world)\<lparr>t_paymentRoutes := [], zero_defaults := True\<rparr>\<rparr>)"

lemma created_route_witness:
  "\<exists>route. fst sample_inactive_route = Inr route \<and> pr_Active route \<and> pr_Priority route = 1 \<and>
     t_paymentRoutes (db (snd sample_inactive_route)) = [route]"
proof -
  let ?w = "sample_world\<lparr>db := (db sample_world)\<lparr>t_paymentRoutes := [], zero_defaults := True\<rparr>\<rparr>"
  have "isl (fst sample_inactive_route) = False" by code_simp
  then obtain route where r: "fst sample_inactive_route = Inr route"
    by (cases "fst sample_inactive_route") auto
  then have "route_Create (Some (\<lambda>_. Inr ''{}'')) None ServiceCollection PaymentMethodMomo ''pacc_1'' 0 False ?w =
      (Inr route, snd sample_inactive_route)"
    unfolding sample_inactive_route_def by (metis prod.collapse)
  from created_route [OF this] r show ?thesis by auto
qed

end
