(* ===== verification/Administration.thy ===== *)
theory Administration
  imports ProviderAdminFacts Lockout RoutingAdmin Runs
begin

text \<open>
  The administrative side of the engine against its payments: signing in, managing
  administrators, roles, apps, credentials, providers and routes, and checking health. Each
  is an operation of the catalogue \<open>administers\<close>; none of them touches the tables of
  transactions, attempts and webhook events, so each is a step the payment engine is
  indifferent to.
\<close>

named_theorems quiet "actions that leave the payment tables alone"

section \<open>The statements\<close>

lemmas quiet_db_intros = db_same_pay.moves_reads db_same_pay.moves_writes db_same_pay.moves_intros
  db_same_pay.moves_create_row db_same_pay.moves_statement

lemma quiet_upsert:
  assumes "\<And>f d. db_same_pay d (upd f d)"
  shows "moves db_same_pay (upsert rows upd conflict f clash row)"
  unfolding upsert_def
  by (intro db_same_pay.moves_bindE db_same_pay.moves_statement)
     (auto simp: moves_def db_same_pay.refl_R assms)

lemma table_quiet:
  "db_same_pay d (t_adminUsers_update fu d)" "db_same_pay d (t_adminSessions_update fs d)"
  "db_same_pay d (t_roles_update fr d)" "db_same_pay d (t_permissions_update fp d)"
  "db_same_pay d (t_apps_update fa d)" "db_same_pay d (t_appCredentials_update fc d)"
  "db_same_pay d (t_appSessions_update fx d)" "db_same_pay d (t_providerAccounts_update fq d)"
  "db_same_pay d (t_providerHealth_update fh d)" "db_same_pay d (t_paymentRoutes_update fm d)"
  by (simp_all add: db_same_pay_def)

lemmas quiet_table_intros = quiet_db_intros quiet_upsert table_quiet

lemma quiet_admin_statements [quiet]:
  "moves same_pay (on_db (AdminUsers_ByEmail e))" "moves same_pay (on_db (AdminUsers_ActiveByID i))"
  "moves same_pay (on_db_now (\<lambda>t. AdminUsers_Create t u))" "moves same_pay (on_db (AdminUsers_RecordFailedLogin i l))"
  "moves same_pay (on_db (AdminUsers_RecordLogin i t))" "moves same_pay (on_db (AdminUsers_SetPassword i h t))"
  "moves same_pay (on_db (AdminUsers_SetRole i r))" "moves same_pay (on_db (AdminUsers_SetStatus i s))"
  "moves same_pay (on_db (AdminUsers_CountWithRole r))"
  unfolding repo_defs
  by (auto intro!: same_pay_db same_pay_db_now quiet_table_intros)

lemma quiet_session_statements [quiet]:
  "moves same_pay (on_db_now (\<lambda>t. AdminSessions_Create t s))"
  "moves same_pay (on_db (AdminSessions_LiveByRefresh i h t))" "moves same_pay (on_db (AdminSessions_Live i h t))"
  "moves same_pay (on_db (AdminSessions_RevokeByToken i h t))" "moves same_pay (on_db (AdminSessions_RevokeAllFor i t))"
  "moves same_pay (on_db_now (\<lambda>t. AppSessions_Create t x))"
  "moves same_pay (on_db (AppSessions_LiveByRefresh i c h t))" "moves same_pay (on_db (AppSessions_Live i c h t))"
  "moves same_pay (on_db (AppSessions_RevokeForApp i t))" "moves same_pay (on_db (AppSessions_RevokeForCredential i t))"
  unfolding repo_defs
  by (auto intro!: same_pay_db same_pay_db_now quiet_table_intros)

lemma quiet_rotations [quiet]:
  "moves same_pay (on_db (AdminSessions_Rotate i h s))" "moves same_pay (on_db (AppSessions_Rotate i h x))"
  unfolding AdminSessions_Rotate_def AppSessions_Rotate_def Let_def
  by (intro same_pay_db db_same_pay.moves_bindE db_same_pay.moves_statement,
      simp add: moves_def db_same_pay_def affected_def bindE_def failIf_def)+

lemma quiet_app_statements [quiet]:
  "moves same_pay (on_db (Apps_ByID i))" "moves same_pay (on_db (Apps_ActiveByID i))"
  "moves same_pay (on_db_now (\<lambda>t. Apps_Create t a))" "moves same_pay (on_db (Apps_Update i f))"
  "moves same_pay (on_db (Apps_SetStatus i s))"
  "moves same_pay (on_db_now (\<lambda>t. AppCredentials_Create t c))"
  "moves same_pay (on_db (AppCredentials_ActiveByClientID i))" "moves same_pay (on_db (AppCredentials_ActiveInApp i j))"
  "moves same_pay (on_db (AppCredentials_InApp i j))" "moves same_pay (on_db (AppCredentials_Revoke i j))"
  "moves same_pay (on_db (AppCredentials_Rotate i h))" "moves same_pay (on_db (AppCredentials_RecordUse i t))"
  unfolding repo_defs
  by (auto intro!: same_pay_db same_pay_db_now quiet_table_intros)

lemma quiet_role_statements [quiet]:
  "moves same_pay (on_db (Permissions_Upsert p))" "moves same_pay (on_db (Permissions_ByCode au c))"
  "moves same_pay (on_db (Permissions_ByCodes au cs))" "moves same_pay (on_db (Permissions_List au))"
  "moves same_pay (on_db (Roles_Upsert r))" "moves same_pay (on_db (Roles_ByName n))"
  "moves same_pay (on_db (Roles_Exists n))" "moves same_pay (on_db (Roles_SetDescription i n))"
  unfolding repo_defs
  by (auto intro!: same_pay_db same_pay_db_now quiet_table_intros)

lemma quiet_join_statements [quiet]:
  "moves same_pay (on_db (Roles_ReplacePermissions r ps))" "moves same_pay (on_db (Roles_Create r))"
  "moves same_pay (on_db (Roles_WithPermissions n))" "moves same_pay (on_db Roles_List)"
  "moves same_pay (on_db (Roles_Delete r))"
  unfolding Roles_ReplacePermissions_def Roles_Create_def Roles_WithPermissions_def Roles_List_def Roles_Delete_def
  by (auto intro!: same_pay_db quiet_table_intros)
     (auto simp: moves_def db_same_pay_def)

lemma quiet_provider_statements [quiet]:
  "moves same_pay (on_db_now (\<lambda>t. ProviderAccounts_Create t a))" "moves same_pay (on_db (ProviderAccounts_ByID i))"
  "moves same_pay (on_db (ProviderAccounts_Exists i))" "moves same_pay (on_db (ProviderAccounts_Update i f))"
  "moves same_pay (on_db (ProviderAccounts_Restore i f))" "moves same_pay (on_db (ProviderAccounts_SetConfig i c h))"
  "moves same_pay (on_db (ProviderAccounts_SetActive i b))" "moves same_pay (on_db (ProviderHealth_ByAccount i))"
  "moves same_pay (on_db_now (\<lambda>t. ProviderHealth_Save t s))"
  "moves same_pay (on_db_now (\<lambda>t. PaymentRoutes_Create t r))" "moves same_pay (on_db (PaymentRoutes_Update i g))"
  unfolding repo_defs
  by (auto intro!: same_pay_db same_pay_db_now quiet_table_intros)

section \<open>The building blocks\<close>

lemma quiet_audit [quiet]: "moves same_pay (RecordBestEffort a actor ty action entity i meta ip ua)"
  by (rule moves_weaken [OF trail_RecordBestEffort]) (simp add: same_pay_def only_trail_fields)

lemma quiet_draw [quiet]: "moves same_pay (draw f)"
  by (rule movesI) (simp add: draw_def same_pay_def)

lemma quiet_orE [quiet]: "moves same_pay m \<Longrightarrow> moves same_pay (orE m e)"
  unfolding orE_def by (rule same_pay.moves_handleE) (auto intro: same_pay.moves_intros split: sum.split)

lemma quiet_modify [quiet]: "(\<And>w. same_pay w (f w)) \<Longrightarrow> moves same_pay (modify f)"
  by (rule same_pay.moves_modify)

lemma quiet_option [quiet]:
  "moves same_pay m \<Longrightarrow> (\<And>x. moves same_pay (f x)) \<Longrightarrow> moves same_pay (case z of None \<Rightarrow> m | Some x \<Rightarrow> f x)"
  by (cases z) simp_all

lemma quiet_sum [quiet]:
  "(\<And>e. moves same_pay (g e)) \<Longrightarrow> (\<And>x. moves same_pay (f x)) \<Longrightarrow> moves same_pay (case z of Inl e \<Rightarrow> g e | Inr x \<Rightarrow> f x)"
  by (cases z) simp_all

lemma quiet_pair [quiet]: "(\<And>x y. moves same_pay (f x y)) \<Longrightarrow> moves same_pay (case z of (x, y) \<Rightarrow> f x y)"
  by (cases z) simp

lemma quiet_if [quiet]: "moves same_pay m \<Longrightarrow> moves same_pay n \<Longrightarrow> moves same_pay (if b then m else n)"
  by simp

lemma quiet_let [quiet]: "(\<And>x. moves same_pay (f x)) \<Longrightarrow> moves same_pay (Let x f)"
  by simp

lemmas [quiet] = same_pay.world_moves same_pay_NewID same_pay_wrapE same_pay_outside

section \<open>The operations\<close>

lemma quiet_authz [quiet]:
  "moves same_pay (resolve audience codes)" "moves same_pay (EffectivePermissions n)"
  "moves same_pay (ListPermissions n)" "moves same_pay ListRoles" "moves same_pay (RoleExists n)"
  "moves same_pay (customRole n)" "moves same_pay (CreateRole a actor n d codes)"
  unfolding resolve_def EffectivePermissions_def ListPermissions_def ListRoles_def RoleExists_def customRole_def
    CreateRole_def Let_def
  by (intro quiet)+

lemma quiet_roles [quiet]:
  "moves same_pay (UpdateRole a actor n d codes)" "moves same_pay (DeleteRole a actor n)"
  "moves same_pay (seedRole r)"
  unfolding UpdateRole_def DeleteRole_def seedRole_def Let_def
  by (intro quiet)+

lemma quiet_seed [quiet]:
  "moves same_pay (seed_permissions ps)" "moves same_pay (seed_roles rs)" "moves same_pay Seed"
proof -
  show "moves same_pay (seed_permissions ps)" for ps by (induction ps) (auto intro!: quiet)
  moreover show "moves same_pay (seed_roles rs)" for rs by (induction rs) (auto intro!: quiet)
  ultimately show "moves same_pay Seed" unfolding Seed_def by (intro quiet)
qed

lemma quiet_tokens [quiet]:
  "moves same_pay (Issue A c ttl)" "moves same_pay (Verify A token)" "moves same_pay (HashPassword A p)"
  "moves same_pay (SecureRandomToken A prefix n)" "moves same_pay (issueTokenPair A c)"
  unfolding Issue_def Verify_def HashPassword_def SecureRandomToken_def issueTokenPair_def Let_def
  by (intro quiet)+

lemma quiet_admin_auth [quiet]:
  "moves same_pay (admin_issue A u old ip ua)" "moves same_pay (activeUser A i)"
  "moves same_pay (IssuePasswordToken A e p ip ua)" "moves same_pay (admin_RefreshToken A raw ip ua)"
  "moves same_pay (admin_AuthenticateClaims A claims)" "moves same_pay (admin_AuthenticateBearer A raw)"
  "moves same_pay (LogoutBearer A raw ip ua)"
  unfolding admin_issue_def activeUser_def IssuePasswordToken_def admin_RefreshToken_def
    admin_AuthenticateClaims_def admin_AuthenticateBearer_def LogoutBearer_def Let_def
  by (intro quiet)+

lemma quiet_app_auth [quiet]:
  "moves same_pay (app_issue A x old)" "moves same_pay (fromCredential c)"
  "moves same_pay (ValidateClientCredentials A i s)" "moves same_pay (IssueClientToken A i s)"
  "moves same_pay (app_identity i j)" "moves same_pay (app_RefreshToken A raw)"
  "moves same_pay (app_AuthenticateClaims A claims)" "moves same_pay (app_AuthenticateBearer A raw)"
  unfolding app_issue_def fromCredential_def ValidateClientCredentials_def IssueClientToken_def app_identity_def
    app_RefreshToken_def app_AuthenticateClaims_def app_AuthenticateBearer_def Let_def
  by (intro quiet)+

lemma quiet_admin_users [quiet]:
  "moves same_pay (known_role A r)" "moves same_pay (AdminUser_Create A actor n e p r)"
  "moves same_pay (ChangePassword A actor i p)" "moves same_pay (ChangeRole A actor i r)"
  "moves same_pay (ChangeStatus A actor i s)"
  unfolding known_role_def AdminUser_Create_def ChangePassword_def ChangeRole_def ChangeStatus_def Let_def
  by (intro quiet)+

lemma quiet_apps [quiet]:
  "moves same_pay (auditChange A actor action resource i meta)" "moves same_pay (GetApp i)"
  "moves same_pay (CreateApp A actor input)" "moves same_pay (UpdateApp A actor i input)"
  "moves same_pay (ChangeAppStatus A actor i s)" "moves same_pay (newSecret A)"
  "moves same_pay (CreateCredential A actor i n sc ex)" "moves same_pay (RevokeCredential A actor i j)"
  "moves same_pay (RotateCredential A actor i j)"
  unfolding auditChange_def GetApp_def CreateApp_def UpdateApp_def ChangeAppStatus_def newSecret_def
    CreateCredential_def RevokeCredential_def RotateCredential_def Let_def
  by (intro quiet)+

lemma quiet_routes [quiet]:
  "moves same_pay (route_Create a actor service pm i priority on_off)"
  "moves same_pay (route_Update a actor i priority on_off)"
proof -
  let ?stored = "\<lambda>priority. bindE (NewID ''route'') (\<lambda>r.
      bindE (on_db_now (\<lambda>t. PaymentRoutes_Create t
        \<lparr>pr_ID = r, pr_CreatedAt = 0, pr_ServiceType = service, pr_PaymentMethod = pm,
         pr_ProviderAccountID = i, pr_ProviderName = [], pr_Priority = priority, pr_Active = on_off\<rparr>)) (\<lambda>route.
      bindE (RecordBestEffort a (ActorID actor) ''admin'' ''route.created'' ''payment_route'' (pr_ID route) None [] []) (\<lambda>_.
      returnE route)))"
  have w: "moves same_pay (?stored p)" for p by (intro quiet)
  show "moves same_pay (route_Create a actor service pm i priority on_off)"
    unfolding route_Create_def Let_def
    by (intro same_pay.moves_handleE quiet)
       (auto simp: same_pay.refl_R moves_def split: option.split intro!: w [unfolded moves_def, rule_format])
  show "moves same_pay (route_Update a actor i priority on_off)"
    unfolding route_Update_def by (intro quiet)
qed

lemma same_tables_same_pay: "same_tables w w' \<Longrightarrow> same_pay w w'"
  by (auto simp: same_tables_def db_reads_def same_pay_def)

lemma quiet_Reload [quiet]: "moves same_pay (Reload E i)"
  by (rule moves_weaken [OF same_tables_Reload same_tables_same_pay])

lemma quiet_Disable [quiet]: "moves same_pay (Disable i)"
  by (rule moves_weaken [OF same_tables_Disable same_tables_same_pay])

lemma quiet_provider_admin [quiet]:
  "moves same_pay (encode E config)" "moves same_pay (reload_or_restore E b i f)"
  "moves same_pay (CreateAccount E a actor input)" "moves same_pay (UpdateSettings E a actor i settings)"
  "moves same_pay (UpdateConfig E a actor i config)" "moves same_pay (Activate E a actor i)"
  "moves same_pay (Deactivate a actor i)"
  unfolding encode_def reload_or_restore_def CreateAccount_def UpdateSettings_def UpdateConfig_def
    Activate_def Deactivate_def Let_def
  by (intro quiet)+

lemma quiet_Save: "same_pay w (snd (on_db_now (\<lambda>s. ProviderHealth_Save s snap) w))"
  using quiet_provider_statements(9) unfolding moves_def by blast

lemma quiet_health_save [quiet]: "moves same_pay (health_save i latency cause)"
  unfolding health_save_def
  by (intro same_pay.moves_bindE same_pay.moves_Now same_pay.moves_handleE quiet_provider_statements)
     (auto simp: moves_def same_pay.refl_R quiet_Save split: sum.split)

lemma quiet_checks: "same_pay w (snd (check_each ps errs w))"
proof (induction ps errs w rule: check_each.induct)
  case (1 errs w)
  then show ?case by (simp add: same_pay.refl_R)
next
  case (2 p ps errs w)
  obtain r w1 where h: "Health (rt_AccountID p) w = (r, w1)" by fastforce
  obtain saved w2 where s: "health_save (rt_AccountID p) (now w1 - now w)
      (case r of Inl e \<Rightarrow> Some e | Inr _ \<Rightarrow> None) w1 = (saved, w2)" by fastforce
  have "same_pay w w1" using movesD [OF same_Health h] by (rule engine_same_pay)
  moreover have "same_pay w1 w2" by (rule movesD [OF quiet_health_save s])
  ultimately show ?case
    using 2 h s by (auto simp: Let_def intro: same_pay.trans_R)
qed

lemma quiet_CheckAll [quiet]: "moves same_pay CheckAll"
  by (rule movesI) (simp add: CheckAll_def quiet_checks)

section \<open>The catalogue\<close>

text \<open>\<open>E\<close> is the environment of the engine, \<open>A\<close> that of the identity services.\<close>

inductive administers :: "'p env \<Rightarrow> auth_env \<Rightarrow> 'p world \<Rightarrow> 'p world \<Rightarrow> bool" for E A where
  login: "IssuePasswordToken A email password ip ua w = (r1, w') \<Longrightarrow> administers E A w w'"
| refresh: "admin_RefreshToken A raw ip ua w = (r1, w') \<Longrightarrow> administers E A w w'"
| authenticate: "admin_AuthenticateBearer A raw w = (r2, w') \<Longrightarrow> administers E A w w'"
| logout: "LogoutBearer A raw ip ua w = (r3, w') \<Longrightarrow> administers E A w w'"
| client_login: "IssueClientToken A clientID secret w = (r1, w') \<Longrightarrow> administers E A w w'"
| client_refresh: "app_RefreshToken A raw w = (r1, w') \<Longrightarrow> administers E A w w'"
| client_authenticate: "app_AuthenticateBearer A raw w = (r4, w') \<Longrightarrow> administers E A w w'"
| create_admin: "AdminUser_Create A actor name email password role w = (r2, w') \<Longrightarrow> administers E A w w'"
| change_password: "ChangePassword A actor i password w = (r3, w') \<Longrightarrow> administers E A w w'"
| change_role: "ChangeRole A actor i role w = (r3, w') \<Longrightarrow> administers E A w w'"
| change_status: "ChangeStatus A actor i status w = (r3, w') \<Longrightarrow> administers E A w w'"
| seed: "Seed w = (r3, w') \<Longrightarrow> administers E A w w'"
| create_role: "CreateRole (auth_audit A) actor name description codes w = (r5, w') \<Longrightarrow> administers E A w w'"
| update_role: "UpdateRole (auth_audit A) actor name description codes w = (r3, w') \<Longrightarrow> administers E A w w'"
| delete_role: "DeleteRole (auth_audit A) actor name w = (r3, w') \<Longrightarrow> administers E A w w'"
| create_app: "CreateApp A actor input w = (r6, w') \<Longrightarrow> administers E A w w'"
| update_app: "UpdateApp A actor i input w = (r6, w') \<Longrightarrow> administers E A w w'"
| change_app_status: "ChangeAppStatus A actor i status w = (r3, w') \<Longrightarrow> administers E A w w'"
| create_credential: "CreateCredential A actor appID name scopes expires w = (r7, w') \<Longrightarrow> administers E A w w'"
| revoke_credential: "RevokeCredential A actor appID i w = (r3, w') \<Longrightarrow> administers E A w w'"
| rotate_credential: "RotateCredential A actor appID i w = (r7, w') \<Longrightarrow> administers E A w w'"
| create_account: "CreateAccount E (auth_audit A) actor account w = (r8, w') \<Longrightarrow> administers E A w w'"
| update_settings: "UpdateSettings E (auth_audit A) actor i settings w = (r3, w') \<Longrightarrow> administers E A w w'"
| update_config: "UpdateConfig E (auth_audit A) actor i config w = (r3, w') \<Longrightarrow> administers E A w w'"
| activate: "Activate E (auth_audit A) actor i w = (r3, w') \<Longrightarrow> administers E A w w'"
| deactivate: "Deactivate (auth_audit A) actor i w = (r3, w') \<Longrightarrow> administers E A w w'"
| create_route: "route_Create (auth_audit A) actor service pm i priority on_off w = (r9, w') \<Longrightarrow> administers E A w w'"
| update_route: "route_Update (auth_audit A) actor i priority on_off w = (r3, w') \<Longrightarrow> administers E A w w'"
| check_health: "CheckAll w = (r3, w') \<Longrightarrow> administers E A w w'"

lemma administers_quiet: "administers E A w w' \<Longrightarrow> same_pay w w'"
  by (erule administers.cases; drule movesD [rotated]; (rule quiet)?; simp)

text \<open>C21: administration and payments. Whatever sequence of administrative operations runs between
  two steps of the payment engine, the tables of transactions, attempts and webhook events
  stay as they are, so the engine's state after them is one it can reach by itself: every
  invariant of the payment engine survives any administration.\<close>

lemma administration_keeps_payments:
  assumes "(administers E A)\<^sup>*\<^sup>* (sys_world s) w'"
  shows "t_transactions (db w') = t_transactions (db (sys_world s)) \<and>
         t_attempts (db w') = t_attempts (db (sys_world s)) \<and>
         t_webhookEvents (db w') = t_webhookEvents (db (sys_world s)) \<and>
         system_steps E s (s\<lparr>sys_world := w'\<rparr>)"
proof -
  have "same_pay (sys_world s) w'"
    using assms by (induction rule: rtranclp_induct) (auto intro: same_pay.refl_R same_pay.trans_R administers_quiet)
  then show ?thesis using system_step.Quiet [of s w' E] by (auto simp: same_pay_def)
qed

definition sample_deactivated :: "unit world" where
  "sample_deactivated = snd (CheckAll (snd (Deactivate (auth_audit sample_auth) None ''pacc_1'' (sys_world sample_admitted))))"

lemma administration_keeps_payments_witness:
  "length (t_transactions (db sample_deactivated)) = 1 \<and> items sample_deactivated = [] \<and>
   list_all (\<lambda>a. \<not> pa_Active a) (t_providerAccounts (db sample_deactivated)) \<and>
   t_transactions (db sample_deactivated) = t_transactions (db (sys_world sample_admitted)) \<and>
   system_steps sample_env sample_admitted (sample_admitted\<lparr>sys_world := sample_deactivated\<rparr>)"
proof -
  let ?w1 = "snd (Deactivate (auth_audit sample_auth) None ''pacc_1'' (sys_world sample_admitted))"
  have "administers sample_env sample_auth (sys_world sample_admitted) ?w1"
    by (rule administers.deactivate) (rule prod.collapse [symmetric])
  moreover have "administers sample_env sample_auth ?w1 sample_deactivated"
    unfolding sample_deactivated_def by (rule administers.check_health) (rule prod.collapse [symmetric])
  ultimately have "(administers sample_env sample_auth)\<^sup>*\<^sup>* (sys_world sample_admitted) sample_deactivated"
    by (meson converse_rtranclp_into_rtranclp rtranclp.rtrancl_refl)
  note kept = administration_keeps_payments [OF this]
  have "length (t_transactions (db sample_deactivated)) = 1 \<and> items sample_deactivated = [] \<and>
      list_all (\<lambda>a. \<not> pa_Active a) (t_providerAccounts (db sample_deactivated))" by code_simp
  with kept show ?thesis by blast
qed

end
