(* ===== verification/AdminDto.thy ===== *)
theory AdminDto
  imports Dto
begin

text \<open>
  \<open>internal/dto/admin.go\<close>: the administrative request payloads, their normalization and the
  rules of their tags, in field order. A configuration that was not sent is \<open>None\<close>.
\<close>

text \<open>The rules whose meaning depends on the kind of the field.\<close>

definition rule_min_len :: "nat \<Rightarrow> string \<Rightarrow> string \<Rightarrow> rule" where
  "rule_min_len n name v = Rule (n \<le> rune_count v) (name @ '' must be at least '' @ format_nat n)"

definition required_map :: "string \<Rightarrow> gmap option \<Rightarrow> rule" where
  "required_map name v = Rule (v \<noteq> None) (name @ '' is required'')"

definition required_charges :: "string \<Rightarrow> ChargeSchedule \<Rightarrow> rule" where
  "required_charges name v =
     Rule (v \<noteq> \<lparr>cs_Collection = \<lparr>cr_Type = [], cr_Value = 0\<rparr>, cs_Disbursement = \<lparr>cr_Type = [], cr_Value = 0\<rparr>\<rparr>)
       (name @ '' is required'')"

definition environments :: "string list" where "environments = [''sandbox'', ''production'']"

section \<open>Administrators\<close>

record CreateAdminRequest =
  car_Name :: string
  car_Email :: string
  car_Password :: string
  car_Role :: string

definition CreateAdminRequest_Normalize :: "CreateAdminRequest \<Rightarrow> CreateAdminRequest" where
  "CreateAdminRequest_Normalize r =
     r\<lparr>car_Name := trim_space (car_Name r), car_Email := to_lower (trim_space (car_Email r)),
       car_Role := to_lower (trim_space (car_Role r))\<rparr>"

definition CreateAdminRequest_rules :: "(string \<Rightarrow> bool) \<Rightarrow> CreateAdminRequest \<Rightarrow> rule list" where
  "CreateAdminRequest_rules is_email r =
     [required ''name'' (car_Name r), rule_max 255 ''name'' (car_Name r),
      required ''email'' (car_Email r), rule_email is_email ''email'' (car_Email r),
      required ''password'' (car_Password r), rule_min_len 8 ''password'' (car_Password r),
      rule_max 64 ''role'' (car_Role r)]"

record ChangePasswordRequest =
  cpw_Password :: string

definition ChangePasswordRequest_Normalize :: "ChangePasswordRequest \<Rightarrow> ChangePasswordRequest" where
  "ChangePasswordRequest_Normalize r = r"

definition ChangePasswordRequest_rules :: "ChangePasswordRequest \<Rightarrow> rule list" where
  "ChangePasswordRequest_rules r =
     [required ''password'' (cpw_Password r), rule_min_len 8 ''password'' (cpw_Password r)]"

record StatusRequest =
  str_Status :: string

definition StatusRequest_Normalize :: "StatusRequest \<Rightarrow> StatusRequest" where
  "StatusRequest_Normalize r = r\<lparr>str_Status := to_lower (trim_space (str_Status r))\<rparr>"

definition ChangeAdminStatusRequest_rules :: "StatusRequest \<Rightarrow> rule list" where
  "ChangeAdminStatusRequest_rules r =
     [required ''status'' (str_Status r), rule_oneof [''active'', ''inactive''] ''status'' (str_Status r)]"

definition ChangeAppStatusRequest_rules :: "StatusRequest \<Rightarrow> rule list" where
  "ChangeAppStatusRequest_rules r =
     [required ''status'' (str_Status r), rule_oneof [''active'', ''disabled'', ''suspended''] ''status'' (str_Status r)]"

record ChangeRoleRequest =
  crr_Role :: string

definition ChangeRoleRequest_Normalize :: "ChangeRoleRequest \<Rightarrow> ChangeRoleRequest" where
  "ChangeRoleRequest_Normalize r = r\<lparr>crr_Role := to_lower (trim_space (crr_Role r))\<rparr>"

definition ChangeRoleRequest_rules :: "ChangeRoleRequest \<Rightarrow> rule list" where
  "ChangeRoleRequest_rules r = [required ''role'' (crr_Role r), rule_max 64 ''role'' (crr_Role r)]"

record RoleRequest =
  ror_Name :: string
  ror_Description :: string
  ror_Permissions :: "string list"

definition RoleRequest_Normalize :: "RoleRequest \<Rightarrow> RoleRequest" where
  "RoleRequest_Normalize r =
     r\<lparr>ror_Name := to_lower (trim_space (ror_Name r)), ror_Description := trim_space (ror_Description r)\<rparr>"

definition RoleRequest_rules :: "RoleRequest \<Rightarrow> rule list" where
  "RoleRequest_rules r =
     [rule_max 64 ''name'' (ror_Name r), rule_max 255 ''description'' (ror_Description r)]"

section \<open>Applications\<close>

record AppRequest =
  apr_Name :: string
  apr_Description :: string
  apr_Environment :: string
  apr_Currency :: string
  apr_Charges :: "ChargeSchedule option"

definition AppRequest_Normalize :: "AppRequest \<Rightarrow> AppRequest" where
  "AppRequest_Normalize r =
     r\<lparr>apr_Name := trim_space (apr_Name r), apr_Environment := to_lower (trim_space (apr_Environment r)),
       apr_Currency := to_upper (trim_space (apr_Currency r))\<rparr>"

definition CreateAppRequest_rules :: "AppRequest \<Rightarrow> rule list" where
  "CreateAppRequest_rules r =
     [required ''name'' (apr_Name r), rule_max 255 ''name'' (apr_Name r),
      rule_max 1000 ''description'' (apr_Description r)] @
     omitempty (apr_Environment r = []) [rule_oneof environments ''environment'' (apr_Environment r)] @
     [required ''currency'' (apr_Currency r), rule_len 3 ''currency'' (apr_Currency r)]"

definition UpdateAppRequest_rules :: "AppRequest \<Rightarrow> rule list" where
  "UpdateAppRequest_rules r =
     [rule_max 255 ''name'' (apr_Name r), rule_max 1000 ''description'' (apr_Description r)] @
     omitempty (apr_Environment r = []) [rule_oneof environments ''environment'' (apr_Environment r)] @
     omitempty (apr_Currency r = []) [rule_len 3 ''currency'' (apr_Currency r)]"

record CreateCredentialRequest =
  ccr_Name :: string
  ccr_Scopes :: string
  ccr_ExpiresAt :: string

definition CreateCredentialRequest_Normalize :: "CreateCredentialRequest \<Rightarrow> CreateCredentialRequest" where
  "CreateCredentialRequest_Normalize r =
     r\<lparr>ccr_Name := trim_space (ccr_Name r), ccr_Scopes := trim_space (ccr_Scopes r),
       ccr_ExpiresAt := trim_space (ccr_ExpiresAt r)\<rparr>"

definition CreateCredentialRequest_rules :: "CreateCredentialRequest \<Rightarrow> rule list" where
  "CreateCredentialRequest_rules r = [rule_max 255 ''name'' (ccr_Name r)]"

section \<open>Providers and routes\<close>

record CreateProviderAccountRequest =
  cpa_ProviderCode :: string
  cpa_Name :: string
  cpa_Environment :: string
  cpa_Country :: string
  cpa_Currency :: string
  cpa_Charges :: "ChargeSchedule option"
  cpa_Config :: "gmap option"

definition CreateProviderAccountRequest_Normalize ::
    "CreateProviderAccountRequest \<Rightarrow> CreateProviderAccountRequest" where
  "CreateProviderAccountRequest_Normalize r =
     r\<lparr>cpa_ProviderCode := to_lower (trim_space (cpa_ProviderCode r)), cpa_Name := trim_space (cpa_Name r),
       cpa_Environment := to_lower (trim_space (cpa_Environment r)),
       cpa_Country := to_upper (trim_space (cpa_Country r)), cpa_Currency := to_upper (trim_space (cpa_Currency r))\<rparr>"

definition CreateProviderAccountRequest_rules ::
    "(string \<Rightarrow> bool) \<Rightarrow> CreateProviderAccountRequest \<Rightarrow> rule list" where
  "CreateProviderAccountRequest_rules region r =
     [required ''provider_code'' (cpa_ProviderCode r), rule_identifier ''provider_code'' (cpa_ProviderCode r),
      required ''name'' (cpa_Name r), rule_max 255 ''name'' (cpa_Name r)] @
     omitempty (cpa_Environment r = []) [rule_oneof environments ''environment'' (cpa_Environment r)] @
     [required ''country'' (cpa_Country r), rule_country region ''country'' (cpa_Country r),
      required ''currency'' (cpa_Currency r), rule_len 3 ''currency'' (cpa_Currency r),
      required_map ''config'' (cpa_Config r)]"

record UpdateProviderSettingsRequest =
  ups_Country :: string
  ups_Currency :: string
  ups_Charges :: ChargeSchedule

definition UpdateProviderSettingsRequest_Normalize ::
    "UpdateProviderSettingsRequest \<Rightarrow> UpdateProviderSettingsRequest" where
  "UpdateProviderSettingsRequest_Normalize r =
     r\<lparr>ups_Country := to_upper (trim_space (ups_Country r)), ups_Currency := to_upper (trim_space (ups_Currency r))\<rparr>"

definition UpdateProviderSettingsRequest_rules ::
    "(string \<Rightarrow> bool) \<Rightarrow> UpdateProviderSettingsRequest \<Rightarrow> rule list" where
  "UpdateProviderSettingsRequest_rules region r =
     [required ''country'' (ups_Country r), rule_country region ''country'' (ups_Country r),
      required ''currency'' (ups_Currency r), rule_len 3 ''currency'' (ups_Currency r),
      required_charges ''charges'' (ups_Charges r)]"

record UpdateProviderConfigRequest =
  upc_Config :: "gmap option"

definition UpdateProviderConfigRequest_Normalize ::
    "UpdateProviderConfigRequest \<Rightarrow> UpdateProviderConfigRequest" where
  "UpdateProviderConfigRequest_Normalize r = r"

definition UpdateProviderConfigRequest_rules :: "UpdateProviderConfigRequest \<Rightarrow> rule list" where
  "UpdateProviderConfigRequest_rules r = [required_map ''config'' (upc_Config r)]"

record CreateRouteRequest =
  crt_ServiceType :: string
  crt_PaymentMethod :: string
  crt_ProviderAccountID :: string
  crt_Priority :: int
  crt_Active :: bool

definition CreateRouteRequest_Normalize :: "CreateRouteRequest \<Rightarrow> CreateRouteRequest" where
  "CreateRouteRequest_Normalize r =
     r\<lparr>crt_ServiceType := to_lower (trim_space (crt_ServiceType r)),
       crt_PaymentMethod := to_lower (trim_space (crt_PaymentMethod r)),
       crt_ProviderAccountID := trim_space (crt_ProviderAccountID r)\<rparr>"

definition CreateRouteRequest_rules :: "CreateRouteRequest \<Rightarrow> rule list" where
  "CreateRouteRequest_rules r =
     [required ''service_type'' (crt_ServiceType r),
      rule_oneof [''collection'', ''disbursement''] ''service_type'' (crt_ServiceType r),
      required ''payment_method'' (crt_PaymentMethod r),
      rule_oneof [''momo'', ''card'', ''bank_transfer'', ''wallet''] ''payment_method'' (crt_PaymentMethod r),
      required ''provider_account_id'' (crt_ProviderAccountID r)] @
     omitempty (crt_Priority r = 0) [rule_min 1 ''priority'' (crt_Priority r)]"

record UpdateRouteRequest =
  urr_Priority :: int
  urr_Active :: bool

definition UpdateRouteRequest_Normalize :: "UpdateRouteRequest \<Rightarrow> UpdateRouteRequest" where
  "UpdateRouteRequest_Normalize r = r"

definition UpdateRouteRequest_rules :: "UpdateRouteRequest \<Rightarrow> rule list" where
  "UpdateRouteRequest_rules r = [rule_min 1 ''priority'' (urr_Priority r)]"

end
