(* ===== verification/Respond.thy ===== *)
theory Respond
  imports Middleware
begin

text \<open>
  \<open>internal/platform/respond.go\<close> and \<open>request.go\<close>: what a handler writes, the bounds of a
  listing and the strict decoding of a request body. A response is the status with the
  payload of the envelope, or a refusal; writing it to the connection is not modelled.
\<close>

type_synonym 'x response = "refusal + int \<times> 'x"

record 'a PageData =
  pg_Page :: i64
  pg_Total :: i64
  pg_Items :: "'a list"
  pg_Count :: i64

definition JSON :: "int \<Rightarrow> 'x \<Rightarrow> 'x response" where
  "JSON status payload = Inr (status, payload)"

definition api_Error :: "int \<Rightarrow> string \<Rightarrow> string \<Rightarrow> 'x response" where
  "api_Error status code message = Inl (Refusal status code message)"

definition positive :: "string \<Rightarrow> i64 \<Rightarrow> i64" where
  "positive raw fallback =
     (case parse_int raw of Inl _ \<Rightarrow> fallback | Inr n \<Rightarrow> if sint n < 1 then fallback else n)"

text \<open>The query is the list of its parameters; a missing one reads as empty.\<close>

definition query :: "(string \<times> string) list \<Rightarrow> string \<Rightarrow> string" where
  "query q name = (case map_of q name of None \<Rightarrow> [] | Some v \<Rightarrow> v)"

definition Pagination :: "(string \<times> string) list \<Rightarrow> i64 \<times> i64" where
  "Pagination q =
     (let page = positive (query q ''page'') 1; per_page = positive (query q ''per_page'') 20
      in (page, if sint per_page > 100 then 100 else per_page))"

text \<open>Slicing outside the bounds of the list panics.\<close>

definition PaginateSlice :: "'a list \<Rightarrow> i64 \<Rightarrow> i64 \<Rightarrow> err + 'a PageData" where
  "PaginateSlice xs page per_page =
     (let page = (if sint page < 1 then 1 else page);
          per_page = (if sint per_page < 1 then 20 else per_page);
          per_page = (if sint per_page > 100 then 100 else per_page);
          total = word_of_nat (length xs);
          start = (page - 1) * per_page;
          start = (if sint start > sint total then total else start);
          stop = start + per_page;
          stop = (if sint stop > sint total then total else stop)
      in if sint start < 0 \<or> sint stop < sint start then Inl (Panic ''slice bounds out of range'')
         else Inr \<lparr>pg_Page = page, pg_Total = total,
                   pg_Items = take (nat (sint stop - sint start)) (drop (nat (sint start)) xs),
                   pg_Count = stop - start\<rparr>)"

section \<open>request.go\<close>

text \<open>The decoder of a payload reads one JSON value and returns what follows it; a value with
  an unknown field is an error.\<close>

type_synonym 'r decoder = "string \<Rightarrow> err + 'r \<times> string"

definition json_space :: "char \<Rightarrow> bool" where
  "json_space c \<longleftrightarrow> c \<in> set [CHR '' '', CHR 0x09, CHR 0x0A, CHR 0x0D]"

definition DecodeJSON :: "'r decoder \<Rightarrow> string \<Rightarrow> err + 'r" where
  "DecodeJSON decode body =
     (case decode body of
        Inl e \<Rightarrow> Inl (Wrap ''invalid json'' e)
      | Inr (v, rest) \<Rightarrow>
          if list_all json_space rest then Inr v else Inl (Msg ''invalid json: multiple values''))"

section \<open>Which page a listing answers\<close>

lemma sint_i64_small: "- (2 ^ 63) \<le> x \<Longrightarrow> x < 2 ^ 63 \<Longrightarrow> sint (word_of_int x :: i64) = x"
  by (simp add: signed_take_bit_int_eq_self sint_sbintrunc')

lemma sint_i64_mid: "0 \<le> x \<Longrightarrow> x \<le> 2 ^ 62 \<Longrightarrow> sint (word_of_int x :: i64) = x"
  by (rule sint_i64_small) simp_all

lemma sint_word_of_nat: "int m < 2 ^ 63 \<Longrightarrow> sint (word_of_nat m :: i64) = int m"
  using sint_i64_small [of "int m"] by simp

lemma not_less_False: "(y :: int) \<le> x \<Longrightarrow> (x < y) = False"
  by simp

text \<open>The arithmetic of one page: \<open>q\<close> is the offset, \<open>n\<close> the length of the list.\<close>

lemma page_words:
  fixes start per_page :: i64 and xs :: "'a list"
  assumes n: "int (length xs) < 2 ^ 62" and q: "sint start = q" "0 \<le> q" "q \<le> 2 ^ 62"
    and p: "1 \<le> sint per_page" "sint per_page \<le> 100"
  defines "t \<equiv> word_of_nat (length xs) :: i64"
  defines "a \<equiv> if sint start > sint t then t else start"
  defines "b \<equiv> if sint (a + per_page) > sint t then t else a + per_page"
  defines "rows \<equiv> take (nat (sint per_page)) (drop (nat q) xs)"
  shows "0 \<le> sint a" and "sint a \<le> sint b"
    and "take (nat (sint b - sint a)) (drop (nat (sint a)) xs) = rows"
    and "b - a = word_of_nat (length rows)"
proof -
  have t: "sint t = int (length xs)"
    unfolding t_def by (rule sint_word_of_nat) (use n in simp)
  have a: "sint a = min q (int (length xs))" using q t by (simp add: a_def)
  have ap: "sint (a + per_page) = sint a + sint per_page"
    by (subst i64_add_eq, rule sint_i64_small) (use a q n p in \<open>auto simp: min_def\<close>)
  have b: "sint b = min (sint a + sint per_page) (int (length xs))"
    using ap t by (simp add: b_def)
  show "0 \<le> sint a" "sint a \<le> sint b" using a b q p by auto
  have len: "length rows = nat (sint b - sint a)"
    using a b q p unfolding rows_def by (auto simp: min_def)
  have d: "drop (nat (sint a)) xs = drop (nat q) xs"
    using a q by (cases "q \<le> int (length xs)") simp_all
  show "take (nat (sint b - sint a)) (drop (nat (sint a)) xs) = rows"
  proof (cases "sint a + sint per_page \<le> int (length xs)")
    case True
    then show ?thesis using b d by (simp add: rows_def)
  next
    case False
    then have "rows = drop (nat q) xs" using a q p by (simp add: rows_def min_def split: if_splits)
    with len d show ?thesis by (metis order_refl take_all)
  qed
  have "b - a = word_of_int (sint b - sint a)" by simp
  also have "\<dots> = word_of_nat (length rows)"
    using len \<open>sint a \<le> sint b\<close> by (simp add: of_nat_nat)
  finally show "b - a = word_of_nat (length rows)" .
qed

text \<open>The page with the number \<open>page\<close> and \<open>per_page\<close> rows, as long as the offset fits.\<close>

lemma paginate_in_range:
  assumes "int (length xs) < 2 ^ 62" and "1 \<le> sint page" and "1 \<le> sint per_page" "sint per_page \<le> 100"
    and "(sint page - 1) * sint per_page \<le> 2 ^ 62"
  shows "PaginateSlice xs page per_page =
    (let rows = take (nat (sint per_page)) (drop (nat ((sint page - 1) * sint per_page)) xs)
     in Inr \<lparr>pg_Page = page, pg_Total = word_of_nat (length xs), pg_Items = rows,
             pg_Count = word_of_nat (length rows)\<rparr>)"
proof -
  let ?t = "word_of_nat (length xs) :: i64"
  let ?s = "(page - 1) * per_page"
  let ?a = "if sint ?s > sint ?t then ?t else ?s"
  let ?b = "if sint (?a + per_page) > sint ?t then ?t else ?a + per_page"
  let ?rows = "take (nat (sint per_page)) (drop (nat ((sint page - 1) * sint per_page)) xs)"
  have "0 \<le> (sint page - 1) * sint per_page" using assms(2,3) by simp
  moreover have "sint ((page - 1) * per_page) = (sint page - 1) * sint per_page"
  proof -
    have "(page - 1) * per_page = word_of_int ((sint page - 1) * sint per_page)" by simp
    moreover have "sint (word_of_int ((sint page - 1) * sint per_page) :: i64) = (sint page - 1) * sint per_page"
      by (rule sint_i64_mid [OF \<open>0 \<le> _\<close> assms(5)])
    ultimately show ?thesis by (simp only:)
  qed
  ultimately have w: "0 \<le> sint ?a" "sint ?a \<le> sint ?b"
      "take (nat (sint ?b - sint ?a)) (drop (nat (sint ?a)) xs) = ?rows" "?b - ?a = word_of_nat (length ?rows)"
    using page_words [OF assms(1) _ _ assms(5) assms(3,4), of "(page - 1) * per_page"] by blast+
  note guards = assms(2-4) [THEN not_less_False] w(1,2) [THEN not_less_False]
  show ?thesis
    unfolding PaginateSlice_def Let_def guards(1-3) if_False guards(4,5) simp_thms(31) w(3,4) by (rule refl)
qed

text \<open>C32: listings. While the offset fits 62 bits, page \<open>p\<close> holds the rows from \<open>(p - 1) * n\<close> on, at
  most \<open>n\<close> of them, and the pages of a list put together are the list; the last page number
  a client can ask for makes the 64-bit offset negative, and slicing panics.\<close>

lemma listing_pages:
  assumes "int (length xs) < 2 ^ 62" and "1 \<le> n" and "n \<le> 100" and "length xs \<le> k * n"
  shows "(\<forall>p. 1 \<le> p \<and> (p - 1) * n \<le> 2 ^ 62 \<longrightarrow>
            PaginateSlice xs (word_of_nat p) (word_of_nat n) =
            (let rows = take n (drop ((p - 1) * n) xs)
             in Inr \<lparr>pg_Page = word_of_nat p, pg_Total = word_of_nat (length xs), pg_Items = rows,
                     pg_Count = word_of_nat (length rows)\<rparr>)) \<and>
         concat (map (\<lambda>p. take n (drop (p * n) xs)) [0..<k]) = xs \<and>
         PaginateSlice xs (word_of_int (2 ^ 63 - 1)) 100 = Inl (Panic ''slice bounds out of range'')"
proof (intro conjI allI impI)
  show "PaginateSlice xs (word_of_nat p) (word_of_nat n) =
      (let rows = take n (drop ((p - 1) * n) xs)
       in Inr \<lparr>pg_Page = word_of_nat p, pg_Total = word_of_nat (length xs), pg_Items = rows,
               pg_Count = word_of_nat (length rows)\<rparr>)" if "1 \<le> p \<and> (p - 1) * n \<le> 2 ^ 62" for p
  proof -
    have "p - 1 \<le> (p - 1) * n" using assms(2) by simp
    also have "\<dots> \<le> 2 ^ 62" using that by blast
    finally have "p - 1 \<le> 2 ^ 62" .
    then have "int p < 2 ^ 63" using that by simp
    then have p: "sint (word_of_nat p :: i64) = int p"
      by (rule sint_word_of_nat)
    have n: "sint (word_of_nat n :: i64) = int n"
      by (rule sint_word_of_nat) (use assms(3) in simp)
    have q: "(int p - 1) * int n = int ((p - 1) * n)" using that by (simp add: of_nat_diff)
    have "int ((p - 1) * n) \<le> int (2 ^ 62)" using that by (subst of_nat_le_iff) simp
    then show ?thesis
      using paginate_in_range [of xs "word_of_nat p" "word_of_nat n"] assms(1-3) that
      unfolding p n q nat_int by simp
  qed
  show "concat (map (\<lambda>p. take n (drop (p * n) xs)) [0..<k]) = xs"
  proof -
    have "concat (map (\<lambda>p. take n (drop (p * n) xs)) [0..<j]) = take (j * n) xs" for j
      by (induction j) (simp_all add: take_add [symmetric] add.commute)
    with assms(4) show ?thesis by simp
  qed
  show "PaginateSlice xs (word_of_int (2 ^ 63 - 1)) 100 = Inl (Panic ''slice bounds out of range'')"
  proof -
    have "sint (word_of_nat (length xs) :: i64) = int (length xs)"
      by (rule sint_word_of_nat) (use assms(1) in simp)
    moreover have "sint ((word_of_int (2 ^ 63 - 1) - 1) * 100 :: i64) = - 200"
      "sint (word_of_int (2 ^ 63 - 1) :: i64) = 2 ^ 63 - 1" "sint (100 :: i64) = 100"
      by simp_all
    ultimately show ?thesis unfolding PaginateSlice_def Let_def by simp
  qed
qed

lemma listing_pages_witness:
  "concat (map (\<lambda>p. take 2 (drop (p * 2) [''a'', ''b'', ''c''])) [0..<2]) = [''a'', ''b'', ''c''] \<and>
   PaginateSlice [''a'', ''b'', ''c''] (word_of_nat 2) (word_of_nat 2) =
     Inr \<lparr>pg_Page = 2, pg_Total = 3, pg_Items = [''c''], pg_Count = 1\<rparr>"
  using listing_pages [of "[''a'', ''b'', ''c'']" 2 2, THEN conjunct1, rule_format, of 2]
    listing_pages [of "[''a'', ''b'', ''c'']" 2 2, THEN conjunct2, THEN conjunct1]
  by (simp add: Let_def)

end
