(* ===== verification/Http.thy ===== *)
theory Http
  imports Respond AdminDto
begin

text \<open>
  What the handlers share: the parts of a request they read, how a service result becomes a
  response (\<open>http/common\<close>, the helpers of \<open>http/admin\<close>), and the chain of guards a
  route runs in front of its handler (\<open>http/router.go\<close>).

  The framework's work is in the request: the path split into segments, the way it compares them
  (without regard to case and a trailing slash), the parsed query and
  form, and for each limiter whether it has counted the caller out. A panic in a handler is
  caught by the recover middleware and answered by \<open>errorHandler\<close>.
\<close>

datatype limit = PublicTokens | PublicCalls | AdminTokens | AdminCalls | WebhookCalls

record request =
  hq_Method :: string
  hq_Path :: "string list"
  hq_Params :: "(string \<times> string) list"
  hq_Header :: "string \<Rightarrow> string"
  hq_Headers :: "(string \<times> string list) list"
  hq_Query :: "(string \<times> string) list"
  hq_Form :: "string \<Rightarrow> string"
  hq_Body :: string
  hq_IP :: string
  hq_Spent :: "limit \<Rightarrow> bool"

type_synonym ('p, 'x) answer = "'p world \<Rightarrow> 'x response \<times> 'p world"

definition param :: "request \<Rightarrow> string \<Rightarrow> string" where
  "param req name = query (hq_Params req) name"

abbreviation user_agent :: "request \<Rightarrow> string" where "user_agent req \<equiv> hq_Header req ''User-Agent''"

section \<open>From a result to a response\<close>

fun panics :: "err \<Rightarrow> bool" where
  "panics (Panic s) = True"
| "panics (Wrap s e) = panics e"
| "panics (Joined es) = list_ex panics es"
| "panics e = False"

text \<open>An error no handler answered: a recovered panic is not one of the framework's errors.\<close>

definition errorHandler :: "err \<Rightarrow> refusal" where
  "errorHandler e = Refusal 500 ''SERVER_ERROR'' (error_text e)"

definition respond :: "('p, 'a) act \<Rightarrow> (err \<Rightarrow> refusal) \<Rightarrow> int \<Rightarrow> ('a \<Rightarrow> 'x) \<Rightarrow> ('p, 'x) answer" where
  "respond run refuse status payload w =
     (case run w of
        (Inl e, w') \<Rightarrow> (Inl (if panics e then errorHandler e else refuse e), w')
      | (Inr x, w') \<Rightarrow> (JSON status (payload x), w'))"

definition reply :: "int \<Rightarrow> string \<Rightarrow> ('p, 'a) act \<Rightarrow> ('a \<Rightarrow> 'x) \<Rightarrow> ('p, 'x) answer" where
  "reply status code run payload = respond run (\<lambda>e. Refusal 400 code (error_text e)) status payload"

definition server_error :: "err \<Rightarrow> refusal" where
  "server_error e = Refusal 500 ''SERVER_ERROR'' (error_text e)"

definition refuse :: "refusal \<Rightarrow> ('p, 'x) answer" where
  "refuse r w = (Inl r, w)"

text \<open>\<open>bind\<close> of \<open>http/admin\<close> and the validation answer of its callers.\<close>

definition bind_payload :: "'r decoder \<Rightarrow> ('r \<Rightarrow> 'r) \<Rightarrow> ('r \<Rightarrow> rule list) \<Rightarrow> request \<Rightarrow> err + 'r" where
  "bind_payload decode norm rules req =
     (case DecodeJSON decode (hq_Body req) of Inl e \<Rightarrow> Inl e | Inr v \<Rightarrow> Check norm rules v)"

definition validated :: "err + 'r \<Rightarrow> ('r \<Rightarrow> ('p, 'x) answer) \<Rightarrow> ('p, 'x) answer" where
  "validated r k =
     (case r of Inl e \<Rightarrow> refuse (Refusal 400 ''VALIDATION_ERROR'' (error_text e)) | Inr v \<Rightarrow> k v)"

definition page_of :: "i64 \<Rightarrow> 'r list \<times> int \<Rightarrow> 'r PageData" where
  "page_of number result =
     (case result of (rows, n) \<Rightarrow>
        \<lparr>pg_Page = number, pg_Total = word_of_int n, pg_Items = rows, pg_Count = word_of_nat (length rows)\<rparr>)"

definition page_answer ::
    "request \<Rightarrow> (int \<Rightarrow> int \<Rightarrow> ('r list \<times> int) dbop) \<Rightarrow> ('r PageData \<Rightarrow> 'x) \<Rightarrow> ('p, 'x) answer" where
  "page_answer req read payload =
     (case Pagination (hq_Query req) of (number, per_page) \<Rightarrow>
        respond (on_db (read (sint number) (sint per_page))) server_error 200
          (\<lambda>result. payload (page_of number result)))"

text \<open>Rows with the name of their provider account, resolved in one query.\<close>

definition named_rows ::
    "(int \<Rightarrow> int \<Rightarrow> ('r list \<times> int) dbop) \<Rightarrow> ('r \<Rightarrow> string) \<Rightarrow> (string \<Rightarrow> 'r \<Rightarrow> 'r) \<Rightarrow> int \<Rightarrow> int \<Rightarrow>
     ('r list \<times> int) dbop" where
  "named_rows read account set_name number per_page =
     bindE (read number per_page) (\<lambda>(rows, n).
     bindE (ProviderAccounts_NamesByIDs (map account rows)) (\<lambda>names.
     returnE (map (\<lambda>r. set_name (query names (account r)) r) rows, n)))"

definition providerPage ::
    "request \<Rightarrow> (int \<Rightarrow> int \<Rightarrow> ('r list \<times> int) dbop) \<Rightarrow> ('r \<Rightarrow> string) \<Rightarrow> (string \<Rightarrow> 'r \<Rightarrow> 'r) \<Rightarrow>
     ('r PageData \<Rightarrow> 'x) \<Rightarrow> ('p, 'x) answer" where
  "providerPage req read account set_name payload = page_answer req (named_rows read account set_name) payload"

text \<open>A listing cut out of a list in memory.\<close>

definition page_slice_of :: "request \<Rightarrow> 'r list \<Rightarrow> err + 'r PageData" where
  "page_slice_of req xs = (case Pagination (hq_Query req) of (number, per_page) \<Rightarrow> PaginateSlice xs number per_page)"

section \<open>token.go\<close>

definition Token :: "string \<Rightarrow> (request \<Rightarrow> ('p, TokenResponse) act) \<Rightarrow> (TokenResponse \<Rightarrow> 'x) \<Rightarrow> request \<Rightarrow> ('p, 'x) answer" where
  "Token grant issue payload req =
     (let actual = hq_Form req ''grant_type'' in
      if actual \<noteq> grant \<and> (grant \<noteq> ''password'' \<or> actual \<noteq> [])
      then refuse (Refusal 400 ''UNSUPPORTED_GRANT'' (''grant_type must be '' @ grant))
      else respond (issue req) (\<lambda>e. Refusal 401 ''UNAUTHORIZED'' (error_text e)) 200 payload)"

section \<open>router.go: routes and guards\<close>

datatype segment = Lit string | Par string

fun match_path :: "segment list \<Rightarrow> string list \<Rightarrow> (string \<times> string) list option" where
  "match_path [] [] = Some []"
| "match_path (Lit l # ps) (s # ss) = (if s = l then match_path ps ss else None)"
| "match_path (Par n # ps) (s # ss) = (if s = [] then None else map_option (\<lambda>b. (n, s) # b) (match_path ps ss))"
| "match_path _ _ = None"

text \<open>A route: its limiter, whether a bearer token is required, whether only JSON is taken, the
  permission or scope it names, and its handler, which is given the identity behind the token.\<close>

record ('p, 'i, 'x) endpoint =
  ep_Method :: string
  ep_Path :: "segment list"
  ep_Limit :: limit
  ep_Bearer :: bool
  ep_JSON :: bool
  ep_Needs :: string
  ep_Run :: "'i option \<Rightarrow> request \<Rightarrow> ('p, 'x) answer"

definition allowance :: "limit \<Rightarrow> nat" where
  "allowance l = (case l of PublicTokens \<Rightarrow> 20 | PublicCalls \<Rightarrow> 120 | AdminTokens \<Rightarrow> 20 | AdminCalls \<Rightarrow> 120
                  | WebhookCalls \<Rightarrow> 300)"

definition limitBy :: "limit \<Rightarrow> request \<Rightarrow> refusal + unit" where
  "limitBy l req = (if hq_Spent req l then Inl (Refusal 429 ''RATE_LIMITED'' ''too many requests'') else Inr ())"

definition bodyLimit :: "nat \<Rightarrow> request \<Rightarrow> refusal + unit" where
  "bodyLimit n req =
     (if length (hq_Body req) > n then Inl (Refusal 413 ''PAYLOAD_TOO_LARGE'' ''request body is too large'') else Inr ())"

definition guarded :: "refusal + unit \<Rightarrow> ('p, 'x) answer \<Rightarrow> ('p, 'x) answer" where
  "guarded verdict k w = (case verdict of Inl r \<Rightarrow> (Inl r, w) | Inr _ \<Rightarrow> k w)"

type_synonym ('p, 'i) bearer = "string \<Rightarrow> 'p world \<Rightarrow> ('p, 'i) handler_result"
type_synonym 'i requirement = "string \<Rightarrow> 'i option \<Rightarrow> refusal + unit"

definition run_chain ::
    "('p, 'i) bearer \<Rightarrow> 'i requirement \<Rightarrow> ('p, 'i, 'x) endpoint \<Rightarrow> request \<Rightarrow> ('p, 'x) answer" where
  "run_chain who needs ep req =
     guarded (limitBy (ep_Limit ep) req) (\<lambda>w.
       if \<not> ep_Bearer ep then ep_Run ep None req w
       else
         case who (hq_Header req ''Authorization'') w of
           (Inl r, w1) \<Rightarrow> (Inl r, w1)
         | (Inr i, w1) \<Rightarrow>
             guarded (if ep_JSON ep then JSONOnly (hq_Header req ''Content-Type'') else Inr ())
               (guarded (if ep_Needs ep = [] then Inr () else needs (ep_Needs ep) (Some i))
                 (ep_Run ep (Some i) req)) w1)"

text \<open>The first route of the method whose path matches; \<open>None\<close> is left to the framework.\<close>

fun find_route ::
    "('p, 'i, 'x) endpoint list \<Rightarrow> request \<Rightarrow> (('p, 'i, 'x) endpoint \<times> (string \<times> string) list) option" where
  "find_route [] req = None"
| "find_route (ep # eps) req =
     (if ep_Method ep \<noteq> hq_Method req then find_route eps req
      else case match_path (ep_Path ep) (hq_Path req) of
             None \<Rightarrow> find_route eps req
           | Some ps \<Rightarrow> Some (ep, ps))"

definition serve ::
    "('p, 'i) bearer \<Rightarrow> 'i requirement \<Rightarrow> ('p, 'i, 'x) endpoint list \<Rightarrow> request \<Rightarrow> ('p, 'x) answer option" where
  "serve who needs eps req =
     (case find_route eps req of
        None \<Rightarrow> None
      | Some (ep, ps) \<Rightarrow> Some (run_chain who needs ep (req\<lparr>hq_Params := ps\<rparr>)))"

lemma find_route_SomeD: "find_route eps req = Some (ep, ps) \<Longrightarrow>
    ep \<in> set eps \<and> ep_Method ep = hq_Method req \<and> match_path (ep_Path ep) (hq_Path req) = Some ps"
  by (induction eps) (auto split: if_splits option.splits)

text \<open>What a success of a route behind a bearer token went through.\<close>

lemma run_chain_InrE:
  assumes "run_chain who needs ep req w = (Inr x, w')" and "ep_Bearer ep"
  obtains i w1 where "who (hq_Header req ''Authorization'') w = (Inr i, w1)"
    and "ep_Needs ep = [] \<or> needs (ep_Needs ep) (Some i) = Inr ()"
    and "ep_JSON ep \<Longrightarrow> JSONOnly (hq_Header req ''Content-Type'') = Inr ()"
    and "ep_Run ep (Some i) req w1 = (Inr x, w')"
    and "\<not> hq_Spent req (ep_Limit ep)"
  using assms
  by (auto simp: run_chain_def guarded_def limitBy_def split: prod.splits sum.splits if_splits)

end
