(* ===== verification/Calendar.thy ===== *)
theory Calendar
  imports Amount
begin

text \<open>
  What the analytics use of Go's \<open>time\<close> package: truncation to a multiple of a duration since
  the zero time and the RFC3339 text of a UTC time, with the proof that the text determines
  the time for years from 0 on.
\<close>

definition zero_time :: time where "zero_time = - 62135596800 * second"

definition Truncate :: "duration \<Rightarrow> time \<Rightarrow> time" where
  "Truncate d t = zero_time + (t - zero_time) div d * d"

abbreviation day :: duration where "day \<equiv> 86400000000000"

section \<open>The civil date of a day\<close>

text \<open>Days are counted from January 1 of year 1.\<close>

definition leap :: "int \<Rightarrow> bool" where
  "leap y \<longleftrightarrow> y mod 4 = 0 \<and> (y mod 100 \<noteq> 0 \<or> y mod 400 = 0)"

definition year_day :: "int \<Rightarrow> int \<times> int" where
  "year_day d =
     (let a = d div 146097; d = d mod 146097; b = min 3 (d div 36524); d = d - b * 36524;
          c = d div 1461; d = d mod 1461; e = min 3 (d div 365)
      in (400 * a + 100 * b + 4 * c + e + 1, d - e * 365))"

definition months :: "bool \<Rightarrow> int list" where
  "months l = [31, if l then 29 else 28, 31, 30, 31, 30, 31, 31, 30, 31, 30, 31]"

fun month_day :: "int list \<Rightarrow> int \<Rightarrow> int \<Rightarrow> int \<times> int" where
  "month_day [] m yd = (m, yd + 1)"
| "month_day (k # ks) m yd = (if yd < k \<or> ks = [] then (m, yd + 1) else month_day ks (m + 1) (yd - k))"

definition civil :: "int \<Rightarrow> int \<times> int \<times> int" where
  "civil d = (let (y, yd) = year_day d; (m, md) = month_day (months (leap y)) 1 yd in (y, m, md))"

text \<open>The day of a date.\<close>

definition day_of :: "int \<Rightarrow> int \<Rightarrow> int \<Rightarrow> int" where
  "day_of y m md =
     365 * (y - 1) + (y - 1) div 4 - (y - 1) div 100 + (y - 1) div 400 +
     sum_list (take (nat (m - 1)) (months (leap y))) + (md - 1)"

lemma cycle_part:
  fixes x k n :: int
  assumes "0 \<le> x" "x \<le> (n + 1) * k" "0 < k" "0 \<le> n"
  shows "0 \<le> min n (x div k)" "min n (x div k) \<le> n" "0 \<le> x - min n (x div k) * k"
    "x - min n (x div k) * k \<le> k" "min n (x div k) < n \<Longrightarrow> x - min n (x div k) * k < k"
proof -
  have x: "x = k * (x div k) + x mod k" "0 \<le> x mod k" "x mod k < k" "0 \<le> x div k"
    using assms by (simp_all add: pos_imp_zdiv_nonneg_iff)
  show "0 \<le> min n (x div k)" "min n (x div k) \<le> n" using x assms by simp_all
  have "min n (x div k) * k \<le> x div k * k" using assms by (intro mult_right_mono) simp_all
  then show "0 \<le> x - min n (x div k) * k" using x by (simp only: mult.commute)
  show "min n (x div k) < n \<Longrightarrow> x - min n (x div k) * k < k"
    using x(3) by (simp add: min_def minus_div_mult_eq_mod split: if_splits)
  then show "x - min n (x div k) * k \<le> k"
    using assms by (cases "x div k < n") (simp_all add: min_def algebra_simps)
qed

lemma leap_last:
  fixes a b c :: int
  assumes "0 \<le> b" "b \<le> 3" "0 \<le> c" "c \<le> 24" "c < 24 \<or> b = 3"
  shows "leap (400 * a + 100 * b + 4 * c + 3 + 1)"
proof -
  have "(400 * a + 100 * b + 4 * c + 3 + 1) mod 4 = 0"
    using mod_mult_self2_is_0 [of 4 "100 * a + 25 * b + c + 1"] by (simp add: algebra_simps)
  moreover have "(400 * a + 100 * b + 4 * c + 3 + 1) mod 100 = (4 * c + 4) mod 100"
    using mod_mult_self1 [of "4 * c + 4" "4 * a + b" 100] by (simp add: algebra_simps)
  moreover have "(400 * a + 100 * b + 4 * c + 3 + 1) mod 400 = (100 * b + 4 * c + 4) mod 400"
    using mod_mult_self1 [of "100 * b + 4 * c + 4" a 400] by (simp add: algebra_simps)
  ultimately show ?thesis using assms by (cases "c = 24") (simp_all add: leap_def)
qed

lemma year_day_inverse:
  assumes "year_day d = (y, yd)"
  shows "d = 365 * (y - 1) + (y - 1) div 4 - (y - 1) div 100 + (y - 1) div 400 + yd"
    and "0 \<le> yd" and "yd < (if leap y then 366 else 365)"
proof -
  define a where "a = d div 146097"
  define d1 where "d1 = d mod 146097"
  define b where "b = min 3 (d1 div 36524)"
  define d2 where "d2 = d1 - b * 36524"
  define c where "c = d2 div 1461"
  define d3 where "d3 = d2 mod 1461"
  define e where "e = min 3 (d3 div 365)"
  have y: "y = 400 * a + 100 * b + 4 * c + e + 1" and yd: "yd = d3 - e * 365"
    using assms by (simp_all add: year_day_def Let_def a_def b_def c_def d1_def d2_def d3_def e_def)
  have d: "d = 146097 * a + d1" "0 \<le> d1" "d1 < 146097" by (simp_all add: a_def d1_def)
  have b: "0 \<le> b" "b \<le> 3" "0 \<le> d2" "d2 \<le> 36524" "b < 3 \<Longrightarrow> d2 < 36524"
    using cycle_part [of d1 36524 3] d by (simp_all add: b_def d2_def)
  have c: "d2 = 1461 * c + d3" "0 \<le> d3" "d3 < 1461" by (simp_all add: c_def d3_def)
  have c2: "0 \<le> c" "c \<le> 24" using b c by linarith+
  have e: "0 \<le> e" "e \<le> 3" "0 \<le> yd" "yd \<le> 365" "e < 3 \<Longrightarrow> yd < 365"
    using cycle_part [of d3 365 3] c by (simp_all add: e_def yd)
  have q: "(y - 1) div 4 = 100 * a + 25 * b + c" "(y - 1) div 100 = 4 * a + b" "(y - 1) div 400 = a"
    using y b c2 e by linarith+
  show "d = 365 * (y - 1) + (y - 1) div 4 - (y - 1) div 100 + (y - 1) div 400 + yd"
    unfolding q using y yd d c by (simp add: d2_def)
  show "0 \<le> yd" by (rule e(3))
  show "yd < (if leap y then 366 else 365)"
  proof (cases "leap y")
    case False
    have "\<not> (e = 3 \<and> (c < 24 \<or> b = 3))"
    proof
      assume *: "e = 3 \<and> (c < 24 \<or> b = 3)"
      then have "leap y" using leap_last [OF b(1,2) c2, of a] by (simp only: y)
      with False show False by contradiction
    qed
    then have "e < 3 \<or> d3 < 1460" using e b c c2 by linarith
    then have "yd < 365" using e yd by (cases "e = 3") auto
    then show ?thesis using False by simp
  qed (use e in simp)
qed

lemma sum_months: "sum_list (months l) = (if l then 366 else 365)"
  by (simp add: months_def)

lemma month_day_sound:
  assumes "month_day ks m yd = (m', md)" and "0 \<le> yd" and "yd < sum_list ks"
  shows "m \<le> m' \<and> m' < m + int (length ks) \<and> 1 \<le> md \<and> md \<le> ks ! nat (m' - m) \<and>
         yd = sum_list (take (nat (m' - m)) ks) + (md - 1)"
  using assms
proof (induction ks m yd rule: month_day.induct)
  case (2 k ks m yd)
  show ?case
  proof (cases "yd < k \<or> ks = []")
    case True
    with 2 show ?thesis by auto
  next
    case False
    with 2 have "m + 1 \<le> m' \<and> m' < m + 1 + int (length ks) \<and> 1 \<le> md \<and> md \<le> ks ! nat (m' - (m + 1)) \<and>
        yd - k = sum_list (take (nat (m' - (m + 1))) ks) + (md - 1)"
      by auto
    moreover from this have "nat (m' - m) = Suc (nat (m' - (m + 1)))" by linarith
    ultimately show ?thesis by auto
  qed
qed simp

lemma civil_inverse:
  assumes "civil d = (y, m, md)"
  shows "d = day_of y m md" and "1 \<le> m" and "m \<le> 12" and "1 \<le> md" and "md \<le> 31"
proof -
  obtain y' yd where yd: "year_day d = (y', yd)" by (cases "year_day d")
  with assms have m: "y' = y" "month_day (months (leap y)) 1 yd = (m, md)"
    by (auto simp: civil_def split: prod.splits)
  note y = year_day_inverse [OF yd [unfolded m(1)]]
  have "yd < sum_list (months (leap y))" using y(3) by (simp add: sum_months split: if_splits)
  note s = month_day_sound [OF m(2) y(2) this]
  have len: "length (months l) = 12" for l by (simp add: months_def)
  then show "1 \<le> m" "m \<le> 12" "1 \<le> md" using s by (simp_all add: len)
  show "d = day_of y m md" using y(1) s by (simp add: day_of_def)
  have "\<forall>k\<in>set (months l). k \<le> 31" for l by (simp add: months_def)
  moreover have "months (leap y) ! nat (m - 1) \<in> set (months (leap y))"
    by (rule nth_mem) (use s len in linarith)
  ultimately show "md \<le> 31" using s by fastforce
qed

lemma year_bound: "x < (0 :: int) \<Longrightarrow> 365 * x + x div 4 - x div 100 + x div 400 < - 365"
  by (cases "x = - 1") (simp, linarith)

lemma civil_year_pos: "0 \<le> d \<Longrightarrow> civil d = (y, m, md) \<Longrightarrow> 1 \<le> y"
proof -
  assume d: "0 \<le> d" "civil d = (y, m, md)"
  obtain y' yd where yd: "year_day d = (y', yd)" by (cases "year_day d")
  then have "y' = y" using d(2) by (auto simp: civil_def split: prod.splits)
  with year_day_inverse [OF yd] d(1)
  have "0 \<le> 365 * (y - 1) + (y - 1) div 4 - (y - 1) div 100 + (y - 1) div 400 + yd" "yd \<le> 365"
    by (auto split: if_splits)
  then show "1 \<le> y" using year_bound [of "y - 1"] by linarith
qed

section \<open>RFC3339\<close>

text \<open>A number of at least \<open>width\<close> digits, the sign in front.\<close>

definition append_int :: "nat \<Rightarrow> int \<Rightarrow> string" where
  "append_int width x =
     (let digits = format_nat (nat \<bar>x\<bar>)
      in (if x < 0 then ''-'' else []) @ replicate (width - length digits) (CHR ''0'') @ digits)"

definition rfc3339 :: "time \<Rightarrow> string" where
  "rfc3339 t =
     (let secs = (t - zero_time) div second; s = secs mod 86400; (y, m, md) = civil (secs div 86400)
      in append_int 4 y @ ''-'' @ append_int 2 m @ ''-'' @ append_int 2 md @ ''T'' @
         append_int 2 (s div 3600) @ '':'' @ append_int 2 (s mod 3600 div 60) @ '':'' @
         append_int 2 (s mod 60) @ ''Z'')"

lemma append_int_digits:
  assumes "0 \<le> x"
  shows "\<forall>c\<in>set (append_int k x). is_digit c" "digits_val 0 (append_int k x) = Some (nat x)"
  using pad_int_digits [OF assms, of k] assms by (simp_all add: append_int_def pad_int_def Let_def)

lemma digits_then_eq:
  assumes "\<forall>c\<in>set u. is_digit c" "\<forall>c\<in>set v. is_digit c" "\<not> is_digit c" "u @ c # s = v @ c # t"
  shows "u = v \<and> s = t"
  using assms
proof (induction u arbitrary: v)
  case Nil
  then show ?case by (cases v) auto
next
  case (Cons a u)
  then show ?case by (cases v) auto
qed

lemma append_int_then:
  assumes "append_int k x @ c # s = append_int k y @ c # t" and "0 \<le> x" "0 \<le> y" and "\<not> is_digit c"
  shows "x = y \<and> s = t"
proof -
  have "append_int k x = append_int k y \<and> s = t"
    by (rule digits_then_eq [OF append_int_digits(1) [OF assms(2)] append_int_digits(1) [OF assms(3)] assms(4,1)])
  then have "nat x = nat y" "s = t"
    using append_int_digits(2) [OF assms(2), of k] append_int_digits(2) [OF assms(3), of k] by simp_all
  with assms show ?thesis by simp
qed

lemma separators: "\<not> is_digit (CHR ''-'')" "\<not> is_digit (CHR ''T'')" "\<not> is_digit (CHR '':'')" "\<not> is_digit (CHR ''Z'')"
  by (simp_all add: is_digit_def digit_val_def)

lemma hms: "(s :: int) = 3600 * (s div 3600) + 60 * (s mod 3600 div 60) + s mod 60"
proof -
  have "s mod 3600 mod 60 = s mod 60" by (rule mod_mod_cancel) simp
  then show ?thesis using mult_div_mod_eq [of 3600 s] mult_div_mod_eq [of 60 "s mod 3600"] by linarith
qed

definition stamp :: "int \<Rightarrow> int \<Rightarrow> int \<Rightarrow> int \<Rightarrow> int \<Rightarrow> int \<Rightarrow> string" where
  "stamp y m d h i s =
     append_int 4 y @ CHR ''-'' # append_int 2 m @ CHR ''-'' # append_int 2 d @ CHR ''T'' #
     append_int 2 h @ CHR '':'' # append_int 2 i @ CHR '':'' # append_int 2 s @ CHR ''Z'' # []"

lemma stamp_inj:
  assumes eq: "stamp y m d h i s = stamp y' m' d' h' i' s'"
    and "0 \<le> y" "0 \<le> m" "0 \<le> d" "0 \<le> h" "0 \<le> i" "0 \<le> s"
    and "0 \<le> y'" "0 \<le> m'" "0 \<le> d'" "0 \<le> h'" "0 \<le> i'" "0 \<le> s'"
  shows "y = y' \<and> m = m' \<and> d = d' \<and> h = h' \<and> i = i' \<and> s = s'"
proof -
  note y = append_int_then [OF eq [unfolded stamp_def] assms(2,8) separators(1)]
  note m = append_int_then [OF conjunct2 [OF y] assms(3,9) separators(1)]
  note d = append_int_then [OF conjunct2 [OF m] assms(4,10) separators(2)]
  note h = append_int_then [OF conjunct2 [OF d] assms(5,11) separators(3)]
  note i = append_int_then [OF conjunct2 [OF h] assms(6,12) separators(3)]
  note s = append_int_then [OF conjunct2 [OF i] assms(7,13) separators(4)]
  show ?thesis by (intro conjI y [THEN conjunct1] m [THEN conjunct1] d [THEN conjunct1]
        h [THEN conjunct1] i [THEN conjunct1] s [THEN conjunct1])
qed

lemma rfc3339_stamp:
  assumes "civil ((t - zero_time) div second div 86400) = (y, m, d)"
  defines "s \<equiv> (t - zero_time) div second mod 86400"
  shows "rfc3339 t = stamp y m d (s div 3600) (s mod 3600 div 60) (s mod 60)"
  using assms by (simp add: rfc3339_def stamp_def Let_def)

lemma rfc3339_inj:
  assumes "rfc3339 t = rfc3339 u" and "zero_time \<le> t" "zero_time \<le> u"
  shows "(t - zero_time) div second = (u - zero_time) div second"
proof -
  define p where "p = (t - zero_time) div second"
  define q where "q = (u - zero_time) div second"
  have pq: "0 \<le> p div 86400" "0 \<le> q div 86400" using assms by (simp_all add: p_def q_def pos_imp_zdiv_nonneg_iff)
  obtain y m d where c: "civil (p div 86400) = (y, m, d)" by (cases "civil (p div 86400)") auto
  obtain y' m' d' where c': "civil (q div 86400) = (y', m', d')" by (cases "civil (q div 86400)") auto
  define a where "a = p mod 86400"
  define b where "b = q mod 86400"
  have ab: "0 \<le> a" "0 \<le> b" by (simp_all add: a_def b_def)
  have r: "0 \<le> x div 3600" "0 \<le> x mod 3600 div 60" "0 \<le> x mod 60" if "0 \<le> x" for x :: int
    using that by (simp_all add: pos_imp_zdiv_nonneg_iff)
  have le: "0 \<le> m" "0 \<le> d" "0 \<le> m'" "0 \<le> d'" "0 \<le> y" "0 \<le> y'"
    using civil_inverse(2,4) [OF c] civil_inverse(2,4) [OF c'] civil_year_pos [OF pq(1) c] civil_year_pos [OF pq(2) c']
    by linarith+
  have "stamp y m d (a div 3600) (a mod 3600 div 60) (a mod 60) =
        stamp y' m' d' (b div 3600) (b mod 3600 div 60) (b mod 60)"
    using assms(1) rfc3339_stamp [OF c [unfolded p_def]] rfc3339_stamp [OF c' [unfolded q_def]]
    by (simp only: a_def b_def p_def q_def)
  from stamp_inj [OF this le(5,1,2) r [OF ab(1)] le(6,3,4) r [OF ab(2)]]
  have eq: "y = y'" "m = m'" "d = d'" "a div 3600 = b div 3600" "a mod 3600 div 60 = b mod 3600 div 60"
    "a mod 60 = b mod 60"
    by simp_all
  have "p div 86400 = q div 86400"
    using civil_inverse(1) [OF c] civil_inverse(1) [OF c'] eq(1-3) by simp
  moreover have "a = b" using hms [of a] hms [of b] unfolding eq(4-6) by (rule trans [OF _ sym])
  ultimately have "p = q" unfolding a_def b_def by (metis mult_div_mod_eq)
  then show ?thesis by (simp only: p_def q_def)
qed

end
