(* ===== verification/Analytics.thy ===== *)
theory Analytics
  imports World Calendar
begin

text \<open>
  \<open>internal/service/identity/analytics.go\<close> and \<open>TransactionRepo.Aggregate\<close>: a bucketed count
  of the transactions of a range.

  What the database makes of the date expression is the parameter \<open>bucket\<close> (expression and time to
  label), the order it returns the groups in the parameter \<open>db_order\<close>; a sum that leaves 64 bits is
  an error of the driver. The order in which a map is ranged over is the order of the list given
  to \<open>sortedKeys\<close>.
\<close>

definition maxAnalyticsBuckets :: nat where "maxAnalyticsBuckets = 400"

record AnalyticsFilter =
  af_From :: time
  af_To :: time
  af_Interval :: string
  af_AppID :: string
  af_ProviderAccountID :: string

record ServiceCounts =
  sc_Collection :: i64
  sc_Disbursement :: i64

record AnalyticsBucket =
  ab_Period :: string
  ab_Total :: i64
  ab_ByService :: ServiceCounts
  ab_Succeeded :: i64
  ab_Failed :: i64

record CurrencyVolume =
  cv_Currency :: string
  cv_Count :: i64
  cv_Amount :: i64

record TransactionAnalytics =
  ta_From :: time
  ta_To :: time
  ta_Interval :: string
  ta_Buckets :: "AnalyticsBucket list"
  ta_Total :: i64
  ta_ByService :: ServiceCounts
  ta_Volume :: "CurrencyVolume list"

section \<open>payments.go: the aggregate query\<close>

record TransactionBucket =
  tb_Period :: string
  tb_ServiceType :: string
  tb_Status :: string
  tb_Currency :: string
  tb_Count :: i64
  tb_Amount :: i64

record AggregateFilter =
  agg_Bucket :: string
  agg_From :: time
  agg_To :: time
  agg_AppID :: string
  agg_ProviderAccountID :: string

definition aggregate_where :: "AggregateFilter \<Rightarrow> Transaction \<Rightarrow> bool" where
  "aggregate_where f t \<longleftrightarrow>
     agg_From f \<le> tx_CreatedAt t \<and> tx_CreatedAt t < agg_To f \<and>
     (agg_AppID f \<noteq> [] \<longrightarrow> tx_AppID t = agg_AppID f) \<and>
     (agg_ProviderAccountID f \<noteq> [] \<longrightarrow> tx_SelectedProviderAccountID t = agg_ProviderAccountID f)"

definition group_key :: "(time \<Rightarrow> string) \<Rightarrow> Transaction \<Rightarrow> string \<times> string \<times> string \<times> string" where
  "group_key label t = (label (tx_CreatedAt t), tx_ServiceType t, tx_Status t, tx_Currency t)"

definition group_sum :: "Transaction list \<Rightarrow> int" where
  "group_sum ts = sum_list (map (\<lambda>t. sint (tx_Amount t)) ts)"

definition group_row :: "(time \<Rightarrow> string) \<Rightarrow> Transaction list \<Rightarrow> string \<times> string \<times> string \<times> string \<Rightarrow> TransactionBucket" where
  "group_row label ts k =
     (let g = filter (\<lambda>t. group_key label t = k) ts; (p, s, st, c) = k
      in \<lparr>tb_Period = p, tb_ServiceType = s, tb_Status = st, tb_Currency = c,
          tb_Count = word_of_nat (length g), tb_Amount = word_of_int (group_sum g)\<rparr>)"

definition fits_i64 :: "int \<Rightarrow> bool" where
  "fits_i64 x \<longleftrightarrow> - (2 ^ 63) \<le> x \<and> x < 2 ^ 63"

definition Transactions_Aggregate ::
    "(string \<Rightarrow> time \<Rightarrow> string) \<Rightarrow> (TransactionBucket list \<Rightarrow> TransactionBucket list) \<Rightarrow>
     AggregateFilter \<Rightarrow> TransactionBucket list dbop" where
  "Transactions_Aggregate bucket db_order f =
     bindE (base_find t_transactions id (aggregate_where f)) (\<lambda>ts.
       let label = bucket (agg_Bucket f); ks = remdups (map (group_key label) ts)
       in if list_all (\<lambda>k. fits_i64 (group_sum (filter (\<lambda>t. group_key label t = k) ts))) ks
          then returnE (db_order (map (group_row label ts) ks)) else throwE DriverErr)"

section \<open>analytics.go\<close>

definition formatPeriod :: "time \<Rightarrow> string" where
  "formatPeriod t = rfc3339 t"

definition period_step :: "string \<Rightarrow> duration" where
  "period_step interval = (if interval = ''hour'' then hour else 24 * hour)"

function periods_from :: "duration \<Rightarrow> time \<Rightarrow> time \<Rightarrow> string list \<Rightarrow> string list" where
  "periods_from step at stop out =
     (if at < stop then
        let out = out @ [formatPeriod at]
        in if length out > maxAnalyticsBuckets then out else periods_from step (at + step) stop out
      else out)"
  by pat_completeness auto

termination
  by (relation "measure (\<lambda>(_, _, _, out). Suc maxAnalyticsBuckets - length out)") auto

declare periods_from.simps [simp del]

definition periods :: "AnalyticsFilter \<Rightarrow> string list" where
  "periods f = periods_from (period_step (af_Interval f)) (af_From f) (af_To f) []"

text \<open>The defaults and the truncation of a range; \<open>t\<close> is the current time. A query time has a
  fixed offset from UTC, so thirty days are as many times 24 hours.\<close>

definition normalize :: "time \<Rightarrow> AnalyticsFilter \<Rightarrow> err + AnalyticsFilter" where
  "normalize t f =
     (let interval = to_lower (trim_space (af_Interval f));
          interval = (if interval = [] then ''day'' else interval)
      in if interval \<noteq> ''day'' \<and> interval \<noteq> ''hour'' then Inl (Msg ''interval must be day or hour'')
         else
           let stop = (if af_To f = zero_time then Truncate hour (t + hour) else af_To f);
               start = (if af_From f = zero_time then stop - 30 * (24 * hour) else af_From f);
               start = Truncate hour start; stop = Truncate hour stop;
               start = (if interval = ''day'' then Truncate (24 * hour) start else start);
               f = f\<lparr>af_From := start, af_To := stop, af_Interval := interval\<rparr>
           in if \<not> start < stop then Inl (Msg ''to must be after from'')
              else if length (periods f) > maxAnalyticsBuckets
              then Inl (Msg (''range covers more than '' @ format_nat maxAnalyticsBuckets @ '' '' @ interval @
                             '' buckets; narrow it or use a wider interval''))
              else Inr f)"

definition enclosed :: "char \<Rightarrow> string \<Rightarrow> string" where
  "enclosed c s = c # s @ [c]"

definition bucketExpression :: "string \<Rightarrow> string \<Rightarrow> err + string" where
  "bucketExpression dialect interval =
     (let by_day = (interval = ''day''); single = enclosed (CHR 0x27); double = enclosed (CHR 0x22) in
      if dialect = ''sqlite'' then
        Inr (if by_day then ''strftime('' @ single ''%Y-%m-%dT00:00:00Z'' @ '', created_at)''
             else ''strftime('' @ single ''%Y-%m-%dT%H:00:00Z'' @ '', created_at)'')
      else if dialect = ''postgres'' then
        Inr (if by_day
             then ''to_char(created_at, '' @
                  single (''YYYY-MM-DD'' @ double ''T'' @ ''00:00:00'' @ double ''Z'') @ '')''
             else ''to_char(created_at, '' @
                  single (''YYYY-MM-DD'' @ double ''T'' @ ''HH24:00:00'' @ double ''Z'') @ '')'')
      else if dialect = ''mysql'' then
        Inr (if by_day then ''DATE_FORMAT(created_at, '' @ single ''%Y-%m-%dT00:00:00Z'' @ '')''
             else ''DATE_FORMAT(created_at, '' @ single ''%Y-%m-%dT%H:00:00Z'' @ '')'')
      else Inl (Msg (''analytics is not supported on the '' @ quoted dialect @ '' driver'')))"

text \<open>The adjacent swaps of the inner loop from position \<open>j\<close> down.\<close>

fun swap_down :: "string list \<Rightarrow> nat \<Rightarrow> string list" where
  "swap_down keys 0 = keys"
| "swap_down keys (Suc j) =
     (if keys ! Suc j < keys ! j then swap_down (keys[Suc j := keys ! j, j := keys ! Suc j]) j else keys)"

definition sortedKeys :: "string list \<Rightarrow> string list" where
  "sortedKeys keys = fold (\<lambda>i keys. swap_down keys i) [1..<length keys] keys"

definition add_service :: "string \<Rightarrow> i64 \<Rightarrow> ServiceCounts \<Rightarrow> ServiceCounts" where
  "add_service service n c =
     (if service = ServiceCollection then c\<lparr>sc_Collection := sc_Collection c + n\<rparr>
      else if service = ServiceDisbursement then c\<lparr>sc_Disbursement := sc_Disbursement c + n\<rparr> else c)"

definition add_to_bucket :: "TransactionBucket \<Rightarrow> AnalyticsBucket \<Rightarrow> AnalyticsBucket" where
  "add_to_bucket r b =
     (let n = tb_Count r; b = b\<lparr>ab_Total := ab_Total b + n, ab_ByService := add_service (tb_ServiceType r) n (ab_ByService b)\<rparr>
      in if tb_Status r = TxSucceeded then b\<lparr>ab_Succeeded := ab_Succeeded b + n\<rparr>
         else if tb_Status r \<in> set [TxFailed, TxExpired, TxCancelled] then b\<lparr>ab_Failed := ab_Failed b + n\<rparr>
         else b)"

text \<open>The map of volumes is a list in which a currency occurs once.\<close>

definition add_volume :: "TransactionBucket \<Rightarrow> CurrencyVolume list \<Rightarrow> CurrencyVolume list" where
  "add_volume r vs =
     (let vs = (if tb_Currency r \<in> cv_Currency ` set vs then vs
                else vs @ [\<lparr>cv_Currency = tb_Currency r, cv_Count = 0, cv_Amount = 0\<rparr>])
      in map (\<lambda>v. if cv_Currency v = tb_Currency r
                   then v\<lparr>cv_Count := cv_Count v + tb_Count r, cv_Amount := cv_Amount v + tb_Amount r\<rparr> else v) vs)"

text \<open>The map of labels keeps the last position of a label.\<close>

definition index_of :: "string list \<Rightarrow> string \<Rightarrow> nat option" where
  "index_of labels label = map_of (rev (zip labels [0..<length labels])) label"

definition count_row ::
    "string list \<Rightarrow> TransactionBucket \<Rightarrow> TransactionAnalytics \<Rightarrow> err + TransactionAnalytics" where
  "count_row labels r out =
     (case index_of labels (tb_Period r) of
        None \<Rightarrow> Inl (Msg (''analytics: bucket '' @ quoted (tb_Period r) @ '' is outside the requested range''))
      | Some i \<Rightarrow>
          Inr (out\<lparr>ta_Buckets := (ta_Buckets out)[i := add_to_bucket r (ta_Buckets out ! i)],
                   ta_ByService := add_service (tb_ServiceType r) (tb_Count r) (ta_ByService out),
                   ta_Total := ta_Total out + tb_Count r,
                   ta_Volume := add_volume r (ta_Volume out)\<rparr>))"

fun count_rows :: "string list \<Rightarrow> TransactionBucket list \<Rightarrow> TransactionAnalytics \<Rightarrow> err + TransactionAnalytics" where
  "count_rows labels [] out = Inr out"
| "count_rows labels (r # rs) out =
     (case count_row labels r out of Inl e \<Rightarrow> Inl e | Inr out \<Rightarrow> count_rows labels rs out)"

definition no_counts :: ServiceCounts where "no_counts = \<lparr>sc_Collection = 0, sc_Disbursement = 0\<rparr>"

definition empty_bucket :: "string \<Rightarrow> AnalyticsBucket" where
  "empty_bucket period =
     \<lparr>ab_Period = period, ab_Total = 0, ab_ByService = no_counts, ab_Succeeded = 0, ab_Failed = 0\<rparr>"

definition volume_of :: "CurrencyVolume list \<Rightarrow> string \<Rightarrow> CurrencyVolume" where
  "volume_of vs currency = hd (filter (\<lambda>v. cv_Currency v = currency) vs)"

definition Analytics_Transactions ::
    "(string \<Rightarrow> time \<Rightarrow> string) \<Rightarrow> (TransactionBucket list \<Rightarrow> TransactionBucket list) \<Rightarrow>
     (string list \<Rightarrow> string list) \<Rightarrow> string \<Rightarrow> AnalyticsFilter \<Rightarrow> ('p, TransactionAnalytics) act" where
  "Analytics_Transactions bucket db_order ranged dialect f =
     bindE Now (\<lambda>t.
     bindE (liftE (normalize t f)) (\<lambda>f.
     bindE (liftE (bucketExpression dialect (af_Interval f))) (\<lambda>expression.
     bindE (on_db (Transactions_Aggregate bucket db_order
              \<lparr>agg_Bucket = expression, agg_From = af_From f, agg_To = af_To f, agg_AppID = af_AppID f,
               agg_ProviderAccountID = af_ProviderAccountID f\<rparr>)) (\<lambda>rows.
     bindE (liftE (count_rows (periods f) rows
              \<lparr>ta_From = af_From f, ta_To = af_To f, ta_Interval = af_Interval f,
               ta_Buckets = map empty_bucket (periods f), ta_Total = 0, ta_ByService = no_counts,
               ta_Volume = []\<rparr>)) (\<lambda>out.
     returnE (out\<lparr>ta_Volume := map (volume_of (ta_Volume out))
                                (sortedKeys (ranged (map cv_Currency (ta_Volume out))))\<rparr>))))))"

end
