(* ===== verification/AdminApi.thy ===== *)
theory AdminApi
  imports Http Analytics ProviderAdmin RoutingAdmin
begin

text \<open>
  \<open>internal/http/admin\<close> and the administrative part of the router: one handler per route, and
  the table of the routes with the permission each names.

  \<open>http_env\<close> gathers what the handlers use besides the request: the environments of the
  services, the JSON decoding of each payload, the email syntax of the validator, the parsing of
  RFC3339 times, what the database makes of the analytics expressions, and the build's metadata.
\<close>

record SystemMeta =
  sys_AppName :: string
  sys_AppEnv :: string
  sys_DBType :: string
  sys_Addr :: string
  sys_WorkersEnabled :: bool
  sys_WorkerNames :: "string list"

record json_decoders =
  dj_CreateAdmin :: "CreateAdminRequest decoder"
  dj_ChangePassword :: "ChangePasswordRequest decoder"
  dj_Status :: "StatusRequest decoder"
  dj_ChangeRole :: "ChangeRoleRequest decoder"
  dj_Role :: "RoleRequest decoder"
  dj_App :: "AppRequest decoder"
  dj_CreateCredential :: "CreateCredentialRequest decoder"
  dj_CreateProvider :: "CreateProviderAccountRequest decoder"
  dj_ProviderSettings :: "UpdateProviderSettingsRequest decoder"
  dj_ProviderConfig :: "UpdateProviderConfigRequest decoder"
  dj_CreateRoute :: "CreateRouteRequest decoder"
  dj_UpdateRoute :: "UpdateRouteRequest decoder"

record 'p http_env =
  he_env :: "'p env"
  he_auth :: auth_env
  he_app_auth :: auth_env
  he_json :: json_decoders
  he_is_email :: "string \<Rightarrow> bool"
  he_parse_time :: "string \<Rightarrow> err + time"
  he_bucket :: "string \<Rightarrow> time \<Rightarrow> string"
  he_db_order :: "TransactionBucket list \<Rightarrow> TransactionBucket list"
  he_ranged :: "string list \<Rightarrow> string list"
  he_dialect :: string
  he_system :: SystemMeta
  he_go_version :: string

abbreviation he_audit :: "'p http_env \<Rightarrow> auditor" where "he_audit H \<equiv> auth_audit (he_auth H)"
abbreviation he_region :: "'p http_env \<Rightarrow> string \<Rightarrow> bool" where "he_region H \<equiv> env_region (he_env H)"

record RuntimeItem =
  ri_AccountID :: string
  ri_ProviderName :: string
  ri_ProviderCode :: string
  ri_ConfigVersion :: int
  ri_Capabilities :: "Capability list"
  ri_Country :: string
  ri_Currency :: string
  ri_Health :: "ProviderHealthSnapshot option"

record SystemStatus =
  ss_OK :: bool
  ss_RuntimeProviders :: nat
  ss_ActiveAccounts :: int
  ss_Workers :: "string list"
  ss_ServerTime :: time

datatype admin_payload =
    Adm_Token TokenResponse
  | Adm_Me "AdminUser option"
  | Adm_Done bool
  | Adm_Transactions "Transaction PageData"
  | Adm_AuditLogs "AuditLog PageData"
  | Adm_Health "ProviderHealthSnapshot PageData"
  | Adm_Admins "AdminUser PageData"
  | Adm_Admin AdminUser
  | Adm_Apps "App PageData"
  | Adm_App App
  | Adm_Credentials "AppCredential PageData"
  | Adm_Credential CreatedCredential
  | Adm_Accounts "ProviderAccount PageData"
  | Adm_Account ProviderAccount
  | Adm_Registry "string list"
  | Adm_Routes "PaymentRoute PageData"
  | Adm_Route PaymentRoute
  | Adm_Permissions "Permission list" nat
  | Adm_Roles "Role list" nat
  | Adm_Role Role
  | Adm_Analytics TransactionAnalytics
  | Adm_Balances "BalanceResult PageData"
  | Adm_Balance ProviderBalance
  | Adm_SystemInfo SystemMeta string time
  | Adm_SystemHealth SystemStatus
  | Adm_Workers "string PageData"
  | Adm_Runtimes "RuntimeItem PageData"

type_synonym 'p admin_handler = "AdminUser option \<Rightarrow> request \<Rightarrow> ('p, admin_payload) answer"

abbreviation the_id :: "request \<Rightarrow> string" where "the_id req \<equiv> param req ''id''"

text \<open>A service call whose only news is that it succeeded.\<close>

abbreviation done_reply :: "string \<Rightarrow> ('p, unit) act \<Rightarrow> ('p, admin_payload) answer" where
  "done_reply code run \<equiv> reply 200 code run (\<lambda>_. Adm_Done True)"

abbreviation bad_request :: "err \<Rightarrow> refusal" where
  "bad_request e \<equiv> Refusal 400 ''BAD_REQUEST'' (error_text e)"

section \<open>admin.go: the session and single rows\<close>

definition Me :: "'p admin_handler" where
  "Me actor req w = (JSON 200 (Adm_Me actor), w)"

definition admin_Token :: "'p http_env \<Rightarrow> request \<Rightarrow> ('p, admin_payload) answer" where
  "admin_Token H = Token ''password''
     (\<lambda>req. IssuePasswordToken (he_auth H) (hq_Form req ''username'') (hq_Form req ''password'') (hq_IP req) (user_agent req))
     Adm_Token"

definition admin_Refresh :: "'p http_env \<Rightarrow> request \<Rightarrow> ('p, admin_payload) answer" where
  "admin_Refresh H = Token ''refresh_token''
     (\<lambda>req. admin_RefreshToken (he_auth H) (hq_Form req ''refresh_token'') (hq_IP req) (user_agent req)) Adm_Token"

definition handle_GetApp :: "'p admin_handler" where
  "handle_GetApp actor req =
     respond (GetApp (the_id req)) (\<lambda>_. Refusal 404 ''NOT_FOUND'' ''app not found'') 200 Adm_App"

definition GetProviderAccount :: "'p admin_handler" where
  "GetProviderAccount actor req =
     respond (on_db (ProviderAccounts_ByID (the_id req)))
       (\<lambda>e. if IsNotFound e then Refusal 404 ''NOT_FOUND'' ''provider account not found'' else server_error e)
       200 Adm_Account"

definition ActiveProviderBalances :: "'p http_env \<Rightarrow> 'p admin_handler" where
  "ActiveProviderBalances H actor req =
     respond
       (bindE QueryActiveBalances (\<lambda>items.
        bindE (RecordBestEffort (he_audit H) (ActorID actor) ''admin'' ''balances.active_providers_queried''
                 ''provider_account'' ''all_active'' None (hq_IP req) (user_agent req)) (\<lambda>_.
        liftE (page_slice_of req items))))
       (\<lambda>e. Refusal 400 ''BALANCE_QUERY_FAILED'' (error_text e)) 200 Adm_Balances"

definition handle_ProviderBalance :: "'p http_env \<Rightarrow> 'p admin_handler" where
  "handle_ProviderBalance H actor req =
     respond
       (bindE (QueryBalance (the_id req) (query (hq_Query req) ''country'')) (\<lambda>out.
        bindE (RecordBestEffort (he_audit H) (ActorID actor) ''admin'' ''balance.queried'' ''provider_account''
                 (the_id req) None (hq_IP req) (user_agent req)) (\<lambda>_.
        returnE out)))
       (\<lambda>e. Refusal 400 ''BALANCE_QUERY_FAILED'' (error_text e)) 200 Adm_Balance"

section \<open>handlers.go\<close>

definition Logout :: "'p http_env \<Rightarrow> 'p admin_handler" where
  "Logout H actor req = done_reply ''LOGOUT_FAILED''
     (LogoutBearer (he_auth H) (BearerToken (hq_Header req ''Authorization'')) (hq_IP req) (user_agent req))"

definition ListTransactions :: "'p admin_handler" where
  "ListTransactions actor req = page_answer req Transactions_Page Adm_Transactions"

definition ListAuditLogs :: "'p admin_handler" where
  "ListAuditLogs actor req = page_answer req AuditLogs_Page Adm_AuditLogs"

definition ListProviderHealth :: "'p admin_handler" where
  "ListProviderHealth actor req =
     providerPage req ProviderHealth_Page ph_ProviderAccountID (\<lambda>name row. row\<lparr>ph_ProviderName := name\<rparr>) Adm_Health"

definition ListAdmins :: "'p admin_handler" where
  "ListAdmins actor req = page_answer req AdminUsers_Page Adm_Admins"

definition CreateAdminUser :: "'p http_env \<Rightarrow> 'p admin_handler" where
  "CreateAdminUser H actor req =
     validated (bind_payload (dj_CreateAdmin (he_json H)) CreateAdminRequest_Normalize
                  (CreateAdminRequest_rules (he_is_email H)) req) (\<lambda>r.
     reply 201 ''ADMIN_CREATE_FAILED''
       (AdminUser_Create (he_auth H) actor (car_Name r) (car_Email r) (car_Password r) (car_Role r)) Adm_Admin)"

definition ChangeAdminPassword :: "'p http_env \<Rightarrow> 'p admin_handler" where
  "ChangeAdminPassword H actor req =
     validated (bind_payload (dj_ChangePassword (he_json H)) ChangePasswordRequest_Normalize
                  ChangePasswordRequest_rules req) (\<lambda>r.
     done_reply ''PASSWORD_CHANGE_FAILED'' (ChangePassword (he_auth H) actor (the_id req) (cpw_Password r)))"

definition ChangeAdminStatus :: "'p http_env \<Rightarrow> 'p admin_handler" where
  "ChangeAdminStatus H actor req =
     validated (bind_payload (dj_Status (he_json H)) StatusRequest_Normalize ChangeAdminStatusRequest_rules req) (\<lambda>r.
     done_reply ''STATUS_CHANGE_FAILED'' (ChangeStatus (he_auth H) actor (the_id req) (str_Status r)))"

definition ChangeAdminRole :: "'p http_env \<Rightarrow> 'p admin_handler" where
  "ChangeAdminRole H actor req =
     validated (bind_payload (dj_ChangeRole (he_json H)) ChangeRoleRequest_Normalize ChangeRoleRequest_rules req) (\<lambda>r.
     done_reply ''ROLE_CHANGE_FAILED'' (ChangeRole (he_auth H) actor (the_id req) (crr_Role r)))"

definition ListApps :: "'p admin_handler" where
  "ListApps actor req = page_answer req Apps_Page Adm_Apps"

definition app_input :: "AppRequest \<Rightarrow> AppInput" where
  "app_input r =
     \<lparr>in_Name = apr_Name r, in_Description = apr_Description r, in_Environment = apr_Environment r,
      in_Currency = apr_Currency r, in_Charges = apr_Charges r\<rparr>"

definition handle_CreateApp :: "'p http_env \<Rightarrow> 'p admin_handler" where
  "handle_CreateApp H actor req =
     validated (bind_payload (dj_App (he_json H)) AppRequest_Normalize CreateAppRequest_rules req) (\<lambda>r.
     reply 201 ''APP_CREATE_FAILED'' (CreateApp (he_app_auth H) actor (app_input r)) Adm_App)"

definition handle_UpdateApp :: "'p http_env \<Rightarrow> 'p admin_handler" where
  "handle_UpdateApp H actor req =
     validated (bind_payload (dj_App (he_json H)) AppRequest_Normalize UpdateAppRequest_rules req) (\<lambda>r.
     reply 200 ''APP_UPDATE_FAILED'' (UpdateApp (he_app_auth H) actor (the_id req) (app_input r)) Adm_App)"

definition handle_ChangeAppStatus :: "'p http_env \<Rightarrow> 'p admin_handler" where
  "handle_ChangeAppStatus H actor req =
     validated (bind_payload (dj_Status (he_json H)) StatusRequest_Normalize ChangeAppStatusRequest_rules req) (\<lambda>r.
     done_reply ''APP_STATUS_CHANGE_FAILED'' (ChangeAppStatus (he_app_auth H) actor (the_id req) (str_Status r)))"

definition ListCredentials :: "'p admin_handler" where
  "ListCredentials actor req = page_answer req (AppCredentials_PageForApp (the_id req)) Adm_Credentials"

definition parseExpiry :: "(string \<Rightarrow> err + time) \<Rightarrow> string \<Rightarrow> err + time option" where
  "parseExpiry parse raw =
     (if raw = [] then Inr None
      else case parse raw of Inl _ \<Rightarrow> Inl (Msg ''expires_at must be RFC3339'') | Inr t \<Rightarrow> Inr (Some t))"

definition handle_CreateCredential :: "'p http_env \<Rightarrow> 'p admin_handler" where
  "handle_CreateCredential H actor req =
     validated (bind_payload (dj_CreateCredential (he_json H)) CreateCredentialRequest_Normalize
                  CreateCredentialRequest_rules req) (\<lambda>r.
     validated (parseExpiry (he_parse_time H) (ccr_ExpiresAt r)) (\<lambda>expires.
     reply 201 ''APP_CREDENTIAL_CREATE_FAILED''
       (CreateCredential (he_app_auth H) actor (the_id req) (ccr_Name r) (ccr_Scopes r) expires) Adm_Credential))"

definition handle_RevokeCredential :: "'p http_env \<Rightarrow> 'p admin_handler" where
  "handle_RevokeCredential H actor req = done_reply ''APP_CREDENTIAL_REVOKE_FAILED''
     (RevokeCredential (he_app_auth H) actor (the_id req) (param req ''credentialID''))"

definition handle_RotateCredential :: "'p http_env \<Rightarrow> 'p admin_handler" where
  "handle_RotateCredential H actor req = reply 200 ''APP_CREDENTIAL_ROTATE_FAILED''
     (RotateCredential (he_app_auth H) actor (the_id req) (param req ''credentialID'')) Adm_Credential"

definition ListProviders :: "'p admin_handler" where
  "ListProviders actor req = page_answer req ProviderAccounts_Page Adm_Accounts"

definition ProviderRegistry :: "'p http_env \<Rightarrow> 'p admin_handler" where
  "ProviderRegistry H actor req w = (JSON 200 (Adm_Registry (RegisteredProviders (he_env H))), w)"

text \<open>A configuration that was not sent is a nil map, which ranges as an empty one.\<close>

definition sent_map :: "gmap option \<Rightarrow> gmap" where
  "sent_map m = (case m of None \<Rightarrow> [] | Some m \<Rightarrow> m)"

definition CreateProvider :: "'p http_env \<Rightarrow> 'p admin_handler" where
  "CreateProvider H actor req =
     validated (bind_payload (dj_CreateProvider (he_json H)) CreateProviderAccountRequest_Normalize
                  (CreateProviderAccountRequest_rules (he_region H)) req) (\<lambda>r.
     reply 201 ''PROVIDER_CREATE_FAILED''
       (CreateAccount (he_env H) (he_audit H) actor
          \<lparr>ci_ProviderCode = cpa_ProviderCode r, ci_Name = cpa_Name r, ci_Environment = cpa_Environment r,
           ci_Country = cpa_Country r, ci_Currency = cpa_Currency r, ci_Charges = cpa_Charges r,
           ci_Config = sent_map (cpa_Config r)\<rparr>) Adm_Account)"

definition UpdateProviderSettings :: "'p http_env \<Rightarrow> 'p admin_handler" where
  "UpdateProviderSettings H actor req =
     validated (bind_payload (dj_ProviderSettings (he_json H)) UpdateProviderSettingsRequest_Normalize
                  (UpdateProviderSettingsRequest_rules (he_region H)) req) (\<lambda>r.
     done_reply ''SETTINGS_UPDATE_FAILED''
       (UpdateSettings (he_env H) (he_audit H) actor (the_id req)
          \<lparr>set_Country = ups_Country r, set_Currency = ups_Currency r, set_Charges = ups_Charges r\<rparr>))"

definition UpdateProviderConfig :: "'p http_env \<Rightarrow> 'p admin_handler" where
  "UpdateProviderConfig H actor req =
     validated (bind_payload (dj_ProviderConfig (he_json H)) UpdateProviderConfigRequest_Normalize
                  UpdateProviderConfigRequest_rules req) (\<lambda>r.
     done_reply ''CONFIG_UPDATE_FAILED''
       (UpdateConfig (he_env H) (he_audit H) actor (the_id req) (sent_map (upc_Config r))))"

definition ActivateProvider :: "'p http_env \<Rightarrow> 'p admin_handler" where
  "ActivateProvider H actor req = done_reply ''PROVIDER_ACTIVATE_FAILED''
     (Activate (he_env H) (he_audit H) actor (the_id req))"

definition DeactivateProvider :: "'p http_env \<Rightarrow> 'p admin_handler" where
  "DeactivateProvider H actor req = done_reply ''PROVIDER_DEACTIVATE_FAILED''
     (Deactivate (he_audit H) actor (the_id req))"

definition TestProvider :: "'p http_env \<Rightarrow> 'p admin_handler" where
  "TestProvider H actor req = done_reply ''PROVIDER_TEST_FAILED''
     (bindE (TestProviderConfig (he_env H) (the_id req)) (\<lambda>_.
      RecordBestEffort (he_audit H) (ActorID actor) ''admin'' ''provider.tested'' ''provider_account'' (the_id req)
        None (hq_IP req) (user_agent req)))"

definition ListRoutes :: "'p admin_handler" where
  "ListRoutes actor req =
     providerPage req PaymentRoutes_Page pr_ProviderAccountID (\<lambda>name row. row\<lparr>pr_ProviderName := name\<rparr>) Adm_Routes"

definition CreateRoute :: "'p http_env \<Rightarrow> 'p admin_handler" where
  "CreateRoute H actor req =
     validated (bind_payload (dj_CreateRoute (he_json H)) CreateRouteRequest_Normalize CreateRouteRequest_rules req) (\<lambda>r.
     reply 201 ''ROUTE_CREATE_FAILED''
       (route_Create (he_audit H) actor (crt_ServiceType r) (crt_PaymentMethod r) (crt_ProviderAccountID r)
          (crt_Priority r) (crt_Active r)) Adm_Route)"

definition UpdateRoute :: "'p http_env \<Rightarrow> 'p admin_handler" where
  "UpdateRoute H actor req =
     validated (bind_payload (dj_UpdateRoute (he_json H)) UpdateRouteRequest_Normalize UpdateRouteRequest_rules req) (\<lambda>r.
     done_reply ''ROUTE_UPDATE_FAILED''
       (route_Update (he_audit H) actor (the_id req) (urr_Priority r) (urr_Active r)))"

section \<open>authz.go\<close>

definition handle_ListPermissions :: "'p admin_handler" where
  "handle_ListPermissions actor req =
     respond (ListPermissions (to_lower (trim_space (query (hq_Query req) ''audience'')))) bad_request 200
       (\<lambda>ps. Adm_Permissions ps (length ps))"

definition handle_ListRoles :: "'p admin_handler" where
  "handle_ListRoles actor req = respond ListRoles bad_request 200 (\<lambda>rs. Adm_Roles rs (length rs))"

definition handle_CreateRole :: "'p http_env \<Rightarrow> 'p admin_handler" where
  "handle_CreateRole H actor req =
     validated (bind_payload (dj_Role (he_json H)) RoleRequest_Normalize RoleRequest_rules req) (\<lambda>r.
     reply 201 ''ROLE_ERROR''
       (CreateRole (he_audit H) actor (ror_Name r) (ror_Description r) (ror_Permissions r)) Adm_Role)"

definition handle_UpdateRole :: "'p http_env \<Rightarrow> 'p admin_handler" where
  "handle_UpdateRole H actor req =
     validated (bind_payload (dj_Role (he_json H)) RoleRequest_Normalize RoleRequest_rules req) (\<lambda>r.
     done_reply ''ROLE_ERROR''
       (UpdateRole (he_audit H) actor (param req ''name'') (ror_Description r) (ror_Permissions r)))"

definition handle_DeleteRole :: "'p http_env \<Rightarrow> 'p admin_handler" where
  "handle_DeleteRole H actor req = done_reply ''ROLE_ERROR'' (DeleteRole (he_audit H) actor (param req ''name''))"

section \<open>analytics.go\<close>

definition optionalTime :: "(string \<Rightarrow> err + time) \<Rightarrow> string \<Rightarrow> err + time" where
  "optionalTime parse raw = (let v = trim_space raw in if v = [] then Inr zero_time else parse v)"

definition handle_TransactionAnalytics :: "'p http_env \<Rightarrow> 'p admin_handler" where
  "handle_TransactionAnalytics H actor req =
     (case optionalTime (he_parse_time H) (query (hq_Query req) ''from'') of
        Inl _ \<Rightarrow> refuse (Refusal 400 ''BAD_REQUEST'' ''from must be an RFC3339 timestamp'')
      | Inr start \<Rightarrow>
          (case optionalTime (he_parse_time H) (query (hq_Query req) ''to'') of
             Inl _ \<Rightarrow> refuse (Refusal 400 ''BAD_REQUEST'' ''to must be an RFC3339 timestamp'')
           | Inr stop \<Rightarrow>
               respond (Analytics_Transactions (he_bucket H) (he_db_order H) (he_ranged H) (he_dialect H)
                  \<lparr>af_From = start, af_To = stop, af_Interval = query (hq_Query req) ''interval'',
                   af_AppID = trim_space (query (hq_Query req) ''app_id''),
                   af_ProviderAccountID = trim_space (query (hq_Query req) ''provider_account_id'')\<rparr>)
                 bad_request 200 Adm_Analytics))"

section \<open>system.go\<close>

definition SystemInfo :: "'p http_env \<Rightarrow> 'p admin_handler" where
  "SystemInfo H actor req w = (JSON 200 (Adm_SystemInfo (he_system H) (he_go_version H) (now w)), w)"

text \<open>\<open>UnitOfWork.Ping\<close>: whether the database answers.\<close>

definition db_Ping :: "('p, unit) act" where
  "db_Ping = on_db statement"

definition SystemHealth :: "'p http_env \<Rightarrow> 'p admin_handler" where
  "SystemHealth H actor req =
     respond
       (handleE db_Ping (\<lambda>r. let ok = (case r of Inl _ \<Rightarrow> False | Inr _ \<Rightarrow> True) in
        bindE (on_db ProviderAccounts_CountActive) (\<lambda>active_n.
        bindE (get_world (\<lambda>w. (length (runtime_List w), now w))) (\<lambda>(loaded, t).
        returnE \<lparr>ss_OK = ok, ss_RuntimeProviders = loaded, ss_ActiveAccounts = active_n,
                 ss_Workers = sys_WorkerNames (he_system H), ss_ServerTime = t\<rparr>))))
       (\<lambda>e. Refusal 500 ''DB_ERROR'' (error_text e)) 200 Adm_SystemHealth"

definition Workers :: "'p http_env \<Rightarrow> 'p admin_handler" where
  "Workers H actor req =
     respond (liftE (page_slice_of req (sys_WorkerNames (he_system H)))) server_error 200 Adm_Workers"

definition runtime_item :: "'p runtime \<Rightarrow> ProviderHealthSnapshot option \<Rightarrow> RuntimeItem" where
  "runtime_item p health =
     \<lparr>ri_AccountID = rt_AccountID p, ri_ProviderName = rt_ProviderName p, ri_ProviderCode = rt_ProviderCode p,
      ri_ConfigVersion = rt_ConfigVersion p, ri_Capabilities = rt_Capabilities p, ri_Country = rt_Country p,
      ri_Currency = rt_Currency p, ri_Health = health\<rparr>"

text \<open>A provider that has never been probed has no snapshot.\<close>

fun runtime_rows :: "'p runtime list \<Rightarrow> ('p, RuntimeItem list) act" where
  "runtime_rows [] = returnE []"
| "runtime_rows (p # ps) =
     bindE (handleE (on_db (ProviderHealth_ByAccount (rt_AccountID p))) (\<lambda>r.
              case r of
                Inr health \<Rightarrow> returnE (Some health)
              | Inl e \<Rightarrow> if IsNotFound e then returnE None else throwE e)) (\<lambda>health.
     bindE (runtime_rows ps) (\<lambda>rows.
     returnE (runtime_item p health # rows)))"

definition RuntimeProviders :: "'p admin_handler" where
  "RuntimeProviders actor req =
     respond (bindE (get_world runtime_List) (\<lambda>ps. bindE (runtime_rows ps) (\<lambda>rows. liftE (page_slice_of req rows))))
       server_error 200 Adm_Runtimes"

end
