(* ===== verification/PublicApi.thy ===== *)
theory PublicApi
  imports Http WebhookFacts
begin

text \<open>
  \<open>internal/http/public/handlers.go\<close>, \<open>http/webhooks/handler.go\<close> and the public part of the
  router: the routes an application's backend and the providers call.
\<close>

datatype public_payload =
    Pub_Token TokenResponse
  | Pub_Done
  | Pub_Methods "(string \<times> string) list" nat
  | Pub_Payment CreatePaymentResponse
  | Pub_Transaction AppTransaction

section \<open>handlers.go\<close>

text \<open>\<open>decode\<close> is the JSON decoding of the payment payload.\<close>

definition Ping :: "request \<Rightarrow> ('p, public_payload) answer" where
  "Ping req w = (JSON 200 Pub_Done, w)"

definition public_Health :: "request \<Rightarrow> ('p, public_payload) answer" where
  "public_Health req w = (JSON 200 Pub_Done, w)"

definition ClientToken :: "auth_env \<Rightarrow> request \<Rightarrow> ('p, public_payload) answer" where
  "ClientToken A = Token ''client_credentials''
     (\<lambda>req. IssueClientToken A (hq_Form req ''client_id'') (hq_Form req ''client_secret'')) Pub_Token"

definition AppRefreshToken :: "auth_env \<Rightarrow> request \<Rightarrow> ('p, public_payload) answer" where
  "AppRefreshToken A = Token ''refresh_token'' (\<lambda>req. app_RefreshToken A (hq_Form req ''refresh_token'')) Pub_Token"

definition no_app :: refusal where "no_app = Refusal 401 ''UNAUTHORIZED'' ''missing app identity''"

definition ListPaymentMethods :: "'p env \<Rightarrow> AppIdentity option \<Rightarrow> request \<Rightarrow> ('p, public_payload) answer" where
  "ListPaymentMethods E identity req =
     (case identity of None \<Rightarrow> refuse no_app
      | Some i \<Rightarrow>
          respond (AvailablePaymentMethods E (to_lower (trim_space (query (hq_Query req) ''service_type'')))
                     (query (hq_Query req) ''country'') (app_Currency (id_App i)))
            (\<lambda>e. Refusal 400 ''BAD_REQUEST'' (error_text e)) 200
            (\<lambda>methods. Pub_Methods methods (length methods)))"

definition payment_refusal :: "err \<Rightarrow> refusal" where
  "payment_refusal e =
     (if errors_is e NoRouteAvailable then Refusal 503 ''ROUTE_UNAVAILABLE'' ''no active provider route is available''
      else if errors_is e PaymentRejected then Refusal 400 ''PAYMENT_REJECTED'' ''payment request was rejected''
      else Refusal 400 ''PAYMENT_ERROR'' (error_text e))"

definition public_create ::
    "'p env \<Rightarrow> CreatePayment decoder \<Rightarrow> string \<Rightarrow> AppIdentity option \<Rightarrow> request \<Rightarrow> ('p, public_payload) answer" where
  "public_create E decode service identity req =
     (case identity of None \<Rightarrow> refuse no_app
      | Some i \<Rightarrow>
          validated (DecodeJSON decode (hq_Body req)) (\<lambda>payment.
            respond (payment_Create E (app_ID (id_App i)) service (hq_Header req ''Idempotency-Key'') payment)
              payment_refusal 201 Pub_Payment))"

definition CreateCollection ::
    "'p env \<Rightarrow> CreatePayment decoder \<Rightarrow> AppIdentity option \<Rightarrow> request \<Rightarrow> ('p, public_payload) answer" where
  "CreateCollection E decode = public_create E decode ServiceCollection"

definition CreateDisbursement ::
    "'p env \<Rightarrow> CreatePayment decoder \<Rightarrow> AppIdentity option \<Rightarrow> request \<Rightarrow> ('p, public_payload) answer" where
  "CreateDisbursement E decode = public_create E decode ServiceDisbursement"

definition public_get ::
    "string \<Rightarrow> string \<Rightarrow> AppIdentity option \<Rightarrow> ('p, public_payload) answer" where
  "public_get field_name value identity =
     (case identity of None \<Rightarrow> refuse no_app
      | Some i \<Rightarrow>
          respond (payment_Get (app_ID (id_App i)) field_name value)
            (\<lambda>_. Refusal 404 ''NOT_FOUND'' ''transaction not found'') 200
            (\<lambda>tx. Pub_Transaction (PublicTransaction tx)))"

definition GetTransaction :: "AppIdentity option \<Rightarrow> request \<Rightarrow> ('p, public_payload) answer" where
  "GetTransaction identity req = public_get ''id'' (param req ''id'') identity"

definition GetTransactionByReference :: "AppIdentity option \<Rightarrow> request \<Rightarrow> ('p, public_payload) answer" where
  "GetTransactionByReference identity req = public_get ''reference'' (param req ''reference'') identity"

section \<open>webhooks/handler.go\<close>

text \<open>The first value of every header.\<close>

definition first_headers :: "(string \<times> string list) list \<Rightarrow> (string \<times> string) list" where
  "first_headers hs = map (\<lambda>(k, vs). (k, hd vs)) (filter (\<lambda>(k, vs). vs \<noteq> []) hs)"

definition ProviderWebhook :: "'p env \<Rightarrow> request \<Rightarrow> ('p, public_payload) answer" where
  "ProviderWebhook E req =
     respond (webhook_Handle E (param req ''providerAccountID'') (hq_Body req) (first_headers (hq_Headers req)))
       (\<lambda>e. Refusal 400 ''WEBHOOK_ERROR'' (error_text e)) 200 (\<lambda>_. Pub_Done)"

section \<open>router.go\<close>

definition maxWebhookBytes :: nat where "maxWebhookBytes = 262144"
definition maxRequestBytes :: nat where "maxRequestBytes = 1048576"

definition mountPublic ::
    "'p env \<Rightarrow> auth_env \<Rightarrow> CreatePayment decoder \<Rightarrow> ('p, AppIdentity, public_payload) endpoint list" where
  "mountPublic E A decode =
     (let api = (\<lambda>rest. Lit ''api'' # Lit ''v1'' # rest);
          token = (\<lambda>path run. \<lparr>ep_Method = ''POST'', ep_Path = api path, ep_Limit = PublicTokens, ep_Bearer = False,
                               ep_JSON = False, ep_Needs = [], ep_Run = \<lambda>_. run\<rparr>);
          authed = (\<lambda>verb path json scope run.
            \<lparr>ep_Method = verb, ep_Path = api path, ep_Limit = PublicCalls, ep_Bearer = True, ep_JSON = json,
             ep_Needs = scope, ep_Run = run\<rparr>)
      in [token [Lit ''token''] (ClientToken A),
          token [Lit ''token'', Lit ''refresh''] (AppRefreshToken A),
          authed ''GET'' [Lit ''payment-methods''] False [] (ListPaymentMethods E),
          authed ''POST'' [Lit ''collections''] True ''collections:create'' (CreateCollection E decode),
          authed ''POST'' [Lit ''disbursements''] True ''disbursements:create'' (CreateDisbursement E decode),
          authed ''GET'' [Lit ''transactions'', Lit ''by-reference'', Par ''reference''] False ''transactions:read''
            GetTransactionByReference,
          authed ''GET'' [Lit ''transactions'', Par ''id''] False ''transactions:read'' GetTransaction])"

definition serve_public ::
    "'p env \<Rightarrow> auth_env \<Rightarrow> CreatePayment decoder \<Rightarrow> request \<Rightarrow> ('p, public_payload) answer option" where
  "serve_public E A decode = serve (WithAppBearer A) RequireAppScope (mountPublic E A decode)"

text \<open>The routes outside the groups: liveness, and the webhooks behind their own limits.\<close>

definition serve_open :: "'p env \<Rightarrow> request \<Rightarrow> ('p, public_payload) answer option" where
  "serve_open E req =
     (if hq_Method req = ''GET'' \<and> hq_Path req = [''ping''] then Some (Ping req)
      else if hq_Method req = ''GET'' \<and> hq_Path req = [''healthz''] then Some (public_Health req)
      else if hq_Method req = ''POST'' then
        (case match_path [Lit ''webhooks'', Par ''providerAccountID''] (hq_Path req) of
           None \<Rightarrow> None
         | Some ps \<Rightarrow>
             Some (guarded (limitBy WebhookCalls req)
               (guarded (bodyLimit maxWebhookBytes req) (ProviderWebhook E (req\<lparr>hq_Params := ps\<rparr>)))))
      else None)"

end
