(* ===== verification/Router.thy ===== *)
theory Router
  imports AdminApi PublicApi
begin

text \<open>
  \<open>mountAdmin\<close> of \<open>internal/http/router.go\<close>: the administrative routes in the order they are
  registered, each with the one permission it names.
\<close>

definition admin_path :: "segment list \<Rightarrow> segment list" where
  "admin_path rest = Lit ''api'' # Lit ''admin'' # rest"

definition token_endpoint ::
    "segment list \<Rightarrow> (request \<Rightarrow> ('p, admin_payload) answer) \<Rightarrow> ('p, AdminUser, admin_payload) endpoint" where
  "token_endpoint path run =
     \<lparr>ep_Method = ''POST'', ep_Path = admin_path path, ep_Limit = AdminTokens, ep_Bearer = False, ep_JSON = False,
      ep_Needs = [], ep_Run = \<lambda>_. run\<rparr>"

text \<open>\<open>chain\<close>: the limiter, the bearer, what is extra, the permission, the handler.\<close>

definition chain ::
    "string \<Rightarrow> segment list \<Rightarrow> string \<Rightarrow> bool \<Rightarrow> 'p admin_handler \<Rightarrow> ('p, AdminUser, admin_payload) endpoint" where
  "chain verb path permission json run =
     \<lparr>ep_Method = verb, ep_Path = admin_path path, ep_Limit = AdminCalls, ep_Bearer = True, ep_JSON = json,
      ep_Needs = permission, ep_Run = run\<rparr>"

abbreviation "get_route path permission run \<equiv> chain ''GET'' path permission False run"
abbreviation "post_route path permission json run \<equiv> chain ''POST'' path permission json run"
abbreviation "patch_route path permission json run \<equiv> chain ''PATCH'' path permission json run"

definition mountAdmin :: "'p http_env \<Rightarrow> ('p, AdminUser, admin_payload) endpoint list" where
  "mountAdmin H =
    [token_endpoint [Lit ''token''] (admin_Token H),
     token_endpoint [Lit ''login''] (admin_Token H),
     token_endpoint [Lit ''token'', Lit ''refresh''] (admin_Refresh H),
     chain ''POST'' [Lit ''logout''] [] False (Logout H),
     chain ''GET'' [Lit ''me''] [] False Me,
     get_route [Lit ''permissions''] ''roles:read'' handle_ListPermissions,
     get_route [Lit ''roles''] ''roles:read'' handle_ListRoles,
     post_route [Lit ''roles''] ''roles:create'' True (handle_CreateRole H),
     patch_route [Lit ''roles'', Par ''name''] ''roles:update'' True (handle_UpdateRole H),
     chain ''DELETE'' [Lit ''roles'', Par ''name''] ''roles:delete'' False (handle_DeleteRole H),
     get_route [Lit ''transactions''] ''transactions:read'' ListTransactions,
     get_route [Lit ''analytics'', Lit ''transactions''] ''transactions:read'' (handle_TransactionAnalytics H),
     get_route [Lit ''audit-logs''] ''audit:read'' ListAuditLogs,
     get_route [Lit ''system'', Lit ''info''] ''system:read'' (SystemInfo H),
     get_route [Lit ''system'', Lit ''health''] ''system:read'' (SystemHealth H),
     get_route [Lit ''workers''] ''system:read'' (Workers H),
     get_route [Lit ''users''] ''users:read'' ListAdmins,
     post_route [Lit ''users''] ''users:create'' True (CreateAdminUser H),
     patch_route [Lit ''users'', Par ''id'', Lit ''password''] [] True (ChangeAdminPassword H),
     patch_route [Lit ''users'', Par ''id'', Lit ''status''] ''users:update'' True (ChangeAdminStatus H),
     patch_route [Lit ''users'', Par ''id'', Lit ''role''] ''users:update'' True (ChangeAdminRole H),
     get_route [Lit ''apps''] ''apps:read'' ListApps,
     post_route [Lit ''apps''] ''apps:create'' True (handle_CreateApp H),
     get_route [Lit ''apps'', Par ''id''] ''apps:read'' handle_GetApp,
     patch_route [Lit ''apps'', Par ''id''] ''apps:update'' True (handle_UpdateApp H),
     patch_route [Lit ''apps'', Par ''id'', Lit ''status''] ''apps:update'' True (handle_ChangeAppStatus H),
     get_route [Lit ''apps'', Par ''id'', Lit ''credentials''] ''credentials:read'' ListCredentials,
     post_route [Lit ''apps'', Par ''id'', Lit ''credentials''] ''credentials:create'' True (handle_CreateCredential H),
     patch_route [Lit ''apps'', Par ''id'', Lit ''credentials'', Par ''credentialID'', Lit ''revoke''] ''credentials:update''
       False (handle_RevokeCredential H),
     post_route [Lit ''apps'', Par ''id'', Lit ''credentials'', Par ''credentialID'', Lit ''rotate''] ''credentials:update''
       False (handle_RotateCredential H),
     get_route [Lit ''providers''] ''providers:read'' ListProviders,
     get_route [Lit ''providers'', Lit ''registry''] ''providers:read'' (ProviderRegistry H),
     get_route [Lit ''providers'', Lit ''accounts'', Par ''id''] ''providers:read'' GetProviderAccount,
     get_route [Lit ''health'', Lit ''providers''] ''providers:read'' ListProviderHealth,
     get_route [Lit ''runtime'', Lit ''providers''] ''providers:read'' RuntimeProviders,
     post_route [Lit ''providers'', Lit ''accounts''] ''providers:create'' True (CreateProvider H),
     patch_route [Lit ''providers'', Lit ''accounts'', Par ''id'', Lit ''settings''] ''providers:update'' True
       (UpdateProviderSettings H),
     patch_route [Lit ''providers'', Lit ''accounts'', Par ''id'', Lit ''config''] ''providers:update'' True
       (UpdateProviderConfig H),
     patch_route [Lit ''providers'', Lit ''accounts'', Par ''id'', Lit ''activate''] ''providers:update'' False
       (ActivateProvider H),
     patch_route [Lit ''providers'', Lit ''accounts'', Par ''id'', Lit ''deactivate''] ''providers:update'' False
       (DeactivateProvider H),
     post_route [Lit ''providers'', Lit ''accounts'', Par ''id'', Lit ''test''] ''providers:test'' False (TestProvider H),
     get_route [Lit ''balances'', Lit ''providers''] ''balances:read'' (ActiveProviderBalances H),
     get_route [Lit ''providers'', Lit ''accounts'', Par ''id'', Lit ''balance''] ''balances:read''
       (handle_ProviderBalance H),
     get_route [Lit ''routes''] ''routes:read'' ListRoutes,
     post_route [Lit ''routes''] ''routes:create'' True (CreateRoute H),
     patch_route [Lit ''routes'', Par ''id''] ''routes:update'' True (UpdateRoute H)]"

definition serve_admin :: "'p http_env \<Rightarrow> request \<Rightarrow> ('p, admin_payload) answer option" where
  "serve_admin H = serve (WithAdminBearer (he_auth H)) RequirePermission (mountAdmin H)"

text \<open>\<open>NewRouter\<close>: the groups in order; what none of them takes goes to the static site or the framework.\<close>

datatype payload = Public public_payload | Admin admin_payload

definition lift_answer :: "('x \<Rightarrow> 'y) \<Rightarrow> ('p, 'x) answer \<Rightarrow> ('p, 'y) answer" where
  "lift_answer f k w = (case k w of (r, w') \<Rightarrow> (map_sum id (\<lambda>(status, x). (status, f x)) r, w'))"

definition serve_request ::
    "'p http_env \<Rightarrow> CreatePayment decoder \<Rightarrow> request \<Rightarrow> ('p, payload) answer option" where
  "serve_request H decode req =
     (case serve_open (he_env H) req of
        Some k \<Rightarrow> Some (lift_answer Public k)
      | None \<Rightarrow>
          (case serve_public (he_env H) (he_app_auth H) decode req of
             Some k \<Rightarrow> Some (lift_answer Public k)
           | None \<Rightarrow> map_option (lift_answer Admin) (serve_admin H req)))"

end
