(* ===== verification/AnalyticsFacts.thy ===== *)
theory AnalyticsFacts
  imports Analytics Samples "HOL-Library.Multiset"
begin

text \<open>
  What an analytics response says: the labels of a range, the position a transaction falls in, the
  sums over the groups of the database as sums over the transactions, and the refusals.
\<close>

section \<open>sortedKeys\<close>

lemma swap_down_prefix:
  assumes "sorted ps"
  shows "\<exists>rs. swap_down (ps @ x # ys) (length ps) = rs @ ys \<and> mset rs = mset (x # ps) \<and> sorted rs"
  using assms
proof (induction ps arbitrary: x ys rule: rev_induct)
  case (snoc q qs)
  let ?xs = "(qs @ [q]) @ x # ys"
  have nths: "?xs ! Suc (length qs) = x" "?xs ! length qs = q" by (simp_all add: nth_append)
  have upd: "?xs[Suc (length qs) := q, length qs := x] = qs @ x # q # ys"
    by (simp add: list_update_append)
  show ?case
  proof (cases "x < q")
    case True
    have "sorted qs" using snoc.prems by (simp add: sorted_append)
    from snoc.IH [OF this, of x "q # ys"] obtain rs
      where rs: "swap_down (qs @ x # (q # ys)) (length qs) = rs @ q # ys" "mset rs = mset (x # qs)" "sorted rs"
      by blast
    have "set rs = insert x (set qs)" using rs(2) by (metis mset_eq_setD list.simps(15))
    with True rs(3) snoc.prems have "sorted (rs @ [q])" by (auto simp: sorted_append)
    moreover have "swap_down ?xs (length (qs @ [q])) = (rs @ [q]) @ ys"
      using True rs(1) nths upd by simp
    moreover have "mset (rs @ [q]) = mset (x # qs @ [q])" using rs(2) by simp
    ultimately show ?thesis by blast
  next
    case False
    then have "swap_down ?xs (length (qs @ [q])) = (qs @ [q, x]) @ ys" using nths by simp
    moreover have "sorted (qs @ [q, x])" using False snoc.prems by (force simp: sorted_append)
    ultimately show ?thesis by (intro exI [of _ "qs @ [q, x]"]) simp
  qed
qed simp

lemma sortedKeys_prefix:
  assumes "n < length keys"
  shows "\<exists>rs. fold (\<lambda>i keys. swap_down keys i) [1..<Suc n] keys = rs @ drop (Suc n) keys \<and>
              mset rs = mset (take (Suc n) keys) \<and> sorted rs"
  using assms
proof (induction n)
  case 0
  then show ?case by (intro exI [of _ "[keys ! 0]"]) (simp add: Cons_nth_drop_Suc take_Suc_conv_app_nth)
next
  case (Suc n)
  then obtain rs where rs: "fold (\<lambda>i keys. swap_down keys i) [1..<Suc n] keys = rs @ drop (Suc n) keys"
    "mset rs = mset (take (Suc n) keys)" "sorted rs"
    by auto
  have len: "length rs = Suc n" using rs(2) Suc.prems by (metis size_mset length_take min.absorb2 less_imp_le)
  have d: "drop (Suc n) keys = keys ! Suc n # drop (Suc (Suc n)) keys"
    using Suc.prems by (simp add: Cons_nth_drop_Suc)
  obtain qs where "swap_down (rs @ keys ! Suc n # drop (Suc (Suc n)) keys) (length rs) = qs @ drop (Suc (Suc n)) keys"
    "mset qs = mset (keys ! Suc n # rs)" "sorted qs"
    using swap_down_prefix [OF rs(3)] by blast
  moreover have "mset (take (Suc (Suc n)) keys) = mset (keys ! Suc n # rs)"
    using rs(2) Suc.prems by (simp add: take_Suc_conv_app_nth)
  moreover have "fold (\<lambda>i keys. swap_down keys i) [1..<Suc (Suc n)] keys =
      swap_down (fold (\<lambda>i keys. swap_down keys i) [1..<Suc n] keys) (Suc n)"
    by (simp del: swap_down.simps)
  ultimately show ?case using rs(1) len d by (intro exI [of _ qs]) (simp del: swap_down.simps upt_Suc)
qed

lemma sortedKeys_sort: "sortedKeys keys = sort keys"
proof (cases "length keys")
  case (Suc n)
  then obtain rs where "sortedKeys keys = rs" "mset rs = mset keys" "sorted rs"
    using sortedKeys_prefix [of n keys] by (auto simp: sortedKeys_def)
  then show ?thesis by (metis properties_for_sort)
qed (simp add: sortedKeys_def)

text \<open>The adjacent swaps of \<open>sortedKeys\<close> compute the library's \<open>sort\<close>, so the order of the response does not
  depend on the order the map was ranged over.\<close>

lemma sorted_keys: "sortedKeys keys = sort keys \<and> sortedKeys (rev keys) = sortedKeys keys"
  by (simp add: sortedKeys_sort) (metis mset_rev mset_sort properties_for_sort sorted_sort)

section \<open>The labels of a range\<close>

definition bucket_count :: "duration \<Rightarrow> time \<Rightarrow> time \<Rightarrow> nat" where
  "bucket_count step start stop = nat ((stop - start + step - 1) div step)"

lemma bucket_count_step:
  assumes "0 < step" and "at < stop"
  shows "bucket_count step at stop = Suc (bucket_count step (at + step) stop)"
proof -
  have "stop - at + step - 1 = (stop - (at + step) + step - 1) + 1 * step" by simp
  then have "(stop - at + step - 1) div step = (stop - (at + step) + step - 1) div step + 1"
    using assms(1) by (simp only: div_mult_self1)
  moreover have "0 \<le> (stop - (at + step) + step - 1) div step"
    using assms by (simp add: pos_imp_zdiv_nonneg_iff)
  ultimately show ?thesis by (simp add: bucket_count_def)
qed

lemma periods_from_eq:
  assumes "0 < step" and "length out \<le> maxAnalyticsBuckets"
  shows "periods_from step at stop out =
         out @ map (\<lambda>k. formatPeriod (at + int k * step))
                   [0..<min (Suc maxAnalyticsBuckets - length out) (bucket_count step at stop)]"
  using assms
proof (induction step at stop out rule: periods_from.induct)
  case (1 step at stop out)
  show ?case
  proof (cases "at < stop")
    case False
    then have "(stop - at + step - 1) div step \<le> (step - 1) div step"
      using 1 by (intro zdiv_mono1) simp_all
    then have "bucket_count step at stop = 0" using 1 by (simp add: bucket_count_def)
    with False show ?thesis by (simp add: periods_from.simps [of step at])
  next
    case True
    note n = bucket_count_step [OF \<open>0 < step\<close> True]
    let ?m = "bucket_count step (at + step) stop"
    have shift: "map (\<lambda>k. formatPeriod (at + int k * step)) [0..<Suc m] =
        formatPeriod at # map (\<lambda>k. formatPeriod (at + step + int k * step)) [0..<m]" for m
      by (simp add: upt_conv_Cons map_Suc_upt [symmetric] algebra_simps del: upt_Suc)
    show ?thesis
    proof (cases "length out = maxAnalyticsBuckets")
      case full: True
      then have "min (Suc maxAnalyticsBuckets - length out) (bucket_count step at stop) = Suc 0" by (simp add: n)
      with full True show ?thesis by (simp add: periods_from.simps [of step at])
    next
      case False
      with 1 have "Suc maxAnalyticsBuckets - length out = Suc (Suc maxAnalyticsBuckets - length (out @ [formatPeriod at]))"
        by simp
      then have "min (Suc maxAnalyticsBuckets - length out) (bucket_count step at stop) =
          Suc (min (Suc maxAnalyticsBuckets - length (out @ [formatPeriod at])) ?m)"
        by (simp only: n min_Suc_Suc)
      moreover have "periods_from step at stop out = periods_from step (at + step) stop (out @ [formatPeriod at])"
        using True False 1 by (simp add: periods_from.simps [of step at])
      ultimately show ?thesis using 1 True False by (simp only: shift) simp
    qed
  qed
qed

lemma period_step_pos: "0 < period_step i" by (simp add: period_step_def)

lemma periods_eq:
  "periods f =
     map (\<lambda>k. formatPeriod (af_From f + int k * period_step (af_Interval f)))
       [0..<min 401 (bucket_count (period_step (af_Interval f)) (af_From f) (af_To f))]"
  using periods_from_eq [OF period_step_pos, of "[]"] by (simp add: periods_def maxAnalyticsBuckets_def)

text \<open>C31: \<open>periods\<close> ends for every range, even an inverted or an unbounded one, with the starts of its
  buckets, one more than the limit at most.\<close>

lemma periods_terminates:
  "periods f =
     map (\<lambda>k. formatPeriod (af_From f + int k * period_step (af_Interval f)))
       [0..<min 401 (bucket_count (period_step (af_Interval f)) (af_From f) (af_To f))] \<and>
   length (periods f) \<le> maxAnalyticsBuckets + 1"
  by (simp add: periods_eq maxAnalyticsBuckets_def)

lemma Truncate_le: "0 < d \<Longrightarrow> Truncate d t \<le> t"
  and Truncate_gt: "0 < d \<Longrightarrow> t < Truncate d t + d"
  using div_mult_mod_eq [of "t - zero_time" d] pos_mod_sign [of d "t - zero_time"] pos_mod_bound [of d "t - zero_time"]
  unfolding Truncate_def by linarith+

text \<open>What passes \<open>normalize\<close>: the start is a multiple of the step, and there are at most 400 buckets.\<close>

lemma normalize_InrD:
  assumes "normalize t f = Inr f'"
  shows "af_From f' < af_To f'" and "af_Interval f' = ''day'' \<or> af_Interval f' = ''hour''"
    and "\<exists>q. af_From f' = zero_time + q * period_step (af_Interval f')"
    and "length (periods f') \<le> maxAnalyticsBuckets"
    and "af_AppID f' = af_AppID f" and "af_ProviderAccountID f' = af_ProviderAccountID f"
proof -
  define i0 where "i0 = to_lower (trim_space (af_Interval f))"
  define i where "i = (if i0 = [] then ''day'' else i0)"
  define e0 where "e0 = (if af_To f = zero_time then Truncate hour (t + hour) else af_To f)"
  define s0 where "s0 = Truncate hour (if af_From f = zero_time then e0 - 30 * (24 * hour) else af_From f)"
  define s where "s = (if i = ''day'' then Truncate (24 * hour) s0 else s0)"
  let ?f = "f\<lparr>af_From := s, af_To := Truncate hour e0, af_Interval := i\<rparr>"
  have "normalize t f = (if i \<noteq> ''day'' \<and> i \<noteq> ''hour'' then Inl (Msg ''interval must be day or hour'')
     else if \<not> s < Truncate hour e0 then Inl (Msg ''to must be after from'')
     else if length (periods ?f) > maxAnalyticsBuckets
     then Inl (Msg (''range covers more than '' @ format_nat maxAnalyticsBuckets @ '' '' @ i @
                    '' buckets; narrow it or use a wider interval''))
     else Inr ?f)"
    by (simp only: normalize_def Let_def i0_def i_def e0_def s0_def s_def)
  with assms have i: "i = ''day'' \<or> i = ''hour''" and r: "s < Truncate hour e0"
      "length (periods ?f) \<le> maxAnalyticsBuckets" and f': "f' = ?f"
    by (simp_all del: not_less split: if_splits)
  show "af_From f' < af_To f'" "af_Interval f' = ''day'' \<or> af_Interval f' = ''hour''"
    "length (periods f') \<le> maxAnalyticsBuckets"
    "af_AppID f' = af_AppID f" "af_ProviderAccountID f' = af_ProviderAccountID f"
    using i r by (simp_all add: f')
  show "\<exists>q. af_From f' = zero_time + q * period_step (af_Interval f')"
    using i by (auto simp: f' s_def s0_def period_step_def Truncate_def)
qed

lemma bucket_position:
  assumes "0 < step" and "start \<le> t" and "t < stop" and "start = zero_time + q * step"
  defines "k \<equiv> nat ((t - start) div step)"
  shows "k < bucket_count step start stop" and "Truncate step t = start + int k * step"
proof -
  have z: "0 \<le> (t - start) div step" using assms by (simp add: pos_imp_zdiv_nonneg_iff)
  have "(t - start) div step + 1 = (t - start + 1 * step) div step"
    using div_mult_self1 [of step "t - start" 1] assms(1) by simp
  also have "\<dots> \<le> (stop - start + step - 1) div step" using assms by (intro zdiv_mono1) simp_all
  finally show "k < bucket_count step start stop" using z by (simp add: bucket_count_def k_def)
  have "(t - zero_time) div step = (t - start + q * step) div step" using assms(4) by simp
  also have "\<dots> = (t - start) div step + q" using assms(1) by simp
  finally show "Truncate step t = start + int k * step"
    using z assms(4) by (simp add: Truncate_def k_def algebra_simps)
qed

lemma label_of_start:
  assumes "zero_time \<le> start" and step: "step = period_step i"
    and "formatPeriod (start + int j * step) = formatPeriod (start + int k * step)"
  shows "j = k"
proof -
  have pos: "0 \<le> int x * step" for x by (simp add: step period_step_def)
  have "(start - zero_time + int j * step) div second = (start - zero_time + int k * step) div second"
    using rfc3339_inj [OF assms(3) [unfolded formatPeriod_def]] assms(1) pos [of j] pos [of k]
    by (simp add: algebra_simps)
  moreover have "(y + int x * step) div second = y div second + int x * (step div second)" for x y
  proof -
    have "int x * step = (int x * (step div second)) * second" by (simp add: step period_step_def)
    then show ?thesis by (metis div_mult_self1 add.commute zero_neq_numeral)
  qed
  ultimately show ?thesis by (simp add: step period_step_def split: if_splits)
qed

lemma index_of_nth:
  assumes "distinct labels" and "k < length labels"
  shows "index_of labels (labels ! k) = Some k"
proof -
  have "distinct (map fst (rev (zip labels [0..<length labels])))"
    using assms(1) by (simp add: rev_map [symmetric])
  moreover have "(labels ! k, k) \<in> set (rev (zip labels [0..<length labels]))"
    using assms(2) by (force simp: set_zip)
  ultimately show ?thesis by (simp add: index_of_def)
qed

text \<open>The position of a transaction in the series of a normalized range.\<close>

lemma seeded_label:
  assumes f: "normalize t f = Inr f'" and "zero_time \<le> af_From f'"
    and c: "af_From f' \<le> c" "c < af_To f'"
  defines "step \<equiv> period_step (af_Interval f')"
  defines "k \<equiv> nat ((c - af_From f') div step)"
  shows "index_of (periods f') (formatPeriod (Truncate step c)) = Some k"
    and "k < length (periods f')"
proof -
  obtain q where q: "af_From f' = zero_time + q * step" using normalize_InrD(3) [OF f] by (auto simp: step_def)
  note b = bucket_position [OF period_step_pos c q [unfolded step_def], folded step_def, folded k_def]
  have n: "bucket_count step (af_From f') (af_To f') \<le> 400"
    using normalize_InrD(4) [OF f] by (simp add: periods_eq step_def maxAnalyticsBuckets_def min_def split: if_splits)
  then have p: "periods f' = map (\<lambda>k. formatPeriod (af_From f' + int k * step)) [0..<bucket_count step (af_From f') (af_To f')]"
    by (simp add: periods_eq step_def)
  have "distinct (periods f')"
    using label_of_start [OF assms(2) meta_eq_to_obj_eq [OF step_def]] by (auto simp: p distinct_map inj_on_def)
  moreover show "k < length (periods f')" using b(1) by (simp add: p)
  moreover have "periods f' ! k = formatPeriod (Truncate step c)" using b by (simp add: p)
  ultimately show "index_of (periods f') (formatPeriod (Truncate step c)) = Some k"
    by (metis index_of_nth)
qed

section \<open>Sums over the groups\<close>

text \<open>Counting rows of groups is counting transactions: \<open>g\<close> weighs a transaction, \<open>P\<close> selects keys.\<close>

lemma sum_groups:
  fixes g :: "'t \<Rightarrow> 'n :: comm_monoid_add"
  assumes "finite S" and "key ` set ts \<subseteq> S"
  shows "(\<Sum>k\<in>S. if P k then sum_list (map g (filter (\<lambda>t. key t = k) ts)) else 0) =
         sum_list (map g (filter (\<lambda>t. P (key t)) ts))"
  using assms(2)
proof (induction ts)
  case (Cons t ts)
  then have "key t \<in> S" by simp
  have "(\<Sum>k\<in>S. if P k then sum_list (map g (filter (\<lambda>t. key t = k) (t # ts))) else 0) =
        (\<Sum>k\<in>S. (if k = key t then if P k then g t else 0 else 0) +
               (if P k then sum_list (map g (filter (\<lambda>t. key t = k) ts)) else 0))"
    by (intro sum.cong refl) auto
  also have "\<dots> = (if P (key t) then g t else 0) + sum_list (map g (filter (\<lambda>t. P (key t)) ts))"
    using Cons assms(1) \<open>key t \<in> S\<close> by (simp add: sum.distrib)
  finally show ?case by simp
qed (simp cong: if_cong)

lemma sum_rows_groups:
  fixes g :: "'t \<Rightarrow> 'n :: comm_monoid_add"
  assumes "mset rows = mset (map row (remdups (map key ts)))"
    and "\<And>k. w (row k) = sum_list (map g (filter (\<lambda>t. key t = k) ts))" and "\<And>k. Q (row k) = P k"
  shows "sum_list (map w (filter Q rows)) = sum_list (map g (filter (\<lambda>t. P (key t)) ts))"
proof -
  let ?ks = "remdups (map key ts)"
  have "sum_list (map w (filter Q rows)) = sum_list (map (\<lambda>r. if Q r then w r else 0) rows)"
    by (induction rows) simp_all
  also have "\<dots> = sum_list (map (\<lambda>r. if Q r then w r else 0) (map row ?ks))"
    by (simp only: sum_mset_sum_list [symmetric] mset_map assms(1))
  also have "\<dots> = (\<Sum>k\<in>key ` set ts. if P k then sum_list (map g (filter (\<lambda>t. key t = k) ts)) else 0)"
    by (simp add: assms(2,3) comp_def sum_list_distinct_conv_sum_set [of ?ks, simplified] cong: if_cong)
  finally show ?thesis by (simp only: sum_groups [OF finite_imageI [OF finite_set] order_refl])
qed

text \<open>The sums a run of \<open>count_rows\<close> makes of its rows.\<close>

definition tally_service :: "TransactionBucket list \<Rightarrow> ServiceCounts" where
  "tally_service rs =
     \<lparr>sc_Collection = sum_list (map tb_Count (filter (\<lambda>r. tb_ServiceType r = ServiceCollection) rs)),
      sc_Disbursement = sum_list (map tb_Count (filter (\<lambda>r. tb_ServiceType r = ServiceDisbursement) rs))\<rparr>"

definition tally_bucket :: "string \<Rightarrow> TransactionBucket list \<Rightarrow> AnalyticsBucket" where
  "tally_bucket period rs =
     \<lparr>ab_Period = period, ab_Total = sum_list (map tb_Count rs), ab_ByService = tally_service rs,
      ab_Succeeded = sum_list (map tb_Count (filter (\<lambda>r. tb_Status r = TxSucceeded) rs)),
      ab_Failed = sum_list (map tb_Count (filter (\<lambda>r. tb_Status r \<in> set [TxFailed, TxExpired, TxCancelled]) rs))\<rparr>"

lemma tally_service_snoc: "tally_service (rs @ [r]) = add_service (tb_ServiceType r) (tb_Count r) (tally_service rs)"
  by (simp add: tally_service_def add_service_def ServiceCollection_def ServiceDisbursement_def)

lemma tally_bucket_snoc: "tally_bucket p (rs @ [r]) = add_to_bucket r (tally_bucket p rs)"
  unfolding tally_bucket_def add_to_bucket_def tally_service_snoc
  by (simp add: TxSucceeded_def TxFailed_def TxExpired_def TxCancelled_def Let_def)

text \<open>What the state of the loop says about the rows it has read.\<close>

definition counted :: "string list \<Rightarrow> TransactionBucket list \<Rightarrow> TransactionAnalytics \<Rightarrow> bool" where
  "counted labels rs out \<longleftrightarrow>
     ta_Total out = sum_list (map tb_Count rs) \<and> ta_ByService out = tally_service rs \<and>
     ta_Buckets out = map (\<lambda>k. tally_bucket (labels ! k) (filter (\<lambda>r. index_of labels (tb_Period r) = Some k) rs))
                        [0..<length labels] \<and>
     distinct (map cv_Currency (ta_Volume out)) \<and> cv_Currency ` set (ta_Volume out) = tb_Currency ` set rs \<and>
     (\<forall>v\<in>set (ta_Volume out).
        cv_Count v = sum_list (map tb_Count (filter (\<lambda>r. tb_Currency r = cv_Currency v) rs)) \<and>
        cv_Amount v = sum_list (map tb_Amount (filter (\<lambda>r. tb_Currency r = cv_Currency v) rs)))"

lemma add_volume_counted:
  assumes "distinct (map cv_Currency vs)" and "cv_Currency ` set vs = tb_Currency ` set rs"
    and "\<forall>v\<in>set vs. cv_Count v = sum_list (map tb_Count (filter (\<lambda>r. tb_Currency r = cv_Currency v) rs)) \<and>
                  cv_Amount v = sum_list (map tb_Amount (filter (\<lambda>r. tb_Currency r = cv_Currency v) rs))"
  shows "distinct (map cv_Currency (add_volume r vs))"
    and "cv_Currency ` set (add_volume r vs) = tb_Currency ` set (rs @ [r])"
    and "\<forall>v\<in>set (add_volume r vs).
      cv_Count v = sum_list (map tb_Count (filter (\<lambda>r. tb_Currency r = cv_Currency v) (rs @ [r]))) \<and>
      cv_Amount v = sum_list (map tb_Amount (filter (\<lambda>r. tb_Currency r = cv_Currency v) (rs @ [r])))"
proof -
  define us where "us = (if tb_Currency r \<in> cv_Currency ` set vs then vs
                         else vs @ [\<lparr>cv_Currency = tb_Currency r, cv_Count = 0, cv_Amount = 0\<rparr>])"
  let ?add = "\<lambda>v. if cv_Currency v = tb_Currency r
                   then v\<lparr>cv_Count := cv_Count v + tb_Count r, cv_Amount := cv_Amount v + tb_Amount r\<rparr> else v"
  have add: "add_volume r vs = map ?add us" by (simp add: add_volume_def us_def)
  have cur: "map cv_Currency (add_volume r vs) = map cv_Currency us" by (simp add: add comp_def)
  show "distinct (map cv_Currency (add_volume r vs))" using assms(1) by (simp only: cur) (simp add: us_def)
  have "cv_Currency ` set us = insert (tb_Currency r) (cv_Currency ` set vs)" by (auto simp: us_def)
  then show "cv_Currency ` set (add_volume r vs) = tb_Currency ` set (rs @ [r])"
    using assms(2) arg_cong [OF cur, of set] by simp
  have fresh: "filter (\<lambda>r'. tb_Currency r' = tb_Currency r) rs = []" if "tb_Currency r \<notin> cv_Currency ` set vs"
    using that assms(2) by (auto simp: filter_empty_conv image_iff)
  have us: "cv_Count v = sum_list (map tb_Count (filter (\<lambda>r. tb_Currency r = cv_Currency v) rs)) \<and>
      cv_Amount v = sum_list (map tb_Amount (filter (\<lambda>r. tb_Currency r = cv_Currency v) rs))" if "v \<in> set us" for v
    using that assms(3) fresh by (auto simp: us_def split: if_splits)
  show "\<forall>v\<in>set (add_volume r vs).
      cv_Count v = sum_list (map tb_Count (filter (\<lambda>r. tb_Currency r = cv_Currency v) (rs @ [r]))) \<and>
      cv_Amount v = sum_list (map tb_Amount (filter (\<lambda>r. tb_Currency r = cv_Currency v) (rs @ [r])))"
  proof
    fix v
    assume "v \<in> set (add_volume r vs)"
    then obtain u where u: "u \<in> set us" "v = ?add u" unfolding add by auto
    then have "cv_Currency v = cv_Currency u" by simp
    with us [OF u(1)] u(2) show "cv_Count v = sum_list (map tb_Count (filter (\<lambda>r. tb_Currency r = cv_Currency v) (rs @ [r]))) \<and>
      cv_Amount v = sum_list (map tb_Amount (filter (\<lambda>r. tb_Currency r = cv_Currency v) (rs @ [r])))"
      by (cases "cv_Currency u = tb_Currency r") simp_all
  qed
qed

lemma count_row_counted:
  assumes "counted labels rs out" and "count_row labels r out = Inr out'"
  shows "counted labels (rs @ [r]) out'"
proof -
  obtain i where i: "index_of labels (tb_Period r) = Some i"
    using assms(2) by (auto simp: count_row_def split: option.splits)
  then have out': "out' = out\<lparr>ta_Buckets := (ta_Buckets out)[i := add_to_bucket r (ta_Buckets out ! i)],
                   ta_ByService := add_service (tb_ServiceType r) (tb_Count r) (ta_ByService out),
                   ta_Total := ta_Total out + tb_Count r,
                   ta_Volume := add_volume r (ta_Volume out)\<rparr>"
    using assms(2) by (simp add: count_row_def)
  have len: "i < length labels"
    using map_of_SomeD [OF i [unfolded index_of_def]] by (auto dest: set_zip_rightD)
  have c: "ta_Buckets out = map (\<lambda>k. tally_bucket (labels ! k) (filter (\<lambda>r. index_of labels (tb_Period r) = Some k) rs))
                        [0..<length labels]"
    using assms(1) by (simp add: counted_def)
  have "(ta_Buckets out)[i := add_to_bucket r (ta_Buckets out ! i)] =
      map (\<lambda>k. tally_bucket (labels ! k) (filter (\<lambda>r. index_of labels (tb_Period r) = Some k) (rs @ [r])))
        [0..<length labels]"
    by (rule nth_equalityI) (auto simp: c i nth_list_update tally_bucket_snoc len)
  then show ?thesis
    using assms(1) add_volume_counted [of "ta_Volume out" rs r]
    unfolding counted_def out' by (simp add: tally_service_snoc add.commute)
qed

lemma count_rows_counted:
  assumes "counted labels rs out" and "count_rows labels rows out = Inr out'"
  shows "counted labels (rs @ rows) out' \<and> ta_From out' = ta_From out \<and> ta_To out' = ta_To out \<and>
         ta_Interval out' = ta_Interval out"
  using assms
proof (induction rows arbitrary: rs out)
  case (Cons r rows)
  then obtain o1 where o1: "count_row labels r out = Inr o1" "count_rows labels rows o1 = Inr out'"
    by (auto split: sum.splits)
  then have "ta_From o1 = ta_From out \<and> ta_To o1 = ta_To out \<and> ta_Interval o1 = ta_Interval out"
    by (auto simp: count_row_def split: option.splits)
  with Cons.IH [OF count_row_counted [OF Cons.prems(1) o1(1)] o1(2)] show ?case by simp
qed simp

lemma count_rows_total:
  assumes "\<forall>r\<in>set rows. index_of labels (tb_Period r) \<noteq> None"
  shows "\<exists>out'. count_rows labels rows out = Inr out'"
  using assms by (induction rows arbitrary: out) (auto simp: count_row_def)

section \<open>The response\<close>

text \<open>The reference: the counts of a list of transactions.\<close>

definition how_many :: "(Transaction \<Rightarrow> bool) \<Rightarrow> Transaction list \<Rightarrow> i64" where
  "how_many P ts = word_of_nat (length (filter P ts))"

definition services_of :: "Transaction list \<Rightarrow> ServiceCounts" where
  "services_of ts = \<lparr>sc_Collection = how_many (\<lambda>t. tx_ServiceType t = ServiceCollection) ts,
                     sc_Disbursement = how_many (\<lambda>t. tx_ServiceType t = ServiceDisbursement) ts\<rparr>"

definition summary :: "string \<Rightarrow> Transaction list \<Rightarrow> AnalyticsBucket" where
  "summary period ts =
     \<lparr>ab_Period = period, ab_Total = word_of_nat (length ts), ab_ByService = services_of ts,
      ab_Succeeded = how_many (\<lambda>t. tx_Status t = TxSucceeded) ts,
      ab_Failed = how_many (\<lambda>t. tx_Status t \<in> {TxFailed, TxExpired, TxCancelled}) ts\<rparr>"

definition summary_of_currency :: "Transaction list \<Rightarrow> string \<Rightarrow> CurrencyVolume" where
  "summary_of_currency ts c =
     (let us = filter (\<lambda>t. tx_Currency t = c) ts
      in \<lparr>cv_Currency = c, cv_Count = word_of_nat (length us), cv_Amount = word_of_int (group_sum us)\<rparr>)"

definition in_range :: "time \<Rightarrow> time \<Rightarrow> AnalyticsFilter \<Rightarrow> Transaction \<Rightarrow> bool" where
  "in_range start stop f t \<longleftrightarrow>
     start \<le> tx_CreatedAt t \<and> tx_CreatedAt t < stop \<and> (af_AppID f \<noteq> [] \<longrightarrow> tx_AppID t = af_AppID f) \<and>
     (af_ProviderAccountID f \<noteq> [] \<longrightarrow> tx_SelectedProviderAccountID t = af_ProviderAccountID f)"

text \<open>The documented meaning of the date expressions: the start of the day or hour in RFC3339.\<close>

definition renders :: "(string \<Rightarrow> time \<Rightarrow> string) \<Rightarrow> string \<Rightarrow> bool" where
  "renders bucket dialect \<longleftrightarrow>
     (\<forall>i\<in>{''day'', ''hour''}. \<forall>expression t. bucketExpression dialect i = Inr expression \<longrightarrow>
        bucket expression t = formatPeriod (Truncate (period_step i) t))"

definition permutes_lists :: "('a list \<Rightarrow> 'a list) \<Rightarrow> bool" where
  "permutes_lists f \<longleftrightarrow> (\<forall>xs. mset (f xs) = mset xs)"

lemma sum_list_ones: "sum_list (map (\<lambda>_. 1) xs) = (word_of_nat (length xs) :: 'a :: len word)"
  by (induction xs) simp_all

lemma sum_list_amounts: "sum_list (map tx_Amount ts) = word_of_int (group_sum ts)"
  by (induction ts) (simp_all add: group_sum_def)

text \<open>The rows of the aggregate over the transactions \<open>ts\<close>.\<close>

definition grouped :: "(time \<Rightarrow> string) \<Rightarrow> Transaction list \<Rightarrow> TransactionBucket list \<Rightarrow> bool" where
  "grouped label ts rows \<longleftrightarrow> mset rows = mset (map (group_row label ts) (remdups (map (group_key label) ts)))"

lemma group_row_sel [simp]:
  "tb_Period (group_row label ts k) = fst k" "tb_ServiceType (group_row label ts k) = fst (snd k)"
  "tb_Status (group_row label ts k) = fst (snd (snd k))" "tb_Currency (group_row label ts k) = snd (snd (snd k))"
  by (simp_all add: group_row_def Let_def split: prod.splits)

lemma group_key_sel [simp]:
  "fst (group_key label t) = label (tx_CreatedAt t)" "fst (snd (group_key label t)) = tx_ServiceType t"
  "fst (snd (snd (group_key label t))) = tx_Status t" "snd (snd (snd (group_key label t))) = tx_Currency t"
  by (simp_all add: group_key_def)

lemma grouped_count:
  assumes "grouped label ts rows" and "\<And>k. Q (group_row label ts k) = P k"
  shows "sum_list (map tb_Count (filter Q rows)) = how_many (\<lambda>t. P (group_key label t)) ts"
  unfolding how_many_def sum_list_ones [symmetric]
  by (rule sum_rows_groups [where row = "group_row label ts" and w = tb_Count and Q = Q and P = P])
    (use assms in \<open>simp_all add: grouped_def group_row_def sum_list_ones Let_def split: prod.split\<close>)

lemma grouped_amount:
  assumes "grouped label ts rows" and "\<And>k. Q (group_row label ts k) = P k"
  shows "sum_list (map tb_Amount (filter Q rows)) = word_of_int (group_sum (filter (\<lambda>t. P (group_key label t)) ts))"
  unfolding sum_list_amounts [symmetric]
  by (rule sum_rows_groups [where row = "group_row label ts" and w = tb_Amount and Q = Q and P = P])
    (use assms in \<open>simp_all add: grouped_def group_row_def sum_list_amounts Let_def split: prod.split\<close>)

lemma grouped_currencies:
  assumes "grouped label ts rows"
  shows "tb_Currency ` set rows = tx_Currency ` set ts"
proof -
  have "set rows = group_row label ts ` group_key label ` set ts"
    using assms unfolding grouped_def by (metis mset_eq_setD set_map set_remdups)
  then show ?thesis by (simp add: image_image)
qed

lemma how_many_filter: "how_many P (filter Q ts) = how_many (\<lambda>t. Q t \<and> P t) ts"
  by (simp add: how_many_def conj_commute)

lemma tally_bucket_grouped:
  assumes "grouped label ts rows"
  shows "tally_bucket p (filter (\<lambda>r. index_of labels (tb_Period r) = Some k) rows) =
    summary p (filter (\<lambda>t. index_of labels (label (tx_CreatedAt t)) = Some k) ts)"
proof -
  let ?Q = "\<lambda>r. index_of labels (tb_Period r) = Some k"
  let ?P = "\<lambda>k'. index_of labels (fst k') = Some k"
  have c: "sum_list (map tb_Count (filter Q (filter ?Q rows))) =
      how_many (\<lambda>t. P (group_key label t)) (filter (\<lambda>t. ?P (group_key label t)) ts)"
    if "\<And>k. Q (group_row label ts k) = P k" for Q P
    using grouped_count [OF assms, of "\<lambda>r. ?Q r \<and> Q r" "\<lambda>k. ?P k \<and> P k"] that
    by (simp add: how_many_filter conj_commute)
  show ?thesis
    using c [of "\<lambda>_. True" "\<lambda>_. True"]
      c [of "\<lambda>r. tb_ServiceType r = ServiceCollection" "\<lambda>k. fst (snd k) = ServiceCollection"]
      c [of "\<lambda>r. tb_ServiceType r = ServiceDisbursement" "\<lambda>k. fst (snd k) = ServiceDisbursement"]
      c [of "\<lambda>r. tb_Status r = TxSucceeded" "\<lambda>k. fst (snd (snd k)) = TxSucceeded"]
      c [of "\<lambda>r. tb_Status r \<in> set [TxFailed, TxExpired, TxCancelled]"
            "\<lambda>k. fst (snd (snd k)) \<in> {TxFailed, TxExpired, TxCancelled}"]
    by (simp add: tally_bucket_def summary_def tally_service_def services_of_def how_many_def)
qed

lemma grouped_volume:
  assumes c: "counted labels rows out" and g: "grouped label ts rows"
    and p: "mset cs = mset (map cv_Currency (ta_Volume out))"
  shows "map (volume_of (ta_Volume out)) (sort cs) =
         map (summary_of_currency ts) (sorted_list_of_set (tx_Currency ` set ts))"
proof -
  have d: "distinct (map cv_Currency (ta_Volume out))" and s: "cv_Currency ` set (ta_Volume out) = tx_Currency ` set ts"
    using c grouped_currencies [OF g] by (simp_all add: counted_def)
  have "distinct cs" and "set cs = tx_Currency ` set ts"
    using d s p by (metis mset_eq_imp_distinct_iff, metis mset_eq_setD set_map)
  then have sort: "sort cs = sorted_list_of_set (tx_Currency ` set ts)"
    by (metis sorted_list_of_set_sort_remdups distinct_remdups_id)
  have "volume_of (ta_Volume out) x = summary_of_currency ts x" if "x \<in> tx_Currency ` set ts" for x
  proof -
    from that s obtain v where v: "v \<in> set (ta_Volume out)" "cv_Currency v = x" by (metis imageE)
    have "set (filter (\<lambda>v. cv_Currency v = x) (ta_Volume out)) \<noteq> {}" using v by auto
    moreover have "u = v" if "u \<in> set (filter (\<lambda>v. cv_Currency v = x) (ta_Volume out))" for u
      using that v d by (auto simp: distinct_map dest: inj_onD)
    ultimately have "volume_of (ta_Volume out) x = v"
      unfolding volume_of_def using hd_in_set by (metis set_empty)
    moreover have "cv_Count v = how_many (\<lambda>t. tx_Currency t = x) ts"
      "cv_Amount v = word_of_int (group_sum (filter (\<lambda>t. tx_Currency t = x) ts))"
      using c v grouped_count [OF g, of "\<lambda>r. tb_Currency r = x" "\<lambda>k. snd (snd (snd k)) = x"]
        grouped_amount [OF g, of "\<lambda>r. tb_Currency r = x" "\<lambda>k. snd (snd (snd k)) = x"]
      by (auto simp: counted_def)
    ultimately show ?thesis
      using v(2) by (simp add: summary_of_currency_def how_many_def Let_def)
  qed
  then show ?thesis unfolding sort by (intro map_cong refl) simp
qed

text \<open>The aggregate only reads; it fails only in the driver.\<close>

lemma Aggregate_cases:
  assumes "Transactions_Aggregate bucket db_order f d = (r, d')"
  defines "ts \<equiv> filter (aggregate_where f) (t_transactions d)" and "label \<equiv> bucket (agg_Bucket f)"
  shows "r = Inl DriverErr \<or> r = Inr (db_order (map (group_row label ts) (remdups (map (group_key label) ts))))"
    and "d' = d\<lparr>faults := faults d'\<rparr>"
proof -
  have "(r = Inl DriverErr \<or> r = Inr (db_order (map (group_row label ts) (remdups (map (group_key label) ts))))) \<and>
        d' = d\<lparr>faults := faults d'\<rparr>"
  proof (rule statement_cases [of d])
    fix bs
    assume s: "statement d = (Inl DriverErr, d\<lparr>faults := bs\<rparr>)"
    show ?thesis using assms(1) by (auto simp: Transactions_Aggregate_def base_find_def s bindE_def)
  next
    fix bs
    assume s: "statement d = (Inr (), d\<lparr>faults := bs\<rparr>)"
    have "base_find t_transactions id (aggregate_where f) d = (Inr ts, d\<lparr>faults := bs\<rparr>)"
      by (simp add: base_find_def s bindE_def ts_def)
    then show ?thesis
      using assms(1)
      by (auto simp: Transactions_Aggregate_def bindE_def label_def Let_def effect_defs split: if_splits)
  qed
  then show "r = Inl DriverErr \<or> r = Inr (db_order (map (group_row label ts) (remdups (map (group_key label) ts))))"
    "d' = d\<lparr>faults := faults d'\<rparr>" by blast+
qed

text \<open>The stages of a query, named: the filter, the expression, the rows, the counts.\<close>

definition matching :: "AnalyticsFilter \<Rightarrow> db \<Rightarrow> Transaction list" where
  "matching f d = filter (in_range (af_From f) (af_To f) f) (t_transactions d)"

definition rows_of :: "(time \<Rightarrow> string) \<Rightarrow> Transaction list \<Rightarrow> TransactionBucket list" where
  "rows_of label ts = map (group_row label ts) (remdups (map (group_key label) ts))"

definition seed :: "AnalyticsFilter \<Rightarrow> TransactionAnalytics" where
  "seed f = \<lparr>ta_From = af_From f, ta_To = af_To f, ta_Interval = af_Interval f,
             ta_Buckets = map empty_bucket (periods f), ta_Total = 0, ta_ByService = no_counts, ta_Volume = []\<rparr>"

lemma Transactions_seed:
  "Analytics_Transactions bucket db_order ranged dialect f =
     bindE Now (\<lambda>t.
     bindE (liftE (normalize t f)) (\<lambda>f.
     bindE (liftE (bucketExpression dialect (af_Interval f))) (\<lambda>expression.
     bindE (on_db (Transactions_Aggregate bucket db_order
              \<lparr>agg_Bucket = expression, agg_From = af_From f, agg_To = af_To f, agg_AppID = af_AppID f,
               agg_ProviderAccountID = af_ProviderAccountID f\<rparr>)) (\<lambda>rows.
     bindE (liftE (count_rows (periods f) rows (seed f))) (\<lambda>out.
     returnE (out\<lparr>ta_Volume := map (volume_of (ta_Volume out))
                                (sortedKeys (ranged (map cv_Currency (ta_Volume out))))\<rparr>))))))"
  by (simp only: Analytics_Transactions_def seed_def)

lemma Transactions_cases:
  assumes "Analytics_Transactions bucket db_order ranged dialect f w = (r, w')"
  shows "(case normalize (now w) f of
            Inl e \<Rightarrow> r = Inl e \<and> w' = w
          | Inr f' \<Rightarrow>
              (case bucketExpression dialect (af_Interval f') of
                 Inl e \<Rightarrow> r = Inl e \<and> w' = w
               | Inr expression \<Rightarrow>
                   (\<exists>bs. w' = w\<lparr>db := (db w)\<lparr>faults := bs\<rparr>\<rparr>) \<and>
                   (r = Inl DriverErr \<or>
                    (case count_rows (periods f') (db_order (rows_of (bucket expression) (matching f' (db w)))) (seed f') of
                       Inl e \<Rightarrow> r = Inl e
                     | Inr out \<Rightarrow>
                         r = Inr (out\<lparr>ta_Volume := map (volume_of (ta_Volume out))
                                                        (sortedKeys (ranged (map cv_Currency (ta_Volume out))))\<rparr>)))))"
proof (cases "normalize (now w) f")
  case (Inl e)
  then show ?thesis
    using assms by (simp add: Transactions_seed Now_def get_world_def bindE_def effect_defs)
next
  case n: (Inr f')
  show ?thesis
  proof (cases "bucketExpression dialect (af_Interval f')")
    case (Inl e)
    then show ?thesis
      using assms n by (simp add: Transactions_seed Now_def get_world_def bindE_def effect_defs)
  next
    case (Inr expression)
    let ?agg = "\<lparr>agg_Bucket = expression, agg_From = af_From f', agg_To = af_To f', agg_AppID = af_AppID f',
                 agg_ProviderAccountID = af_ProviderAccountID f'\<rparr>"
    obtain q d where q: "Transactions_Aggregate bucket db_order ?agg (db w) = (q, d)"
      by (cases "Transactions_Aggregate bucket db_order ?agg (db w)")
    have "filter (aggregate_where ?agg) (t_transactions (db w)) = matching f' (db w)"
      unfolding matching_def by (rule filter_cong) (simp_all add: aggregate_where_def in_range_def)
    with Aggregate_cases [OF q]
    have d: "q = Inl DriverErr \<or> q = Inr (db_order (rows_of (bucket expression) (matching f' (db w))))"
      "d = (db w)\<lparr>faults := faults d\<rparr>"
      by (simp_all add: rows_of_def)
    note run = assms n Inr q
    have step: "(r, w') = (case q of Inl e \<Rightarrow> (Inl e, w\<lparr>db := d\<rparr>) | Inr rows \<Rightarrow>
        (case count_rows (periods f') rows (seed f') of Inl e \<Rightarrow> (Inl e, w\<lparr>db := d\<rparr>)
         | Inr out \<Rightarrow> (Inr (out\<lparr>ta_Volume := map (volume_of (ta_Volume out))
                                  (sortedKeys (ranged (map cv_Currency (ta_Volume out))))\<rparr>), w\<lparr>db := d\<rparr>)))"
      using run
      by (cases q; cases "count_rows (periods f') (projr q) (seed f')")
        (auto simp: Transactions_seed Now_def get_world_def bindE_def effect_defs on_db_def split: sum.splits)
    have "w' = w\<lparr>db := d\<rparr>" using step by (auto split: sum.splits)
    moreover have "r = Inl DriverErr \<or> (case count_rows (periods f')
          (db_order (rows_of (bucket expression) (matching f' (db w)))) (seed f') of
           Inl e \<Rightarrow> r = Inl e
         | Inr out \<Rightarrow> r = Inr (out\<lparr>ta_Volume := map (volume_of (ta_Volume out))
                                                        (sortedKeys (ranged (map cv_Currency (ta_Volume out))))\<rparr>))"
      using step d(1) by (auto split: sum.splits)
    ultimately show ?thesis using n Inr d(2) by (simp del: fun_upd_apply) metis
  qed
qed

text \<open>The rows a query reads fall in its range: the loop over them refuses none.\<close>

lemma rows_in_range:
  assumes n: "normalize t f = Inr f'" and b: "bucketExpression dialect (af_Interval f') = Inr expression"
    and rd: "renders bucket dialect" and z: "zero_time \<le> af_From f'"
    and r: "r \<in> set rows" and rows: "mset rows = mset (rows_of (bucket expression) (matching f' d))"
  shows "index_of (periods f') (tb_Period r) \<noteq> None"
proof -
  have "set rows = set (rows_of (bucket expression) (matching f' d))" using rows by (metis mset_eq_setD)
  with r obtain x where x: "x \<in> set (matching f' d)" "tb_Period r = bucket expression (tx_CreatedAt x)"
    by (auto simp: rows_of_def)
  have "bucket expression (tx_CreatedAt x) = formatPeriod (Truncate (period_step (af_Interval f')) (tx_CreatedAt x))"
    using rd b normalize_InrD(2) [OF n] unfolding renders_def by blast
  with x seeded_label(1) [OF n z, of "tx_CreatedAt x"] show ?thesis
    by (simp add: matching_def in_range_def)
qed

text \<open>The error side of the analytics query: it fails only with a failed statement, a refused filter or a
  database without bucket expressions. No row the database groups falls outside the seeded buckets.\<close>

lemma analytics_refusals:
  assumes "Analytics_Transactions bucket db_order ranged dialect f w = (Inl e, w')"
    and "renders bucket dialect" and "permutes_lists db_order"
    and "\<forall>f'. normalize (now w) f = Inr f' \<longrightarrow> zero_time \<le> af_From f'"
  shows "e = DriverErr \<or> normalize (now w) f = Inl e \<or> (\<exists>i. bucketExpression dialect i = Inl e)"
proof (cases "normalize (now w) f")
  case n: (Inr f')
  show ?thesis
  proof (cases "bucketExpression dialect (af_Interval f')")
    case (Inr expression)
    let ?rows = "db_order (rows_of (bucket expression) (matching f' (db w)))"
    have "\<forall>r\<in>set ?rows. index_of (periods f') (tb_Period r) \<noteq> None"
      using rows_in_range [OF n Inr assms(2)] assms(3,4) n by (auto simp: permutes_lists_def)
    from count_rows_total [OF this, of "seed f'"] show ?thesis
      using Transactions_cases [OF assms(1)] n Inr by auto
  qed (use Transactions_cases [OF assms(1)] n in auto)
qed (use Transactions_cases [OF assms(1)] in auto)

lemma count_seed: "counted (periods f) [] (seed f)"
  by (auto simp: counted_def seed_def empty_bucket_def tally_bucket_def tally_service_def no_counts_def
      intro: nth_equalityI)

lemma position_iff:
  assumes "0 < (step :: int)" and "start \<le> c"
  shows "nat ((c - start) div step) = k \<longleftrightarrow> start + int k * step \<le> c \<and> c < start + int (Suc k) * step"
proof -
  have m: "c - start = (c - start) div step * step + (c - start) mod step"
    "0 \<le> (c - start) mod step" "(c - start) mod step < step"
    using assms(1) by simp_all
  have z: "0 \<le> (c - start) div step" using assms by (simp add: pos_imp_zdiv_nonneg_iff)
  show ?thesis
  proof
    assume "nat ((c - start) div step) = k"
    then have "(c - start) div step = int k" using z by simp
    with m show "start + int k * step \<le> c \<and> c < start + int (Suc k) * step" by (simp add: distrib_right)
  next
    assume c: "start + int k * step \<le> c \<and> c < start + int (Suc k) * step"
    have "(c - start) div step = int k"
      by (rule int_div_pos_eq [of _ _ _ "c - start - int k * step"]) (use c in \<open>simp_all add: algebra_simps\<close>)
    then show "nat ((c - start) div step) = k" by simp
  qed
qed

text \<open>C30: the response counts the transactions of the range: all of them, by service, by bucket and by
  currency.\<close>

lemma analytics_counts:
  assumes run: "Analytics_Transactions bucket db_order ranged dialect f w = (Inr out, w')"
    and rd: "renders bucket dialect" and ord: "permutes_lists db_order" "permutes_lists ranged"
    and z: "zero_time \<le> ta_From out"
  defines "ts \<equiv> filter (in_range (ta_From out) (ta_To out) f) (t_transactions (db w))"
    and "step \<equiv> period_step (ta_Interval out)"
  shows "ta_Total out = word_of_nat (length ts) \<and> ta_ByService out = services_of ts \<and>
         ta_Buckets out =
           map (\<lambda>k. let start = ta_From out + int k * step
                    in summary (formatPeriod start)
                         (filter (\<lambda>t. start \<le> tx_CreatedAt t \<and> tx_CreatedAt t < start + step) ts))
             [0..<bucket_count step (ta_From out) (ta_To out)] \<and>
         ta_Volume out = map (summary_of_currency ts) (sorted_list_of_set (tx_Currency ` set ts)) \<and>
         t_transactions (db w') = t_transactions (db w)"
proof -
  obtain f' where n: "normalize (now w) f = Inr f'" using Transactions_cases [OF run] by (auto split: sum.splits)
  then obtain expression where b: "bucketExpression dialect (af_Interval f') = Inr expression"
    using Transactions_cases [OF run] by (auto split: sum.splits)
  define rows where "rows = db_order (rows_of (bucket expression) (matching f' (db w)))"
  obtain counts where c: "count_rows (periods f') rows (seed f') = Inr counts"
    and out: "out = counts\<lparr>ta_Volume := map (volume_of (ta_Volume counts))
                                           (sortedKeys (ranged (map cv_Currency (ta_Volume counts))))\<rparr>"
    and w': "t_transactions (db w') = t_transactions (db w)"
    using Transactions_cases [OF run] n b by (auto simp: rows_def split: sum.splits)
  have cnt: "counted (periods f') rows counts" and eqs: "ta_From counts = af_From f'" "ta_To counts = af_To f'"
      "ta_Interval counts = af_Interval f'"
    using count_rows_counted [OF count_seed c] by (simp_all add: seed_def)
  have range: "ta_From out = af_From f'" "ta_To out = af_To f'" "ta_Interval out = af_Interval f'"
    by (simp_all add: out eqs)
  have ts: "matching f' (db w) = ts"
    using normalize_InrD(5,6) [OF n] by (simp add: matching_def ts_def in_range_def [abs_def] range)
  have g: "grouped (bucket expression) ts rows"
    using ord by (simp add: grouped_def rows_def rows_of_def ts permutes_lists_def)
  have label: "bucket expression x = formatPeriod (Truncate (period_step (af_Interval f')) x)" for x
    using rd b normalize_InrD(2) [OF n] unfolding renders_def by blast
  have pos: "index_of (periods f') (bucket expression (tx_CreatedAt x)) = Some k \<longleftrightarrow>
      af_From f' + int k * step \<le> tx_CreatedAt x \<and> tx_CreatedAt x < af_From f' + int (Suc k) * step"
    if "x \<in> set ts" for x k
  proof -
    have x: "af_From f' \<le> tx_CreatedAt x" "tx_CreatedAt x < af_To f'"
      using that by (simp_all add: ts_def in_range_def range)
    then show ?thesis
      using seeded_label(1) [OF n z [unfolded range] x] position_iff [OF period_step_pos x(1)]
      by (simp add: label step_def range)
  qed
  have len: "length (periods f') = bucket_count step (af_From f') (af_To f')"
    "k < length (periods f') \<Longrightarrow> periods f' ! k = formatPeriod (af_From f' + int k * step)" for k
    using normalize_InrD(4) [OF n]
    by (auto simp: periods_eq step_def range maxAnalyticsBuckets_def min_def split: if_splits)
  have "ta_Total out = word_of_nat (length ts)" "ta_ByService out = services_of ts"
    using cnt grouped_count [OF g, of "\<lambda>_. True" "\<lambda>_. True"]
      grouped_count [OF g, of "\<lambda>r. tb_ServiceType r = ServiceCollection" "\<lambda>k. fst (snd k) = ServiceCollection"]
      grouped_count [OF g, of "\<lambda>r. tb_ServiceType r = ServiceDisbursement" "\<lambda>k. fst (snd k) = ServiceDisbursement"]
    by (simp_all add: out counted_def tally_service_def services_of_def how_many_def)
  moreover have "ta_Buckets out =
      map (\<lambda>k. let start = ta_From out + int k * step
               in summary (formatPeriod start)
                    (filter (\<lambda>t. start \<le> tx_CreatedAt t \<and> tx_CreatedAt t < start + step) ts))
        [0..<bucket_count step (ta_From out) (ta_To out)]"
  proof -
    have "filter (\<lambda>t. index_of (periods f') (bucket expression (tx_CreatedAt t)) = Some k) ts =
        filter (\<lambda>t. af_From f' + int k * step \<le> tx_CreatedAt t \<and> tx_CreatedAt t < af_From f' + int k * step + step) ts" for k
      by (rule filter_cong) (simp_all add: pos algebra_simps)
    then show ?thesis
      using cnt by (simp add: out counted_def tally_bucket_grouped [OF g] eqs Let_def len step_def)
  qed
  moreover have "ta_Volume out = map (summary_of_currency ts) (sorted_list_of_set (tx_Currency ` set ts))"
    using grouped_volume [OF cnt g, of "ranged (map cv_Currency (ta_Volume counts))"] ord
    by (simp add: out sortedKeys_sort permutes_lists_def)
  ultimately show ?thesis using w' by blast
qed

text \<open>Without a failing statement and with sums that fit, a query in range is answered.\<close>

lemma analytics_answers:
  assumes n: "normalize (now w) f = Inr f'" and b: "bucketExpression dialect (af_Interval f') = Inr expression"
    and rd: "renders bucket dialect" and ord: "permutes_lists db_order" and z: "zero_time \<le> af_From f'"
    and f: "faults (db w) = []" and fits: "\<And>P. fits_i64 (group_sum (filter P (t_transactions (db w))))"
  shows "\<exists>out w'. Analytics_Transactions bucket db_order ranged dialect f w = (Inr out, w') \<and>
           ta_From out = af_From f' \<and> ta_To out = af_To f' \<and> ta_Interval out = af_Interval f'"
proof -
  let ?agg = "\<lparr>agg_Bucket = expression, agg_From = af_From f', agg_To = af_To f', agg_AppID = af_AppID f',
               agg_ProviderAccountID = af_ProviderAccountID f'\<rparr>"
  have m: "filter (aggregate_where ?agg) (t_transactions (db w)) = matching f' (db w)"
    unfolding matching_def by (rule filter_cong) (simp_all add: aggregate_where_def in_range_def)
  have "fits_i64 (group_sum (filter Q (matching f' (db w))))" for Q
    unfolding matching_def filter_filter by (rule fits)
  then have q: "Transactions_Aggregate bucket db_order ?agg (db w) =
      (Inr (db_order (rows_of (bucket expression) (matching f' (db w)))), db w)"
    by (simp add: Transactions_Aggregate_def base_find_def bindE_def statement_def f m rows_of_def Let_def
        list_all_iff effect_defs)
  let ?rows = "db_order (rows_of (bucket expression) (matching f' (db w)))"
  have "\<forall>r\<in>set ?rows. index_of (periods f') (tb_Period r) \<noteq> None"
    using rows_in_range [OF n b rd z] ord by (auto simp: permutes_lists_def)
  then obtain c where c: "count_rows (periods f') ?rows (seed f') = Inr c"
    using count_rows_total by blast
  then have "ta_From c = af_From f' \<and> ta_To c = af_To f' \<and> ta_Interval c = af_Interval f'"
    using count_rows_counted [OF count_seed c] by (simp add: seed_def)
  then show ?thesis
    by (simp add: Transactions_seed Now_def get_world_def bindE_def effect_defs on_db_def n b q c)
qed

section \<open>Witnesses\<close>

definition sample_bucket :: "string \<Rightarrow> time \<Rightarrow> string" where
  "sample_bucket expression t =
     formatPeriod (Truncate (if bucketExpression ''sqlite'' ''day'' = Inr expression then 24 * hour else hour) t)"

lemma sample_renders: "renders sample_bucket ''sqlite''"
  by (auto simp: renders_def sample_bucket_def bucketExpression_def Let_def period_step_def enclosed_def)

definition traffic_tx :: "string \<Rightarrow> time \<Rightarrow> string \<Rightarrow> i64 \<Rightarrow> Transaction" where
  "traffic_tx i t status amount =
     \<lparr>tx_ID = i, tx_CreatedAt = t, tx_UpdatedAt = t, tx_AppID = ''app_1'', tx_ServiceType = ServiceCollection,
      tx_PaymentMethod = PaymentMethodMomo, tx_Amount = amount, tx_Currency = ''UGX'', tx_Country = ''UG'',
      tx_Reference = i, tx_IdempotencyKey = i, tx_Status = status, tx_SelectedRouteID = [],
      tx_SelectedProviderAccountID = [], tx_ProviderReference = [], tx_CustomerAccount = [],
      tx_CustomerEmail = [], tx_CustomerName = [], tx_Description = [], tx_ProviderFee = 0,
      tx_PlatformFee = 0, tx_RequestHash = [], tx_ReconciliationAttempts = 0,
      tx_LastReconciledAt = None, tx_NextReconcileAt = None\<rparr>"

definition sample_traffic :: "unit world" where
  "sample_traffic = sample_world\<lparr>db := empty_db\<lparr>t_transactions :=
     [traffic_tx ''a'' (1 * hour) TxSucceeded 5, traffic_tx ''b'' (2 * hour) TxFailed 7,
      traffic_tx ''c'' (30 * hour) TxPending 9]\<rparr>\<rparr>"

definition sample_filter :: "string \<Rightarrow> AnalyticsFilter" where
  "sample_filter i = \<lparr>af_From = 0, af_To = 48 * hour, af_Interval = i, af_AppID = [], af_ProviderAccountID = []\<rparr>"

abbreviation sample_query :: "string \<Rightarrow> (err + TransactionAnalytics) \<times> unit world" where
  "sample_query i \<equiv> Analytics_Transactions sample_bucket rev rev ''sqlite'' (sample_filter i) sample_traffic"

lemma sample_permutes: "permutes_lists rev"
  by (simp add: permutes_lists_def)

lemma sample_interval: "to_lower (trim_space '' DAY '') = ''day''"
  by code_simp

lemma analytics_counts_witness:
  "\<exists>out w'. sample_query '' DAY '' = (Inr out, w') \<and> ta_Total out = 3 \<and>
     map ab_Total (ta_Buckets out) = [2, 1] \<and> map ab_Failed (ta_Buckets out) = [1, 0] \<and>
     map cv_Amount (ta_Volume out) = [21]"
proof -
  let ?f = "\<lparr>af_From = 0, af_To = 48 * hour, af_Interval = ''day'', af_AppID = [], af_ProviderAccountID = []\<rparr>"
  have n: "normalize (now sample_traffic) (sample_filter '' DAY '') = Inr ?f"
    by (simp add: sample_filter_def normalize_def sample_interval Let_def Truncate_def zero_time_def
        periods_eq bucket_count_def period_step_def maxAnalyticsBuckets_def)
  have f: "faults (db sample_traffic) = []" "\<And>P. fits_i64 (group_sum (filter P (t_transactions (db sample_traffic))))"
    by (simp_all add: sample_traffic_def empty_db_def traffic_tx_def fits_i64_def group_sum_def)
  obtain expression where b: "bucketExpression ''sqlite'' (af_Interval ?f) = Inr expression"
    by (simp add: bucketExpression_def Let_def)
  have "zero_time \<le> af_From ?f" by (simp add: zero_time_def)
  from analytics_answers [OF n b sample_renders sample_permutes this f, of rev]
  obtain out w' where run: "sample_query '' DAY '' = (Inr out, w')"
    and o: "ta_From out = 0" "ta_To out = 48 * hour" "ta_Interval out = ''day''"
    by auto
  have z: "zero_time \<le> ta_From out" by (simp add: o zero_time_def)
  let ?ts = "filter (in_range 0 (48 * hour) (sample_filter '' DAY '')) (t_transactions (db sample_traffic))"
  let ?b = "map (\<lambda>k. let start = 0 + int k * period_step ''day''
                    in summary (formatPeriod start)
                         (filter (\<lambda>t. start \<le> tx_CreatedAt t \<and> tx_CreatedAt t < start + period_step ''day'') ?ts))
             [0..<bucket_count (period_step ''day'') 0 (48 * hour)]"
  have u: "[0..<bucket_count (period_step ''day'') 0 (48 * hour)] = [0, 1]"
    by (simp add: bucket_count_def period_step_def upt_rec)
  have "(word_of_nat (length ?ts) :: i64) = 3 \<and> map ab_Total ?b = [2, 1] \<and> map ab_Failed ?b = [1, 0] \<and>
      map cv_Amount (map (summary_of_currency ?ts) (sorted_list_of_set (tx_Currency ` set ?ts))) = [21]"
    unfolding u
    by (simp add: sample_traffic_def traffic_tx_def sample_filter_def in_range_def summary_def how_many_def
        bucket_count_def period_step_def summary_of_currency_def group_sum_def Let_def
        TxSucceeded_def TxFailed_def TxExpired_def TxCancelled_def TxPending_def)
  with analytics_counts [OF run sample_renders sample_permutes sample_permutes z] run show ?thesis
    unfolding o by (intro exI [of _ out] exI [of _ w']) (simp only: simp_thms)
qed

lemma analytics_refusals_witness:
  "fst (sample_query ''week'') = Inl (Msg ''interval must be day or hour'') \<and>
   normalize (now sample_traffic) (sample_filter ''week'') = Inl (Msg ''interval must be day or hour'')"
proof -
  have r: "fst (sample_query ''week'') = Inl (Msg ''interval must be day or hour'')" by code_simp
  then obtain w' where run: "sample_query ''week'' = (Inl (Msg ''interval must be day or hour''), w')"
    by (cases "sample_query ''week''") auto
  have "to_lower (trim_space ''week'') = ''week''" by code_simp
  then have n: "\<forall>f'. normalize (now sample_traffic) (sample_filter ''week'') = Inr f' \<longrightarrow> zero_time \<le> af_From f'"
    by (simp add: normalize_def sample_filter_def Let_def)
  have "bucketExpression ''sqlite'' i \<noteq> Inl e" for i e by (simp add: bucketExpression_def Let_def)
  with analytics_refusals [OF run sample_renders sample_permutes n] r show ?thesis by auto
qed

end
