(* ===== verification/RouterFacts.thy ===== *)
theory RouterFacts
  imports Router Administration AnalyticsFacts
begin

text \<open>
  What a response of the API proves: who made an administrative request and what they were
  granted, whose payments an application reads, what a webhook delivery can do, and which statuses
  a client meets.
\<close>

section \<open>The administrator behind a request\<close>

lemma EffectivePermissions_InrD:
  assumes "EffectivePermissions name w = (Inr ps, w')"
  shows "\<exists>bs. w' = consumed bs w"
    and "\<forall>c\<in>set ps. \<exists>r\<in>set (t_roles (db w)). role_Name r = name \<and> c \<in> granted (db w) (role_ID r)"
proof -
  show "\<exists>bs. w' = consumed bs w" using EffectivePermissions_state [of name w] assms by simp
  obtain r w1 where r: "on_db (Roles_WithPermissions name) w = (r, w1)" by (cases "on_db (Roles_WithPermissions name) w")
  show "\<forall>c\<in>set ps. \<exists>r\<in>set (t_roles (db w)). role_Name r = name \<and> c \<in> granted (db w) (role_ID r)"
  proof (cases r)
    case (Inl e)
    then have "ps = []" using assms r by (auto simp: EffectivePermissions_def split: if_splits)
    then show ?thesis by simp
  next
    case (Inr role)
    with assms r have ps: "ps = map perm_Code (role_Permissions role)" by (simp add: EffectivePermissions_def)
    have "bindE (on_db (base_first t_roles (\<lambda>r. role_Name r = name))) (\<lambda>r.
        on_db (bindE statement (\<lambda>_ d. (Inr (preload d r), d)))) w = (Inr role, w1)"
      using r Inr unfolding Roles_WithPermissions_def on_db_bindE by simp
    then obtain x w2 where x: "on_db (base_first t_roles (\<lambda>r. role_Name r = name)) w = (Inr x, w2)"
      and p: "on_db (bindE statement (\<lambda>_ d. (Inr (preload d x), d))) w2 = (Inr role, w1)"
      by (rule bindE_InrE)
    from x obtain bs where b: "w2 = consumed bs w" "List.find (\<lambda>r. role_Name r = name) (t_roles (db w)) = Some x"
      by (rule roles.first_step)
    have "\<exists>cs. role = preload (db (consumed cs w)) x"
      using p b(1) by (cases rule: on_db_statement [of "\<lambda>_ d. (Inr (preload d x), d)" w2]) (auto simp: on_db_def)
    then have "role = preload (db w) x" by (auto simp: preload_def)
    then have "\<forall>c\<in>set ps. c \<in> granted (db w) (role_ID x)" by (auto simp: ps preload_def granted_def)
    with find_Some_in_set [OF b(2)] show ?thesis by blast
  qed
qed

text \<open>What the database holds about the administrator behind a request.\<close>

definition admin_behind :: "auth_env \<Rightarrow> 'p world \<Rightarrow> string \<Rightarrow> AdminUser \<Rightarrow> bool" where
  "admin_behind A w authorization user \<longleftrightarrow>
     (\<exists>j c s u ps. auth_parse A (now w) (BearerToken authorization) = Inr j \<and> c = claimsFrom j \<and>
        tc_SubjectType c = ''admin'' \<and> tc_TokenType c = ''access'' \<and>
        s \<in> set (t_adminSessions (db w)) \<and> as_AdminUserID s = tc_SubjectID c \<and>
        as_TokenHash s = auth_sha256 A (tc_TokenID c) \<and> as_ExpiresAt s > now w \<and> as_RevokedAt s = None \<and>
        u \<in> set (t_adminUsers (db w)) \<and> au_ID u = tc_SubjectID c \<and> au_Status u = active \<and>
        user = u\<lparr>au_Permissions := ps\<rparr> \<and>
        (\<forall>code\<in>set ps. \<exists>r\<in>set (t_roles (db w)). role_Name r = au_Role u \<and> code \<in> granted (db w) (role_ID r)))"

lemma activeUser_InrD:
  assumes "activeUser A i w = (Inr user, w')" and "auth_authz A"
  shows "\<exists>u ps bs. u \<in> set (t_adminUsers (db w)) \<and> au_ID u = i \<and> au_Status u = active \<and>
     user = u\<lparr>au_Permissions := ps\<rparr> \<and> w' = consumed bs w \<and>
     (\<forall>code\<in>set ps. \<exists>r\<in>set (t_roles (db w)). role_Name r = au_Role u \<and> code \<in> granted (db w) (role_ID r))"
proof -
  from assms obtain u w1 where u: "orE (on_db (AdminUsers_ActiveByID i)) (Msg ''admin inactive'') w = (Inr u, w1)"
    and k: "bindE (EffectivePermissions (au_Role u)) (\<lambda>ps. returnE (u\<lparr>au_Permissions := ps\<rparr>)) w1 = (Inr user, w')"
    unfolding activeUser_def by (auto elim!: bindE_InrE)
  from orE_InrD [OF u] obtain bs where b: "w1 = consumed bs w"
    "List.find (\<lambda>u. au_ID u = i \<and> au_Status u = active) (t_adminUsers (db w)) = Some u"
    unfolding AdminUsers_ActiveByID_def by (rule adminUsers.first_step)
  from k obtain ps w2 where p: "EffectivePermissions (au_Role u) w1 = (Inr ps, w2)"
    and r: "returnE (u\<lparr>au_Permissions := ps\<rparr>) w2 = (Inr user, w')" by (rule bindE_InrE)
  from EffectivePermissions_InrD(1) [OF p] b(1) r obtain cs where "w' = consumed cs w" by (auto simp: returnE_def)
  moreover have "user = u\<lparr>au_Permissions := ps\<rparr>" using r by (simp add: returnE_def)
  moreover have "\<forall>code\<in>set ps. \<exists>r\<in>set (t_roles (db w)). role_Name r = au_Role u \<and> code \<in> granted (db w) (role_ID r)"
    using EffectivePermissions_InrD(2) [OF p] b(1) by (simp add: granted_def)
  ultimately show ?thesis using find_Some_in_set [OF b(2)] by blast
qed

lemma admin_bearer_InrD:
  assumes "WithAdminBearer A authorization w = (Inr user, w')" and "auth_authz A"
  shows "admin_behind A w authorization user" and "\<exists>bs. w' = consumed bs w"
proof -
  from assms(1) obtain c where v: "Verify A (BearerToken authorization) w = (Inr c, w)"
    and r: "admin_AuthenticateClaims A (Some c) w = (Inr user, w')"
    by (auto simp: WithAdminBearer_def authenticate_def Verify_def split: prod.splits sum.splits)
  from v obtain j where j: "auth_parse A (now w) (BearerToken authorization) = Inr j" "c = claimsFrom j"
    by (cases "auth_parse A (now w) (BearerToken authorization)") (auto simp: Verify_def)
  from r have ok: "tc_SubjectType c = ''admin''" "tc_TokenType c = ''access''"
    and k: "bindE (orE (on_db (AdminSessions_Live (tc_SubjectID c) (auth_sha256 A (tc_TokenID c)) (now w)))
        (Msg ''invalid admin session'')) (\<lambda>_. activeUser A (tc_SubjectID c)) w = (Inr user, w')"
    by (simp_all add: admin_AuthenticateClaims_def bindE_failIf split: if_splits)
  from k obtain s w1 where o_s: "orE (on_db (AdminSessions_Live (tc_SubjectID c)
        (auth_sha256 A (tc_TokenID c)) (now w))) (Msg ''invalid admin session'') w = (Inr s, w1)"
    and f: "activeUser A (tc_SubjectID c) w1 = (Inr user, w')" by (rule bindE_InrE)
  from orE_InrD [OF o_s] obtain bs where b: "w1 = consumed bs w" "List.find (\<lambda>s. as_AdminUserID s = tc_SubjectID c \<and>
      as_TokenHash s = auth_sha256 A (tc_TokenID c) \<and> as_ExpiresAt s > now w \<and> as_RevokedAt s = None)
      (t_adminSessions (db w)) = Some s"
    unfolding AdminSessions_Live_def by (rule adminSessions.first_step)
  note s = find_Some_in_set [OF b(2)]
  from activeUser_InrD [OF f assms(2)] b(1) show "\<exists>bs. w' = consumed bs w" by auto
  from activeUser_InrD [OF f assms(2)] obtain u ps where
    u: "u \<in> set (t_adminUsers (db w))" "au_ID u = tc_SubjectID c" "au_Status u = active" "user = u\<lparr>au_Permissions := ps\<rparr>"
      "\<forall>code\<in>set ps. \<exists>r\<in>set (t_roles (db w)). role_Name r = au_Role u \<and> code \<in> granted (db w) (role_ID r)"
    using b(1) by (auto simp: granted_def)
  show "admin_behind A w authorization user"
    unfolding admin_behind_def
    by (rule exI [of _ j], rule exI [of _ c], rule exI [of _ s], rule exI [of _ u], rule exI [of _ ps])
       (use j s ok u in simp)
qed

section \<open>Who may use the administrative API\<close>

text \<open>The routes without a permission of their own: the token endpoints take no bearer token, three
  routes take any administrator.\<close>

definition token_paths :: "string list list" where
  "token_paths = map (\<lambda>p. ''api'' # ''admin'' # p) [[''token''], [''login''], [''token'', ''refresh'']]"

definition open_to_all_admins :: "request \<Rightarrow> bool" where
  "open_to_all_admins req \<longleftrightarrow>
     hq_Path req \<in> set [[''api'', ''admin'', ''logout''], [''api'', ''admin'', ''me'']] \<or>
     (\<exists>i. hq_Path req = [''api'', ''admin'', ''users'', i, ''password''])"

definition admin_codes :: "string set" where
  "admin_codes = set (map pd_Code (filter (\<lambda>p. pd_Audience p = AudienceAdmin) Permissions))"

lemma admin_table:
  "\<forall>ep\<in>set (mountAdmin H).
     (\<not> ep_Bearer ep \<longrightarrow> ep_Path ep \<in> map Lit ` set token_paths) \<and>
     (ep_Bearer ep \<longrightarrow> ep_Needs ep \<in> admin_codes \<or>
        (ep_Needs ep = [] \<and>
         ep_Path ep \<in> {admin_path [Lit ''logout''], admin_path [Lit ''me''],
                       admin_path [Lit ''users'', Par ''id'', Lit ''password'']}))"
proof -
  have codes: "set [''roles:read'', ''roles:create'', ''roles:update'', ''roles:delete'', ''transactions:read'',
      ''audit:read'', ''system:read'', ''users:read'', ''users:create'', ''users:update'', ''apps:read'', ''apps:create'',
      ''apps:update'', ''credentials:read'', ''credentials:create'', ''credentials:update'', ''providers:read'',
      ''providers:create'', ''providers:update'', ''providers:test'', ''balances:read'', ''routes:read'',
      ''routes:create'', ''routes:update''] \<subseteq> admin_codes"
    by (simp add: admin_codes_def Permissions_def AudienceAdmin_def AudienceApp_def)
  show ?thesis
    unfolding mountAdmin_def list.set ball_simps chain_def token_endpoint_def
    using codes by (simp add: admin_path_def token_paths_def)
qed

lemma match_path_Lit: "match_path (map Lit p) s = Some ps \<Longrightarrow> s = p"
proof (induction p arbitrary: s ps)
  case Nil
  then show ?case by (cases s) simp_all
next
  case (Cons a p)
  then show ?case by (cases s) (auto split: if_splits)
qed

lemma admin_bearer:
  assumes "ep \<in> set (mountAdmin H)" and "\<not> ep_Bearer ep"
  shows "ep_Path ep \<in> map Lit ` set token_paths"
  using bspec [OF admin_table [of H] assms(1)] assms(2) by blast

lemma match_path_Par: "match_path (Par n # p) s = Some ps \<Longrightarrow> \<exists>i s' qs. s = i # s' \<and> match_path p s' = Some qs"
  by (cases s) (auto split: if_splits)

lemma match_path_LitE: "match_path (Lit l # p) s = Some ps \<Longrightarrow> \<exists>s'. s = l # s' \<and> match_path p s' = Some ps"
  by (cases s) (auto split: if_splits)

lemma match_path_Nil: "match_path [] s = Some ps \<Longrightarrow> s = []"
  by (cases s) simp_all

lemma password_path:
  "match_path (admin_path [Lit ''users'', Par ''id'', Lit ''password'']) s = Some ps \<Longrightarrow>
     \<exists>i. s = [''api'', ''admin'', ''users'', i, ''password'']"
  unfolding admin_path_def by (blast dest: match_path_LitE match_path_Par match_path_Nil)

lemma no_empty_code: "[] \<notin> admin_codes"
  by (simp add: admin_codes_def Permissions_def AudienceAdmin_def AudienceApp_def)

text \<open>C25: the administrative API. Outside the three token endpoints a request succeeds only with an access
  token of an administrator who is active and has a live session, and, logging out, reading
  oneself and changing a password apart, only when the role of that administrator grants, in the
  database, the permission of the admin catalogue the route names, or the wildcard.\<close>

lemma admin_api_guarded:
  assumes "serve_admin H req = Some k" and "k w = (Inr x, w')" and "hq_Path req \<notin> set token_paths"
    and "auth_authz (he_auth H)"
  shows "\<exists>user. admin_behind (he_auth H) w (hq_Header req ''Authorization'') user \<and>
    (open_to_all_admins req \<or>
     (\<exists>code\<in>admin_codes. map_option (\<lambda>(ep, ps). ep_Needs ep) (find_route (mountAdmin H) req) = Some code \<and>
        (\<exists>r\<in>set (t_roles (db w)). role_Name r = au_Role user \<and>
           (code \<in> granted (db w) (role_ID r) \<or> PermissionWildcard \<in> granted (db w) (role_ID r)))))"
proof -
  from assms(1) obtain ep ps where f: "find_route (mountAdmin H) req = Some (ep, ps)"
    and k: "k = run_chain (WithAdminBearer (he_auth H)) RequirePermission ep (req\<lparr>hq_Params := ps\<rparr>)"
    by (auto simp: serve_admin_def serve_def split: option.splits)
  note ep = find_route_SomeD [OF f]
  have row: "(\<not> ep_Bearer ep \<longrightarrow> ep_Path ep \<in> map Lit ` set token_paths) \<and>
     (ep_Bearer ep \<longrightarrow> ep_Needs ep \<in> admin_codes \<or>
        (ep_Needs ep = [] \<and>
         ep_Path ep \<in> {admin_path [Lit ''logout''], admin_path [Lit ''me''],
                       admin_path [Lit ''users'', Par ''id'', Lit ''password'']}))"
    using admin_table ep by (rule bspec [OF _ conjunct1])
  have b: "ep_Bearer ep" using row ep assms(3) by (auto dest: match_path_Lit)
  obtain user w1 where u: "WithAdminBearer (he_auth H) (hq_Header req ''Authorization'') w = (Inr user, w1)"
    and n: "ep_Needs ep = [] \<or> RequirePermission (ep_Needs ep) (Some user) = Inr ()"
    using assms(2) b unfolding k by (rule run_chain_InrE) simp
  note who = admin_bearer_InrD(1) [OF u assms(4)]
  show ?thesis
  proof (cases "ep_Needs ep \<in> admin_codes")
    case True
    then have "ep_Needs ep \<noteq> []" using no_empty_code by metis
    with n have "ep_Needs ep \<in> set (au_Permissions user) \<or> PermissionWildcard \<in> set (au_Permissions user)"
      by (auto simp: RequirePermission_def granted_to_iff split: if_splits)
    then have "\<exists>r\<in>set (t_roles (db w)). role_Name r = au_Role user \<and>
        (ep_Needs ep \<in> granted (db w) (role_ID r) \<or> PermissionWildcard \<in> granted (db w) (role_ID r))"
      using who by (fastforce simp: admin_behind_def)
    with who True f show ?thesis by auto
  next
    case False
    with row b have "ep_Path ep \<in> {map Lit [''api'', ''admin'', ''logout''], map Lit [''api'', ''admin'', ''me''],
        admin_path [Lit ''users'', Par ''id'', Lit ''password'']}"
      by (simp add: admin_path_def)
    moreover have "match_path (ep_Path ep) (hq_Path req) = Some ps" using ep by blast
    ultimately have "open_to_all_admins req"
      unfolding open_to_all_admins_def
      using match_path_Lit [of "[''api'', ''admin'', ''logout'']"] match_path_Lit [of "[''api'', ''admin'', ''me'']"]
        password_path
      by (metis insert_iff list.set(1,2) empty_iff)
    with who show ?thesis by blast
  qed
qed

section \<open>The password route\<close>

lemma ChangePassword_runs:
  assumes f: "faults (db w) = []" and h: "auth_bcrypt A (uuid_n w) p = Inr h"
    and t: "u \<in> set (t_adminUsers (db w))" "au_ID u = i"
  shows "\<exists>w'. ChangePassword A (Some actor) i p w = (Inr (), w') \<and>
     (\<forall>v\<in>set (t_adminUsers (db w')). au_ID v = i \<longrightarrow> au_PasswordHash v = h)"
proof -
  let ?w1 = "w\<lparr>uuid_n := Suc (uuid_n w)\<rparr>"
  have hash: "HashPassword A p w = (Inr h, ?w1)" by (simp add: HashPassword_def draw_def h)
  let ?set = "\<lambda>u. if au_ID u = i then u\<lparr>au_PasswordHash := h, au_PasswordChangedAt := Some (now w)\<rparr> else u"
  let ?w2 = "?w1\<lparr>db := t_adminUsers_update (map ?set) (db ?w1)\<rparr>"
  have s1: "on_db (AdminUsers_SetPassword i h (now w)) ?w1 = (Inr (), ?w2)"
    unfolding AdminUsers_SetPassword_def by (subst adminUsers.update_clean) (use f t in auto)
  let ?w3 = "?w2\<lparr>db := t_adminSessions_update (map (\<lambda>s. if as_AdminUserID s = i \<and> as_RevokedAt s = None
      then as_RevokedAt_update (\<lambda>_. Some (now w)) s else s)) (db ?w2)\<rparr>"
  have s2: "on_db (AdminSessions_RevokeAllFor i (now w)) ?w2 = (Inr (), ?w3)"
    unfolding AdminSessions_RevokeAllFor_def by (rule adminSessions.touch_clean) (use f in simp)
  have "Within (bindE (on_db (AdminUsers_SetPassword i h (now w))) (\<lambda>_.
            on_db (AdminSessions_RevokeAllFor i (now w)))) ?w1 = (Inr (), ?w3)"
    by (rule Within_clean) (use f s1 s2 in simp_all)
  moreover obtain w' where r: "RecordBestEffort (auth_audit A) (au_ID actor) ''admin'' ''admin.password_changed''
      ''admin_user'' i None [] [] ?w3 = (Inr (), w')" and o: "only_trail ?w3 w'"
    by (rule RecordBestEffort_succeeds)
  ultimately have "ChangePassword A (Some actor) i p w = (Inr (), w')"
    by (simp add: ChangePassword_def hash)
  moreover have "t_adminUsers (db w') = map ?set (t_adminUsers (db w))" using only_trail_fields(1) [OF o] by simp
  ultimately show ?thesis by (intro exI [of _ w']) (simp only: ball_map, simp)
qed

text \<open>The password route. Whatever the role of an administrator and whosever account is named, a valid
  request sets the password: no permission is asked for and the service compares no ids.\<close>

lemma password_reset_unguarded:
  assumes bearer: "WithAdminBearer (he_auth H) (hq_Header req ''Authorization'') w = (Inr user, w1)"
    and req: "hq_Method req = ''PATCH''" "hq_Path req = [''api'', ''admin'', ''users'', i, ''password'']" "i \<noteq> []"
      "JSONOnly (hq_Header req ''Content-Type'') = Inr ()" "\<not> hq_Spent req AdminCalls"
    and body: "DecodeJSON (dj_ChangePassword (he_json H)) (hq_Body req) = Inr \<lparr>cpw_Password = p\<rparr>" "8 \<le> rune_count p"
    and hash: "auth_bcrypt (he_auth H) (uuid_n w1) p = Inr h" and clean: "faults (db w1) = []"
    and target: "u \<in> set (t_adminUsers (db w1))" "au_ID u = i"
  shows "\<exists>k w'. serve_admin H req = Some k \<and> k w = (Inr (200, Adm_Done True), w') \<and>
     (\<forall>v\<in>set (t_adminUsers (db w')). au_ID v = i \<longrightarrow> au_PasswordHash v = h)"
proof -
  let ?ep = "patch_route [Lit ''users'', Par ''id'', Lit ''password''] [] True (ChangeAdminPassword H)"
  let ?req = "req\<lparr>hq_Params := [(''id'', i)]\<rparr>"
  have "find_route (mountAdmin H) req = Some (?ep, [(''id'', i)])"
    unfolding mountAdmin_def using req(1-3) by (simp add: chain_def token_endpoint_def admin_path_def)
  then have k: "serve_admin H req = Some (run_chain (WithAdminBearer (he_auth H)) RequirePermission ?ep ?req)"
    by (simp add: serve_admin_def serve_def)
  have "p \<noteq> []" using body(2) by (auto simp: rune_count_def)
  then have b: "bind_payload (dj_ChangePassword (he_json H)) ChangePasswordRequest_Normalize
      ChangePasswordRequest_rules ?req = Inr \<lparr>cpw_Password = p\<rparr>"
    using body by (simp add: bind_payload_def Check_def ChangePasswordRequest_Normalize_def
        ChangePasswordRequest_rules_def Validate_def required_def rule_min_len_def)
  obtain w' where w': "ChangePassword (he_auth H) (Some user) i p w1 = (Inr (), w')"
    "\<forall>v\<in>set (t_adminUsers (db w')). au_ID v = i \<longrightarrow> au_PasswordHash v = h"
    using ChangePassword_runs [OF clean hash target] by blast
  have "run_chain (WithAdminBearer (he_auth H)) RequirePermission ?ep ?req w = (Inr (200, Adm_Done True), w')"
    using req(4,5) bearer w'(1)
    by (simp add: run_chain_def guarded_def limitBy_def chain_def ChangeAdminPassword_def b validated_def reply_def
        respond_def param_def query_def JSON_def)
  with k w'(2) show ?thesis by blast
qed

section \<open>Requests that only read\<close>

named_theorems looks "actions and statements that only read"

lemmas [looks] = reads.moves_intros reads_on_db db_reads_statement db_reads_first db_reads_find db_reads_count
  db_reads.moves_intros reads_AvailablePaymentMethods

lemma reads_get [looks]: "moves reads (get_world f)"
  by (rule reads_pure) (simp add: get_world_def)

lemma reads_Now [looks]: "moves reads Now"
  unfolding Now_def by (rule reads_get)

lemma reads_orE [looks]: "moves reads m \<Longrightarrow> moves reads (orE m e)"
  unfolding orE_def by (intro reads.moves_handleE) (auto intro: looks split: sum.split)

lemma reads_Verify [looks]: "moves reads (Verify A raw)"
  by (rule reads_pure) (simp add: Verify_def split: sum.split)

lemma db_reads_page [looks]: "moves db_reads (base_page rows ord P number per_page)"
  unfolding base_page_def by (intro looks)

lemma db_reads_WithPermissions [looks]: "moves db_reads (Roles_WithPermissions name)"
  unfolding Roles_WithPermissions_def by (intro looks db_reads_pure) simp

lemma db_reads_Roles_List [looks]: "moves db_reads Roles_List"
  unfolding Roles_List_def by (intro looks db_reads_pure) simp

lemma db_reads_NamesByIDs [looks]: "moves db_reads (ProviderAccounts_NamesByIDs is)"
  unfolding ProviderAccounts_NamesByIDs_def by (auto intro!: looks)

lemma db_reads_named_rows [looks]:
  "(\<And>n m. moves db_reads (read n m)) \<Longrightarrow> moves db_reads (named_rows read account set_name n m)"
  unfolding named_rows_def by (auto intro!: looks split: prod.split)

lemma reads_EffectivePermissions [looks]: "moves reads (EffectivePermissions name)"
  unfolding EffectivePermissions_def by (auto intro!: looks split: sum.split)

lemma reads_activeUser [looks]: "moves reads (activeUser A i)"
  unfolding activeUser_def AdminUsers_ActiveByID_def by (auto intro!: looks)

lemma reads_admin_claims [looks]: "moves reads (admin_AuthenticateClaims A c)"
  unfolding admin_AuthenticateClaims_def AdminSessions_Live_def by (auto intro!: looks split: option.split)

lemma reads_app_identity [looks]: "moves reads (app_identity appID credentialID)"
  unfolding app_identity_def fromCredential_def AppCredentials_ActiveInApp_def Apps_ActiveByID_def
  by (auto intro!: looks)

lemma reads_app_claims [looks]: "moves reads (app_AuthenticateClaims A c)"
  unfolding app_AuthenticateClaims_def AppSessions_Live_def by (auto intro!: looks split: option.split)

lemma reads_authenticate:
  assumes "\<And>raw. moves reads (check raw)" and "\<And>c. moves reads (who c)"
  shows "reads w (snd (authenticate check who authorization w))"
proof -
  obtain r w1 where 1: "check (BearerToken authorization) w = (r, w1)" by (cases "check (BearerToken authorization) w")
  note m1 = movesD [OF assms(1) 1]
  show ?thesis
  proof (cases r)
    case (Inl e)
    with 1 m1 show ?thesis by (simp add: authenticate_def)
  next
    case (Inr c)
    obtain q w2 where 2: "who (Some c) w1 = (q, w2)" by (cases "who (Some c) w1")
    from 1 2 Inr reads.trans_R [OF m1 movesD [OF assms(2) 2]] show ?thesis
      by (auto simp: authenticate_def split: sum.split)
  qed
qed

lemma reads_bearer:
  "reads w (snd (WithAdminBearer A authorization w))" "reads w (snd (WithAppBearer A authorization w))"
  unfolding WithAdminBearer_def WithAppBearer_def by (rule reads_authenticate, (intro looks)+)+

text \<open>An answer that only reads.\<close>

definition calm :: "('p, 'x) answer \<Rightarrow> bool" where
  "calm k \<longleftrightarrow> (\<forall>w. reads w (snd (k w)))"

lemma calm_respond [looks]: "moves reads run \<Longrightarrow> calm (respond run answer status payload)"
  by (auto simp: calm_def respond_def JSON_def moves_def split: prod.split sum.split) (metis snd_conv)+

lemma calm_refuse [looks]: "calm (refuse r)"
  by (simp add: calm_def refuse_def reads.refl_R)

lemma calm_page_answer [looks]: "(\<And>n m. moves db_reads (read n m)) \<Longrightarrow> calm (page_answer req read payload)"
  unfolding page_answer_def by (auto intro!: looks split: prod.split)

lemma calm_values [looks]: "calm (Me actor req)" "calm (SystemInfo H actor req)" "calm (ProviderRegistry H actor req)"
  by (simp_all add: calm_def reads.refl_R Me_def SystemInfo_def ProviderRegistry_def)

lemma reads_runtime_rows [looks]: "moves reads (runtime_rows ps)"
  by (induction ps) (auto simp: ProviderHealth_ByAccount_def intro!: looks split: sum.split)

lemma reads_Aggregate [looks]: "moves db_reads (Transactions_Aggregate bucket db_order f)"
  unfolding Transactions_Aggregate_def by (auto simp: Let_def intro!: looks)

lemma reads_Analytics [looks]: "moves reads (Analytics_Transactions bucket db_order ranged dialect f)"
  unfolding Analytics_Transactions_def by (intro looks)

lemma reads_payment_Get [looks]: "moves reads (payment_Get appID f v)"
  unfolding payment_Get_def Transactions_ForApp_def by (auto intro!: looks)

lemmas page_defs = Transactions_Page_def AuditLogs_Page_def AdminUsers_Page_def Apps_Page_def
  AppCredentials_PageForApp_def ProviderAccounts_Page_def ProviderHealth_Page_def PaymentRoutes_Page_def

lemma calm_handlers [looks]:
  "calm (handle_ListPermissions actor req)" "calm (handle_ListRoles actor req)"
  "calm (ListTransactions actor req)" "calm (handle_TransactionAnalytics H actor req)"
  "calm (ListAuditLogs actor req)" "calm (SystemHealth H actor req)"
  "calm (Workers H actor req)" "calm (ListAdmins actor req)" "calm (ListApps actor req)"
  "calm (handle_GetApp actor req)" "calm (ListCredentials actor req)" "calm (ListProviders actor req)"
  "calm (GetProviderAccount actor req)"
  "calm (ListProviderHealth actor req)" "calm (RuntimeProviders actor req)" "calm (ListRoutes actor req)"
  unfolding handle_ListPermissions_def handle_ListRoles_def ListTransactions_def handle_TransactionAnalytics_def
    ListAuditLogs_def SystemHealth_def Workers_def ListAdmins_def ListApps_def handle_GetApp_def ListCredentials_def
    ListProviders_def GetProviderAccount_def ListProviderHealth_def RuntimeProviders_def ListRoutes_def providerPage_def
    ListPermissions_def Permissions_List_def ListRoles_def page_defs db_Ping_def ProviderAccounts_CountActive_def
    GetApp_def Apps_ByID_def ProviderAccounts_ByID_def Let_def
  by (auto intro!: looks split: sum.split prod.split)

lemma calm_public [looks]:
  "calm (ListPaymentMethods E i req)" "calm (GetTransaction i req)" "calm (GetTransactionByReference i req)"
  "calm (Ping req)" "calm (public_Health req)"
  unfolding ListPaymentMethods_def GetTransaction_def GetTransactionByReference_def public_get_def
  by (auto intro!: looks split: option.split)
    (simp_all add: calm_def Ping_def public_Health_def reads.refl_R)

text \<open>The only GET routes that do more: they ask the providers.\<close>

definition balance_request :: "request \<Rightarrow> bool" where
  "balance_request req \<longleftrightarrow> hq_Path req = [''api'', ''admin'', ''balances'', ''providers''] \<or>
     (\<exists>i. hq_Path req = [''api'', ''admin'', ''providers'', ''accounts'', i, ''balance''])"

lemma calm_admin_gets:
  "\<forall>ep\<in>set (mountAdmin H). ep_Method ep = ''GET'' \<longrightarrow>
     (\<forall>i req. calm (ep_Run ep i req)) \<or>
     ep_Path ep \<in> {admin_path [Lit ''balances'', Lit ''providers''],
                   admin_path [Lit ''providers'', Lit ''accounts'', Par ''id'', Lit ''balance'']}"
  unfolding mountAdmin_def list.set ball_simps chain_def token_endpoint_def
  by (simp add: looks)

lemma calm_public_gets:
  "\<forall>ep\<in>set (mountPublic E A decode). ep_Method ep = ''GET'' \<longrightarrow> (\<forall>i req. calm (ep_Run ep i req))"
  by (simp add: mountPublic_def Let_def looks)

lemma run_chain_reads:
  assumes "\<And>a v. reads v (snd (who a v))" and "\<And>i r. calm (ep_Run ep i r)"
  shows "reads w (snd (run_chain who needs ep req w))"
proof -
  obtain r w1 where r: "who (hq_Header req ''Authorization'') w = (r, w1)" by (cases "who (hq_Header req ''Authorization'') w")
  then have w1: "reads w w1" using assms(1) [of w "hq_Header req ''Authorization''"] by simp
  have run: "reads v (snd (ep_Run ep i q v))" for v i q using assms(2) by (simp add: calm_def)
  show ?thesis
    using w1 run [of w1] reads.trans_R [OF w1 run]
    by (auto simp: run_chain_def guarded_def r run reads.refl_R split: sum.split)
qed

lemma lift_answer_state: "snd (lift_answer f a w) = snd (a w)"
  by (simp add: lift_answer_def split: prod.split)

text \<open>C27: safe methods. A GET request changes no table, no loaded provider and nothing outside, the two balance
  queries apart; with no statement failing it leaves the state as it was.\<close>

lemma get_requests_read:
  assumes "serve_request H decode req = Some k" and "hq_Method req = ''GET''" and "\<not> balance_request req"
  shows "reads w (snd (k w))"
proof -
  have pub: "reads w (snd (a w))" if "serve_public (he_env H) (he_app_auth H) decode req = Some a" for a
  proof -
    from that obtain ep ps where f: "find_route (mountPublic (he_env H) (he_app_auth H) decode) req = Some (ep, ps)"
      and a: "a = run_chain (WithAppBearer (he_app_auth H)) RequireAppScope ep (req\<lparr>hq_Params := ps\<rparr>)"
      by (auto simp: serve_public_def serve_def split: option.splits)
    show ?thesis
      unfolding a by (rule run_chain_reads) (use find_route_SomeD [OF f] calm_public_gets assms(2) reads_bearer in metis)+
  qed
  have adm: "reads w (snd (a w))" if "serve_admin H req = Some a" for a
  proof -
    from that obtain ep ps where f: "find_route (mountAdmin H) req = Some (ep, ps)"
      and a: "a = run_chain (WithAdminBearer (he_auth H)) RequirePermission ep (req\<lparr>hq_Params := ps\<rparr>)"
      by (auto simp: serve_admin_def serve_def split: option.splits)
    note ep = find_route_SomeD [OF f]
    have "ep_Path ep \<noteq> map Lit [''api'', ''admin'', ''balances'', ''providers'']"
      using ep assms(3) match_path_Lit unfolding balance_request_def by metis
    moreover have "ep_Path ep \<noteq> admin_path [Lit ''providers'', Lit ''accounts'', Par ''id'', Lit ''balance'']"
    proof
      assume "ep_Path ep = admin_path [Lit ''providers'', Lit ''accounts'', Par ''id'', Lit ''balance'']"
      with ep have "\<exists>i. hq_Path req = [''api'', ''admin'', ''providers'', ''accounts'', i, ''balance'']"
        unfolding admin_path_def by (auto dest!: match_path_LitE match_path_Par match_path_Nil)
      with assms(3) show False by (simp add: balance_request_def)
    qed
    ultimately have "\<And>i r. calm (ep_Run ep i r)"
      using calm_admin_gets ep assms(2) by (fastforce simp: admin_path_def)
    then show ?thesis unfolding a by (rule run_chain_reads [OF reads_bearer(1)])
  qed
  show ?thesis
  proof (cases "serve_open (he_env H) req")
    case (Some a)
    then have "a = Ping req \<or> a = public_Health req" using assms(2) by (auto simp: serve_open_def split: if_splits)
    then have "calm a" by (auto intro: looks)
    with Some assms(1) show ?thesis by (auto simp: serve_request_def lift_answer_state calm_def)
  next
    case None
    then show ?thesis
      using assms(1) pub adm by (auto simp: serve_request_def lift_answer_state split: option.splits)
  qed
qed

section \<open>Statuses\<close>

text \<open>An answer is a success with 200 or 201, or a refusal with one of the statuses of \<open>S\<close>.\<close>

definition answers :: "int set \<Rightarrow> ('p, 'x) answer \<Rightarrow> bool" where
  "answers S k \<longleftrightarrow> (\<forall>w. case fst (k w) of Inl r \<Rightarrow> refusal_status r \<in> S | Inr (status, x) \<Rightarrow> status \<in> {200, 201})"

named_theorems answering "which statuses an answer has"

lemma answers_respond [answering]:
  assumes "\<And>e. refusal_status (no e) \<in> S" "500 \<in> S" "status \<in> {200, 201}"
  shows "answers S (respond run no status payload)"
  using assms by (auto simp: answers_def respond_def JSON_def errorHandler_def split: prod.split sum.split)

lemma answers_reply [answering]:
  "{400, 500} \<subseteq> S \<Longrightarrow> status \<in> {200, 201} \<Longrightarrow> answers S (reply status code run payload)"
  unfolding reply_def by (rule answers_respond) auto

lemma answers_refuse [answering]: "refusal_status r \<in> S \<Longrightarrow> answers S (refuse r)"
  by (simp add: answers_def refuse_def)

lemma answers_validated [answering]: "400 \<in> S \<Longrightarrow> (\<And>v. answers S (k v)) \<Longrightarrow> answers S (validated r k)"
  by (auto simp: validated_def answers_def refuse_def split: sum.split)

lemma answers_page [answering]: "500 \<in> S \<Longrightarrow> answers S (page_answer req read payload)"
  by (auto simp: page_answer_def server_error_def intro: answers_respond split: prod.split)

lemma answers_values [answering]:
  "answers S (Me actor req)" "answers S (SystemInfo H actor req)" "answers S (ProviderRegistry H actor req)"
  "answers S (Ping req)" "answers S (public_Health req)"
  by (simp_all add: answers_def Me_def SystemInfo_def ProviderRegistry_def Ping_def public_Health_def JSON_def)

lemmas admin_handler_defs =
  handle_GetApp_def GetProviderAccount_def ActiveProviderBalances_def handle_ProviderBalance_def Logout_def
  ListTransactions_def ListAuditLogs_def ListProviderHealth_def providerPage_def ListAdmins_def CreateAdminUser_def
  ChangeAdminPassword_def ChangeAdminStatus_def ChangeAdminRole_def ListApps_def handle_CreateApp_def
  handle_UpdateApp_def handle_ChangeAppStatus_def ListCredentials_def handle_CreateCredential_def
  handle_RevokeCredential_def handle_RotateCredential_def ListProviders_def CreateProvider_def
  UpdateProviderSettings_def UpdateProviderConfig_def ActivateProvider_def DeactivateProvider_def TestProvider_def
  ListRoutes_def CreateRoute_def UpdateRoute_def handle_ListPermissions_def handle_ListRoles_def handle_CreateRole_def
  handle_UpdateRole_def handle_DeleteRole_def handle_TransactionAnalytics_def SystemHealth_def Workers_def
  RuntimeProviders_def

lemma answers_admin:
  "\<forall>ep\<in>set (mountAdmin H). ep_Bearer ep \<longrightarrow> (\<forall>i req. answers {400, 404, 500} (ep_Run ep i req))"
  unfolding mountAdmin_def list.set ball_simps chain_def token_endpoint_def admin_handler_defs
  by (auto intro!: answering simp: server_error_def split: sum.split)

lemma payment_refusal_status: "refusal_status (payment_refusal e) \<in> {400, 404, 500, 503}"
  by (simp add: payment_refusal_def)

lemma answers_public:
  "\<forall>ep\<in>set (mountPublic E A decode). ep_Bearer ep \<longrightarrow> (\<forall>i req. answers {400, 404, 500, 503} (ep_Run ep (Some i) req))"
  by (auto simp: mountPublic_def Let_def ListPaymentMethods_def CreateCollection_def CreateDisbursement_def
      public_create_def GetTransaction_def GetTransactionByReference_def public_get_def
      intro!: answering payment_refusal_status)

text \<open>The chain adds the statuses of its guards.\<close>

definition guard_statuses :: "int set" where "guard_statuses = {401, 403, 415, 429}"

lemma authenticate_refusal: "authenticate check who authorization w = (Inl r, w') \<Longrightarrow> refusal_status r = 401"
  by (auto simp: authenticate_def split: prod.splits sum.splits)

lemma bearer_refusal:
  "WithAdminBearer A authorization w = (Inl r, w') \<Longrightarrow> refusal_status r = 401"
  "WithAppBearer A authorization w = (Inl r, w') \<Longrightarrow> refusal_status r = 401"
  by (simp_all add: WithAdminBearer_def WithAppBearer_def authenticate_refusal)

lemma requirement_refusal:
  "RequirePermission code user = Inl r \<Longrightarrow> refusal_status r = 403"
  "RequireAppScope code app = Inl r \<Longrightarrow> refusal_status r = 403"
  "JSONOnly content = Inl r \<Longrightarrow> refusal_status r = 415"
  "limitBy l req = Inl r \<Longrightarrow> refusal_status r = 429"
  "bodyLimit n req = Inl r \<Longrightarrow> refusal_status r = 413"
  by (auto simp: RequirePermission_def RequireAppScope_def JSONOnly_def limitBy_def bodyLimit_def
      split: option.splits if_splits)

text \<open>Where a chain stopped: at a guard, having read at most, or in its handler.\<close>

lemma run_chain_InlE:
  assumes run: "run_chain who needs ep req w = (Inl r, w')" and b: "ep_Bearer ep"
    and who: "\<And>a v. reads v (snd (who a v))" "\<And>a v q v'. who a v = (Inl q, v') \<Longrightarrow> refusal_status q = 401"
    and needs: "\<And>c i q. needs c i = Inl q \<Longrightarrow> refusal_status q = 403"
  obtains (guard) "refusal_status r \<in> guard_statuses" and "reads w w'"
    | (handler) i w1 where "ep_Run ep (Some i) req w1 = (Inl r, w')"
proof (cases "limitBy (ep_Limit ep) req")
  case (Inl q)
  with run guard requirement_refusal(4) reads.refl_R show ?thesis
    by (auto simp: run_chain_def guarded_def guard_statuses_def)
next
  case l: (Inr u)
  obtain q w1 where q: "who (hq_Header req ''Authorization'') w = (q, w1)" by (cases "who (hq_Header req ''Authorization'') w")
  have w1: "reads w w1" using who(1) [of w "hq_Header req ''Authorization''"] q by simp
  show ?thesis
  proof (cases q)
    case (Inl x)
    with run l q b have "r = x" "w' = w1" by (simp_all add: run_chain_def guarded_def)
    with guard w1 who(2) [of "hq_Header req ''Authorization''" w x w1] q Inl show ?thesis
      by (simp add: guard_statuses_def)
  next
    case (Inr i)
    let ?j = "if ep_JSON ep then JSONOnly (hq_Header req ''Content-Type'') else Inr ()"
    let ?n = "if ep_Needs ep = [] then Inr () else needs (ep_Needs ep) (Some i)"
    from run l q b Inr have k: "guarded ?j (guarded ?n (ep_Run ep (Some i) req)) w1 = (Inl r, w')"
      by (simp add: run_chain_def guarded_def)
    show ?thesis
    proof (cases ?j)
      case (Inl x)
      then have "refusal_status x = 415" by (auto split: if_splits dest: requirement_refusal)
      moreover have "r = x" "w' = w1" using k Inl by (simp_all add: guarded_def)
      ultimately show ?thesis using guard w1 by (simp add: guard_statuses_def)
    next
      case j: (Inr x)
      show ?thesis
      proof (cases ?n)
        case (Inl y)
        then have "refusal_status y = 403" using needs by (auto split: if_splits)
        moreover have "r = y" "w' = w1" using k j Inl by (simp_all add: guarded_def)
        ultimately show ?thesis using guard w1 by (simp add: guard_statuses_def)
      next
        case (Inr y)
        with k j show ?thesis by (intro handler) (simp add: guarded_def)
      qed
    qed
  qed
qed

lemma public_bearer:
  "ep \<in> set (mountPublic E A decode) \<Longrightarrow> \<not> ep_Bearer ep \<Longrightarrow>
     ep_Path ep \<in> map Lit ` {[''api'', ''v1'', ''token''], [''api'', ''v1'', ''token'', ''refresh'']}"
  by (auto simp: mountPublic_def Let_def)

lemma turned_away_admin:
  assumes a: "serve_admin H req = Some k" "k w = (Inl r, w')" "hq_Path req \<notin> set token_paths"
    and st: "refusal_status r \<in> {401, 403, 413, 415, 429}"
  shows "reads w w'"
proof -
  from a obtain ep ps where f: "find_route (mountAdmin H) req = Some (ep, ps)"
    and k: "k = run_chain (WithAdminBearer (he_auth H)) RequirePermission ep (req\<lparr>hq_Params := ps\<rparr>)"
    by (auto simp: serve_admin_def serve_def split: option.splits)
  note ep = find_route_SomeD [OF f]
  have b: "ep_Bearer ep" using admin_bearer [of ep H] ep a match_path_Lit by (metis imageE)
  from a(2) k have run: "run_chain (WithAdminBearer (he_auth H)) RequirePermission ep (req\<lparr>hq_Params := ps\<rparr>) w = (Inl r, w')"
    by simp
  show ?thesis
  proof (rule run_chain_InlE [OF run b reads_bearer(1) bearer_refusal(1) requirement_refusal(1)])
    fix i w1
    assume "ep_Run ep (Some i) (req\<lparr>hq_Params := ps\<rparr>) w1 = (Inl r, w')"
    moreover have "answers {400, 404, 500} (ep_Run ep (Some i) (req\<lparr>hq_Params := ps\<rparr>))"
      using answers_admin ep b by blast
    ultimately have "refusal_status r \<in> {400, 404, 500}" unfolding answers_def by (metis fst_conv sum.case(1))
    with st show ?thesis by auto
  qed
qed

lemma turned_away_public:
  assumes a: "serve_public E A decode req = Some k" "k w = (Inl r, w')"
      "hq_Path req \<notin> {[''api'', ''v1'', ''token''], [''api'', ''v1'', ''token'', ''refresh'']}"
    and st: "refusal_status r \<in> {401, 403, 413, 415, 429}"
  shows "reads w w'"
proof -
  from a obtain ep ps where f: "find_route (mountPublic E A decode) req = Some (ep, ps)"
    and k: "k = run_chain (WithAppBearer A) RequireAppScope ep (req\<lparr>hq_Params := ps\<rparr>)"
    by (auto simp: serve_public_def serve_def split: option.splits)
  note ep = find_route_SomeD [OF f]
  have b: "ep_Bearer ep"
  proof (rule ccontr)
    assume "\<not> ep_Bearer ep"
    then obtain p where "ep_Path ep = map Lit p" "p \<in> {[''api'', ''v1'', ''token''], [''api'', ''v1'', ''token'', ''refresh'']}"
      using public_bearer [of ep E A decode] ep by blast
    moreover from this ep have "hq_Path req = p" by (intro match_path_Lit) simp
    ultimately show False using a by simp
  qed
  from a(2) k have run: "run_chain (WithAppBearer A) RequireAppScope ep (req\<lparr>hq_Params := ps\<rparr>) w = (Inl r, w')" by simp
  show ?thesis
  proof (rule run_chain_InlE [OF run b reads_bearer(2) bearer_refusal(2) requirement_refusal(2)])
    fix i w1
    assume "ep_Run ep (Some i) (req\<lparr>hq_Params := ps\<rparr>) w1 = (Inl r, w')"
    moreover have "answers {400, 404, 500, 503} (ep_Run ep (Some i) (req\<lparr>hq_Params := ps\<rparr>))"
      using answers_public ep b by blast
    ultimately have "refusal_status r \<in> {400, 404, 500, 503}" unfolding answers_def by (metis fst_conv sum.case(1))
    with st show ?thesis by auto
  qed
qed

end
