(* ===== verification/ApiFacts.thy ===== *)
theory ApiFacts
  imports RouterFacts
begin

text \<open>
  The composed API (\<open>serve_request\<close>): the statuses a client meets and what an application's
  token reaches, with the sample deployment the router's properties are evaluated on.
\<close>

section \<open>Statuses of the whole API\<close>

lemma fst_lift_answer: "fst (lift_answer f k w) = map_sum id (\<lambda>(status, x). (status, f x)) (fst (k w))"
  by (simp add: lift_answer_def split: prod.split)

text \<open>The guard that turns a request of a route behind a bearer token away, in the order they run, and
  the status it answers with.\<close>

definition guard_verdict ::
    "('p, 'i) bearer \<Rightarrow> ('i \<Rightarrow> string list) \<Rightarrow> ('p, 'i, 'x) endpoint \<Rightarrow> request \<Rightarrow> 'p world \<Rightarrow> int option" where
  "guard_verdict who held ep req w =
     (if hq_Spent req (ep_Limit ep) then Some 429
      else case fst (who (hq_Header req ''Authorization'') w) of
             Inl _ \<Rightarrow> Some 401
           | Inr i \<Rightarrow>
               if ep_JSON ep \<and> \<not> has_prefix ''application/json'' (to_lower (hq_Header req ''Content-Type'')) then Some 415
               else if ep_Needs ep \<noteq> [] \<and> ep_Needs ep \<notin> set (held i) \<and> ''*'' \<notin> set (held i) then Some 403
               else None)"

definition http_status :: "'x response \<Rightarrow> int" where
  "http_status answer = (case answer of Inl r \<Rightarrow> refusal_status r | Inr (status, _) \<Rightarrow> status)"

lemma http_status_lift: "http_status (fst (lift_answer f k w)) = http_status (fst (k w))"
  by (cases "fst (k w)") (auto simp: http_status_def fst_lift_answer)

lemma answers_status:
  assumes "answers S k"
  shows "http_status (fst (k w)) \<in> S \<union> {200, 201}"
proof -
  from assms have "case fst (k w) of Inl r \<Rightarrow> refusal_status r \<in> S | Inr (status, x) \<Rightarrow> status \<in> {200, 201}"
    by (simp add: answers_def)
  then show ?thesis by (cases "fst (k w)") (auto simp: http_status_def)
qed

lemma needs_granted:
  "RequirePermission code (Some u) =
     (if code \<in> set (au_Permissions u) \<or> ''*'' \<in> set (au_Permissions u) then Inr ()
      else Inl (Refusal 403 ''FORBIDDEN'' (''permission denied: '' @ code)))"
  "RequireAppScope code (Some i) =
     (if code \<in> set (GoStrings.fields (ac_Scopes (id_Credential i))) \<or> ''*'' \<in> set (GoStrings.fields (ac_Scopes (id_Credential i)))
      then Inr () else Inl (Refusal 403 ''FORBIDDEN'' ''app credential is missing required scope''))"
  by (simp_all add: RequirePermission_def RequireAppScope_def granted_to_iff PermissionWildcard_def)

lemma refusals:
  "\<forall>a v q v'. WithAdminBearer A a v = (Inl q, v') \<longrightarrow> refusal_status q = 401"
  "\<forall>a v q v'. WithAppBearer A a v = (Inl q, v') \<longrightarrow> refusal_status q = 401"
  using bearer_refusal by blast+

lemma run_chain_verdict:
  assumes b: "ep_Bearer ep" and who: "\<forall>a v q v'. who a v = (Inl q, v') \<longrightarrow> refusal_status q = 401"
    and needs: "\<And>c i. needs c (Some i) = (if c \<in> set (held i) \<or> ''*'' \<in> set (held i) then Inr () else Inl (no c))"
    and no: "\<And>c. refusal_status (no c) = 403" and run: "\<And>i. answers S (ep_Run ep (Some i) req)"
  shows "case guard_verdict who held ep req w of
      Some status \<Rightarrow> http_status (fst (run_chain who needs ep req w)) = status
    | None \<Rightarrow> (\<exists>i w1. who (hq_Header req ''Authorization'') w = (Inr i, w1) \<and>
                 run_chain who needs ep req w = ep_Run ep (Some i) req w1) \<and>
              http_status (fst (run_chain who needs ep req w)) \<in> S \<union> {200, 201}"
proof (cases "hq_Spent req (ep_Limit ep)")
  case True
  then show ?thesis by (simp add: guard_verdict_def run_chain_def guarded_def limitBy_def http_status_def)
next
  case False
  obtain q w1 where q: "who (hq_Header req ''Authorization'') w = (q, w1)" by fastforce
  show ?thesis
  proof (cases q)
    case (Inl r)
    have "refusal_status r = 401" using who q Inl by blast
    with False q b Inl show ?thesis by (simp add: guard_verdict_def run_chain_def guarded_def limitBy_def http_status_def)
  next
    case (Inr i)
    with False q b show ?thesis
      using answers_status [OF run, of i w1]
      by (simp add: guard_verdict_def run_chain_def guarded_def limitBy_def http_status_def JSONOnly_def needs no)
  qed
qed

lemma serve_verdict:
  assumes s: "serve who needs eps req = Some k" and who: "\<forall>a v q v'. who a v = (Inl q, v') \<longrightarrow> refusal_status q = 401"
    and needs: "\<And>c i. needs c (Some i) = (if c \<in> set (held i) \<or> ''*'' \<in> set (held i) then Inr () else Inl (no c))"
    and no: "\<And>c. refusal_status (no c) = 403"
    and b: "\<And>ep ps. find_route eps req = Some (ep, ps) \<Longrightarrow> ep_Bearer ep"
    and run: "\<And>ep i r. ep \<in> set eps \<Longrightarrow> ep_Bearer ep \<Longrightarrow> answers S (ep_Run ep (Some i) r)"
  shows "\<exists>ep ps. find_route eps req = Some (ep, ps) \<and>
    (case guard_verdict who held ep req w of
       Some status \<Rightarrow> http_status (fst (lift_answer f k w)) = status
     | None \<Rightarrow> (\<exists>i w1. who (hq_Header req ''Authorization'') w = (Inr i, w1) \<and>
                  lift_answer f k w = lift_answer f (ep_Run ep (Some i) (req\<lparr>hq_Params := ps\<rparr>)) w1) \<and>
               http_status (fst (lift_answer f k w)) \<in> S \<union> {200, 201})"
proof -
  from s obtain ep ps where f: "find_route eps req = Some (ep, ps)"
    and k: "k = run_chain who needs ep (req\<lparr>hq_Params := ps\<rparr>)"
    by (auto simp: serve_def split: option.splits)
  have same: "guard_verdict who held ep (req\<lparr>hq_Params := ps\<rparr>) w = guard_verdict who held ep req w"
    by (simp add: guard_verdict_def split: sum.split)
  have lift: "lift_answer f k w = lift_answer f a w1" if "k w = a w1" for a w1
    using that by (simp add: lift_answer_def)
  have "ep \<in> set eps" using find_route_SomeD [OF f] by blast
  note chain = run_chain_verdict [where who = who and needs = needs and held = held and no = no and S = S and ep = ep
      and req = "req\<lparr>hq_Params := ps\<rparr>" and w = w, OF b [OF f] who needs no run [OF this b [OF f]]]
  show ?thesis
  proof (cases "guard_verdict who held ep req w")
    case None
    with chain obtain i w1 where i: "who (hq_Header req ''Authorization'') w = (Inr i, w1)"
      "k w = ep_Run ep (Some i) (req\<lparr>hq_Params := ps\<rparr>) w1" and st: "http_status (fst (k w)) \<in> S \<union> {200, 201}"
      unfolding same k by auto
    have "lift_answer f k w = lift_answer f (ep_Run ep (Some i) (req\<lparr>hq_Params := ps\<rparr>)) w1" using i(2) by (rule lift)
    with f None i(1) st show ?thesis unfolding http_status_lift by (intro exI [of _ ep] exI [of _ ps]) auto
  next
    case (Some status)
    with chain f show ?thesis unfolding http_status_lift same k by (intro exI [of _ ep] exI [of _ ps]) simp
  qed
qed

lemma match_path_one: "match_path [Par n] ss = Some ps \<Longrightarrow> \<exists>i. ss = [i] \<and> ps = [(n, i)]"
  by (cases ss; cases "tl ss") (auto split: if_splits)

text \<open>Behind the limits of the webhooks a delivery answers 200 exactly when it was accepted.\<close>

lemma webhook_status:
  assumes "serve_open E req = Some a"
  shows "hq_Method req = ''GET'' \<and> hq_Path req \<in> {[''ping''], [''healthz'']} \<and> http_status (fst (a w)) = 200 \<or>
    (\<exists>i. hq_Method req = ''POST'' \<and> hq_Path req = [''webhooks'', i] \<and>
       (if hq_Spent req WebhookCalls then http_status (fst (a w)) = 429
        else if maxWebhookBytes < length (hq_Body req) then http_status (fst (a w)) = 413
        else (http_status (fst (a w)) = 200 \<longleftrightarrow>
                \<not> isl (fst (webhook_Handle E i (hq_Body req) (first_headers (hq_Headers req)) w))) \<and>
             http_status (fst (a w)) \<in> {200, 400, 500}))"
proof (cases "hq_Method req = ''GET'' \<and> hq_Path req \<in> {[''ping''], [''healthz'']}")
  case True
  with assms show ?thesis
    by (auto simp: serve_open_def Ping_def public_Health_def JSON_def http_status_def split: if_splits)
next
  case False
  with assms obtain ps where p: "match_path [Lit ''webhooks'', Par ''providerAccountID''] (hq_Path req) = Some ps"
    and post: "hq_Method req = ''POST''"
    and a: "a = guarded (limitBy WebhookCalls req)
       (guarded (bodyLimit maxWebhookBytes req) (ProviderWebhook E (req\<lparr>hq_Params := ps\<rparr>)))"
    by (auto simp: serve_open_def split: if_splits option.splits)
  obtain i where i: "hq_Path req = [''webhooks'', i]" "ps = [(''providerAccountID'', i)]"
    using p by (auto dest!: match_path_LitE match_path_one)
  obtain r w' where run: "webhook_Handle E i (hq_Body req) (first_headers (hq_Headers req)) w = (r, w')" by fastforce
  have "if hq_Spent req WebhookCalls then http_status (fst (a w)) = 429
        else if maxWebhookBytes < length (hq_Body req) then http_status (fst (a w)) = 413
        else (http_status (fst (a w)) = 200 \<longleftrightarrow> \<not> isl r) \<and> http_status (fst (a w)) \<in> {200, 400, 500}"
    using run by (cases r) (simp_all add: a i guarded_def limitBy_def bodyLimit_def ProviderWebhook_def respond_def param_def
        query_def JSON_def errorHandler_def http_status_def)
  with run i post show ?thesis by auto
qed

lemma bearer_routes:
  "find_route (mountAdmin H) req = Some (ep, ps) \<Longrightarrow> hq_Path req \<notin> set token_paths \<Longrightarrow> ep_Bearer ep"
  "find_route (mountPublic E A decode) req = Some (ep', ps') \<Longrightarrow>
     hq_Path req \<notin> {[''api'', ''v1'', ''token''], [''api'', ''v1'', ''token'', ''refresh'']} \<Longrightarrow> ep_Bearer ep'"
proof -
  have lit: "ep_Bearer e" if route: "find_route eps req = Some (e, qs)" and table: "ep_Bearer e \<or> ep_Path e \<in> map Lit ` T" and path: "hq_Path req \<notin> T"
    for e :: "('p, 'i, 'x) endpoint" and eps qs T
  proof (rule ccontr)
    assume "\<not> ep_Bearer e"
    then obtain p where "ep_Path e = map Lit p" "p \<in> T" using table by blast
    with find_route_SomeD [OF route] have "hq_Path req = p" by (intro match_path_Lit) simp
    with \<open>p \<in> T\<close> path show False by blast
  qed
  show "ep_Bearer ep" if f: "find_route (mountAdmin H) req = Some (ep, ps)" and p: "hq_Path req \<notin> set token_paths"
    by (rule lit [OF f _ p]) (use admin_bearer find_route_SomeD [OF f] in blast)
  show "ep_Bearer ep'" if f: "find_route (mountPublic E A decode) req = Some (ep', ps')"
    and p: "hq_Path req \<notin> {[''api'', ''v1'', ''token''], [''api'', ''v1'', ''token'', ''refresh'']}"
    by (rule lit [OF f _ p]) (use public_bearer find_route_SomeD [OF f] in blast)
qed

text \<open>C29: who answers. The token endpoints apart, the answer of a route is the one of the first guard that
  turns the request away, in the order limiter (429), bearer token (401), content type (415), permission or scope (403),
  and exactly when that guard does; when none does, it is the answer of the route's handler, run with the identity behind the
  token, which never answers with a status of a guard. A webhook meets its limiter (429) and its
  bound on the body (413), and is answered 200 exactly when it was accepted.\<close>

lemma response_statuses:
  assumes "serve_request H decode req = Some k"
    and "hq_Path req \<notin> set token_paths \<union> {[''api'', ''v1'', ''token''], [''api'', ''v1'', ''token'', ''refresh'']}"
  shows "(\<exists>ep ps. find_route (mountPublic (he_env H) (he_app_auth H) decode) req = Some (ep, ps) \<and>
      (case guard_verdict (WithAppBearer (he_app_auth H)) (\<lambda>i. GoStrings.fields (ac_Scopes (id_Credential i))) ep req w of
         Some status \<Rightarrow> http_status (fst (k w)) = status
       | None \<Rightarrow> (\<exists>i w1. WithAppBearer (he_app_auth H) (hq_Header req ''Authorization'') w = (Inr i, w1) \<and>
                    k w = lift_answer Public (ep_Run ep (Some i) (req\<lparr>hq_Params := ps\<rparr>)) w1) \<and>
                 http_status (fst (k w)) \<in> {200, 201, 400, 404, 500, 503})) \<or>
    (\<exists>ep ps. find_route (mountAdmin H) req = Some (ep, ps) \<and>
      (case guard_verdict (WithAdminBearer (he_auth H)) au_Permissions ep req w of
         Some status \<Rightarrow> http_status (fst (k w)) = status
       | None \<Rightarrow> (\<exists>user w1. WithAdminBearer (he_auth H) (hq_Header req ''Authorization'') w = (Inr user, w1) \<and>
                    k w = lift_answer Admin (ep_Run ep (Some user) (req\<lparr>hq_Params := ps\<rparr>)) w1) \<and>
                 http_status (fst (k w)) \<in> {200, 201, 400, 404, 500})) \<or>
    (hq_Method req = ''GET'' \<and> hq_Path req \<in> {[''ping''], [''healthz'']} \<and> http_status (fst (k w)) = 200) \<or>
    (\<exists>i. hq_Method req = ''POST'' \<and> hq_Path req = [''webhooks'', i] \<and>
       (if hq_Spent req WebhookCalls then http_status (fst (k w)) = 429
        else if maxWebhookBytes < length (hq_Body req) then http_status (fst (k w)) = 413
        else (http_status (fst (k w)) = 200 \<longleftrightarrow>
                \<not> isl (fst (webhook_Handle (he_env H) i (hq_Body req) (first_headers (hq_Headers req)) w))) \<and>
             http_status (fst (k w)) \<in> {200, 400, 500}))"
proof (cases "serve_open (he_env H) req")
  case (Some a)
  with assms(1) have k: "k = lift_answer Public a" by (simp add: serve_request_def)
  from webhook_status [OF Some, of w] show ?thesis unfolding k http_status_lift by blast
next
  case None
  show ?thesis
  proof (cases "serve_public (he_env H) (he_app_auth H) decode req")
    case (Some a)
    with None assms(1) have k: "k = lift_answer Public a" by (simp add: serve_request_def)
    have "\<exists>ep ps. find_route (mountPublic (he_env H) (he_app_auth H) decode) req = Some (ep, ps) \<and>
      (case guard_verdict (WithAppBearer (he_app_auth H)) (\<lambda>i. GoStrings.fields (ac_Scopes (id_Credential i))) ep req w of
         Some status \<Rightarrow> http_status (fst (k w)) = status
       | None \<Rightarrow> (\<exists>i w1. WithAppBearer (he_app_auth H) (hq_Header req ''Authorization'') w = (Inr i, w1) \<and>
                    k w = lift_answer Public (ep_Run ep (Some i) (req\<lparr>hq_Params := ps\<rparr>)) w1) \<and>
                 http_status (fst (k w)) \<in> {400, 404, 500, 503} \<union> {200, 201})"
      unfolding k
    proof (rule serve_verdict [OF Some [unfolded serve_public_def] refusals(2) needs_granted(2)])
      show "ep_Bearer ep" if "find_route (mountPublic (he_env H) (he_app_auth H) decode) req = Some (ep, ps)" for ep ps
        using bearer_routes(2) [OF that] assms(2) by blast
      show "answers {400, 404, 500, 503} (ep_Run ep (Some i) r)"
        if "ep \<in> set (mountPublic (he_env H) (he_app_auth H) decode)" "ep_Bearer ep" for ep i r
        using answers_public that by blast
    qed (rule refusal.sel)
    moreover have codes: "{400, 404, 500, 503} \<union> {200, 201 :: int} = {200, 201, 400, 404, 500, 503}" by auto
    ultimately show ?thesis unfolding codes by (intro disjI1)
  next
    case none: None
    with None assms(1) obtain a where a: "serve_admin H req = Some a" and k: "k = lift_answer Admin a"
      by (auto simp: serve_request_def)
    have "\<exists>ep ps. find_route (mountAdmin H) req = Some (ep, ps) \<and>
      (case guard_verdict (WithAdminBearer (he_auth H)) au_Permissions ep req w of
         Some status \<Rightarrow> http_status (fst (k w)) = status
       | None \<Rightarrow> (\<exists>user w1. WithAdminBearer (he_auth H) (hq_Header req ''Authorization'') w = (Inr user, w1) \<and>
                    k w = lift_answer Admin (ep_Run ep (Some user) (req\<lparr>hq_Params := ps\<rparr>)) w1) \<and>
                 http_status (fst (k w)) \<in> {400, 404, 500} \<union> {200, 201})"
      unfolding k
    proof (rule serve_verdict [OF a [unfolded serve_admin_def] refusals(1) needs_granted(1)])
      show "ep_Bearer ep" if "find_route (mountAdmin H) req = Some (ep, ps)" for ep ps
        using bearer_routes(1) [OF that] assms(2) by blast
      show "answers {400, 404, 500} (ep_Run ep (Some i) r)" if "ep \<in> set (mountAdmin H)" "ep_Bearer ep" for ep i r
        using answers_admin that by blast
    qed simp
    moreover have codes: "{400, 404, 500} \<union> {200, 201 :: int} = {200, 201, 400, 404, 500}" by auto
    ultimately show ?thesis unfolding codes by (intro disjI2 [OF disjI1])
  qed
qed

lemma lift_answer_InlD: "lift_answer f a w = (Inl r, w') \<Longrightarrow> a w = (Inl r, w')"
  by (cases "a w"; cases "fst (a w)") (auto simp: lift_answer_def)

lemma turned_away_open:
  assumes "serve_open E req = Some a" and "a w = (Inl r, w')" and "refusal_status r \<in> {401, 403, 413, 415, 429}"
  shows "reads w w'"
proof -
  have "answers {400, 500} (ProviderWebhook E q)" for q
    unfolding ProviderWebhook_def by (rule answers_respond) simp_all
  then have web: "refusal_status r \<in> {400, 500}" if "ProviderWebhook E q w = (Inl r, w')" for q
    using that unfolding answers_def by (metis fst_conv sum.case(1))
  have "ProviderWebhook E q w \<noteq> (Inl r, w')" for q
    using web [of q] assms(3) by auto
  with assms(1,2) show ?thesis
    by (auto simp: serve_open_def Ping_def public_Health_def JSON_def guarded_def reads.refl_R
        split: if_splits option.splits sum.splits)
qed

text \<open>C28: a request turned away changes nothing. On every route but the token endpoints, an answer with 401, 403,
  413, 415 or 429 has changed no table, no loaded runtime and nothing outside the engine; a token endpoint that
  answers 401 may have counted a failed login.\<close>

lemma turned_away_unchanged:
  assumes "serve_request H decode req = Some k" and "k w = (Inl r, w')"
    and "refusal_status r \<in> {401, 403, 413, 415, 429}"
    and "hq_Path req \<notin> set token_paths \<union> {[''api'', ''v1'', ''token''], [''api'', ''v1'', ''token'', ''refresh'']}"
  shows "reads w w'"
proof (cases "serve_open (he_env H) req")
  case (Some a)
  with assms(1,2) have "a w = (Inl r, w')" by (auto simp: serve_request_def dest: lift_answer_InlD)
  from turned_away_open [OF Some this assms(3)] show ?thesis .
next
  case None
  show ?thesis
  proof (cases "serve_public (he_env H) (he_app_auth H) decode req")
    case (Some a)
    with None assms(1,2) have "a w = (Inl r, w')" by (auto simp: serve_request_def dest: lift_answer_InlD)
    with Some assms(3,4) show ?thesis by (intro turned_away_public [OF Some]) auto
  next
    case none: None
    with None assms(1,2) obtain a where a: "serve_admin H req = Some a" "a w = (Inl r, w')"
      by (auto simp: serve_request_def dest: lift_answer_InlD)
    with assms(3,4) show ?thesis by (intro turned_away_admin [OF a]) auto
  qed
qed

section \<open>What an application's token reaches\<close>

lemma payment_Get_InrD:
  assumes "payment_Get appID f v w = (Inr tx, w')"
  shows "tx \<in> set (t_transactions (db w)) \<and> tx_AppID tx = appID"
proof -
  have no: "on_db (throwE NotFound) w \<noteq> (Inr tx, w')" by (simp add: on_db_def throwE_def)
  show ?thesis
    using assms no unfolding payment_Get_def Transactions_ForApp_def
    by (auto elim!: transactions.first_step dest!: find_Some_in_set split: if_splits)
qed

text \<open>Only a route that names its scope answers with a transaction or with a payment.\<close>

definition reads_own :: "AppIdentity \<Rightarrow> 'p world \<Rightarrow> AppTransaction \<Rightarrow> bool" where
  "reads_own i w t \<longleftrightarrow>
     (\<exists>tx\<in>set (t_transactions (db w)). tx_AppID tx = app_ID (id_App i) \<and> t = PublicTransaction tx)"

definition serves :: "'p env \<Rightarrow> string \<Rightarrow> AppIdentity \<Rightarrow> 'p world \<Rightarrow> public_payload \<Rightarrow> 'p world \<Rightarrow> bool" where
  "serves E scope i w x w' \<longleftrightarrow>
     (case x of
        Pub_Transaction t \<Rightarrow> scope = ''transactions:read'' \<and> reads_own i w t
      | Pub_Payment r \<Rightarrow>
          (\<exists>service key payment.
             (scope, service) \<in> {(''collections:create'', ServiceCollection), (''disbursements:create'', ServiceDisbursement)} \<and>
             payment_Create E (app_ID (id_App i)) service key payment w = (Inr r, w'))
      | _ \<Rightarrow> True)"

lemma respond_InrD:
  assumes "respond run no status payload w = (Inr (st, x), w')"
  obtains y where "run w = (Inr y, w')" and "x = payload y"
  using assms by (auto simp: respond_def JSON_def split: prod.splits sum.splits)

lemma public_get_serves:
  assumes "public_get f v (Some i) w = (Inr (st, x), w')"
  shows "serves E ''transactions:read'' i w x w'"
proof -
  from assms obtain tx where "payment_Get (app_ID (id_App i)) f v w = (Inr tx, w')" "x = Pub_Transaction (PublicTransaction tx)"
    unfolding public_get_def by (auto elim: respond_InrD)
  with payment_Get_InrD show ?thesis by (fastforce simp: serves_def reads_own_def)
qed

lemma public_create_serves:
  assumes "public_create E decode service (Some i) req w = (Inr (st, x), w')"
    and "(scope, service) \<in> {(''collections:create'', ServiceCollection), (''disbursements:create'', ServiceDisbursement)}"
  shows "serves E scope i w x w'"
proof (cases "DecodeJSON decode (hq_Body req)")
  case (Inl e)
  with assms(1) show ?thesis by (simp add: public_create_def validated_def refuse_def)
next
  case (Inr p)
  with assms(1) obtain r where "payment_Create E (app_ID (id_App i)) service (hq_Header req ''Idempotency-Key'') p w = (Inr r, w')"
      "x = Pub_Payment r"
    unfolding public_create_def by (auto simp: validated_def elim: respond_InrD)
  with assms(2) show ?thesis unfolding serves_def by (simp only: public_payload.case) blast
qed

lemma public_methods_serves: "ListPaymentMethods E (Some i) req w = (Inr (st, x), w') \<Longrightarrow> serves E scope i w x w'"
  unfolding ListPaymentMethods_def by (auto simp: serves_def elim: respond_InrD)

lemma public_table_serves:
  "\<forall>ep\<in>set (mountPublic E A decode). ep_Bearer ep \<longrightarrow>
     (\<forall>i req w st x w'. ep_Run ep (Some i) req w = (Inr (st, x), w') \<longrightarrow> serves E (ep_Needs ep) i w x w')"
  unfolding mountPublic_def Let_def list.set ball_simps
  by (simp add: CreateCollection_def CreateDisbursement_def GetTransaction_def GetTransactionByReference_def
      public_get_serves public_methods_serves) (blast intro: public_create_serves)

lemma Token_payload: "Token grant issue payload req w = (Inr (st, x), w') \<Longrightarrow> \<exists>t. x = payload t"
  by (auto simp: Token_def Let_def refuse_def elim: respond_InrD split: if_splits)

lemma public_table_tokens:
  "\<forall>ep\<in>set (mountPublic E A decode). \<not> ep_Bearer ep \<longrightarrow>
     (\<forall>i req w st x w'. ep_Run ep i req w = (Inr (st, x), w') \<longrightarrow> (\<exists>t. x = Pub_Token t))"
  unfolding mountPublic_def Let_def list.set ball_simps
  by (auto simp: ClientToken_def AppRefreshToken_def dest!: Token_payload)

lemma open_payload:
  "serve_open E req = Some a \<Longrightarrow> a w = (Inr (st, x), w') \<Longrightarrow> x = Pub_Done"
  by (auto simp: serve_open_def Ping_def public_Health_def JSON_def ProviderWebhook_def guarded_def elim: respond_InrD
      split: if_splits option.splits sum.splits)

lemma lift_answer_InrD:
  assumes "lift_answer f a w = (Inr (st, y), w')"
  shows "\<exists>x. y = f x \<and> a w = (Inr (st, x), w')"
  using assms by (cases "a w"; cases "fst (a w)") (auto simp: lift_answer_def)

text \<open>C26: an application reads and creates only its own. An answer with a transaction went through the scope
  \<open>transactions:read\<close> and holds a row of the application the token belongs to; an answer with a payment went
  through the create scope of its service and \<open>Create\<close> ran for that application.\<close>

lemma public_api_scoped:
  assumes "serve_request H decode req = Some k" and "k w = (Inr (status, Public x), w')"
    and "(\<exists>t. x = Pub_Transaction t) \<or> (\<exists>r. x = Pub_Payment r)"
  shows "\<exists>scope i w1. app_route (he_app_auth H) scope (hq_Header req ''Authorization'') w = (Inr i, w1) \<and>
    (case x of
       Pub_Transaction t \<Rightarrow> scope = ''transactions:read'' \<and>
         (\<exists>tx\<in>set (t_transactions (db w)). tx_AppID tx = app_ID (id_App i) \<and> t = PublicTransaction tx)
     | Pub_Payment r \<Rightarrow>
         (\<exists>service key payment.
            (scope, service) \<in> {(''collections:create'', ServiceCollection), (''disbursements:create'', ServiceDisbursement)} \<and>
            payment_Create (he_env H) (app_ID (id_App i)) service key payment w1 = (Inr r, w'))
     | _ \<Rightarrow> False)"
proof -
  have "serve_open (he_env H) req = None"
  proof (rule ccontr)
    assume "serve_open (he_env H) req \<noteq> None"
    then obtain a where a: "serve_open (he_env H) req = Some a" by blast
    with assms(1,2) have "a w = (Inr (status, x), w')"
      by (auto simp: serve_request_def dest: lift_answer_InrD)
    with a assms(3) open_payload show False by blast
  qed
  with assms(1,2) obtain a where a: "serve_public (he_env H) (he_app_auth H) decode req = Some a"
    and aw: "a w = (Inr (status, x), w')"
    by (auto simp: serve_request_def dest: lift_answer_InrD split: option.splits)
  from a obtain ep ps where f: "find_route (mountPublic (he_env H) (he_app_auth H) decode) req = Some (ep, ps)"
    and k: "a = run_chain (WithAppBearer (he_app_auth H)) RequireAppScope ep (req\<lparr>hq_Params := ps\<rparr>)"
    by (auto simp: serve_public_def serve_def split: option.splits)
  note ep = conjunct1 [OF find_route_SomeD [OF f]]
  have b: "ep_Bearer ep"
  proof (rule ccontr)
    assume n: "\<not> ep_Bearer ep"
    with aw have "ep_Run ep None (req\<lparr>hq_Params := ps\<rparr>) w = (Inr (status, x), w')"
      unfolding k by (auto simp: run_chain_def guarded_def split: sum.splits)
    with n ep public_table_tokens assms(3) show False by blast
  qed
  obtain i w1 where i: "WithAppBearer (he_app_auth H) (hq_Header req ''Authorization'') w = (Inr i, w1)"
    and n: "ep_Needs ep = [] \<or> RequireAppScope (ep_Needs ep) (Some i) = Inr ()"
    and run: "ep_Run ep (Some i) (req\<lparr>hq_Params := ps\<rparr>) w1 = (Inr (status, x), w')"
    using aw b unfolding k by (rule run_chain_InrE) simp
  from run b ep public_table_serves have s: "serves (he_env H) (ep_Needs ep) i w1 x w'" by blast
  then have "ep_Needs ep \<noteq> []" using assms(3) by (auto simp: serves_def split: if_splits)
  with i n have route: "app_route (he_app_auth H) (ep_Needs ep) (hq_Header req ''Authorization'') w = (Inr i, w1)"
    by (simp add: app_route_def)
  have same: "t_transactions (db w1) = t_transactions (db w)"
    using reads_bearer(2) [of w "he_app_auth H" "hq_Header req ''Authorization''"] i by (auto simp: reads_def)
  show ?thesis
    by (rule exI [of _ "ep_Needs ep"], rule exI [of _ i], rule exI [of _ w1])
      (use route s assms(3) same in \<open>cases x; simp add: serves_def reads_own_def\<close>)
qed

section \<open>A sample deployment\<close>

text \<open>Two administrators with a live session each, the second with \<open>providers:read\<close> only; the token
  of an administrator carries the id.\<close>

definition sample_keys :: auth_env where
  "sample_keys = sample_auth\<lparr>auth_parse := (\<lambda>t s. if has_prefix ''access:'' s then
     Inr \<lparr>jwt_sub = Some (drop 7 s), jwt_jti = Some (drop 7 s), jwt_iat = Some 0, jwt_exp = Some 0,
          jwt_private = [(''subject_type'', GStr ''admin''), (''token_type'', GStr ''access'')]\<rparr>
     else Inl (Msg ''malformed''))\<rparr>"

definition sample_admin_session :: "string \<Rightarrow> AdminSession" where
  "sample_admin_session i =
     \<lparr>as_ID = i, as_CreatedAt = 0, as_AdminUserID = i, as_TokenHash = i, as_RefreshTokenHash = [], as_IPAddress = [],
      as_UserAgent = [], as_ExpiresAt = 60 * minute, as_RevokedAt = None\<rparr>"

definition sample_office :: "unit world" where
  "sample_office = sample_world\<lparr>db := sample_db\<lparr>
     t_adminUsers := [sample_admin, sample_admin\<lparr>au_ID := ''adm_2'', au_Role := ''read_only''\<rparr>],
     t_adminSessions := [sample_admin_session ''adm_1'', sample_admin_session ''adm_2''],
     t_roles := [\<lparr>role_ID = ''role_1'', role_Name = ''super_admin'', role_Description = [], role_System = True, role_Permissions = []\<rparr>,
                 \<lparr>role_ID = ''role_2'', role_Name = ''read_only'', role_Description = [], role_System = True, role_Permissions = []\<rparr>],
     t_permissions := [\<lparr>perm_ID = ''p1'', perm_Code = PermissionWildcard, perm_Audience = AudienceAdmin, perm_Description = []\<rparr>,
                       \<lparr>perm_ID = ''p2'', perm_Code = ''providers:read'', perm_Audience = AudienceAdmin, perm_Description = []\<rparr>],
     t_rolePermissions := [(''role_1'', ''p1''), (''role_2'', ''p2'')]\<rparr>\<rparr>"

definition no_body :: "'r decoder" where "no_body s = Inl (Msg ''malformed'')"

definition no_json :: json_decoders where
  "no_json =
     (\<lparr>dj_CreateAdmin = no_body, dj_ChangePassword = \<lambda>s. Inr (\<lparr>cpw_Password = s\<rparr>, []), dj_Status = no_body, dj_ChangeRole = no_body,
       dj_Role = no_body, dj_App = no_body, dj_CreateCredential = no_body, dj_CreateProvider = no_body, dj_ProviderSettings = no_body,
       dj_ProviderConfig = no_body, dj_CreateRoute = no_body, dj_UpdateRoute = no_body\<rparr>)"

definition sample_http :: "auth_env \<Rightarrow> unit http_env" where
  "sample_http A =
     \<lparr>he_env = sample_env, he_auth = A, he_app_auth = A, he_json = no_json, he_is_email = \<lambda>s. True,
      he_parse_time = \<lambda>s. Inl (Msg ''malformed''), he_bucket = \<lambda>d t. [], he_db_order = \<lambda>xs. xs, he_ranged = \<lambda>xs. xs,
      he_dialect = ''sqlite'',
      he_system = \<lparr>sys_AppName = ''momobase'', sys_AppEnv = ''dev'', sys_DBType = ''sqlite'', sys_Addr = '':8080'',
                   sys_WorkersEnabled = True, sys_WorkerNames = []\<rparr>,
      he_go_version = ''go''\<rparr>"

definition sample_http_call :: "string \<Rightarrow> string list \<Rightarrow> string \<Rightarrow> string \<Rightarrow> request" where
  "sample_http_call verb path bearer body =
     \<lparr>hq_Method = verb, hq_Path = path, hq_Params = [],
      hq_Header = \<lambda>h. if h = ''Authorization'' then ''Bearer '' @ bearer
                      else if h = ''Content-Type'' then ''application/json'' else [],
      hq_Headers = [], hq_Query = [], hq_Form = \<lambda>f. [], hq_Body = body, hq_IP = [], hq_Spent = \<lambda>l. False\<rparr>"

definition sample_registry_call :: request where
  "sample_registry_call = sample_http_call ''GET'' [''api'', ''admin'', ''providers'', ''registry''] ''access:adm_2'' []"

definition sample_registry_run :: "admin_payload response \<times> unit world" where
  "sample_registry_run =
     (case serve_admin (sample_http sample_keys) sample_registry_call of
        None \<Rightarrow> (Inl (Refusal 404 [] []), sample_office) | Some k \<Rightarrow> k sample_office)"

text \<open>A handler found by its path answers with some pair.\<close>

lemma case_option_run:
  assumes "r = (case s of None \<Rightarrow> d | Some k \<Rightarrow> k w)" and "s \<noteq> None"
  shows "\<exists>k. s = Some k \<and> k w = r"
  using assms by auto

lemma sample_registry_answer:
  "serve_admin (sample_http sample_keys) sample_registry_call \<noteq> None" "\<not> isl (fst sample_registry_run)"
  by code_simp+

lemma sample_registry_served:
  obtains k x w' where "serve_admin (sample_http sample_keys) sample_registry_call = Some k"
    and "k sample_office = (Inr x, w')"
proof -
  obtain k where k: "serve_admin (sample_http sample_keys) sample_registry_call = Some k" "k sample_office = sample_registry_run"
    using case_option_run [OF sample_registry_run_def sample_registry_answer(1)] by blast
  moreover obtain x where "fst sample_registry_run = Inr x"
    using sample_registry_answer(2) by (cases "fst sample_registry_run") auto
  ultimately show ?thesis using that by (metis prod.collapse)
qed

lemma sample_http_call_simps:
  "hq_Method (sample_http_call verb path bearer body) = verb" "hq_Path (sample_http_call verb path bearer body) = path"
  "hq_Body (sample_http_call verb path bearer body) = body" "hq_Spent (sample_http_call verb path bearer body) l = False"
  "hq_Header (sample_http_call verb path bearer body) ''Authorization'' = ''Bearer '' @ bearer"
  "hq_Header (sample_http_call verb path bearer body) ''Content-Type'' = ''application/json''"
  by (simp_all add: sample_http_call_def)

lemma sample_http_simps:
  "he_auth (sample_http A) = A" "he_app_auth (sample_http A) = A" "he_env (sample_http A) = sample_env" "he_json (sample_http A) = no_json"
  by (simp_all add: sample_http_def)

lemma admin_api_guarded_witness:
  "\<exists>user. admin_behind sample_keys sample_office ''Bearer access:adm_2'' user"
proof -
  obtain k x w' where k: "serve_admin (sample_http sample_keys) sample_registry_call = Some k" "k sample_office = (Inr x, w')"
    by (rule sample_registry_served)
  have "hq_Path sample_registry_call \<notin> set token_paths" "auth_authz (he_auth (sample_http sample_keys))"
    by (simp_all add: sample_registry_call_def sample_http_call_simps token_paths_def sample_http_simps sample_keys_def sample_auth_def)
  from admin_api_guarded [OF k this] show ?thesis
    by (auto simp: sample_registry_call_def sample_http_call_simps sample_http_simps)
qed

definition sample_bearer_run :: "(refusal + AdminUser) \<times> unit world" where
  "sample_bearer_run = WithAdminBearer sample_keys ''Bearer access:adm_2'' sample_office"

lemma password_reset_unguarded_witness:
  "\<exists>k w'. serve_admin (sample_http sample_keys)
      (sample_http_call ''PATCH'' [''api'', ''admin'', ''users'', ''adm_1'', ''password''] ''access:adm_2'' ''password1'') = Some k \<and>
    k sample_office = (Inr (200, Adm_Done True), w') \<and>
    (\<forall>v\<in>set (t_adminUsers (db w')). au_ID v = ''adm_1'' \<longrightarrow> au_PasswordHash v = ''password1'')"
proof -
  have "\<not> isl (fst sample_bearer_run)" by code_simp
  then obtain user where u: "fst sample_bearer_run = Inr user" by (cases "fst sample_bearer_run") auto
  then have b: "WithAdminBearer sample_keys ''Bearer access:adm_2'' sample_office = (Inr user, snd sample_bearer_run)"
    unfolding sample_bearer_run_def by (metis prod.collapse)
  have "faults (db sample_office) = []" by (simp add: sample_office_def sample_world_def sample_db_def empty_db_def)
  then have w: "snd sample_bearer_run = sample_office"
    using reads_bearer(1) [of sample_office sample_keys "''Bearer access:adm_2''"] b by (simp add: reads_def)
  have d: "DecodeJSON (dj_ChangePassword no_json) ''password1'' = Inr \<lparr>cpw_Password = ''password1''\<rparr>"
    "8 \<le> rune_count ''password1''" "JSONOnly ''application/json'' = Inr ()" by code_simp+
  show ?thesis
    by (rule password_reset_unguarded [where H = "sample_http sample_keys" and w = sample_office and user = user
          and ?w1.0 = sample_office and u = sample_admin])
      (use b w d in \<open>simp_all add: sample_http_call_simps sample_http_simps\<close>,
       simp_all add: sample_office_def sample_world_def sample_db_def empty_db_def sample_admin_def sample_keys_def sample_auth_def)
qed

lemma sample_registry_request:
  obtains k where "serve_request (sample_http sample_keys) no_body sample_registry_call = Some k"
proof -
  have "serve_request (sample_http sample_keys) no_body sample_registry_call \<noteq> None"
    using sample_registry_answer(1) by (auto simp: serve_request_def split: option.split)
  with that show ?thesis by blast
qed

lemma get_requests_read_witness:
  "\<exists>k. serve_request (sample_http sample_keys) no_body sample_registry_call = Some k \<and>
       reads sample_office (snd (k sample_office))"
proof -
  obtain k where k: "serve_request (sample_http sample_keys) no_body sample_registry_call = Some k"
    by (rule sample_registry_request)
  have "hq_Method sample_registry_call = ''GET''" "\<not> balance_request sample_registry_call"
    by (simp_all add: sample_registry_call_def sample_http_call_simps balance_request_def)
  from get_requests_read [OF k this] k show ?thesis by blast
qed

text \<open>The second administrator asks for the users, without \<open>users:read\<close>.\<close>

definition sample_users_call :: request where
  "sample_users_call = sample_http_call ''GET'' [''api'', ''admin'', ''users''] ''access:adm_2'' []"

definition sample_users_run :: "payload response \<times> unit world" where
  "sample_users_run =
     (case serve_request (sample_http sample_keys) no_body sample_users_call of
        None \<Rightarrow> (Inl (Refusal 404 [] []), sample_office) | Some k \<Rightarrow> k sample_office)"

lemma turned_away_unchanged_witness:
  "fst sample_users_run = Inl (Refusal 403 ''FORBIDDEN'' ''permission denied: users:read'') \<and>
   reads sample_office (snd sample_users_run)"
proof -
  have r: "fst sample_users_run = Inl (Refusal 403 ''FORBIDDEN'' ''permission denied: users:read'')" by code_simp
  have "serve_request (sample_http sample_keys) no_body sample_users_call \<noteq> None" by code_simp
  then obtain k where k: "serve_request (sample_http sample_keys) no_body sample_users_call = Some k"
      "k sample_office = sample_users_run"
    using case_option_run [OF sample_users_run_def] by blast
  with r have run: "k sample_office = (Inl (Refusal 403 ''FORBIDDEN'' ''permission denied: users:read''), snd sample_users_run)"
    by (metis prod.collapse)
  have "reads sample_office (snd sample_users_run)"
    by (rule turned_away_unchanged [OF k(1) run])
      (simp_all add: sample_users_call_def sample_http_call_simps token_paths_def)
  with r show ?thesis by blast
qed

lemma response_statuses_witness:
  "\<exists>ep ps. find_route (mountAdmin (sample_http sample_keys)) sample_users_call = Some (ep, ps) \<and>
     guard_verdict (WithAdminBearer sample_keys) au_Permissions ep sample_users_call sample_office = Some 403 \<and>
     http_status (fst sample_users_run) = 403"
proof -
  have "fst sample_users_run = Inl (Refusal 403 ''FORBIDDEN'' ''permission denied: users:read'')" by code_simp
  then have st: "http_status (fst sample_users_run) = 403" by (simp add: http_status_def)
  have "serve_request (sample_http sample_keys) no_body sample_users_call \<noteq> None" by code_simp
  then obtain k where k: "serve_request (sample_http sample_keys) no_body sample_users_call = Some k"
      "k sample_office = sample_users_run"
    using case_option_run [OF sample_users_run_def] by blast
  have p: "hq_Path sample_users_call = [''api'', ''admin'', ''users'']"
    by (simp add: sample_users_call_def sample_http_call_simps)
  then have "hq_Path sample_users_call \<notin> set token_paths \<union> {[''api'', ''v1'', ''token''], [''api'', ''v1'', ''token'', ''refresh'']}"
    by (simp add: token_paths_def)
  note cases = response_statuses [OF k(1) this, of sample_office, unfolded k(2) p st sample_http_simps]
  have "find_route (mountPublic sample_env sample_keys no_body) sample_users_call = None"
    by (simp add: mountPublic_def Let_def p)
  with cases st show ?thesis by (auto split: option.splits)
qed

definition sample_transaction_call :: request where
  "sample_transaction_call = sample_http_call ''GET'' [''api'', ''v1'', ''transactions'', ''txn_0''] ''access:tok_a'' []"

definition sample_shop :: "unit world" where
  "sample_shop = sample_identity\<lparr>db := (db sample_identity)\<lparr>t_transactions := [sample_tx]\<rparr>\<rparr>"

definition sample_transaction_run :: "payload response \<times> unit world" where
  "sample_transaction_run =
     (case serve_request (sample_http sample_auth) no_body sample_transaction_call of
        None \<Rightarrow> (Inl (Refusal 404 [] []), sample_shop) | Some k \<Rightarrow> k sample_shop)"

lemma public_api_scoped_witness:
  "\<exists>i w1. app_route sample_auth ''transactions:read'' ''Bearer access:tok_a'' sample_shop = (Inr i, w1) \<and>
     tx_AppID sample_tx = app_ID (id_App i)"
proof -
  let ?x = "Pub_Transaction (PublicTransaction sample_tx)"
  have r: "fst sample_transaction_run = Inr (200, Public ?x)" by code_simp
  have "serve_request (sample_http sample_auth) no_body sample_transaction_call \<noteq> None" by code_simp
  then obtain k where k: "serve_request (sample_http sample_auth) no_body sample_transaction_call = Some k"
      "k sample_shop = sample_transaction_run"
    using case_option_run [OF sample_transaction_run_def] by blast
  with r have run: "k sample_shop = (Inr (200, Public ?x), snd sample_transaction_run)" by (metis prod.collapse)
  have t: "set (t_transactions (db sample_shop)) = {sample_tx}" by (simp add: sample_shop_def)
  from public_api_scoped [OF k(1) run] t show ?thesis
    by (auto simp: sample_transaction_call_def sample_http_call_simps sample_http_simps)
qed

end
