(* ===== verification/Dummy.thy ===== *)
theory Dummy
  imports Executor Amount
begin

text \<open>
  \<open>providers/dummy/provider.go\<close>: the simulated provider, with its ledger of payments.

  The state outside the engine is the list of the provider instances built so far; an adapter
  is the operations on the instance with its number. \<open>dummy_env\<close> gathers what the provider
  calls: HMAC-SHA256 in hexadecimal, the JSON decoding of a webhook body, and when the
  caller's context ends while a timer runs.
\<close>

definition SignatureHeader :: string where "SignatureHeader = ''X-Momobase-Signature''"

definition OutcomeSucceed :: string where "OutcomeSucceed = ''succeed''"
definition OutcomeFail :: string where "OutcomeFail = ''fail''"
definition OutcomePending :: string where "OutcomePending = ''pending''"
definition OutcomeUnknown :: string where "OutcomeUnknown = ''unknown''"
definition OutcomeError :: string where "OutcomeError = ''error''"

lemmas outcome_defs = OutcomeSucceed_def OutcomeFail_def OutcomePending_def OutcomeUnknown_def OutcomeError_def

definition defaultCurrency :: string where "defaultCurrency = ''UGX''"
definition defaultBalance :: i64 where "defaultBalance = 1000000"

record Config =
  dc_Outcome :: string
  dc_SettleAfter :: i64
  dc_LatencyMs :: i64
  dc_FailInit :: bool
  dc_FailHealth :: bool
  dc_Services :: "string list"
  dc_Currency :: string
  dc_Balance :: i64
  dc_WebhookSecret :: string

definition no_config :: Config where
  "no_config =
     \<lparr>dc_Outcome = [], dc_SettleAfter = 0, dc_LatencyMs = 0, dc_FailInit = False, dc_FailHealth = False,
      dc_Services = [], dc_Currency = [], dc_Balance = 0, dc_WebhookSecret = []\<rparr>"

text \<open>\<open>record\<close>: one simulated payment.\<close>

record entry =
  en_service :: string
  en_amount :: i64
  en_currency :: string
  en_status :: string
  en_final :: string
  en_remaining :: i64
  en_applied :: bool

record Provider =
  dp_cfg :: Config
  dp_balance :: i64
  dp_records :: "(string \<times> entry) list"

record webhookPayload =
  wp_Reference :: string
  wp_Status :: string
  wp_EventType :: string
  wp_Amount :: string
  wp_Currency :: string
  wp_Country :: string
  wp_ExternalReference :: string
  wp_Account :: string

record dummy_env =
  du_mac :: "string \<Rightarrow> string \<Rightarrow> string"
  du_json :: "string \<Rightarrow> webhookPayload option"
  du_ends :: "time \<Rightarrow> time \<Rightarrow> time option"

definition Reference :: "string \<Rightarrow> string" where
  "Reference transactionID = ''dummy_'' @ transactionID"

definition Sign :: "dummy_env \<Rightarrow> string \<Rightarrow> string \<Rightarrow> string" where
  "Sign D credential payload = du_mac D credential payload"

section \<open>Configuration\<close>

definition parseServices :: "string \<Rightarrow> string list" where
  "parseServices raw =
     (if trim_space raw = [] then [ServiceCollection, ServiceDisbursement]
      else filter (\<lambda>v. v \<noteq> []) (map (\<lambda>v. to_lower (trim_space v)) (split_on (CHR '','') raw)))"

definition supported_service :: "string \<Rightarrow> bool" where
  "supported_service s \<longleftrightarrow> s = ServiceCollection \<or> s = ServiceDisbursement"

definition read_config :: "gmap \<Rightarrow> Config" where
  "read_config raw =
     \<lparr>dc_Outcome = to_lower (First [StringAt raw ''outcome'', OutcomeSucceed]),
      dc_SettleAfter = IntAt raw ''settle_after'', dc_LatencyMs = IntAt raw ''latency_ms'',
      dc_FailInit = BoolAt raw ''fail_init'', dc_FailHealth = BoolAt raw ''fail_health'',
      dc_Services = parseServices (StringAt raw ''services''),
      dc_Currency = to_upper (First [StringAt raw ''currency'', defaultCurrency]),
      dc_Balance = (if StringAt raw ''balance'' \<noteq> [] then IntAt raw ''balance'' else defaultBalance),
      dc_WebhookSecret = StringAt raw ''webhook_secret''\<rparr>"

definition check_config :: "Config \<Rightarrow> err + Config" where
  "check_config cfg =
     (if dc_WebhookSecret cfg = [] then Inl (Msg ''dummy: a webhook signing credential is required'')
      else if dc_Outcome cfg \<notin> set [OutcomeSucceed, OutcomeFail, OutcomePending, OutcomeUnknown, OutcomeError]
      then Inl (Msg (''dummy: unsupported outcome '' @ quoted (dc_Outcome cfg)))
      else if sint (dc_SettleAfter cfg) < 0 \<or> sint (dc_LatencyMs cfg) < 0
      then Inl (Msg ''dummy: settle_after and latency_ms must not be negative'')
      else if dc_Services cfg = [] then Inl (Msg ''dummy: at least one service is required'')
      else case List.find (\<lambda>s. \<not> supported_service s) (dc_Services cfg) of
             Some s \<Rightarrow> Inl (Msg (''dummy: unsupported service '' @ quoted s))
           | None \<Rightarrow> Inr cfg)"

definition dummy_parseConfig :: "gmap \<Rightarrow> err + Config" where
  "dummy_parseConfig raw = check_config (read_config raw)"

section \<open>The ledger\<close>

definition settled :: "string \<Rightarrow> string" where
  "settled outcome =
     (if outcome = OutcomeFail then TxFailed
      else if outcome = OutcomePending then TxPending
      else if outcome = OutcomeUnknown then TxUnknown
      else TxSucceeded)"

text \<open>\<open>apply\<close>: the balance follows an entry when it first succeeds.\<close>

definition book :: "entry \<Rightarrow> i64 \<Rightarrow> i64" where
  "book e balance =
     (if en_service e = ServiceDisbursement
      then (let b = balance - en_amount e in if sint b < 0 then 0 else b)
      else balance + en_amount e)"

definition dummy_apply :: "entry \<Rightarrow> i64 \<Rightarrow> entry \<times> i64" where
  "dummy_apply e balance =
     (if en_applied e \<or> en_status e \<noteq> TxSucceeded then (e, balance)
      else (e\<lparr>en_applied := True\<rparr>, book e balance))"

definition put_entry :: "string \<Rightarrow> entry \<Rightarrow> Provider \<Rightarrow> Provider" where
  "put_entry ref e p =
     (case dummy_apply e (dp_balance p) of
        (e', b) \<Rightarrow> p\<lparr>dp_records := (ref, e') # filter (\<lambda>(k, _). k \<noteq> ref) (dp_records p), dp_balance := b\<rparr>)"

type_synonym 'a locked = "Provider \<Rightarrow> (err + 'a) \<times> Provider"

definition simulated_raw :: "string \<Rightarrow> string \<Rightarrow> gmap" where
  "simulated_raw ref status = [(''simulated'', GBool True), (''reference'', GStr ref), (''status'', GStr status)]"

definition pay_locked :: "string \<Rightarrow> PaymentRequest \<Rightarrow> ProviderPaymentResponse option locked" where
  "pay_locked service req p =
     (let cfg = dp_cfg p in
      if dc_WebhookSecret cfg = [] then (Inl (Msg ''dummy: provider is not initialized''), p)
      else if service \<notin> set (dc_Services cfg)
      then (Inl (Msg (''dummy: '' @ service @ '' is not enabled for this account'')), p)
      else if dc_Outcome cfg = OutcomeError
      then (Inl (Msg ''dummy: upstream rejected the request by configuration''), p)
      else
        let ref = Reference (rq_TransactionID req);
            e = \<lparr>en_service = service, en_amount = rq_Amount req,
                 en_currency = First [rq_Currency req, dc_Currency cfg],
                 en_status = (if 0 < sint (dc_SettleAfter cfg) then TxProcessing else settled (dc_Outcome cfg)),
                 en_final = settled (dc_Outcome cfg), en_remaining = dc_SettleAfter cfg, en_applied = False\<rparr>
        in (Inr (Some \<lparr>rs_ProviderReference = ref, rs_Status = en_status e,
                       rs_Message = ''simulated: '' @ en_status e, rs_Raw = simulated_raw ref (en_status e)\<rparr>),
            put_entry ref e p))"

definition query_locked :: "string \<Rightarrow> ProviderTransactionStatus locked" where
  "query_locked ref p =
     (case map_of (dp_records p) ref of
        None \<Rightarrow> (Inl (Msg (''dummy: no simulated payment for reference '' @ quoted ref)), p)
      | Some e \<Rightarrow>
          let e1 = (if 0 < sint (en_remaining e) then
                      (let e2 = e\<lparr>en_remaining := en_remaining e - 1\<rparr>
                       in if en_remaining e2 = 0 then e2\<lparr>en_status := en_final e\<rparr> else e2)
                    else e);
              p1 = (if 0 < sint (en_remaining e) then
                      (if en_remaining e1 = 0 then put_entry ref e1 p
                       else p\<lparr>dp_records := (ref, e1) # filter (\<lambda>(k, _). k \<noteq> ref) (dp_records p)\<rparr>)
                    else p)
          in (Inr \<lparr>ts_ProviderReference = ref, ts_Status = en_status e1,
                   ts_Message = ''simulated: '' @ en_status e1\<rparr>, p1))"

definition balance_locked :: "ProviderBalance locked" where
  "balance_locked p =
     (if dc_WebhookSecret (dp_cfg p) = [] then (Inl (Msg ''dummy: provider is not initialized''), p)
      else (Inr \<lparr>bal_Currency = dc_Currency (dp_cfg p), bal_Available = dp_balance p, bal_Ledger = dp_balance p\<rparr>, p))"

definition settleFromWebhook :: "string \<Rightarrow> string \<Rightarrow> Provider \<Rightarrow> Provider" where
  "settleFromWebhook ref status p =
     (case map_of (dp_records p) ref of
        None \<Rightarrow> p
      | Some e \<Rightarrow> put_entry ref (e\<lparr>en_status := status, en_remaining := 0\<rparr>) p)"

definition currency_of :: "string \<Rightarrow> Provider \<Rightarrow> string" where
  "currency_of ref p =
     (case map_of (dp_records p) ref of Some e \<Rightarrow> en_currency e | None \<Rightarrow> dc_Currency (dp_cfg p))"

text \<open>A header is looked up as it is named, then ignoring case.\<close>

definition dummy_header :: "(string \<times> string) list \<Rightarrow> string \<Rightarrow> string" where
  "dummy_header headers name =
     (case map_of headers name of
        Some v \<Rightarrow> v
      | None \<Rightarrow> (case List.find (\<lambda>(k, _). equal_fold k name) headers of Some (_, v) \<Rightarrow> v | None \<Rightarrow> []))"

definition webhook_locked ::
    "dummy_env \<Rightarrow> string \<Rightarrow> (string \<times> string) list \<Rightarrow> ProviderWebhookEvent locked" where
  "webhook_locked D payload headers p =
     (let credential = dc_WebhookSecret (dp_cfg p) in
      if credential = [] then (Inl (Msg ''dummy: provider is not initialized''), p)
      else if dummy_header headers SignatureHeader \<noteq> Sign D credential payload
      then (Inl (Msg ''dummy: webhook signature mismatch''), p)
      else case du_json D payload of
        None \<Rightarrow> (Inl (Msg ''dummy: webhook payload is not valid JSON''), p)
      | Some body \<Rightarrow>
          if trim_space (wp_Reference body) = []
          then (Inl (Msg ''dummy: webhook payload has no reference''), p)
          else
            let status = PaymentStatus (wp_Status body);
                currency = to_upper (First [wp_Currency body, currency_of (wp_Reference body) p])
            in case OptionalAmount (wp_Amount body) currency of
                 Inl _ \<Rightarrow> (Inl (Msg ''dummy: webhook payload has an unreadable amount''), p)
               | Inr amount \<Rightarrow>
                   (Inr \<lparr>ev_ProviderReference = wp_Reference body, ev_Status = status,
                         ev_EventType = First [wp_EventType body, ''payment.updated''],
                         ev_ExternalReference = wp_ExternalReference body, ev_Amount = amount,
                         ev_Currency = wp_Currency body, ev_Country = wp_Country body,
                         ev_Account = trim_space (wp_Account body),
                         ev_Raw = simulated_raw (wp_Reference body) status\<rparr>,
                    settleFromWebhook (wp_Reference body) status p))"

section \<open>The adapter\<close>

type_synonym dummies = "Provider list"

text \<open>A body that holds the provider's lock is one step on its instance.\<close>

definition locked :: "nat \<Rightarrow> 'a locked \<Rightarrow> (dummies, 'a) call" where
  "locked n body o_w =
     (case body (prov o_w ! n) of (r, p) \<Rightarrow> (r, o_w\<lparr>prov := (prov o_w)[n := p]\<rparr>))"

definition dummy_wait :: "dummy_env \<Rightarrow> nat \<Rightarrow> (dummies, unit) call" where
  "dummy_wait D n o_w =
     (let delay = sint (dc_LatencyMs (dp_cfg (prov o_w ! n)) * 1000000) in
      if gone o_w then (Inl CtxErr, o_w)
      else if delay \<le> 0 then (Inr (), o_w)
      else case du_ends D (clock o_w) (clock o_w + delay) of
             Some t \<Rightarrow> (Inl CtxErr, o_w\<lparr>clock := t, gone := True\<rparr>)
           | None \<Rightarrow> (Inr (), o_w\<lparr>clock := clock o_w + delay\<rparr>))"

definition dummy_Capabilities :: "nat \<Rightarrow> dummies outside \<Rightarrow> Capability list" where
  "dummy_Capabilities n o_w =
     concat (map (\<lambda>service. map (\<lambda>m. \<lparr>ca_ServiceType = service, ca_PaymentMethod = m\<rparr>) PaymentMethods)
       (dc_Services (dp_cfg (prov o_w ! n))))"

definition init_locked :: "gmap \<Rightarrow> unit locked" where
  "init_locked raw p =
     (case dummy_parseConfig raw of
        Inl e \<Rightarrow> (Inl e, p)
      | Inr cfg \<Rightarrow>
          if dc_FailInit cfg then (Inl (Msg ''dummy: initialization failed by configuration''), p)
          else (Inr (), \<lparr>dp_cfg = cfg, dp_balance = dc_Balance cfg, dp_records = []\<rparr>))"

definition health_locked :: "unit locked" where
  "health_locked p =
     (if dc_WebhookSecret (dp_cfg p) = [] then (Inl (Msg ''dummy: provider is not initialized''), p)
      else if dc_FailHealth (dp_cfg p) then (Inl (Msg ''dummy: upstream is unavailable by configuration''), p)
      else (Inr (), p))"

definition waited :: "dummy_env \<Rightarrow> nat \<Rightarrow> 'a locked \<Rightarrow> (dummies, 'a) call" where
  "waited D n body = bindE (dummy_wait D n) (\<lambda>_. locked n body)"

definition dummy_adapter :: "dummy_env \<Rightarrow> nat \<Rightarrow> dummies adapter" where
  "dummy_adapter D n =
     \<lparr>ad_Capabilities = dummy_Capabilities n,
      ad_Init = (\<lambda>raw. locked n (init_locked raw)),
      ad_HealthCheck = Some (waited D n health_locked),
      ad_Collect = Some (\<lambda>req. waited D n (pay_locked ServiceCollection req)),
      ad_Disburse = Some (\<lambda>req. waited D n (pay_locked ServiceDisbursement req)),
      ad_QueryTransaction = Some (\<lambda>ref _. waited D n (query_locked ref)),
      ad_QueryBalance = Some (\<lambda>_. waited D n balance_locked),
      ad_VerifyWebhook = Some (\<lambda>payload headers. locked n (webhook_locked D payload headers)),
      ad_ValidateRequest = None\<rparr>"

definition fresh_dummy :: Provider where
  "fresh_dummy = \<lparr>dp_cfg = no_config, dp_balance = 0, dp_records = []\<rparr>"

definition dummy_New :: "dummy_env \<Rightarrow> dummies factory" where
  "dummy_New D o_w = (Some (dummy_adapter D (length (prov o_w))), o_w\<lparr>prov := prov o_w @ [fresh_dummy]\<rparr>)"

end
