(* ===== verification/DummyFacts.thy ===== *)
theory DummyFacts
  imports Dummy
begin

text \<open>
  The simulated provider: its balance moves once per payment that succeeds, a payment reaches
  the configured outcome after the configured number of queries, a webhook counts only with
  its signature, and which configurations the runtime manager loads.
\<close>

section \<open>Entries\<close>

abbreviation entry_of :: "Provider \<Rightarrow> string \<Rightarrow> entry option" where
  "entry_of p ref \<equiv> map_of (dp_records p) ref"

definition applied :: "Provider \<Rightarrow> string \<Rightarrow> bool" where
  "applied p ref \<longleftrightarrow> (\<exists>e. entry_of p ref = Some e \<and> en_applied e)"

lemma map_of_replace: "map_of ((k, v) # filter (\<lambda>(j, _). j \<noteq> k) xs) = (map_of xs)(k \<mapsto> v)"
proof
  fix i
  have "map_of (filter (\<lambda>(j, _). j \<noteq> k) xs) i = map_of xs i" if "i \<noteq> k"
    using that by (induction xs) auto
  then show "map_of ((k, v) # filter (\<lambda>(j, _). j \<noteq> k) xs) i = ((map_of xs)(k \<mapsto> v)) i" by simp
qed

lemma put_entry_records: "entry_of (put_entry ref e p) = (entry_of p)(ref \<mapsto> fst (dummy_apply e (dp_balance p)))"
  by (cases "dummy_apply e (dp_balance p)") (simp add: put_entry_def map_of_replace fun_upd_def del: map_of.simps)

lemma put_entry_balance: "dp_balance (put_entry ref e p) = snd (dummy_apply e (dp_balance p))"
  by (simp add: put_entry_def split_beta)

lemma put_entry_cfg [simp]: "dp_cfg (put_entry ref e p) = dp_cfg p"
  by (simp add: put_entry_def split_beta)

lemma dummy_apply_simps:
  "en_applied e \<or> en_status e \<noteq> TxSucceeded \<Longrightarrow> dummy_apply e b = (e, b)"
  "\<not> en_applied e \<Longrightarrow> en_status e = TxSucceeded \<Longrightarrow> dummy_apply e b = (e\<lparr>en_applied := True\<rparr>, book e b)"
  by (auto simp: dummy_apply_def)

lemma book_fields:
  "book (e\<lparr>en_applied := a\<rparr>) b = book e b" "book (e\<lparr>en_status := s\<rparr>) b = book e b" "book (e\<lparr>en_remaining := n\<rparr>) b = book e b"
  by (simp_all add: book_def)

section \<open>The balance\<close>

text \<open>What the provider has told its caller: that it took a payment, with the status it answered, and
  the statuses its queries and accepted webhooks reported.\<close>

datatype dummy_report =
    Paid (reported_ref: string) (paid_service: string) (paid_amount: i64) (reported_status: string)
  | Reported (reported_ref: string) (reported_status: string)

definition paid_report :: "string \<Rightarrow> PaymentRequest \<Rightarrow> err + ProviderPaymentResponse option \<Rightarrow> dummy_report list" where
  "paid_report service req answer =
     (case answer of Inr (Some r) \<Rightarrow> [Paid (rs_ProviderReference r) service (rq_Amount req) (rs_Status r)] | _ \<Rightarrow> [])"

text \<open>The operations that read or move the ledger, with what they told. The engine calls a provider
  once per transaction, so a payment has a reference of its own.\<close>

inductive dummy_ran :: "dummy_env \<Rightarrow> Provider \<Rightarrow> dummy_report list \<Rightarrow> Provider \<Rightarrow> bool" for D :: dummy_env and p :: Provider where
  starts: "dummy_ran D p [] p"
| pays: "dummy_ran D p told q \<Longrightarrow> entry_of q (Reference (rq_TransactionID req)) = None \<Longrightarrow>
    pay_locked service req q = (answer, q') \<Longrightarrow> dummy_ran D p (told @ paid_report service req answer) q'"
| queried: "dummy_ran D p told q \<Longrightarrow> query_locked ref q = (Inr s, q') \<Longrightarrow>
    dummy_ran D p (told @ [Reported (ts_ProviderReference s) (ts_Status s)]) q'"
| webhook: "dummy_ran D p told q \<Longrightarrow> webhook_locked D payload headers q = (Inr ev, q') \<Longrightarrow>
    dummy_ran D p (told @ [Reported (ev_ProviderReference ev) (ev_Status ev)]) q'"
| refused_query: "dummy_ran D p told q \<Longrightarrow> query_locked ref q = (Inl e, q') \<Longrightarrow> dummy_ran D p told q'"
| refused_webhook: "dummy_ran D p told q \<Longrightarrow> webhook_locked D payload headers q = (Inl e, q') \<Longrightarrow> dummy_ran D p told q'"
| asked: "dummy_ran D p told q \<Longrightarrow> balance_locked q = (answer, q') \<Longrightarrow> dummy_ran D p told q'"

text \<open>The balance those reports call for: a payment moves it when it is first reported succeeded.\<close>

definition moved :: "string \<Rightarrow> i64 \<Rightarrow> i64 \<Rightarrow> i64" where
  "moved service amount balance =
     (if service = ServiceDisbursement then (if sint (balance - amount) < 0 then 0 else balance - amount)
      else balance + amount)"

type_synonym tally_state = "(string \<rightharpoonup> string \<times> i64) \<times> string set \<times> i64"

definition credit :: "string \<Rightarrow> string \<Rightarrow> tally_state \<Rightarrow> tally_state" where
  "credit ref status = (\<lambda>(known, counted, balance).
     case known ref of
       Some (service, amount) \<Rightarrow>
         if status = ''succeeded'' \<and> ref \<notin> counted
         then (known, insert ref counted, moved service amount balance) else (known, counted, balance)
     | None \<Rightarrow> (known, counted, balance))"

fun tally :: "dummy_report list \<Rightarrow> tally_state \<Rightarrow> tally_state" where
  "tally [] t = t"
| "tally (Paid ref service amount status # told) (known, rest) =
     tally told (credit ref status (known(ref \<mapsto> (service, amount)), rest))"
| "tally (Reported ref status # told) t = tally told (credit ref status t)"

lemma tally_append: "tally (told @ later) t = tally later (tally told t)"
  by (induction told t rule: tally.induct) simp_all

text \<open>The provider's own ledger agrees with the tally.\<close>

definition tallied :: "Provider \<Rightarrow> tally_state \<Rightarrow> bool" where
  "tallied q = (\<lambda>(known, counted, balance).
     balance = dp_balance q \<and> (\<forall>r. known r = map_option (\<lambda>e. (en_service e, en_amount e)) (entry_of q r)) \<and>
     (\<forall>r. r \<in> counted \<longleftrightarrow> applied q r) \<and>
     (\<forall>r e. entry_of q r = Some e \<and> en_status e = TxSucceeded \<longrightarrow> en_applied e))"

lemma book_moved: "book e b = moved (en_service e) (en_amount e) b"
  by (simp add: book_def moved_def Let_def)

lemma put_entry_tallied:
  assumes t: "tallied q (known, counted, balance)"
    and old: "case entry_of q ref of None \<Rightarrow> \<not> en_applied e | Some e0 \<Rightarrow> en_applied e = en_applied e0"
  shows "tallied (put_entry ref e q)
    (credit ref (en_status e) (known(ref \<mapsto> (en_service e, en_amount e)), counted, balance))"
proof -
  have a: "ref \<in> counted \<longleftrightarrow> en_applied e" using t old by (auto simp: tallied_def applied_def split: option.splits)
  show ?thesis
  proof (cases "en_applied e \<or> en_status e \<noteq> TxSucceeded")
    case True
    then have "dummy_apply e (dp_balance q) = (e, dp_balance q)" by (rule dummy_apply_simps(1))
    with t True a show ?thesis
      by (auto simp: tallied_def credit_def put_entry_records put_entry_balance applied_def TxSucceeded_def)
  next
    case False
    then have "dummy_apply e (dp_balance q) = (e\<lparr>en_applied := True\<rparr>, book e (dp_balance q))"
      by (simp add: dummy_apply_simps(2))
    with t False a show ?thesis
      by (auto simp: tallied_def credit_def put_entry_records put_entry_balance applied_def TxSucceeded_def book_moved)
  qed
qed

lemma known_entry: "tallied q (known, rest) \<Longrightarrow> entry_of q r = Some e \<Longrightarrow> known r = Some (en_service e, en_amount e)"
  by (cases rest) (simp add: tallied_def)

text \<open>A report of the status on record changes nothing, and neither does an entry that only counts a query.\<close>

lemma credit_known: "tallied q t \<Longrightarrow> entry_of q ref = Some e \<Longrightarrow> credit ref (en_status e) t = t"
  by (cases t) (auto simp: tallied_def credit_def applied_def TxSucceeded_def)

lemma tallied_replaced:
  assumes "tallied q t" and "entry_of q ref = Some e" and "entry_of q' = (entry_of q)(ref \<mapsto> e')"
    and "dp_balance q' = dp_balance q" and "en_service e' = en_service e" "en_amount e' = en_amount e"
    and "en_applied e' = en_applied e" "en_status e' = en_status e"
  shows "tallied q' t"
  using assms by (cases t) (auto simp: tallied_def applied_def)

lemma tallied_counted:
  assumes "tallied q t" and "entry_of q ref = Some e"
  shows "tallied (q\<lparr>dp_records := (ref, e\<lparr>en_remaining := n\<rparr>) # filter (\<lambda>(k, _). k \<noteq> ref) (dp_records q)\<rparr>) t"
  by (rule tallied_replaced [OF assms, of _ "e\<lparr>en_remaining := n\<rparr>"])
     (simp_all add: map_of_replace fun_upd_def del: map_of.simps)

text \<open>An entry put in the place of one with its amount and its booking.\<close>

lemma put_known_tallied:
  assumes t: "tallied q t" and e0: "entry_of q ref = Some e0"
    and "en_service e = en_service e0" "en_amount e = en_amount e0" "en_applied e = en_applied e0"
  shows "tallied (put_entry ref e q) (credit ref (en_status e) t)"
proof -
  obtain known counted balance where k: "t = (known, counted, balance)" by (cases t)
  have "known(ref \<mapsto> (en_service e, en_amount e)) = known"
    using known_entry [OF t [unfolded k] e0] assms(3,4) by auto
  with put_entry_tallied [OF t [unfolded k], where ref = ref and e = e] e0 assms(5) show ?thesis by (simp add: k)
qed

lemma query_tallied:
  assumes q: "query_locked ref q = (Inr s, q')" and t: "tallied q t"
  shows "tallied q' (credit (ts_ProviderReference s) (ts_Status s) t)"
proof -
  obtain e where e: "entry_of q ref = Some e" using q by (auto simp: query_locked_def split: option.splits)
  show ?thesis
  proof (cases "0 < sint (en_remaining e)")
    case True
    show ?thesis
    proof (cases "en_remaining e - 1 = 0")
      case last: True
      with q e True have "q' = put_entry ref (e\<lparr>en_remaining := 0, en_status := en_final e\<rparr>) q"
        "ts_ProviderReference s = ref" "ts_Status s = en_final e" by (auto simp: query_locked_def Let_def)
      with put_known_tallied [OF t e, of "e\<lparr>en_remaining := 0, en_status := en_final e\<rparr>"] show ?thesis by simp
    next
      case more: False
      with q e True have "q' = q\<lparr>dp_records := (ref, e\<lparr>en_remaining := en_remaining e - 1\<rparr>) #
          filter (\<lambda>(k, _). k \<noteq> ref) (dp_records q)\<rparr>" "ts_ProviderReference s = ref" "ts_Status s = en_status e"
        by (auto simp: query_locked_def Let_def)
      with credit_known [OF t e] tallied_counted [OF t e, of "en_remaining e - 1"] show ?thesis by simp
    qed
  next
    case False
    with q e have "q' = q" "ts_ProviderReference s = ref" "ts_Status s = en_status e"
      by (auto simp: query_locked_def Let_def)
    with credit_known [OF t e] t show ?thesis by simp
  qed
qed

lemma webhook_tallied:
  assumes "webhook_locked D payload headers q = (Inr ev, q')" and t: "tallied q t"
  shows "tallied q' (credit (ev_ProviderReference ev) (ev_Status ev) t)"
proof -
  have q': "q' = settleFromWebhook (ev_ProviderReference ev) (ev_Status ev) q"
    using assms(1) by (auto simp: webhook_locked_def Let_def split: option.splits if_splits sum.splits)
  show ?thesis
  proof (cases "entry_of q (ev_ProviderReference ev)")
    case None
    with t show ?thesis by (cases t) (auto simp: q' settleFromWebhook_def tallied_def credit_def)
  next
    case (Some e)
    then show ?thesis
      using put_known_tallied [OF t Some, of "e\<lparr>en_status := ev_Status ev, en_remaining := 0\<rparr>"]
      by (simp add: q' settleFromWebhook_def)
  qed
qed

lemma pay_tallied:
  assumes "pay_locked service req q = (answer, q')" and "entry_of q (Reference (rq_TransactionID req)) = None"
    and t: "tallied q t"
  shows "tallied q' (tally (paid_report service req answer) t)"
proof (cases answer)
  case (Inl e)
  with assms show ?thesis by (auto simp: pay_locked_def paid_report_def Let_def split: if_splits)
next
  case (Inr r)
  let ?cfg = "dp_cfg q"
  let ?e = "\<lparr>en_service = service, en_amount = rq_Amount req, en_currency = First [rq_Currency req, dc_Currency ?cfg],
      en_status = (if 0 < sint (dc_SettleAfter ?cfg) then TxProcessing else settled (dc_Outcome ?cfg)),
      en_final = settled (dc_Outcome ?cfg), en_remaining = dc_SettleAfter ?cfg, en_applied = False\<rparr>"
  obtain known counted balance where k: "t = (known, counted, balance)" by (cases t)
  have "q' = put_entry (Reference (rq_TransactionID req)) ?e q"
    "paid_report service req answer = [Paid (Reference (rq_TransactionID req)) service (rq_Amount req) (en_status ?e)]"
    using assms(1) Inr by (auto simp: pay_locked_def paid_report_def Let_def split: if_splits)
  with put_entry_tallied [OF t [unfolded k], where ref = "Reference (rq_TransactionID req)" and e = ?e] assms(2) show ?thesis
    by (simp add: k)
qed

lemma refused_same:
  "query_locked ref q = (Inl e, q') \<Longrightarrow> q' = q" "webhook_locked D payload headers q = (Inl e, q') \<Longrightarrow> q' = q"
  "balance_locked q = (answer, q') \<Longrightarrow> q' = q"
  by (auto simp: query_locked_def webhook_locked_def balance_locked_def Let_def split: option.splits if_splits sum.splits)

text \<open>C33: the balance of the simulated provider. From a provider that has no payment yet, whatever payments,
  queries and webhooks come, in any order and however often repeated, the balance is the one
  that what the provider told calls for: a payment moves it when the provider first tells, in an answer,
  a query or an accepted webhook, that it succeeded, by its amount, a collection up
  and a disbursement down to no less than nothing, and nothing else moves it.\<close>

lemma dummy_books_once:
  assumes "dummy_ran D p told q" and "dp_records p = []"
  shows "dp_balance q = snd (snd (tally told (Map.empty, {}, dp_balance p)))"
proof -
  from assms(1) have "tallied q (tally told (Map.empty, {}, dp_balance p))"
  proof induction
    case starts
    show ?case using assms(2) by (simp add: tallied_def applied_def)
  next
    case pays
    then show ?case by (simp add: tally_append pay_tallied)
  next
    case queried
    then show ?case by (simp add: tally_append query_tallied)
  next
    case webhook
    then show ?case by (simp add: tally_append webhook_tallied)
  qed (auto dest!: refused_same)
  then show ?thesis by (auto simp: tallied_def split: prod.splits)
qed

section \<open>The schedule\<close>

primrec after_queries :: "string \<Rightarrow> nat \<Rightarrow> Provider \<Rightarrow> Provider" where
  "after_queries ref 0 p = p"
| "after_queries ref (Suc k) p = snd (query_locked ref (after_queries ref k p))"

text \<open>The entry of a payment after \<open>k\<close> of its \<open>n\<close> queries.\<close>

definition on_schedule :: "nat \<Rightarrow> nat \<Rightarrow> entry \<Rightarrow> i64 \<Rightarrow> i64 \<Rightarrow> bool" where
  "on_schedule n k e b0 b \<longleftrightarrow>
     (if k < n then en_status e = TxProcessing \<and> sint (en_remaining e) = int (n - k) \<and> \<not> en_applied e \<and> b = b0
      else en_status e = en_final e \<and> sint (en_remaining e) \<le> 0 \<and> (en_applied e \<longleftrightarrow> en_final e = TxSucceeded) \<and>
           b = (if en_final e = TxSucceeded then book e b0 else b0))"

lemma sint_pred: "0 < sint (x :: i64) \<Longrightarrow> sint (x - 1) = sint x - 1"
proof -
  assume x: "0 < sint x"
  have "x - 1 = word_of_int (sint x - 1)" by simp
  moreover have "sint (word_of_int (sint x - 1) :: i64) = sint x - 1"
    by (rule sint_i64) (use x sint_i64_less [of x] in linarith)+
  ultimately show ?thesis by simp
qed

lemma i64_zero: "(x :: i64) = 0 \<longleftrightarrow> sint x = 0"
proof
  assume "sint x = 0"
  then have "(word_of_int (sint x) :: i64) = 0" by (simp only: of_int_0)
  then show "x = 0" by simp
qed simp

definition settling :: "nat \<Rightarrow> nat \<Rightarrow> string \<Rightarrow> Provider \<Rightarrow> entry \<Rightarrow> Provider \<Rightarrow> bool" where
  "settling n k ref p e0 q \<longleftrightarrow>
     (\<exists>e. entry_of q ref = Some e \<and> en_service e = en_service e0 \<and> en_amount e = en_amount e0 \<and>
          en_final e = en_final e0 \<and> on_schedule n k e (dp_balance p) (dp_balance q))"

lemma settling_query:
  assumes "settling n k ref p e0 q"
  shows "settling n (Suc k) ref p e0 (snd (query_locked ref q))"
    and "\<exists>t. fst (query_locked ref q) = Inr t \<and> ts_Status t = (if Suc k < n then TxProcessing else en_final e0)"
proof -
  from assms obtain e where e: "entry_of q ref = Some e" "en_service e = en_service e0" "en_amount e = en_amount e0"
    "en_final e = en_final e0" and s: "on_schedule n k e (dp_balance p) (dp_balance q)"
    by (auto simp: settling_def)
  have zero: "en_remaining e - 1 = 0 \<longleftrightarrow> sint (en_remaining e - 1) = 0" by (rule i64_zero)
  show "\<exists>t. fst (query_locked ref q) = Inr t \<and> ts_Status t = (if Suc k < n then TxProcessing else en_final e0)"
  proof (cases "k < n")
    case True
    with s have r: "sint (en_remaining e) = int (n - k)" and st: "en_status e = TxProcessing" by (simp_all add: on_schedule_def)
    with True have p: "0 < sint (en_remaining e)" by simp
    have "en_remaining e - 1 = 0 \<longleftrightarrow> Suc k = n" unfolding zero sint_pred [OF p] r using True by auto
    with True p st e show ?thesis by (auto simp: query_locked_def Let_def)
  next
    case False
    with s e show ?thesis by (auto simp: query_locked_def Let_def on_schedule_def)
  qed
  show "settling n (Suc k) ref p e0 (snd (query_locked ref q))"
  proof (cases "k < n")
    case True
    with s have r: "sint (en_remaining e) = int (n - k)" and st: "en_status e = TxProcessing" "\<not> en_applied e"
      and b: "dp_balance q = dp_balance p" by (simp_all add: on_schedule_def)
    with True have p: "0 < sint (en_remaining e)" by simp
    have z: "en_remaining e - 1 = 0 \<longleftrightarrow> Suc k = n" unfolding zero sint_pred [OF p] r using True by auto
    show ?thesis
    proof (cases "Suc k = n")
      case last: True
      let ?e = "e\<lparr>en_remaining := 0, en_status := en_final e\<rparr>"
      have q: "snd (query_locked ref q) = put_entry ref ?e q"
        using e(1) p z last by (simp add: query_locked_def Let_def)
      show ?thesis
        unfolding settling_def q put_entry_records put_entry_balance
        using e st(2) last by (cases "en_final e = TxSucceeded") (auto simp: dummy_apply_def on_schedule_def b book_def)
    next
      case more: False
      let ?e = "e\<lparr>en_remaining := en_remaining e - 1\<rparr>"
      let ?q = "q\<lparr>dp_records := (ref, ?e) # filter (\<lambda>(k, _). k \<noteq> ref) (dp_records q)\<rparr>"
      have q: "snd (query_locked ref q) = ?q" using e(1) p z more by (simp add: query_locked_def Let_def)
      have "on_schedule n (Suc k) ?e (dp_balance p) (dp_balance ?q)"
        using st b more True by (simp add: on_schedule_def sint_pred [OF p] r)
      then show ?thesis unfolding settling_def q using e by simp
    qed
  next
    case False
    with s e(1) have "snd (query_locked ref q) = q" by (simp add: query_locked_def Let_def on_schedule_def)
    with assms False s e show ?thesis by (auto simp: settling_def on_schedule_def)
  qed
qed

lemma pay_settling:
  assumes "pay_locked service req p = (Inr (Some r), p1)"
  defines "n \<equiv> nat (sint (dc_SettleAfter (dp_cfg p)))" and "f \<equiv> settled (dc_Outcome (dp_cfg p))"
  shows "\<exists>e0. en_service e0 = service \<and> en_amount e0 = rq_Amount req \<and> en_final e0 = f \<and>
           settling n 0 (rs_ProviderReference r) p e0 p1 \<and> rs_Status r = (if n = 0 then f else TxProcessing)"
proof -
  let ?e = "\<lparr>en_service = service, en_amount = rq_Amount req,
      en_currency = First [rq_Currency req, dc_Currency (dp_cfg p)],
      en_status = (if 0 < sint (dc_SettleAfter (dp_cfg p)) then TxProcessing else settled (dc_Outcome (dp_cfg p))),
      en_final = settled (dc_Outcome (dp_cfg p)), en_remaining = dc_SettleAfter (dp_cfg p), en_applied = False\<rparr>"
  have r: "rs_ProviderReference r = Reference (rq_TransactionID req)" "rs_Status r = en_status ?e"
    and p1: "p1 = put_entry (Reference (rq_TransactionID req)) ?e p"
    using assms(1) by (auto simp: pay_locked_def Let_def split: if_splits)
  have proc: "TxProcessing \<noteq> TxSucceeded" by (simp add: tx_status_defs)
  have "settling n 0 (rs_ProviderReference r) p ?e p1"
    unfolding settling_def p1 r put_entry_records put_entry_balance
    using proc by (auto simp: dummy_apply_def on_schedule_def n_def book_def)
  then show ?thesis
    by (intro exI [of _ ?e]) (simp add: r n_def f_def)
qed

text \<open>The schedule of the simulated provider. A payment it takes is processing until the configured
  number of queries, reaches the configured outcome with that query and keeps it; the balance moves
  with the query that settles a successful payment and at no other.\<close>

lemma dummy_settles:
  fixes k :: nat
  assumes "pay_locked service req p = (Inr (Some r), p1)"
  defines "n \<equiv> nat (sint (dc_SettleAfter (dp_cfg p)))" and "f \<equiv> settled (dc_Outcome (dp_cfg p))"
    and "q \<equiv> after_queries (rs_ProviderReference r) k p1"
  shows "rs_Status r = (if n = 0 then f else TxProcessing) \<and>
    (\<exists>t. fst (query_locked (rs_ProviderReference r) q) = Inr t \<and>
         ts_Status t = (if Suc k < n then TxProcessing else f)) \<and>
    (\<exists>e. en_service e = service \<and> en_amount e = rq_Amount req \<and>
         dp_balance q = (if n \<le> k \<and> f = TxSucceeded then book e (dp_balance p) else dp_balance p))"
proof -
  obtain e0 where e0: "en_service e0 = service" "en_amount e0 = rq_Amount req" "en_final e0 = f"
    and s: "settling n 0 (rs_ProviderReference r) p e0 p1" and st: "rs_Status r = (if n = 0 then f else TxProcessing)"
    using pay_settling [OF assms(1)] unfolding n_def f_def by blast
  have on: "settling n k (rs_ProviderReference r) p e0 q"
    unfolding q_def by (induction k) (simp_all add: s settling_query(1))
  then obtain e where "en_service e = service" "en_amount e = rq_Amount req" "en_final e = f"
      "on_schedule n k e (dp_balance p) (dp_balance q)"
    by (auto simp: settling_def e0)
  then have "en_service e = service \<and> en_amount e = rq_Amount req \<and>
      dp_balance q = (if n \<le> k \<and> f = TxSucceeded then book e (dp_balance p) else dp_balance p)"
    by (auto simp: on_schedule_def split: if_splits)
  with st settling_query(2) [OF on] e0(3) show ?thesis by blast
qed

section \<open>Loading\<close>

lemma lookup_environment:
  "k \<noteq> ''environment'' \<Longrightarrow> lookup_any (providerInitConfig plain environment) k = lookup_any plain k"
proof -
  assume "k \<noteq> ''environment''"
  then have "map_of (filter (\<lambda>(k, _). k \<noteq> ''environment'') plain) k = map_of plain k"
    by (induction plain) auto
  with \<open>k \<noteq> ''environment''\<close> show ?thesis by (simp add: lookup_any_def providerInitConfig_def)
qed

lemma parse_environment: "dummy_parseConfig (providerInitConfig plain environment) = dummy_parseConfig plain"
  by (simp add: dummy_parseConfig_def read_config_def StringAt_def IntAt_def BoolAt_def lookup_environment)

lemma check_config_InrD:
  assumes "check_config c = Inr cfg"
  shows "dc_WebhookSecret cfg \<noteq> []" and "dc_Services cfg \<noteq> []" and "\<forall>s\<in>set (dc_Services cfg). supported_service s"
    and "0 \<le> sint (dc_SettleAfter cfg)"
  using assms by (auto simp: check_config_def find_None_iff split: if_splits option.splits)

definition capabilities_of :: "string list \<Rightarrow> Capability list" where
  "capabilities_of services =
     concat (map (\<lambda>s. map (\<lambda>m. \<lparr>ca_ServiceType = s, ca_PaymentMethod = m\<rparr>) PaymentMethods) services)"

lemma PaymentMethods_distinct: "distinct PaymentMethods" "PaymentMethods \<noteq> []"
  by (simp_all add: PaymentMethods_def PaymentMethodMomo_def PaymentMethodCard_def PaymentMethodBankTransfer_def PaymentMethodWallet_def)

lemma capability_eq: "c = \<lparr>ca_ServiceType = s, ca_PaymentMethod = m\<rparr> \<longleftrightarrow> ca_ServiceType c = s \<and> ca_PaymentMethod c = m"
  by (cases c) simp

lemma set_capabilities_of:
  "c \<in> set (capabilities_of ss) \<longleftrightarrow> ca_ServiceType c \<in> set ss \<and> ca_PaymentMethod c \<in> set PaymentMethods"
  by (simp add: capabilities_of_def image_iff capability_eq)

lemma distinct_capabilities: "distinct (capabilities_of ss) \<longleftrightarrow> distinct ss"
proof (induction ss)
  case (Cons s ss)
  let ?row = "map (\<lambda>m. \<lparr>ca_ServiceType = s, ca_PaymentMethod = m\<rparr>) PaymentMethods"
  have "distinct ?row" using PaymentMethods_distinct by (simp add: distinct_map inj_on_def)
  moreover have "set ?row \<inter> set (capabilities_of ss) = {} \<longleftrightarrow> s \<notin> set ss"
  proof
    assume e: "set ?row \<inter> set (capabilities_of ss) = {}"
    show "s \<notin> set ss"
    proof
      assume "s \<in> set ss"
      then have "\<lparr>ca_ServiceType = s, ca_PaymentMethod = hd PaymentMethods\<rparr> \<in> set ?row \<inter> set (capabilities_of ss)"
        using PaymentMethods_distinct(2) by (simp add: set_capabilities_of)
      with e show False by blast
    qed
  next
    assume s: "s \<notin> set ss"
    have "c \<notin> set (capabilities_of ss)" if "c \<in> set ?row" for c
      using that s by (simp add: set_capabilities_of image_iff capability_eq)
    then show "set ?row \<inter> set (capabilities_of ss) = {}" by blast
  qed
  moreover have "capabilities_of (s # ss) = ?row @ capabilities_of ss" by (simp add: capabilities_of_def)
  ultimately show ?case using Cons by auto
qed (simp add: capabilities_of_def)

lemma check_capabilities_iff:
  assumes "ad_Collect ad \<noteq> None" "ad_Disburse ad \<noteq> None"
    and "\<forall>c\<in>set caps. ValidPaymentMethod (ca_PaymentMethod c) \<and> supported_service (ca_ServiceType c)"
  shows "check_capabilities ad seen caps = Inr () \<longleftrightarrow> distinct caps \<and> set caps \<inter> set seen = {}"
  using assms(3)
  by (induction caps arbitrary: seen) (auto simp: assms(1,2) supported_service_def)

lemma dummy_capabilities_valid:
  assumes "\<forall>s\<in>set (dc_Services (dp_cfg (prov o_w ! n))). supported_service s"
    and "dc_Services (dp_cfg (prov o_w ! n)) \<noteq> []"
  shows "validateCapabilities (dummy_adapter D n) o_w = Inr () \<longleftrightarrow> distinct (dc_Services (dp_cfg (prov o_w ! n)))"
proof -
  let ?ss = "dc_Services (dp_cfg (prov o_w ! n))"
  have caps: "ad_Capabilities (dummy_adapter D n) o_w = capabilities_of ?ss"
    by (simp add: dummy_adapter_def dummy_Capabilities_def capabilities_of_def)
  have "capabilities_of ?ss \<noteq> []" using assms(2) PaymentMethods_distinct(2) by (cases ?ss) (simp_all add: capabilities_of_def)
  moreover have "\<forall>c\<in>set (capabilities_of ?ss). ValidPaymentMethod (ca_PaymentMethod c) \<and> supported_service (ca_ServiceType c)"
    using assms(1) by (simp add: set_capabilities_of ValidPaymentMethod_iff)
  ultimately show ?thesis
    unfolding validateCapabilities_def caps Let_def
    using check_capabilities_iff [of "dummy_adapter D n" "capabilities_of ?ss" "[]"]
    by (simp add: dummy_adapter_def distinct_capabilities)
qed

text \<open>The steps of \<open>build\<close> on a fresh instance.\<close>

lemma init_fresh:
  "ad_Init (dummy_adapter D n) raw (o_w\<lparr>prov := ps @ [fresh_dummy]\<rparr>) =
     (case init_locked raw fresh_dummy of (r, p) \<Rightarrow> (r, o_w\<lparr>prov := ps @ [p]\<rparr>))"
  if "n = length ps"
  using that by (simp add: dummy_adapter_def locked_def split: prod.split)

lemma health_waits:
  assumes "\<not> gone o_w" and "\<And>s t. du_ends D s t = None" and "n < length (prov o_w)"
    and "prov o_w ! n = p"
  shows "fst (the (ad_HealthCheck (dummy_adapter D n)) o_w) = fst (health_locked p)"
  using assms by (auto simp: dummy_adapter_def waited_def bindE_def dummy_wait_def locked_def Let_def split: prod.split)

lemma fst_on_outside: "fst (on_outside m w) = fst (m (outside w))"
  by (simp add: on_outside_def split: prod.split)

lemma isl_bind_return: "isl (fst (bindE m (\<lambda>_. returnE x) w)) = isl (fst (m w))"
  by (auto simp: bindE_def returnE_def split: prod.split sum.split)

text \<open>Which accounts of the simulated provider the runtime manager loads. Its configuration must be
  accepted, must not ask for a failure, and must name no service twice, which the provider itself
  accepts and the capability check of the engine refuses.\<close>

lemma dummy_loads:
  assumes "map_of (env_registry E) code = Some (Some (dummy_New D))"
    and "\<not> gone (outside w)" and "\<And>s t. du_ends D s t = None"
  shows "isl (fst (build E code environment plain w)) \<longleftrightarrow>
    \<not> (\<exists>cfg. dummy_parseConfig plain = Inr cfg \<and> \<not> dc_FailInit cfg \<and> \<not> dc_FailHealth cfg \<and> distinct (dc_Services cfg))"
proof -
  let ?n = "length (prov (outside w))"
  let ?ad = "dummy_adapter D ?n"
  let ?ps = "prov (outside w)"
  let ?w1 = "w\<lparr>outside := (outside w)\<lparr>prov := ?ps @ [fresh_dummy]\<rparr>\<rparr>"
  have new: "on_outside (registry_Create (env_registry E) code) w = (Inr ?ad, ?w1)"
    using assms(1) by (simp add: on_outside_def registry_Create_def dummy_New_def)
  have init: "on_outside (ad_Init ?ad (providerInitConfig plain environment)) ?w1 =
      (case init_locked (providerInitConfig plain environment) fresh_dummy of
         (r, p) \<Rightarrow> (r, w\<lparr>outside := (outside w)\<lparr>prov := ?ps @ [p]\<rparr>\<rparr>))"
    by (simp add: on_outside_def init_fresh split: prod.split)
  show ?thesis
  proof (cases "dummy_parseConfig plain")
    case (Inl e)
    then show ?thesis by (simp add: build_def bindE_def new init init_locked_def parse_environment)
  next
    case (Inr cfg)
    show ?thesis
    proof (cases "dc_FailInit cfg")
      case True
      with Inr show ?thesis by (simp add: build_def bindE_def new init init_locked_def parse_environment)
    next
      case False
      let ?p = "\<lparr>dp_cfg = cfg, dp_balance = dc_Balance cfg, dp_records = []\<rparr>"
      let ?w2 = "w\<lparr>outside := (outside w)\<lparr>prov := ?ps @ [?p]\<rparr>\<rparr>"
      have ok: "on_outside (ad_Init ?ad (providerInitConfig plain environment)) ?w1 = (Inr (), ?w2)"
        unfolding init using Inr False by (simp add: init_locked_def parse_environment)
      note cfg = check_config_InrD [OF Inr [unfolded dummy_parseConfig_def]]
      have at: "prov (outside ?w2) ! ?n = ?p" by simp
      have caps: "validateCapabilities ?ad (outside ?w2) = Inr () \<longleftrightarrow> distinct (dc_Services cfg)"
        using dummy_capabilities_valid [of "outside ?w2" ?n D] cfg(2,3) unfolding at by simp
      have check: "(case ad_HealthCheck ?ad of None \<Rightarrow> returnE () | Some c \<Rightarrow> on_outside c) = on_outside (the (ad_HealthCheck ?ad))"
        by (simp add: dummy_adapter_def)
      have "fst (the (ad_HealthCheck ?ad) (outside ?w2)) = fst (health_locked ?p)"
        by (rule health_waits) (use assms(2,3) at in simp_all)
      then have health: "isl (fst (on_outside (the (ad_HealthCheck ?ad)) ?w2)) \<longleftrightarrow> dc_FailHealth cfg"
        unfolding fst_on_outside using cfg(1) by (simp add: health_locked_def)
      show ?thesis
      proof (cases "validateCapabilities ?ad (outside ?w2)")
        case (Inl e)
        with caps Inr show ?thesis by (simp add: build_def bindE_def new ok liftE_def)
      next
        case (Inr u)
        then have d: "distinct (dc_Services cfg)" using caps by simp
        have "isl (fst (build E code environment plain w)) \<longleftrightarrow>
            isl (fst (on_outside (the (ad_HealthCheck ?ad)) ?w2))"
          using new ok Inr by (simp add: build_def check isl_bind_return)
        then show ?thesis using health d \<open>dummy_parseConfig plain = Inr cfg\<close> False by simp
      qed
    qed
  qed
qed

section \<open>A sample\<close>

definition sample_dummy_env :: dummy_env where
  "sample_dummy_env =
     \<lparr>du_mac = \<lambda>key payload. key @ payload,
      du_json = \<lambda>s. Some \<lparr>wp_Reference = s, wp_Status = ''success'', wp_EventType = [], wp_Amount = [], wp_Currency = [],
                           wp_Country = [], wp_ExternalReference = [], wp_Account = []\<rparr>,
      du_ends = \<lambda>s t. None\<rparr>"

definition sample_dummy_config :: gmap where
  "sample_dummy_config = [(''webhook_secret'', GStr ''s3cret''), (''settle_after'', GInt 2)]"

definition sample_read :: Config where
  "sample_read =
     \<lparr>dc_Outcome = ''succeed'', dc_SettleAfter = 2, dc_LatencyMs = 0, dc_FailInit = False, dc_FailHealth = False,
      dc_Services = [ServiceCollection, ServiceDisbursement], dc_Currency = ''UGX'', dc_Balance = 1000000,
      dc_WebhookSecret = ''s3cret''\<rparr>"

lemma sample_config_reads: "dummy_parseConfig sample_dummy_config = Inr sample_read"
proof -
  have t: "text_of (lookup_any sample_dummy_config ''settle_after'') = format_int 2" by code_simp
  have p: "parse_int (format_int 2) = Inr 2" using parse_int_format_int [of 2] by simp
  have two: "IntAt sample_dummy_config ''settle_after'' = 2"
    unfolding IntAt_def t by (simp add: atoi_value_def p)
  have "IntAt sample_dummy_config ''latency_ms'' = 0"
    "BoolAt sample_dummy_config ''fail_init'' = False" "BoolAt sample_dummy_config ''fail_health'' = False"
    "StringAt sample_dummy_config ''webhook_secret'' = ''s3cret''"
    "StringAt sample_dummy_config ''services'' = []" "StringAt sample_dummy_config ''balance'' = []"
    "parseServices [] = [ServiceCollection, ServiceDisbursement]"
    "to_lower (First [StringAt sample_dummy_config ''outcome'', OutcomeSucceed]) = ''succeed''"
    "to_upper (First [StringAt sample_dummy_config ''currency'', defaultCurrency]) = ''UGX''" by code_simp+
  then have "read_config sample_dummy_config = sample_read"
    by (simp add: read_config_def two defaultBalance_def sample_read_def)
  then show ?thesis
    by (simp add: dummy_parseConfig_def check_config_def sample_read_def outcome_defs supported_service_def)
qed

definition sample_dummy :: Provider where
  "sample_dummy = \<lparr>dp_cfg = sample_read, dp_balance = 1000000, dp_records = []\<rparr>"

definition sample_paid :: "(err + ProviderPaymentResponse option) \<times> Provider" where
  "sample_paid = pay_locked ServiceCollection sample_call sample_dummy"

lemma sample_paid_answer:
  obtains r where "pay_locked ServiceCollection sample_call sample_dummy = (Inr (Some r), snd sample_paid)"
    and "rs_ProviderReference r = ''dummy_txn_0''"
proof -
  have "(case fst sample_paid of Inr (Some r) \<Rightarrow> rs_ProviderReference r = ''dummy_txn_0'' | _ \<Rightarrow> False)"
    by (simp add: sample_paid_def pay_locked_def sample_dummy_def sample_read_def outcome_defs Reference_def sample_call_def Let_def)
  then obtain r where "fst sample_paid = Inr (Some r)" "rs_ProviderReference r = ''dummy_txn_0''"
    by (auto split: sum.splits option.splits)
  with that show ?thesis unfolding sample_paid_def by (metis prod.collapse)
qed

text \<open>Two queries settle it, a third changes nothing.\<close>

lemma dummy_settles_witness:
  "dp_balance (after_queries ''dummy_txn_0'' 1 (snd sample_paid)) = 1000000 \<and>
   dp_balance (after_queries ''dummy_txn_0'' 3 (snd sample_paid)) = 1001000"
proof -
  obtain r where r: "pay_locked ServiceCollection sample_call sample_dummy = (Inr (Some r), snd sample_paid)"
      "rs_ProviderReference r = ''dummy_txn_0''"
    by (rule sample_paid_answer)
  have v: "nat (sint (dc_SettleAfter (dp_cfg sample_dummy))) = 2" "settled (dc_Outcome (dp_cfg sample_dummy)) = TxSucceeded"
    "dp_balance sample_dummy = 1000000" "rq_Amount sample_call = 1000" "ServiceCollection \<noteq> ServiceDisbursement"
    by (simp_all add: sample_dummy_def sample_read_def settled_def outcome_defs sample_call_def service_neq)
  from dummy_settles [OF r(1), of 1] dummy_settles [OF r(1), of 3] show ?thesis
    by (auto simp: v r(2) book_def)
qed

text \<open>A collection, reported processing when it is taken and succeeded by the second query and again by
  a webhook, is booked once.\<close>

definition sample_queried :: "nat \<Rightarrow> (err + ProviderTransactionStatus) \<times> Provider" where
  "sample_queried k = query_locked ''dummy_txn_0'' (after_queries ''dummy_txn_0'' k (snd sample_paid))"

definition sample_notified :: "(err + ProviderWebhookEvent) \<times> Provider" where
  "sample_notified = webhook_locked sample_dummy_env ''dummy_txn_0''
     [(SignatureHeader, Sign sample_dummy_env ''s3cret'' ''dummy_txn_0'')] (snd (sample_queried 1))"

lemma sample_answers:
  obtains r s t ev where
    "fst sample_paid = Inr (Some r)" "rs_ProviderReference r = ''dummy_txn_0''" "rs_Status r = ''processing''"
    "fst (sample_queried 0) = Inr s" "ts_ProviderReference s = ''dummy_txn_0''" "ts_Status s = ''processing''"
    "fst (sample_queried 1) = Inr t" "ts_ProviderReference t = ''dummy_txn_0''" "ts_Status t = ''succeeded''"
    "fst sample_notified = Inr ev" "ev_ProviderReference ev = ''dummy_txn_0''" "ev_Status ev = ''succeeded''"
proof -
  have "case fst sample_paid of Inr (Some r) \<Rightarrow> rs_ProviderReference r = ''dummy_txn_0'' \<and> rs_Status r = ''processing'' | _ \<Rightarrow> False"
    by code_simp
  moreover have "case fst (sample_queried 0) of Inr s \<Rightarrow> ts_ProviderReference s = ''dummy_txn_0'' \<and> ts_Status s = ''processing'' | _ \<Rightarrow> False"
    by code_simp
  moreover have "case fst (sample_queried 1) of Inr s \<Rightarrow> ts_ProviderReference s = ''dummy_txn_0'' \<and> ts_Status s = ''succeeded'' | _ \<Rightarrow> False"
    by code_simp
  moreover have "case fst sample_notified of Inr s \<Rightarrow> ev_ProviderReference s = ''dummy_txn_0'' \<and> ev_Status s = ''succeeded'' | _ \<Rightarrow> False"
    by code_simp
  ultimately show ?thesis by (auto split: sum.splits option.splits intro: that)
qed

lemma dummy_books_once_witness:
  "\<exists>told. dummy_ran sample_dummy_env sample_dummy told (snd sample_notified) \<and>
     map reported_status told = [''processing'', ''processing'', ''succeeded'', ''succeeded''] \<and>
     dp_balance (snd sample_notified) = 1001000"
proof -
  obtain r s t ev where run:
    "fst sample_paid = Inr (Some r)" "rs_ProviderReference r = ''dummy_txn_0''" "rs_Status r = ''processing''"
    "fst (sample_queried 0) = Inr s" "ts_ProviderReference s = ''dummy_txn_0''" "ts_Status s = ''processing''"
    "fst (sample_queried 1) = Inr t" "ts_ProviderReference t = ''dummy_txn_0''" "ts_Status t = ''succeeded''"
    "fst sample_notified = Inr ev" "ev_ProviderReference ev = ''dummy_txn_0''" "ev_Status ev = ''succeeded''"
    by (rule sample_answers)
  let ?told = "[Paid ''dummy_txn_0'' ServiceCollection 1000 ''processing'', Reported ''dummy_txn_0'' ''processing'',
     Reported ''dummy_txn_0'' ''succeeded'', Reported ''dummy_txn_0'' ''succeeded'']"
  have "pay_locked ServiceCollection sample_call sample_dummy = (Inr (Some r), snd sample_paid)"
    using run(1) by (metis prod.collapse sample_paid_def)
  from dummy_ran.pays [OF dummy_ran.starts _ this, of sample_dummy_env] run(2,3)
  have 1: "dummy_ran sample_dummy_env sample_dummy (take 1 ?told) (snd sample_paid)"
    by (simp add: sample_dummy_def sample_call_def paid_report_def)
  have "query_locked ''dummy_txn_0'' (snd sample_paid) = (Inr s, snd (sample_queried 0))"
    using run(4) by (metis after_queries.simps(1) prod.collapse sample_queried_def)
  from dummy_ran.queried [OF 1 this] run(5,6)
  have 2: "dummy_ran sample_dummy_env sample_dummy (take 2 ?told) (snd (sample_queried 0))" by simp
  have "query_locked ''dummy_txn_0'' (snd (sample_queried 0)) = (Inr t, snd (sample_queried 1))"
    using run(7) by (simp add: sample_queried_def prod_eq_iff)
  from dummy_ran.queried [OF 2 this] run(8,9)
  have 3: "dummy_ran sample_dummy_env sample_dummy (take 3 ?told) (snd (sample_queried 1))" by simp
  have "webhook_locked sample_dummy_env ''dummy_txn_0''
     [(SignatureHeader, Sign sample_dummy_env ''s3cret'' ''dummy_txn_0'')] (snd (sample_queried 1)) = (Inr ev, snd sample_notified)"
    using run(10) by (metis prod.collapse sample_notified_def)
  from dummy_ran.webhook [OF 3 this] run(11,12)
  have 4: "dummy_ran sample_dummy_env sample_dummy ?told (snd sample_notified)" by simp
  have "dp_records sample_dummy = []" "dp_balance sample_dummy = 1000000" by (simp_all add: sample_dummy_def)
  with dummy_books_once [OF 4] have "dp_balance (snd sample_notified) = 1001000"
    by (simp add: credit_def moved_def service_neq)
  with 4 show ?thesis by (intro exI [of _ ?told]) simp
qed

definition sample_dummies :: "dummies world" where
  "sample_dummies =
     \<lparr>db = sample_db, items = [], outside = \<lparr>clock = 0, gone = False, prov = []\<rparr>, hooks = NewHookRegistry,
      uuid_at = format_nat, uuid_n = 0\<rparr>"

definition sample_dummies_env :: "dummies env" where
  "sample_dummies_env =
     \<lparr>env_region = (\<lambda>c. True), env_registry = [(''dummy'', Some (dummy_New sample_dummy_env))],
      env_encrypt = (\<lambda>n s. Inr s), env_decrypt = (\<lambda>s. Inr s), env_sha256 = (\<lambda>s. s),
      env_config_json = (\<lambda>m. Inr []), env_config_of_json = (\<lambda>s. Inr sample_dummy_config), env_map_json = (\<lambda>m. ''{}''),
      env_request_json = (\<lambda>service r. service), env_event_json = (\<lambda>e. Inr []),
      env_event_of_json = (\<lambda>s. Inl (Msg ''invalid event''))\<rparr>"

definition sample_twice :: gmap where
  "sample_twice = [(''webhook_secret'', GStr ''s3cret''), (''services'', GStr ''collection,collection'')]"

lemma dummy_loads_witness:
  "\<not> isl (fst (build sample_dummies_env ''dummy'' ''sandbox'' sample_dummy_config sample_dummies)) \<and>
   isl (fst (build sample_dummies_env ''dummy'' ''sandbox'' sample_twice sample_dummies))"
proof -
  have e: "map_of (env_registry sample_dummies_env) ''dummy'' = Some (Some (dummy_New sample_dummy_env))"
    by (simp add: sample_dummies_env_def)
  have g: "\<not> gone (outside sample_dummies)" by (simp add: sample_dummies_def)
  have n: "du_ends sample_dummy_env s t = None" for s t by (simp add: sample_dummy_env_def)
  have services: "dc_Services (read_config sample_twice) = [ServiceCollection, ServiceCollection]"
    unfolding read_config_def Config.select_convs by code_simp
  have two: "\<not> distinct (dc_Services c)" if "dummy_parseConfig sample_twice = Inr c" for c
    using that services by (auto simp: dummy_parseConfig_def check_config_def split: if_splits option.splits)
  show ?thesis
    using dummy_loads [OF e g n, of "''sandbox''" sample_dummy_config] dummy_loads [OF e g n, of "''sandbox''" sample_twice]
      two
    by (auto simp: sample_config_reads sample_read_def service_neq)
qed

end
