(* ===== verification/Migrations.thy ===== *)
theory Migrations
  imports World "HOL-Library.AList"
begin

text \<open>
  \<open>internal/migrations\<close>: the versioned schema changes, the ledger that records them and the
  runner, with the two migrations that change the schema.

  A schema is a list of named tables, a table its columns and its rows of text values. The
  schema browser of the ORM (\<open>HasTable\<close>, \<open>HasColumn\<close>) reports no errors; it is taken to
  answer. Every other statement may fail, as in the repositories. A migration gets the tables
  and the clock, not the ledger. \<open>decode\<close> is the JSON decoding of a list of strings, and
  \<open>order\<close> the order in which one run ranges over the map of countries, which the language leaves open.
\<close>

type_synonym row = "string \<rightharpoonup> string"

record dbtable =
  tb_Columns :: "string list"
  tb_Rows :: "row list"

record store =
  st_tables :: "string \<rightharpoonup> dbtable"
  st_faults :: "bool list"
  st_clock :: time

type_synonym 'a change = "(store, 'a) oper"

section \<open>The ORM's migrator on tables\<close>

definition store_statement :: "unit change" where
  "store_statement s =
     (case st_faults s of
        [] \<Rightarrow> (Inr (), s)
      | b # bs \<Rightarrow> (if b then Inl DriverErr else Inr (), s\<lparr>st_faults := bs\<rparr>))"

definition HasTable :: "store \<Rightarrow> string \<Rightarrow> bool" where
  "HasTable s t \<longleftrightarrow> st_tables s t \<noteq> None"

definition HasColumn :: "store \<Rightarrow> string \<Rightarrow> string \<Rightarrow> bool" where
  "HasColumn s t c \<longleftrightarrow> (case st_tables s t of None \<Rightarrow> False | Some tb \<Rightarrow> c \<in> set (tb_Columns tb))"

definition amend :: "string \<Rightarrow> (dbtable \<Rightarrow> dbtable) \<Rightarrow> (string \<rightharpoonup> dbtable) \<Rightarrow> string \<rightharpoonup> dbtable" where
  "amend t f T = T(t := map_option f (T t))"

definition alter :: "string \<Rightarrow> (dbtable \<Rightarrow> dbtable) \<Rightarrow> unit change" where
  "alter t f = bindE store_statement (\<lambda>_ s. (Inr (), s\<lparr>st_tables := amend t f (st_tables s)\<rparr>))"

definition cell :: "row \<Rightarrow> string \<Rightarrow> string" where
  "cell row c = (case row c of None \<Rightarrow> [] | Some v \<Rightarrow> v)"

definition rename_cell :: "string \<Rightarrow> string \<Rightarrow> row \<Rightarrow> row" where
  "rename_cell old new row = (row(old := None))(new := row old)"

definition RenameColumn :: "string \<Rightarrow> string \<Rightarrow> string \<Rightarrow> unit change" where
  "RenameColumn t old new =
     alter t (\<lambda>tb. \<lparr>tb_Columns = map (\<lambda>c. if c = old then new else c) (tb_Columns tb),
                    tb_Rows = map (rename_cell old new) (tb_Rows tb)\<rparr>)"

text \<open>Existing rows get the default of a new column.\<close>

definition add_column :: "string \<Rightarrow> string \<Rightarrow> dbtable \<Rightarrow> dbtable" where
  "add_column c v tb = \<lparr>tb_Columns = tb_Columns tb @ [c], tb_Rows = map (\<lambda>r. r(c \<mapsto> v)) (tb_Rows tb)\<rparr>"

definition drop_column :: "string \<Rightarrow> dbtable \<Rightarrow> dbtable" where
  "drop_column c tb =
     \<lparr>tb_Columns = filter (\<lambda>k. k \<noteq> c) (tb_Columns tb), tb_Rows = map (\<lambda>r. r(c := None)) (tb_Rows tb)\<rparr>"

definition update_id :: "string \<Rightarrow> string \<Rightarrow> string \<Rightarrow> dbtable \<Rightarrow> dbtable" where
  "update_id i c v tb = tb\<lparr>tb_Rows := map (\<lambda>r. if cell r ''id'' = i then r(c \<mapsto> v) else r) (tb_Rows tb)\<rparr>"

definition AddColumn :: "string \<Rightarrow> string \<Rightarrow> string \<Rightarrow> unit change" where
  "AddColumn t c v = alter t (add_column c v)"

definition DropColumn :: "string \<Rightarrow> string \<Rightarrow> unit change" where
  "DropColumn t c = alter t (drop_column c)"

definition UpdateByID :: "string \<Rightarrow> string \<Rightarrow> string \<Rightarrow> string \<Rightarrow> unit change" where
  "UpdateByID t i c v = alter t (update_id i c v)"

definition rows_of_table :: "string \<Rightarrow> row list change" where
  "rows_of_table t =
     bindE store_statement (\<lambda>_ s. (Inr (case st_tables s t of None \<Rightarrow> [] | Some tb \<Rightarrow> tb_Rows tb), s))"

definition whenever :: "(store \<Rightarrow> bool) \<Rightarrow> unit change \<Rightarrow> unit change" where
  "whenever P m s = (if P s then m s else (Inr (), s))"

section \<open>0002_customer_account.go and 0003_account_location.go\<close>

definition upBaseline :: "unit change" where "upBaseline = returnE ()"

definition upCustomerAccount :: "unit change" where
  "upCustomerAccount s =
     (if \<not> HasTable s ''transactions'' \<or> HasColumn s ''transactions'' ''customer_account'' then (Inr (), s)
      else if \<not> HasColumn s ''transactions'' ''customer_phone'' then (Inr (), s)
      else RenameColumn ''transactions'' ''customer_phone'' ''customer_account'' s)"

definition addAppCurrency :: "unit change" where
  "addAppCurrency s =
     (if \<not> HasTable s ''apps'' \<or> HasColumn s ''apps'' ''currency'' then (Inr (), s)
      else wrapE ''add app currency'' (AddColumn ''apps'' ''currency'' ''UGX'') s)"

text \<open>The first country of every account, or the account that has none.\<close>

definition first_country :: "(string \<Rightarrow> err + string list) \<Rightarrow> string \<Rightarrow> string \<Rightarrow> err + string" where
  "first_country decode i countries =
     (let raw = trim_space countries in
      case (if raw \<noteq> [] \<and> raw \<noteq> ''null'' then decode raw else Inr []) of
        Inl e \<Rightarrow> Inl (Wrap (''decode countries for provider account '' @ i) e)
      | Inr [] \<Rightarrow> Inl (Msg (''provider account '' @ i @
          '' has no country; set its countries column to a one-item JSON array before retrying''))
      | Inr (c # _) \<Rightarrow> Inr c)"

fun collect_backfill ::
    "(string \<Rightarrow> err + string list) \<Rightarrow> row list \<Rightarrow> (string \<times> string) list \<Rightarrow> err + (string \<times> string) list" where
  "collect_backfill decode [] backfill = Inr backfill"
| "collect_backfill decode (r # rs) backfill =
     (case first_country decode (cell r ''id'') (cell r ''countries'') of
        Inl e \<Rightarrow> Inl e
      | Inr c \<Rightarrow> collect_backfill decode rs (AList.update (cell r ''id'') c backfill))"

fun backfill_rows :: "(string \<times> string) list \<Rightarrow> unit change" where
  "backfill_rows [] = returnE ()"
| "backfill_rows ((i, country) # b) =
     bindE (wrapE (''backfill country for provider account '' @ i) (UpdateByID ''provider_accounts'' i ''country'' country))
       (\<lambda>_. backfill_rows b)"

definition legacy :: "store \<Rightarrow> bool" where "legacy s = HasColumn s ''provider_accounts'' ''countries''"

definition read_backfill :: "(string \<Rightarrow> err + string list) \<Rightarrow> (string \<times> string) list change" where
  "read_backfill decode s =
     (if legacy s then
        bindE (wrapE ''read provider countries'' (rows_of_table ''provider_accounts''))
          (\<lambda>rows. liftE (collect_backfill decode rows [])) s
      else (Inr [], s))"

definition relocate :: "(string \<times> string) list \<Rightarrow> unit change" where
  "relocate backfill =
     bindE (whenever (\<lambda>s. \<not> HasColumn s ''provider_accounts'' ''country'')
              (wrapE ''add provider country'' (AddColumn ''provider_accounts'' ''country'' []))) (\<lambda>_.
     bindE (whenever (\<lambda>s. \<not> HasColumn s ''provider_accounts'' ''currency'')
              (wrapE ''add provider currency'' (AddColumn ''provider_accounts'' ''currency'' ''UGX''))) (\<lambda>_.
     bindE (backfill_rows backfill) (\<lambda>_.
     bindE (whenever legacy
              (wrapE ''drop provider countries'' (DropColumn ''provider_accounts'' ''countries''))) (\<lambda>_.
     addAppCurrency))))"

type_synonym map_order = "(string \<times> string) list \<Rightarrow> (string \<times> string) list"

definition upAccountLocation :: "(string \<Rightarrow> err + string list) \<Rightarrow> map_order \<Rightarrow> unit change" where
  "upAccountLocation decode order s =
     (if \<not> HasTable s ''provider_accounts'' then addAppCurrency s
      else bindE (read_backfill decode) (\<lambda>backfill. relocate (order backfill)) s)"

section \<open>migrations.go\<close>

record Migration =
  mi_Version :: string
  mi_Name :: string
  mi_Up :: "unit change option"

definition migration_ID :: "Migration \<Rightarrow> string" where
  "migration_ID m = mi_Version m @ ''_'' @ mi_Name m"

definition All :: "(string \<Rightarrow> err + string list) \<Rightarrow> map_order \<Rightarrow> Migration list" where
  "All decode order =
     [\<lparr>mi_Version = ''0001'', mi_Name = ''baseline'', mi_Up = Some upBaseline\<rparr>,
      \<lparr>mi_Version = ''0002'', mi_Name = ''customer_account'', mi_Up = Some upCustomerAccount\<rparr>,
      \<lparr>mi_Version = ''0003'', mi_Name = ''account_location'', mi_Up = Some (upAccountLocation decode order)\<rparr>]"

record schemaMigration =
  sm_ID :: string
  sm_AppliedAt :: time
  sm_DurationMs :: int
  sm_Dirty :: bool

fun validate_from :: "string set \<Rightarrow> (string \<times> string) list \<Rightarrow> Migration list \<Rightarrow> err + unit" where
  "validate_from seen versions [] = Inr ()"
| "validate_from seen versions (m # ms) =
     (if trim_space (mi_Version m) = [] then Inl (Msg (''migration '' @ quoted (mi_Name m) @ '' has no version''))
      else if trim_space (mi_Name m) = [] then Inl (Msg (''migration '' @ quoted (mi_Version m) @ '' has no name''))
      else if mi_Up m = None then Inl (Msg (''migration '' @ migration_ID m @ '' has no Up function''))
      else if migration_ID m \<in> seen then Inl (Msg (''migration '' @ migration_ID m @ '' is declared more than once''))
      else case map_of versions (mi_Version m) of
             Some other \<Rightarrow> Inl (Msg (''migrations '' @ other @ '' and '' @ mi_Name m @ '' share version '' @ mi_Version m))
           | None \<Rightarrow> validate_from (insert (migration_ID m) seen) ((mi_Version m, mi_Name m) # versions) ms)"

definition validate_migrations :: "Migration list \<Rightarrow> err + unit" where
  "validate_migrations ms = validate_from {} [] ms"

section \<open>runner.go\<close>

record mdb =
  md_ledger :: "schemaMigration list option"
  md_store :: store

definition on_store :: "'a change \<Rightarrow> (mdb, 'a) oper" where
  "on_store m d = (case m (md_store d) of (r, s) \<Rightarrow> (r, d\<lparr>md_store := s\<rparr>))"

definition ordered :: "Migration list \<Rightarrow> Migration list" where
  "ordered ms = sort_key migration_ID ms"

fun applied_ids :: "schemaMigration list \<Rightarrow> err + string set" where
  "applied_ids [] = Inr {}"
| "applied_ids (r # rs) =
     (if sm_Dirty r
      then Inl (Msg (''migration '' @ sm_ID r @
        '' did not finish: verify the schema by hand, then delete its row from schema_migrations''))
      else map_sum id (insert (sm_ID r)) (applied_ids rs))"

definition ledger :: "(mdb, string set) oper" where
  "ledger d =
     (case md_ledger d of
        None \<Rightarrow> (Inr {}, d)
      | Some rows \<Rightarrow>
          bindE (wrapE ''read migration ledger'' (on_store store_statement)) (\<lambda>_. liftE (applied_ids rows)) d)"

text \<open>The table is created where it is missing.\<close>

definition migrate_ledger :: "(mdb, unit) oper" where
  "migrate_ledger =
     bindE (wrapE ''create migration ledger'' (on_store store_statement)) (\<lambda>_ d.
       (Inr (), case md_ledger d of None \<Rightarrow> d\<lparr>md_ledger := Some []\<rparr> | Some _ \<Rightarrow> d))"

text \<open>The id is the primary key.\<close>

definition record_row :: "schemaMigration \<Rightarrow> (mdb, unit) oper" where
  "record_row row =
     bindE (on_store store_statement) (\<lambda>_ d.
       case md_ledger d of
         None \<Rightarrow> (Inl DriverErr, d)
       | Some rows \<Rightarrow>
           if sm_ID row \<in> sm_ID ` set rows then (Inl DriverErr, d)
           else (Inr (), d\<lparr>md_ledger := Some (rows @ [row])\<rparr>))"

definition finalize_row :: "string \<Rightarrow> int \<Rightarrow> (mdb, unit) oper" where
  "finalize_row i ms =
     bindE (on_store store_statement) (\<lambda>_ d.
       (Inr (), d\<lparr>md_ledger := map_option (map (\<lambda>r. if sm_ID r = i then r\<lparr>sm_Dirty := False, sm_DurationMs := ms\<rparr> else r))
                                (md_ledger d)\<rparr>))"

definition mdb_now :: "(mdb, time) oper" where "mdb_now d = (Inr (st_clock (md_store d)), d)"

definition run_up :: "Migration \<Rightarrow> unit change" where
  "run_up m = (case mi_Up m of None \<Rightarrow> throwE (Panic ''nil function'') | Some up \<Rightarrow> up)"

definition apply_migration :: "Migration \<Rightarrow> (mdb, unit) oper" where
  "apply_migration m =
     bindE mdb_now (\<lambda>started.
     bindE (wrapE (''record migration '' @ migration_ID m)
       (record_row \<lparr>sm_ID = migration_ID m, sm_AppliedAt = started, sm_DurationMs = 0, sm_Dirty = True\<rparr>)) (\<lambda>_.
     bindE (wrapE (''apply migration '' @ migration_ID m) (on_store (run_up m))) (\<lambda>_.
     bindE mdb_now (\<lambda>t.
     wrapE (''finalize migration '' @ migration_ID m)
       (finalize_row (migration_ID m) ((t - started) div 1000000))))))"

text \<open>The ids applied, also beside the error that stopped the run.\<close>

fun apply_all :: "string set \<Rightarrow> Migration list \<Rightarrow> mdb \<Rightarrow> (string list \<times> err option) \<times> mdb" where
  "apply_all ids [] d = (([], None), d)"
| "apply_all ids (m # ms) d =
     (if migration_ID m \<in> ids then apply_all ids ms d
      else case apply_migration m d of
             (Inl e, d') \<Rightarrow> (([], Some e), d')
           | (Inr _, d') \<Rightarrow>
               (case apply_all ids ms d' of ((done, e), d'') \<Rightarrow> ((migration_ID m # done, e), d'')))"

definition run_migrations :: "Migration list \<Rightarrow> mdb \<Rightarrow> (string list \<times> err option) \<times> mdb" where
  "run_migrations ms d =
     (case validate_migrations ms of
        Inl e \<Rightarrow> (([], Some e), d)
      | Inr _ \<Rightarrow>
          (case bindE migrate_ledger (\<lambda>_. ledger) d of
             (Inl e, d') \<Rightarrow> (([], Some e), d')
           | (Inr ids, d') \<Rightarrow> apply_all ids (ordered ms) d'))"

definition Run :: "(string \<Rightarrow> err + string list) \<Rightarrow> map_order \<Rightarrow> mdb \<Rightarrow> (string list \<times> err option) \<times> mdb" where
  "Run decode order = run_migrations (All decode order)"

definition Pending :: "(string \<Rightarrow> err + string list) \<Rightarrow> map_order \<Rightarrow> (mdb, string list) oper" where
  "Pending decode order =
     bindE ledger (\<lambda>ids. returnE (filter (\<lambda>i. i \<notin> ids) (map migration_ID (ordered (All decode order)))))"

end
