(* ===== verification/MigrationFacts.thy ===== *)
theory MigrationFacts
  imports Migrations "HOL-Library.Multiset"
begin

text \<open>
  The schema migrations: the location migration can be interrupted at any statement and run
  again, the runner applies each migration once and in order, and an interrupted one blocks it.
\<close>

section \<open>Changes of the tables, statement by statement\<close>

type_synonym tables = "string \<rightharpoonup> dbtable"

definition changed :: "(tables \<Rightarrow> tables) list \<Rightarrow> tables \<Rightarrow> tables" where
  "changed fs T = fold (\<lambda>f. f) fs T"

lemma changed_simps [simp]: "changed [] T = T" "changed (f # fs) T = changed fs (f T)"
  "changed (fs @ gs) T = changed gs (changed fs T)"
  by (simp_all add: changed_def)

text \<open>A run of \<open>m\<close> from \<open>s\<close> makes the changes \<open>fs\<close>, or a first part of them when a statement
  fails, and all of them when none does.\<close>

definition through :: "unit change \<Rightarrow> store \<Rightarrow> (tables \<Rightarrow> tables) list \<Rightarrow> bool" where
  "through m s fs \<longleftrightarrow>
     (\<exists>k\<le>length fs. st_tables (snd (m s)) = changed (take k fs) (st_tables s) \<and>
        (fst (m s) = Inr () \<longrightarrow> k = length fs) \<and>
        (st_faults s = [] \<longrightarrow> fst (m s) = Inr () \<and> st_faults (snd (m s)) = []))"

lemma through_return: "through (\<lambda>s. (Inr (), s)) s []" "through (returnE ()) s []"
  by (simp_all add: through_def)

lemma through_wrapE: "through m s fs \<Longrightarrow> through (wrapE message m) s fs"
  by (cases "m s") (auto simp: through_def wrapE_def split: sum.splits)

lemma store_statement_cases:
  obtains (fails) bs where "store_statement s = (Inl DriverErr, s\<lparr>st_faults := bs\<rparr>)" "st_faults s \<noteq> []"
    | (works) bs where "store_statement s = (Inr (), s\<lparr>st_faults := bs\<rparr>)" "st_faults s = [] \<longrightarrow> bs = []"
proof (cases "st_faults s")
  case Nil
  then have "store_statement s = (Inr (), s\<lparr>st_faults := []\<rparr>)" by (simp add: store_statement_def)
  with works show ?thesis by blast
next
  case (Cons b bs)
  then show ?thesis using fails [of bs] works [of bs] by (cases b) (simp_all add: store_statement_def)
qed

lemma through_alter: "through (alter t f) s [amend t f]"
  by (cases rule: store_statement_cases [of s])
    (auto simp: through_def alter_def intro: exI [of _ 0] exI [of _ "Suc 0"])

lemma through_bind:
  assumes m: "through m s fs" and n: "\<And>s'. st_tables s' = changed fs (st_tables s) \<Longrightarrow> through n s' gs"
  shows "through (bindE m (\<lambda>_. n)) s (fs @ gs)"
proof -
  obtain r s1 where r: "m s = (r, s1)" by (cases "m s")
  from m r obtain k where k: "k \<le> length fs" "st_tables s1 = changed (take k fs) (st_tables s)"
    "r = Inr () \<longrightarrow> k = length fs" "st_faults s = [] \<longrightarrow> r = Inr () \<and> st_faults s1 = []"
    unfolding through_def by auto
  show ?thesis
  proof (cases r)
    case (Inl e)
    with r k show ?thesis by (auto simp: through_def intro!: exI [of _ k])
  next
    case (Inr u)
    then have s1: "st_tables s1 = changed fs (st_tables s)" using k by simp
    from n [OF this] obtain j where "j \<le> length gs" "st_tables (snd (n s1)) = changed (take j gs) (st_tables s1)"
      "fst (n s1) = Inr () \<longrightarrow> j = length gs" "st_faults s1 = [] \<longrightarrow> fst (n s1) = Inr () \<and> st_faults (snd (n s1)) = []"
      unfolding through_def by auto
    with Inr r k s1 show ?thesis by (auto simp: through_def intro!: exI [of _ "length fs + j"])
  qed
qed

lemma amend_id [simp]: "amend t (\<lambda>tb. tb) T = T" "amend t id T = T"
  by (auto simp: amend_def map_option.identity [unfolded id_def] option.map_id)

lemma amend_amend: "amend t g (amend t f T) = amend t (\<lambda>tb. g (f tb)) T"
  by (auto simp: amend_def option.map_comp comp_def)

lemma changed_amend: "changed (map (amend t) fs) T = amend t (fold (\<lambda>f. f) fs) T"
proof (induction fs arbitrary: T)
  case (Cons f fs)
  then show ?case by (simp add: amend_amend)
qed simp

text \<open>A guarded change is the change of a table that has or lacks the column.\<close>

definition ensure_column :: "string \<Rightarrow> string \<Rightarrow> dbtable \<Rightarrow> dbtable" where
  "ensure_column c v tb = (if c \<in> set (tb_Columns tb) then tb else add_column c v tb)"

definition ensure_dropped :: "string \<Rightarrow> dbtable \<Rightarrow> dbtable" where
  "ensure_dropped c tb = (if c \<in> set (tb_Columns tb) then drop_column c tb else tb)"

lemma through_skip: "(\<And>T. st_tables s = T \<Longrightarrow> f T = T) \<Longrightarrow> through (\<lambda>s. (Inr (), s)) s [f]"
  by (auto simp: through_def intro!: exI [of _ "Suc 0"])

lemma through_cong: "m s = m' s \<Longrightarrow> through m' s fs \<Longrightarrow> through m s fs"
  by (simp add: through_def)

lemma amend_table: "T t = Some tb \<Longrightarrow> f tb = g tb \<Longrightarrow> amend t f T = amend t g T"
  by (simp add: amend_def)

lemma through_amend:
  assumes "through m s [amend t f]" and "\<And>tb. st_tables s t = Some tb \<Longrightarrow> f tb = g tb"
  shows "through m s [amend t g]"
proof -
  have "amend t f (st_tables s) = amend t g (st_tables s)"
    using assms(2) by (cases "st_tables s t") (auto simp: amend_def)
  with assms(1) show ?thesis unfolding through_def by (auto simp: le_Suc_eq) 
qed

lemma through_ensure:
  assumes "st_tables s t \<noteq> None"
  shows "through (whenever (\<lambda>s. \<not> HasColumn s t c) (wrapE message (AddColumn t c v))) s [amend t (ensure_column c v)]"
proof (cases "HasColumn s t c")
  case True
  then have "amend t (ensure_column c v) (st_tables s) = st_tables s"
    by (auto simp: amend_def ensure_column_def HasColumn_def split: option.splits)
  then have "through (\<lambda>s. (Inr (), s)) s [amend t (ensure_column c v)]" by (intro through_skip) simp
  then show ?thesis by (rule through_cong [rotated]) (simp add: whenever_def True)
next
  case False
  have "through (wrapE message (AddColumn t c v)) s [amend t (ensure_column c v)]"
    unfolding AddColumn_def
    by (rule through_wrapE, rule through_amend [OF through_alter])
      (use False in \<open>simp add: HasColumn_def ensure_column_def\<close>)
  then show ?thesis by (rule through_cong [rotated]) (simp add: whenever_def False)
qed

lemma through_dropped:
  "through (whenever (\<lambda>s. HasColumn s t c) (wrapE message (DropColumn t c))) s [amend t (ensure_dropped c)]"
proof (cases "HasColumn s t c")
  case False
  then have "amend t (ensure_dropped c) (st_tables s) = st_tables s"
    by (auto simp: amend_def ensure_dropped_def HasColumn_def map_option_case split: option.splits)
  then have "through (\<lambda>s. (Inr (), s)) s [amend t (ensure_dropped c)]" by (intro through_skip) simp
  then show ?thesis by (rule through_cong [rotated]) (simp add: whenever_def False)
next
  case True
  have "through (wrapE message (DropColumn t c)) s [amend t (ensure_dropped c)]"
    unfolding DropColumn_def
    by (rule through_wrapE, rule through_amend [OF through_alter])
      (use True in \<open>simp add: HasColumn_def ensure_dropped_def\<close>)
  then show ?thesis by (rule through_cong [rotated]) (simp add: whenever_def True)
qed

lemma through_addAppCurrency: "through addAppCurrency s [amend ''apps'' (ensure_column ''currency'' ''UGX'')]"
proof (cases "st_tables s ''apps''")
  case None
  then have "through (\<lambda>s. (Inr (), s)) s [amend ''apps'' (ensure_column ''currency'' ''UGX'')]"
    by (intro through_skip) (auto simp: amend_def)
  then show ?thesis by (rule through_cong [rotated]) (simp add: addAppCurrency_def HasTable_def None)
next
  case (Some tb)
  then have "through (whenever (\<lambda>s. \<not> HasColumn s ''apps'' ''currency'')
      (wrapE ''add app currency'' (AddColumn ''apps'' ''currency'' ''UGX''))) s
      [amend ''apps'' (ensure_column ''currency'' ''UGX'')]"
    by (intro through_ensure) simp
  then show ?thesis
    by (rule through_cong [rotated]) (simp add: addAppCurrency_def HasTable_def whenever_def Some)
qed

definition account_updates :: "(string \<times> string) list \<Rightarrow> (dbtable \<Rightarrow> dbtable) list" where
  "account_updates b = map (\<lambda>(i, country). update_id i ''country'' country) b"

lemma through_backfill: "through (backfill_rows b) s (map (amend ''provider_accounts'') (account_updates b))"
proof (induction b arbitrary: s)
  case Nil
  show ?case by (simp add: through_return account_updates_def)
next
  case (Cons x b)
  obtain i c where x: "x = (i, c)" by (cases x)
  have "through (wrapE (''backfill country for provider account '' @ i) (UpdateByID ''provider_accounts'' i ''country'' c)) s
      [amend ''provider_accounts'' (update_id i ''country'' c)]"
    unfolding UpdateByID_def by (intro through_wrapE through_alter)
  from through_bind [OF this Cons.IH] show ?case by (simp add: x account_updates_def)
qed

definition account_changes :: "(string \<times> string) list \<Rightarrow> (dbtable \<Rightarrow> dbtable) list" where
  "account_changes b =
     [ensure_column ''country'' [], ensure_column ''currency'' ''UGX''] @ account_updates b @ [ensure_dropped ''countries'']"

definition location_changes :: "(string \<times> string) list \<Rightarrow> (tables \<Rightarrow> tables) list" where
  "location_changes b =
     map (amend ''provider_accounts'') (account_changes b) @ [amend ''apps'' (ensure_column ''currency'' ''UGX'')]"

text \<open>What the accounts say, before a change.\<close>

definition backfill_of :: "(string \<Rightarrow> err + string list) \<Rightarrow> dbtable \<Rightarrow> err + (string \<times> string) list" where
  "backfill_of decode tb =
     (if ''countries'' \<in> set (tb_Columns tb) then collect_backfill decode (tb_Rows tb) [] else Inr [])"

lemma still_accounts:
  "st_tables s ''provider_accounts'' \<noteq> None \<Longrightarrow> st_tables s' = changed (map (amend ''provider_accounts'') fs) (st_tables s) \<Longrightarrow>
     st_tables s' ''provider_accounts'' \<noteq> None"
  by (simp add: changed_amend amend_def)

lemma through_location:
  assumes "st_tables s ''provider_accounts'' = Some tb"
  shows "through (relocate b) s (location_changes b)"
proof -
  have drop: "whenever legacy m = whenever (\<lambda>s. HasColumn s ''provider_accounts'' ''countries'') m" for m
    by (simp add: whenever_def legacy_def fun_eq_iff)
  have one: "st_tables s ''provider_accounts'' \<noteq> None" using assms by simp
  have "location_changes b =
      [amend ''provider_accounts'' (ensure_column ''country'' [])] @
      ([amend ''provider_accounts'' (ensure_column ''currency'' ''UGX'')] @
       (map (amend ''provider_accounts'') (account_updates b) @
        ([amend ''provider_accounts'' (ensure_dropped ''countries'')] @
         [amend ''apps'' (ensure_column ''currency'' ''UGX'')])))"
    by (simp add: location_changes_def account_changes_def)
  then show ?thesis
    unfolding relocate_def drop
    by (simp only:)
      (intro through_bind through_ensure through_backfill through_dropped through_addAppCurrency one,
       use one in \<open>simp add: amend_def\<close>)
qed

lemma through_later:
  "m s = m' (s\<lparr>st_faults := bs\<rparr>) \<Longrightarrow> st_faults s = [] \<longrightarrow> bs = [] \<Longrightarrow>
     through m' (s\<lparr>st_faults := bs\<rparr>) fs \<Longrightarrow> through m s fs"
  unfolding through_def by auto

text \<open>The migration refuses what it cannot read before it changes anything, or goes through its changes.\<close>

lemma upAccountLocation_cases:
  assumes "st_tables s ''provider_accounts'' = Some tb"
  obtains (refused) e where "backfill_of decode tb = Inl e" and "isl (fst (upAccountLocation decode order s))"
      "st_tables (snd (upAccountLocation decode order s)) = st_tables s"
    | (runs) b where "backfill_of decode tb = Inr b" and "through (upAccountLocation decode order) s (location_changes (order b))"
proof (cases "''countries'' \<in> set (tb_Columns tb)")
  case False
  then have l: "\<not> legacy s" and b: "backfill_of decode tb = Inr []"
    using assms by (simp_all add: legacy_def HasColumn_def backfill_of_def)
  have "through (upAccountLocation decode order) s (location_changes (order []))"
    by (rule through_cong [OF _ through_location [OF assms]])
      (simp add: upAccountLocation_def HasTable_def assms read_backfill_def l)
  with b show ?thesis by (rule runs)
next
  case True
  then have l: "legacy s" and b: "backfill_of decode tb = collect_backfill decode (tb_Rows tb) []"
    using assms by (simp_all add: legacy_def HasColumn_def backfill_of_def)
  show ?thesis
  proof (cases rule: store_statement_cases [of s])
    case (fails bs)
    then have f: "upAccountLocation decode order s = (Inl (Wrap ''read provider countries'' DriverErr), s\<lparr>st_faults := bs\<rparr>)"
      by (simp add: upAccountLocation_def HasTable_def assms read_backfill_def l rows_of_table_def wrapE_def)
    show ?thesis
    proof (cases "backfill_of decode tb")
      case (Inl e)
      with f show ?thesis by (intro refused) simp_all
    next
      case (Inr b)
      with f fails(2) show ?thesis by (intro runs [of b]) (auto simp: through_def intro: exI [of _ 0])
    qed
  next
    case (works bs)
    let ?s = "s\<lparr>st_faults := bs\<rparr>"
    show ?thesis
    proof (cases "backfill_of decode tb")
      case (Inl e)
      then have "upAccountLocation decode order s = (Inl e, ?s)"
        using works(1) b by (simp add: upAccountLocation_def HasTable_def assms read_backfill_def l rows_of_table_def wrapE_def)
      with Inl show ?thesis by (intro refused) simp_all
    next
      case (Inr b')
      have "st_tables ?s ''provider_accounts'' = Some tb" using assms by simp
      note t = through_location [OF this, of "order b'"]
      have "upAccountLocation decode order s = relocate (order b') ?s"
        using works(1) Inr b
        by (simp add: upAccountLocation_def HasTable_def assms read_backfill_def l rows_of_table_def wrapE_def)
      then have "through (upAccountLocation decode order) s (location_changes (order b'))"
        by (rule through_later [where m = "upAccountLocation decode order" and m' = "relocate (order b')" and s = s and bs = bs])
          (rule works(2), rule t)
      with Inr show ?thesis by (rule runs)
    qed
  qed
qed

section \<open>Interrupted and run again\<close>

definition recountry :: "(string \<times> string) list \<Rightarrow> row \<Rightarrow> row" where
  "recountry b r = (case map_of (rev b) (cell r ''id'') of None \<Rightarrow> r | Some c \<Rightarrow> r(''country'' \<mapsto> c))"

lemma cell_other: "k \<noteq> c \<Longrightarrow> cell (r(c \<mapsto> v)) k = cell r k"
  by (simp add: cell_def)

lemma fold_updates:
  "fold (\<lambda>f. f) (account_updates b) tb = tb\<lparr>tb_Rows := map (recountry b) (tb_Rows tb)\<rparr>"
proof (induction b arbitrary: tb)
  case Nil
  show ?case by (simp add: account_updates_def recountry_def [abs_def])
next
  case (Cons x b)
  obtain i c where x: "x = (i, c)" by (cases x)
  have "recountry b (if cell r ''id'' = i then r(''country'' \<mapsto> c) else r) = recountry (x # b) r" for r
    by (simp add: recountry_def x map_add_def cell_other split: option.split)
  then show ?case
    using Cons.IH [of "update_id i ''country'' c tb"]
    by (simp add: account_updates_def x update_id_def comp_def)
qed

lemma recountry_take: "recountry b (recountry (take j b) r) = recountry b r"
proof (cases "map_of (rev (take j b)) (cell r ''id'')")
  case None
  then show ?thesis by (simp add: recountry_def)
next
  case (Some c)
  have "rev b = rev (drop j b) @ rev (take j b)" by (metis append_take_drop_id rev_append)
  then have "map_of (rev b) (cell r ''id'') \<noteq> None" using Some by (simp add: map_add_def split: option.split)
  with Some show ?thesis by (auto simp: recountry_def cell_other)
qed

text \<open>The order of the map does not matter: its keys differ.\<close>

definition reorders :: "map_order \<Rightarrow> bool" where
  "reorders order \<longleftrightarrow> (\<forall>b. mset (order b) = mset b)"

lemma collect_backfill_distinct:
  "collect_backfill decode rs b = Inr b' \<Longrightarrow> distinct (map fst b) \<Longrightarrow> distinct (map fst b')"
  by (induction rs arbitrary: b) (auto simp: distinct_update split: sum.splits)

lemma backfill_of_distinct: "backfill_of decode tb = Inr b \<Longrightarrow> distinct (map fst b)"
  by (auto simp: backfill_of_def intro: collect_backfill_distinct split: if_splits)

lemma recountry_order:
  assumes "reorders order" and "distinct (map fst b)"
  shows "recountry (order b) = recountry b"
proof -
  have m: "mset (order b) = mset b" using assms(1) by (simp add: reorders_def)
  then have d: "distinct (map fst (order b))" by (metis assms(2) mset_eq_imp_distinct_iff mset_map)
  have "map_of (rev (order b)) = map_of (rev b)"
    using assms(2) d mset_eq_setD [OF m] by (subst map_of_inject_set) (simp_all add: rev_map [symmetric])
  then show ?thesis by (simp add: recountry_def fun_eq_iff)
qed

text \<open>The columns both runs look at survive the first changes.\<close>

lemma ensure_column_simps:
  "c \<in> set (tb_Columns (ensure_column c v tb))"
  "k \<in> set (tb_Columns tb) \<Longrightarrow> k \<in> set (tb_Columns (ensure_column c v tb))"
  "k \<noteq> c \<Longrightarrow> k \<in> set (tb_Columns (ensure_column c v tb)) \<longleftrightarrow> k \<in> set (tb_Columns tb)"
  "c \<in> set (tb_Columns tb) \<Longrightarrow> ensure_column c v tb = tb"
  by (auto simp: ensure_column_def add_column_def)

lemma first_country_cells:
  "collect_backfill decode (map f rs) b = collect_backfill decode rs b"
  if "\<And>r. cell (f r) ''id'' = cell r ''id''" "\<And>r. cell (f r) ''countries'' = cell r ''countries''"
  using that by (induction rs arbitrary: b) (simp_all split: sum.split)

lemma backfill_of_ensure: "backfill_of decode (ensure_column c v tb) = backfill_of decode tb" if "c \<in> {''country'', ''currency''}"
  using that
  by (auto simp: backfill_of_def ensure_column_def add_column_def intro!: first_country_cells cell_other)

lemma backfill_of_updates:
  "backfill_of decode (tb\<lparr>tb_Rows := map (recountry b) (tb_Rows tb)\<rparr>) = backfill_of decode tb"
proof -
  have "cell (recountry b r) k = cell r k" if "k \<noteq> ''country''" for r k
    using that by (simp add: recountry_def cell_other split: option.split)
  then show ?thesis by (auto simp: backfill_of_def intro!: first_country_cells)
qed

abbreviation done_with :: "(string \<times> string) list \<Rightarrow> dbtable \<Rightarrow> dbtable" where
  "done_with b tb \<equiv> fold (\<lambda>f. f) (account_changes b) tb"

lemma done_with_eq:
  "done_with b tb = ensure_dropped ''countries''
     (fold (\<lambda>f. f) (account_updates b) (ensure_column ''currency'' ''UGX'' (ensure_column ''country'' [] tb)))"
  by (simp add: account_changes_def)

lemma after_ensured:
  assumes "''country'' \<in> set (tb_Columns tb)" and "''currency'' \<in> set (tb_Columns tb)"
  shows "done_with b tb = ensure_dropped ''countries'' (tb\<lparr>tb_Rows := map (recountry b) (tb_Rows tb)\<rparr>)"
  using assms by (simp add: done_with_eq ensure_column_simps fold_updates)

text \<open>After any number of the changes, the migration computes its changes afresh and ends in the same table.\<close>

lemma location_absorbs:
  assumes "backfill_of decode tb = Inr b" and "reorders order"
    and "x = fold (\<lambda>f. f) (take k (account_changes (order b))) tb"
  shows "\<exists>b'. backfill_of decode x = Inr b' \<and> done_with b' x = done_with b tb"
proof -
  let ?a1 = "ensure_column ''country'' []" and ?a2 = "ensure_column ''currency'' ''UGX''"
  let ?y = "?a2 (?a1 tb)"
  have y: "''country'' \<in> set (tb_Columns ?y)" "''currency'' \<in> set (tb_Columns ?y)" by (simp_all add: ensure_column_simps)
  have read: "backfill_of decode ?y = Inr b" using assms(1) by (simp add: backfill_of_ensure)
  have order: "recountry (order b) = recountry b"
    using recountry_order [OF assms(2) backfill_of_distinct [OF assms(1)]] .
  have n: "length (order b) = length b" using assms(2) by (metis reorders_def size_mset)
  consider "k = 0" | "k = 1" | "2 \<le> k" "k - 2 \<le> length b" | "3 + length b \<le> k" by linarith
  then show ?thesis
  proof cases
    case 1
    with assms show ?thesis by auto
  next
    case 2
    then have "x = ?a1 tb" using assms(3) by (simp add: account_changes_def)
    then show ?thesis
      using assms(1) by (auto simp: backfill_of_ensure done_with_eq ensure_column_simps)
  next
    case 3
    define j where "j = k - 2"
    with 3 have k: "k = Suc (Suc j)" "j \<le> length b" by simp_all
    then have "take k (account_changes (order b)) = [?a1, ?a2] @ take j (account_updates (order b))"
      using n by (simp add: account_changes_def account_updates_def)
    then have x: "x = ?y\<lparr>tb_Rows := map (recountry (take j (order b))) (tb_Rows ?y)\<rparr>"
      using assms(3) fold_updates [of "take j (order b)" ?y] by (simp add: account_updates_def take_map)
    have "backfill_of decode x = Inr b" unfolding x using read by (simp add: backfill_of_updates)
    moreover have "done_with b x = done_with b tb"
      unfolding done_with_eq [of b tb] fold_updates
      by (subst after_ensured) (use y in \<open>simp_all add: x recountry_take [of "order b", unfolded order] comp_def\<close>)
    ultimately show ?thesis by blast
  next
    case 4
    then have "x = done_with (order b) tb" using assms(3) n by (simp add: account_changes_def account_updates_def)
    then have x: "x = done_with b tb" by (simp only: done_with_eq fold_updates order)
    have cols: "''country'' \<in> set (tb_Columns x)" "''currency'' \<in> set (tb_Columns x)" "''countries'' \<notin> set (tb_Columns x)"
      unfolding x done_with_eq fold_updates using y by (auto simp: ensure_dropped_def drop_column_def)
    then have "backfill_of decode x = Inr []" by (simp add: backfill_of_def)
    moreover have "done_with [] x = x"
      using cols by (simp add: after_ensured recountry_def [abs_def] ensure_dropped_def)
    ultimately show ?thesis using x by blast
  qed
qed

lemma changed_location:
  "changed (location_changes b) T =
     amend ''apps'' (ensure_column ''currency'' ''UGX'') (amend ''provider_accounts'' (done_with b) T)"
  by (simp add: location_changes_def changed_amend)

lemma apps_twice: "amend ''apps'' (ensure_column c v) (amend ''provider_accounts'' g (amend ''apps'' (ensure_column c v) T)) =
    amend ''apps'' (ensure_column c v) (amend ''provider_accounts'' g T)"
  by (auto simp: amend_def fun_eq_iff option.map_comp comp_def ensure_column_simps map_option_case split: option.split)

lemma location_unlocated:
  assumes "st_tables s ''provider_accounts'' = None"
  shows "through (upAccountLocation decode order) s [amend ''apps'' (ensure_column ''currency'' ''UGX'')]"
  by (rule through_cong [OF _ through_addAppCurrency]) (simp add: upAccountLocation_def HasTable_def assms)

text \<open>What any run leaves, and what a run without failures leaves, as functions of the tables.\<close>

definition location_target :: "(string \<Rightarrow> err + string list) \<Rightarrow> tables \<Rightarrow> tables option" where
  "location_target decode T =
     (case T ''provider_accounts'' of
        None \<Rightarrow> Some (amend ''apps'' (ensure_column ''currency'' ''UGX'') T)
      | Some tb \<Rightarrow>
          (case backfill_of decode tb of
             Inl e \<Rightarrow> None
           | Inr b \<Rightarrow> Some (changed (location_changes b) T)))"

lemma location_order:
  assumes "reorders order" and "backfill_of decode tb = Inr b"
  shows "changed (location_changes (order b)) T = changed (location_changes b) T"
proof -
  have "done_with (order b) = done_with b"
    unfolding done_with_eq [abs_def] fold_updates recountry_order [OF assms(1) backfill_of_distinct [OF assms(2)]] ..
  then show ?thesis by (simp only: changed_location)
qed

lemma clean_location:
  assumes "st_faults s = []" and "upAccountLocation decode order s = (r, s2)" and order: "reorders order"
  shows "case location_target decode (st_tables s) of None \<Rightarrow> isl r \<and> st_tables s2 = st_tables s
         | Some T \<Rightarrow> r = Inr () \<and> st_tables s2 = T"
proof (cases "st_tables s ''provider_accounts''")
  case None
  with location_unlocated [OF None, of decode order] assms show ?thesis
    by (auto simp: through_def location_target_def)
next
  case (Some tb)
  from Some show ?thesis
  proof (cases rule: upAccountLocation_cases [where decode = decode and order = order])
    case (refused e)
    with Some assms show ?thesis by (simp add: location_target_def)
  next
    case (runs b)
    with Some assms show ?thesis
      using location_order [OF order runs(1)] by (auto simp: through_def location_target_def)
  qed
qed

lemma any_location:
  assumes "upAccountLocation decode order s = (r, s1)" and order: "reorders order"
  shows "location_target decode (st_tables s1) = location_target decode (st_tables s)"
    and "location_target decode (st_tables s) = None \<Longrightarrow> st_tables s1 = st_tables s"
proof -
  have both: "location_target decode (st_tables s1) = location_target decode (st_tables s) \<and>
      (location_target decode (st_tables s) = None \<longrightarrow> st_tables s1 = st_tables s)"
  proof (cases "st_tables s ''provider_accounts''")
    case None
    from location_unlocated [OF None, of decode order] assms obtain k where
      "st_tables s1 = changed (take k [amend ''apps'' (ensure_column ''currency'' ''UGX'')]) (st_tables s)" "k \<le> 1"
      by (auto simp: through_def)
    then have "st_tables s1 = st_tables s \<or> st_tables s1 = amend ''apps'' (ensure_column ''currency'' ''UGX'') (st_tables s)"
      by (auto simp: le_Suc_eq)
    with None show ?thesis
      using apps_twice [of _ _ "\<lambda>tb. tb" "st_tables s"] by (auto simp: location_target_def amend_def)
  next
    case (Some tb)
    from Some show ?thesis
    proof (cases rule: upAccountLocation_cases [where decode = decode and order = order])
      case (refused e)
      with Some assms show ?thesis by (simp add: location_target_def)
    next
      case (runs b)
      let ?n = "length (account_changes (order b))"
      from runs(2) assms obtain k where k: "k \<le> Suc ?n"
        and s1: "st_tables s1 = changed (take k (location_changes (order b))) (st_tables s)"
        by (auto simp: through_def location_changes_def)
      let ?x = "fold (\<lambda>f. f) (take k (account_changes (order b))) tb"
      obtain b' where b': "backfill_of decode ?x = Inr b'" "done_with b' ?x = done_with b tb"
        using location_absorbs [OF runs(1) order refl] by blast
      have part: "st_tables s1 = amend ''provider_accounts'' (\<lambda>_. ?x) (st_tables s) \<or>
          st_tables s1 = amend ''apps'' (ensure_column ''currency'' ''UGX'') (amend ''provider_accounts'' (\<lambda>_. ?x) (st_tables s))"
      proof (cases "k \<le> ?n")
        case True
        then have "st_tables s1 = amend ''provider_accounts'' (fold (\<lambda>f. f) (take k (account_changes (order b)))) (st_tables s)"
          unfolding s1 by (simp add: location_changes_def take_map changed_amend)
        with Some show ?thesis by (simp add: amend_def)
      next
        case False
        with k have "k = Suc ?n" by simp
        then show ?thesis unfolding s1 using Some by (simp add: changed_location location_changes_def changed_amend amend_def)
      qed
      then have x: "st_tables s1 ''provider_accounts'' = Some ?x" using Some by (auto simp: amend_def)
      have same: "amend ''provider_accounts'' (done_with b') (amend ''provider_accounts'' (\<lambda>_. ?x) (st_tables s)) =
          amend ''provider_accounts'' (done_with b) (st_tables s)"
        using Some b'(2) by (simp add: amend_def)
      have "changed (location_changes b') (st_tables s1) = changed (location_changes b) (st_tables s)"
        using part by (auto simp: changed_location apps_twice same)
      with x b'(1) Some runs(1) show ?thesis by (simp add: location_target_def)
    qed
  qed
  show "location_target decode (st_tables s1) = location_target decode (st_tables s)"
    and "location_target decode (st_tables s) = None \<Longrightarrow> st_tables s1 = st_tables s"
    using both by auto
qed

text \<open>C39: the location migration is restartable. Stopped by a failing statement anywhere and run again, it
  ends in the tables an uninterrupted run would have left; a run that refuses the accounts' countries
  has changed nothing. In each run the map of countries may be ranged over in an order of its own.\<close>

lemma account_location_restarts:
  assumes "reorders order" and "reorders order'" and "reorders order''"
    and "upAccountLocation decode order s = (r, s1)"
    and "upAccountLocation decode order' (s\<lparr>st_faults := []\<rparr>) = (r', s2)"
    and "upAccountLocation decode order'' (s1\<lparr>st_faults := []\<rparr>) = (r'', s3)"
  shows "st_tables s3 = st_tables s2 \<and> (isl r'' \<longleftrightarrow> isl r') \<and> (isl r' \<longrightarrow> st_tables s1 = st_tables s)"
  using clean_location [OF _ assms(5) assms(2)] clean_location [OF _ assms(6) assms(3)] any_location [OF assms(4) assms(1)]
  by (auto split: option.splits)

section \<open>The ledger and the runner\<close>

definition ledger_rows :: "mdb \<Rightarrow> schemaMigration list" where
  "ledger_rows d = (case md_ledger d of None \<Rightarrow> [] | Some rows \<Rightarrow> rows)"

lemma on_store_statement:
  obtains (fails) s where "on_store store_statement d = (Inl DriverErr, d\<lparr>md_store := s\<rparr>)" "st_tables s = st_tables (md_store d)"
    | (works) s where "on_store store_statement d = (Inr (), d\<lparr>md_store := s\<rparr>)" "st_tables s = st_tables (md_store d)"
  by (cases rule: store_statement_cases [of "md_store d"]) (auto simp: on_store_def)

text \<open>A list of migrations ran on the tables: each was called once, on the tables its predecessor
  left, and returned no error.\<close>

fun ups_ran :: "Migration list \<Rightarrow> store \<Rightarrow> store \<Rightarrow> bool" where
  "ups_ran [] s s' \<longleftrightarrow> st_tables s' = st_tables s"
| "ups_ran (m # ms) s s' \<longleftrightarrow>
     (\<exists>up s1 s2. mi_Up m = Some up \<and> st_tables s1 = st_tables s \<and> up s1 = (Inr (), s2) \<and> ups_ran ms s2 s')"

text \<open>A run stopped at \<open>m\<close> after its row was written: the migration failed, or the row could not be
  marked clean.\<close>

definition stopped_at :: "Migration \<Rightarrow> store \<Rightarrow> err \<Rightarrow> store \<Rightarrow> bool" where
  "stopped_at m s e s' \<longleftrightarrow>
     (\<exists>up s1 r s2. mi_Up m = Some up \<and> st_tables s1 = st_tables s \<and> up s1 = (r, s2) \<and> st_tables s' = st_tables s2 \<and>
        (case r of Inl c \<Rightarrow> e = Wrap (''apply migration '' @ migration_ID m) c
         | Inr _ \<Rightarrow> e = Wrap (''finalize migration '' @ migration_ID m) DriverErr))"

text \<open>Applying one migration: refused, left dirty, or done.\<close>

lemma apply_migration_cases:
  assumes "md_ledger d = Some rows" and "mi_Up m = Some up" and "migration_ID m \<notin> sm_ID ` set rows"
  obtains (refused) d' where "apply_migration m d = (Inl (Wrap (''record migration '' @ migration_ID m) DriverErr), d')"
        "md_ledger d' = Some rows" "st_tables (md_store d') = st_tables (md_store d)"
    | (dirty) e d' r where "apply_migration m d = (Inl e, d')" "md_ledger d' = Some (rows @ [r])" "sm_ID r = migration_ID m"
        "sm_Dirty r" "stopped_at m (md_store d) e (md_store d')"
    | (clean) d' r s1 s2 where "apply_migration m d = (Inr (), d')" "md_ledger d' = Some (rows @ [r])"
        "sm_ID r = migration_ID m" "\<not> sm_Dirty r"
        "st_tables s1 = st_tables (md_store d)" "up s1 = (Inr (), s2)" "st_tables (md_store d') = st_tables s2"
proof -
  let ?row = "\<lparr>sm_ID = migration_ID m, sm_AppliedAt = st_clock (md_store d), sm_DurationMs = 0, sm_Dirty = True\<rparr>"
  obtain q d1 where q: "record_row ?row d = (q, d1)" by (cases "record_row ?row d")
  have same: "st_tables (md_store d1) = st_tables (md_store d)"
    using q assms by (cases rule: on_store_statement [of d]) (auto simp: record_row_def split: if_splits)
  show ?thesis
  proof (cases q)
    case (Inl e)
    have "md_ledger d1 = Some rows" "e = DriverErr"
      using q assms by (cases rule: on_store_statement [of d]; auto simp: record_row_def Inl split: if_splits)+
    with q Inl same refused show ?thesis by (simp add: apply_migration_def mdb_now_def wrapE_def)
  next
    case (Inr u)
    have d1: "md_ledger d1 = Some (rows @ [?row])"
      using q assms by (cases rule: on_store_statement [of d]; auto simp: record_row_def Inr split: if_splits)+
    obtain t s2 where t: "up (md_store d1) = (t, s2)" by fastforce
    let ?d2 = "d1\<lparr>md_store := s2\<rparr>"
    have up: "on_store (run_up m) d1 = (t, ?d2)" using t assms(2) by (simp add: on_store_def run_up_def)
    show ?thesis
    proof (cases t)
      case (Inl e)
      have "stopped_at m (md_store d) (Wrap (''apply migration '' @ migration_ID m) e) (md_store ?d2)"
        using assms(2) same t Inl unfolding stopped_at_def by fastforce
      with q Inr up Inl d1 dirty [of _ ?d2 ?row] show ?thesis
        by (simp add: apply_migration_def mdb_now_def wrapE_def)
    next
      case (Inr v)
      have run: "apply_migration m d = wrapE (''finalize migration '' @ migration_ID m) (finalize_row (migration_ID m)
          ((st_clock s2 - st_clock (md_store d)) div 1000000)) ?d2"
        using q \<open>q = Inr u\<close> up Inr by (simp add: apply_migration_def mdb_now_def wrapE_def)
      show ?thesis
      proof (cases rule: on_store_statement [of ?d2])
        case (fails s)
        then have r: "apply_migration m d = (Inl (Wrap (''finalize migration '' @ migration_ID m) DriverErr), ?d2\<lparr>md_store := s\<rparr>)"
          unfolding run by (simp add: finalize_row_def wrapE_def)
        have "stopped_at m (md_store d) (Wrap (''finalize migration '' @ migration_ID m) DriverErr) s"
          using assms(2) same t Inr fails(2) unfolding stopped_at_def by fastforce
        with d1 show ?thesis by (intro dirty [OF r, of ?row]) simp_all
      next
        case (works s)
        let ?clean = "?row\<lparr>sm_Dirty := False, sm_DurationMs := (st_clock s2 - st_clock (md_store d)) div 1000000\<rparr>"
        have "map (\<lambda>r. if sm_ID r = migration_ID m then r\<lparr>sm_Dirty := False,
            sm_DurationMs := (st_clock s2 - st_clock (md_store d)) div 1000000\<rparr> else r) rows = rows"
          using assms(3) by (intro map_idI) (metis image_eqI)
        then have "apply_migration m d = (Inr (), ?d2\<lparr>md_store := s, md_ledger := Some (rows @ [?clean])\<rparr>)"
          unfolding run using works d1 by (simp add: finalize_row_def wrapE_def)
        then show ?thesis by (rule clean [where r = ?clean]) (use same t Inr works(2) in simp_all)
      qed
    qed
  qed
qed

text \<open>A run ended, or could not write the row of the next migration.\<close>

definition not_begun :: "Migration list \<Rightarrow> err option \<Rightarrow> bool" where
  "not_begun rest err \<longleftrightarrow>
     (case err of None \<Rightarrow> rest = []
      | Some e \<Rightarrow> (\<exists>m ms. rest = m # ms \<and> e = Wrap (''record migration '' @ migration_ID m) DriverErr))"

text \<open>What a run over the list \<open>todo\<close> did: the migrations it finished, in the order of the list,
  and where it stopped.\<close>

definition recorded_run ::
    "schemaMigration list \<Rightarrow> Migration list \<Rightarrow> store \<Rightarrow> string list \<Rightarrow> err option \<Rightarrow> mdb \<Rightarrow> bool" where
  "recorded_run rows todo s did err d' \<longleftrightarrow>
     (\<exists>finished rest new s1. todo = finished @ rest \<and> did = map migration_ID finished \<and> ups_ran finished s s1 \<and>
        map sm_ID new = did \<and> list_all (\<lambda>r. \<not> sm_Dirty r) new \<and>
        (ledger_rows d' = rows @ new \<and> st_tables (md_store d') = st_tables s1 \<and> not_begun rest err \<or>
         (\<exists>m rest' e row. rest = m # rest' \<and> err = Some e \<and> ledger_rows d' = rows @ new @ [row] \<and>
            sm_ID row = migration_ID m \<and> sm_Dirty row \<and> stopped_at m s1 e (md_store d'))))"

lemma recorded_run_idle:
  assumes "not_begun todo err" and "ledger_rows d' = rows" and "st_tables (md_store d') = st_tables s"
  shows "recorded_run rows todo s [] err d'"
  unfolding recorded_run_def
  by (rule exI [of _ "[]"], rule exI [of _ todo], rule exI [of _ "[]"], rule exI [of _ s]) (use assms in simp)

lemma recorded_run_dirty:
  assumes "ledger_rows d' = rows @ [row]" and "sm_ID row = migration_ID m" and "sm_Dirty row"
    and "stopped_at m s e (md_store d')"
  shows "recorded_run rows (m # todo) s [] (Some e) d'"
  unfolding recorded_run_def
  by (rule exI [of _ "[]"], rule exI [of _ "m # todo"], rule exI [of _ "[]"], rule exI [of _ s]) (use assms in simp)

lemma recorded_run_step:
  assumes "recorded_run (rows @ [row]) todo s2 did err d'" and "sm_ID row = migration_ID m" and "\<not> sm_Dirty row"
    and "mi_Up m = Some up" and "st_tables s1 = st_tables s" and "up s1 = (Inr (), s2')" and "st_tables s2 = st_tables s2'"
  shows "recorded_run rows (m # todo) s (migration_ID m # did) err d'"
proof -
  obtain finished rest new s3 where r: "todo = finished @ rest" "did = map migration_ID finished" "ups_ran finished s2 s3"
      "map sm_ID new = did" "list_all (\<lambda>r. \<not> sm_Dirty r) new"
    and end_of: "ledger_rows d' = (rows @ [row]) @ new \<and> st_tables (md_store d') = st_tables s3 \<and> not_begun rest err \<or>
       (\<exists>m rest' e row'. rest = m # rest' \<and> err = Some e \<and> ledger_rows d' = (rows @ [row]) @ new @ [row'] \<and>
          sm_ID row' = migration_ID m \<and> sm_Dirty row' \<and> stopped_at m s3 e (md_store d'))"
    using assms(1) unfolding recorded_run_def by blast
  have "ups_ran finished s2' s3" using r(3) assms(7) by (cases finished) auto
  then have "ups_ran (m # finished) s s3" using assms(4-6) by auto
  with r assms(2,3) end_of show ?thesis
    unfolding recorded_run_def
    by (intro exI [of _ "m # finished"] exI [of _ rest] exI [of _ "row # new"] exI [of _ s3]) simp
qed

lemma other_ids: "distinct (map migration_ID (m # ms)) \<Longrightarrow> x \<in> set ms \<Longrightarrow> migration_ID x \<noteq> migration_ID m"
  by (metis distinct.simps(2) image_eqI list.map(2) set_map)

lemma apply_all_recorded:
  "md_ledger d = Some rows \<Longrightarrow> apply_all ids ms d = ((did, err), d') \<Longrightarrow> distinct (map migration_ID ms) \<Longrightarrow>
   \<forall>m\<in>set ms. mi_Up m \<noteq> None \<and> (migration_ID m \<in> sm_ID ` set rows \<longrightarrow> migration_ID m \<in> ids) \<Longrightarrow>
     recorded_run rows (filter (\<lambda>m. migration_ID m \<notin> ids) ms) (md_store d) did err d'"
proof (induction ms arbitrary: d rows did err)
  case Nil
  then show ?case
    unfolding recorded_run_def
    by (intro exI [of _ "[]"] exI [of _ "md_store d"]) (auto simp: ledger_rows_def not_begun_def)
next
  case (Cons m ms)
  show ?case
  proof (cases "migration_ID m \<in> ids")
    case True
    with Cons show ?thesis by auto
  next
    case False
    obtain up where up: "mi_Up m = Some up" using Cons.prems(4) by auto
    have fresh: "migration_ID m \<notin> sm_ID ` set rows" using Cons.prems(4) False by auto
    from Cons.prems(1) up fresh show ?thesis
    proof (cases rule: apply_migration_cases [of d rows m])
      case (refused d1)
      then show ?thesis using Cons.prems(2) False by (auto simp: ledger_rows_def not_begun_def intro!: recorded_run_idle)
    next
      case (dirty e d1 r)
      then show ?thesis using Cons.prems(2) False by (auto simp: ledger_rows_def intro!: recorded_run_dirty [of _ _ r])
    next
      case (clean d1 r s1 s2)
      obtain did1 where a: "apply_all ids ms d1 = ((did1, err), d')" "did = migration_ID m # did1"
        using Cons.prems(2) False clean(1) by (auto split: prod.splits)
      have "\<forall>x\<in>set ms. mi_Up x \<noteq> None \<and> (migration_ID x \<in> sm_ID ` set (rows @ [r]) \<longrightarrow> migration_ID x \<in> ids)"
        using Cons.prems(4) clean(3) other_ids [OF Cons.prems(3)] by auto
      from Cons.IH [OF clean(2) a(1) _ this] have
        "recorded_run (rows @ [r]) (filter (\<lambda>m. migration_ID m \<notin> ids) ms) (md_store d1) did1 err d'"
        using Cons.prems(3) by simp
      from recorded_run_step [OF this clean(3,4) up clean(5-7)] show ?thesis using False a(2) by simp
    qed
  qed
qed

text \<open>A list that passes the validation names every migration once and has something to call.\<close>

lemma validate_from_InrD:
  "validate_from seen versions ms = Inr u \<Longrightarrow>
     distinct (map migration_ID ms) \<and> migration_ID ` set ms \<inter> seen = {} \<and> (\<forall>m\<in>set ms. mi_Up m \<noteq> None)"
proof (induction ms arbitrary: seen versions)
  case (Cons m ms)
  then show ?case by (fastforce split: if_splits option.splits)
qed simp

lemma ledger_InrD:
  assumes "ledger d = (Inr ids, d')"
  shows "ids = sm_ID ` set (ledger_rows d)" and "ledger_rows d' = ledger_rows d" and "\<forall>r\<in>set (ledger_rows d). \<not> sm_Dirty r"
    and "st_tables (md_store d') = st_tables (md_store d)"
proof -
  have rows: "applied_ids rows = Inr is \<Longrightarrow> is = sm_ID ` set rows \<and> (\<forall>r\<in>set rows. \<not> sm_Dirty r)" for rows "is"
    by (induction rows arbitrary: "is") (auto split: if_splits simp: map_sum_def split: sum.splits)
  show "ids = sm_ID ` set (ledger_rows d)" "ledger_rows d' = ledger_rows d" "\<forall>r\<in>set (ledger_rows d). \<not> sm_Dirty r"
      "st_tables (md_store d') = st_tables (md_store d)"
    using assms rows
    by (cases rule: on_store_statement [of d];
        fastforce simp: ledger_def ledger_rows_def wrapE_def split: option.splits)+
qed

lemma ledger_same: "ledger_rows (snd (ledger d)) = ledger_rows d" "st_tables (md_store (snd (ledger d))) = st_tables (md_store d)"
  "md_ledger (snd (ledger d)) = md_ledger d"
  by (cases rule: on_store_statement [of d]; auto simp: ledger_def ledger_rows_def wrapE_def split: option.splits)+

lemma migrate_ledger_same:
  assumes "migrate_ledger d = (r, d')"
  shows "ledger_rows d' = ledger_rows d" and "st_tables (md_store d') = st_tables (md_store d)"
    and "r = Inr u \<Longrightarrow> md_ledger d' = Some (ledger_rows d)"
  using assms
  by (cases rule: on_store_statement [of d]; auto simp: migrate_ledger_def ledger_rows_def wrapE_def split: option.splits)+

lemma ledger_InlD:
  assumes "ledger d = (Inl e, d')"
  shows "e = Wrap ''read migration ledger'' DriverErr \<or> (\<exists>r\<in>set (ledger_rows d). sm_Dirty r)"
proof -
  have rows: "applied_ids rows = Inl e \<Longrightarrow> \<exists>r\<in>set rows. sm_Dirty r" for rows
    by (induction rows) (auto split: if_splits simp: map_sum_def split: sum.splits)
  show ?thesis
    using assms rows
    by (cases rule: on_store_statement [of d];
        fastforce simp: ledger_def ledger_rows_def wrapE_def split: option.splits)
qed

text \<open>What a run did before the first migration: nothing, and it named the reason.\<close>

definition refused_run :: "Migration list \<Rightarrow> mdb \<Rightarrow> err \<Rightarrow> mdb \<Rightarrow> bool" where
  "refused_run ms d e d' \<longleftrightarrow> ledger_rows d' = ledger_rows d \<and> st_tables (md_store d') = st_tables (md_store d) \<and>
     (validate_migrations ms = Inl e \<or> (\<exists>r\<in>set (ledger_rows d). sm_Dirty r) \<or>
      e = Wrap ''create migration ledger'' DriverErr \<or> e = Wrap ''read migration ledger'' DriverErr)"

lemma run_migrations_cases:
  assumes "run_migrations ms d = ((did, err), d')"
  obtains (refused) e where "did = []" "err = Some e" "refused_run ms d e d'"
    | (started) d1 where "validate_migrations ms = Inr ()" "\<forall>r\<in>set (ledger_rows d). \<not> sm_Dirty r"
        "md_ledger d1 = Some (ledger_rows d)" "st_tables (md_store d1) = st_tables (md_store d)"
        "apply_all (sm_ID ` set (ledger_rows d)) (ordered ms) d1 = ((did, err), d')"
proof (cases "validate_migrations ms")
  case (Inl e)
  with assms show ?thesis by (intro refused) (auto simp: run_migrations_def refused_run_def)
next
  case (Inr u)
  obtain r d1 where 1: "migrate_ledger d = (r, d1)" by (cases "migrate_ledger d")
  note same = migrate_ledger_same [OF 1]
  show ?thesis
  proof (cases r)
    case (Inl e)
    have "e = Wrap ''create migration ledger'' DriverErr"
      using 1 Inl by (cases rule: on_store_statement [of d]) (auto simp: migrate_ledger_def wrapE_def)
    with assms 1 Inr Inl same(1,2) show ?thesis by (intro refused) (auto simp: run_migrations_def refused_run_def)
  next
    case r: (Inr v)
    obtain q d2 where 2: "ledger d1 = (q, d2)" by (cases "ledger d1")
    note kept = ledger_same [of d1, unfolded 2 snd_conv] same
    show ?thesis
    proof (cases q)
      case (Inl e)
      have "e = Wrap ''read migration ledger'' DriverErr \<or> (\<exists>r\<in>set (ledger_rows d). sm_Dirty r)"
        using ledger_InlD [OF 2 [unfolded Inl]] same(1) by simp
      then have "refused_run ms d e d2" unfolding refused_run_def using kept(1,2,4,5) by metis
      moreover have "did = []" "err = Some e" "d' = d2"
        using assms 1 2 \<open>validate_migrations ms = Inr u\<close> Inl r by (simp_all add: run_migrations_def)
      ultimately show ?thesis using refused by blast
    next
      case q: (Inr ids)
      note l = ledger_InrD [OF 2 [unfolded q]]
      from assms 1 2 Inr r q kept l show ?thesis by (intro started [of d2]) (auto simp: run_migrations_def)
    qed
  qed
qed

lemma sorted_pending:
  "sorted (map migration_ID (filter P (ordered ms)))" "mset (filter P (ordered ms)) = filter_mset P (mset ms)"
  by (simp_all add: ordered_def sorted_filter mset_filter)

text \<open>A run over a working database with migrations that succeed there has no error.\<close>

definition succeeds :: "Migration \<Rightarrow> bool" where
  "succeeds m \<longleftrightarrow> (\<forall>s. st_faults s = [] \<longrightarrow> fst (run_up m s) = Inr () \<and> st_faults (snd (run_up m s)) = [])"

lemma mark_others: "i \<notin> sm_ID ` set rows \<Longrightarrow> map (\<lambda>r. if sm_ID r = i then f r else r) rows = rows"
  by (intro map_idI) (metis image_eqI)

lemma apply_migration_clean:
  assumes "md_ledger d = Some rows" and "st_faults (md_store d) = []" and "succeeds m" and "migration_ID m \<notin> sm_ID ` set rows"
  obtains d' rows' where "apply_migration m d = (Inr (), d')" "md_ledger d' = Some rows'"
    "sm_ID ` set rows' = insert (migration_ID m) (sm_ID ` set rows)" "st_faults (md_store d') = []"
proof -
  obtain s2 where s2: "run_up m (md_store d) = (Inr (), s2)" "st_faults s2 = []"
    using assms(2,3) unfolding succeeds_def by (metis prod.collapse)
  have clean: "store_statement s = (Inr (), s)" if "st_faults s = []" for s :: store
    using that by (simp add: store_statement_def)
  have "\<exists>d' rows'. apply_migration m d = (Inr (), d') \<and> md_ledger d' = Some rows' \<and>
      sm_ID ` set rows' = insert (migration_ID m) (sm_ID ` set rows) \<and> st_faults (md_store d') = []"
    using assms(1,2,4) s2
    by (simp add: apply_migration_def mdb_now_def record_row_def on_store_def clean wrapE_def finalize_row_def mark_others)
  with that show ?thesis by blast
qed

lemma apply_all_clean:
  "md_ledger d = Some rows \<Longrightarrow> st_faults (md_store d) = [] \<Longrightarrow> distinct (map migration_ID ms) \<Longrightarrow>
   \<forall>m\<in>set ms. succeeds m \<and> (migration_ID m \<in> sm_ID ` set rows \<longrightarrow> migration_ID m \<in> ids) \<Longrightarrow>
     snd (fst (apply_all ids ms d)) = None"
proof (induction ms arbitrary: d rows)
  case (Cons m ms)
  show ?case
  proof (cases "migration_ID m \<in> ids")
    case True
    with Cons show ?thesis by auto
  next
    case False
    obtain d1 rows1 where d1: "apply_migration m d = (Inr (), d1)" "md_ledger d1 = Some rows1"
        "sm_ID ` set rows1 = insert (migration_ID m) (sm_ID ` set rows)" "st_faults (md_store d1) = []"
      by (rule apply_migration_clean [OF Cons.prems(1,2), of m]) (use Cons.prems(4) False in auto)
    have "snd (fst (apply_all ids ms d1)) = None"
      by (rule Cons.IH [OF d1(2,4)]) (use Cons.prems(3,4) d1(3) other_ids [OF Cons.prems(3)] in auto)
    then show ?thesis using False d1(1) by (auto split: prod.splits)
  qed
qed simp

lemma working_run:
  assumes "validate_migrations ms = Inr ()" and "list_all (\<lambda>r. \<not> sm_Dirty r) (ledger_rows d)"
    and "st_faults (md_store d) = []" and "\<forall>m\<in>set ms. succeeds m"
  shows "snd (fst (run_migrations ms d)) = None"
proof -
  have ids: "applied_ids rows = Inr (sm_ID ` set rows)" if "list_all (\<lambda>r. \<not> sm_Dirty r) rows" for rows
    using that by (induction rows) simp_all
  have clean: "store_statement s = (Inr (), s)" if "st_faults s = []" for s :: store
    using that by (simp add: store_statement_def)
  let ?d = "d\<lparr>md_ledger := Some (ledger_rows d)\<rparr>"
  have "migrate_ledger d = (Inr (), ?d)"
    using assms(3) by (auto simp: migrate_ledger_def on_store_def clean wrapE_def ledger_rows_def split: option.splits)
  moreover have "ledger ?d = (Inr (sm_ID ` set (ledger_rows d)), ?d)"
    using assms(2,3) by (simp add: ledger_def on_store_def clean wrapE_def ids)
  ultimately have run: "run_migrations ms d = apply_all (sm_ID ` set (ledger_rows d)) (ordered ms) ?d"
    using assms(1) by (simp add: run_migrations_def)
  have "distinct (map migration_ID ms)"
    using assms(1) validate_from_InrD unfolding validate_migrations_def by blast
  then show ?thesis
    unfolding run using assms(3,4) by (intro apply_all_clean [of ?d]) (auto simp: ordered_def distinct_map)
qed

text \<open>C38: the migration runner. Either it refuses before the first migration, with the ledger and the
  tables as they were: the list is malformed, an interrupted migration is on record, or the
  ledger could not be created or read. Or the pending migrations, those of the list whose id
  is not on record, are taken in ascending order of their ids: a first part of them, without
  repetition, is finished, each called once on the tables its predecessor left and recorded
  clean. Without an error that is all of them and the tables are what the last one left. With an error,
  the next one was either not begun, its row could not be written and the tables are what the last finished one left,
  or it was called on them, is recorded dirty, and failed or could not be marked clean. On a
  database that works, with migrations that succeed there, the run has no error.\<close>

lemma migrations_run_in_order:
  assumes "run_migrations ms d = ((did, err), d')"
  shows "((\<exists>e. did = [] \<and> err = Some e \<and> refused_run ms d e d') \<or>
     (\<exists>todo finished rest new s. sorted (map migration_ID todo) \<and>
        mset todo = filter_mset (\<lambda>m. migration_ID m \<notin> sm_ID ` set (ledger_rows d)) (mset ms) \<and>
        todo = finished @ rest \<and> did = map migration_ID finished \<and> distinct did \<and>
        ups_ran finished (md_store d) s \<and> map sm_ID new = did \<and> list_all (\<lambda>r. \<not> sm_Dirty r) new \<and>
        (ledger_rows d' = ledger_rows d @ new \<and> st_tables (md_store d') = st_tables s \<and> not_begun rest err \<or>
         (\<exists>m rest' e row. rest = m # rest' \<and> err = Some e \<and> ledger_rows d' = ledger_rows d @ new @ [row] \<and>
            sm_ID row = migration_ID m \<and> sm_Dirty row \<and> stopped_at m s e (md_store d'))))) \<and>
    (validate_migrations ms = Inr () \<and> list_all (\<lambda>r. \<not> sm_Dirty r) (ledger_rows d) \<and> st_faults (md_store d) = [] \<and>
       (\<forall>m\<in>set ms. succeeds m) \<longrightarrow> err = None)"
  (is "?run \<and> (?works \<longrightarrow> _)")
proof
  show "?works \<longrightarrow> err = None" using working_run [of ms d] assms by auto
  from assms show ?run
  proof (cases rule: run_migrations_cases)
    case (started d1)
    have ms: "distinct (map migration_ID ms)" "\<forall>m\<in>set ms. mi_Up m \<noteq> None"
      using started(1) validate_from_InrD unfolding validate_migrations_def by blast+
    let ?todo = "filter (\<lambda>m. migration_ID m \<notin> sm_ID ` set (ledger_rows d)) (ordered ms)"
    have "recorded_run (ledger_rows d) ?todo (md_store d1) did err d'"
      using ms by (intro apply_all_recorded [OF started(3,5)]) (simp_all add: ordered_def distinct_map)
    then obtain finished rest new s where run: "?todo = finished @ rest" "did = map migration_ID finished"
        "ups_ran finished (md_store d1) s" "map sm_ID new = did" "list_all (\<lambda>r. \<not> sm_Dirty r) new"
      and ending: "ledger_rows d' = ledger_rows d @ new \<and> st_tables (md_store d') = st_tables s \<and> not_begun rest err \<or>
         (\<exists>m rest' e row. rest = m # rest' \<and> err = Some e \<and> ledger_rows d' = ledger_rows d @ new @ [row] \<and>
            sm_ID row = migration_ID m \<and> sm_Dirty row \<and> stopped_at m s e (md_store d'))"
      unfolding recorded_run_def by blast
    have "distinct (map migration_ID ?todo)" using ms(1) by (intro distinct_map_filter) (simp add: ordered_def distinct_map)
    then have "distinct did" using run(1,2) by simp
    moreover have "ups_ran finished (md_store d) s" using run(3) started(4) by (cases finished) auto
    ultimately show ?thesis using run ending sorted_pending [of "\<lambda>m. migration_ID m \<notin> sm_ID ` set (ledger_rows d)" ms]
      by (intro disjI2 exI [of _ ?todo] exI [of _ finished] exI [of _ rest] exI [of _ new] exI [of _ s]) simp
  qed blast
qed

text \<open>An interrupted migration blocks the next. While the ledger holds a dirty row, a run applies nothing
  and changes neither the ledger nor the tables, and the pending migrations are not reported.\<close>

lemma interrupted_migration_blocks:
  assumes "r \<in> set (ledger_rows d)" and "sm_Dirty r"
  shows "(\<exists>e d'. run_migrations ms d = (([], Some e), d') \<and> ledger_rows d' = ledger_rows d \<and>
            st_tables (md_store d') = st_tables (md_store d)) \<and>
         isl (fst (Pending decode order d))"
proof
  have no: "isl (fst (ledger x))" if "ledger_rows x = ledger_rows d" for x
    using ledger_InrD(3) [of x] assms that by (cases "ledger x"; cases "fst (ledger x)") auto
  show "isl (fst (Pending decode order d))"
    using no [OF refl] by (auto simp: Pending_def bindE_def split: prod.split sum.split)
  show "\<exists>e d'. run_migrations ms d = (([], Some e), d') \<and> ledger_rows d' = ledger_rows d \<and>
           st_tables (md_store d') = st_tables (md_store d)"
  proof (cases "validate_migrations ms")
    case (Inl e)
    then show ?thesis by (simp add: run_migrations_def)
  next
    case (Inr u)
    obtain q d1 where 1: "migrate_ledger d = (q, d1)" by (cases "migrate_ledger d")
    note same = migrate_ledger_same [OF 1]
    show ?thesis
    proof (cases q)
      case (Inl e)
      with 1 Inr same show ?thesis by (simp add: run_migrations_def)
    next
      case q: (Inr v)
      obtain t d2 where 2: "ledger d1 = (t, d2)" by (cases "ledger d1")
      then obtain e where "t = Inl e" using no [OF same(1)] by (cases t) auto
      with 1 2 Inr q same ledger_same [of d1] show ?thesis by (simp add: run_migrations_def)
    qed
  qed
qed

section \<open>A sample\<close>

definition sample_decode :: "string \<Rightarrow> err + string list" where
  "sample_decode s = (if s = ''[]'' then Inr [] else Inr [s])"

definition sample_old_table :: dbtable where
  "sample_old_table = \<lparr>tb_Columns = [''id'', ''countries''], tb_Rows = [[''id'' \<mapsto> ''pacc_1'', ''countries'' \<mapsto> ''UG'']]\<rparr>"

text \<open>The third statement of the migration fails.\<close>

definition sample_old :: store where
  "sample_old =
     \<lparr>st_tables = [''provider_accounts'' \<mapsto> sample_old_table], st_faults = [False, False, True], st_clock = 0\<rparr>"

lemma account_location_restarts_witness:
  "fst (upAccountLocation sample_decode rev sample_old) = Inl (Wrap ''add provider currency'' DriverErr) \<and>
   st_tables (snd (upAccountLocation sample_decode id ((snd (upAccountLocation sample_decode rev sample_old))\<lparr>st_faults := []\<rparr>))) =
   st_tables (snd (upAccountLocation sample_decode id (sample_old\<lparr>st_faults := []\<rparr>)))"
proof -
  have t: "trim_space ''UG'' = ''UG''" by code_simp
  have r: "fst (upAccountLocation sample_decode rev sample_old) = Inl (Wrap ''add provider currency'' DriverErr)"
    by (simp add: upAccountLocation_def HasTable_def sample_old_def read_backfill_def legacy_def HasColumn_def
        sample_old_table_def rows_of_table_def store_statement_def wrapE_def bindE_def handleE_def returnE_def throwE_def
        liftE_def sample_decode_def first_country_def Let_def cell_def relocate_def whenever_def AddColumn_def alter_def
        amend_def add_column_def t)
  have o: "reorders rev" "reorders id" by (simp_all add: reorders_def)
  from account_location_restarts [OF o(1) o(2) o(2) prod.collapse [symmetric] prod.collapse [symmetric] prod.collapse [symmetric]] r
  show ?thesis by blast
qed

definition sample_mdb :: mdb where
  "sample_mdb = \<lparr>md_ledger = None, md_store = sample_old\<lparr>st_faults := []\<rparr>\<rparr>"

lemma migrations_run_in_order_witness:
  "\<exists>finished s. fst (fst (Run sample_decode id sample_mdb)) = map migration_ID finished \<and> length finished = 3 \<and>
     ups_ran finished (md_store sample_mdb) s"
proof -
  have run: "run_migrations (All sample_decode id) sample_mdb =
      ((fst (fst (Run sample_decode id sample_mdb)), snd (fst (Run sample_decode id sample_mdb))), snd (Run sample_decode id sample_mdb))"
    by (simp add: Run_def)
  have did: "length (fst (fst (Run sample_decode id sample_mdb))) = 3" by code_simp
  then have some: "fst (fst (Run sample_decode id sample_mdb)) \<noteq> []" by auto
  obtain finished s where r: "fst (fst (Run sample_decode id sample_mdb)) = map migration_ID finished"
      "ups_ran finished (md_store sample_mdb) s"
    using conjunct1 [OF migrations_run_in_order [OF run]] some by blast
  then have "length finished = 3" using did by simp
  with r show ?thesis by blast
qed

lemma interrupted_migration_blocks_witness:
  "isl (fst (Pending sample_decode id (sample_mdb\<lparr>md_ledger :=
     Some [\<lparr>sm_ID = ''0001_baseline'', sm_AppliedAt = 0, sm_DurationMs = 0, sm_Dirty = True\<rparr>]\<rparr>)))"
proof -
  let ?r = "\<lparr>sm_ID = ''0001_baseline'', sm_AppliedAt = 0, sm_DurationMs = 0, sm_Dirty = True\<rparr>"
  have "?r \<in> set (ledger_rows (sample_mdb\<lparr>md_ledger := Some [?r]\<rparr>))" "sm_Dirty ?r" by (simp_all add: ledger_rows_def)
  from interrupted_migration_blocks [OF this] show ?thesis by blast
qed

end
