(* ===== verification/Crypto.thy ===== *)
theory Crypto
  imports World
begin

text \<open>
  \<open>internal/platform/crypto.go\<close>: the encryption of provider configurations, over the base64
  encoding of the standard library. A byte is a character. AES-GCM and the random source are the
  fields of \<open>cipher_env\<close>; \<open>gcm_lawful\<close> is what is relied on: what was sealed under a key and a nonce
  opens under them. The offset a decoding error carries is left out.
\<close>

section \<open>encoding/base64\<close>

definition b64_char :: "nat \<Rightarrow> char" where
  "b64_char n =
     char_of (if n < 26 then n + 65 else if n < 52 then n + 71 else if n < 62 then n - 4 else if n = 62 then 43 else 47)"

definition b64_value :: "char \<Rightarrow> nat option" where
  "b64_value c =
     (let n = (of_char c :: nat) in
      if 65 \<le> n \<and> n \<le> 90 then Some (n - 65)
      else if 97 \<le> n \<and> n \<le> 122 then Some (n - 71)
      else if 48 \<le> n \<and> n \<le> 57 then Some (n + 4)
      else if n = 43 then Some 62
      else if n = 47 then Some 63
      else None)"

abbreviation byte :: "char \<Rightarrow> nat" where "byte c \<equiv> of_char c"

fun b64_encode :: "string \<Rightarrow> string" where
  "b64_encode [] = []"
| "b64_encode [a] = [b64_char (byte a div 4), b64_char (byte a mod 4 * 16), CHR ''='', CHR ''='']"
| "b64_encode [a, b] =
     [b64_char (byte a div 4), b64_char (byte a mod 4 * 16 + byte b div 16), b64_char (byte b mod 16 * 4), CHR ''='']"
| "b64_encode (a # b # c # rest) =
     b64_char (byte a div 4) # b64_char (byte a mod 4 * 16 + byte b div 16) #
     b64_char (byte b mod 16 * 4 + byte c div 64) # b64_char (byte c mod 64) # b64_encode rest"

text \<open>Padding ends the text, and its spare bits are not looked at.\<close>

fun b64_quanta :: "string \<Rightarrow> string option" where
  "b64_quanta [] = Some []"
| "b64_quanta (p # q # r # s # rest) =
     (case (b64_value p, b64_value q) of
        (Some a, Some b) \<Rightarrow>
          if r = CHR ''='' then
            if s = CHR ''='' \<and> rest = [] then Some [char_of (a * 4 + b div 16)] else None
          else
            (case b64_value r of
               None \<Rightarrow> None
             | Some c \<Rightarrow>
                 if s = CHR ''='' then
                   if rest = [] then Some [char_of (a * 4 + b div 16), char_of (b mod 16 * 16 + c div 4)] else None
                 else
                   (case b64_value s of
                      None \<Rightarrow> None
                    | Some d \<Rightarrow>
                        map_option (\<lambda>bs. char_of (a * 4 + b div 16) # char_of (b mod 16 * 16 + c div 4) #
                          char_of (c mod 4 * 64 + d) # bs) (b64_quanta rest)))
      | _ \<Rightarrow> None)"
| "b64_quanta _ = None"

text \<open>Line ends are skipped wherever they stand.\<close>

definition b64_decode :: "string \<Rightarrow> err + string" where
  "b64_decode text =
     (case b64_quanta (filter (\<lambda>c. c \<noteq> char_of (10 :: nat) \<and> c \<noteq> char_of (13 :: nat)) text) of
        None \<Rightarrow> Inl (Msg ''illegal base64 data'')
      | Some bytes \<Rightarrow> Inr bytes)"

lemma equals_sign: "CHR ''='' = char_of (61 :: nat)" "char_of (61 :: nat) \<noteq> char_of (10 :: nat)"
  "char_of (61 :: nat) \<noteq> char_of (13 :: nat)"
  by code_simp simp_all

lemma b64_char_props:
  assumes "n < 64"
  shows "b64_value (b64_char n) = Some n" and "b64_char n \<noteq> CHR ''=''"
    and "b64_char n \<noteq> char_of (10 :: nat)" and "b64_char n \<noteq> char_of (13 :: nat)"
  using assms unfolding equals_sign(1) b64_char_def b64_value_def Let_def
  by auto

lemma byte_less: "byte c < 256"
  by (rule nat_of_char_less_256)

text \<open>The six-bit groups of three bytes, and the bytes of four groups.\<close>

lemma group_less:
  fixes x y z :: nat
  assumes "x < 256" and "y < 256" and "z < 256"
  shows "x div 4 < 64" and "x mod 4 * 16 < 64" and "x mod 4 * 16 + y div 16 < 64" and "y mod 16 * 4 < 64"
    and "y mod 16 * 4 + z div 64 < 64" and "z mod 64 < 64"
proof -
  have "x mod 4 < 4" "y mod 16 < 16" "y div 16 < 16" "z div 64 < 4" "x div 4 < 64"
    using assms by (simp_all add: less_mult_imp_div_less)
  then show "x div 4 < 64" "x mod 4 * 16 < 64" "x mod 4 * 16 + y div 16 < 64" "y mod 16 * 4 < 64"
    "y mod 16 * 4 + z div 64 < 64" "z mod 64 < 64"
    by simp_all
qed

lemmas byte_groups = group_less [OF byte_less byte_less byte_less]

lemma group_bytes:
  fixes x y z :: nat
  assumes "x < 256" and "y < 256" and "z < 256"
  shows "x div 4 * 4 + (x mod 4 * 16) div 16 = x"
    and "x div 4 * 4 + (x mod 4 * 16 + y div 16) div 16 = x"
    and "(x mod 4 * 16 + y div 16) mod 16 * 16 + (y mod 16 * 4) div 4 = y"
    and "(x mod 4 * 16 + y div 16) mod 16 * 16 + (y mod 16 * 4 + z div 64) div 4 = y"
    and "(y mod 16 * 4 + z div 64) mod 4 * 64 + z mod 64 = z"
proof -
  have "y div 16 < 16" "z div 64 < 4" using assms by (simp_all add: less_mult_imp_div_less)
  then have d: "(x mod 4 * 16 + y div 16) div 16 = x mod 4" "(x mod 4 * 16 + y div 16) mod 16 = y div 16"
    "(y mod 16 * 4 + z div 64) div 4 = y mod 16" "(y mod 16 * 4 + z div 64) mod 4 = z div 64"
    by simp_all
  show "x div 4 * 4 + (x mod 4 * 16) div 16 = x" "x div 4 * 4 + (x mod 4 * 16 + y div 16) div 16 = x"
    "(x mod 4 * 16 + y div 16) mod 16 * 16 + (y mod 16 * 4) div 4 = y"
    "(x mod 4 * 16 + y div 16) mod 16 * 16 + (y mod 16 * 4 + z div 64) div 4 = y"
    "(y mod 16 * 4 + z div 64) mod 4 * 64 + z mod 64 = z"
    unfolding d by simp_all
qed

lemma char_of_byte: "n = byte c \<Longrightarrow> char_of n = c"
  by simp

lemmas char_groups = group_bytes [OF byte_less byte_less byte_less, THEN char_of_byte]

lemma b64_quanta_encode: "b64_quanta (b64_encode bytes) = Some bytes"
proof (induction bytes rule: b64_encode.induct)
  case (2 a)
  show ?case by (simp only: b64_encode.simps b64_quanta.simps b64_char_props byte_groups char_groups prod.case option.case if_True simp_thms)
next
  case (3 a b)
  show ?case by (simp only: b64_encode.simps b64_quanta.simps b64_char_props byte_groups char_groups prod.case option.case if_True if_False simp_thms)
next
  case (4 a b c rest)
  then show ?case by (simp only: b64_encode.simps b64_quanta.simps b64_char_props byte_groups char_groups prod.case option.case if_False option.map)
qed simp

lemma b64_encode_one_line:
  "filter (\<lambda>c. c \<noteq> char_of (10 :: nat) \<and> c \<noteq> char_of (13 :: nat)) (b64_encode bytes) = b64_encode bytes"
  by (induction bytes rule: b64_encode.induct)
    (simp_all add: b64_char_props byte_groups equals_sign(2,3) [folded equals_sign(1)])

lemma b64_decode_encode: "b64_decode (b64_encode bytes) = Inr bytes"
  by (simp add: b64_decode_def b64_encode_one_line b64_quanta_encode)

section \<open>crypto.go\<close>

record cipher_env =
  aes_seal :: "string \<Rightarrow> string \<Rightarrow> string \<Rightarrow> string"
  aes_open :: "string \<Rightarrow> string \<Rightarrow> string \<Rightarrow> err + string"
  rand_read :: "nat \<Rightarrow> nat \<Rightarrow> err + string"

record Encryptor =
  en_key :: string

record gcm =
  NonceSize :: nat
  Seal :: "string \<Rightarrow> string \<Rightarrow> string \<Rightarrow> string"
  Open :: "string \<Rightarrow> string \<Rightarrow> err + string"

definition NewEncryptor :: "string \<Rightarrow> err + Encryptor" where
  "NewEncryptor encoded =
     (case b64_decode encoded of
        Inl e \<Rightarrow> Inl (Wrap ''decode encryption key'' e)
      | Inr key \<Rightarrow>
          if length key \<noteq> 32
          then Inl (Msg (''encryption key must decode to exactly 32 bytes, got '' @ format_nat (length key)))
          else Inr \<lparr>en_key = key\<rparr>)"

text \<open>\<open>Seal\<close> appends to its first argument.\<close>

definition aead :: "cipher_env \<Rightarrow> Encryptor \<Rightarrow> err + gcm" where
  "aead C e =
     (if length (en_key e) \<notin> {16, 24, 32}
      then Inl (Msg (''crypto/aes: invalid key size '' @ format_nat (length (en_key e))))
      else Inr \<lparr>NonceSize = 12, Seal = (\<lambda>dst nonce plain. dst @ aes_seal C (en_key e) nonce plain),
                Open = aes_open C (en_key e)\<rparr>)"

definition Encrypt :: "cipher_env \<Rightarrow> Encryptor \<Rightarrow> nat \<Rightarrow> string \<Rightarrow> err + string" where
  "Encrypt C e n plain =
     (case aead C e of
        Inl err \<Rightarrow> Inl err
      | Inr gcm \<Rightarrow>
          (case rand_read C n (NonceSize gcm) of
             Inl err \<Rightarrow> Inl err
           | Inr nonce \<Rightarrow> Inr (b64_encode (Seal gcm nonce nonce plain))))"

definition Decrypt :: "cipher_env \<Rightarrow> Encryptor \<Rightarrow> string \<Rightarrow> err + string" where
  "Decrypt C e encoded =
     (case b64_decode encoded of
        Inl err \<Rightarrow> Inl err
      | Inr raw \<Rightarrow>
          (case aead C e of
             Inl err \<Rightarrow> Inl err
           | Inr gcm \<Rightarrow>
               if length raw < NonceSize gcm then Inl (Msg ''ciphertext too short'')
               else Open gcm (take (NonceSize gcm) raw) (drop (NonceSize gcm) raw)))"

definition gcm_lawful :: "cipher_env \<Rightarrow> bool" where
  "gcm_lawful C \<longleftrightarrow>
     (\<forall>key nonce plain. aes_open C key nonce (aes_seal C key nonce plain) = Inr plain) \<and>
     (\<forall>n k bytes. rand_read C n k = Inr bytes \<longrightarrow> length bytes = k)"

text \<open>The engine with an encryptor in place.\<close>

definition with_encryptor :: "cipher_env \<Rightarrow> Encryptor \<Rightarrow> 'p env \<Rightarrow> 'p env" where
  "with_encryptor C e E = E\<lparr>env_encrypt := Encrypt C e, env_decrypt := Decrypt C e\<rparr>"

lemma NewEncryptor_aead:
  assumes "NewEncryptor k = Inr e"
  shows "\<exists>gcm. aead C e = Inr gcm \<and> NonceSize gcm = 12 \<and> Open gcm = aes_open C (en_key e) \<and>
    Seal gcm = (\<lambda>dst nonce plain. dst @ aes_seal C (en_key e) nonce plain)"
  using assms by (auto simp: NewEncryptor_def aead_def split: sum.splits if_splits)

lemma decrypt_encrypt:
  assumes "NewEncryptor k = Inr e" and "gcm_lawful C" and "Encrypt C e n plain = Inr cipher"
  shows "Decrypt C e cipher = Inr plain"
proof -
  obtain gcm where g: "aead C e = Inr gcm" "NonceSize gcm = 12" "Open gcm = aes_open C (en_key e)"
    "Seal gcm = (\<lambda>dst nonce plain. dst @ aes_seal C (en_key e) nonce plain)"
    using NewEncryptor_aead [OF assms(1)] by blast
  obtain nonce where n: "rand_read C n 12 = Inr nonce"
    and c: "cipher = b64_encode (nonce @ aes_seal C (en_key e) nonce plain)"
    using assms(3) g by (auto simp: Encrypt_def split: sum.splits)
  have "length nonce = 12" using assms(2) n by (auto simp: gcm_lawful_def)
  with assms(2) show ?thesis
    by (simp add: Decrypt_def c b64_decode_encode g gcm_lawful_def)
qed

end
