(* ===== verification/CryptoFacts.thy ===== *)
theory CryptoFacts
  imports Crypto ProviderAdminFacts Samples
begin

text \<open>
  The configuration of a provider account through encryption: what an administrator stores is
  what the runtime manager reads back and loads.
\<close>

lemma with_encryptor_simps [simp]:
  "env_encrypt (with_encryptor C e E) = Encrypt C e" "env_decrypt (with_encryptor C e E) = Decrypt C e"
  "env_config_json (with_encryptor C e E) = env_config_json E"
  "env_config_of_json (with_encryptor C e E) = env_config_of_json E"
  by (simp_all add: with_encryptor_def)

lemma encode_opens:
  assumes "NewEncryptor k = Inr e" and "gcm_lawful C"
    and "encode (with_encryptor C e E) config w = (Inr (cipher, hash), w')"
    and "pa_EncryptedConfigJSON a = cipher"
  shows "\<exists>j. env_config_json E config = Inr j \<and> plain_config (with_encryptor C e E) a = env_config_of_json E j"
  using assms(3,4) decrypt_encrypt [OF assms(1,2)]
  by (auto simp: encode_def bindE_liftE draw_def bindE_def plain_config_def split: sum.splits prod.splits)

lemma Reload_loads:
  assumes "Reload E i w = (Inr u, w')" and "pa_Active a"
    and "List.find (\<lambda>a. pa_ID a = i) (t_providerAccounts (db w)) = Some a"
  shows "\<exists>plain p. plain_config E a = Inr plain \<and> map_of (items w') i = Some p \<and>
    rt_WebhookSecret p = StringAt plain ''webhook_secret'' \<and> rt_ConfigVersion p = pa_ConfigVersion a"
proof -
  obtain account d where read: "on_db (ProviderAccounts_ByID i) w = (Inr account, d)"
    and rest: "(if \<not> pa_Active account then Disable i else
       bindE (liftE (plain_config E account)) (\<lambda>plain.
       bindE (build E (pa_ProviderCode account) (pa_Environment account) plain) (\<lambda>ad.
       bindE (get_world (\<lambda>w. ad_Capabilities ad (outside w))) (\<lambda>caps.
       put_runtime i (fresh_runtime i account plain ad caps))))) d = (Inr u, w')"
    using assms(1) unfolding Reload_def by (rule bindE_InrE)
  have "account = a" using read by (cases rule: account_read) (use assms(3) in simp_all)
  with rest assms(2) show ?thesis
    by (auto elim!: bindE_InrE simp: liftE_def get_world_def put_runtime_def modify_def fresh_runtime_def)
qed

lemma find_rewritten:
  assumes "List.find P xs = Some x" and "\<And>r. P (f r) \<longleftrightarrow> P r"
  shows "List.find P (map (\<lambda>r. if P r then f r else r) xs) = Some (f x)"
  using assms by (induction xs) (auto split: if_splits)

lemma reload_or_restore_Inr:
  assumes "reload_or_restore E act i undo w = (Inr u, w')"
  shows "t_providerAccounts (db w') = t_providerAccounts (db w)" and "act \<Longrightarrow> Reload E i w = (Inr (), w')"
proof -
  obtain r w1 where r: "Reload E i w = (r, w1)" by fastforce
  have rows: "t_providerAccounts (db w1) = t_providerAccounts (db w)"
    using movesD [OF same_tables_Reload r] by (auto simp: same_tables_def db_reads_def)
  show "t_providerAccounts (db w') = t_providerAccounts (db w)" "act \<Longrightarrow> Reload E i w = (Inr (), w')"
    using assms r rows
    by (cases r; auto simp: reload_or_restore_def handleE_def throwE_def split: if_splits prod.splits sum.splits)+
qed

lemma bindE_pair_InrE:
  assumes "bindE m (\<lambda>(x, y). k x y) w = (Inr z, w')"
  obtains x y w1 where "m w = (Inr (x, y), w1)" and "k x y w1 = (Inr z, w')"
  using assms by (auto simp: bindE_def split: prod.splits sum.splits)

lemma UpdateConfig_succeeds:
  assumes "UpdateConfig E auditor actor i config w = (Inr u, w')"
  obtains account bs cipher hash w2 cs w3 undo w4 where
    "List.find (\<lambda>a. pa_ID a = i) (t_providerAccounts (db w)) = Some account"
    and "encode E (cleanProviderConfig config) (consumed bs w) = (Inr (cipher, hash), w2)"
    and "w3 = w2\<lparr>db := t_providerAccounts_update (map (\<lambda>r. if pa_ID r = i then r\<lparr>pa_EncryptedConfigJSON := cipher,
           pa_ConfigHash := hash, pa_ConfigVersion := pa_ConfigVersion r + 1\<rparr> else r)) ((db w2)\<lparr>faults := cs\<rparr>)\<rparr>"
    and "reload_or_restore E (pa_Active account) i undo w3 = (Inr (), w4)"
    and "only_trail w4 w'"
proof -
  let ?audit = "RecordBestEffort auditor (ActorID actor) ''admin'' ''provider_config.updated'' ''provider_account'' i None [] []"
  obtain account w1 where read: "on_db (ProviderAccounts_ByID i) w = (Inr account, w1)" and
    later: "(let config = cleanProviderConfig config in
     bindE (liftE (validateProviderConfig config)) (\<lambda>_.
     bindE (encode E config) (\<lambda>(cipher, hash).
     bindE (on_db (ProviderAccounts_SetConfig i cipher hash)) (\<lambda>_.
     bindE (reload_or_restore E (pa_Active account) i (\<lambda>a.
              a\<lparr>pa_EncryptedConfigJSON := pa_EncryptedConfigJSON account, pa_ConfigHash := pa_ConfigHash account,
                pa_ConfigVersion := pa_ConfigVersion account\<rparr>)) (\<lambda>_. ?audit))))) w1 = (Inr u, w')"
    using assms unfolding UpdateConfig_def by (rule bindE_InrE)
  let ?undo = "\<lambda>a. a\<lparr>pa_EncryptedConfigJSON := pa_EncryptedConfigJSON account, pa_ConfigHash := pa_ConfigHash account,
                pa_ConfigVersion := pa_ConfigVersion account\<rparr>"
  from later have rest: "bindE (encode E (cleanProviderConfig config)) (\<lambda>(cipher, hash).
     bindE (on_db (ProviderAccounts_SetConfig i cipher hash)) (\<lambda>_.
     bindE (reload_or_restore E (pa_Active account) i ?undo) (\<lambda>_. ?audit))) w1 = (Inr u, w')"
    by (simp add: Let_def bindE_liftE split: sum.splits)
  then obtain cipher hash w2 where enc: "encode E (cleanProviderConfig config) w1 = (Inr (cipher, hash), w2)"
    and rest: "bindE (on_db (ProviderAccounts_SetConfig i cipher hash)) (\<lambda>_.
       bindE (reload_or_restore E (pa_Active account) i ?undo) (\<lambda>_. ?audit)) w2 = (Inr u, w')"
    by (rule bindE_pair_InrE)
  from rest obtain u2 w3 where upd: "on_db (ProviderAccounts_SetConfig i cipher hash) w2 = (Inr u2, w3)"
    and rest: "bindE (reload_or_restore E (pa_Active account) i ?undo) (\<lambda>_. ?audit) w3 = (Inr u, w')"
    by (rule bindE_InrE)
  from rest obtain u3 w4 where load: "reload_or_restore E (pa_Active account) i ?undo w3 = (Inr u3, w4)"
    and audit: "?audit w4 = (Inr u, w')"
    by (rule bindE_InrE)
  obtain cs where w3: "w3 = w2\<lparr>db := t_providerAccounts_update (map (\<lambda>r. if pa_ID r = i then r\<lparr>pa_EncryptedConfigJSON := cipher,
           pa_ConfigHash := hash, pa_ConfigVersion := pa_ConfigVersion r + 1\<rparr> else r)) ((db w2)\<lparr>faults := cs\<rparr>)\<rparr>"
    using upd [unfolded ProviderAccounts_SetConfig_def] by (rule providerAccounts.update_step)
  from read show thesis
  proof (cases rule: account_read)
    case (read a bs)
    then show thesis
      using that [of account bs cipher hash w2 w3 cs ?undo w4] enc w3 load movesD [OF trail_RecordBestEffort audit] by simp
  qed simp
qed

text \<open>C40: a stored configuration is read back and loaded. Once an update of a provider configuration has
  succeeded, the account's row opens under the same key to the very JSON text of the configuration, and
  for an active account the runtime in use was built from it, with its webhook secret and version.\<close>

lemma stored_config_opens:
  assumes "NewEncryptor k = Inr e" and "gcm_lawful C" and "distinct (map pa_ID (t_providerAccounts (db w)))"
    and "UpdateConfig (with_encryptor C e E) auditor actor i config w = (Inr u, w')"
  shows "\<exists>j. \<exists>a\<in>set (t_providerAccounts (db w')). pa_ID a = i \<and> env_config_json E (cleanProviderConfig config) = Inr j \<and>
    plain_config (with_encryptor C e E) a = env_config_of_json E j \<and>
    (pa_Active a \<longrightarrow> (\<exists>plain p. env_config_of_json E j = Inr plain \<and> map_of (items w') i = Some p \<and>
       rt_WebhookSecret p = StringAt plain ''webhook_secret'' \<and> rt_ConfigVersion p = pa_ConfigVersion a))"
proof -
  let ?E = "with_encryptor C e E"
  from assms(4) show ?thesis
  proof (cases rule: UpdateConfig_succeeds)
    case (1 account bs cipher hash w2 cs w3 undo w4)
    let ?f = "\<lambda>a. a\<lparr>pa_EncryptedConfigJSON := cipher, pa_ConfigHash := hash, pa_ConfigVersion := pa_ConfigVersion a + 1\<rparr>"
    have rows3: "t_providerAccounts (db w3) = map (\<lambda>r. if pa_ID r = i then ?f r else r) (t_providerAccounts (db w))"
      using encode_step(1) [OF 1(2)] 1(3) by simp
    obtain j where j: "env_config_json E (cleanProviderConfig config) = Inr j" "plain_config ?E (?f account) = env_config_of_json E j"
      using encode_opens [OF assms(1,2) 1(2), of "?f account"] by auto
    note own = only_account [OF assms(3) 1(1)]
    have found3: "List.find (\<lambda>a. pa_ID a = i) (t_providerAccounts (db w3)) = Some (?f account)"
      unfolding rows3 using 1(1) by (rule find_rewritten) simp
    have runtime: "\<exists>plain p. plain_config ?E (?f account) = Inr plain \<and> map_of (items w4) i = Some p \<and>
        rt_WebhookSecret p = StringAt plain ''webhook_secret'' \<and> rt_ConfigVersion p = pa_ConfigVersion (?f account)"
      if act: "pa_Active account"
      using reload_or_restore_Inr(2) [OF 1(4) act] by (rule Reload_loads [OF _ _ found3]) (simp add: act)
    have last: "t_providerAccounts (db w') = t_providerAccounts (db w4)" "items w' = items w4"
      using only_trail_fields(9,16) 1(5) by blast+
    have "?f account \<in> set (t_providerAccounts (db w'))"
      using find_Some_in_set [OF found3] reload_or_restore_Inr(1) [OF 1(4)] last(1) by simp
    then show ?thesis
      using j own(2) runtime last(2) by (intro exI [of _ j] bexI [of _ "?f account"]) auto
  qed
qed

definition sample_cipher :: cipher_env where
  "sample_cipher = \<lparr>aes_seal = (\<lambda>key nonce plain. plain), aes_open = (\<lambda>key nonce box. Inr box),
     rand_read = (\<lambda>n k. Inr (replicate k CHR ''n''))\<rparr>"

definition sample_key :: string where "sample_key = b64_encode (replicate 32 CHR ''k'')"

lemma sample_encryptor: "NewEncryptor sample_key = Inr \<lparr>en_key = replicate 32 CHR ''k''\<rparr>" "gcm_lawful sample_cipher"
  by (simp_all add: NewEncryptor_def sample_key_def b64_decode_encode gcm_lawful_def sample_cipher_def)

lemma stored_config_opens_witness:
  "\<exists>a\<in>set (t_providerAccounts (db (snd (UpdateConfig (with_encryptor sample_cipher \<lparr>en_key = replicate 32 CHR ''k''\<rparr> sample_env)
       None None ''pacc_1'' [(''webhook_secret'', GStr ''s3cret'')] sample_world)))).
     plain_config (with_encryptor sample_cipher \<lparr>en_key = replicate 32 CHR ''k''\<rparr> sample_env) a =
       Inr [(''webhook_secret'', GStr ''s3cret'')]"
proof -
  let ?E = "with_encryptor sample_cipher \<lparr>en_key = replicate 32 CHR ''k''\<rparr> sample_env"
  let ?c = "[(''webhook_secret'', GStr ''s3cret'')]"
  have "fst (UpdateConfig ?E None None ''pacc_1'' ?c sample_world) = Inr ()" by code_simp
  then have run: "UpdateConfig ?E None None ''pacc_1'' ?c sample_world =
      (Inr (), snd (UpdateConfig ?E None None ''pacc_1'' ?c sample_world))"
    by (metis prod.collapse)
  have "distinct (map pa_ID (t_providerAccounts (db sample_world)))" by (simp add: sample_defs)
  from stored_config_opens [OF sample_encryptor this run] show ?thesis by (auto simp: sample_env_def)
qed

end
