(* ===== verification/Config.thy ===== *)
theory Config
  imports Crypto
begin

text \<open>
  \<open>internal/bootstrap/config.go\<close>: the configuration of an instance, its development defaults and the
  checks a staging or production start passes.
\<close>

record AppConfig =
  ac_Name :: string
  ac_Env :: string
  ac_Addr :: string
  ac_PublicURL :: string
  ac_CORSAllowedOrigins :: "string list"
  ac_TrustedProxyCIDRs :: "string list"
  ac_PublicDir :: string

record LogConfig =
  lc_Level :: string

record DatabaseConfig =
  dc_Type :: string
  dc_Path :: string
  dc_Host :: string
  dc_Port :: string
  dc_User :: string
  dc_Password :: string
  dc_Name :: string
  dc_SSLMode :: string

record SecurityConfig =
  sc_EncryptionMasterKeyBase64 :: string
  sc_AdminOAuthSecret :: string
  sc_AppOAuthSecret :: string
  sc_AdminAccessTTL :: duration
  sc_AdminRefreshTTL :: duration
  sc_AppAccessTTL :: duration
  sc_AppRefreshTTL :: duration
  sc_AppClientIDPrefix :: string
  sc_AppClientSecretPrefix :: string

record WorkersConfig =
  wc_Enabled :: bool
  wc_HealthEnabled :: bool
  wc_ReconciliationEnabled :: bool
  wc_CleanupEnabled :: bool
  wc_HealthInterval :: duration
  wc_ReconciliationInterval :: duration
  wc_CleanupInterval :: duration

record FeaturesConfig =
  fc_AutoMigrate :: bool

record config =
  cfg_App :: AppConfig
  cfg_Log :: LogConfig
  cfg_DB :: DatabaseConfig
  cfg_Security :: SecurityConfig
  cfg_Workers :: WorkersConfig
  cfg_Features :: FeaturesConfig

definition DefaultEncryptionMasterKeyBase64 :: string where
  "DefaultEncryptionMasterKeyBase64 = ''AAAAAAAAAAAAAAAAAAAAAAAAAAAAAAAAAAAAAAAAAAA=''"

definition DefaultAdminOAuthSecret :: string where
  "DefaultAdminOAuthSecret = ''change-me-admin-oauth-secret-at-least-32-chars''"

definition DefaultAppOAuthSecret :: string where
  "DefaultAppOAuthSecret = ''change-me-app-oauth-secret-at-least-32-chars''"

definition DefaultConfig :: config where
  "DefaultConfig =
     \<lparr>cfg_App =
        \<lparr>ac_Name = ''momobase'', ac_Env = ''development'', ac_Addr = '':9090'',
         ac_PublicURL = ''http://localhost:9090'', ac_CORSAllowedOrigins = [''http://localhost:9090''],
         ac_TrustedProxyCIDRs = [], ac_PublicDir = ''mb_public''\<rparr>,
      cfg_Log = \<lparr>lc_Level = ''info''\<rparr>,
      cfg_DB =
        \<lparr>dc_Type = ''sqlite'', dc_Path = ''./data/momobase.db'', dc_Host = ''localhost'', dc_Port = ''5432'',
         dc_User = ''momobase'', dc_Password = [], dc_Name = ''momobase'', dc_SSLMode = ''disable''\<rparr>,
      cfg_Security =
        \<lparr>sc_EncryptionMasterKeyBase64 = DefaultEncryptionMasterKeyBase64,
         sc_AdminOAuthSecret = DefaultAdminOAuthSecret, sc_AppOAuthSecret = DefaultAppOAuthSecret,
         sc_AdminAccessTTL = 15 * minute, sc_AdminRefreshTTL = 24 * hour,
         sc_AppAccessTTL = 30 * minute, sc_AppRefreshTTL = 24 * hour,
         sc_AppClientIDPrefix = ''app_client'', sc_AppClientSecretPrefix = ''mb_test''\<rparr>,
      cfg_Workers =
        \<lparr>wc_Enabled = True, wc_HealthEnabled = True, wc_ReconciliationEnabled = True, wc_CleanupEnabled = True,
         wc_HealthInterval = 30 * second, wc_ReconciliationInterval = 60 * second,
         wc_CleanupInterval = 300 * second\<rparr>,
      cfg_Features = \<lparr>fc_AutoMigrate = True\<rparr>\<rparr>"

text \<open>The secrets of both token managers meet the same check.\<close>

definition weak_secret :: "string \<Rightarrow> bool" where
  "weak_secret secret \<longleftrightarrow> length secret < 32 \<or> has_prefix ''change-me-'' secret"

definition Config_Validate :: "config \<Rightarrow> err + unit" where
  "Config_Validate c =
     (let env = ac_Env (cfg_App c); db = cfg_DB c; security = cfg_Security c in
      if env \<noteq> ''production'' \<and> env \<noteq> ''staging'' then Inr ()
      else if sc_EncryptionMasterKeyBase64 security = DefaultEncryptionMasterKeyBase64
      then Inl (Msg (''Security.EncryptionMasterKeyBase64 must be changed for '' @ env))
      else if weak_secret (sc_AdminOAuthSecret security)
      then Inl (Msg (''Security.AdminOAuthSecret must be at least 32 non-default characters for '' @ env))
      else if weak_secret (sc_AppOAuthSecret security)
      then Inl (Msg (''Security.AppOAuthSecret must be at least 32 non-default characters for '' @ env))
      else if \<not> has_prefix ''https://'' (ac_PublicURL (cfg_App c))
      then Inl (Msg (''App.PublicURL must use https:// for '' @ env))
      else if ''*'' \<in> set (ac_CORSAllowedOrigins (cfg_App c))
      then Inl (Msg ''App.CORSAllowedOrigins must not contain * in production'')
      else if dc_Type db = ''postgres'' \<and> dc_SSLMode db = ''disable'' \<and> dc_Host db \<noteq> ''db'' \<and>
              dc_Host db \<noteq> ''localhost'' \<and> dc_Host db \<noteq> ''127.0.0.1''
      then Inl (Msg ''DB.SSLMode must be enabled for remote postgres'')
      else Inr ())"

text \<open>A start outside development has replaced every development setting.\<close>

definition hardened :: "config \<Rightarrow> bool" where
  "hardened c \<longleftrightarrow>
     sc_EncryptionMasterKeyBase64 (cfg_Security c) \<noteq> DefaultEncryptionMasterKeyBase64 \<and>
     (\<forall>secret\<in>{sc_AdminOAuthSecret (cfg_Security c), sc_AppOAuthSecret (cfg_Security c)}.
        32 \<le> length secret \<and> secret \<notin> {DefaultAdminOAuthSecret, DefaultAppOAuthSecret}) \<and>
     has_prefix ''https://'' (ac_PublicURL (cfg_App c)) \<and>
     ''*'' \<notin> set (ac_CORSAllowedOrigins (cfg_App c)) \<and>
     (dc_Type (cfg_DB c) = ''postgres'' \<and> dc_SSLMode (cfg_DB c) = ''disable'' \<longrightarrow>
        dc_Host (cfg_DB c) \<in> {''db'', ''localhost'', ''127.0.0.1''})"

lemma Config_Validate_hardened:
  assumes "Config_Validate c = Inr ()" and "ac_Env (cfg_App c) \<in> {''production'', ''staging''}"
  shows "hardened c"
proof -
  have "has_prefix ''change-me-'' DefaultAdminOAuthSecret" "has_prefix ''change-me-'' DefaultAppOAuthSecret" by code_simp+
  then have "secret \<notin> {DefaultAdminOAuthSecret, DefaultAppOAuthSecret}" if "\<not> weak_secret secret" for secret
    using that by (auto simp: weak_secret_def)
  moreover have "32 \<le> length secret" if "\<not> weak_secret secret" for secret
    using that by (simp add: weak_secret_def)
  ultimately show ?thesis
    using assms unfolding Config_Validate_def Let_def hardened_def by (simp split: if_splits)
qed

lemma b64_zeros:
  assumes "byte z = 0"
  shows "b64_encode (z # z # z # bytes) = CHR ''A'' # CHR ''A'' # CHR ''A'' # CHR ''A'' # b64_encode bytes"
    and "b64_encode [z, z] = ''AAA=''"
proof -
  have "b64_char 0 = CHR ''A''" by code_simp
  with assms show "b64_encode (z # z # z # bytes) = CHR ''A'' # CHR ''A'' # CHR ''A'' # CHR ''A'' # b64_encode bytes"
    "b64_encode [z, z] = ''AAA=''"
    by simp_all
qed

lemma default_key: "NewEncryptor DefaultEncryptionMasterKeyBase64 = Inr \<lparr>en_key = replicate 32 (char_of (0 :: nat))\<rparr>"
proof -
  define z where "z = char_of (0 :: nat)"
  then have z: "byte z = 0" by simp
  have "replicate 32 z = [z, z, z, z, z, z, z, z, z, z, z, z, z, z, z, z, z, z, z, z, z, z, z, z, z, z, z, z, z, z, z, z]"
    by (simp add: numeral_eq_Suc)
  then have "DefaultEncryptionMasterKeyBase64 = b64_encode (replicate 32 z)"
    by (simp only: DefaultEncryptionMasterKeyBase64_def b64_zeros [OF z])
  then have "b64_decode DefaultEncryptionMasterKeyBase64 = Inr (replicate 32 z)" by (metis b64_decode_encode)
  then show ?thesis by (simp add: NewEncryptor_def z_def)
qed

end
