(* ===== verification/Workers.thy ===== *)
theory Workers
  imports World
begin

text \<open>
  \<open>internal/workers/manager.go\<close>: named background tasks, each run at once and then on its ticker until
  the context of the manager ends. A goroutine is in one of the places of its loop; the result of an
  iteration goes to the log. The run of a task is one step, at its end.
\<close>

record 'p Task =
  tk_Name :: string
  tk_Interval :: duration
  tk_Run :: "('p, unit) act"

record 'p Manager =
  mg_log :: bool
  mg_tasks :: "'p Task list"

definition NewManager :: "bool \<Rightarrow> 'p Task list \<Rightarrow> 'p Manager" where
  "NewManager log tasks = \<lparr>mg_log = log, mg_tasks = tasks\<rparr>"

definition Names :: "'p Manager \<Rightarrow> string list" where
  "Names m = map tk_Name (mg_tasks m)"

text \<open>Where a goroutine stands: in its first run, in a later one, in the \<open>select\<close>, returned, or
  panicked, as \<open>time.NewTicker\<close> does for an interval that is not positive.\<close>

datatype loop = FirstRun | LaterRun | Selecting | Stopped | Panicked

definition running :: "loop \<Rightarrow> bool" where "running l \<longleftrightarrow> l = FirstRun \<or> l = LaterRun"

text \<open>\<open>Start\<close> adds one goroutine per task to the wait group; \<open>Wait\<close> returns when all have returned.\<close>

definition Start :: "'p Manager \<Rightarrow> ('p Task \<times> loop) list \<Rightarrow> ('p Task \<times> loop) list" where
  "Start m gs = gs @ map (\<lambda>t. (t, FirstRun)) (mg_tasks m)"

definition Wait :: "('p Task \<times> loop) list \<Rightarrow> bool" where
  "Wait gs \<longleftrightarrow> (\<forall>(t, l)\<in>set gs. l = Stopped)"

definition log_iteration :: "'p Manager \<Rightarrow> 'p Task \<Rightarrow> err + unit \<Rightarrow> string list \<Rightarrow> string list" where
  "log_iteration m t r lines =
     (case r of
        Inr _ \<Rightarrow> lines
      | Inl e \<Rightarrow>
          if \<not> errors_is e CtxErr \<and> mg_log m
          then lines @ [''worker iteration failed worker='' @ tk_Name t @ '' error='' @ error_text e]
          else lines)"

text \<open>After an iteration: the ticker is made once, after the first.\<close>

definition next_loop :: "'p Task \<Rightarrow> loop \<Rightarrow> loop" where
  "next_loop t l = (if l = FirstRun \<and> tk_Interval t \<le> 0 then Panicked else Selecting)"

text \<open>A run sees the context as ended only if it has.\<close>

definition under_context :: "bool \<Rightarrow> 'p world \<Rightarrow> 'p world" where
  "under_context ended w = w\<lparr>outside := (outside w)\<lparr>gone := ended\<rparr>\<rparr>"

inductive worker_step ::
    "'p Manager \<Rightarrow> bool \<Rightarrow> 'p Task \<Rightarrow> loop \<times> 'p world \<times> string list \<Rightarrow> loop \<times> 'p world \<times> string list \<Rightarrow> bool"
  for m cancelled t where
  iteration: "running l \<Longrightarrow> (seen \<longrightarrow> cancelled) \<Longrightarrow> tk_Run t (under_context seen w) = (r, w') \<Longrightarrow>
     worker_step m cancelled t (l, w, lines) (next_loop t l, w', log_iteration m t r lines)"
| tick: "worker_step m cancelled t (Selecting, w, lines) (LaterRun, w, lines)"
| stop: "cancelled \<Longrightarrow> worker_step m cancelled t (Selecting, w, lines) (Stopped, w, lines)"

inductive_cases worker_stepE: "worker_step m cancelled t (l, w, lines) (l', w', lines')"

lemma worker_moves_on:
  assumes "worker_step m cancelled t (l, w, lines) (l', w', lines')"
  shows "l' \<noteq> FirstRun" and "l \<noteq> Stopped" and "l \<noteq> Panicked" and "l' = Stopped \<Longrightarrow> cancelled \<and> w' = w"
    and "l' = Panicked \<Longrightarrow> tk_Interval t \<le> 0"
    and "l = FirstRun \<Longrightarrow> l' \<noteq> Stopped"
  using assms by (auto elim!: worker_stepE simp: running_def next_loop_def split: if_splits)

text \<open>A worker can always go on, and has a way to its end once the context has ended.\<close>

lemma worker_can_move:
  assumes "l \<noteq> Stopped" and "l \<noteq> Panicked"
  shows "\<exists>l' w' lines'. worker_step m cancelled t (l, w, lines) (l', w', lines')"
proof (cases "running l")
  case True
  obtain r w' where "tk_Run t (under_context False w) = (r, w')" by fastforce
  from worker_step.iteration [OF True _ this] show ?thesis by blast
next
  case False
  with assms have "l = Selecting" by (cases l) (auto simp: running_def)
  then show ?thesis using worker_step.tick by blast
qed

end
