(* ===== verification/Bootstrap.thy ===== *)
theory Bootstrap
  imports Config Workers Migrations Router
begin

text \<open>
  \<open>internal/bootstrap\<close>: opening the database, settling the schema, constructing the application and
  its background tasks, and closing the database again (\<open>app.go\<close>, \<open>database.go\<close>, \<open>migrate.go\<close>,
  \<open>logger.go\<close>), with \<open>NewTokenManager\<close> of \<open>internal/platform/token.go\<close>.

  The machine is the open connection pools, the schema on disk, the state of the engine and the log.
  What the ORM, its drivers and the operating system do is in \<open>boot_env\<close>: connecting, making the
  directory a file path lies in (\<open>be_mkdir_of\<close>: \<open>MkdirAll\<close> of its \<open>filepath.Dir\<close>), converging the
  schema with the models, and \<open>be_tables\<close>, the rows the repositories see in a database.
\<close>

record 'p machine =
  mc_pools :: int
  mc_disk :: mdb
  mc_world :: "'p world"
  mc_lines :: "string list"

type_synonym ('p, 'a) boot = "('p machine, 'a) oper"

record 'p boot_env =
  be_http :: "'p http_env"
  be_cipher :: cipher_env
  be_keyed :: "string \<Rightarrow> auth_env"
  be_open :: "string \<Rightarrow> string \<Rightarrow> err + unit"
  be_pool :: "err + unit"
  be_close :: "err + unit"
  be_mkdir_of :: "string \<Rightarrow> err + unit"
  be_is_dir :: "string \<Rightarrow> bool"
  be_countries :: "string \<Rightarrow> err + string list"
  be_order :: map_order
  be_converge :: "mdb \<Rightarrow> err + mdb"
  be_tables :: "mdb \<Rightarrow> db"
  be_marshal :: "gmap option \<Rightarrow> err + string"

definition on_engine :: "('p, 'a) act \<Rightarrow> ('p, 'a) boot" where
  "on_engine f m = (case f (mc_world m) of (r, w) \<Rightarrow> (r, m\<lparr>mc_world := w\<rparr>))"

definition emit :: "string \<Rightarrow> ('p, unit) boot" where
  "emit line m = (Inr (), m\<lparr>mc_lines := mc_lines m @ [line]\<rparr>)"

section \<open>logger.go and database.go\<close>

datatype log_level = LevelDebug | LevelInfo | LevelWarn | LevelError

definition newLogger :: "string \<Rightarrow> log_level" where
  "newLogger level =
     (if level = ''debug'' then LevelDebug else if level = ''warn'' then LevelWarn
      else if level = ''error'' then LevelError else LevelInfo)"

definition open_pool :: "'p boot_env \<Rightarrow> string \<Rightarrow> string \<Rightarrow> ('p, unit) boot" where
  "open_pool B driver dsn =
     bindE (liftE (be_open B driver dsn)) (\<lambda>_ m. (Inr (), m\<lparr>mc_pools := mc_pools m + 1\<rparr>))"

definition openDatabase :: "'p boot_env \<Rightarrow> config \<Rightarrow> ('p, unit) boot" where
  "openDatabase B cfg =
     (let c = cfg_DB cfg in
      if dc_Type c = ''sqlite'' then
        bindE (liftE (be_mkdir_of B (dc_Path c))) (\<lambda>_.
        open_pool B ''sqlite'' (dc_Path c @ ''?_pragma=journal_mode(WAL)''))
      else if dc_Type c = ''postgres'' then
        open_pool B ''postgres''
          (''host='' @ dc_Host c @ '' user='' @ dc_User c @ '' password='' @ dc_Password c @ '' dbname='' @ dc_Name c @
           '' port='' @ dc_Port c @ '' sslmode='' @ dc_SSLMode c @ '' TimeZone=UTC'')
      else if dc_Type c = ''mysql'' then
        open_pool B ''mysql''
          (dc_User c @ '':'' @ dc_Password c @ ''@tcp('' @ dc_Host c @ '':'' @ dc_Port c @ '')/'' @ dc_Name c @
           ''?charset=utf8mb4&parseTime=True&loc=UTC'')
      else throwE (Msg (''unsupported DB.Type '' @ quoted (dc_Type c))))"

text \<open>A pool that reports an error while closing is closed.\<close>

definition closeDatabase :: "'p boot_env \<Rightarrow> ('p, unit) boot" where
  "closeDatabase B =
     bindE (wrapE ''access database pool'' (liftE (be_pool B))) (\<lambda>_.
     wrapE ''close database pool'' (\<lambda>m. (be_close B, m\<lparr>mc_pools := mc_pools m - 1\<rparr>)))"

section \<open>migrate.go\<close>

definition AutoMigrate :: "'p boot_env \<Rightarrow> ('p, unit) boot" where
  "AutoMigrate B m =
     (case be_converge B (mc_disk m) of
        Inl e \<Rightarrow> (Inl e, m)
      | Inr d \<Rightarrow> (Inr (), m\<lparr>mc_disk := d\<rparr>))"

definition run_pending :: "'p boot_env \<Rightarrow> ('p, string list) boot" where
  "run_pending B m =
     (case Run (be_countries B) (be_order B) (mc_disk m) of
        ((ids, e), d) \<Rightarrow> (case e of None \<Rightarrow> Inr ids | Some err \<Rightarrow> Inl err, m\<lparr>mc_disk := d\<rparr>))"

definition Migrate :: "'p boot_env \<Rightarrow> bool \<Rightarrow> ('p, unit) boot" where
  "Migrate B log =
     bindE (run_pending B) (\<lambda>ids.
     bindE (if ids \<noteq> [] \<and> log then emit (''schema migrations applied '' @ join_with '','' ids) else returnE ()) (\<lambda>_.
     AutoMigrate B))"

definition pending_on_disk :: "'p boot_env \<Rightarrow> ('p, string list) boot" where
  "pending_on_disk B m =
     (case Pending (be_countries B) (be_order B) (mc_disk m) of (r, d) \<Rightarrow> (r, m\<lparr>mc_disk := d\<rparr>))"

definition warnPendingMigrations :: "'p boot_env \<Rightarrow> bool \<Rightarrow> ('p, unit) boot" where
  "warnPendingMigrations B log =
     (if \<not> log then returnE ()
      else handleE (pending_on_disk B) (\<lambda>r.
        case r of
          Inl e \<Rightarrow> emit (''cannot read the migration ledger error='' @ error_text e)
        | Inr ids \<Rightarrow>
            if ids \<noteq> []
            then emit (''schema migrations are pending and Features.AutoMigrate is disabled; call Instance.Migrate pending=''
                       @ join_with '','' ids)
            else returnE ()))"

section \<open>app.go: construction\<close>

definition NewTokenManager :: "string \<Rightarrow> err + string" where
  "NewTokenManager secret =
     (if length (trim_space secret) < 32 then Inl (Msg ''token secret must be at least 32 characters'') else Inr secret)"

definition cleanup_run :: "('p, unit) act" where
  "cleanup_run =
     bindE Now (\<lambda>t.
     Within (
       bindE (on_db (AdminSessions_DeleteExpired t)) (\<lambda>_.
       bindE (on_db (AppSessions_DeleteExpired t)) (\<lambda>_. returnE ()))))"

definition workerTasks :: "config \<Rightarrow> 'p env \<Rightarrow> 'p Task list" where
  "workerTasks cfg E =
     (let c = cfg_Workers cfg in
      if \<not> wc_Enabled c then []
      else
        (if wc_HealthEnabled c
         then [\<lparr>tk_Name = ''health'', tk_Interval = wc_HealthInterval c, tk_Run = CheckAll\<rparr>] else []) @
        (if wc_ReconciliationEnabled c
         then [\<lparr>tk_Name = ''reconciliation'', tk_Interval = wc_ReconciliationInterval c, tk_Run = RunOnce E True 100\<rparr>]
         else []) @
        (if wc_CleanupEnabled c
         then [\<lparr>tk_Name = ''cleanup'', tk_Interval = wc_CleanupInterval c, tk_Run = cleanup_run\<rparr>] else []))"

definition resolvePublicDir :: "'p boot_env \<Rightarrow> string \<Rightarrow> string" where
  "resolvePublicDir B dir = (if dir = [] \<or> \<not> be_is_dir B dir then [] else dir)"

record 'p application =
  ap_Logger :: log_level
  ap_http :: "'p http_env"
  ap_Workers :: "'p Manager"
  ap_Addr :: string
  ap_PublicDir :: string

definition admin_auth :: "'p boot_env \<Rightarrow> config \<Rightarrow> string \<Rightarrow> auth_env" where
  "admin_auth B cfg key =
     (be_keyed B key)\<lparr>auth_accessTTL := sc_AdminAccessTTL (cfg_Security cfg),
       auth_refreshTTL := sc_AdminRefreshTTL (cfg_Security cfg),
       auth_audit := Some (be_marshal B), auth_authz := True\<rparr>"

definition app_auth :: "'p boot_env \<Rightarrow> config \<Rightarrow> string \<Rightarrow> auth_env" where
  "app_auth B cfg key =
     (be_keyed B key)\<lparr>auth_accessTTL := sc_AppAccessTTL (cfg_Security cfg),
       auth_refreshTTL := sc_AppRefreshTTL (cfg_Security cfg),
       auth_clientPrefix := sc_AppClientIDPrefix (cfg_Security cfg),
       auth_secretPrefix := sc_AppClientSecretPrefix (cfg_Security cfg),
       auth_audit := Some (be_marshal B)\<rparr>"

text \<open>The services, the manager and the router over one set of repositories.\<close>

definition assemble_app ::
    "'p boot_env \<Rightarrow> config \<Rightarrow> log_level \<Rightarrow> 'p registry \<Rightarrow> Encryptor \<Rightarrow> string \<Rightarrow> string \<Rightarrow> 'p application" where
  "assemble_app B cfg log registry enc adminKey appKey =
     (let H = be_http B;
          E = (with_encryptor (be_cipher B) enc (he_env H))\<lparr>env_registry := registry\<rparr>;
          manager = NewManager True (workerTasks cfg E)
      in \<lparr>ap_Logger = log, ap_http = H\<lparr>he_env := E, he_auth := admin_auth B cfg adminKey, he_app_auth := app_auth B cfg appKey,
            he_dialect := dc_Type (cfg_DB cfg),
            he_system := \<lparr>sys_AppName = ac_Name (cfg_App cfg), sys_AppEnv = ac_Env (cfg_App cfg),
              sys_DBType = dc_Type (cfg_DB cfg), sys_Addr = ac_Addr (cfg_App cfg),
              sys_WorkersEnabled = wc_Enabled (cfg_Workers cfg), sys_WorkerNames = Names manager\<rparr>\<rparr>,
          ap_Workers = manager, ap_Addr = ac_Addr (cfg_App cfg),
          ap_PublicDir = resolvePublicDir B (ac_PublicDir (cfg_App cfg))\<rparr>)"

text \<open>The repositories over the settled schema, an empty set of runtimes and no hook bound.\<close>

definition connect_engine :: "'p boot_env \<Rightarrow> ('p, unit) boot" where
  "connect_engine B m =
     (Inr (), m\<lparr>mc_world := (mc_world m)\<lparr>db := be_tables B (mc_disk m), items := [], hooks := NewHookRegistry\<rparr>\<rparr>)"

definition construct :: "'p boot_env \<Rightarrow> config \<Rightarrow> log_level \<Rightarrow> 'p registry \<Rightarrow> ('p, 'p application) boot" where
  "construct B cfg log registry =
     bindE (if fc_AutoMigrate (cfg_Features cfg) then Migrate B True else warnPendingMigrations B True) (\<lambda>_.
     bindE (liftE (NewEncryptor (sc_EncryptionMasterKeyBase64 (cfg_Security cfg)))) (\<lambda>enc.
     bindE (liftE (NewTokenManager (sc_AdminOAuthSecret (cfg_Security cfg)))) (\<lambda>adminKey.
     bindE (liftE (NewTokenManager (sc_AppOAuthSecret (cfg_Security cfg)))) (\<lambda>appKey.
     bindE (connect_engine B) (\<lambda>_.
     bindE (on_engine (on_db PaymentRoutes_UnsupportedMethods)) (\<lambda>unsupported.
     bindE (failIf (unsupported \<noteq> [])
       (Msg (''payment routes use unsupported methods: '' @ join_with '', '' unsupported))) (\<lambda>_.
     bindE (on_engine Seed) (\<lambda>_.
     returnE (assemble_app B cfg log registry enc adminKey appKey)))))))))"

text \<open>The deferred close: a construction that fails gives the database back.\<close>

definition or_close :: "'p boot_env \<Rightarrow> ('p, 'a) boot \<Rightarrow> ('p, 'a) boot" where
  "or_close B run =
     handleE run (\<lambda>r.
     case r of
       Inl e \<Rightarrow> handleE (closeDatabase B) (\<lambda>_. throwE e)
     | Inr x \<Rightarrow> returnE x)"

definition NewApp ::
    "'p boot_env \<Rightarrow> config \<Rightarrow> log_level option \<Rightarrow> 'p registry \<Rightarrow> ('p, 'p application) boot" where
  "NewApp B cfg log registry =
     bindE (liftE (Config_Validate cfg)) (\<lambda>_.
     let log = (case log of None \<Rightarrow> newLogger (lc_Level (cfg_Log cfg)) | Some l \<Rightarrow> l) in
     bindE (openDatabase B cfg) (\<lambda>_.
     or_close B (construct B cfg log registry)))"

definition system_actor :: AdminUser where
  "system_actor =
     \<lparr>au_ID = ''system'', au_CreatedAt = zero_time, au_Name = [], au_Email = [], au_PasswordHash = [],
      au_Role = ''super_admin'', au_Status = [], au_PasswordChangedAt = None, au_LastLoginAt = None,
      au_FailedLoginAttempts = 0, au_LockedUntil = None, au_CreatedBy = [], au_Permissions = []\<rparr>"

definition SeedAdmin :: "'p application \<Rightarrow> string \<Rightarrow> string \<Rightarrow> string \<Rightarrow> ('p, unit) act" where
  "SeedAdmin app email password name =
     (if email = [] \<or> password = [] then throwE (Msg ''email and password are required'')
      else bindE (AdminUser_Create (he_auth (ap_http app)) (Some system_actor) name email password ''super_admin'')
             (\<lambda>_. returnE ()))"

end
