(* ===== verification/Lifecycle.thy ===== *)
theory Lifecycle
  imports Bootstrap
begin

text \<open>
  The life of an application (\<open>App.Serve\<close>, \<open>App.Close\<close>, \<open>App.ListenAddr\<close> of \<open>bootstrap/app.go\<close>): any number of
  calls of \<open>Serve\<close> and \<open>Close\<close>, the workers, the listener and its requests run concurrently. A step is a
  critical section, or the piece of a goroutine up to its next blocking operation; each call has its
  own program counter.

  The listener is the framework's. Once bound it accepts requests until \<open>Listen\<close> returns; a graceful
  shutdown answers nil only when no request is in flight, and an error otherwise. A listener that
  failed, a shutdown that failed, and one that came before the address was bound leave
  \<open>lf_forced\<close>: nothing is then known of the requests in flight.
\<close>

text \<open>The first cause of the end of a context stays.\<close>

definition DeadlineExceeded :: err where "DeadlineExceeded = Msg ''context deadline exceeded''"

datatype serve_pc =
    ServeIdle
  | Loading
  | Loaded
  | Serving
  | Draining
  | Leaving "err option"
  | Waiting "err option"
  | Served "err option"

datatype close_pc =
    CloseIdle
  | InOnce
  | Marked bool
  | Awaiting bool
  | ClosedWith "err option"

datatype once = Fresh | Running nat | Finished

datatype listener = NoListener | Spawned | Listening | ListenDone "err option"

record 'p life =
  lf_machine :: "'p machine"
  lf_closed :: bool
  lf_served :: bool
  lf_context :: "err option"
  lf_done :: bool
  lf_pool :: "('p Task \<times> loop) list"
  lf_listener :: listener
  lf_requests :: nat
  lf_forced :: bool
  lf_addr :: string
  lf_once :: once
  lf_closeErr :: "err option"
  lf_serving :: "nat \<Rightarrow> serve_pc"
  lf_closing :: "nat \<Rightarrow> close_pc"

abbreviation lf_world :: "'p life \<Rightarrow> 'p world" where "lf_world l \<equiv> mc_world (lf_machine l)"

definition set_world :: "'p world \<Rightarrow> 'p life \<Rightarrow> 'p life" where
  "set_world w l = l\<lparr>lf_machine := (lf_machine l)\<lparr>mc_world := w\<rparr>\<rparr>"

definition serve_at :: "nat \<Rightarrow> serve_pc \<Rightarrow> 'p life \<Rightarrow> 'p life" where
  "serve_at n pc l = l\<lparr>lf_serving := (lf_serving l)(n := pc)\<rparr>"

definition close_at :: "nat \<Rightarrow> close_pc \<Rightarrow> 'p life \<Rightarrow> 'p life" where
  "close_at n pc l = l\<lparr>lf_closing := (lf_closing l)(n := pc)\<rparr>"

definition new_life :: "'p application \<Rightarrow> 'p machine \<Rightarrow> 'p life" where
  "new_life app m =
     \<lparr>lf_machine = m, lf_closed = False, lf_served = False, lf_context = None, lf_done = False, lf_pool = [],
      lf_listener = NoListener, lf_requests = 0, lf_forced = False, lf_addr = ap_Addr app,
      lf_once = Fresh, lf_closeErr = None, lf_serving = (\<lambda>_. ServeIdle), lf_closing = (\<lambda>_. CloseIdle)\<rparr>"

section \<open>The pieces of Serve and Close\<close>

text \<open>The critical section at the head of \<open>Serve\<close>.\<close>

definition Serve_admit :: "('p life, unit) oper" where
  "Serve_admit l =
     (if lf_closed l then (Inl (Msg ''application is closed''), l)
      else if lf_served l then (Inl (Msg ''application has already been served''), l)
      else (Inr (), l\<lparr>lf_served := True\<rparr>))"

text \<open>The outcome of \<open>LoadActive\<close>: the end of the context outweighs its error.\<close>

definition Serve_loaded :: "err + unit \<Rightarrow> err option \<Rightarrow> serve_pc" where
  "Serve_loaded r ended =
     (case r of
        Inr _ \<Rightarrow> Loaded
      | Inl e \<Rightarrow> Leaving (Some (case ended of Some c \<Rightarrow> c | None \<Rightarrow> Wrap ''load active providers'' e)))"

text \<open>The workers and the listener start unless the context has ended.\<close>

definition Serve_start :: "'p application \<Rightarrow> nat \<Rightarrow> 'p life \<Rightarrow> 'p life" where
  "Serve_start app n l =
     (case lf_context l of
        Some c \<Rightarrow> serve_at n (Leaving (Some c)) l
      | None \<Rightarrow> serve_at n Serving (l\<lparr>lf_pool := Start (ap_Workers app) (lf_pool l), lf_listener := Spawned\<rparr>))"

definition cancel :: "err \<Rightarrow> 'p life \<Rightarrow> 'p life" where
  "cancel c l = (case lf_context l of None \<Rightarrow> l\<lparr>lf_context := Some c\<rparr> | Some _ \<Rightarrow> l)"

definition recordListenAddr :: "string \<Rightarrow> 'p life \<Rightarrow> 'p life" where
  "recordListenAddr addr l = l\<lparr>lf_addr := addr\<rparr>"

definition ListenAddr :: "'p life \<Rightarrow> string" where "ListenAddr l = lf_addr l"

text \<open>The critical section of \<open>Close\<close> copies whether there is a server to stop.\<close>

definition Close_mark :: "nat \<Rightarrow> 'p life \<Rightarrow> 'p life" where
  "Close_mark n l = close_at n (Marked (lf_served l)) (l\<lparr>lf_closed := True\<rparr>)"

definition Close_cancel :: "nat \<Rightarrow> bool \<Rightarrow> 'p life \<Rightarrow> 'p life" where
  "Close_cancel n served l = close_at n (Awaiting served) (if served then cancel CtxErr l else l)"

definition Close_database :: "'p boot_env \<Rightarrow> nat \<Rightarrow> 'p life \<Rightarrow> 'p life" where
  "Close_database B n l =
     (case closeDatabase B (lf_machine l) of
        (r, m) \<Rightarrow>
          let e = (case r of Inl e \<Rightarrow> Some e | Inr _ \<Rightarrow> None) in
          close_at n (ClosedWith e) (l\<lparr>lf_machine := m, lf_once := Finished, lf_closeErr := e\<rparr>))"

definition ended :: "'p life \<Rightarrow> bool" where "ended l \<longleftrightarrow> lf_context l \<noteq> None"

section \<open>The steps\<close>

inductive life_step :: "'p boot_env \<Rightarrow> 'p application \<Rightarrow> CreatePayment decoder \<Rightarrow> 'p life \<Rightarrow> 'p life \<Rightarrow> bool"
  for B app decode where
  refused: "lf_serving l n = ServeIdle \<Longrightarrow> Serve_admit l = (Inl e, l') \<Longrightarrow>
     life_step B app decode l (serve_at n (Served (Some e)) l')"
| admitted: "lf_serving l n = ServeIdle \<Longrightarrow> Serve_admit l = (Inr (), l') \<Longrightarrow>
     life_step B app decode l (serve_at n Loading l')"
| load: "lf_serving l n = Loading \<Longrightarrow> (seen \<longrightarrow> ended l) \<Longrightarrow>
     LoadActive (he_env (ap_http app)) (under_context seen (lf_world l)) = (r, w') \<Longrightarrow>
     life_step B app decode l (serve_at n (Serve_loaded r (lf_context l)) (set_world w' l))"
| start: "lf_serving l n = Loaded \<Longrightarrow> life_step B app decode l (Serve_start app n l)"
| context_done: "lf_serving l n = Serving \<Longrightarrow> ended l \<Longrightarrow> life_step B app decode l (serve_at n Draining l)"
| listen_returned: "lf_serving l n = Serving \<Longrightarrow> lf_listener l = ListenDone e \<Longrightarrow>
     life_step B app decode l (serve_at n (Leaving e) l)"
| drained: "lf_serving l n = Draining \<Longrightarrow> lf_listener l \<noteq> Spawned \<Longrightarrow> lf_requests l = 0 \<Longrightarrow>
     life_step B app decode l (serve_at n (Leaving (lf_context l)) (l\<lparr>lf_listener := ListenDone None\<rparr>))"
| drained_early: "lf_serving l n = Draining \<Longrightarrow> lf_listener l = Spawned \<Longrightarrow>
     life_step B app decode l (serve_at n (Leaving (lf_context l)) (l\<lparr>lf_forced := True\<rparr>))"
| drain_failed: "lf_serving l n = Draining \<Longrightarrow>
     life_step B app decode l (serve_at n (Leaving (Some e)) (l\<lparr>lf_forced := True\<rparr>))"
| leave: "lf_serving l n = Leaving r \<Longrightarrow> life_step B app decode l (serve_at n (Waiting r) (cancel CtxErr l))"
| served: "lf_serving l n = Waiting r \<Longrightarrow> Wait (lf_pool l) \<Longrightarrow>
     life_step B app decode l (serve_at n (Served r) (l\<lparr>lf_done := True\<rparr>))"
| host_cancels: "lf_served l \<Longrightarrow> c \<in> {CtxErr, DeadlineExceeded} \<Longrightarrow> life_step B app decode l (cancel c l)"
| worker: "lf_pool l = ps @ (t, k) # qs \<Longrightarrow>
     worker_step (ap_Workers app) (ended l) t (k, lf_world l, mc_lines (lf_machine l)) (k', w', lines') \<Longrightarrow>
     life_step B app decode l
       (l\<lparr>lf_pool := ps @ (t, k') # qs, lf_machine := (lf_machine l)\<lparr>mc_world := w', mc_lines := lines'\<rparr>\<rparr>)"
| bound: "lf_listener l = Spawned \<Longrightarrow> life_step B app decode l (recordListenAddr addr (l\<lparr>lf_listener := Listening\<rparr>))"
| listener_fails: "lf_listener l \<in> {Spawned, Listening} \<Longrightarrow>
     life_step B app decode l (l\<lparr>lf_listener := ListenDone e, lf_forced := True\<rparr>)"
| request: "lf_listener l = Listening \<Longrightarrow> life_step B app decode l (l\<lparr>lf_requests := lf_requests l + 1\<rparr>)"
| answer: "0 < lf_requests l \<Longrightarrow> serve_request (ap_http app) decode req = Some k \<Longrightarrow>
     k (under_context seen (lf_world l)) = (resp, w') \<Longrightarrow>
     life_step B app decode l (set_world w' (l\<lparr>lf_requests := lf_requests l - 1\<rparr>))"
| close_first: "lf_closing l n = CloseIdle \<Longrightarrow> lf_once l = Fresh \<Longrightarrow>
     life_step B app decode l (close_at n InOnce (l\<lparr>lf_once := Running n\<rparr>))"
| close_mark: "lf_closing l n = InOnce \<Longrightarrow> life_step B app decode l (Close_mark n l)"
| close_cancel: "lf_closing l n = Marked b \<Longrightarrow> life_step B app decode l (Close_cancel n b l)"
| close_database: "lf_closing l n = Awaiting b \<Longrightarrow> (b \<longrightarrow> lf_done l) \<Longrightarrow> life_step B app decode l (Close_database B n l)"
| close_again: "lf_closing l n = CloseIdle \<Longrightarrow> lf_once l = Finished \<Longrightarrow>
     life_step B app decode l (close_at n (ClosedWith (lf_closeErr l)) l)"

abbreviation life_steps ::
    "'p boot_env \<Rightarrow> 'p application \<Rightarrow> CreatePayment decoder \<Rightarrow> 'p life \<Rightarrow> 'p life \<Rightarrow> bool" where
  "life_steps B app decode \<equiv> (life_step B app decode)\<^sup>*\<^sup>*"

definition lived :: "'p boot_env \<Rightarrow> 'p application \<Rightarrow> CreatePayment decoder \<Rightarrow> 'p machine \<Rightarrow> 'p life \<Rightarrow> bool" where
  "lived B app decode m l \<longleftrightarrow> life_steps B app decode (new_life app m) l"

end
