(* ===== verification/BootstrapFacts.thy ===== *)
theory BootstrapFacts
  imports Bootstrap AuthzFacts ProviderAdminFacts
begin

text \<open>
  What a start-up promises: it either gives the database back or leaves an application over a valid
  configuration, a settled schema and a seeded catalogue, whose system roles grant what they name.
\<close>

section \<open>Opening and closing\<close>

definition same_pools :: "'p machine \<Rightarrow> 'p machine \<Rightarrow> bool" where
  "same_pools m m' \<longleftrightarrow> mc_pools m' = mc_pools m"

interpretation same_pools: effect_preorder same_pools
  by unfold_locales (simp_all add: same_pools_def)

lemma pools_primitives:
  "moves same_pools (on_engine f)" "moves same_pools (emit line)" "moves same_pools (AutoMigrate B)"
  "moves same_pools (run_pending B)" "moves same_pools (pending_on_disk B)" "moves same_pools (connect_engine B)"
  by (rule movesI; auto simp: same_pools_def on_engine_def emit_def AutoMigrate_def run_pending_def pending_on_disk_def
      connect_engine_def split: prod.splits sum.splits)+

lemma pools_construct: "moves same_pools (construct B cfg log registry)"
proof -
  have "moves same_pools (warnPendingMigrations B b)" "moves same_pools (Migrate B b)" for b
    unfolding warnPendingMigrations_def Migrate_def
    by (auto intro!: same_pools.moves_bindE same_pools.moves_handleE same_pools.moves_returnE pools_primitives split: sum.split)
  then show ?thesis
    unfolding construct_def
    by (intro same_pools.moves_bindE same_pools.moves_returnE same_pools.moves_liftE same_pools.moves_failIf pools_primitives)
       auto
qed

definition opened :: "bool \<Rightarrow> 'p machine \<Rightarrow> 'p machine" where
  "opened failed m = m\<lparr>mc_pools := mc_pools m + (if failed then 0 else 1)\<rparr>"

lemma open_pool_pools:
  assumes "open_pool B driver dsn m = (r, m')"
  shows "m' = opened (isl r) m"
proof (cases "be_open B driver dsn")
  case (Inl e)
  with assms have "r = Inl e \<and> m' = m" by (simp add: open_pool_def bindE_liftE)
  then show ?thesis by (simp add: opened_def)
next
  case (Inr u)
  with assms have "r = Inr () \<and> m' = m\<lparr>mc_pools := mc_pools m + 1\<rparr>" by (simp add: open_pool_def bindE_liftE)
  then show ?thesis by (simp add: opened_def)
qed

lemma two_drivers:
  assumes "\<not> p"
  shows "(\<exists>driver dsn. (if p then x else if q then open_pool B d1 s1 else if r then open_pool B d2 s2 else throwE err) =
            open_pool B driver dsn) \<or>
         (\<exists>e. (if p then x else if q then open_pool B d1 s1 else if r then open_pool B d2 s2 else throwE err) = throwE e)"
  using assms by auto

lemma openDatabase_pools:
  assumes "openDatabase B cfg m = (r, m')"
  shows "m' = opened (isl r) m"
proof (cases "dc_Type (cfg_DB cfg) = ''sqlite''")
  case True
  let ?dsn = "dc_Path (cfg_DB cfg) @ ''?_pragma=journal_mode(WAL)''"
  have o: "openDatabase B cfg m = bindE (liftE (be_mkdir_of B (dc_Path (cfg_DB cfg)))) (\<lambda>_. open_pool B ''sqlite'' ?dsn) m"
    unfolding openDatabase_def Let_def True by (simp only: if_True simp_thms)
  show ?thesis
  proof (cases "be_mkdir_of B (dc_Path (cfg_DB cfg))")
    case (Inl e)
    with assms o have "r = Inl e \<and> m' = m" by (simp add: bindE_liftE)
    then show ?thesis by (simp add: opened_def)
  next
    case (Inr u)
    with assms o have "open_pool B ''sqlite'' ?dsn m = (r, m')" by (simp add: bindE_liftE)
    then show ?thesis by (rule open_pool_pools)
  qed
next
  case False
  then have "(\<exists>driver dsn. openDatabase B cfg = open_pool B driver dsn) \<or> (\<exists>e. openDatabase B cfg = throwE e)"
    unfolding openDatabase_def Let_def by (rule two_drivers)
  then consider (pool) driver dsn where "openDatabase B cfg = open_pool B driver dsn"
    | (unknown) e where "openDatabase B cfg = throwE e" by blast
  then show ?thesis
  proof cases
    case pool
    with assms show ?thesis by (intro open_pool_pools) simp
  next
    case (unknown e)
    with assms have "r = Inl e \<and> m' = m" by (simp add: throwE_def)
    then show ?thesis by (simp add: opened_def)
  qed
qed

lemma closeDatabase_pools:
  "be_pool B = Inr u \<Longrightarrow> mc_pools (snd (closeDatabase B m)) = mc_pools m - 1"
  by (auto simp: closeDatabase_def wrapE_def handleE_def bindE_def throwE_def split: sum.splits prod.splits)

section \<open>The start\<close>

definition schema_settled :: "'p boot_env \<Rightarrow> mdb \<Rightarrow> mdb \<Rightarrow> bool" where
  "schema_settled B d d' \<longleftrightarrow> (\<exists>ids d1. Run (be_countries B) (be_order B) d = ((ids, None), d1) \<and> be_converge B d1 = Inr d')"

lemma Migrate_settles:
  assumes "Migrate B b m = (Inr u, m')"
  shows "schema_settled B (mc_disk m) (mc_disk m')"
  using assms
  by (auto elim!: bindE_InrE simp: Migrate_def schema_settled_def run_pending_def AutoMigrate_def emit_def
      split: prod.splits option.splits sum.splits if_splits)

lemma construct_InrE:
  assumes "construct B cfg log registry m = (Inr app, m')"
  obtains u m1 enc ak pk bs v w2 where
    "(if fc_AutoMigrate (cfg_Features cfg) then Migrate B True else warnPendingMigrations B True) m = (Inr u, m1)"
    and "NewEncryptor (sc_EncryptionMasterKeyBase64 (cfg_Security cfg)) = Inr enc"
    and "NewTokenManager (sc_AdminOAuthSecret (cfg_Security cfg)) = Inr ak"
    and "NewTokenManager (sc_AppOAuthSecret (cfg_Security cfg)) = Inr pk"
    and "\<forall>r\<in>set (t_paymentRoutes (be_tables B (mc_disk m1))). pr_PaymentMethod r \<in> set PaymentMethods"
    and "Seed (consumed bs ((mc_world m1)\<lparr>db := be_tables B (mc_disk m1), items := [], hooks := NewHookRegistry\<rparr>)) = (Inr v, w2)"
    and "m' = m1\<lparr>mc_world := w2\<rparr>" and "app = assemble_app B cfg log registry enc ak pk"
proof -
  let ?w = "\<lambda>m1. (mc_world m1)\<lparr>db := be_tables B (mc_disk m1), items := [], hooks := NewHookRegistry\<rparr>"
  from assms obtain u m1 where 1: "(if fc_AutoMigrate (cfg_Features cfg) then Migrate B True else warnPendingMigrations B True) m = (Inr u, m1)"
    and rest: "bindE (liftE (NewEncryptor (sc_EncryptionMasterKeyBase64 (cfg_Security cfg)))) (\<lambda>enc.
     bindE (liftE (NewTokenManager (sc_AdminOAuthSecret (cfg_Security cfg)))) (\<lambda>adminKey.
     bindE (liftE (NewTokenManager (sc_AppOAuthSecret (cfg_Security cfg)))) (\<lambda>appKey.
     bindE (connect_engine B) (\<lambda>_.
     bindE (on_engine (on_db PaymentRoutes_UnsupportedMethods)) (\<lambda>unsupported.
     bindE (failIf (unsupported \<noteq> [])
       (Msg (''payment routes use unsupported methods: '' @ join_with '', '' unsupported))) (\<lambda>_.
     bindE (on_engine Seed) (\<lambda>_.
     returnE (assemble_app B cfg log registry enc adminKey appKey)))))))) m1 = (Inr app, m')"
    unfolding construct_def by (rule bindE_InrE)
  from rest obtain enc ak pk where k: "NewEncryptor (sc_EncryptionMasterKeyBase64 (cfg_Security cfg)) = Inr enc"
      "NewTokenManager (sc_AdminOAuthSecret (cfg_Security cfg)) = Inr ak"
      "NewTokenManager (sc_AppOAuthSecret (cfg_Security cfg)) = Inr pk"
    and rest: "bindE (on_engine (on_db PaymentRoutes_UnsupportedMethods)) (\<lambda>unsupported.
     bindE (failIf (unsupported \<noteq> [])
       (Msg (''payment routes use unsupported methods: '' @ join_with '', '' unsupported))) (\<lambda>_.
     bindE (on_engine Seed) (\<lambda>_.
     returnE (assemble_app B cfg log registry enc ak pk)))) (m1\<lparr>mc_world := ?w m1\<rparr>) = (Inr app, m')"
    by (auto simp: bindE_liftE connect_engine_def split: sum.splits)
  from rest obtain bad m2 where b: "on_engine (on_db PaymentRoutes_UnsupportedMethods) (m1\<lparr>mc_world := ?w m1\<rparr>) = (Inr bad, m2)"
    and rest: "bindE (failIf (bad \<noteq> [])
       (Msg (''payment routes use unsupported methods: '' @ join_with '', '' bad))) (\<lambda>_.
     bindE (on_engine Seed) (\<lambda>_.
     returnE (assemble_app B cfg log registry enc ak pk))) m2 = (Inr app, m')"
    by (rule bindE_InrE)
  from b obtain w where m2: "m2 = m1\<lparr>mc_world := w\<rparr>"
    and "on_db PaymentRoutes_UnsupportedMethods (?w m1) = (Inr bad, w)"
    by (auto simp: on_engine_def split: prod.splits)
  from this(2) obtain rs w1 where f: "on_db (base_find t_paymentRoutes id (\<lambda>r. pr_PaymentMethod r \<notin> set PaymentMethods)) (?w m1) = (Inr rs, w1)"
    and "on_db (returnE (sort (remdups (map pr_PaymentMethod rs)))) w1 = (Inr bad, w)"
    unfolding PaymentRoutes_UnsupportedMethods_def on_db_bindE by (rule bindE_InrE)
  then have bad: "bad = sort (remdups (map pr_PaymentMethod rs))" "w = w1" by (auto simp: on_db_def)
  from f obtain bs where w1: "w1 = consumed bs (?w m1)"
    and rs: "rs = id (filter (\<lambda>r. pr_PaymentMethod r \<notin> set PaymentMethods) (t_paymentRoutes (db (?w m1))))"
    by (rule paymentRoutes.find_step)
  from rest have none: "bad = []" by (auto simp: failIf_def bindE_def throwE_def split: if_splits)
  then have "set rs = {}" unfolding bad(1) by (metis set_sort set_remdups set_map image_is_empty list.set(1))
  then have routes: "\<forall>r\<in>set (t_paymentRoutes (be_tables B (mc_disk m1))). pr_PaymentMethod r \<in> set PaymentMethods"
    unfolding rs by (simp add: filter_empty_conv)
  from rest none obtain v m3 where s: "on_engine Seed m2 = (Inr v, m3)" and "m' = m3" "app = assemble_app B cfg log registry enc ak pk"
    by (auto simp: failIf_def elim!: bindE_InrE)
  moreover from s obtain w2 where "Seed w = (Inr v, w2)" "m3 = m1\<lparr>mc_world := w2\<rparr>"
    by (auto simp: on_engine_def m2 split: prod.splits)
  ultimately show ?thesis using that [OF 1 k routes] bad(2) w1 by blast
qed

text \<open>A construction that succeeds left the roles as the catalogue has them, over the settled schema.\<close>

lemma construct_seeds:
  assumes "construct B cfg log registry m = (Inr app, m')"
  shows "(fc_AutoMigrate (cfg_Features cfg) \<longrightarrow> schema_settled B (mc_disk m) (mc_disk m')) \<and>
    (\<forall>r\<in>set (t_paymentRoutes (be_tables B (mc_disk m'))). pr_PaymentMethod r \<in> set PaymentMethods) \<and>
    (authz_ok (be_tables B (mc_disk m')) \<longrightarrow> (\<forall>(name, description, codes)\<in>set SystemRoles.
       grants (db (mc_world m')) name (listed_codes codes)))"
  using assms
proof (cases rule: construct_InrE)
  case (1 u m3 enc ak pk bs v w2)
  let ?w = "consumed bs ((mc_world m3)\<lparr>db := be_tables B (mc_disk m3), items := [], hooks := NewHookRegistry\<rparr>)"
  have disk: "mc_disk m' = mc_disk m3" "mc_world m' = w2" using 1(7) by simp_all
  have "schema_settled B (mc_disk m) (mc_disk m')" if "fc_AutoMigrate (cfg_Features cfg)"
    using 1(1) that disk Migrate_settles [of B True m u m3] by simp
  moreover have "grants (db (mc_world m')) name (listed_codes codes)"
    if "authz_ok (be_tables B (mc_disk m'))" "(name, description, codes) \<in> set SystemRoles" for name description codes
  proof -
    have "authz_ok (db ?w)" using that(1) disk(1) by (simp add: authz_defs)
    from Seed_grants [OF 1(6) this that(2)] show ?thesis by (simp add: disk(2))
  qed
  ultimately show ?thesis using 1(5) disk(1) by auto
qed

text \<open>C36: starting up. Either \<open>NewApp\<close> fails and has given the connection pool back, provided the
  pool can be reached, or it returns an application that holds one pool. In production and in staging
  the configuration is then a hardened one; with automatic migration on, the schema is one whose
  migrations ran to the end before it was converged; every stored route has a supported payment method;
  and, when the role tables of that schema are well formed, the system roles grant exactly what
  the catalogue says.\<close>

lemma start_up:
  assumes "NewApp B cfg log registry m = (r, m')"
  shows "case r of
      Inl e \<Rightarrow> be_pool B = Inr () \<longrightarrow> mc_pools m' = mc_pools m
    | Inr app \<Rightarrow> mc_pools m' = mc_pools m + 1 \<and>
        (ac_Env (cfg_App cfg) \<in> {''production'', ''staging''} \<longrightarrow> hardened cfg) \<and>
        (fc_AutoMigrate (cfg_Features cfg) \<longrightarrow> schema_settled B (mc_disk m) (mc_disk m')) \<and>
        (\<forall>r\<in>set (t_paymentRoutes (be_tables B (mc_disk m'))). pr_PaymentMethod r \<in> set PaymentMethods) \<and>
        (authz_ok (be_tables B (mc_disk m')) \<longrightarrow> (\<forall>(name, description, codes)\<in>set SystemRoles.
           grants (db (mc_world m')) name (listed_codes codes)))"
proof (cases "Config_Validate cfg")
  case (Inl e)
  with assms have "r = Inl e" "m' = m" by (simp_all add: NewApp_def bindE_liftE)
  then show ?thesis by simp
next
  case (Inr u)
  then have valid: "Config_Validate cfg = Inr ()" by simp
  define log' where "log' = (case log of None \<Rightarrow> newLogger (lc_Level (cfg_Log cfg)) | Some l \<Rightarrow> l)"
  obtain q m1 where o: "openDatabase B cfg m = (q, m1)" by fastforce
  note pools = openDatabase_pools [OF o]
  show ?thesis
  proof (cases q)
    case (Inl e)
    with assms o pools valid have "r = Inl e" "m' = m"
      by (simp_all add: NewApp_def bindE_liftE opened_def)
    then show ?thesis by simp
  next
    case q: (Inr v)
    obtain s m2 where c: "construct B cfg log' registry m1 = (s, m2)" by fastforce
    have m2: "mc_pools m2 = mc_pools m + 1"
      using movesD [OF pools_construct c] pools q by (simp add: same_pools_def opened_def)
    have run: "or_close B (construct B cfg log' registry) m1 = (r, m')"
      using assms o q Inr by (simp add: NewApp_def bindE_liftE log'_def)
    show ?thesis
    proof (cases s)
      case (Inl e)
      with run c have "isl r" "m' = snd (closeDatabase B m2)"
        by (auto simp: or_close_def handleE_def throwE_def split: prod.splits)
      with closeDatabase_pools [of B "()" m2] m2 show ?thesis by (cases r) auto
    next
      case (Inr app)
      with run c have r: "r = Inr app" "m' = m2" by (auto simp: or_close_def)
      then have built: "construct B cfg log' registry m1 = (Inr app, m')" using c Inr by simp
      have "mc_disk m1 = mc_disk m" using pools by (simp add: opened_def)
      then show ?thesis
        using construct_seeds [OF built] Config_Validate_hardened [OF valid] m2 r by auto
    qed
  qed
qed

section \<open>The first administrator\<close>

lemma SeedAdmin_InrE:
  assumes "SeedAdmin app email password name w = (Inr v, w')"
  obtains u i h where "t_adminUsers (db w') = t_adminUsers (db w) @ [u]" and "\<forall>r\<in>set (t_adminUsers (db w)). au_Email r \<noteq> email"
    and "au_Email u = email" and "au_Role u = ''super_admin''" and "au_Status u = active" and "au_LockedUntil u = None"
    and "auth_bcrypt (he_auth (ap_http app)) i password = Inr h" and "au_PasswordHash u = h"
proof -
  let ?A = "he_auth (ap_http app)"
  let ?row = "\<lambda>i h t. \<lparr>au_ID = i, au_CreatedAt = 0, au_Name = name, au_Email = email, au_PasswordHash = h, au_Role = ''super_admin'',
         au_Status = active, au_PasswordChangedAt = Some t, au_LastLoginAt = None, au_FailedLoginAttempts = 0,
         au_LockedUntil = None, au_CreatedBy = ''system'', au_Permissions = []\<rparr>"
  obtain x where "AdminUser_Create ?A (Some system_actor) name email password ''super_admin'' w = (Inr x, w')"
    using assms by (auto simp: SeedAdmin_def throwE_def split: if_splits elim!: bindE_InrE)
  then obtain a w1 where k: "known_role ?A ''super_admin'' w = (Inr a, w1)"
    and rest: "bindE (HashPassword ?A password) (\<lambda>hash.
      bindE Now (\<lambda>t.
      bindE (NewID ''admusr'') (\<lambda>i.
      bindE (on_db_now (\<lambda>s. AdminUsers_Create s (?row i hash t))) (\<lambda>user.
      bindE (RecordBestEffort (auth_audit ?A) (ActorID (Some system_actor)) ''admin'' ''admin.created'' ''admin_user'' (au_ID user)
               (Some [(''email'', GStr (au_Email user)), (''role'', GStr ''super_admin'')]) [] []) (\<lambda>_.
      returnE user))))) w1 = (Inr x, w')"
    unfolding AdminUser_Create_def Let_def by (auto simp: system_actor_def elim!: bindE_InrE)
  have w1: "t_adminUsers (db w1) = t_adminUsers (db w)"
    using k unfolding known_role_def RoleExists_def Roles_Exists_def
    by (auto simp: on_db_bindE failIf_def throwE_def on_db_def [of "returnE _"] split: if_splits
        elim!: bindE_InrE roles.count_step)
  from rest obtain h where h: "auth_bcrypt ?A (uuid_n w1) password = Inr h"
    and "bindE Now (\<lambda>t.
      bindE (NewID ''admusr'') (\<lambda>i.
      bindE (on_db_now (\<lambda>s. AdminUsers_Create s (?row i h t))) (\<lambda>user.
      bindE (RecordBestEffort (auth_audit ?A) (ActorID (Some system_actor)) ''admin'' ''admin.created'' ''admin_user'' (au_ID user)
               (Some [(''email'', GStr (au_Email user)), (''role'', GStr ''super_admin'')]) [] []) (\<lambda>_.
      returnE user)))) (w1\<lparr>uuid_n := Suc (uuid_n w1)\<rparr>) = (Inr x, w')"
    unfolding HashPassword_def draw_def by (auto elim!: bindE_InrE [where m = "\<lambda>w. (auth_bcrypt ?A (uuid_n w) password, w\<lparr>uuid_n := Suc (uuid_n w)\<rparr>)"])
  from this(2) obtain i where
    "bindE (on_db_now (\<lambda>s. AdminUsers_Create s (?row i h (now w1)))) (\<lambda>user.
      bindE (RecordBestEffort (auth_audit ?A) (ActorID (Some system_actor)) ''admin'' ''admin.created'' ''admin_user'' (au_ID user)
               (Some [(''email'', GStr (au_Email user)), (''role'', GStr ''super_admin'')]) [] []) (\<lambda>_.
      returnE user)) (w1\<lparr>uuid_n := Suc (Suc (uuid_n w1))\<rparr>) = (Inr x, w')"
    unfolding bindE_Now NewID_def bindE_def [of "\<lambda>w. (Inr (withPrefix _ (uuid_at w (uuid_n w))), _ w)"] by simp
  then obtain u w3 where c: "on_db_now (\<lambda>s. AdminUsers_Create s (?row i h (now w1))) (w1\<lparr>uuid_n := Suc (Suc (uuid_n w1))\<rparr>) = (Inr u, w3)"
    and a: "bindE (RecordBestEffort (auth_audit ?A) (ActorID (Some system_actor)) ''admin'' ''admin.created'' ''admin_user'' (au_ID u)
               (Some [(''email'', GStr (au_Email u)), (''role'', GStr ''super_admin'')]) [] []) (\<lambda>_. returnE u) w3 = (Inr x, w')"
    by (rule bindE_InrE)
  define w2 where "w2 = w1\<lparr>uuid_n := Suc (Suc (uuid_n w1))\<rparr>"
  note c = c [folded w2_def]
  have w2: "db w2 = db w1" by (simp add: w2_def)
  from a have w': "t_adminUsers (db w') = t_adminUsers (db w3)"
    by (auto elim!: bindE_InrE dest!: movesD [OF trail_RecordBestEffort] simp: only_trail_fields)
  from c obtain bs where w3: "w3 = w2\<lparr>db := t_adminUsers_update (\<lambda>rs. rs @ [u]) ((db w2)\<lparr>faults := bs\<rparr>)\<rparr>"
    and u: "u = (if zero_defaults (db w2) then AdminUser_defaults ((?row i h (now w1))\<lparr>au_CreatedAt := now w2, au_Permissions := []\<rparr>)
         else (?row i h (now w1))\<lparr>au_CreatedAt := now w2, au_Permissions := []\<rparr>)"
    and fresh: "\<forall>r\<in>set (t_adminUsers (db w2)). \<not> (au_ID r = au_ID u \<or> au_Email r = au_Email u)"
    unfolding AdminUsers_Create_def by (rule adminUsers.create_step)
  have fields: "au_Email u = email" "au_Role u = ''super_admin''" "au_Status u = active" "au_LockedUntil u = None" "au_PasswordHash u = h"
    unfolding u by (simp_all add: AdminUser_defaults_def active_def)
  show ?thesis
    by (rule that [OF _ _ fields(1-4) h fields(5)]) (use fresh fields(1) w' w3 w2 w1 in auto)
qed

definition hash_sound :: "auth_env \<Rightarrow> bool" where
  "hash_sound A \<longleftrightarrow> (\<forall>i password h. auth_bcrypt A i password = Inr h \<longrightarrow> auth_bcrypt_ok A h password)"

lemma find_last: "\<forall>x\<in>set xs. \<not> P x \<Longrightarrow> P y \<Longrightarrow> List.find P (xs @ [y]) = Some y"
  by (induction xs) auto

lemma right_password:
  assumes "faults (db w) = []" and "List.find (\<lambda>u. au_Email u = to_lower (trim_space email)) (t_adminUsers (db w)) = Some u"
    and "au_Status u = active" and "au_LockedUntil u = None" and "VerifyPassword A (au_PasswordHash u) pw"
  shows "\<exists>w1. IssuePasswordToken A email pw ip ua w = admin_issue A u None ip ua w1"
proof -
  have read: "orE (on_db (AdminUsers_ByEmail (to_lower (trim_space email)))) e w = (Inr u, w)" for e
    using assms(1,2) by (simp add: orE_def AdminUsers_ByEmail_def base_first_def on_db_def statement_def)
  obtain w1 where login: "on_db (AdminUsers_RecordLogin (au_ID u) (now w)) w = (Inr (), w1)"
    unfolding AdminUsers_RecordLogin_def using adminUsers.touch_clean [OF assms(1)] by blast
  obtain w2 where audit: "RecordBestEffort (auth_audit A) (au_ID u) ''admin'' ''admin.login'' ''admin_user'' (au_ID u) None ip ua w1
      = (Inr (), w2)"
    by (rule RecordBestEffort_succeeds)
  have "IssuePasswordToken A email pw ip ua w = admin_issue A u None ip ua w2"
    using assms(3-5) login audit by (simp add: IssuePasswordToken_def read bindE_failIf bindE_Now)
  then show ?thesis by blast
qed

text \<open>C37: the first administrator. After \<open>SeedAdmin\<close> one super administrator with that address is on record, and
  a sign-in with the password goes as far as issuing tokens to it, provided the address is in lower case
  and without outer spaces. Any other address is stored as given while the sign-in looks for its normal
  form: unless that belongs to somebody else, the seeded administrator is refused.\<close>

lemma seeded_admin_signs_in:
  assumes "SeedAdmin app email password name w = (Inr v, w')" and "hash_sound (he_auth (ap_http app))"
    and "faults (db w') = []"
  shows "if to_lower (trim_space email) = email
    then \<exists>u w1. u \<in> set (t_adminUsers (db w')) \<and> au_Email u = email \<and> au_Role u = ''super_admin'' \<and>
           IssuePasswordToken (he_auth (ap_http app)) email password ip ua w' =
             admin_issue (he_auth (ap_http app)) u None ip ua w1
    else (\<forall>r\<in>set (t_adminUsers (db w)). au_Email r \<noteq> to_lower (trim_space email)) \<longrightarrow>
           IssuePasswordToken (he_auth (ap_http app)) email password ip ua w' = (Inl (Msg ''invalid credentials''), w')"
  using assms(1)
proof (cases rule: SeedAdmin_InrE)
  case (1 u i h)
  let ?A = "he_auth (ap_http app)"
  show ?thesis
  proof (cases "to_lower (trim_space email) = email")
    case True
    have "List.find (\<lambda>u. au_Email u = to_lower (trim_space email)) (t_adminUsers (db w')) = Some u"
      unfolding 1(1) by (rule find_last) (use 1(2,3) True in simp_all)
    moreover have "VerifyPassword ?A (au_PasswordHash u) password"
      using assms(2) 1(7,8) by (simp add: VerifyPassword_def hash_sound_def)
    ultimately obtain w1 where "IssuePasswordToken ?A email password ip ua w' = admin_issue ?A u None ip ua w1"
      using right_password [OF assms(3)] 1(5,6) by blast
    moreover have "u \<in> set (t_adminUsers (db w'))" using 1(1) by simp
    ultimately show ?thesis using True 1(3,4) by auto
  next
    case False
    have "IssuePasswordToken ?A email password ip ua w' = (Inl (Msg ''invalid credentials''), w')"
      if "\<forall>r\<in>set (t_adminUsers (db w)). au_Email r \<noteq> to_lower (trim_space email)"
    proof -
      have "List.find (\<lambda>u. au_Email u = to_lower (trim_space email)) (t_adminUsers (db w')) = None"
        using 1(1,3) False that by (auto simp: find_None_iff)
      then show ?thesis
        using assms(3)
        by (simp add: IssuePasswordToken_def orE_def AdminUsers_ByEmail_def base_first_def on_db_def statement_def)
    qed
    with False show ?thesis by simp
  qed
qed

end
