(* ===== verification/LifecycleFacts.thy ===== *)
theory LifecycleFacts
  imports Lifecycle BootstrapFacts
begin

text \<open>
  What holds in every state a running application can reach: one call of \<open>Serve\<close> is ever admitted, and
  the database is closed once, after that call has returned and every worker has stopped.
\<close>

definition active_pc :: "serve_pc \<Rightarrow> bool" where
  "active_pc pc \<longleftrightarrow> (case pc of ServeIdle \<Rightarrow> False | Served r \<Rightarrow> False | _ \<Rightarrow> True)"

lemma active_pc_simps [simp]: "\<not> active_pc ServeIdle" "active_pc Loading" "active_pc Loaded" "active_pc Serving"
  "active_pc Draining" "active_pc (Leaving r)" "active_pc (Waiting r)" "\<not> active_pc (Served r)"
  by (simp_all add: active_pc_def)

definition closing_pc :: "close_pc \<Rightarrow> bool" where
  "closing_pc pc \<longleftrightarrow> (case pc of CloseIdle \<Rightarrow> False | ClosedWith r \<Rightarrow> False | _ \<Rightarrow> True)"

lemma closing_pc_simps [simp]: "\<not> closing_pc CloseIdle" "closing_pc InOnce" "closing_pc (Marked b)" "closing_pc (Awaiting b)"
  "\<not> closing_pc (ClosedWith r)"
  by (simp_all add: closing_pc_def)

definition lone :: "(nat \<Rightarrow> serve_pc) \<Rightarrow> bool" where
  "lone f \<longleftrightarrow> (\<forall>n k. active_pc (f n) \<longrightarrow> active_pc (f k) \<longrightarrow> n = k)"

definition busy :: "(nat \<Rightarrow> serve_pc) \<Rightarrow> bool" where
  "busy f \<longleftrightarrow> (\<exists>n. active_pc (f n))"

lemma busy_at: "active_pc (f n) \<Longrightarrow> busy f"
  by (auto simp: busy_def)

lemma enters: "\<not> busy f \<Longrightarrow> active_pc pc \<Longrightarrow> lone (f(n := pc)) \<and> busy (f(n := pc))"
  by (auto simp: lone_def busy_def)

lemma moves_on: "lone f \<Longrightarrow> active_pc (f n) \<Longrightarrow> active_pc pc \<Longrightarrow> lone (f(n := pc)) \<and> busy (f(n := pc))"
  by (auto simp: lone_def busy_def)

lemma returns: "lone f \<Longrightarrow> active_pc (f n) \<Longrightarrow> \<not> active_pc pc \<Longrightarrow> lone (f(n := pc)) \<and> \<not> busy (f(n := pc))"
  by (auto simp: lone_def busy_def)

lemma stays_out:
  "\<not> active_pc (f n) \<Longrightarrow> \<not> active_pc pc \<Longrightarrow> lone (f(n := pc)) = lone f \<and> busy (f(n := pc)) = busy f"
  by (auto simp: lone_def busy_def)

text \<open>The admitted call of \<open>Serve\<close>, the workers and the listener.\<close>

definition serving_ok :: "'p life \<Rightarrow> bool" where
  "serving_ok l \<longleftrightarrow>
     lone (lf_serving l) \<and> (busy (lf_serving l) \<longleftrightarrow> lf_served l \<and> \<not> lf_done l) \<and>
     (lf_done l \<longrightarrow> lf_served l \<and> Wait (lf_pool l)) \<and>
     (\<not> lf_served l \<longrightarrow> lf_pool l = [])"

definition listening_ok :: "'p life \<Rightarrow> bool" where
  "listening_ok l \<longleftrightarrow>
     (\<not> lf_forced l \<longrightarrow> lf_listener l \<in> {Spawned, Listening} \<longrightarrow> lf_served l \<and> \<not> lf_done l \<and>
        (\<forall>n. active_pc (lf_serving l n) \<longrightarrow> lf_serving l n = Serving \<or> lf_serving l n = Draining)) \<and>
     (\<not> lf_forced l \<longrightarrow> 0 < lf_requests l \<longrightarrow> lf_listener l = Listening)"

text \<open>The one call of \<open>Close\<close> inside the \<open>Once\<close>.\<close>

definition closing_ok :: "'p machine \<Rightarrow> 'p life \<Rightarrow> bool" where
  "closing_ok m l \<longleftrightarrow>
     (\<forall>n. closing_pc (lf_closing l n) \<longleftrightarrow> lf_once l = Running n) \<and>
     (\<forall>n b. lf_closing l n = Marked b \<longrightarrow> lf_closed l \<and> b = lf_served l) \<and>
     (\<forall>n b. lf_closing l n = Awaiting b \<longrightarrow> lf_closed l \<and> b = lf_served l \<and> (b \<longrightarrow> ended l)) \<and>
     (lf_once l = Finished \<longrightarrow> lf_closed l \<and> (lf_served l \<longrightarrow> lf_done l)) \<and>
     (\<forall>n r. lf_closing l n = ClosedWith r \<longrightarrow> lf_once l = Finished \<and> r = lf_closeErr l) \<and>
     (lf_once l \<noteq> Finished \<longrightarrow> mc_pools (lf_machine l) = mc_pools m)"

lemmas life_upd_defs = serve_at_def close_at_def set_world_def Serve_admit_def Serve_loaded_def Serve_start_def cancel_def
  recordListenAddr_def Close_mark_def Close_cancel_def Close_database_def Let_def ended_def

lemma Wait_stopped: "Wait (ps @ (t, k) # qs) \<Longrightarrow> k = Stopped"
  by (simp add: Wait_def)

lemma worker_not_stopped:
  "worker_step m c t (k, w, ls) (k', w', ls') \<Longrightarrow> \<not> Wait (ps @ (t, k) # qs)"
  using worker_moves_on(2) Wait_stopped by blast

lemma active_served: "serving_ok l \<Longrightarrow> active_pc (lf_serving l n) \<Longrightarrow> lf_served l \<and> \<not> lf_done l"
  unfolding serving_ok_def using busy_at by blast

lemma only_active:
  assumes "serving_ok l" and "active_pc (lf_serving l n)" and "active_pc (lf_serving l k)"
  shows "k = n"
  using assms unfolding serving_ok_def lone_def by blast

text \<open>A step of the admitted call keeps it the only one.\<close>

lemma serving_ok_move:
  assumes "serving_ok l" and "active_pc (lf_serving l n)" and "active_pc pc"
    and "lf_serving l' = (lf_serving l)(n := pc)" and "lf_served l' = lf_served l" and "lf_done l' = lf_done l"
  shows "serving_ok l'"
  using assms(1,4-) moves_on [of "lf_serving l" n pc] active_served [OF assms(1,2)] assms(2,3) unfolding serving_ok_def by simp

lemma serving_ok_same:
  assumes "serving_ok l" and "lf_serving l' = lf_serving l" and "lf_served l' = lf_served l" and "lf_done l' = lf_done l"
    and "lf_pool l' = lf_pool l"
  shows "serving_ok l'"
  using assms unfolding serving_ok_def by auto

lemma serving_ok_step:
  assumes "life_step B app decode l l'" and "serving_ok l"
  shows "serving_ok l'"
  using assms(1)
proof (cases rule: life_step.cases)
  case (refused n e l'')
  with assms(2) stays_out [of "lf_serving l" n "Served (Some e)"] show ?thesis
    by (auto simp: serving_ok_def serve_at_def Serve_admit_def ended_def split: if_splits)
next
  case (admitted n l'')
  with assms(2) enters [of "lf_serving l" Loading n] show ?thesis
    by (auto simp: serving_ok_def serve_at_def Serve_admit_def ended_def split: if_splits)
next
  case (load n seen r w')
  show ?thesis unfolding load(1)
    by (rule serving_ok_move [OF assms(2), of n "Serve_loaded r (lf_context l)"])
       (use load in \<open>simp_all add: serve_at_def set_world_def Serve_loaded_def split: sum.split\<close>)
next
  case (start n)
  show ?thesis
  proof (cases "lf_context l")
    case None
    then show ?thesis unfolding start(1)
      by (intro serving_ok_move [OF assms(2), of n Serving]) (use start in \<open>simp_all add: serve_at_def Serve_start_def\<close>)
  next
    case (Some c)
    then show ?thesis unfolding start(1)
      by (intro serving_ok_move [OF assms(2), of n "Leaving (Some c)"]) (use start in \<open>simp_all add: serve_at_def Serve_start_def\<close>)
  qed
next
  case (context_done n)
  show ?thesis unfolding context_done(1)
    by (rule serving_ok_move [OF assms(2), of n Draining]) (use context_done in \<open>simp_all add: serve_at_def\<close>)
next
  case (listen_returned n e)
  show ?thesis unfolding listen_returned(1)
    by (rule serving_ok_move [OF assms(2), of n "Leaving e"]) (use listen_returned in \<open>simp_all add: serve_at_def\<close>)
next
  case (drained n)
  show ?thesis unfolding drained(1)
    by (rule serving_ok_move [OF assms(2), of n "Leaving (lf_context l)"]) (use drained in \<open>simp_all add: serve_at_def\<close>)
next
  case (drained_early n)
  show ?thesis unfolding drained_early(1)
    by (rule serving_ok_move [OF assms(2), of n "Leaving (lf_context l)"]) (use drained_early in \<open>simp_all add: serve_at_def\<close>)
next
  case (drain_failed n e)
  show ?thesis unfolding drain_failed(1)
    by (rule serving_ok_move [OF assms(2), of n "Leaving (Some e)"]) (use drain_failed in \<open>simp_all add: serve_at_def\<close>)
next
  case (leave n r)
  show ?thesis unfolding leave(1)
    by (rule serving_ok_move [OF assms(2), of n "Waiting r"])
       (use leave in \<open>simp_all add: serve_at_def cancel_def split: option.split\<close>)
next
  case (served n r)
  with assms(2) active_served [OF assms(2), of n] returns [of "lf_serving l" n "Served r"] show ?thesis
    by (simp add: serving_ok_def serve_at_def ended_def)
next
  case (worker ps t k qs k' w' lines')
  then have "\<not> Wait (lf_pool l)" using worker_not_stopped [OF worker(3)] by simp
  with assms(2) worker(2) show ?thesis unfolding worker(1) by (auto simp: serving_ok_def ended_def)
next
  case (close_database n b)
  then show ?thesis
    by (intro serving_ok_same [OF assms(2)]) (auto simp: close_at_def Close_database_def ended_def Let_def split: prod.splits)
qed (use assms(2) in \<open>auto intro!: serving_ok_same [OF assms(2)] simp: life_upd_defs split: option.splits\<close>)

text \<open>Outside \<open>select\<close> and the shutdown nothing listens.\<close>

lemma not_listening:
  assumes "serving_ok l" and "listening_ok l" and "active_pc (lf_serving l n)" and "lf_serving l n \<notin> {Serving, Draining}"
    and "\<not> lf_forced l"
  shows "lf_listener l \<notin> {Spawned, Listening} \<and> lf_requests l = 0"
proof -
  have "lf_listener l \<notin> {Spawned, Listening}" using assms(2-5) unfolding listening_ok_def by blast
  with assms(2,5) show ?thesis unfolding listening_ok_def by auto
qed

lemma quiet_listening:
  assumes "\<not> lf_forced l \<Longrightarrow> lf_listener l \<notin> {Spawned, Listening} \<and> lf_requests l = 0"
  shows "listening_ok l"
  using assms by (cases "lf_forced l") (simp_all add: listening_ok_def)

lemma listening_ok_step:
  assumes "life_step B app decode l l'" and "listening_ok l" and "serving_ok l"
  shows "listening_ok l'"
  using assms(1)
proof (cases rule: life_step.cases)
  case (load n seen r w')
  then have "\<not> lf_forced l \<Longrightarrow> lf_listener l \<notin> {Spawned, Listening} \<and> lf_requests l = 0"
    using not_listening [OF assms(3,2), of n] by simp
  then show ?thesis unfolding load(1) by (intro quiet_listening) (simp add: life_upd_defs)
next
  case (start n)
  then have "\<not> lf_forced l \<Longrightarrow> lf_listener l \<notin> {Spawned, Listening} \<and> lf_requests l = 0"
    using not_listening [OF assms(3,2), of n] by simp
  moreover have "lf_served l \<and> \<not> lf_done l" using active_served [OF assms(3), of n] start by simp
  moreover have "\<not> active_pc (lf_serving l k)" if "k \<noteq> n" for k using only_active [OF assms(3), of n k] start that by auto
  ultimately show ?thesis unfolding start(1)
    by (auto simp: listening_ok_def life_upd_defs split: option.splits)
next
  case (leave n r)
  then have "\<not> lf_forced l \<Longrightarrow> lf_listener l \<notin> {Spawned, Listening} \<and> lf_requests l = 0"
    using not_listening [OF assms(3,2), of n] by simp
  then show ?thesis unfolding leave(1) by (intro quiet_listening) (auto simp: life_upd_defs split: option.splits)
next
  case (served n r)
  then have "\<not> lf_forced l \<Longrightarrow> lf_listener l \<notin> {Spawned, Listening} \<and> lf_requests l = 0"
    using not_listening [OF assms(3,2), of n] by simp
  then show ?thesis unfolding served(1) by (intro quiet_listening) (simp add: life_upd_defs)
next
  case (listen_returned n e)
  then show ?thesis using assms(2) unfolding listen_returned(1)
    by (intro quiet_listening) (auto simp: listening_ok_def life_upd_defs)
next
  case (close_database n b)
  with assms(2) show ?thesis by (auto simp: listening_ok_def life_upd_defs split: prod.splits)
qed (use assms(2) in \<open>auto simp: listening_ok_def life_upd_defs split: if_splits option.splits\<close>)

lemma others_idle:
  assumes "closing_ok m l" and "closing_pc (lf_closing l n)"
  shows "lf_once l = Running n" and "k \<noteq> n \<Longrightarrow> \<not> closing_pc (lf_closing l k)"
    and "k \<noteq> n \<Longrightarrow> lf_closing l k \<noteq> Marked b \<and> lf_closing l k \<noteq> Awaiting b"
    and "lf_closing l k \<noteq> ClosedWith r"
proof -
  show "lf_closing l k \<noteq> ClosedWith r" using assms unfolding closing_ok_def by (metis once.distinct(5))
  show n: "lf_once l = Running n" using assms unfolding closing_ok_def by blast
  show k: "\<not> closing_pc (lf_closing l k)" if "k \<noteq> n" using assms(1) n that unfolding closing_ok_def by auto
  show "lf_closing l k \<noteq> Marked b \<and> lf_closing l k \<noteq> Awaiting b" if "k \<noteq> n"
    using k [OF that] by auto
qed

lemma closing_ok_step:
  assumes "life_step B app decode l l'" and "closing_ok m l" and "serving_ok l"
  shows "closing_ok m l'"
  using assms(1)
proof (cases rule: life_step.cases)
  case (start n)
  with assms(2) show ?thesis
    by (auto simp: closing_ok_def life_upd_defs split: option.splits)
next
  case (close_cancel n b)
  with assms(2) others_idle [OF assms(2), of n] show ?thesis
    by (auto simp: closing_ok_def life_upd_defs split: option.splits)
next
  case (close_database n b)
  with assms(2) others_idle [OF assms(2), of n] show ?thesis
    by (auto simp: closing_ok_def life_upd_defs split: prod.splits)
qed (use assms(2) in \<open>auto simp: closing_ok_def life_upd_defs split: if_splits option.splits sum.splits\<close>)

definition life_ok :: "'p machine \<Rightarrow> 'p life \<Rightarrow> bool" where
  "life_ok m l \<longleftrightarrow> serving_ok l \<and> listening_ok l \<and> closing_ok m l"

lemma new_life_ok: "life_ok m (new_life app m)"
  by (simp add: life_ok_def new_life_def serving_ok_def listening_ok_def closing_ok_def lone_def busy_def)

lemma life_ok_steps: "life_steps B app decode l l' \<Longrightarrow> life_ok m l \<Longrightarrow> life_ok m l'"
  by (induction rule: rtranclp_induct) (auto simp: life_ok_def intro: serving_ok_step listening_ok_step closing_ok_step)

lemma lived_ok: "lived B app decode m l \<Longrightarrow> life_ok m l"
  unfolding lived_def using life_ok_steps new_life_ok by blast

text \<open>C34: the database outlives its users. In every state any number of \<open>Serve\<close> and \<open>Close\<close> calls, workers and
  requests can reach, at most one call of \<open>Serve\<close> is under way; and once the connection pool has been given
  back, the application takes no further call, none is under way and every worker has stopped. If moreover the
  listener did not fail and its shutdown neither failed, nor ran into its deadline, nor came before the
  address was bound, nothing listens and no request is in flight; otherwise requests may still be.\<close>

lemma database_closed_last:
  assumes "lived B app decode m l"
  shows "(\<forall>n k. active_pc (lf_serving l n) \<longrightarrow> active_pc (lf_serving l k) \<longrightarrow> n = k) \<and>
    (mc_pools (lf_machine l) \<noteq> mc_pools m \<longrightarrow>
       isl (fst (Serve_admit l)) \<and> (\<forall>n. \<not> active_pc (lf_serving l n)) \<and> Wait (lf_pool l) \<and>
       (lf_forced l \<or> lf_listener l \<notin> {Spawned, Listening} \<and> lf_requests l = 0))"
proof -
  have s: "serving_ok l" and ls: "listening_ok l" and c: "closing_ok m l"
    using lived_ok [OF assms] by (simp_all add: life_ok_def)
  moreover have "isl (fst (Serve_admit l)) \<and> (\<forall>n. \<not> active_pc (lf_serving l n)) \<and> Wait (lf_pool l) \<and>
       (lf_forced l \<or> lf_listener l \<notin> {Spawned, Listening} \<and> lf_requests l = 0)"
    if "mc_pools (lf_machine l) \<noteq> mc_pools m"
  proof -
    have f: "lf_closed l" "lf_served l \<longrightarrow> lf_done l" using c that by (auto simp: closing_ok_def)
    have "\<not> active_pc (lf_serving l n)" for n using f(2) active_served [OF s] by blast
    moreover have "lf_listener l \<notin> {Spawned, Listening}" if "\<not> lf_forced l"
      using ls f(2) that unfolding listening_ok_def by blast
    moreover have "lf_requests l = 0" if "\<not> lf_forced l"
      using ls f(2) that unfolding listening_ok_def by auto
    moreover have "Wait (lf_pool l)"
      using s f(2) by (cases "lf_served l") (simp_all add: serving_ok_def Wait_def)
    ultimately show ?thesis using f by (auto simp: Serve_admit_def)
  qed
  ultimately show ?thesis unfolding serving_ok_def lone_def by blast
qed

section \<open>Close returns\<close>

text \<open>No worker is lost to a panic while every interval is positive.\<close>

definition ticking :: "'p application \<Rightarrow> bool" where
  "ticking app \<longleftrightarrow> (\<forall>t\<in>set (mg_tasks (ap_Workers app)). 0 < tk_Interval t)"

definition pool_ok :: "'p life \<Rightarrow> bool" where
  "pool_ok l \<longleftrightarrow> (\<forall>(t, k)\<in>set (lf_pool l). 0 < tk_Interval t \<and> k \<noteq> Panicked)"

lemma pool_ok_same: "lf_pool l' = lf_pool l \<Longrightarrow> pool_ok l \<Longrightarrow> pool_ok l'"
  by (simp add: pool_ok_def)

lemma pool_ok_step:
  assumes "life_step B app decode l l'" and "pool_ok l" and "ticking app"
  shows "pool_ok l'"
  using assms(1)
proof (cases rule: life_step.cases)
  case (start n)
  with assms(2,3) show ?thesis
    by (auto simp: pool_ok_def serve_at_def Serve_start_def Start_def ticking_def split: option.split)
next
  case (worker ps t k qs k' w' lines')
  then have "0 < tk_Interval t" using assms(2) by (simp add: pool_ok_def)
  then have "k' \<noteq> Panicked" using worker_moves_on(5) [OF worker(3)] by auto
  with worker assms(2) show ?thesis by (auto simp: pool_ok_def)
next
  case (close_database n b)
  then show ?thesis
    by (intro pool_ok_same [OF _ assms(2)]) (simp add: close_at_def Close_database_def Let_def split: prod.split)
qed (rule pool_ok_same [OF _ assms(2)], auto simp: life_upd_defs split: option.splits if_splits)+

lemma lived_pool_ok:
  assumes "lived B app decode m l" and "ticking app"
  shows "pool_ok l"
  using assms(1) unfolding lived_def
proof (induction rule: rtranclp_induct)
  case base
  show ?case by (simp add: pool_ok_def new_life_def)
next
  case (step l l')
  then show ?case using assms(2) by (blast intro: pool_ok_step)
qed

text \<open>What the host, the network and the listener do, seen from call \<open>n\<close> of \<open>Close\<close>: the host ends its context
  or calls \<open>Serve\<close> or \<open>Close\<close> another time, the listener binds its address or fails, a request comes in. Every
  other step is the application's own.\<close>

definition by_others :: "nat \<Rightarrow> 'p life \<Rightarrow> 'p life \<Rightarrow> bool" where
  "by_others n l l' \<longleftrightarrow>
     (\<exists>c. l' = cancel c l) \<or> (\<exists>k. lf_serving l k = ServeIdle \<and> lf_serving l' k \<noteq> ServeIdle) \<or>
     (\<exists>k. k \<noteq> n \<and> lf_closing l k = CloseIdle \<and> lf_closing l' k \<noteq> CloseIdle) \<or>
     (\<exists>addr. l' = recordListenAddr addr (l\<lparr>lf_listener := Listening\<rparr>)) \<or>
     (\<exists>e. l' = l\<lparr>lf_listener := ListenDone e, lf_forced := True\<rparr>) \<or>
     l' = l\<lparr>lf_requests := lf_requests l + 1\<rparr>"

definition own_step ::
    "'p boot_env \<Rightarrow> 'p application \<Rightarrow> CreatePayment decoder \<Rightarrow> nat \<Rightarrow> 'p life \<Rightarrow> 'p life \<Rightarrow> bool" where
  "own_step B app decode n l l' \<longleftrightarrow> life_step B app decode l l' \<and> \<not> by_others n l l'"

abbreviation own_steps ::
    "'p boot_env \<Rightarrow> 'p application \<Rightarrow> CreatePayment decoder \<Rightarrow> nat \<Rightarrow> 'p life \<Rightarrow> 'p life \<Rightarrow> bool" where
  "own_steps B app decode n \<equiv> (own_step B app decode n)\<^sup>*\<^sup>*"

lemma own_steps_life: "own_steps B app decode n l l' \<Longrightarrow> life_steps B app decode l l'"
  by (rule rtranclp_mono [THEN predicate2D]) (auto simp: own_step_def)

text \<open>A step of a call under way, and a step of a worker, are the application's own.\<close>

lemma own_serving:
  assumes "life_step B app decode l l'" and "lf_serving l k \<noteq> ServeIdle"
    and "lf_serving l' = (lf_serving l)(k := pc)" and "pc \<noteq> lf_serving l k" and "lf_closing l' = lf_closing l"
  shows "own_step B app decode n l l'"
proof -
  have "lf_serving l' \<noteq> lf_serving l" using assms(3,4) by (metis fun_upd_same)
  then have "\<not> by_others n l l'"
    using assms(2,3,5) by (auto simp: by_others_def cancel_def recordListenAddr_def split: option.splits if_splits)
  with assms(1) show ?thesis by (simp add: own_step_def)
qed

lemma own_closing:
  assumes "life_step B app decode l l'" and "k = n \<or> lf_closing l k \<noteq> CloseIdle"
    and "lf_closing l' = (lf_closing l)(k := pc)" and "pc \<noteq> lf_closing l k" and "lf_serving l' = lf_serving l"
  shows "own_step B app decode n l l'"
proof -
  have "lf_closing l' \<noteq> lf_closing l" using assms(3,4) by (metis fun_upd_same)
  then have "\<not> by_others n l l'"
    using assms(2,3,5) by (auto simp: by_others_def cancel_def recordListenAddr_def split: option.splits if_splits)
  with assms(1) show ?thesis by (simp add: own_step_def)
qed

lemma own_worker:
  assumes "life_step B app decode l l'" and "lf_pool l' \<noteq> lf_pool l" and "lf_closing l' = lf_closing l"
    and "lf_serving l' = lf_serving l"
  shows "own_step B app decode n l l'"
  using assms by (auto simp: own_step_def by_others_def cancel_def recordListenAddr_def split: option.splits)

text \<open>The calls of \<open>Close\<close> stand still.\<close>

definition same_closing :: "'p life \<Rightarrow> 'p life \<Rightarrow> bool" where
  "same_closing l l' \<longleftrightarrow> lf_closing l' = lf_closing l \<and> lf_once l' = lf_once l"

definition same_calls :: "'p life \<Rightarrow> 'p life \<Rightarrow> bool" where
  "same_calls l l' \<longleftrightarrow> same_closing l l' \<and> lf_serving l' = lf_serving l \<and> lf_context l' = lf_context l"

fun loop_left :: "loop \<Rightarrow> nat" where
  "loop_left Selecting = 1"
| "loop_left Stopped = 0"
| "loop_left _ = 2"

definition pool_left :: "'p life \<Rightarrow> nat" where
  "pool_left l = sum_list (map (loop_left \<circ> snd) (lf_pool l))"

lemma worker_winds_down:
  assumes "0 < tk_Interval t" and "k \<noteq> Panicked" and "k \<noteq> Stopped"
  shows "\<exists>k' w' lines'. worker_step m True t (k, w, lines) (k', w', lines') \<and> loop_left k' < loop_left k"
proof (cases "running k")
  case True
  obtain r w' where run: "tk_Run t (under_context False w) = (r, w')" by fastforce
  have "worker_step m True t (k, w, lines) (next_loop t k, w', log_iteration m t r lines)"
    by (rule worker_step.iteration [OF True _ run]) simp
  moreover have "loop_left (next_loop t k) < loop_left k"
    using True assms(1) by (cases k) (auto simp: next_loop_def running_def)
  ultimately show ?thesis by blast
next
  case False
  with assms(2,3) have "k = Selecting" by (cases k) (auto simp: running_def)
  then show ?thesis using worker_step.stop [of True m t w lines] by fastforce
qed

lemma workers_stop:
  assumes "pool_ok l" and "ended l"
  shows "\<exists>l'. own_steps B app decode n l l' \<and> Wait (lf_pool l') \<and> same_calls l l'"
  using assms
proof (induction "pool_left l" arbitrary: l rule: less_induct)
  case less
  show ?case
  proof (cases "Wait (lf_pool l)")
    case True
    then show ?thesis by (intro exI [of _ l]) (simp add: same_calls_def same_closing_def)
  next
    case False
    then obtain t k where tk: "(t, k) \<in> set (lf_pool l)" "k \<noteq> Stopped" by (auto simp: Wait_def)
    then obtain ps qs where pool: "lf_pool l = ps @ (t, k) # qs" by (meson split_list)
    have "0 < tk_Interval t" "k \<noteq> Panicked" using less.prems(1) tk(1) by (auto simp: pool_ok_def)
    then obtain k' w' lines' where w: "worker_step (ap_Workers app) (ended l) t (k, lf_world l, mc_lines (lf_machine l)) (k', w', lines')"
      and left: "loop_left k' < loop_left k"
      using worker_winds_down tk(2) less.prems(2) by (metis (full_types))
    define l1 where "l1 = l\<lparr>lf_pool := ps @ (t, k') # qs, lf_machine := (lf_machine l)\<lparr>mc_world := w', mc_lines := lines'\<rparr>\<rparr>"
    have step: "own_step B app decode n l l1"
      by (rule own_worker) (use life_step.worker [OF pool w] left in \<open>auto simp: l1_def pool\<close>)
    have "pool_left l1 < pool_left l" using left by (simp add: pool_left_def l1_def pool)
    moreover have "pool_ok l1"
      using less.prems(1) worker_moves_on(5) [OF w] tk(1) by (auto simp: pool_ok_def l1_def pool)
    moreover have "ended l1" using less.prems(2) by (simp add: l1_def ended_def)
    ultimately obtain l' where "own_steps B app decode n l1 l'" "Wait (lf_pool l')" "same_calls l1 l'"
      using less.hyps by blast
    with step show ?thesis
      by (intro exI [of _ l']) (auto simp: same_calls_def same_closing_def l1_def intro: converse_rtranclp_into_rtranclp)
  qed
qed

text \<open>The admitted call of \<open>Serve\<close> comes to its end once the context has ended.\<close>

definition finishes :: "'p boot_env \<Rightarrow> 'p application \<Rightarrow> CreatePayment decoder \<Rightarrow> nat \<Rightarrow> 'p life \<Rightarrow> bool" where
  "finishes B app decode n l \<longleftrightarrow> (\<exists>l'. own_steps B app decode n l l' \<and> lf_done l' \<and> same_closing l l')"

lemma finishes_steps:
  "own_steps B app decode n l l1 \<Longrightarrow> same_closing l l1 \<Longrightarrow> finishes B app decode n l1 \<Longrightarrow> finishes B app decode n l"
  unfolding finishes_def same_closing_def by (metis rtranclp_trans)

text \<open>One step of the call, with what is left to show of it.\<close>

lemma finishes_step:
  assumes "life_step B app decode l l1" and "finishes B app decode n l1" and "lf_serving l i \<noteq> ServeIdle"
    and "lf_serving l1 = (lf_serving l)(i := pc)" and "pc \<noteq> lf_serving l i" and "same_closing l l1"
  shows "finishes B app decode n l"
proof (rule finishes_steps [OF r_into_rtranclp [of "own_step B app decode n"] assms(6,2)])
  show "own_step B app decode n l l1"
    by (rule own_serving [OF assms(1,3-5)]) (use assms(6) in \<open>simp add: same_closing_def\<close>)
qed

lemma waiting_finishes:
  assumes "lf_serving l i = Waiting r" and "pool_ok l" and "ended l"
  shows "finishes B app decode n l"
proof -
  obtain l1 where l1: "own_steps B app decode n l l1" "Wait (lf_pool l1)" "same_calls l l1"
    using workers_stop [OF assms(2,3)] by blast
  then have i: "lf_serving l1 i = Waiting r" using assms(1) by (simp add: same_calls_def)
  let ?l = "serve_at i (Served r) (l1\<lparr>lf_done := True\<rparr>)"
  have "finishes B app decode n l1"
  proof (rule finishes_step [OF life_step.served [OF i l1(2)], where i = i and pc = "Served r"])
    show "finishes B app decode n ?l"
      unfolding finishes_def by (intro exI [of _ ?l]) (simp add: same_closing_def serve_at_def)
  qed (simp_all add: i serve_at_def same_closing_def)
  with l1(1,3) show ?thesis by (auto simp: same_calls_def intro: finishes_steps)
qed

lemma leaving_finishes:
  assumes "lf_serving l i = Leaving r" and "pool_ok l"
  shows "finishes B app decode n l"
proof (rule finishes_step [OF life_step.leave [OF assms(1)], where i = i and pc = "Waiting r"])
  show "finishes B app decode n (serve_at i (Waiting r) (cancel CtxErr l))"
    by (rule waiting_finishes [of _ i r])
       (use assms(2) in \<open>auto simp: serve_at_def cancel_def ended_def pool_ok_def split: option.split\<close>)
qed (simp_all add: assms(1) same_closing_def serve_at_def cancel_def split: option.split)

lemma draining_finishes:
  assumes "lf_serving l i = Draining" and "pool_ok l"
  shows "finishes B app decode n l"
proof (rule finishes_step [OF life_step.drain_failed [OF assms(1), where e = DeadlineExceeded], where i = i and pc = "Leaving (Some DeadlineExceeded)"])
  show "finishes B app decode n (serve_at i (Leaving (Some DeadlineExceeded)) (l\<lparr>lf_forced := True\<rparr>))"
    by (rule leaving_finishes [of _ i "Some DeadlineExceeded"]) (use assms(2) in \<open>simp_all add: serve_at_def pool_ok_def\<close>)
qed (simp_all add: assms(1) same_closing_def serve_at_def)

lemma loaded_finishes:
  assumes "lf_serving l i = Loaded" and "pool_ok l" and "ended l"
  shows "finishes B app decode n l"
proof -
  obtain c where c: "lf_context l = Some c" using assms(3) by (auto simp: ended_def)
  have s: "Serve_start app i l = serve_at i (Leaving (Some c)) l" by (simp add: Serve_start_def c)
  show ?thesis
  proof (rule finishes_step [OF life_step.start [OF assms(1)], where i = i and pc = "Leaving (Some c)"])
    show "finishes B app decode n (Serve_start app i l)" unfolding s
      by (rule leaving_finishes [of _ i "Some c"]) (use assms(2) in \<open>simp_all add: serve_at_def pool_ok_def\<close>)
  qed (simp_all add: assms(1) s same_closing_def serve_at_def)
qed

lemma loading_finishes:
  assumes "lf_serving l i = Loading" and "pool_ok l" and "ended l"
  shows "finishes B app decode n l"
proof -
  obtain r w' where load: "LoadActive (he_env (ap_http app)) (under_context False (lf_world l)) = (r, w')" by fastforce
  let ?pc = "Serve_loaded r (lf_context l)"
  let ?l = "serve_at i ?pc (set_world w' l)"
  have ok: "pool_ok ?l" "ended ?l" using assms(2,3) by (simp_all add: serve_at_def set_world_def pool_ok_def ended_def)
  have pc: "lf_serving ?l i = ?pc" by (simp add: serve_at_def)
  have "finishes B app decode n ?l"
  proof (cases r)
    case (Inl e)
    with pc show ?thesis by (intro leaving_finishes [OF _ ok(1)]) (simp add: Serve_loaded_def)
  next
    case (Inr u)
    with pc show ?thesis by (intro loaded_finishes [OF _ ok]) (simp add: Serve_loaded_def)
  qed
  moreover have "life_step B app decode l ?l" by (rule life_step.load [OF assms(1) _ load]) simp
  moreover have "?pc \<noteq> Loading" by (simp add: Serve_loaded_def split: sum.split)
  ultimately show ?thesis
    by (intro finishes_step [of B app decode l ?l n i ?pc]) (simp_all add: assms(1) same_closing_def serve_at_def set_world_def)
qed

lemma serving_finishes:
  assumes "active_pc (lf_serving l i)" and "pool_ok l" and "ended l"
  shows "finishes B app decode n l"
proof (cases "lf_serving l i")
  case Serving
  show ?thesis
  proof (rule finishes_step [OF life_step.context_done [OF Serving assms(3)], where i = i and pc = Draining])
    show "finishes B app decode n (serve_at i Draining l)"
      by (rule draining_finishes [of _ i]) (use assms(2) in \<open>simp_all add: serve_at_def pool_ok_def\<close>)
  qed (simp_all add: Serving same_closing_def serve_at_def)
qed (use assms in \<open>auto intro: loading_finishes loaded_finishes draining_finishes leaving_finishes waiting_finishes\<close>)

text \<open>The call of \<open>Close\<close> inside the \<open>Once\<close> comes to its end.\<close>

definition closes :: "'p boot_env \<Rightarrow> 'p application \<Rightarrow> CreatePayment decoder \<Rightarrow> nat \<Rightarrow> 'p life \<Rightarrow> bool" where
  "closes B app decode n l \<longleftrightarrow> (\<exists>l'. own_steps B app decode n l l' \<and> lf_once l' = Finished)"

lemma closes_steps: "own_steps B app decode n l l1 \<Longrightarrow> closes B app decode n l1 \<Longrightarrow> closes B app decode n l"
  unfolding closes_def by (meson rtranclp_trans)

lemma closes_step: "own_step B app decode n l l1 \<Longrightarrow> closes B app decode n l1 \<Longrightarrow> closes B app decode n l"
  by (rule closes_steps) auto

lemma own_close_step:
  assumes "life_step B app decode l (close_at k pc l1)" and "k = n \<or> lf_closing l k \<noteq> CloseIdle" and "pc \<noteq> lf_closing l k"
    and "lf_closing l1 = lf_closing l" and "lf_serving l1 = lf_serving l"
  shows "own_step B app decode n l (close_at k pc l1)"
  by (rule own_closing [OF assms(1,2)]) (use assms(3-5) in \<open>simp_all add: close_at_def\<close>)

lemma awaiting_closes:
  assumes "lf_closing l k = Awaiting b" and "life_ok m l" and "pool_ok l"
  shows "closes B app decode n l"
proof -
  have last: "closes B app decode n l1" if "lf_closing l1 k = Awaiting b" "b \<longrightarrow> lf_done l1" for l1
  proof (rule closes_step)
    show "closes B app decode n (Close_database B k l1)"
      by (auto simp: closes_def Close_database_def close_at_def Let_def split: prod.split)
    show "own_step B app decode n l1 (Close_database B k l1)"
      using life_step.close_database [OF that, of B app decode] unfolding Close_database_def Let_def
      by (cases "closeDatabase B (lf_machine l1)", simp only: prod.case) (rule own_close_step, simp_all add: that(1))
  qed
  show ?thesis
  proof (cases "b \<longrightarrow> lf_done l")
    case True
    with last assms(1) show ?thesis by blast
  next
    case False
    have b: "b = lf_served l" "b \<longrightarrow> ended l" using assms(1,2) by (auto simp: life_ok_def closing_ok_def)
    with False assms(2) obtain i where "active_pc (lf_serving l i)" by (auto simp: life_ok_def serving_ok_def busy_def)
    then have "finishes B app decode n l" using serving_finishes assms(3) False b by blast
    then obtain l1 where "own_steps B app decode n l l1" "lf_done l1" "same_closing l l1" by (auto simp: finishes_def)
    with last [of l1] assms(1) show ?thesis by (auto simp: same_closing_def intro: closes_steps)
  qed
qed

lemma own_keeps:
  assumes "own_step B app decode n l l'" and "life_ok m l" and "pool_ok l" and "ticking app"
  shows "life_ok m l'" "pool_ok l'"
  using assms life_ok_steps [OF r_into_rtranclp [of "life_step B app decode"]] pool_ok_step
  unfolding own_step_def by blast+

lemma running_closes:
  assumes "lf_once l = Running k" and "life_ok m l" and "pool_ok l" and "ticking app"
  shows "closes B app decode n l"
proof -
  have marked: "closes B app decode n l1" if c: "lf_closing l1 k = Marked b" and ok: "life_ok m l1" "pool_ok l1" for l1 b
  proof -
    have step: "own_step B app decode n l1 (Close_cancel k b l1)"
      using life_step.close_cancel [OF c, of B app decode] unfolding Close_cancel_def
      by (rule own_close_step) (simp_all add: c cancel_def split: option.split)
    have "closes B app decode n (Close_cancel k b l1)"
      by (rule awaiting_closes [of _ k b, OF _ own_keeps [OF step ok assms(4)]]) (simp add: Close_cancel_def close_at_def)
    with step show ?thesis by (rule closes_step)
  qed
  have "closing_pc (lf_closing l k)" using assms(1,2) by (simp add: life_ok_def closing_ok_def)
  then show ?thesis
  proof (cases "lf_closing l k")
    case InOnce
    have step: "own_step B app decode n l (Close_mark k l)"
      using life_step.close_mark [OF InOnce, of B app decode] unfolding Close_mark_def
      by (rule own_close_step) (simp_all add: InOnce)
    have "closes B app decode n (Close_mark k l)"
      by (rule marked [OF _ own_keeps [OF step assms(2-4)]]) (simp add: Close_mark_def close_at_def)
    with step show ?thesis by (rule closes_step)
  qed (use marked awaiting_closes assms(2,3) in auto)
qed

lemma once_finishes:
  assumes "life_ok m l" and "pool_ok l" and "ticking app"
  shows "closes B app decode n l"
proof (cases "lf_once l")
  case Fresh
  then have idle: "lf_closing l n = CloseIdle"
    using assms(1) by (cases "lf_closing l n") (auto simp: life_ok_def closing_ok_def dest!: spec [where x = n])
  have step: "own_step B app decode n l (close_at n InOnce (l\<lparr>lf_once := Running n\<rparr>))"
    using life_step.close_first [OF idle Fresh] by (rule own_close_step) (simp_all add: idle)
  have "closes B app decode n (close_at n InOnce (l\<lparr>lf_once := Running n\<rparr>))"
    by (rule running_closes [OF _ own_keeps [OF step assms] assms(3)]) (simp add: close_at_def)
  with step show ?thesis by (rule closes_step)
next
  case (Running k)
  then show ?thesis using assms by (rule running_closes)
qed (auto simp: closes_def)

text \<open>C35: \<open>Close\<close> never hangs. From every reachable state, whoever else is inside \<open>Serve\<close> or \<open>Close\<close>, and with
  requests and iterations of the workers under way, the application's own steps bring a call of \<open>Close\<close> to
  its end, with the result of the one close of the database, provided every worker has a positive interval:
  the host need not end its context nor call anything else, the listener need not return and no request is waited for,
  since a shutdown that does not drain gives up at its deadline.\<close>

lemma close_returns:
  assumes "lived B app decode m l" and "ticking app"
  shows "\<exists>l'. own_steps B app decode n l l' \<and> lf_once l' = Finished \<and> lf_closing l' n = ClosedWith (lf_closeErr l')"
proof -
  obtain l1 where l1: "own_steps B app decode n l l1" "lf_once l1 = Finished"
    using once_finishes [OF lived_ok [OF assms(1)] lived_pool_ok [OF assms] assms(2)] unfolding closes_def by blast
  then have ok: "closing_ok m l1"
    using life_ok_steps [OF own_steps_life [OF l1(1)] lived_ok [OF assms(1)]] by (simp add: life_ok_def)
  then have "\<not> closing_pc (lf_closing l1 n)" using l1(2) by (simp add: closing_ok_def)
  then show ?thesis
  proof (cases "lf_closing l1 n")
    case CloseIdle
    have "own_step B app decode n l1 (close_at n (ClosedWith (lf_closeErr l1)) l1)"
      using life_step.close_again [OF CloseIdle l1(2)] by (rule own_close_step) (simp_all add: CloseIdle)
    with l1(1) have "own_steps B app decode n l (close_at n (ClosedWith (lf_closeErr l1)) l1)" by (rule rtranclp.rtrancl_into_rtrancl)
    with l1(2) show ?thesis by (intro exI [of _ "close_at n (ClosedWith (lf_closeErr l1)) l1"]) (simp add: close_at_def)
  next
    case (ClosedWith r)
    with ok l1 show ?thesis by (auto simp: closing_ok_def)
  qed simp_all
qed

end
