(* ===== verification/Momobase.thy ===== *)
theory Momobase
  imports Lifecycle "HOL-Library.Multiset"
begin

text \<open>
  \<open>momobase.go\<close>, the package a host imports: the options of \<open>New\<close>, the registry built from the factories
  they name, and the operations of an instance. An option is a change of the options gathered so far; a
  nil option is \<open>None\<close>. A map of factories is an association list, and \<open>order\<close> is the order in which
  a range over one goes through it.
\<close>

record 'p options =
  op_config :: "config option"
  op_mutators :: "(config \<Rightarrow> config) list"
  op_logger :: "log_level option"
  op_factories :: "'p registry"

type_synonym 'p Option = "'p options \<Rightarrow> 'p options"

type_synonym 'p factory_order = "'p registry \<Rightarrow> 'p registry"

definition no_options :: "'p options" where
  "no_options = \<lparr>op_config = None, op_mutators = [], op_logger = None, op_factories = []\<rparr>"

definition WithConfig :: "config \<Rightarrow> 'p Option" where
  "WithConfig cfg acc = acc\<lparr>op_config := Some cfg\<rparr>"

definition WithConfigFunc :: "(config \<Rightarrow> config) \<Rightarrow> 'p Option" where
  "WithConfigFunc fn acc = acc\<lparr>op_mutators := op_mutators acc @ [fn]\<rparr>"

definition WithAddr :: "string \<Rightarrow> 'p Option" where
  "WithAddr addr = WithConfigFunc (\<lambda>cfg. cfg\<lparr>cfg_App := (cfg_App cfg)\<lparr>ac_Addr := addr\<rparr>\<rparr>)"

definition WithLogger :: "log_level option \<Rightarrow> 'p Option" where
  "WithLogger log acc = acc\<lparr>op_logger := log\<rparr>"

definition WithProvider :: "string \<Rightarrow> 'p factory option \<Rightarrow> 'p Option" where
  "WithProvider code factory acc = acc\<lparr>op_factories := Register (op_factories acc) code factory\<rparr>"

definition WithProviders :: "'p factory_order \<Rightarrow> 'p registry \<Rightarrow> 'p Option" where
  "WithProviders order factories acc =
     acc\<lparr>op_factories := fold (\<lambda>(code, factory) m. Register m code factory) (order factories) (op_factories acc)\<rparr>"

fun register_all :: "'p registry \<Rightarrow> 'p registry \<Rightarrow> err + 'p registry" where
  "register_all [] registry = Inr registry"
| "register_all ((code, factory) # rest) registry =
     (if trim_space code = [] then Inl (Msg ''provider code is required'')
      else if factory = None then Inl (Msg (''provider factory is required: '' @ code))
      else register_all rest (Register registry code factory))"

definition providerRegistry :: "'p factory_order \<Rightarrow> 'p registry \<Rightarrow> err + 'p registry" where
  "providerRegistry order factories =
     (if factories = [] then Inl (Msg ''no payment providers registered: apply_options at least one with WithProvider'')
      else register_all (order factories) NewRegistry)"

fun apply_options :: "'p Option option list \<Rightarrow> 'p options \<Rightarrow> 'p options" where
  "apply_options [] acc = acc"
| "apply_options (None # opts) acc = apply_options opts acc"
| "apply_options (Some opt # opts) acc = apply_options opts (opt acc)"

definition resolve_config :: "'p options \<Rightarrow> config" where
  "resolve_config acc =
     fold (\<lambda>mutate cfg. mutate cfg) (op_mutators acc) (case op_config acc of None \<Rightarrow> DefaultConfig | Some cfg \<Rightarrow> cfg)"

definition New :: "'p boot_env \<Rightarrow> 'p factory_order \<Rightarrow> 'p Option option list \<Rightarrow> ('p, 'p application) boot" where
  "New B order opts =
     (let acc = apply_options opts no_options in
      bindE (liftE (providerRegistry order (op_factories acc))) (\<lambda>registry.
      NewApp B (resolve_config acc) (op_logger acc) registry))"

text \<open>\<open>Instance.Serve\<close> reports the outcome of \<open>App.Serve\<close>, except that of a cancelled context.\<close>

definition Instance_Serve :: "err option \<Rightarrow> err option" where
  "Instance_Serve r = (case r of None \<Rightarrow> None | Some e \<Rightarrow> if errors_is e CtxErr then None else Some e)"

definition Instance_Migrate :: "'p boot_env \<Rightarrow> ('p, unit) boot" where
  "Instance_Migrate B = Migrate B True"

definition Instance_SeedAdmin :: "'p application \<Rightarrow> string \<Rightarrow> string \<Rightarrow> string \<Rightarrow> ('p, unit) boot" where
  "Instance_SeedAdmin app email password name = on_engine (SeedAdmin app email password name)"

definition Instance_Addr :: "'p life \<Rightarrow> string" where "Instance_Addr l = ListenAddr l"

definition Instance_PublicDir :: "'p application \<Rightarrow> string" where "Instance_PublicDir app = ap_PublicDir app"

section \<open>What a list of options asks for\<close>

text \<open>The options by name, and the settings they stand for, whatever order they are supplied in.\<close>

datatype 'p setting =
    SetConfig config
  | Mutate "config \<Rightarrow> config"
  | Addr string
  | Logger "log_level option"
  | Provider string "'p factory option"
  | Providers "'p registry"

fun option_of :: "'p factory_order \<Rightarrow> 'p setting \<Rightarrow> 'p Option" where
  "option_of order (SetConfig cfg) = WithConfig cfg"
| "option_of order (Mutate fn) = WithConfigFunc fn"
| "option_of order (Addr addr) = WithAddr addr"
| "option_of order (Logger log) = WithLogger log"
| "option_of order (Provider code factory) = WithProvider code factory"
| "option_of order (Providers factories) = WithProviders order factories"

fun config_of :: "'p setting list \<Rightarrow> config \<Rightarrow> config" where
  "config_of [] cfg = cfg"
| "config_of (SetConfig cfg' # ss) cfg = config_of ss cfg'"
| "config_of (_ # ss) cfg = config_of ss cfg"

fun mutated :: "'p setting list \<Rightarrow> config \<Rightarrow> config" where
  "mutated [] cfg = cfg"
| "mutated (Mutate fn # ss) cfg = mutated ss (fn cfg)"
| "mutated (Addr addr # ss) cfg = mutated ss (cfg\<lparr>cfg_App := (cfg_App cfg)\<lparr>ac_Addr := addr\<rparr>\<rparr>)"
| "mutated (_ # ss) cfg = mutated ss cfg"

fun logger_of :: "'p setting list \<Rightarrow> log_level option \<Rightarrow> log_level option" where
  "logger_of [] log = log"
| "logger_of (Logger log' # ss) log = logger_of ss log'"
| "logger_of (_ # ss) log = logger_of ss log"

fun supplied :: "'p setting list \<Rightarrow> (string \<rightharpoonup> 'p factory option) \<Rightarrow> (string \<rightharpoonup> 'p factory option)" where
  "supplied [] m = m"
| "supplied (Provider code factory # ss) m = supplied ss (m(code \<mapsto> factory))"
| "supplied (Providers factories # ss) m = supplied ss (m ++ map_of factories)"
| "supplied (_ # ss) m = supplied ss m"

definition ranges :: "'p factory_order \<Rightarrow> bool" where
  "ranges order \<longleftrightarrow> (\<forall>m. mset (order m) = mset m)"

fun go_map :: "'p setting \<Rightarrow> bool" where
  "go_map (Providers factories) = distinct (map fst factories)"
| "go_map _ = True"

section \<open>Registries as maps\<close>

lemma map_of_Register: "map_of (Register r code f) = (map_of r)(code \<mapsto> f)"
proof
  fix c
  have "map_of (filter (\<lambda>(d, _). d \<noteq> code) r) c = map_of r c" if "c \<noteq> code" using that by (induction r) auto
  then show "map_of (Register r code f) c = ((map_of r)(code \<mapsto> f)) c" by (simp add: Register_def)
qed

lemma distinct_Register: "distinct (map fst r) \<Longrightarrow> distinct (map fst (Register r code f))"
  by (induction r) (auto simp: Register_def)

lemma fold_Register:
  assumes "distinct (map fst fs)"
  shows "map_of (fold (\<lambda>(code, factory) m. Register m code factory) fs r) = map_of r ++ map_of fs"
  using assms
proof (induction fs arbitrary: r)
  case (Cons x fs)
  obtain code f where x: "x = (code, f)" by fastforce
  with Cons.prems have "map_of fs code = None" by (simp add: map_of_eq_None_iff)
  then have "(map_of r)(code \<mapsto> f) ++ map_of fs = map_of r ++ map_of (x # fs)"
    by (auto simp: x map_add_def fun_eq_iff split: option.split)
  moreover have "map_of (fold (\<lambda>(code, factory) m. Register m code factory) (x # fs) r) = map_of (Register r code f) ++ map_of fs"
    using Cons by (simp add: x)
  ultimately show ?case by (simp only: map_of_Register)
qed simp

lemma distinct_fold_Register:
  "distinct (map fst r) \<Longrightarrow> distinct (map fst (fold (\<lambda>(code, factory) m. Register m code factory) fs r))"
  by (induction fs arbitrary: r) (auto simp: distinct_Register)

lemma ranged:
  assumes "ranges order" and "distinct (map fst m)"
  shows "map_of (order m) = map_of m" and "distinct (map fst (order m))" and "set (order m) = set m"
proof -
  have m: "mset (order m) = mset m" using assms(1) by (simp add: ranges_def)
  then show s: "set (order m) = set m" by (rule mset_eq_setD)
  have "mset (map fst (order m)) = mset (map fst m)" using m by simp
  then show d: "distinct (map fst (order m))" using assms(2) mset_eq_imp_distinct_iff by blast
  show "map_of (order m) = map_of m" by (rule map_of_eqI) (use s d assms(2) in auto)
qed

lemma register_all_InrE:
  assumes "register_all fs r = Inr r'"
  shows "r' = fold (\<lambda>(code, factory) m. Register m code factory) fs r" and "\<forall>(code, f)\<in>set fs. trim_space code \<noteq> [] \<and> f \<noteq> None"
  using assms by (induction fs r rule: register_all.induct) (auto split: if_splits)

lemma register_all_Inl:
  "register_all fs r = Inl e \<Longrightarrow> \<exists>(code, f)\<in>set fs. trim_space code = [] \<or> f = None"
  by (induction fs r rule: register_all.induct) (auto split: if_splits)

section \<open>Resolving the options\<close>

abbreviation run_mutators :: "(config \<Rightarrow> config) list \<Rightarrow> config \<Rightarrow> config" where
  "run_mutators \<equiv> fold (\<lambda>mutate cfg. mutate cfg)"

abbreviation options_of :: "'p factory_order \<Rightarrow> 'p setting list \<Rightarrow> 'p Option option list" where
  "options_of order ss \<equiv> map (Some \<circ> option_of order) ss"

lemmas option_defs = WithConfig_def WithConfigFunc_def WithAddr_def WithLogger_def WithProvider_def WithProviders_def

lemma supply_config:
  "(case op_config (apply_options (options_of order ss) acc) of None \<Rightarrow> c | Some cfg \<Rightarrow> cfg) =
     config_of ss (case op_config acc of None \<Rightarrow> c | Some cfg \<Rightarrow> cfg)"
proof (induction ss arbitrary: acc c)
  case (Cons s ss)
  then show ?case by (cases s) (simp_all add: option_defs)
qed simp

lemma supply_mutators:
  "run_mutators (op_mutators (apply_options (options_of order ss) acc)) c = mutated ss (run_mutators (op_mutators acc) c)"
proof (induction ss arbitrary: acc)
  case (Cons s ss)
  then show ?case by (cases s) (simp_all add: option_defs)
qed simp

lemma supply_logger: "op_logger (apply_options (options_of order ss) acc) = logger_of ss (op_logger acc)"
  by (induction ss "op_logger acc" arbitrary: acc rule: logger_of.induct) (simp_all add: option_defs)

lemma supply_factories:
  assumes "ranges order" and "\<forall>s\<in>set ss. go_map s" and "distinct (map fst (op_factories acc))"
  shows "distinct (map fst (op_factories (apply_options (options_of order ss) acc))) \<and>
    map_of (op_factories (apply_options (options_of order ss) acc)) = supplied ss (map_of (op_factories acc))"
  using assms(2,3)
proof (induction ss arbitrary: acc)
  case (Cons s ss)
  let ?acc = "option_of order s acc"
  have "distinct (map fst (op_factories ?acc))"
    using Cons.prems by (cases s) (auto simp: option_defs distinct_Register distinct_fold_Register)
  moreover have "supplied (s # ss) (map_of (op_factories acc)) = supplied ss (map_of (op_factories ?acc))"
    using Cons.prems ranged [OF assms(1)]
    by (cases s) (auto simp: option_defs map_of_Register fold_Register)
  ultimately show ?case using Cons by simp
qed simp

text \<open>The options of \<open>New\<close>. A configuration given anywhere in the list is the base, the last one winning,
  and every change is applied to it in the order supplied, wherever it stands; the factory last named for a
  code is the one registered. \<open>New\<close> then starts up with exactly these, unless no factory is left, or one
  is nil or has a blank code: it reports that before anything is opened.\<close>

lemma options_resolved:
  assumes "ranges order" and "\<forall>s\<in>set ss. go_map s"
  shows "if supplied ss Map.empty = Map.empty \<or>
      (\<exists>code f. supplied ss Map.empty code = Some f \<and> (trim_space code = [] \<or> f = None))
    then \<exists>e. New B order (options_of order ss) m = (Inl e, m)
    else \<exists>registry. map_of registry = supplied ss Map.empty \<and>
      New B order (options_of order ss) m =
        NewApp B (mutated ss (config_of ss DefaultConfig)) (logger_of ss None) registry m"
proof -
  let ?o = "apply_options (options_of order ss) no_options"
  let ?fs = "op_factories ?o"
  have cfg: "resolve_config ?o = mutated ss (config_of ss DefaultConfig)" and log: "op_logger ?o = logger_of ss None"
    unfolding resolve_config_def supply_mutators supply_config supply_logger by (simp_all add: no_options_def)
  have fs: "distinct (map fst ?fs)" "map_of ?fs = supplied ss Map.empty"
    using supply_factories [OF assms, of no_options] by (simp_all add: no_options_def)
  have named: "(code, f) \<in> set (order ?fs) \<longleftrightarrow> supplied ss Map.empty code = Some f" for code f
    using ranged(3) [OF assms(1) fs(1)] fs by (metis map_of_eq_Some_iff)
  show ?thesis
  proof (cases "providerRegistry order ?fs")
    case (Inl e)
    then have "?fs = [] \<or> (\<exists>(code, f)\<in>set (order ?fs). trim_space code = [] \<or> f = None)"
      using register_all_Inl by (auto simp: providerRegistry_def split: if_splits)
    then have "supplied ss Map.empty = Map.empty \<or>
        (\<exists>code f. supplied ss Map.empty code = Some f \<and> (trim_space code = [] \<or> f = None))"
      using fs(2) named by auto
    moreover have "New B order (options_of order ss) m = (Inl e, m)"
      using Inl by (simp add: New_def Let_def bindE_liftE)
    ultimately show ?thesis by auto
  next
    case (Inr registry)
    then have r: "?fs \<noteq> []" "register_all (order ?fs) NewRegistry = Inr registry"
      by (auto simp: providerRegistry_def split: if_splits)
    have "map_of registry = map_of (order ?fs)"
      using register_all_InrE(1) [OF r(2)] fold_Register [OF ranged(2) [OF assms(1) fs(1)], of NewRegistry]
      by (simp add: NewRegistry_def)
    then have "map_of registry = supplied ss Map.empty" using ranged(1) [OF assms(1) fs(1)] fs(2) by simp
    moreover have "New B order (options_of order ss) m =
        NewApp B (mutated ss (config_of ss DefaultConfig)) (logger_of ss None) registry m"
      using Inr by (simp add: New_def Let_def bindE_liftE cfg log)
    moreover have "supplied ss Map.empty \<noteq> Map.empty" using r(1) fs(2) by (cases ?fs) auto
    moreover have "\<not> (\<exists>code f. supplied ss Map.empty code = Some f \<and> (trim_space code = [] \<or> f = None))"
      using register_all_InrE(2) [OF r(2)] named by blast
    ultimately show ?thesis by auto
  qed
qed

end
