(* ===== verification/Deployment.thy ===== *)
theory Deployment
  imports ApiFacts CryptoFacts LifecycleFacts Momobase
begin

text \<open>
  A sample deployment, on which the properties of starting, seeding, serving and closing are evaluated: an
  empty SQLite database, a production configuration, and one background task.
\<close>

definition sample_boot :: "unit boot_env" where
  "sample_boot =
     \<lparr>be_http = sample_http sample_auth, be_cipher = sample_cipher, be_keyed = (\<lambda>_. sample_auth),
      be_open = (\<lambda>driver dsn. Inr ()), be_pool = Inr (), be_close = Inr (), be_mkdir_of = (\<lambda>_. Inr ()),
      be_is_dir = (\<lambda>_. False), be_countries = (\<lambda>_. Inr []), be_order = (\<lambda>b. b), be_converge = (\<lambda>d. Inr d),
      be_tables = (\<lambda>_. empty_db), be_marshal = (\<lambda>_. Inr ''{}'')\<rparr>"

definition sample_machine :: "unit machine" where
  "sample_machine =
     \<lparr>mc_pools = 0, mc_disk = \<lparr>md_ledger = None, md_store = \<lparr>st_tables = Map.empty, st_faults = [], st_clock = 0\<rparr>\<rparr>, mc_world = sample_world,
      mc_lines = []\<rparr>"

section \<open>Starting up\<close>

definition sample_production :: config where
  "sample_production = DefaultConfig
     \<lparr>cfg_App := (cfg_App DefaultConfig)\<lparr>ac_Env := ''production'', ac_PublicURL := ''https://pay.example''\<rparr>,
      cfg_Security := (cfg_Security DefaultConfig)
        \<lparr>sc_EncryptionMasterKeyBase64 := ''MDEyMzQ1Njc4OWFiY2RlZjAxMjM0NTY3ODlhYmNkZWY='',
         sc_AdminOAuthSecret := ''an admin secret of thirty-two characters'',
         sc_AppOAuthSecret := ''an app secret of thirty-two characters''\<rparr>\<rparr>"

definition sample_run :: "(err + unit application) \<times> unit machine" where
  "sample_run = NewApp sample_boot sample_production None [] sample_machine"

lemma sample_started: "\<not> isl (fst sample_run)"
  by code_simp

lemma start_up_witness:
  "mc_pools (snd sample_run) = 1 \<and> hardened sample_production \<and>
   schema_settled sample_boot (mc_disk sample_machine) (mc_disk (snd sample_run)) \<and>
   list_all (\<lambda>(name, description, codes). grants (db (mc_world (snd sample_run))) name (listed_codes codes)) SystemRoles"
proof -
  obtain app where app: "fst sample_run = Inr app" using sample_started by (cases "fst sample_run") auto
  then have run: "NewApp sample_boot sample_production None [] sample_machine = (Inr app, snd sample_run)"
    unfolding sample_run_def by (metis prod.collapse)
  have "authz_ok (be_tables sample_boot (mc_disk (snd sample_run)))"
    by (simp add: sample_boot_def empty_db_def authz_defs)
  moreover have "fc_AutoMigrate (cfg_Features sample_production)" "ac_Env (cfg_App sample_production) = ''production''"
    "mc_pools sample_machine = 0"
    by (simp_all add: sample_production_def DefaultConfig_def sample_machine_def)
  ultimately show ?thesis using start_up [OF run] by (auto simp: list_all_iff)
qed

definition sample_factory :: "unit factory" where "sample_factory = (\<lambda>o_w. (Some sample_adapter, o_w))"

lemma options_resolved_witness:
  "\<exists>registry. map_of registry = [''dummy'' \<mapsto> Some sample_factory] \<and>
     New sample_boot id (options_of id [Addr '':80'', Provider ''dummy'' None, SetConfig DefaultConfig,
         Providers [(''dummy'', Some sample_factory)]]) sample_machine =
       NewApp sample_boot (DefaultConfig\<lparr>cfg_App := (cfg_App DefaultConfig)\<lparr>ac_Addr := '':80''\<rparr>\<rparr>) None registry sample_machine"
proof -
  let ?ss = "[Addr '':80'', Provider ''dummy'' None, SetConfig DefaultConfig, Providers [(''dummy'', Some sample_factory)]]"
  have s: "supplied ?ss Map.empty = [''dummy'' \<mapsto> Some sample_factory]" by simp
  have "trim_space ''dummy'' \<noteq> []" by code_simp
  then have ok: "\<not> ([''dummy'' \<mapsto> Some sample_factory] = Map.empty \<or>
      (\<exists>code f. [''dummy'' \<mapsto> Some sample_factory] code = Some f \<and> (trim_space code = [] \<or> f = None)))"
    by (auto split: if_splits)
  have "ranges (id :: unit factory_order)" "\<forall>s\<in>set ?ss. go_map s" by (simp_all add: ranges_def)
  from options_resolved [OF this, of sample_boot sample_machine] show ?thesis unfolding s if_not_P [OF ok] by simp
qed

section \<open>The first administrator\<close>

definition sample_application :: "unit application" where
  "sample_application =
     \<lparr>ap_Logger = LevelInfo, ap_http = sample_http sample_auth,
      ap_Workers = NewManager True [\<lparr>tk_Name = ''cleanup'', tk_Interval = second, tk_Run = cleanup_run\<rparr>],
      ap_Addr = '':9090'', ap_PublicDir = []\<rparr>"

definition sample_seeded :: "(err + unit) \<times> unit world" where
  "sample_seeded = SeedAdmin sample_application ''root@shop'' ''password1'' ''Root'' sample_office"

lemma seeded_admin_signs_in_witness:
  "\<exists>u w1. u \<in> set (t_adminUsers (db (snd sample_seeded))) \<and> au_Email u = ''root@shop'' \<and> au_Role u = ''super_admin'' \<and>
     IssuePasswordToken sample_auth ''root@shop'' ''password1'' [] [] (snd sample_seeded) = admin_issue sample_auth u None [] [] w1"
proof -
  have "fst sample_seeded = Inr ()" by code_simp
  then have run: "SeedAdmin sample_application ''root@shop'' ''password1'' ''Root'' sample_office = (Inr (), snd sample_seeded)"
    unfolding sample_seeded_def by (metis prod.collapse)
  have A: "he_auth (ap_http sample_application) = sample_auth" by (simp add: sample_application_def sample_http_def)
  have "hash_sound (he_auth (ap_http sample_application))" unfolding A by (simp add: hash_sound_def sample_auth_def)
  moreover have "faults (db (snd sample_seeded)) = []" by code_simp
  moreover have "to_lower (trim_space ''root@shop'') = ''root@shop''" by code_simp
  ultimately show ?thesis using seeded_admin_signs_in [OF run, of "[]" "[]"] unfolding A by simp
qed

section \<open>Closing\<close>

text \<open>The application is served, then the host cancels its context.\<close>

definition sample_cancelled :: "unit life" where
  "sample_cancelled = cancel CtxErr (serve_at 0 Loading ((new_life sample_application sample_machine)\<lparr>lf_served := True\<rparr>))"

lemma sample_cancelled_lived: "lived sample_boot sample_application no_body sample_machine sample_cancelled"
proof -
  let ?l = "new_life sample_application sample_machine"
  have "life_step sample_boot sample_application no_body ?l (serve_at 0 Loading (?l\<lparr>lf_served := True\<rparr>))"
    by (rule life_step.admitted) (simp_all add: new_life_def Serve_admit_def)
  moreover have "life_step sample_boot sample_application no_body (serve_at 0 Loading (?l\<lparr>lf_served := True\<rparr>)) sample_cancelled"
    unfolding sample_cancelled_def by (rule life_step.host_cancels) (simp_all add: serve_at_def)
  ultimately show ?thesis unfolding lived_def by (meson converse_rtranclp_into_rtranclp rtranclp.rtrancl_refl)
qed

lemma close_returns_witness:
  "\<exists>l'. own_steps sample_boot sample_application no_body 7 sample_cancelled l' \<and> lf_once l' = Finished \<and>
     lf_closing l' 7 = ClosedWith (lf_closeErr l')"
  by (rule close_returns [OF sample_cancelled_lived])
     (simp add: ticking_def sample_application_def NewManager_def)

text \<open>A call of \<open>Close\<close> before any of \<open>Serve\<close>, run to its end.\<close>

definition sample_marked :: "unit life" where
  "sample_marked = Close_mark 0 (close_at 0 InOnce ((new_life sample_application sample_machine)\<lparr>lf_once := Running 0\<rparr>))"

definition sample_closed :: "unit life" where
  "sample_closed = Close_database sample_boot 0 (Close_cancel 0 False sample_marked)"

lemma sample_closed_lived: "lived sample_boot sample_application no_body sample_machine sample_closed"
proof -
  let ?step = "life_step sample_boot sample_application no_body"
  let ?l = "new_life sample_application sample_machine"
  let ?l1 = "close_at 0 InOnce (?l\<lparr>lf_once := Running 0\<rparr>)"
  have "?step ?l ?l1" by (rule life_step.close_first) (simp_all add: new_life_def)
  moreover have "?step ?l1 sample_marked"
    unfolding sample_marked_def by (rule life_step.close_mark) (simp add: close_at_def)
  moreover have "?step sample_marked (Close_cancel 0 False sample_marked)"
    by (rule life_step.close_cancel) (simp add: sample_marked_def Close_mark_def close_at_def new_life_def)
  moreover have "?step (Close_cancel 0 False sample_marked) sample_closed"
    unfolding sample_closed_def
    by (rule life_step.close_database [where b = False]) (simp_all add: Close_cancel_def close_at_def)
  ultimately show ?thesis unfolding lived_def by (meson converse_rtranclp_into_rtranclp rtranclp.rtrancl_refl)
qed

lemma database_closed_last_witness:
  "mc_pools (lf_machine sample_closed) = -1 \<and> isl (fst (Serve_admit sample_closed)) \<and> Wait (lf_pool sample_closed)"
proof -
  have "mc_pools (lf_machine sample_closed) = -1"
    by (simp add: sample_closed_def Close_database_def sample_marked_def Close_mark_def Close_cancel_def close_at_def
        new_life_def sample_machine_def closeDatabase_def sample_boot_def wrapE_def liftE_def bindE_def handleE_def
        throwE_def returnE_def)
  moreover have "mc_pools sample_machine = 0" by (simp add: sample_machine_def)
  ultimately show ?thesis using database_closed_last [OF sample_closed_lived] by simp
qed

end
