(* ===== verification/Outbound.thy ===== *)
theory Outbound
  imports Utils ProviderApi
begin

text \<open>
  The helpers for adapters: \<open>providers/http.go\<close>, a JSON call of a provider, and \<open>providers/reference.go\<close>, a
  random reference. The HTTP client, the JSON encoder and decoder, the canonical form of a header name and
  the source of random bytes are parameters; \<open>order\<close> is the order of ranging over the header map.
\<close>

record http_call =
  hc_Method :: string
  hc_URL :: string
  hc_Header :: "string \<rightharpoonup> string"
  hc_Body :: "string option"

record http_reply =
  hr_StatusCode :: int
  hr_Status :: string
  hr_Body :: string

record 'p http_client =
  cl_request :: "string \<Rightarrow> string \<Rightarrow> err + unit"
  cl_canonical :: "string \<Rightarrow> string"
  cl_Do :: "http_call \<Rightarrow> ('p, http_reply) call"

definition set_header :: "'p http_client \<Rightarrow> string \<Rightarrow> string \<Rightarrow> (string \<rightharpoonup> string) \<Rightarrow> (string \<rightharpoonup> string)" where
  "set_header C key value h = h(cl_canonical C key \<mapsto> value)"

definition call_headers :: "'p http_client \<Rightarrow> (string \<times> string) list \<Rightarrow> bool \<Rightarrow> (string \<rightharpoonup> string)" where
  "call_headers C headers has_body =
     (let h = fold (\<lambda>(key, value) h. if value \<noteq> [] then set_header C key value h else h) headers Map.empty
      in if has_body then set_header C ''Content-Type'' ''application/json'' h else h)"

text \<open>\<open>inp\<close> is the encoding of the value to send, if there is one, and \<open>decode\<close> reads the answer into the
  value the caller wants, if it wants one.\<close>

definition DoJSON ::
    "'p http_client \<Rightarrow> string \<Rightarrow> string \<Rightarrow> (string \<times> string) list \<Rightarrow> (err + string) option \<Rightarrow>
     (string \<Rightarrow> err + 'a) option \<Rightarrow> ('p, 'a option) call" where
  "DoJSON C verb url headers inp decode =
     bindE (case inp of None \<Rightarrow> returnE None | Some enc \<Rightarrow> bindE (liftE enc) (\<lambda>raw. returnE (Some raw))) (\<lambda>body.
     bindE (liftE (cl_request C verb url)) (\<lambda>_.
     bindE (cl_Do C \<lparr>hc_Method = verb, hc_URL = url, hc_Header = call_headers C headers (inp \<noteq> None), hc_Body = body\<rparr>)
       (\<lambda>resp.
     if hr_StatusCode resp < 200 \<or> 300 \<le> hr_StatusCode resp
     then throwE (Msg (''provider api '' @ hr_Status resp @ '': '' @ Redact (trim_space (take 4096 (hr_Body resp)))))
     else case decode of
       None \<Rightarrow> returnE None
     | Some read \<Rightarrow> bindE (liftE (read (hr_Body resp))) (\<lambda>out. returnE (Some out)))))"

definition hex_digit :: "nat \<Rightarrow> char" where
  "hex_digit n = char_of (if n < 10 then n + 48 else n + 87)"

definition hex_encode :: "string \<Rightarrow> string" where
  "hex_encode bytes = concat (map (\<lambda>c. [hex_digit (of_char c div 16), hex_digit (of_char c mod 16)]) bytes)"

definition RandomRef :: "err + string \<Rightarrow> int \<Rightarrow> string \<Rightarrow> string" where
  "RandomRef random nanos prefix =
     (case random of Inl _ \<Rightarrow> prefix @ format_int nanos | Inr raw \<Rightarrow> prefix @ hex_encode raw)"

text \<open>References differ as soon as their random bytes do, and have one length.\<close>

lemma hex_digit_inj: "a < 16 \<Longrightarrow> b < 16 \<Longrightarrow> hex_digit a = hex_digit b \<Longrightarrow> a = b"
  by (auto simp: hex_digit_def char_of_quasi_inj split: if_splits)

lemma hex_byte_inj:
  assumes "hex_digit (of_char c div 16) = hex_digit (of_char d div 16)"
    and "hex_digit (of_char c mod 16) = hex_digit (of_char d mod 16)"
  shows "c = d"
proof -
  have "(of_char c :: nat) < 256" "(of_char d :: nat) < 256" by (simp_all add: nat_of_char_less_256)
  then have "(of_char c :: nat) div 16 < 16" "(of_char d :: nat) div 16 < 16" by (simp_all add: less_mult_imp_div_less)
  then have "(of_char c :: nat) div 16 = of_char d div 16" "(of_char c :: nat) mod 16 = of_char d mod 16"
    using assms by (auto intro!: hex_digit_inj)
  then have "(of_char c :: nat) = of_char d" by (metis div_mult_mod_eq)
  then show ?thesis by simp
qed

lemma hex_encode_inj: "hex_encode a = hex_encode b \<longleftrightarrow> a = b"
proof
  show "hex_encode a = hex_encode b \<Longrightarrow> a = b"
  proof (induction a arbitrary: b)
    case Nil
    then show ?case by (cases b) (simp_all add: hex_encode_def)
  next
    case (Cons c a)
    then obtain d b' where b: "b = d # b'" by (cases b) (auto simp: hex_encode_def)
    with Cons show ?case using hex_byte_inj [of c d] by (auto simp: hex_encode_def)
  qed
qed simp

lemma RandomRef_inj: "RandomRef (Inr a) n prefix = RandomRef (Inr b) k prefix \<longleftrightarrow> a = b"
  by (simp add: RandomRef_def hex_encode_inj)

lemma length_RandomRef: "length (RandomRef (Inr raw) n prefix) = length prefix + 2 * length raw"
proof -
  have "length (hex_encode raw) = 2 * length raw" unfolding hex_encode_def by (induction raw) simp_all
  then show ?thesis by (simp add: RandomRef_def)
qed

end
