(* ===== verification/Spec2Isabelle.thy ===== *)
theory Spec2Isabelle
  imports Permissions Amount PaymentFacts WebhookFacts Orphans Administration AdminDto Respond ApiFacts DummyFacts
    MigrationFacts Deployment Outbound
begin

text \<open>
  Momobase is a payment gateway in Go: applications ask it over HTTP to collect or disburse money, it
  chooses a provider account, calls the provider through an adapter, and follows the transaction by
  webhooks and reconciliation until its status is final. Administrators manage accounts, routes, roles and
  applications. This library models the server from the HTTP routes down to single database statements.

  \<^bold>\<open>How code becomes definitions.\<close> A Go function with an error result that changes state is a function from
  a state to a result in \<open>err + 'a\<close> and the new state; \<open>bindE\<close> is the early return, \<open>wrapE\<close> the \<open>%w\<close> of an
  error, a panic the error \<open>Panic\<close> (\<open>Prelude\<close>). The state of the engine is \<open>world\<close> (\<open>World\<close>): the tables,
  the loaded runtimes with their circuit breakers, the hooks, the clock, and the state outside that adapters
  own. Tables are lists of records (\<open>Store\<close>). Every database statement first takes a bit of \<open>faults\<close> that
  says whether it fails, so each error path of each operation is reachable, and \<open>Within\<close> restores the tables
  when its body fails. Amounts are 64-bit words and times unbounded nanoseconds. The bytes of Go strings are
  characters. Maps are association lists; where the code ranges over a map, its order is a parameter.

  \<^bold>\<open>The theories.\<close>

  \<^item> Base: \<open>Prelude\<close>, \<open>GoStrings\<close> (strings, strconv), \<open>Utils\<close> (\<open>internal/utils\<close>, \<open>providers/redact.go\<close>),
    \<open>Calendar\<close> (time), \<open>Domain\<close>, \<open>Charges\<close>, \<open>Permissions\<close> (\<open>internal/domain\<close>), \<open>Amount\<close> (\<open>providers/amount.go\<close>),
    \<open>Dto\<close> and \<open>AdminDto\<close> (\<open>internal/dto\<close>), \<open>Hooks\<close> (\<open>hooks\<close>).
  \<^item> Data: \<open>Store\<close> and \<open>Repos\<close> (\<open>internal/repository\<close>): one operation per method, with unique indexes,
    conditional updates and defaults; \<open>Statements\<close> tells what one statement leaves.
  \<^item> Providers: \<open>ProviderApi\<close> (\<open>providers/provider.go\<close>, \<open>registry.go\<close>), \<open>Circuit\<close> and \<open>Executor\<close>
    (\<open>internal/service/provider\<close>: \<open>runtime.go\<close>, \<open>executor.go\<close>), \<open>ProviderAdmin\<close> (\<open>admin.go\<close>, \<open>health.go\<close>),
    \<open>Dummy\<close> (\<open>providers/dummy\<close>), \<open>Outbound\<close> (\<open>providers/http.go\<close>, \<open>reference.go\<close>).
  \<^item> Payments: \<open>Routing\<close> and \<open>RoutingAdmin\<close> (\<open>internal/service/routing\<close>), \<open>Payment\<close>, \<open>Webhook\<close>,
    \<open>Reconciliation\<close> (the services of these names). \<open>Ledger\<close>, \<open>Effects\<close> and \<open>System\<close> hold what they share:
    how a row may change, what each operation does to the tables, and the transition system.
  \<^item> Identity: \<open>Tokens\<close> (\<open>internal/platform/token.go\<close>), \<open>AuditTrail\<close>, \<open>Authz\<close>, \<open>Identity\<close>, \<open>Analytics\<close>
    (\<open>internal/service/audit\<close>, \<open>identity\<close>), \<open>Crypto\<close> (\<open>internal/platform/crypto.go\<close>).
  \<^item> HTTP: \<open>Middleware\<close>, \<open>Respond\<close>, \<open>Http\<close>, \<open>AdminApi\<close>, \<open>PublicApi\<close>, \<open>Router\<close> (\<open>internal/http\<close>,
    \<open>internal/platform\<close>). A response is a status with a payload or a refusal; \<open>serve_request\<close> is the server.
  \<^item> Process: \<open>Config\<close>, \<open>Migrations\<close> (\<open>internal/migrations\<close>), \<open>Workers\<close> (\<open>internal/workers\<close>), \<open>Bootstrap\<close> and
    \<open>Lifecycle\<close> (\<open>internal/bootstrap\<close>), \<open>Momobase\<close> (\<open>momobase.go\<close>).
  \<^item> \<open>Samples\<close> and \<open>Deployment\<close> are concrete instances the properties are evaluated on; the theories named
    \<open>...Facts\<close>, with \<open>Runs\<close>, \<open>Orphans\<close>, \<open>Lockout\<close> and \<open>Administration\<close>, hold lemmas and properties.

  \<^bold>\<open>The parts together.\<close> A request passes the guards of its route (\<open>run_chain\<close>) and calls one service. A payment
  is normalized, checked against its idempotency key, routed (\<open>SelectProvider\<close>), stored before the provider is
  called, and its outcome is recorded afterwards; webhooks and reconciliation change the same rows later.
  \<open>System\<close> runs all of them at once: a step is one database transaction, and what an operation carries between
  two of its steps is part of the state. \<open>Runs\<close> proves that every path of the services is a path of the
  system, \<open>Administration\<close> the same of administrative work. \<open>Lifecycle\<close> puts the server, the workers and
  concurrent calls of \<open>Serve\<close> and \<open>Close\<close> around it, one step per critical section.

  \<^bold>\<open>What is shown.\<close>

  \<^item> Payments: at most one provider call per application and key, final statuses stay final and the money
    fields of a row never change, an outcome can always be recorded, a replay changes nothing, what a created
    and a failed payment leave behind, fees and amount texts exact, selection sound and best.
  \<^item> Webhooks and reconciliation: a delivery needs the secret of its account, what an accepted one changes,
    that a query touches its row only, and that an unanswered payment is never settled.
  \<^item> Identity: scopes, live sessions, revocation, lockout, roles, and the same at the level of routes.
  \<^item> The API: which guard or handler answers, refusals without effect, reads without effect, analytics that count exactly.
  \<^item> Providers: the breaker refines a three-state automaton, a refused change of an account is undone, stored
    configurations decrypt and load, the simulated balance follows what the provider reports.
  \<^item> The process: start-up is all or nothing, migrations run once and in order and can be interrupted, the
    database outlives its users, \<open>Close\<close> returns.

  \<^bold>\<open>Interfaces.\<close> Locales state what proofs need of a layer: \<open>effect_preorder\<close> (a relation operations are bounded
  by, closed under sequencing), its extensions \<open>db_relation\<close> and \<open>world_relation\<close>, and \<open>table\<close> (selector and
  update of a table), interpreted for every relation and every table of the model.

  \<^bold>\<open>Termination and bounds.\<close> All definitions are total: recursions are structural or have a measure (the
  bucket loop is bounded by \<open>maxAnalyticsBuckets\<close>). No fuel is used. Endless behaviour, of the workers, of the
  server and of the system, is a step relation, and that something returns is stated as the existence of
  steps to it. Pagination, amounts and fees are on 64-bit words, with the overflows of the code.

  \<^bold>\<open>Assumptions.\<close> They are hypotheses about code outside the repository: the JSON codec keeps the provider
  reference of an event (\<open>json_keeps_reference\<close>), a token parses to the same claims while it parses
  (\<open>token_stable\<close>), a database labels buckets as the Go code does and may reorder rows (\<open>renders\<close>,
  \<open>permutes_lists\<close>), a range over a map permutes it (\<open>reorders\<close>, \<open>ranges\<close>), AES-GCM opens what it sealed
  (\<open>gcm_lawful\<close>), bcrypt accepts what it hashed (\<open>hash_sound\<close>). \<open>ticking\<close> asks for positive worker intervals.
  Adapters, bcrypt, HMAC, SHA-256, JSON, region tables, the database drivers and the limiter counters are
  parameters of the definitions.

  \<^bold>\<open>Not modelled.\<close> Log lines other than the ones the worker and the start-up write, metrics of requests, CORS,
  compression and the static site (they do not decide an outcome), the wire format of responses, SQL texts,
  database isolation below a transaction, mutexes where a whole body runs under one lock (such a body is one
  step), timeouts inside adapters, a panic that ends the process (a panicked worker just stays), the access
  log, the documentation types, the examples and the test support.
\<close>

end
